(* ===== verification/Prelude.thy ===== *)
theory Prelude
  imports Main "HOL-Library.Sublist" "HOL-Library.List_Lexorder" "HOL-Library.Char_ord"
    "HOL-Library.Product_Lexorder"
begin

text \<open>
  The shared vocabulary of the development.

  \<^item> \<open>op\<close>: the shape of every repository method. An operation reads the database state and
    returns a result (an error or a value) together with the state that is left behind. Rust's
    \<open>?\<close> operator is \<open>bnd\<close>: an error stops the operation and keeps the state as it is at that
    point, exactly as an autocommitted statement would. A libSQL transaction that is dropped
    without \<open>commit\<close> is \<open>transaction\<close>: an error restores the state it began with.
  \<^item> \<open>sql_write\<close>: one SQL statement that writes. It is atomic, and it fails, leaving the
    state unchanged, when the new state would break a constraint of the schema.
  \<^item> \<open>update_rows\<close>, \<open>count_rows\<close>, \<open>first_by\<close>: the SQL \<open>UPDATE .. WHERE\<close>,
    \<open>SELECT COUNT(*)\<close> and \<open>SELECT .. ORDER BY .. LIMIT 1\<close> on a table kept as a list of rows.
  \<^item> \<open>keeps\<close>: an operation preserves an invariant; its rules compose along the program.
\<close>

named_theorems op_defs \<open>unfolding rules of the operation combinators\<close>
named_theorems raises_rules \<open>composition rules for the errors an operation can return\<close>
named_theorems keeps_rules \<open>composition rules for preserved invariants\<close>

subsection \<open>Operations with errors and state\<close>

type_synonym ('s, 'e, 'a) op = "'s \<Rightarrow> ('e + 'a) \<times> 's"

definition ok :: "'a \<Rightarrow> ('s, 'e, 'a) op" where
  "ok a = (\<lambda>s. (Inr a, s))"

definition raise :: "'e \<Rightarrow> ('s, 'e, 'a) op" where
  "raise e = (\<lambda>s. (Inl e, s))"

definition bnd :: "('s, 'e, 'a) op \<Rightarrow> ('a \<Rightarrow> ('s, 'e, 'b) op) \<Rightarrow> ('s, 'e, 'b) op" where
  "bnd m f = (\<lambda>s. case m s of (Inl e, t) \<Rightarrow> (Inl e, t) | (Inr a, t) \<Rightarrow> f a t)"

definition thn :: "('s, 'e, 'a) op \<Rightarrow> ('s, 'e, 'b) op \<Rightarrow> ('s, 'e, 'b) op" where
  "thn m k = bnd m (\<lambda>_. k)"

definition gets :: "('s \<Rightarrow> 'a) \<Rightarrow> ('s, 'e, 'a) op" where
  "gets f = (\<lambda>s. (Inr (f s), s))"

definition lift_res :: "'e + 'a \<Rightarrow> ('s, 'e, 'a) op" where
  "lift_res r = (\<lambda>s. (r, s))"

definition require :: "bool \<Rightarrow> 'e \<Rightarrow> ('s, 'e, unit) op" where
  "require b e = (if b then ok () else raise e)"

definition some_or :: "'e \<Rightarrow> 'a option \<Rightarrow> ('s, 'e, 'a) op" where
  "some_or e x = (case x of None \<Rightarrow> raise e | Some a \<Rightarrow> ok a)"

definition transaction :: "('s, 'e, 'a) op \<Rightarrow> ('s, 'e, 'a) op" where
  "transaction m = (\<lambda>s. case m s of (Inl e, _) \<Rightarrow> (Inl e, s) | (Inr a, t) \<Rightarrow> (Inr a, t))"

definition sql_write :: "('s \<Rightarrow> bool) \<Rightarrow> 'e \<Rightarrow> ('s \<Rightarrow> 'a \<times> 's) \<Rightarrow> ('s, 'e, 'a) op" where
  "sql_write valid e f =
     (\<lambda>s. let (a, t) = f s in if valid t then (Inr a, t) else (Inl e, s))"

fun for_each :: "('x \<Rightarrow> ('s, 'e, unit) op) \<Rightarrow> 'x list \<Rightarrow> ('s, 'e, unit) op" where
  "for_each f [] = ok ()"
| "for_each f (x # xs) = thn (f x) (for_each f xs)"

fun collect_each :: "('x \<Rightarrow> ('s, 'e, 'a) op) \<Rightarrow> 'x list \<Rightarrow> ('s, 'e, 'a list) op" where
  "collect_each f [] = ok []"
| "collect_each f (x # xs) =
     bnd (f x) (\<lambda>a. bnd (collect_each f xs) (\<lambda>as. ok (a # as)))"

text \<open>\<open>map_err\<close>: the error is translated, the value and the state are kept.\<close>

definition map_err :: "('e \<Rightarrow> 'f) \<Rightarrow> ('s, 'e, 'a) op \<Rightarrow> ('s, 'f, 'a) op" where
  "map_err h m = (\<lambda>s. case m s of (Inl e, t) \<Rightarrow> (Inl (h e), t) | (Inr a, t) \<Rightarrow> (Inr a, t))"

declare ok_def [op_defs] raise_def [op_defs] bnd_def [op_defs] thn_def [op_defs]
  gets_def [op_defs] lift_res_def [op_defs] require_def [op_defs] some_or_def [op_defs]
  transaction_def [op_defs] sql_write_def [op_defs]

lemma bnd_ok [simp]: "bnd (ok a) f = f a"
  by (simp add: bnd_def ok_def)

lemma bnd_raise [simp]: "bnd (raise e) f = raise e"
  by (simp add: bnd_def raise_def)

lemma bnd_assoc: "bnd (bnd m f) g = bnd m (\<lambda>a. bnd (f a) g)"
  by (rule ext) (auto simp: bnd_def split: prod.splits sum.splits)

lemma thn_ok [simp]: "thn (ok a) k = k"
  by (simp add: thn_def)

lemma thn_raise [simp]: "thn (raise e) k = raise e"
  by (simp add: thn_def)

lemma require_True [simp]: "require True e = ok ()"
  by (simp add: require_def)

lemma require_False [simp]: "require False e = raise e"
  by (simp add: require_def)

lemma bnd_Inr: "bnd m f s = (Inr b, t) \<longleftrightarrow> (\<exists>a u. m s = (Inr a, u) \<and> f a u = (Inr b, t))"
  by (auto simp: bnd_def split: prod.splits sum.splits)

lemma thn_Inr: "thn m k s = (Inr b, t) \<longleftrightarrow> (\<exists>a u. m s = (Inr a, u) \<and> k u = (Inr b, t))"
  by (simp add: thn_def bnd_Inr)

lemma bnd_eqI: "m s = (Inr a, u) \<Longrightarrow> f a u = r \<Longrightarrow> bnd m f s = r"
  by (simp add: bnd_def)

lemma thn_eqI: "m s = (Inr a, u) \<Longrightarrow> k u = r \<Longrightarrow> thn m k s = r"
  by (simp add: thn_def bnd_def)

lemma bnd_InlI: "m s = (Inl e, u) \<Longrightarrow> bnd m f s = (Inl e, u)"
  by (simp add: bnd_def)

lemma require_Inr: "require b e s = (Inr a, t) \<longleftrightarrow> b \<and> t = s"
  by (auto simp: require_def ok_def raise_def)

lemma ok_Inr: "ok a s = (Inr b, t) \<longleftrightarrow> b = a \<and> t = s"
  by (auto simp: ok_def)

lemma raise_Inr: "\<not> raise e s = (Inr b, t)"
  by (simp add: raise_def)

lemma gets_Inr: "gets f s = (Inr b, t) \<longleftrightarrow> b = f s \<and> t = s"
  by (auto simp: gets_def)

lemma some_or_Inr: "some_or e x s = (Inr b, t) \<longleftrightarrow> x = Some b \<and> t = s"
  by (auto simp: some_or_def ok_def raise_def split: option.splits)

lemma lift_res_Inr: "lift_res r s = (Inr b, t) \<longleftrightarrow> r = Inr b \<and> t = s"
  by (auto simp: lift_res_def)

lemma sql_write_Inr:
  "sql_write valid e f s = (Inr b, t) \<longleftrightarrow> f s = (b, t) \<and> valid t"
  by (auto simp: sql_write_def Let_def split: prod.splits if_splits)

lemma transaction_Inr: "transaction m s = (Inr b, t) \<longleftrightarrow> m s = (Inr b, t)"
  by (auto simp: transaction_def split: prod.splits sum.splits)

lemma transaction_Inl: "transaction m s = (Inl e, t) \<longleftrightarrow> t = s \<and> (\<exists>u. m s = (Inl e, u))"
  by (auto simp: transaction_def split: prod.splits sum.splits)

lemma map_err_Inr: "map_err h m s = (Inr b, t) \<longleftrightarrow> m s = (Inr b, t)"
  by (auto simp: map_err_def split: prod.splits sum.splits)

lemma map_err_Inl: "map_err h m s = (Inl e, t) \<longleftrightarrow> (\<exists>d. m s = (Inl d, t) \<and> e = h d)"
  by (auto simp: map_err_def split: prod.splits sum.splits)

lemmas op_Inr = map_err_Inr bnd_Inr thn_Inr require_Inr ok_Inr raise_Inr gets_Inr some_or_Inr lift_res_Inr
  sql_write_Inr transaction_Inr

text \<open>A transaction that fails leaves the state as it found it.\<close>

lemma transaction_atomic: "fst (transaction m s) = Inl e \<Longrightarrow> snd (transaction m s) = s"
  by (auto simp: transaction_def split: prod.splits sum.splits)

subsection \<open>Results without state, and panics\<close>

text \<open>
  Pure fallible code returns \<open>Result\<close>: a sum. An \<open>anyhow::Error\<close> is its message; a Rust
  panic (a failed \<open>expect\<close>) is a fault of its own, so that no branch is lost.
\<close>

datatype fault = Err string | Panic string

definition rbnd :: "'e + 'a \<Rightarrow> ('a \<Rightarrow> 'e + 'b) \<Rightarrow> 'e + 'b" where
  "rbnd r f = (case r of Inl e \<Rightarrow> Inl e | Inr a \<Rightarrow> f a)"

lemma rbnd_Inr [simp]: "rbnd (Inr a) f = f a"
  by (simp add: rbnd_def)

lemma rbnd_Inl [simp]: "rbnd (Inl e) f = Inl e"
  by (simp add: rbnd_def)

lemma rbnd_eq_Inr: "rbnd r f = Inr b \<longleftrightarrow> (\<exists>a. r = Inr a \<and> f a = Inr b)"
  by (auto simp: rbnd_def split: sum.splits)

fun rfold :: "('a \<Rightarrow> 'e + unit) \<Rightarrow> 'a list \<Rightarrow> 'e + unit" where
  "rfold f [] = Inr ()"
| "rfold f (x # xs) = rbnd (f x) (\<lambda>_. rfold f xs)"

lemma rfold_Inr: "rfold f xs = Inr u \<longleftrightarrow> (\<forall>x \<in> set xs. f x = Inr ())"
  by (induction xs) (auto simp: rbnd_eq_Inr)

definition expect :: "string \<Rightarrow> 'a option \<Rightarrow> fault + 'a" where
  "expect msg x = (case x of None \<Rightarrow> Inl (Panic msg) | Some a \<Rightarrow> Inr a)"

definition context_or :: "string \<Rightarrow> 'a option \<Rightarrow> fault + 'a" where
  "context_or msg x = (case x of None \<Rightarrow> Inl (Err msg) | Some a \<Rightarrow> Inr a)"

lemma expect_simps [simp]: "expect m (Some a) = Inr a" "expect m None = Inl (Panic m)"
  by (simp_all add: expect_def)

lemma context_or_simps [simp]: "context_or m (Some a) = Inr a" "context_or m None = Inl (Err m)"
  by (simp_all add: context_or_def)

subsection \<open>Preserved invariants\<close>

definition keeps :: "('s \<Rightarrow> bool) \<Rightarrow> ('s, 'e, 'a) op \<Rightarrow> bool" where
  "keeps I m \<longleftrightarrow> (\<forall>s. I s \<longrightarrow> I (snd (m s)))"

lemma keepsD: "keeps I m \<Longrightarrow> I s \<Longrightarrow> m s = (r, t) \<Longrightarrow> I t"
  unfolding keeps_def by (metis snd_conv)

lemma keeps_snd: "keeps I m \<Longrightarrow> I s \<Longrightarrow> I (snd (m s))"
  by (simp add: keeps_def)

lemma keepsI: "(\<And>s r t. I s \<Longrightarrow> m s = (r, t) \<Longrightarrow> I t) \<Longrightarrow> keeps I m"
  unfolding keeps_def by (metis prod.collapse)

lemma keeps_ok [keeps_rules, intro]: "keeps I (ok a)"
  by (simp add: keeps_def ok_def)

lemma keeps_raise [keeps_rules, intro]: "keeps I (raise e)"
  by (simp add: keeps_def raise_def)

lemma keeps_gets [keeps_rules, intro]: "keeps I (gets f)"
  by (simp add: keeps_def gets_def)

lemma keeps_lift_res [keeps_rules, intro]: "keeps I (lift_res r)"
  by (simp add: keeps_def lift_res_def)

lemma keeps_require [keeps_rules, intro]: "keeps I (require b e)"
  by (simp add: require_def keeps_ok keeps_raise)

lemma keeps_some_or [keeps_rules, intro]: "keeps I (some_or e x)"
  by (cases x) (simp_all add: some_or_def keeps_ok keeps_raise)

lemma keeps_bnd [keeps_rules, intro]:
  assumes "keeps I m" and "\<And>a. keeps I (f a)"
  shows "keeps I (bnd m f)"
proof (rule keepsI)
  fix s r t
  assume "I s" and eq: "bnd m f s = (r, t)"
  obtain x u where m: "m s = (x, u)" by (cases "m s")
  with \<open>I s\<close> assms(1) have "I u" by (blast intro: keepsD)
  with eq m assms(2) show "I t"
    by (auto simp: bnd_def split: sum.splits intro: keepsD)
qed

lemma keeps_thn [keeps_rules, intro]: "keeps I m \<Longrightarrow> keeps I k \<Longrightarrow> keeps I (thn m k)"
  by (simp add: thn_def keeps_bnd)

lemma keeps_transaction [keeps_rules, intro]: "keeps I m \<Longrightarrow> keeps I (transaction m)"
  by (auto simp: keeps_def transaction_def split: prod.splits sum.splits)

lemma keeps_for_each [keeps_rules, intro]: "(\<And>x. keeps I (f x)) \<Longrightarrow> keeps I (for_each f xs)"
  by (induction xs) (auto intro: keeps_ok keeps_thn)

lemma keeps_collect_each [keeps_rules, intro]:
  "(\<And>x. keeps I (f x)) \<Longrightarrow> keeps I (collect_each f xs)"
  by (induction xs) (auto intro: keeps_ok keeps_bnd)

lemma keeps_case_option [keeps_rules, intro]:
  "keeps I a \<Longrightarrow> (\<And>x. keeps I (b x)) \<Longrightarrow> keeps I (case z of None \<Rightarrow> a | Some x \<Rightarrow> b x)"
  by (cases z) auto

lemma keeps_if [keeps_rules, intro]: "keeps I a \<Longrightarrow> keeps I b \<Longrightarrow> keeps I (if c then a else b)"
  by simp

lemma keeps_map_err [keeps_rules, intro]: "keeps I m \<Longrightarrow> keeps I (map_err h m)"
  by (auto simp: keeps_def map_err_def split: prod.splits sum.splits)

lemma keeps_valid_write: "keeps valid (sql_write valid e f)"
  by (auto simp: keeps_def sql_write_def Let_def split: prod.splits)

lemma keeps_sql_write:
  "(\<And>s. I s \<Longrightarrow> valid (snd (f s)) \<Longrightarrow> I (snd (f s))) \<Longrightarrow> keeps I (sql_write valid e f)"
  by (simp add: keeps_def sql_write_def Let_def split_beta)

text \<open>Reading operations: the state is returned as it was.\<close>

definition reads :: "('s, 'e, 'a) op \<Rightarrow> bool" where
  "reads m \<longleftrightarrow> (\<forall>s. snd (m s) = s)"

lemma readsD: "reads m \<Longrightarrow> m s = (r, t) \<Longrightarrow> t = s"
  unfolding reads_def by (metis snd_conv)

lemma reads_intros [intro]:
  "reads (ok a)" "reads (raise e)" "reads (gets g)" "reads (lift_res r)" "reads (require b e)"
  "reads (some_or e x)"
  by (auto simp: reads_def op_defs split: option.splits)

lemma reads_bnd [intro]: "reads m \<Longrightarrow> (\<And>a. reads (f a)) \<Longrightarrow> reads (bnd m f)"
  by (auto simp: reads_def bnd_def split: prod.splits sum.splits) (metis snd_conv)+

lemma reads_map_err [intro]: "reads m \<Longrightarrow> reads (map_err h m)"
  by (auto simp: reads_def map_err_def split: prod.splits sum.splits) (metis snd_conv)+

lemma reads_keeps: "reads m \<Longrightarrow> keeps I m"
  by (simp add: reads_def keeps_def)

text \<open>The errors an operation can return.\<close>

definition raises :: "('e \<Rightarrow> bool) \<Rightarrow> ('s, 'e, 'a) op \<Rightarrow> bool" where
  "raises E m \<longleftrightarrow> (\<forall>s e. fst (m s) = Inl e \<longrightarrow> E e)"

lemma raisesD: "raises E m \<Longrightarrow> m s = (Inl e, t) \<Longrightarrow> E e"
  unfolding raises_def by (metis fst_conv)

lemma raises_basic [raises_rules]:
  "raises E (ok a)" "raises E (gets g)" "E e \<Longrightarrow> raises E (raise e)" "E e \<Longrightarrow> raises E (require b e)"
  "E e \<Longrightarrow> raises E (some_or e x)" "(\<And>e. r = Inl e \<Longrightarrow> E e) \<Longrightarrow> raises E (lift_res r)"
  "E e \<Longrightarrow> raises E (sql_write valid e f)"
  by (auto simp: raises_def op_defs Let_def split: option.splits prod.splits if_splits)

lemma raises_bnd [raises_rules]: "raises E m \<Longrightarrow> (\<And>a. raises E (f a)) \<Longrightarrow> raises E (bnd m f)"
  by (auto simp: raises_def bnd_def split: prod.splits sum.splits) (metis fst_conv)+

lemma raises_thn [raises_rules]: "raises E m \<Longrightarrow> raises E k \<Longrightarrow> raises E (thn m k)"
  by (simp add: thn_def raises_bnd)

lemma raises_transaction [raises_rules]: "raises E m \<Longrightarrow> raises E (transaction m)"
  by (auto simp: raises_def transaction_def split: prod.splits sum.splits) (metis fst_conv)+

lemma raises_for_each [raises_rules]: "(\<And>x. raises E (f x)) \<Longrightarrow> raises E (for_each f xs)"
  by (induction xs) (auto intro: raises_rules)

lemma raises_collect_each [raises_rules]: "(\<And>x. raises E (f x)) \<Longrightarrow> raises E (collect_each f xs)"
  by (induction xs) (auto intro: raises_rules)

lemma raises_case_option [raises_rules]:
  "raises E a \<Longrightarrow> (\<And>x. raises E (b x)) \<Longrightarrow> raises E (case z of None \<Rightarrow> a | Some x \<Rightarrow> b x)"
  by (cases z) auto

lemma raises_if [raises_rules]: "raises E a \<Longrightarrow> raises E b \<Longrightarrow> raises E (if c then a else b)"
  by simp

subsection \<open>Tables as lists of rows\<close>

definition update_rows :: "('r \<Rightarrow> bool) \<Rightarrow> ('r \<Rightarrow> 'r) \<Rightarrow> 'r list \<Rightarrow> 'r list" where
  "update_rows P f = map (\<lambda>r. if P r then f r else r)"

definition count_rows :: "('r \<Rightarrow> bool) \<Rightarrow> 'r list \<Rightarrow> nat" where
  "count_rows P rs = length (filter P rs)"

definition first_by :: "('r \<Rightarrow> 'k::linorder) \<Rightarrow> ('r \<Rightarrow> bool) \<Rightarrow> 'r list \<Rightarrow> 'r option" where
  "first_by key P rs = (case sort_key key (filter P rs) of [] \<Rightarrow> None | r # _ \<Rightarrow> Some r)"

lemma first_by_Some: "first_by key P rs = Some r \<Longrightarrow> r \<in> set rs \<and> P r"
proof -
  assume "first_by key P rs = Some r"
  then have "r \<in> set (sort_key key (filter P rs))"
    by (cases "sort_key key (filter P rs)") (simp_all add: first_by_def)
  then show ?thesis by simp
qed

lemma first_by_None: "first_by key P rs = None \<longleftrightarrow> (\<forall>r \<in> set rs. \<not> P r)"
proof -
  have "first_by key P rs = None \<longleftrightarrow> sort_key key (filter P rs) = []"
    by (auto simp: first_by_def split: list.splits)
  also have "\<dots> \<longleftrightarrow> filter P rs = []"
    by (metis length_0_conv length_sort)
  finally show ?thesis by (simp add: filter_empty_conv)
qed

lemma set_update_rows: "set (update_rows P f rs) = (\<lambda>r. if P r then f r else r) ` set rs"
  by (simp add: update_rows_def)

lemma length_update_rows [simp]: "length (update_rows P f rs) = length rs"
  by (simp add: update_rows_def)

lemma update_rows_Nil [simp]: "update_rows P f [] = []"
  by (simp add: update_rows_def)

lemma update_rows_Cons [simp]:
  "update_rows P f (r # rs) = (if P r then f r else r) # update_rows P f rs"
  by (simp add: update_rows_def)

lemma update_rows_append [simp]:
  "update_rows P f (rs @ qs) = update_rows P f rs @ update_rows P f qs"
  by (simp add: update_rows_def)

lemma update_rows_none: "(\<And>r. r \<in> set rs \<Longrightarrow> \<not> P r) \<Longrightarrow> update_rows P f rs = rs"
  by (induction rs) auto

lemma map_update_rows: "(\<And>r. key (f r) = key r) \<Longrightarrow> map key (update_rows P f rs) = map key rs"
  by (induction rs) auto

lemma count_rows_Nil [simp]: "count_rows P [] = 0"
  by (simp add: count_rows_def)

lemma count_rows_Cons [simp]:
  "count_rows P (r # rs) = (if P r then Suc (count_rows P rs) else count_rows P rs)"
  by (simp add: count_rows_def)

lemma count_rows_0: "count_rows P rs = 0 \<longleftrightarrow> (\<forall>r \<in> set rs. \<not> P r)"
  by (simp add: count_rows_def filter_empty_conv)

lemma count_rows_pos: "0 < count_rows P rs \<Longrightarrow> \<exists>r \<in> set rs. P r"
  by (metis count_rows_0 less_numeral_extra(3))

lemma count_rows_key:
  assumes "distinct (map key rs)"
  shows "count_rows (\<lambda>r. key r = k \<and> Q r) rs = (if \<exists>r \<in> set rs. key r = k \<and> Q r then 1 else 0)"
  using assms
proof (induction rs)
  case Nil
  then show ?case by simp
next
  case (Cons a rs)
  show ?case
  proof (cases "key a = k")
    case True
    with Cons.prems have "\<forall>r \<in> set rs. key r \<noteq> k" by (auto simp: image_iff)
    then have "count_rows (\<lambda>r. key r = k \<and> Q r) rs = 0" by (simp add: count_rows_0)
    with True \<open>\<forall>r \<in> set rs. key r \<noteq> k\<close> show ?thesis by simp
  next
    case False
    with Cons show ?thesis by auto
  qed
qed

lemma find_key:
  assumes "distinct (map key rs)" and "r \<in> set rs"
  shows "find (\<lambda>q. key q = key r) rs = Some r"
  using assms by (induction rs) (auto simp: image_iff)

lemma find_set: "find P rs = Some r \<Longrightarrow> r \<in> set rs \<and> P r"
  by (auto simp: find_Some_iff)

lemma distinct_key_eq:
  "distinct (map key rs) \<Longrightarrow> a \<in> set rs \<Longrightarrow> b \<in> set rs \<Longrightarrow> key a = key b \<Longrightarrow> a = b"
  by (metis find_key option.inject)

subsection \<open>Relations between the states before and after\<close>

text \<open>
  \<open>evolves R m\<close>: whatever \<open>m\<close> returns, the state it leaves is related to the state it found. For a
  reflexive and transitive \<open>R\<close> (a locale, interpreted on the relations of the components: rows that
  are kept, states that are final) the relation composes along the program.
\<close>

definition evolves :: "('s \<Rightarrow> 's \<Rightarrow> bool) \<Rightarrow> ('s, 'e, 'a) op \<Rightarrow> bool" where
  "evolves R m \<longleftrightarrow> (\<forall>s. R s (snd (m s)))"

lemma evolvesD: "evolves R m \<Longrightarrow> m s = (r, t) \<Longrightarrow> R s t"
  unfolding evolves_def by (metis snd_conv)

lemma evolves_map_err: "evolves R m \<Longrightarrow> evolves R (map_err h m)"
  by (auto simp: evolves_def map_err_def split: prod.splits sum.splits) (metis snd_conv)+

locale evolution =
  fixes R :: "'s \<Rightarrow> 's \<Rightarrow> bool"
  assumes refl: "R s s"
    and trans: "R s t \<Longrightarrow> R t u \<Longrightarrow> R s u"
begin

lemma evolves_pure:
  "evolves R (ok a)" "evolves R (gets g)" "evolves R (raise e)" "evolves R (require b e)"
  "evolves R (some_or e x)" "evolves R (lift_res r)"
  by (auto simp: evolves_def op_defs refl split: option.splits)

lemma evolves_reads: "reads m \<Longrightarrow> evolves R m"
  by (simp add: reads_def evolves_def refl)

lemma evolves_bnd: "evolves R m \<Longrightarrow> (\<And>a. evolves R (f a)) \<Longrightarrow> evolves R (bnd m f)"
proof -
  assume m: "evolves R m" and f: "\<And>a. evolves R (f a)"
  show ?thesis
    unfolding evolves_def
  proof
    fix s
    obtain r t where eq: "m s = (r, t)" by (cases "m s")
    then have "R s t" using evolvesD [OF m] by blast
    moreover have "R t (snd (f a t))" for a using f by (simp add: evolves_def)
    ultimately show "R s (snd (bnd m f s))" using trans eq by (auto simp: bnd_def split: sum.splits)
  qed
qed

lemma evolves_thn: "evolves R m \<Longrightarrow> evolves R k \<Longrightarrow> evolves R (thn m k)"
  by (simp add: thn_def evolves_bnd)

lemma evolves_transaction: "evolves R m \<Longrightarrow> evolves R (transaction m)"
  by (auto simp: evolves_def transaction_def refl split: prod.splits sum.splits) (metis snd_conv)

lemma evolves_for_each: "(\<And>x. evolves R (f x)) \<Longrightarrow> evolves R (for_each f xs)"
  by (induction xs) (simp_all add: evolves_pure evolves_thn)

lemma evolves_collect_each: "(\<And>x. evolves R (f x)) \<Longrightarrow> evolves R (collect_each f xs)"
  by (induction xs) (simp_all add: evolves_pure evolves_bnd)

lemma evolves_write: "(\<And>s. R s (snd (f s))) \<Longrightarrow> evolves R (sql_write valid e f)"
  by (simp add: evolves_def sql_write_def Let_def split_beta refl)

lemma evolves_case_option: "evolves R a \<Longrightarrow> (\<And>x. evolves R (b x)) \<Longrightarrow>
    evolves R (case z of None \<Rightarrow> a | Some x \<Rightarrow> b x)"
  by (cases z) auto

lemma evolves_if: "evolves R a \<Longrightarrow> evolves R b \<Longrightarrow> evolves R (if c then a else b)"
  by simp

lemmas evolves_rules = evolves_pure evolves_bnd evolves_thn evolves_transaction evolves_for_each
  evolves_collect_each evolves_write evolves_case_option evolves_if

end

text \<open>Rows that survive: each row before has a related row after.\<close>

definition rows_related :: "('r \<Rightarrow> 'r \<Rightarrow> bool) \<Rightarrow> 'r list \<Rightarrow> 'r list \<Rightarrow> bool" where
  "rows_related Q xs ys \<longleftrightarrow> (\<forall>x \<in> set xs. \<exists>y \<in> set ys. Q x y)"

lemma rows_related_refl: "(\<And>x. Q x x) \<Longrightarrow> rows_related Q xs xs"
  by (auto simp: rows_related_def)

lemma rows_related_trans:
  "(\<And>x y z. Q x y \<Longrightarrow> Q y z \<Longrightarrow> Q x z) \<Longrightarrow> rows_related Q xs ys \<Longrightarrow> rows_related Q ys zs \<Longrightarrow>
   rows_related Q xs zs"
  by (simp add: rows_related_def) metis

lemma rows_related_update:
  "(\<And>x. P x \<Longrightarrow> Q x (f x)) \<Longrightarrow> (\<And>x. Q x x) \<Longrightarrow> rows_related Q xs (update_rows P f xs)"
  unfolding rows_related_def set_update_rows
proof
  fix x
  assume "\<And>x. P x \<Longrightarrow> Q x (f x)" "\<And>x. Q x x" "x \<in> set xs"
  then have "Q x (if P x then f x else x)" by simp
  with \<open>x \<in> set xs\<close> show "\<exists>y \<in> (\<lambda>r. if P r then f r else r) ` set xs. Q x y" by blast
qed

lemma rows_related_append: "(\<And>x. Q x x) \<Longrightarrow> rows_related Q xs (xs @ ys)"
  by (auto simp: rows_related_def)

lemma rows_related_filter: "(\<And>x. Q x x) \<Longrightarrow> (\<And>x. x \<in> set xs \<Longrightarrow> P x) \<Longrightarrow> rows_related Q xs (filter P xs)"
  by (auto simp: rows_related_def)


end
