(* ===== verification/Calendar.thy ===== *)
theory Calendar
  imports Prelude
begin

text \<open>
  The interface of the \<open>time\<close> crate's \<open>Date\<close>, which is not part of the repository. A date is
  its day number (\<open>Date::to_julian_day\<close>), so \<open>Ord\<close>, \<open>-\<close> and \<open>Duration::days\<close> are the
  integers'. The crate's operations are the fields of \<open>date_api\<close>, an argument of every
  definition that uses them, and the locale \<open>time_date\<close> states what its documentation
  promises. \<open>gregorian\<close> is a concrete implementation (the proleptic Gregorian calendar of the
  years -9999 to 9999) on which the locale is interpreted.
\<close>

record date_api =
  from_calendar_date :: "int \<Rightarrow> nat \<Rightarrow> nat \<Rightarrow> int option"
  ymd :: "int \<Rightarrow> int \<times> nat \<times> nat"
  date_min :: int
  date_max :: int

definition in_range :: "date_api \<Rightarrow> int \<Rightarrow> bool" where
  "in_range D j \<longleftrightarrow> date_min D \<le> j \<and> j \<le> date_max D"

fun next_month_of :: "int \<Rightarrow> nat \<Rightarrow> int \<times> nat" where
  "next_month_of y m = (if m = 12 then (y + 1, 1) else (y, m + 1))"

locale time_date =
  fixes D :: date_api
  assumes from_sound: "from_calendar_date D y m d = Some j \<Longrightarrow> ymd D j = (y, m, d) \<and> in_range D j"
    and from_complete: "in_range D j \<Longrightarrow> ymd D j = (y, m, d) \<Longrightarrow> from_calendar_date D y m d = Some j"
    and components: "in_range D j \<Longrightarrow> ymd D j = (y, m, d) \<Longrightarrow>
      - 9999 \<le> y \<and> y \<le> 9999 \<and> 1 \<le> m \<and> m \<le> 12 \<and> 1 \<le> d \<and> d \<le> 31"
    and short_month: "- 9999 \<le> y \<Longrightarrow> y \<le> 9999 \<Longrightarrow> 1 \<le> m \<Longrightarrow> m \<le> 12 \<Longrightarrow> 1 \<le> d \<Longrightarrow> d \<le> 28 \<Longrightarrow>
      \<exists>j. from_calendar_date D y m d = Some j"
    and next_day: "in_range D j \<Longrightarrow> in_range D (j + 1) \<Longrightarrow> ymd D j = (y, m, d) \<Longrightarrow>
      ymd D (j + 1) = (y, m, d + 1) \<or>
      ymd D (j + 1) = (fst (next_month_of y m), snd (next_month_of y m), 1)"

subsection \<open>The Gregorian calendar\<close>

definition leap :: "int \<Rightarrow> bool" where
  "leap y \<longleftrightarrow> (4 dvd y \<and> \<not> 100 dvd y) \<or> 400 dvd y"

definition month_len :: "int \<Rightarrow> nat \<Rightarrow> nat" where
  "month_len y m =
     (if m = 2 then (if leap y then 29 else 28)
      else if m = 4 \<or> m = 6 \<or> m = 9 \<or> m = 11 then 30 else 31)"

definition before_year :: "int \<Rightarrow> int" where
  "before_year y = 365 * (y - 1) + (y - 1) div 4 - (y - 1) div 100 + (y - 1) div 400"

fun before_month :: "int \<Rightarrow> nat \<Rightarrow> nat" where
  "before_month y 0 = 0"
| "before_month y (Suc m) = (if m = 0 then 0 else before_month y m + month_len y m)"

definition valid_ymd :: "int \<Rightarrow> nat \<Rightarrow> nat \<Rightarrow> bool" where
  "valid_ymd y m d \<longleftrightarrow> 1 \<le> m \<and> m \<le> 12 \<and> 1 \<le> d \<and> d \<le> month_len y m"

definition day_number :: "int \<Rightarrow> nat \<Rightarrow> nat \<Rightarrow> int" where
  "day_number y m d = before_year y + int (before_month y m + d)"

definition year_of :: "int \<Rightarrow> int" where
  "year_of j =
     (let e = (400 * j) div 146097
      in if j \<le> before_year e then e - 1
         else if j \<le> before_year (e + 1) then e
         else if j \<le> before_year (e + 2) then e + 1 else e + 2)"

definition month_of :: "int \<Rightarrow> nat \<Rightarrow> nat" where
  "month_of y n = length (filter (\<lambda>m. before_month y m < n) [1, 2, 3, 4, 5, 6, 7, 8, 9, 10, 11, 12])"

definition greg_ymd :: "int \<Rightarrow> int \<times> nat \<times> nat" where
  "greg_ymd j =
     (let y = year_of j; n = nat (j - before_year y); m = month_of y n
      in (y, m, n - before_month y m))"

definition greg_from :: "int \<Rightarrow> nat \<Rightarrow> nat \<Rightarrow> int option" where
  "greg_from y m d =
     (if - 9999 \<le> y \<and> y \<le> 9999 \<and> valid_ymd y m d then Some (day_number y m d) else None)"

definition gregorian :: date_api where
  "gregorian = \<lparr>from_calendar_date = greg_from, ymd = greg_ymd,
     date_min = day_number (- 9999) 1 1, date_max = day_number 9999 12 31\<rparr>"

definition year_len :: "int \<Rightarrow> int" where
  "year_len y = (if leap y then 366 else 365)"

lemma before_year_Suc: "before_year (y + 1) = before_year y + year_len y"
proof -
  have step: "y div k = (y - 1) div k + (if k dvd y then 1 else 0)" if "0 < k" for k :: int
  proof (cases "k dvd y")
    case True
    then obtain c where c: "y = k * c" by blast
    have "(k * c - 1) div k = c - 1"
      using that by (intro int_div_pos_eq [where r = "k - 1"]) (auto simp: algebra_simps)
    with c that True show ?thesis by simp
  next
    case False
    then have "y mod k \<noteq> 0" by (simp add: dvd_eq_mod_eq_0)
    moreover have "0 \<le> y mod k" "y mod k < k" using that by auto
    ultimately have "0 \<le> y mod k - 1" "y mod k - 1 < k" by linarith+
    then have "(y - 1) div k = y div k"
      by (intro int_div_pos_eq [where r = "y mod k - 1"]) (auto simp: algebra_simps)
    with False show ?thesis by simp
  qed
  have "400 dvd y \<Longrightarrow> 100 dvd y" "100 dvd y \<Longrightarrow> 4 dvd y"
    by (auto elim: dvd_trans [rotated])
  then show ?thesis
    using step [of 4] step [of 100] step [of 400]
    by (auto simp: before_year_def year_len_def leap_def)
qed

lemma before_year_bounds:
  "400 * before_year y \<le> 146097 * (y - 1) + 700"
  "146097 * (y - 1) - 700 \<le> 400 * before_year y"
proof -
  have d: "400 * ((y - 1) div k) \<le> (400 div k) * (y - 1)"
      "(400 div k) * (y - 1) - 400 \<le> 400 * ((y - 1) div k)" if "k \<in> {4, 100, 400}" for k :: int
    using that by auto
  show "400 * before_year y \<le> 146097 * (y - 1) + 700"
    using d [of 4] d [of 100] d [of 400] unfolding before_year_def by simp
  show "146097 * (y - 1) - 700 \<le> 400 * before_year y"
    using d [of 4] d [of 100] d [of 400] unfolding before_year_def by simp
qed

lemma year_of_bounds: "before_year (year_of j) < j \<and> j \<le> before_year (year_of j + 1)"
proof -
  define e where "e = (400 * j) div 146097"
  have e: "146097 * e \<le> 400 * j" "400 * j < 146097 * e + 146097"
    unfolding e_def by auto
  have "400 * before_year (e - 1) < 400 * j" using before_year_bounds(1) [of "e - 1"] e by simp
  then have "before_year (e - 1) < j" by simp
  moreover have "400 * j < 400 * before_year (e + 3)" using before_year_bounds(2) [of "e + 3"] e by simp
  then have "j \<le> before_year (e + 3)" by simp
  ultimately show ?thesis
    unfolding year_of_def e_def [symmetric] Let_def by (auto simp: add.assoc)
qed

lemma month_len_bounds: "28 \<le> month_len y m" "month_len y m \<le> 31"
  by (auto simp: month_len_def)

lemma before_month_table:
  "before_month y 1 = 0" "before_month y 2 = 31"
  "before_month y 3 = 31 + month_len y 2" "before_month y 4 = 62 + month_len y 2"
  "before_month y 5 = 92 + month_len y 2" "before_month y 6 = 123 + month_len y 2"
  "before_month y 7 = 153 + month_len y 2" "before_month y 8 = 184 + month_len y 2"
  "before_month y 9 = 215 + month_len y 2" "before_month y 10 = 245 + month_len y 2"
  "before_month y 11 = 276 + month_len y 2" "before_month y 12 = 306 + month_len y 2"
  by (simp_all add: eval_nat_numeral month_len_def)

lemma year_len_months: "year_len y = int (before_month y 12 + month_len y 12)"
  by (simp add: before_month_table) (simp add: month_len_def year_len_def)

lemma twelve: "1 \<le> (m :: nat) \<and> m \<le> 12 \<longleftrightarrow>
    m = 1 \<or> m = 2 \<or> m = 3 \<or> m = 4 \<or> m = 5 \<or> m = 6 \<or> m = 7 \<or> m = 8 \<or> m = 9 \<or> m = 10 \<or> m = 11 \<or> m = 12"
  by presburger

lemma month_of_correct:
  assumes "0 < n" and "int n \<le> year_len y"
  shows "valid_ymd y (month_of y n) (n - before_month y (month_of y n)) \<and>
    before_month y (month_of y n) < n"
proof -
  have f: "month_len y 2 = 28 \<or> month_len y 2 = 29" by (auto simp: month_len_def)
  have n: "n \<le> 337 + month_len y 2"
    using assms(2) by (simp add: year_len_months before_month_table) (simp add: month_len_def)
  consider "n \<le> 31" | "31 < n" "n \<le> 31 + month_len y 2"
    | "31 + month_len y 2 < n" "n \<le> 62 + month_len y 2" | "62 + month_len y 2 < n" "n \<le> 92 + month_len y 2"
    | "92 + month_len y 2 < n" "n \<le> 123 + month_len y 2" | "123 + month_len y 2 < n" "n \<le> 153 + month_len y 2"
    | "153 + month_len y 2 < n" "n \<le> 184 + month_len y 2" | "184 + month_len y 2 < n" "n \<le> 215 + month_len y 2"
    | "215 + month_len y 2 < n" "n \<le> 245 + month_len y 2" | "245 + month_len y 2 < n" "n \<le> 276 + month_len y 2"
    | "276 + month_len y 2 < n" "n \<le> 306 + month_len y 2" | "306 + month_len y 2 < n"
    by linarith
  then show ?thesis
    using f assms(1) n
    by cases (simp_all add: month_of_def before_month_table valid_ymd_def,
        auto simp add: month_len_def split: if_splits)
qed

lemma day_number_in_year:
  assumes "valid_ymd y m d"
  shows "before_year y < day_number y m d \<and> day_number y m d \<le> before_year (y + 1)"
proof -
  from assms have m: "1 \<le> m \<and> m \<le> 12" and d: "1 \<le> d" "d \<le> month_len y m"
    by (auto simp: valid_ymd_def)
  have "before_month y m + month_len y m \<le> before_month y 12 + month_len y 12"
    using m unfolding twelve by (elim disjE) (simp_all add: before_month_table, simp_all add: month_len_def)
  with d show ?thesis
    by (simp add: day_number_def before_year_Suc year_len_months)
qed

lemma before_year_mono: "y \<le> z \<Longrightarrow> before_year y \<le> before_year z"
proof (induction z rule: int_ge_induct)
  case base
  then show ?case by simp
next
  case (step i)
  then show ?case using before_year_Suc [of i] by (simp add: year_len_def split: if_splits)
qed

lemma year_unique:
  assumes "before_year y < j" "j \<le> before_year (y + 1)" "before_year z < j" "j \<le> before_year (z + 1)"
  shows "y = z"
proof (rule ccontr)
  assume "y \<noteq> z"
  then consider "y + 1 \<le> z" | "z + 1 \<le> y" by linarith
  then show False
    using before_year_mono [of "y + 1" z] before_year_mono [of "z + 1" y] assms by cases linarith+
qed

lemma month_of_unique:
  assumes "valid_ymd y m d"
  shows "month_of y (before_month y m + d) = m"
proof -
  from assms have m: "1 \<le> m \<and> m \<le> 12" and d: "1 \<le> d" "d \<le> month_len y m"
    by (auto simp: valid_ymd_def)
  have f: "month_len y 2 = 28 \<or> month_len y 2 = 29" by (auto simp: month_len_def)
  show ?thesis
    using m d f unfolding twelve
    by (elim disjE) (simp_all add: month_of_def before_month_table, simp_all add: month_len_def)
qed

lemma greg_ymd_day_number: "valid_ymd y m d \<Longrightarrow> greg_ymd (day_number y m d) = (y, m, d)"
proof -
  assume v: "valid_ymd y m d"
  have "year_of (day_number y m d) = y"
    using day_number_in_year [OF v] year_of_bounds by (intro year_unique) auto
  then show ?thesis
    using month_of_unique [OF v] by (simp add: greg_ymd_def Let_def day_number_def nat_int_add)
qed

lemma day_number_greg_ymd:
  assumes "greg_ymd j = (y, m, d)"
  shows "valid_ymd y m d \<and> day_number y m d = j"
proof -
  define n where "n = nat (j - before_year (year_of j))"
  have b: "before_year (year_of j) < j" "j \<le> before_year (year_of j + 1)"
    using year_of_bounds by auto
  then have "0 < n" and "int n \<le> year_len (year_of j)" by (auto simp: n_def before_year_Suc)
  note mc = month_of_correct [OF this]
  from assms have "y = year_of j" "m = month_of y n" "d = n - before_month y m"
    by (auto simp: greg_ymd_def Let_def n_def)
  with mc b show ?thesis by (auto simp: day_number_def n_def)
qed

lemma greg_next_day:
  assumes "valid_ymd y m d"
  shows "if d < month_len y m then valid_ymd y m (d + 1) \<and> day_number y m (d + 1) = day_number y m d + 1
    else case next_month_of y m of (y', m') \<Rightarrow> valid_ymd y' m' 1 \<and> day_number y' m' 1 = day_number y m d + 1"
proof (cases "d < month_len y m")
  case True
  with assms show ?thesis by (simp add: valid_ymd_def day_number_def)
next
  case False
  with assms have d: "d = month_len y m" and m: "1 \<le> m" "m \<le> 12" by (auto simp: valid_ymd_def)
  show ?thesis
  proof (cases "m = 12")
    case True
    with d False show ?thesis
      by (simp add: valid_ymd_def day_number_def before_year_Suc year_len_months
          before_month_table(1) [unfolded One_nat_def]) (simp add: month_len_def)
  next
    case nd: False
    obtain k where k: "m = Suc k" using m by (cases m) auto
    have "1 \<le> month_len y (Suc m)" using month_len_bounds(1) [of y "Suc m"] by linarith
    with nd d False m k show ?thesis by (simp add: valid_ymd_def day_number_def)
  qed
qed

lemma day_number_range:
  assumes "valid_ymd y m d" and "- 9999 \<le> y" and "y \<le> 9999"
  shows "in_range gregorian (day_number y m d)"
proof -
  have "before_year (- 9999) \<le> before_year y" and "before_year (y + 1) \<le> before_year 10000"
    using assms(2,3) by (auto intro: before_year_mono)
  with day_number_in_year [OF assms(1)] show ?thesis
    by (simp add: in_range_def gregorian_def day_number_def before_month_table
        before_month_table(1) [unfolded One_nat_def] before_year_def) (simp add: month_len_def leap_def)
qed

lemma in_range_year:
  assumes "in_range gregorian (day_number y m d)" and "valid_ymd y m d"
  shows "- 9999 \<le> y \<and> y \<le> 9999"
proof (rule ccontr)
  assume "\<not> (- 9999 \<le> y \<and> y \<le> 9999)"
  then have "y + 1 \<le> - 9999 \<or> 10000 \<le> y" by linarith
  then have "before_year (y + 1) \<le> before_year (- 9999) \<or> before_year 10000 \<le> before_year y"
    by (auto intro: before_year_mono)
  with day_number_in_year [OF assms(2)] assms(1) show False
    by (simp add: in_range_def gregorian_def day_number_def before_month_table
        before_month_table(1) [unfolded One_nat_def] before_year_def) (simp add: month_len_def leap_def)
qed

interpretation greg: time_date gregorian
proof
  show "ymd gregorian j = (y, m, d) \<and> in_range gregorian j"
    if "from_calendar_date gregorian y m d = Some j" for y m d j
    using that greg_ymd_day_number day_number_range
    by (auto simp: gregorian_def greg_from_def split: if_splits)
next
  fix j y m d
  assume r: "in_range gregorian j" and "ymd gregorian j = (y, m, d)"
  then have v: "valid_ymd y m d" and j: "day_number y m d = j"
    using day_number_greg_ymd by (auto simp: gregorian_def)
  with r have y: "- 9999 \<le> y \<and> y \<le> 9999" using in_range_year by blast
  from v y j show "from_calendar_date gregorian y m d = Some j"
    by (simp add: gregorian_def greg_from_def)
  from v y show "- 9999 \<le> y \<and> y \<le> 9999 \<and> 1 \<le> m \<and> m \<le> 12 \<and> 1 \<le> d \<and> d \<le> 31"
    using month_len_bounds [of y m] by (simp add: valid_ymd_def)
  show "ymd gregorian (j + 1) = (y, m, d + 1) \<or>
      ymd gregorian (j + 1) = (fst (next_month_of y m), snd (next_month_of y m), 1)"
    using greg_next_day [OF v] j
    by (auto simp: gregorian_def split: if_splits prod.splits dest: greg_ymd_day_number)
next
  fix y :: int and m d :: nat
  assume "- 9999 \<le> y" "y \<le> 9999" "1 \<le> m" "m \<le> 12" "1 \<le> d" "d \<le> 28"
  then show "\<exists>j. from_calendar_date gregorian y m d = Some j"
    using month_len_bounds(1) [of y m] by (simp add: gregorian_def greg_from_def valid_ymd_def)
qed

end
