(* ===== verification/Rust_Text.thy ===== *)
theory Rust_Text
  imports Prelude
begin

text \<open>
  What the program uses of Rust's \<open>str\<close>, \<open>char\<close> and \<open>format!\<close>. A \<open>String\<close> is the
  list of its UTF-8 bytes (\<open>char\<close> is a byte here), so \<open>length\<close> is Rust's \<open>len()\<close>.

  \<^item> \<open>show_nat\<close>, \<open>show_int\<close>, \<open>pad0\<close>: \<open>{}\<close> and \<open>{:0w}\<close> of integers;
    \<open>digits_val\<close> reads decimal digits back (\<open>parse\<close> of digit-only text).
  \<^item> \<open>trim\<close>: removal of Unicode White\_Space at both ends, on UTF-8 bytes.
  \<^item> \<open>has_control\<close>: \<open>chars().any(char::is_control)\<close> (the Unicode class Cc).
  \<^item> \<open>split_on\<close>, \<open>split_ws\<close>: \<open>split\<close> by one byte and \<open>split_whitespace\<close>.
\<close>

subsection \<open>Bytes\<close>

definition byte :: "nat \<Rightarrow> char" where
  "byte n = char_of n"

definition code :: "char \<Rightarrow> nat" where
  "code c = of_char c"

definition is_digit :: "char \<Rightarrow> bool" where
  "is_digit c \<longleftrightarrow> 48 \<le> code c \<and> code c \<le> 57"

definition is_upper :: "char \<Rightarrow> bool" where
  "is_upper c \<longleftrightarrow> 65 \<le> code c \<and> code c \<le> 90"

definition is_lower :: "char \<Rightarrow> bool" where
  "is_lower c \<longleftrightarrow> 97 \<le> code c \<and> code c \<le> 122"

definition is_alnum :: "char \<Rightarrow> bool" where
  "is_alnum c \<longleftrightarrow> is_digit c \<or> is_upper c \<or> is_lower c"

definition lower_char :: "char \<Rightarrow> char" where
  "lower_char c = (if is_upper c then char_of (code c + 32) else c)"

definition ascii_lower :: "string \<Rightarrow> string" where
  "ascii_lower = map lower_char"

lemma code_lt: "code c < 256"
  by (simp add: code_def)

lemma code_char_of: "n < 256 \<Longrightarrow> code (char_of n) = n"
  by (simp add: code_def)

lemma char_of_code: "char_of (code c) = c"
  by (simp add: code_def)

lemma code_inj: "code a = code b \<longleftrightarrow> a = b"
  by (auto simp: code_def)

lemma char_less_code: "a < b \<longleftrightarrow> code a < code b"
  by (simp add: code_def less_char_def)

subsection \<open>Decimal numbers\<close>

definition digit_char :: "nat \<Rightarrow> char" where
  "digit_char d = char_of (48 + d)"

fun show_nat :: "nat \<Rightarrow> string" where
  "show_nat n = (if n < 10 then [digit_char n] else show_nat (n div 10) @ [digit_char (n mod 10)])"

declare show_nat.simps [simp del]

definition show_int :: "int \<Rightarrow> string" where
  "show_int i = (if i < 0 then ''-'' @ show_nat (nat (- i)) else show_nat (nat i))"

definition pad0 :: "nat \<Rightarrow> string \<Rightarrow> string" where
  "pad0 w s = replicate (w - length s) (CHR ''0'') @ s"

definition show_pad :: "nat \<Rightarrow> nat \<Rightarrow> string" where
  "show_pad w n = pad0 w (show_nat n)"

definition show_int_pad :: "nat \<Rightarrow> int \<Rightarrow> string" where
  "show_int_pad w i =
     (if i < 0 then ''-'' @ pad0 (w - 1) (show_nat (nat (- i))) else pad0 w (show_nat (nat i)))"

definition digit_val :: "char \<Rightarrow> nat" where
  "digit_val c = code c - 48"

fun digits_val_acc :: "nat \<Rightarrow> string \<Rightarrow> nat" where
  "digits_val_acc a [] = a"
| "digits_val_acc a (c # cs) = digits_val_acc (10 * a + digit_val c) cs"

definition digits_val :: "string \<Rightarrow> nat" where
  "digits_val s = digits_val_acc 0 s"

lemma code_digit: "d < 10 \<Longrightarrow> code (digit_char d) = 48 + d"
  by (simp add: digit_char_def code_char_of)

lemma is_digit_digit_char: "d < 10 \<Longrightarrow> is_digit (digit_char d)"
  by (simp add: is_digit_def code_digit)

lemma digit_val_digit_char: "d < 10 \<Longrightarrow> digit_val (digit_char d) = d"
  by (simp add: digit_val_def code_digit)

lemma digits_val_acc_append:
  "digits_val_acc a (s @ t) = digits_val_acc (digits_val_acc a s) t"
  by (induction s arbitrary: a) auto

lemma digits_val_snoc: "digits_val (s @ [c]) = 10 * digits_val s + digit_val c"
  by (simp add: digits_val_def digits_val_acc_append)

lemma show_nat_digits: "list_all is_digit (show_nat n)"
proof (induction n rule: show_nat.induct)
  case (1 n)
  then show ?case
    by (cases "n < 10") (auto simp: show_nat.simps [of n] is_digit_digit_char)
qed

lemma show_nat_not_Nil: "show_nat n \<noteq> []"
  by (simp add: show_nat.simps [of n])

lemma digits_val_show: "digits_val (show_nat n) = n"
proof (induction n rule: show_nat.induct)
  case (1 n)
  show ?case
  proof (cases "n < 10")
    case True
    then show ?thesis
      by (simp add: show_nat.simps [of n] digits_val_def digit_val_digit_char)
  next
    case False
    with 1 show ?thesis
      by (simp add: show_nat.simps [of n] digits_val_snoc digit_val_digit_char)
  qed
qed

lemma show_nat_inj: "show_nat m = show_nat n \<longleftrightarrow> m = n"
  by (metis digits_val_show)

lemma show_nat_no_char: "\<not> is_digit c \<Longrightarrow> c \<notin> set (show_nat n)"
  using show_nat_digits [of n] by (auto simp: list_all_iff)

lemma show_int_inj: "show_int i = show_int j \<longleftrightarrow> i = j"
proof
  assume eq: "show_int i = show_int j"
  have dash: "show_nat m \<noteq> CHR ''-'' # s" for m s
    using show_nat_no_char [of "CHR ''-''" m] by (auto simp: is_digit_def code_def)
  from eq show "i = j"
    by (auto simp: show_int_def show_nat_inj dash dash [symmetric] split: if_splits)
qed simp

lemma length_show_nat: "0 < w \<Longrightarrow> n < 10 ^ w \<Longrightarrow> length (show_nat n) \<le> w"
proof (induction n arbitrary: w rule: show_nat.induct)
  case (1 n)
  show ?case
  proof (cases "n < 10")
    case True
    with 1 show ?thesis by (simp add: show_nat.simps [of n])
  next
    case False
    with "1.prems" have "w \<noteq> 1" by auto
    with "1.prems" obtain v where v: "w = Suc v" "0 < v"
      by (metis One_nat_def Suc_pred gr0I)
    with "1.prems" have "n div 10 < 10 ^ v"
      by (simp add: less_mult_imp_div_less)
    with False v "1.IH" [of v] show ?thesis by (simp add: show_nat.simps [of n])
  qed
qed

lemma digits_val_zeros: "digits_val_acc 0 (replicate k (CHR ''0'') @ s) = digits_val_acc 0 s"
  by (induction k) (auto simp: digit_val_def code_def)

lemma digits_val_pad: "digits_val (show_pad w n) = n"
  by (simp add: digits_val_def show_pad_def pad0_def digits_val_zeros)
    (simp add: digits_val_show [unfolded digits_val_def])

lemma show_pad_inj: "show_pad w m = show_pad w n \<longleftrightarrow> m = n"
  by (metis digits_val_pad)

lemma length_show_pad: "0 < w \<Longrightarrow> n < 10 ^ w \<Longrightarrow> length (show_pad w n) = w"
  using length_show_nat [of w n] by (simp add: show_pad_def pad0_def)

lemma show_pad_digits: "list_all is_digit (show_pad w n)"
  using show_nat_digits [of n]
  by (auto simp: show_pad_def pad0_def list_all_iff is_digit_def code_def)

text \<open>Fixed-width decimal text is ordered as the numbers are.\<close>

lemma digits_val_acc_mono:
  assumes "length s = length t" and "a < b" and "list_all is_digit s" and "list_all is_digit t"
  shows "digits_val_acc a s < digits_val_acc b t"
  using assms
proof (induction s t arbitrary: a b rule: list_induct2)
  case Nil
  then show ?case by simp
next
  case (Cons x xs y ys)
  from Cons.prems have "code x \<le> 57" by (simp add: is_digit_def)
  then have "digit_val x \<le> 9" by (simp add: digit_val_def)
  with Cons.prems(1) have "10 * a + digit_val x < 10 * b + digit_val y" by linarith
  with Cons show ?case by simp
qed

lemma digits_order:
  assumes "length s = length t" and "list_all is_digit s" and "list_all is_digit t"
  shows "s < t \<longleftrightarrow> digits_val_acc a s < digits_val_acc a t"
  using assms
proof (induction s t arbitrary: a rule: list_induct2)
  case Nil
  then show ?case by simp
next
  case (Cons x xs y ys)
  from Cons.prems have d: "is_digit x" "is_digit y" by auto
  then have val: "x < y \<longleftrightarrow> digit_val x < digit_val y"
    by (auto simp: char_less_code is_digit_def digit_val_def)
  consider "x = y" | "digit_val x < digit_val y" | "digit_val y < digit_val x"
    using d by (metis char_less_code code_inj digit_val_def diff_less_mono is_digit_def
        linorder_neqE_nat)
  then show ?case
  proof cases
    case 1
    with Cons show ?thesis by simp
  next
    case 2
    then have "digits_val_acc (10 * a + digit_val x) xs < digits_val_acc (10 * a + digit_val y) ys"
      using Cons by (intro digits_val_acc_mono) auto
    with 2 val show ?thesis by simp
  next
    case 3
    then have "digits_val_acc (10 * a + digit_val y) ys < digits_val_acc (10 * a + digit_val x) xs"
      using Cons by (intro digits_val_acc_mono) auto
    with 3 val show ?thesis by auto
  qed
qed

lemma show_pad_less:
  assumes "0 < w" and "m < 10 ^ w" and "n < 10 ^ w"
  shows "show_pad w m < show_pad w n \<longleftrightarrow> m < n"
proof -
  have "show_pad w m < show_pad w n \<longleftrightarrow>
      digits_val_acc 0 (show_pad w m) < digits_val_acc 0 (show_pad w n)"
    using assms by (intro digits_order) (simp_all add: length_show_pad show_pad_digits)
  then show ?thesis using digits_val_pad [of w] by (simp add: digits_val_def)
qed

subsection \<open>Lexicographic order of concatenations\<close>

lemma append_less_iff:
  fixes s t :: "'a::linorder list"
  assumes "length s = length t"
  shows "s @ u < t @ v \<longleftrightarrow> s < t \<or> s = t \<and> u < v"
  using assms by (induction s t rule: list_induct2) auto

subsection \<open>White space, control characters, splitting\<close>

definition ascii_ws :: "char \<Rightarrow> bool" where
  "ascii_ws c \<longleftrightarrow> code c \<in> {9, 10, 11, 12, 13, 32}"

text \<open>The UTF-8 encodings of the code points with the Unicode property White\_Space.\<close>

definition ws_codes :: "nat list list" where
  "ws_codes =
     [[9], [10], [11], [12], [13], [32], [0xC2, 0x85], [0xC2, 0xA0], [0xE1, 0x9A, 0x80],
      [0xE2, 0x80, 0x80], [0xE2, 0x80, 0x81], [0xE2, 0x80, 0x82], [0xE2, 0x80, 0x83],
      [0xE2, 0x80, 0x84], [0xE2, 0x80, 0x85], [0xE2, 0x80, 0x86], [0xE2, 0x80, 0x87],
      [0xE2, 0x80, 0x88], [0xE2, 0x80, 0x89], [0xE2, 0x80, 0x8A], [0xE2, 0x80, 0xA8],
      [0xE2, 0x80, 0xA9], [0xE2, 0x80, 0xAF], [0xE2, 0x81, 0x9F], [0xE3, 0x80, 0x80]]"

function strip_codes :: "nat list list \<Rightarrow> string \<Rightarrow> string" where
  "strip_codes ws s =
     (case find (\<lambda>w. w \<noteq> [] \<and> prefix w (map code s)) ws of
        None \<Rightarrow> s
      | Some w \<Rightarrow> strip_codes ws (drop (length w) s))"
  by pat_completeness auto
termination
proof (relation "measure (\<lambda>(ws, s). length s)", simp)
  fix ws s w
  assume "find (\<lambda>w. w \<noteq> [] \<and> prefix w (map code s)) ws = Some w"
  then have "w \<noteq> []" and "prefix w (map code s)" by (auto simp: find_Some_iff)
  then have "0 < length w" and "length w \<le> length s"
    using prefix_length_le by fastforce+
  then have "length s - length w < length s" by linarith
  then show "((ws, drop (length w) s), ws, s) \<in> measure (\<lambda>(ws, s). length s)" by simp
qed

declare strip_codes.simps [simp del]

definition trim_start :: "string \<Rightarrow> string" where
  "trim_start = strip_codes ws_codes"

definition trim_end :: "string \<Rightarrow> string" where
  "trim_end s = rev (strip_codes (map rev ws_codes) (rev s))"

definition trim :: "string \<Rightarrow> string" where
  "trim s = trim_end (trim_start s)"

fun has_control :: "string \<Rightarrow> bool" where
  "has_control [] = False"
| "has_control (c # cs) =
     (code c < 32 \<or> code c = 127 \<or>
      (code c = 0xC2 \<and> (case cs of [] \<Rightarrow> False | d # _ \<Rightarrow> 0x80 \<le> code d \<and> code d \<le> 0x9F)) \<or>
      has_control cs)"

fun split_on :: "char \<Rightarrow> string \<Rightarrow> string list" where
  "split_on c [] = [[]]"
| "split_on c (x # xs) =
     (if x = c then [] # split_on c xs
      else (case split_on c xs of [] \<Rightarrow> [[x]] | y # ys \<Rightarrow> (x # y) # ys))"

text \<open>\<open>split_whitespace\<close>: every white-space character is a separator, empty pieces are dropped.\<close>

function blank_ws :: "string \<Rightarrow> string" where
  "blank_ws s =
     (case find (\<lambda>w. w \<noteq> [] \<and> prefix w (map code s)) ws_codes of
        Some w \<Rightarrow> CHR '' '' # blank_ws (drop (length w) s)
      | None \<Rightarrow> (case s of [] \<Rightarrow> [] | c # cs \<Rightarrow> c # blank_ws cs))"
  by pat_completeness auto
termination
proof (relation "measure length")
  show "wf (measure (length :: string \<Rightarrow> nat))" by simp
next
  fix s w
  assume "find (\<lambda>w. w \<noteq> [] \<and> prefix w (map code s)) ws_codes = Some w"
  then have "w \<noteq> []" and "prefix w (map code s)" by (auto simp: find_Some_iff)
  then have "0 < length w" and "length w \<le> length s"
    using prefix_length_le by fastforce+
  then have "length s - length w < length s" by linarith
  then show "(drop (length w) s, s) \<in> measure length" by simp
next
  fix s :: string and c cs
  assume "s = c # cs"
  then show "(cs, s) \<in> measure length" by simp
qed

declare blank_ws.simps [simp del]

definition split_ws :: "string \<Rightarrow> string list" where
  "split_ws s = filter (\<lambda>w. w \<noteq> []) (split_on (CHR '' '') (blank_ws s))"

definition strip_prefix :: "string \<Rightarrow> string \<Rightarrow> string option" where
  "strip_prefix p s = (if prefix p s then Some (drop (length p) s) else None)"

fun split_once :: "char \<Rightarrow> string \<Rightarrow> (string \<times> string) option" where
  "split_once c [] = None"
| "split_once c (x # xs) =
     (if x = c then Some ([], xs) else map_option (\<lambda>(a, b). (x # a, b)) (split_once c xs))"

lemma split_on_not_Nil: "split_on c s \<noteq> []"
  by (induction s) (auto split: list.splits)

lemma split_on_no_sep: "w \<in> set (split_on c s) \<Longrightarrow> c \<notin> set w"
proof (induction s arbitrary: w)
  case (Cons x xs)
  then show ?case by (cases "split_on c xs") (auto split: if_splits)
qed simp

lemma strip_prefix_Some: "strip_prefix p s = Some t \<longleftrightarrow> s = p @ t"
  by (auto simp: strip_prefix_def prefix_def)

lemma split_once_Some: "split_once c s = Some (a, b) \<Longrightarrow> s = a @ c # b \<and> c \<notin> set a"
  by (induction s arbitrary: a) (auto split: if_splits)

lemma strip_codes_no_prefix:
  "w \<in> set ws \<Longrightarrow> w \<noteq> [] \<Longrightarrow> \<not> prefix w (map code (strip_codes ws s))"
proof (induction ws s rule: strip_codes.induct)
  case (1 ws s)
  show ?case
  proof (cases "find (\<lambda>w. w \<noteq> [] \<and> prefix w (map code s)) ws")
    case None
    with "1.prems" have "\<not> prefix w (map code s)" by (auto simp: find_None_iff)
    with None show ?thesis by (subst strip_codes.simps) simp
  next
    case (Some v)
    with "1.IH" "1.prems" show ?thesis by (subst strip_codes.simps) simp
  qed
qed

lemma strip_codes_id:
  "(\<And>w. w \<in> set ws \<Longrightarrow> w \<noteq> [] \<Longrightarrow> \<not> prefix w (map code s)) \<Longrightarrow> strip_codes ws s = s"
  by (subst strip_codes.simps) (auto simp: find_None_iff split: option.splits dest: find_set)

lemma strip_codes_suffix: "suffix (strip_codes ws s) s"
proof (induction ws s rule: strip_codes.induct)
  case (1 ws s)
  show ?case
  proof (cases "find (\<lambda>w. w \<noteq> [] \<and> prefix w (map code s)) ws")
    case None
    then show ?thesis by (subst strip_codes.simps) simp
  next
    case (Some v)
    from "1.IH" [OF Some] have "suffix (strip_codes ws (drop (length v) s)) s"
      using suffix_drop suffix_order.trans by blast
    with Some show ?thesis by (subst strip_codes.simps) simp
  qed
qed

text \<open>Trimming is idempotent: a stored name that was trimmed once is stored unchanged.\<close>

lemma trim_end_prefix: "prefix (trim_end s) s"
  using strip_codes_suffix [of "map rev ws_codes" "rev s"]
  by (simp add: trim_end_def suffix_to_prefix)

lemma trim_trim: "trim (trim s) = trim s"
proof -
  have "trim_start (trim s) = trim s"
    unfolding trim_start_def
  proof (rule strip_codes_id)
    fix w
    assume w: "w \<in> set ws_codes" "w \<noteq> []"
    have "prefix (map code (trim s)) (map code (trim_start s))"
      using trim_end_prefix [of "trim_start s"] by (simp add: trim_def map_mono_prefix)
    with strip_codes_no_prefix [OF w, of s] show "\<not> prefix w (map code (trim s))"
      unfolding trim_start_def using prefix_order.trans by blast
  qed
  moreover have "trim_end (trim_end t) = trim_end t" for t
  proof -
    have "strip_codes (map rev ws_codes) (strip_codes (map rev ws_codes) (rev t)) =
        strip_codes (map rev ws_codes) (rev t)"
      by (rule strip_codes_id) (rule strip_codes_no_prefix)
    then show ?thesis by (simp add: trim_end_def)
  qed
  ultimately show ?thesis by (simp add: trim_def)
qed

lemma trim_Nil [simp]: "trim [] = []"
  by (simp add: trim_def trim_end_def trim_start_def strip_codes.simps ws_codes_def)

text \<open>White-space characters contain no printable ASCII byte, so such bytes survive trimming, and text made of them is trimmed already.\<close>

lemma strip_codes_keeps:
  assumes "\<And>w. w \<in> set ws \<Longrightarrow> code c \<notin> set w" "c \<in> set s"
  shows "c \<in> set (strip_codes ws s)"
  using assms
proof (induction ws s rule: strip_codes.induct)
  case (1 ws s)
  show ?case
  proof (cases "find (\<lambda>w. w \<noteq> [] \<and> prefix w (map code s)) ws")
    case None
    with "1.prems" show ?thesis by (subst strip_codes.simps) simp
  next
    case (Some w)
    then have w: "w \<in> set ws" "prefix w (map code s)" by (auto simp: find_Some_iff)
    then have "map code (take (length w) s) = w" by (auto simp: prefix_def take_map [symmetric])
    then have "c \<notin> set (take (length w) s)" using "1.prems"(1) [OF w(1)] by (metis image_eqI set_map)
    then have "c \<in> set (drop (length w) s)" using "1.prems"(2) by (metis append_take_drop_id Un_iff set_append)
    with "1.IH" [OF Some "1.prems"(1)] Some show ?thesis by (subst strip_codes.simps) simp
  qed
qed

lemma trim_letter: "c \<in> set s \<Longrightarrow> 32 < code c \<Longrightarrow> code c < 127 \<Longrightarrow> trim s \<noteq> []"
proof -
  assume c: "c \<in> set s" "32 < code c" "code c < 127"
  have "list_all (list_all (\<lambda>n. n \<le> 32 \<or> 127 \<le> n)) ws_codes" by code_simp
  with c(2,3) have w: "code c \<notin> set w" if "w \<in> set ws_codes" for w using that by (fastforce simp: list_all_iff)
  then have "code c \<notin> set w" if "w \<in> set (map rev ws_codes)" for w using that by auto
  then have at_end: "c \<in> set (strip_codes (map rev ws_codes) t)" if "c \<in> set t" for t
    using strip_codes_keeps [OF _ that] by blast
  have "c \<in> set (strip_codes ws_codes s)" using strip_codes_keeps [OF _ c(1)] w by blast
  with at_end have "c \<in> set (trim s)" by (simp add: trim_def trim_end_def trim_start_def)
  then show ?thesis by auto
qed

definition printable :: "char \<Rightarrow> bool" where
  "printable c \<longleftrightarrow> 32 < code c \<and> code c < 127"

lemma trim_printable: "list_all printable s \<Longrightarrow> trim s = s"
proof -
  assume p: "list_all printable s"
  have "list_all (\<lambda>w. w \<noteq> [] \<and> list_all (\<lambda>n. n \<le> 32 \<or> 127 \<le> n) w) ws_codes" by code_simp
  then have w: "w \<noteq> [] \<and> (\<forall>n \<in> set w. n \<le> 32 \<or> 127 \<le> n)" if "w \<in> set ws_codes" for w
    using that by (auto simp: list_all_iff)
  have strip: "strip_codes ws t = t" if t: "list_all printable t" and ws: "\<And>w. w \<in> set ws \<Longrightarrow> \<forall>n \<in> set w. n \<le> 32 \<or> 127 \<le> n" for ws t
  proof (rule strip_codes_id)
    fix v assume v: "v \<in> set ws" "v \<noteq> []"
    show "\<not> prefix v (map code t)"
    proof
      assume "prefix v (map code t)"
      with v(2) have "hd v \<in> code ` set t"
        by (metis append_is_Nil_conv hd_append2 hd_in_set list.set_map map_is_Nil_conv prefix_def)
      then obtain c where c: "c \<in> set t" "hd v = code c" by blast
      have "hd v \<le> 32 \<or> 127 \<le> hd v" using ws [OF v(1)] v(2) by simp
      with c t show False by (auto simp: list_all_iff printable_def)
    qed
  qed
  have "strip_codes ws_codes s = s" using strip [OF p] w by blast
  moreover have "strip_codes (map rev ws_codes) (rev s) = rev s"
  proof (rule strip)
    show "list_all printable (rev s)" using p by simp
    fix v assume "v \<in> set (map rev ws_codes)"
    then obtain u where "u \<in> set ws_codes" "v = rev u" by auto
    with w show "\<forall>n \<in> set v. n \<le> 32 \<or> 127 \<le> n" by simp
  qed
  ultimately show ?thesis by (simp add: trim_def trim_end_def trim_start_def)
qed

subsection \<open>Substrings and ASCII case\<close>

definition contains_text :: "string \<Rightarrow> string \<Rightarrow> bool" where
  "contains_text s p \<longleftrightarrow> list_ex (\<lambda>i. prefix p (drop i s)) [0..<Suc (length s)]"

definition eq_ignore_case :: "string \<Rightarrow> string \<Rightarrow> bool" where
  "eq_ignore_case s t \<longleftrightarrow> ascii_lower s = ascii_lower t"

definition id_char :: "char \<Rightarrow> bool" where
  "id_char c \<longleftrightarrow> is_alnum c \<or> c = CHR ''-'' \<or> c = CHR ''_''"

end
