(* ===== verification/Iso_Date.thy ===== *)
theory Iso_Date
  imports Calendar Rust_Text
begin

text \<open>
  \<open>src/finance/date.rs\<close>: the validated calendar date \<open>IsoDate\<close> and its storage text
  \<open>YYYY-MM-DD\<close>. An \<open>IsoDate\<close> is the day number of the \<open>time::Date\<close> it wraps; \<open>D\<close> is the
  crate's interface. The lemmas in the context of \<open>time_date\<close> are what the rest of the program
  relies on: the month helpers stay in the month they are asked about, text and dates determine
  each other, and the text is ordered as the dates are, which is what SQL's \<open>BETWEEN\<close> and
  \<open>ORDER BY\<close> on the stored columns need.
\<close>

type_synonym iso_date = int

definition iso_new :: "date_api \<Rightarrow> int \<Rightarrow> nat \<Rightarrow> nat \<Rightarrow> fault + iso_date" where
  "iso_new D year month day =
     (if month < 1 \<or> 12 < month then Inl (Err ''month must be between 1 and 12'')
      else context_or (''invalid calendar date '' @ show_int_pad 4 year @ ''-'' @ show_pad 2 month
             @ ''-'' @ show_pad 2 day) (from_calendar_date D year month day))"

definition iso_year :: "date_api \<Rightarrow> iso_date \<Rightarrow> int" where
  "iso_year D j = fst (ymd D j)"

definition iso_month :: "date_api \<Rightarrow> iso_date \<Rightarrow> nat" where
  "iso_month D j = fst (snd (ymd D j))"

definition iso_day :: "date_api \<Rightarrow> iso_date \<Rightarrow> nat" where
  "iso_day D j = snd (snd (ymd D j))"

definition iso_add_days :: "date_api \<Rightarrow> iso_date \<Rightarrow> int \<Rightarrow> fault + iso_date" where
  "iso_add_days D j days =
     (if in_range D (j + days) then Inr (j + days) else Inl (Err ''date arithmetic overflow''))"

definition iso_days_until :: "iso_date \<Rightarrow> iso_date \<Rightarrow> int" where
  "iso_days_until j later = later - j"

definition first_of_month :: "date_api \<Rightarrow> iso_date \<Rightarrow> fault + iso_date" where
  "first_of_month D j =
     expect ''an existing date's first day is valid''
       (from_calendar_date D (iso_year D j) (iso_month D j) 1)"

definition last_of_month :: "date_api \<Rightarrow> iso_date \<Rightarrow> fault + iso_date" where
  "last_of_month D j =
     (let (year, month) = (if iso_month D j = 12 then (iso_year D j + 1, 1)
                           else (iso_year D j, iso_month D j + 1))
      in rbnd (expect ''first day of a month is valid'' (from_calendar_date D year month 1))
           (\<lambda>first_next. if in_range D (first_next - 1) then Inr (first_next - 1)
                         else Inl (Panic ''resulting value is out of range'')))"

definition clamp_day :: "nat \<Rightarrow> nat \<Rightarrow> nat" where
  "clamp_day hi day = (if day < 1 then 1 else if hi < day then hi else day)"

definition with_day_clamped :: "date_api \<Rightarrow> iso_date \<Rightarrow> nat \<Rightarrow> fault + iso_date" where
  "with_day_clamped D j day =
     rbnd (last_of_month D j) (\<lambda>l.
       expect ''clamped day is valid''
         (from_calendar_date D (iso_year D j) (iso_month D j) (clamp_day (iso_day D l) day)))"

definition next_month :: "date_api \<Rightarrow> iso_date \<Rightarrow> fault + iso_date" where
  "next_month D j =
     (let (year, month) = (if iso_month D j = 12 then (iso_year D j + 1, 1)
                           else (iso_year D j, iso_month D j + 1))
      in iso_new D year month 1)"

definition in_year_clamped :: "date_api \<Rightarrow> iso_date \<Rightarrow> int \<Rightarrow> fault + iso_date" where
  "in_year_clamped D j year =
     rbnd (iso_new D year (iso_month D j) 1) (\<lambda>f. with_day_clamped D f (iso_day D j))"

definition iso_from_str :: "date_api \<Rightarrow> string \<Rightarrow> fault + iso_date" where
  "iso_from_str D value =
     (if length value \<noteq> 10 then Inl (Err ''date must use YYYY-MM-DD'')
      else if value ! 4 \<noteq> CHR ''-'' \<or> value ! 7 \<noteq> CHR ''-'' \<or>
              \<not> list_all (\<lambda>i. i = 4 \<or> i = 7 \<or> is_digit (value ! i)) [0..<10]
           then Inl (Err ''date must use YYYY-MM-DD'')
      else iso_new D (int (digits_val (take 4 value)))
             (digits_val (take 2 (drop 5 value))) (digits_val (take 2 (drop 8 value))))"

definition iso_to_string :: "date_api \<Rightarrow> iso_date \<Rightarrow> string" where
  "iso_to_string D j =
     show_int_pad 4 (iso_year D j) @ ''-'' @ show_pad 2 (iso_month D j) @ ''-'' @
     show_pad 2 (iso_day D j)"

text \<open>The dates whose year has four digits: what \<open>from_str\<close> produces and the database stores.\<close>

definition storable :: "date_api \<Rightarrow> iso_date \<Rightarrow> bool" where
  "storable D j \<longleftrightarrow> in_range D j \<and> 0 \<le> iso_year D j"

text \<open>December 9999 is the one month whose next month the crate cannot represent.\<close>

definition last_month :: "date_api \<Rightarrow> iso_date \<Rightarrow> bool" where
  "last_month D j \<longleftrightarrow> iso_year D j = 9999 \<and> iso_month D j = 12"

text \<open>The number of days of a date's month.\<close>

definition month_end :: "date_api \<Rightarrow> iso_date \<Rightarrow> nat" where
  "month_end D c = (case last_of_month D c of Inr l \<Rightarrow> iso_day D l | Inl _ \<Rightarrow> 0)"

lemmas iso_parts = iso_year_def iso_month_def iso_day_def

context time_date
begin

lemma ymd_parts: "ymd D j = (iso_year D j, iso_month D j, iso_day D j)"
  by (simp add: iso_parts)

lemma parts_range:
  assumes "in_range D j"
  shows "- 9999 \<le> iso_year D j" "iso_year D j \<le> 9999" "1 \<le> iso_month D j" "iso_month D j \<le> 12"
    "1 \<le> iso_day D j" "iso_day D j \<le> 31"
  using components [OF assms ymd_parts] by auto

lemma in_range_between: "in_range D a \<Longrightarrow> in_range D b \<Longrightarrow> a \<le> c \<Longrightarrow> c \<le> b \<Longrightarrow> in_range D c"
  by (simp add: in_range_def)

lemma ymd_Suc:
  assumes "in_range D j" and "in_range D (j + 1)"
  shows "ymd D j < ymd D (j + 1)"
proof -
  obtain y m d where e: "ymd D j = (y, m, d)" by (cases "ymd D j")
  have "(y, m, d) < (y, m, d + 1)" by simp
  moreover have "(y, m, d) < (fst (next_month_of y m), snd (next_month_of y m), 1)" by simp
  ultimately show ?thesis using next_day [OF assms e] e by metis
qed

lemma ymd_strict:
  assumes "in_range D j" and "in_range D k" and "j < k"
  shows "ymd D j < ymd D k"
proof -
  have "in_range D i \<longrightarrow> ymd D j < ymd D i" if "j + 1 \<le> i" for i
    using that
  proof (induction i rule: int_ge_induct)
    case base
    then show ?case using ymd_Suc [OF assms(1)] by blast
  next
    case (step i)
    show ?case
    proof
      assume r: "in_range D (i + 1)"
      with assms(1) step.hyps have ri: "in_range D i" by (simp add: in_range_def)
      with step.IH ymd_Suc [OF ri r] show "ymd D j < ymd D (i + 1)" by (blast intro: less_trans)
    qed
  qed
  with assms show ?thesis by simp
qed

lemma ymd_less_iff:
  assumes "in_range D j" and "in_range D k"
  shows "ymd D j < ymd D k \<longleftrightarrow> j < k"
proof
  assume lt: "ymd D j < ymd D k"
  show "j < k"
  proof (rule ccontr)
    assume "\<not> j < k"
    then have "k = j \<or> k < j" by linarith
    then have "ymd D k \<le> ymd D j" using ymd_strict [OF assms(2,1)] by (auto intro: less_imp_le)
    with lt show False by simp
  qed
qed (rule ymd_strict [OF assms])

lemma ymd_inj: "in_range D j \<Longrightarrow> in_range D k \<Longrightarrow> ymd D j = ymd D k \<Longrightarrow> j = k"
  by (metis less_irrefl linorder_neqE ymd_strict)

lemma from_unique: "from_calendar_date D y m d = Some j \<longleftrightarrow> in_range D j \<and> ymd D j = (y, m, d)"
  using from_sound from_complete by blast

text \<open>Days of one month are consecutive.\<close>

lemma pred_day:
  assumes "in_range D j" and "ymd D j = (y, m, d)" and "1 < d"
  shows "in_range D (j - 1) \<and> ymd D (j - 1) = (y, m, d - 1)"
proof -
  from components [OF assms(1,2)] obtain f where f: "from_calendar_date D y m 1 = Some f"
    using short_month [of y m 1] by auto
  then have rf: "in_range D f" "ymd D f = (y, m, 1)" using from_sound by auto
  with assms have "f < j" using ymd_less_iff [of f j] by simp
  then have r: "in_range D (j - 1)" using rf(1) assms(1) by (simp add: in_range_def)
  obtain y0 m0 d0 where e: "ymd D (j - 1) = (y0, m0, d0)" by (cases "ymd D (j - 1)")
  have "ymd D j = (y0, m0, d0 + 1) \<or> ymd D j = (fst (next_month_of y0 m0), snd (next_month_of y0 m0), 1)"
    using next_day [OF r _ e] assms(1) by simp
  with assms e r show ?thesis by auto
qed

lemma earlier_day:
  assumes "in_range D j" and "ymd D j = (y, m, d)" and "i < d"
  shows "in_range D (j - int i) \<and> ymd D (j - int i) = (y, m, d - i)"
  using assms
proof (induction i)
  case 0
  then show ?case by simp
next
  case (Suc i)
  then have "in_range D (j - int i)" "ymd D (j - int i) = (y, m, d - i)" "1 < d - i" by auto
  from pred_day [OF this] show ?case by (simp add: algebra_simps)
qed

lemma first_of_month_eq:
  assumes "in_range D j"
  shows "first_of_month D j = Inr (j - int (iso_day D j) + 1)"
    and "in_range D (j - int (iso_day D j) + 1)"
    and "ymd D (j - int (iso_day D j) + 1) = (iso_year D j, iso_month D j, 1)"
proof -
  have d: "1 \<le> iso_day D j" using parts_range [OF assms] by simp
  have "in_range D (j - int (iso_day D j - 1)) \<and>
      ymd D (j - int (iso_day D j - 1)) = (iso_year D j, iso_month D j, iso_day D j - (iso_day D j - 1))"
    using earlier_day [OF assms ymd_parts, of "iso_day D j - 1"] d by simp
  moreover have j: "j - int (iso_day D j - 1) = j - int (iso_day D j) + 1" using d by linarith
  ultimately show r: "in_range D (j - int (iso_day D j) + 1)"
    and y: "ymd D (j - int (iso_day D j) + 1) = (iso_year D j, iso_month D j, 1)"
    using d unfolding j by (blast, simp)
  from from_complete [OF r y] show "first_of_month D j = Inr (j - int (iso_day D j) + 1)"
    by (simp add: first_of_month_def)
qed

lemma next_first:
  assumes "in_range D j" and "\<not> last_month D j"
  obtains g where "next_month D j = Inr g" and "in_range D g" and "j < g"
    and "ymd D g = (fst (next_month_of (iso_year D j) (iso_month D j)),
                    snd (next_month_of (iso_year D j) (iso_month D j)), 1)"
proof -
  obtain y' m' where n: "next_month_of (iso_year D j) (iso_month D j) = (y', m')"
    by (cases "next_month_of (iso_year D j) (iso_month D j)")
  have b: "- 9999 \<le> y'" "y' \<le> 9999" "1 \<le> m'" "m' \<le> 12"
    using n assms(2) parts_range [OF assms(1)] by (auto simp: last_month_def split: if_splits)
  then obtain g where g: "from_calendar_date D y' m' 1 = Some g" using short_month [of y' m' 1] by auto
  then have rg: "in_range D g" "ymd D g = (y', m', 1)" using from_sound by auto
  have "ymd D j < ymd D g"
    using n parts_range [OF assms(1)] by (auto simp: rg(2) ymd_parts [of j] split: if_splits)
  then have "j < g" using ymd_less_iff [OF assms(1) rg(1)] by simp
  moreover have "next_month D j = Inr g"
    using n g b by (auto simp: next_month_def iso_new_def Let_def split: if_splits)
  ultimately show ?thesis using that rg n by simp
qed

lemma next_month_overflow: "last_month D j \<Longrightarrow> \<exists>e. next_month D j = Inl (Err e)"
proof -
  assume l: "last_month D j"
  have "from_calendar_date D 10000 1 1 = None"
    using from_sound [of 10000 1 1] components by (cases "from_calendar_date D 10000 1 1") fastforce+
  with l show ?thesis by (simp add: next_month_def last_month_def iso_new_def)
qed

lemma last_of_month_overflow: "last_month D j \<Longrightarrow> \<exists>e. last_of_month D j = Inl (Panic e)"
proof -
  assume l: "last_month D j"
  have "from_calendar_date D 10000 1 1 = None"
    using from_sound [of 10000 1 1] components by (cases "from_calendar_date D 10000 1 1") fastforce+
  with l show ?thesis by (simp add: last_of_month_def last_month_def)
qed

lemma last_of_month_ex:
  assumes "in_range D j" and "\<not> last_month D j"
  obtains l where "last_of_month D j = Inr l" and "in_range D l" and "j \<le> l" and "next_month D j = Inr (l + 1)"
    and "iso_year D l = iso_year D j" and "iso_month D l = iso_month D j" and "28 \<le> iso_day D l"
proof -
  obtain g where g: "next_month D j = Inr g" "in_range D g" "j < g"
    and yg: "ymd D g = (fst (next_month_of (iso_year D j) (iso_month D j)),
                    snd (next_month_of (iso_year D j) (iso_month D j)), 1)"
    by (rule next_first [OF assms])
  have r: "in_range D (g - 1)" using g(2,3) assms(1) by (simp add: in_range_def)
  have eq: "last_of_month D j = Inr (g - 1)"
    using from_complete [OF g(2) yg] r by (auto simp: last_of_month_def)
  obtain y0 m0 d0 where e: "ymd D (g - 1) = (y0, m0, d0)" by (cases "ymd D (g - 1)")
  note c = components [OF r e]
  have "ymd D g = (y0, m0, d0 + 1) \<or> ymd D g = (fst (next_month_of y0 m0), snd (next_month_of y0 m0), 1)"
    using next_day [OF r _ e] g(2) by simp
  with yg c have nm: "next_month_of y0 m0 = next_month_of (iso_year D j) (iso_month D j)"
    by (auto simp del: next_month_of.simps intro: prod_eqI)
  then have ym: "y0 = iso_year D j" "m0 = iso_month D j"
    using c parts_range [OF assms(1)] by (auto split: if_splits)
  obtain k where "from_calendar_date D y0 m0 28 = Some k" using short_month [of y0 m0 28] c by auto
  then have k: "in_range D k" "ymd D k = (y0, m0, 28)" using from_sound by auto
  have "ymd D k < ymd D g" using yg ym c by (auto simp: k(2) split: if_splits)
  then have "k \<le> g - 1" using ymd_less_iff [OF k(1) g(2)] by simp
  then have "ymd D k \<le> ymd D (g - 1)" using ymd_less_iff [OF r k(1)] by (simp add: not_less [symmetric])
  then have "28 \<le> d0" by (simp add: k(2) e)
  with eq r g e ym show ?thesis by (intro that [of "g - 1"]) (auto simp: iso_parts)
qed

lemma with_day_clamped_ex:
  assumes "in_range D j" and "\<not> last_month D j"
  obtains l c where "last_of_month D j = Inr l" and "with_day_clamped D j day = Inr c" and "in_range D c"
    and "ymd D c = (iso_year D j, iso_month D j, clamp_day (iso_day D l) day)"
    and "c = l - int (iso_day D l - clamp_day (iso_day D l) day)"
proof -
  obtain l where l: "last_of_month D j = Inr l" "in_range D l" "iso_year D l = iso_year D j"
      "iso_month D l = iso_month D j" "28 \<le> iso_day D l"
    using last_of_month_ex [OF assms] by metis
  define k where "k = clamp_day (iso_day D l) day"
  have k: "1 \<le> k" "k \<le> iso_day D l" using l(5) by (auto simp: k_def clamp_day_def)
  have "in_range D (l - int (iso_day D l - k)) \<and>
      ymd D (l - int (iso_day D l - k)) = (iso_year D l, iso_month D l, iso_day D l - (iso_day D l - k))"
    using k by (intro earlier_day [OF l(2) ymd_parts]) linarith
  then have c: "in_range D (l - int (iso_day D l - k))"
      "ymd D (l - int (iso_day D l - k)) = (iso_year D j, iso_month D j, k)"
    using k l by auto
  have "with_day_clamped D j day = Inr (l - int (iso_day D l - k))"
    using from_complete [OF c] l(1) by (simp add: with_day_clamped_def k_def)
  with c l(1) show ?thesis by (intro that) (auto simp: k_def)
qed

end

text \<open>Text and dates: \<open>from_str\<close> and \<open>Display\<close> are inverse, and the text is ordered as dates are.\<close>

lemma show_int_pad_nat: "0 \<le> i \<Longrightarrow> show_int_pad w i = show_pad w (nat i)"
  by (simp add: show_int_pad_def show_pad_def)

lemma is_digit_dash: "\<not> is_digit (CHR ''-'')"
  by (simp add: is_digit_def code_def)

lemma all_digits_nth: "list_all is_digit s \<Longrightarrow> i < length s \<Longrightarrow> is_digit (s ! i)"
  by (simp add: list_all_length)

context time_date
begin

lemma storable_text:
  assumes "storable D j"
  shows "iso_to_string D j = show_pad 4 (nat (iso_year D j)) @ ''-'' @ show_pad 2 (iso_month D j) @ ''-'' @
      show_pad 2 (iso_day D j)"
    and "length (show_pad 4 (nat (iso_year D j))) = 4"
    and "length (show_pad 2 (iso_month D j)) = 2" and "length (show_pad 2 (iso_day D j)) = 2"
proof -
  have r: "0 \<le> iso_year D j" "iso_year D j \<le> 9999" "iso_month D j \<le> 12" "iso_day D j \<le> 31"
    using assms parts_range by (auto simp: storable_def)
  then show "iso_to_string D j = show_pad 4 (nat (iso_year D j)) @ ''-'' @ show_pad 2 (iso_month D j) @ ''-'' @
      show_pad 2 (iso_day D j)"
    by (simp add: iso_to_string_def show_int_pad_nat)
  show "length (show_pad 4 (nat (iso_year D j))) = 4" "length (show_pad 2 (iso_month D j)) = 2"
    "length (show_pad 2 (iso_day D j)) = 2"
    using r by (auto intro!: length_show_pad)
qed

lemma length_iso_to_string: "storable D j \<Longrightarrow> length (iso_to_string D j) = 10"
  using storable_text [of j] by simp

lemma from_str_to_string:
  assumes "storable D j"
  shows "iso_from_str D (iso_to_string D j) = Inr j"
proof -
  define Y where "Y = show_pad 4 (nat (iso_year D j))"
  define M where "M = show_pad 2 (iso_month D j)"
  define A where "A = show_pad 2 (iso_day D j)"
  have t: "iso_to_string D j = Y @ ''-'' @ M @ ''-'' @ A"
    and l: "length Y = 4" "length M = 2" "length A = 2"
    using storable_text [OF assms] by (simp_all add: Y_def M_def A_def)
  obtain y0 y1 y2 y3 where Y: "Y = [y0, y1, y2, y3]" using l(1) by (auto simp: eval_nat_numeral length_Suc_conv)
  obtain m0 m1 where M: "M = [m0, m1]" using l(2) by (auto simp: eval_nat_numeral length_Suc_conv)
  obtain a0 a1 where A: "A = [a0, a1]" using l(3) by (auto simp: eval_nat_numeral length_Suc_conv)
  have dig: "list_all is_digit Y" "list_all is_digit M" "list_all is_digit A"
    by (simp_all add: Y_def M_def A_def show_pad_digits)
  have vals: "digits_val Y = nat (iso_year D j)" "digits_val M = iso_month D j" "digits_val A = iso_day D j"
    by (simp_all add: Y_def M_def A_def digits_val_pad)
  have r: "in_range D j" "0 \<le> iso_year D j" "1 \<le> iso_month D j" "iso_month D j \<le> 12"
    using assms parts_range by (auto simp: storable_def)
  have "iso_from_str D (iso_to_string D j) = iso_new D (int (digits_val Y)) (digits_val M) (digits_val A)"
    using dig by (simp add: iso_from_str_def t Y M A upt_rec nth_Cons')
  also have "\<dots> = Inr j"
    using r from_complete [OF r(1) ymd_parts] by (simp add: iso_new_def vals)
  finally show ?thesis .
qed

lemma to_string_less:
  assumes "storable D j" and "storable D k"
  shows "iso_to_string D j < iso_to_string D k \<longleftrightarrow> j < k"
proof -
  note tj = storable_text [OF assms(1)] and tk = storable_text [OF assms(2)]
  have rj: "in_range D j" "0 \<le> iso_year D j" "iso_year D j \<le> 9999" "iso_month D j \<le> 12" "iso_day D j \<le> 31"
    and rk: "in_range D k" "0 \<le> iso_year D k" "iso_year D k \<le> 9999" "iso_month D k \<le> 12" "iso_day D k \<le> 31"
    using assms parts_range by (auto simp: storable_def)
  have "iso_to_string D j < iso_to_string D k \<longleftrightarrow> ymd D j < ymd D k"
    unfolding tj(1) tk(1)
    using tj(2-4) tk(2-4) rj rk
    by (auto simp: append_less_iff show_pad_less show_pad_inj ymd_parts [of j] ymd_parts [of k])
  with ymd_less_iff [OF rj(1) rk(1)] show ?thesis by simp
qed

lemma to_string_inj: "storable D j \<Longrightarrow> storable D k \<Longrightarrow> iso_to_string D j = iso_to_string D k \<longleftrightarrow> j = k"
  by (metis from_str_to_string sum.inject(2))

lemma to_string_le:
  "storable D j \<Longrightarrow> storable D k \<Longrightarrow> iso_to_string D j \<le> iso_to_string D k \<longleftrightarrow> j \<le> k"
  using to_string_less [of k j] by (simp add: not_less [symmetric])

lemma from_str_storable:
  assumes "iso_from_str D s = Inr j"
  shows "storable D j"
proof -
  from assms have n: "iso_new D (int (digits_val (take 4 s)))
      (digits_val (take 2 (drop 5 s))) (digits_val (take 2 (drop 8 s))) = Inr j"
    by (auto simp: iso_from_str_def split: if_splits)
  then have "from_calendar_date D (int (digits_val (take 4 s)))
      (digits_val (take 2 (drop 5 s))) (digits_val (take 2 (drop 8 s))) = Some j"
    by (auto simp: iso_new_def context_or_def split: if_splits option.splits)
  then have "in_range D j \<and> ymd D j = (int (digits_val (take 4 s)),
      digits_val (take 2 (drop 5 s)), digits_val (take 2 (drop 8 s)))"
    using from_sound by blast
  then show ?thesis by (simp add: storable_def iso_year_def)
qed

end

end
