(* ===== verification/Float64.thy ===== *)
theory Float64
  imports Prelude "HOL-Library.Log_Nat"
begin

text \<open>
  The program's amounts and balances are \<open>f64\<close>. Every finite binary64 number is an integral
  multiple of $2^{-1074}$, so a finite value is a sign and a magnitude counted in that unit
  (the sign is kept apart because \<open>-0.0\<close> is a value of its own). Addition is the exact sum
  rounded to 53 significant bits, ties to even, with overflow to infinity: IEEE 754 as Rust
  prescribes it. Nothing is idealised; \<open>f64_add_exact\<close> says when no rounding happens.
\<close>

datatype f64 = NaN | Inf bool | Fin bool nat

subsection \<open>Rounding\<close>

definition rnd53 :: "nat \<Rightarrow> nat" where
  "rnd53 m =
     (let k = floorlog 2 m - 53
      in if k = 0 then m
         else let q = m div 2 ^ k; r = m mod 2 ^ k; h = 2 ^ (k - 1)
              in (if h < r \<or> (r = h \<and> odd q) then q + 1 else q) * 2 ^ k)"

definition f64_round :: "bool \<Rightarrow> nat \<Rightarrow> f64" where
  "f64_round neg m = (let r = rnd53 m in if 2 ^ 2098 \<le> r then Inf neg else Fin neg r)"

subsection \<open>The operations the program uses\<close>

definition f64_units :: "f64 \<Rightarrow> int" where
  "f64_units x = (case x of Fin s m \<Rightarrow> (if s then - int m else int m) | _ \<Rightarrow> 0)"

definition is_finite :: "f64 \<Rightarrow> bool" where
  "is_finite x = (case x of Fin _ _ \<Rightarrow> True | _ \<Rightarrow> False)"

fun f64_neg :: "f64 \<Rightarrow> f64" where
  "f64_neg NaN = NaN"
| "f64_neg (Inf s) = Inf (\<not> s)"
| "f64_neg (Fin s m) = Fin (\<not> s) m"

fun f64_abs :: "f64 \<Rightarrow> f64" where
  "f64_abs NaN = NaN"
| "f64_abs (Inf s) = Inf False"
| "f64_abs (Fin s m) = Fin False m"

fun f64_add :: "f64 \<Rightarrow> f64 \<Rightarrow> f64" where
  "f64_add (Fin s a) (Fin t b) =
     (let v = f64_units (Fin s a) + f64_units (Fin t b)
      in if v = 0 then Fin (s \<and> t) 0 else f64_round (v < 0) (nat \<bar>v\<bar>))"
| "f64_add (Inf s) (Inf t) = (if s = t then Inf s else NaN)"
| "f64_add (Inf s) (Fin _ _) = Inf s"
| "f64_add (Fin _ _) (Inf t) = Inf t"
| "f64_add _ _ = NaN"

definition f64_sub :: "f64 \<Rightarrow> f64 \<Rightarrow> f64" where
  "f64_sub a b = f64_add a (f64_neg b)"

fun f64_lt :: "f64 \<Rightarrow> f64 \<Rightarrow> bool" where
  "f64_lt NaN _ = False"
| "f64_lt _ NaN = False"
| "f64_lt (Inf s) (Inf t) = (s \<and> \<not> t)"
| "f64_lt (Inf s) (Fin _ _) = s"
| "f64_lt (Fin _ _) (Inf t) = (\<not> t)"
| "f64_lt (Fin s a) (Fin t b) = (f64_units (Fin s a) < f64_units (Fin t b))"

fun f64_eq :: "f64 \<Rightarrow> f64 \<Rightarrow> bool" where
  "f64_eq (Inf s) (Inf t) = (s = t)"
| "f64_eq (Fin s a) (Fin t b) = (f64_units (Fin s a) = f64_units (Fin t b))"
| "f64_eq _ _ = False"

definition f64_le :: "f64 \<Rightarrow> f64 \<Rightarrow> bool" where
  "f64_le a b \<longleftrightarrow> f64_lt a b \<or> f64_eq a b"

definition f64_zero :: f64 where
  "f64_zero = Fin False 0"

text \<open>\<open>Iterator::sum\<close> on floats: a left fold from the neutral element \<open>-0.0\<close>.\<close>

definition f64_sum :: "f64 list \<Rightarrow> f64" where
  "f64_sum xs = foldl f64_add (Fin True 0) xs"

text \<open>The literal \<open>1.0e308\<close> of the schema's \<open>CHECK\<close> constraints.\<close>

definition f64_1e308 :: f64 where
  "f64_1e308 = f64_round False (10 ^ 308 * 2 ^ 1074)"

text \<open>Whole numbers, for examples.\<close>

definition f64_of_int :: "int \<Rightarrow> f64" where
  "f64_of_int i = f64_round (i < 0) (nat \<bar>i\<bar> * 2 ^ 1074)"

subsection \<open>Exactness\<close>

definition on_grid :: "nat \<Rightarrow> int \<Rightarrow> bool" where
  "on_grid e v \<longleftrightarrow> e \<le> 2045 \<and> 2 ^ e dvd v \<and> \<bar>v\<bar> < 2 ^ (e + 53)"

lemma rnd53_exact:
  assumes "2 ^ e dvd m" and "m < 2 ^ (e + 53)"
  shows "rnd53 m = m"
proof -
  define k where "k = floorlog 2 m - 53"
  have "floorlog 2 m \<le> e + 53" using assms(2) by (intro floorlog_leI) auto
  then have "k \<le> e" by (simp add: k_def)
  then have "2 ^ k dvd m" using assms(1) by (meson le_imp_power_dvd dvd_trans)
  then have "m mod 2 ^ k = 0" and "m div 2 ^ k * 2 ^ k = m" by auto
  then show ?thesis by (simp add: rnd53_def k_def [symmetric] Let_def)
qed

lemma f64_round_exact:
  assumes "on_grid e v"
  shows "f64_round s (nat \<bar>v\<bar>) = Fin s (nat \<bar>v\<bar>)"
proof -
  from assms have "2 ^ e dvd nat \<bar>v\<bar>"
    by (simp add: on_grid_def nat_dvd_iff)
  moreover from assms have lt: "nat \<bar>v\<bar> < 2 ^ (e + 53)"
    by (simp add: on_grid_def nat_less_iff)
  ultimately have "rnd53 (nat \<bar>v\<bar>) = nat \<bar>v\<bar>" by (rule rnd53_exact)
  moreover have "(2::nat) ^ (e + 53) \<le> 2 ^ 2098"
    using assms by (intro power_increasing) (auto simp: on_grid_def)
  with lt have "\<not> 2 ^ 2098 \<le> nat \<bar>v\<bar>" by linarith
  ultimately show ?thesis by (simp add: f64_round_def)
qed

lemma f64_add_exact:
  assumes "is_finite a" and "is_finite b" and "on_grid e (f64_units a + f64_units b)"
  shows "is_finite (f64_add a b) \<and> f64_units (f64_add a b) = f64_units a + f64_units b"
proof -
  from assms(1,2) obtain s m t n where ab: "a = Fin s m" "b = Fin t n"
    by (auto simp: is_finite_def split: f64.splits)
  define v where "v = f64_units a + f64_units b"
  show ?thesis
  proof (cases "v = 0")
    case True
    with ab show ?thesis by (simp add: v_def Let_def is_finite_def f64_units_def)
  next
    case False
    with ab have "f64_add a b = f64_round (v < 0) (nat \<bar>v\<bar>)" by (simp add: v_def Let_def)
    also have "\<dots> = Fin (v < 0) (nat \<bar>v\<bar>)"
      using assms(3) unfolding v_def [symmetric] by (rule f64_round_exact)
    finally show ?thesis by (simp add: is_finite_def f64_units_def v_def)
  qed
qed

lemma f64_neg_units [simp]: "f64_units (f64_neg a) = - f64_units a"
  by (cases a) (auto simp: f64_units_def)

lemma f64_neg_finite [simp]: "is_finite (f64_neg a) = is_finite a"
  by (cases a) (auto simp: is_finite_def)

lemma f64_abs_units: "f64_units (f64_abs a) = \<bar>f64_units a\<bar>"
  by (cases a) (auto simp: f64_units_def)

lemma f64_abs_finite [simp]: "is_finite (f64_abs a) = is_finite a"
  by (cases a) (auto simp: is_finite_def)

lemma f64_sub_exact:
  assumes "is_finite a" and "is_finite b" and "on_grid e (f64_units a - f64_units b)"
  shows "is_finite (f64_sub a b) \<and> f64_units (f64_sub a b) = f64_units a - f64_units b"
  using f64_add_exact [of a "f64_neg b" e] assms by (simp add: f64_sub_def)

definition exact_list :: "nat \<Rightarrow> int \<Rightarrow> f64 list \<Rightarrow> bool" where
  "exact_list e v xs \<longleftrightarrow>
     e \<le> 2045 \<and> 2 ^ e dvd v \<and> (\<forall>x \<in> set xs. is_finite x \<and> 2 ^ e dvd f64_units x) \<and>
     \<bar>v\<bar> + sum_list (map (\<lambda>x. \<bar>f64_units x\<bar>) xs) < 2 ^ (e + 53)"

lemma exact_list_Cons:
  assumes "exact_list e v (x # xs)"
  shows "on_grid e (v + f64_units x)" and "is_finite x" and "exact_list e (v + f64_units x) xs"
proof -
  have nn: "0 \<le> sum_list (map (\<lambda>x. \<bar>f64_units x\<bar>) xs)"
    by (rule sum_list_nonneg) auto
  with assms show "on_grid e (v + f64_units x)" by (auto simp: exact_list_def on_grid_def)
  from assms show "is_finite x" by (simp add: exact_list_def)
  from assms show "exact_list e (v + f64_units x) xs" by (auto simp: exact_list_def)
qed

lemma f64_foldl_exact:
  assumes "is_finite a" and "exact_list e (f64_units a) xs"
  shows "is_finite (foldl f64_add a xs) \<and>
    f64_units (foldl f64_add a xs) = f64_units a + sum_list (map f64_units xs)"
  using assms
proof (induction xs arbitrary: a)
  case Nil
  then show ?case by simp
next
  case (Cons x xs)
  note c = exact_list_Cons [OF Cons.prems(2)]
  have "is_finite (f64_add a x)" and u: "f64_units (f64_add a x) = f64_units a + f64_units x"
    using f64_add_exact [OF Cons.prems(1) c(2) c(1)] by auto
  with Cons.IH [of "f64_add a x"] c(3) show ?case by simp
qed

lemma f64_sum_exact:
  assumes "exact_list e 0 xs"
  shows "is_finite (f64_sum xs) \<and> f64_units (f64_sum xs) = sum_list (map f64_units xs)"
  using f64_foldl_exact [of "Fin True 0" e xs] assms
  by (simp add: f64_sum_def is_finite_def f64_units_def)

lemma exact_list_filter: "exact_list e v xs \<Longrightarrow> exact_list e 0 (filter P xs)"
proof -
  assume ex: "exact_list e v xs"
  have "sum_list (map (\<lambda>x. \<bar>f64_units x\<bar>) (filter P xs)) \<le> sum_list (map (\<lambda>x. \<bar>f64_units x\<bar>) xs)"
    by (induction xs) auto
  with ex show ?thesis by (auto simp: exact_list_def)
qed

lemma f64_of_int_exact:
  assumes "\<bar>i\<bar> < 2 ^ 53"
  shows "f64_of_int i = Fin (i < 0) (nat \<bar>i\<bar> * 2 ^ 1074)"
proof -
  have "\<bar>i * 2 ^ 1074\<bar> < 2 ^ (1074 + 53)"
    using assms by (simp add: abs_mult power_add)
  then have "on_grid 1074 (i * 2 ^ 1074)" by (simp add: on_grid_def)
  moreover have "nat \<bar>i * 2 ^ 1074\<bar> = nat \<bar>i\<bar> * 2 ^ 1074"
    by (simp add: abs_mult nat_mult_distrib nat_power_eq)
  ultimately show ?thesis
    using f64_round_exact [of 1074 "i * 2 ^ 1074" "i < 0"] by (simp add: f64_of_int_def)
qed

lemma f64_units_of_int:
  assumes "\<bar>i\<bar> < 2 ^ 53"
  shows "f64_units (f64_of_int i) = i * 2 ^ 1074" and "is_finite (f64_of_int i)"
  by (simp_all add: f64_of_int_exact [OF assms] f64_units_def is_finite_def)

end
