(* ===== verification/Finance_Model.thy ===== *)
theory Finance_Model
  imports Iso_Date Float64
begin

text \<open>
  The data of the finance component: \<open>src/finance/models.rs\<close>, \<open>src/finance/error.rs\<close>, the
  validation helpers of \<open>src/finance/repository.rs\<close>, and the tables of
  \<open>migrations/0002_streams_forecast.sql\<close> with their constraints.

  The database is a record of tables, each a list of rows; \<open>*_seq\<close> is SQLite's AUTOINCREMENT
  counter (the largest id ever given). Text columns hold the text the code stores, \<open>NULL\<close> is
  \<open>None\<close>, a 0/1 column is a \<open>bool\<close>, an \<open>i64\<close> id is an \<open>int\<close>. \<open>db_valid\<close> is the conjunction of the
  CHECK, UNIQUE and REFERENCES constraints; a writing statement whose result would violate it
  fails (\<open>sql_write\<close>), which the code reports as \<open>FinanceError::Storage\<close>.

  Code outside the repository is the argument \<open>X\<close>: the \<open>time\<close> crate's dates, \<open>serde_json\<close>'s
  parser and printer, SQLite's \<open>json_valid\<close> and its clock.
\<close>

record ext =
  dates :: date_api
  serde_ok :: "string \<Rightarrow> bool"
  sqlite_json :: "string \<Rightarrow> bool"
  schedule_meta :: "int \<Rightarrow> string \<Rightarrow> string"
  now_text :: string

datatype fin_error = Validation string | NotFound string | Conflict string | Storage string
  | Panicked string

fun from_fault :: "fault \<Rightarrow> fin_error" where
  "from_fault (Err s) = Storage s"
| "from_fault (Panic s) = Panicked s"

definition fin_res :: "fault + 'a \<Rightarrow> fin_error + 'a" where
  "fin_res r = (case r of Inl e \<Rightarrow> Inl (from_fault e) | Inr a \<Rightarrow> Inr a)"

subsection \<open>Enumerations stored as text\<close>

datatype direction = In | Out

definition direction_str :: "direction \<Rightarrow> string" where
  "direction_str d = (case d of In \<Rightarrow> ''in'' | Out \<Rightarrow> ''out'')"

definition direction_from_str :: "string \<Rightarrow> fault + direction" where
  "direction_from_str s =
     (if s = ''in'' then Inr In else if s = ''out'' then Inr Out
      else Inl (Err (''unsupported Direction: '' @ s)))"

definition direction_for_kind :: "string \<Rightarrow> direction" where
  "direction_for_kind kind =
     (if kind = ''manual_expense'' \<or> kind = ''credit_card'' then Out else In)"

definition signed :: "direction \<Rightarrow> f64 \<Rightarrow> f64" where
  "signed d x = (case d of In \<Rightarrow> f64_abs x | Out \<Rightarrow> f64_neg (f64_abs x))"

datatype certainty = Known | Estimated

definition certainty_str :: "certainty \<Rightarrow> string" where
  "certainty_str c = (case c of Known \<Rightarrow> ''known'' | Estimated \<Rightarrow> ''estimated'')"

definition certainty_from_str :: "string \<Rightarrow> fault + certainty" where
  "certainty_from_str s =
     (if s = ''known'' then Inr Known else if s = ''estimated'' then Inr Estimated
      else Inl (Err (''unsupported AmountCertainty: '' @ s)))"

definition certainty_for_kind :: "string \<Rightarrow> certainty" where
  "certainty_for_kind kind = (if kind = ''credit_card'' then Estimated else Known)"

datatype frequency = Monthly | Semimonthly | Biweekly | Weekly | Annual | OneTime

definition frequency_str :: "frequency \<Rightarrow> string" where
  "frequency_str f = (case f of Monthly \<Rightarrow> ''monthly'' | Semimonthly \<Rightarrow> ''semimonthly''
     | Biweekly \<Rightarrow> ''biweekly'' | Weekly \<Rightarrow> ''weekly'' | Annual \<Rightarrow> ''annual'' | OneTime \<Rightarrow> ''one_time'')"

definition frequency_from_str :: "string \<Rightarrow> fault + frequency" where
  "frequency_from_str s =
     (if s = ''monthly'' then Inr Monthly else if s = ''semimonthly'' then Inr Semimonthly
      else if s = ''biweekly'' then Inr Biweekly else if s = ''weekly'' then Inr Weekly
      else if s = ''annual'' then Inr Annual else if s = ''one_time'' then Inr OneTime
      else Inl (Err (''unsupported ScheduleFrequency: '' @ s)))"

datatype event_status = Projected | Confirmed | Received

definition status_str :: "event_status \<Rightarrow> string" where
  "status_str s = (case s of Projected \<Rightarrow> ''projected'' | Confirmed \<Rightarrow> ''confirmed''
     | Received \<Rightarrow> ''received'')"

lemma direction_roundtrip [simp]: "direction_from_str (direction_str d) = Inr d"
  by (cases d) (simp_all add: direction_str_def direction_from_str_def)

lemma certainty_roundtrip [simp]: "certainty_from_str (certainty_str c) = Inr c"
  by (cases c) (simp_all add: certainty_str_def certainty_from_str_def)

lemma frequency_roundtrip [simp]: "frequency_from_str (frequency_str f) = Inr f"
  by (cases f) (simp_all add: frequency_str_def frequency_from_str_def)

datatype 'a patch = Keep | Clear | SetTo 'a

subsection \<open>Drafts\<close>

record account_draft =
  ad_id :: "int option"
  ad_name :: string
  ad_kind :: string
  ad_balance :: "f64 option"
  ad_as_of :: "iso_date option"
  ad_is_primary :: bool
  ad_notes :: "string option"

record schedule_draft =
  sd_id :: "int option"
  sd_account_id :: "int option"
  sd_label :: "string option"
  sd_amount :: f64
  sd_frequency :: frequency
  sd_day_of_month :: "nat option"
  sd_start_date :: iso_date
  sd_end_date :: "iso_date option"
  sd_metadata :: "string option"

record stream_draft =
  td_id :: "int option"
  td_name :: string
  td_type :: string
  td_kind :: string
  td_direction :: direction
  td_certainty :: certainty
  td_description :: "string option"
  td_default_account_id :: "int option"
  td_configuration :: "string option"
  td_parent_id :: "int option"
  td_schedules :: "schedule_draft list"

record view_draft =
  vd_id :: "int option"
  vd_name :: string
  vd_description :: "string option"
  vd_is_default :: bool
  vd_stream_ids :: "int list"

record event_draft =
  ed_stream_id :: int
  ed_account_id :: "int option"
  ed_label :: string
  ed_expected_date :: iso_date
  ed_amount :: f64
  ed_status :: event_status
  ed_metadata :: "string option"
  ed_notes :: "string option"

record event_patch =
  ep_label :: "string patch"
  ep_expected_date :: "iso_date patch"
  ep_amount :: "f64 patch"
  ep_account_id :: "int patch"
  ep_notes :: "string patch"

record window =
  w_from :: iso_date
  w_through :: iso_date

definition window_new :: "iso_date \<Rightarrow> iso_date \<Rightarrow> fault + window" where
  "window_new from through =
     (if through < from then Inl (Err ''projection window ends before it starts'')
      else Inr \<lparr>w_from = from, w_through = through\<rparr>)"

subsection \<open>Tables\<close>

record account_row =
  ac_id :: int
  ac_name :: string
  ac_kind :: string
  ac_balance :: "f64 option"
  ac_as_of :: "string option"
  ac_source_type :: "string option"
  ac_source_ref :: "string option"
  ac_metadata :: "string option"
  ac_balance_updated_at :: "string option"
  ac_is_primary :: bool
  ac_is_active :: bool
  ac_notes :: "string option"
  ac_updated_at :: string

record stream_row =
  st_id :: int
  st_name :: string
  st_type :: string
  st_kind :: string
  st_direction :: string
  st_certainty :: string
  st_description :: "string option"
  st_default_account_id :: "int option"
  st_configuration :: "string option"
  st_parent_id :: "int option"
  st_is_active :: bool
  st_updated_at :: string

record view_row =
  vw_id :: int
  vw_name :: string
  vw_description :: "string option"
  vw_is_default :: bool
  vw_is_active :: bool
  vw_updated_at :: string

record schedule_row =
  sc_id :: int
  sc_stream_id :: int
  sc_account_id :: "int option"
  sc_label :: "string option"
  sc_amount :: f64
  sc_frequency :: string
  sc_day_of_month :: "int option"
  sc_start_date :: string
  sc_end_date :: "string option"
  sc_is_active :: bool
  sc_metadata :: "string option"
  sc_updated_at :: string

record event_row =
  ev_id :: int
  ev_stream_id :: int
  ev_account_id :: "int option"
  ev_label :: "string option"
  ev_expected_date :: string
  ev_amount :: f64
  ev_override_label :: "string option"
  ev_has_label_override :: bool
  ev_override_date :: "string option"
  ev_override_amount :: "f64 option"
  ev_override_account_id :: "int option"
  ev_has_account_override :: bool
  ev_actual_date :: "string option"
  ev_actual_amount :: "f64 option"
  ev_status :: string
  ev_is_excluded :: bool
  ev_exclusion_reason :: "string option"
  ev_source_id :: "string option"
  ev_source_type :: "string option"
  ev_metadata :: "string option"
  ev_notes :: "string option"
  ev_updated_at :: string

record fin_db =
  accounts :: "account_row list"
  account_seq :: int
  streams :: "stream_row list"
  stream_seq :: int
  views :: "view_row list"
  view_seq :: int
  members :: "(int \<times> int) list"
  schedules :: "schedule_row list"
  schedule_seq :: int
  events :: "event_row list"
  event_seq :: int

type_synonym 'a fin_op = "(fin_db, fin_error, 'a) op"

subsection \<open>Constraints of the schema\<close>

definition sql_nonblank :: "string \<Rightarrow> bool" where
  "sql_nonblank s = (case dropWhile (\<lambda>c. c = CHR '' '') s of [] \<Rightarrow> False | c # _ \<Rightarrow> code c \<noteq> 0)"

definition date_glob :: "string \<Rightarrow> bool" where
  "date_glob s \<longleftrightarrow> length s = 10 \<and> s ! 4 = CHR ''-'' \<and> s ! 7 = CHR ''-'' \<and>
     list_all (\<lambda>i. i = 4 \<or> i = 7 \<or> is_digit (s ! i)) [0..<10]"

definition opt_all :: "('a \<Rightarrow> bool) \<Rightarrow> 'a option \<Rightarrow> bool" where
  "opt_all P x = (case x of None \<Rightarrow> True | Some a \<Rightarrow> P a)"

lemma opt_all_simps [simp]: "opt_all P None" "opt_all P (Some a) = P a"
  by (simp_all add: opt_all_def)

definition amount_check :: "f64 \<Rightarrow> bool" where
  "amount_check x \<longleftrightarrow> f64_le f64_zero x \<and> f64_lt x f64_1e308"

definition account_check :: "ext \<Rightarrow> account_row \<Rightarrow> bool" where
  "account_check X r \<longleftrightarrow> sql_nonblank (ac_name r) \<and> sql_nonblank (ac_kind r) \<and>
     opt_all (\<lambda>b. f64_lt (f64_abs b) f64_1e308) (ac_balance r) \<and>
     opt_all (sqlite_json X) (ac_metadata r) \<and> opt_all date_glob (ac_as_of r) \<and>
     (ac_balance r = None \<longleftrightarrow> ac_as_of r = None)"

definition stream_check :: "ext \<Rightarrow> int set \<Rightarrow> int set \<Rightarrow> stream_row \<Rightarrow> bool" where
  "stream_check X account_ids stream_ids r \<longleftrightarrow>
     sql_nonblank (st_name r) \<and> sql_nonblank (st_type r) \<and> sql_nonblank (st_kind r) \<and>
     st_direction r \<in> {''in'', ''out''} \<and> st_certainty r \<in> {''known'', ''estimated''} \<and>
     opt_all (\<lambda>a. a \<in> account_ids) (st_default_account_id r) \<and>
     opt_all (sqlite_json X) (st_configuration r) \<and> opt_all (\<lambda>p. p \<in> stream_ids) (st_parent_id r)"

definition schedule_check :: "ext \<Rightarrow> int set \<Rightarrow> int set \<Rightarrow> schedule_row \<Rightarrow> bool" where
  "schedule_check X account_ids stream_ids r \<longleftrightarrow>
     sc_stream_id r \<in> stream_ids \<and> opt_all (\<lambda>a. a \<in> account_ids) (sc_account_id r) \<and>
     amount_check (sc_amount r) \<and>
     sc_frequency r \<in> {''monthly'', ''semimonthly'', ''biweekly'', ''weekly'', ''annual'', ''one_time''} \<and>
     opt_all (\<lambda>d. 1 \<le> d \<and> d \<le> 31) (sc_day_of_month r) \<and>
     date_glob (sc_start_date r) \<and> opt_all date_glob (sc_end_date r) \<and>
     opt_all (sqlite_json X) (sc_metadata r) \<and>
     (sc_frequency r = ''monthly'' \<longrightarrow> sc_day_of_month r \<noteq> None) \<and>
     opt_all (\<lambda>e. sc_start_date r \<le> e) (sc_end_date r)"

definition event_check :: "ext \<Rightarrow> int set \<Rightarrow> int set \<Rightarrow> event_row \<Rightarrow> bool" where
  "event_check X account_ids stream_ids r \<longleftrightarrow>
     ev_stream_id r \<in> stream_ids \<and> opt_all (\<lambda>a. a \<in> account_ids) (ev_account_id r) \<and>
     date_glob (ev_expected_date r) \<and> amount_check (ev_amount r) \<and>
     opt_all date_glob (ev_override_date r) \<and> opt_all amount_check (ev_override_amount r) \<and>
     opt_all (\<lambda>a. a \<in> account_ids) (ev_override_account_id r) \<and>
     opt_all date_glob (ev_actual_date r) \<and> opt_all amount_check (ev_actual_amount r) \<and>
     ev_status r \<in> {''projected'', ''confirmed'', ''received''} \<and>
     opt_all (\<lambda>s. s \<in> {''user'', ''schedule''}) (ev_exclusion_reason r) \<and>
     opt_all (sqlite_json X) (ev_metadata r) \<and>
     (ev_is_excluded r \<longleftrightarrow> ev_exclusion_reason r \<noteq> None) \<and>
     (ev_has_label_override r \<or> ev_override_label r = None) \<and>
     (ev_has_account_override r \<or> ev_override_account_id r = None) \<and>
     (ev_status r = ''received'' \<longrightarrow>
        ev_actual_date r \<noteq> None \<and> ev_actual_amount r \<noteq> None \<and> \<not> ev_is_excluded r)"

text \<open>\<open>UNIQUE (stream_id, source_type, source_id)\<close>: rows with a \<open>NULL\<close> key column never clash.\<close>

definition event_key :: "event_row \<Rightarrow> (int \<times> string \<times> string) option" where
  "event_key r = (case (ev_source_type r, ev_source_id r) of
     (Some t, Some i) \<Rightarrow> Some (ev_stream_id r, t, i) | _ \<Rightarrow> None)"

definition primary_ok :: "account_row list \<Rightarrow> bool" where
  "primary_ok as \<longleftrightarrow> count_rows (\<lambda>a. ac_is_primary a \<and> ac_is_active a) as \<le> 1"

definition default_ok :: "view_row list \<Rightarrow> bool" where
  "default_ok vs \<longleftrightarrow> count_rows (\<lambda>v. vw_is_default v \<and> vw_is_active v) vs \<le> 1"

definition events_unique :: "event_row list \<Rightarrow> bool" where
  "events_unique es \<longleftrightarrow> distinct (List.map_filter event_key es)"

definition db_valid :: "ext \<Rightarrow> fin_db \<Rightarrow> bool" where
  "db_valid X db \<longleftrightarrow>
     (let account_ids = set (map ac_id (accounts db)); stream_ids = set (map st_id (streams db));
          view_ids = set (map vw_id (views db))
      in list_all (account_check X) (accounts db) \<and> primary_ok (accounts db) \<and>
         list_all (stream_check X account_ids stream_ids) (streams db) \<and>
         list_all (\<lambda>v. sql_nonblank (vw_name v)) (views db) \<and> default_ok (views db) \<and>
         list_all (\<lambda>(v, s). v \<in> view_ids \<and> s \<in> stream_ids) (members db) \<and> distinct (members db) \<and>
         list_all (schedule_check X account_ids stream_ids) (schedules db) \<and>
         list_all (event_check X account_ids stream_ids) (events db) \<and> events_unique (events db))"

text \<open>Ids come from the sequence, so they are distinct and below it.\<close>

definition ids_ok :: "('r \<Rightarrow> int) \<Rightarrow> 'r list \<Rightarrow> int \<Rightarrow> bool" where
  "ids_ok key rs seq \<longleftrightarrow> distinct (map key rs) \<and> (\<forall>r \<in> set rs. key r \<le> seq)"

definition db_ids :: "fin_db \<Rightarrow> bool" where
  "db_ids db \<longleftrightarrow> ids_ok ac_id (accounts db) (account_seq db) \<and> ids_ok st_id (streams db) (stream_seq db) \<and>
     ids_ok vw_id (views db) (view_seq db) \<and> ids_ok sc_id (schedules db) (schedule_seq db) \<and>
     ids_ok ev_id (events db) (event_seq db)"

definition fin_write :: "ext \<Rightarrow> string \<Rightarrow> (fin_db \<Rightarrow> 'a \<times> fin_db) \<Rightarrow> 'a fin_op" where
  "fin_write X ctx f = sql_write (db_valid X) (Storage ctx) f"

lemma keeps_fin_write [keeps_rules, intro]: "keeps (db_valid X) (fin_write X ctx f)"
  by (simp add: fin_write_def keeps_valid_write)

lemma fin_write_Inr: "fin_write X ctx f s = (Inr b, t) \<longleftrightarrow> f s = (b, t) \<and> db_valid X t"
  by (simp add: fin_write_def sql_write_Inr)

lemma ids_ok_snoc: "ids_ok key rs seq \<Longrightarrow> key r = seq + 1 \<Longrightarrow> ids_ok key (rs @ [r]) (seq + 1)"
  by (fastforce simp: ids_ok_def)

lemma ids_ok_update: "ids_ok key rs seq \<Longrightarrow> (\<And>r. key (f r) = key r) \<Longrightarrow> ids_ok key (update_rows P f rs) seq"
  by (auto simp: ids_ok_def map_update_rows set_update_rows)

lemma ids_ok_filter: "ids_ok key rs seq \<Longrightarrow> ids_ok key (filter P rs) seq"
  by (auto simp: ids_ok_def distinct_map_filter)

subsection \<open>Validation helpers\<close>

definition clean_optional :: "string option \<Rightarrow> string option" where
  "clean_optional v = (case v of None \<Rightarrow> None | Some s \<Rightarrow> if trim s = [] then None else Some (trim s))"

definition clean_str :: "string option \<Rightarrow> string option" where
  "clean_str v = (case v of None \<Rightarrow> None | Some s \<Rightarrow> if trim s = [] then None else Some (trim s))"

definition validate_nonempty :: "string \<Rightarrow> string \<Rightarrow> fin_error + unit" where
  "validate_nonempty label v =
     (if trim v = [] then Inl (Validation (label @ '' cannot be empty'')) else Inr ())"

definition validate_finite :: "string \<Rightarrow> f64 \<Rightarrow> fin_error + unit" where
  "validate_finite label v =
     (if \<not> is_finite v then Inl (Validation (label @ '' must be finite'')) else Inr ())"

definition validate_magnitude :: "string \<Rightarrow> f64 \<Rightarrow> fin_error + unit" where
  "validate_magnitude label v =
     rbnd (validate_finite label v) (\<lambda>_.
       if f64_lt v f64_zero then Inl (Validation (label @ '' must be a non-negative magnitude''))
       else Inr ())"

definition validate_positive_magnitude :: "string \<Rightarrow> f64 \<Rightarrow> fin_error + unit" where
  "validate_positive_magnitude label v =
     rbnd (validate_magnitude label v) (\<lambda>_.
       if f64_eq v f64_zero then Inl (Validation (label @ '' must be greater than zero''))
       else Inr ())"

definition validate_optional_balance :: "f64 option \<Rightarrow> iso_date option \<Rightarrow> fin_error + unit" where
  "validate_optional_balance balance as_of =
     rbnd (case balance of Some b \<Rightarrow> validate_finite ''account balance'' b | None \<Rightarrow> Inr ()) (\<lambda>_.
       if (balance \<noteq> None) \<noteq> (as_of \<noteq> None)
       then Inl (Validation ''account balance and balance as-of date must be set or cleared together'')
       else Inr ())"

definition validate_json :: "ext \<Rightarrow> string \<Rightarrow> string option \<Rightarrow> fin_error + unit" where
  "validate_json X label v =
     (case v of Some s \<Rightarrow> if serde_ok X s then Inr ()
                          else Inl (Validation (label @ '' must be valid JSON''))
      | None \<Rightarrow> Inr ())"

text \<open>Looking up references, shared by the stream, view and event operations.\<close>

definition require_active_account :: "int \<Rightarrow> unit fin_op" where
  "require_active_account account_id =
     bnd (gets (\<lambda>db. find (\<lambda>a. ac_id a = account_id \<and> ac_is_active a) (accounts db))) (\<lambda>row.
       require (row \<noteq> None) (NotFound (''active account '' @ show_int account_id)))"

definition require_active_stream :: "int \<Rightarrow> string fin_op" where
  "require_active_stream stream_id =
     bnd (gets (\<lambda>db. find (\<lambda>s. st_id s = stream_id \<and> st_is_active s) (streams db))) (\<lambda>row.
       case row of None \<Rightarrow> raise (NotFound (''active stream '' @ show_int stream_id))
       | Some s \<Rightarrow> ok (st_name s))"

lemma reads_require_active_account [intro]: "reads (require_active_account a)"
  by (simp add: require_active_account_def reads_bnd reads_intros)

lemma reads_require_active_stream [intro]: "reads (require_active_stream s)"
  unfolding require_active_stream_def
  by (intro reads_bnd) (auto split: option.splits)

lemmas keeps_require_active [keeps_rules, intro] =
  reads_keeps [OF reads_require_active_account] reads_keeps [OF reads_require_active_stream]

lemma require_active_account_Inr:
  "require_active_account a db = (Inr u, t) \<longleftrightarrow>
     t = db \<and> (\<exists>r \<in> set (accounts db). ac_id r = a \<and> ac_is_active r)"
proof -
  have "find (\<lambda>r. ac_id r = a \<and> ac_is_active r) (accounts db) \<noteq> None \<longleftrightarrow>
      (\<exists>r \<in> set (accounts db). ac_id r = a \<and> ac_is_active r)"
    unfolding find_None_iff by blast
  then show ?thesis
    unfolding require_active_account_def by (simp only: op_Inr) blast
qed

lemma require_active_stream_Inr:
  "require_active_stream s db = (Inr n, t) \<Longrightarrow>
     t = db \<and> (\<exists>r \<in> set (streams db). st_id r = s \<and> st_is_active r \<and> st_name r = n)"
  by (auto simp: require_active_stream_def op_Inr split: option.splits dest!: find_set)

end
