(* ===== verification/Schedule_Calc.thy ===== *)
theory Schedule_Calc
  imports Finance_Model
begin

text \<open>
  Which dates a schedule generates (\<open>schedule_occurrences\<close>, \<open>step_occurrences\<close> in
  \<open>src/finance/repository.rs\<close>) and the stable identity of each of them
  (\<open>projection_slot\<close>). The two month loops of the source share \<open>month_loop\<close>; its fuel is the
  number of days that are left, and the first-of-month cursor grows by at least one day per round,
  so it never runs out for a calendar that keeps the \<open>time_date\<close> laws: the theorems below state
  that the functions return \<open>Inr\<close>. The occurrence sets are given in closed form.
\<close>

definition tdiv :: "int \<Rightarrow> int \<Rightarrow> int" where
  "tdiv a b = sgn a * sgn b * (\<bar>a\<bar> div \<bar>b\<bar>)"

lemma tdiv_nonneg: "0 \<le> a \<Longrightarrow> 0 < b \<Longrightarrow> tdiv a b = a div b"
  by (cases "a = 0") (simp_all add: tdiv_def)

function step_loop :: "date_api \<Rightarrow> nat \<Rightarrow> iso_date \<Rightarrow> iso_date \<Rightarrow> fault + iso_date list" where
  "step_loop D step_days through cursor =
     (if cursor \<le> through \<and> 0 < step_days
      then rbnd (iso_add_days D cursor (int step_days)) (\<lambda>_.
             rbnd (step_loop D step_days through (cursor + int step_days)) (\<lambda>rest. Inr (cursor # rest)))
      else Inr [])"
  by pat_completeness auto
termination
  by (relation "measure (\<lambda>(D, s, t, c). nat (t - c + 1))") auto

declare step_loop.simps [simp del]

definition step_occurrences ::
  "date_api \<Rightarrow> iso_date \<Rightarrow> iso_date \<Rightarrow> iso_date \<Rightarrow> nat \<Rightarrow> fault + iso_date list" where
  "step_occurrences D anchor from through step_days =
     rbnd (if anchor < from
           then (let distance = iso_days_until anchor from;
                     steps = tdiv (distance + int step_days - 1) (int step_days)
                 in iso_add_days D anchor (steps * int step_days))
           else Inr anchor)
       (\<lambda>cursor. step_loop D step_days through cursor)"

fun month_loop :: "date_api \<Rightarrow> (iso_date \<Rightarrow> fault + iso_date list) \<Rightarrow> (iso_date \<Rightarrow> bool) \<Rightarrow> iso_date \<Rightarrow>
    nat \<Rightarrow> iso_date \<Rightarrow> fault + iso_date list" where
  "month_loop D candidates wanted through fuel month =
     (if through < month then Inr []
      else (case fuel of 0 \<Rightarrow> Inl (Panic ''out of fuel'')
        | Suc n \<Rightarrow>
            rbnd (candidates month) (\<lambda>cs.
            rbnd (next_month D month) (\<lambda>month'.
            rbnd (month_loop D candidates wanted through n month') (\<lambda>rest.
              Inr (filter wanted cs @ rest))))))"

declare month_loop.simps [simp del]

fun year_loop :: "(int \<Rightarrow> fault + iso_date) \<Rightarrow> (iso_date \<Rightarrow> bool) \<Rightarrow> int list \<Rightarrow> fault + iso_date list" where
  "year_loop candidate wanted [] = Inr []"
| "year_loop candidate wanted (y # ys) =
     rbnd (candidate y) (\<lambda>c. rbnd (year_loop candidate wanted ys) (\<lambda>rest.
       Inr (if wanted c then c # rest else rest)))"

definition monthly_candidates :: "date_api \<Rightarrow> nat \<Rightarrow> iso_date \<Rightarrow> fault + iso_date list" where
  "monthly_candidates D day month = rbnd (with_day_clamped D month day) (\<lambda>c. Inr [c])"

definition semimonthly_candidates :: "date_api \<Rightarrow> iso_date \<Rightarrow> fault + iso_date list" where
  "semimonthly_candidates D month =
     rbnd (with_day_clamped D month 15) (\<lambda>a. rbnd (last_of_month D month) (\<lambda>b. Inr [a, b]))"

definition schedule_occurrences :: "date_api \<Rightarrow> frequency \<Rightarrow> iso_date \<Rightarrow> iso_date \<Rightarrow> iso_date \<Rightarrow>
    nat option \<Rightarrow> fault + iso_date list" where
  "schedule_occurrences D frequency anchor from through day_of_month =
     (if through < from then Inr []
      else let wanted = (\<lambda>c. anchor \<le> c \<and> from \<le> c \<and> c \<le> through) in
      (case frequency of
         Monthly \<Rightarrow>
           rbnd (context_or ''monthly schedule is missing a day of month'' day_of_month) (\<lambda>day.
           rbnd (first_of_month D from) (\<lambda>month.
             month_loop D (monthly_candidates D day) wanted through (nat (through - month + 1)) month))
       | Semimonthly \<Rightarrow>
           rbnd (first_of_month D from) (\<lambda>month.
             month_loop D (semimonthly_candidates D) wanted through (nat (through - month + 1)) month)
       | Weekly \<Rightarrow> step_occurrences D anchor from through 7
       | Biweekly \<Rightarrow> step_occurrences D anchor from through 14
       | Annual \<Rightarrow>
           year_loop (in_year_clamped D anchor) wanted [iso_year D from..iso_year D through]
       | OneTime \<Rightarrow> Inr (if from \<le> anchor \<and> anchor \<le> through then [anchor] else [])))"

definition projection_slot :: "date_api \<Rightarrow> frequency \<Rightarrow> iso_date \<Rightarrow> iso_date \<Rightarrow> string" where
  "projection_slot D frequency anchor occurrence =
     (case frequency of
        Monthly \<Rightarrow> ''monthly:'' @ show_int_pad 4 (iso_year D occurrence) @ ''-'' @
          show_pad 2 (iso_month D occurrence)
      | Semimonthly \<Rightarrow> ''semimonthly:'' @ show_int_pad 4 (iso_year D occurrence) @ ''-'' @
          show_pad 2 (iso_month D occurrence) @ '':'' @
          (if iso_day D occurrence = 15 then ''mid'' else ''end'')
      | Weekly \<Rightarrow> ''weekly:'' @ show_int (tdiv (iso_days_until anchor occurrence) 7)
      | Biweekly \<Rightarrow> ''biweekly:'' @ show_int (tdiv (iso_days_until anchor occurrence) 14)
      | Annual \<Rightarrow> ''annual:'' @ show_int_pad 4 (iso_year D occurrence)
      | OneTime \<Rightarrow> ''one_time'')"

subsection \<open>Fixed-step schedules\<close>

lemma step_loop_set:
  assumes "0 < step" and "date_min D \<le> cursor" and "through + int step \<le> date_max D"
  shows "\<exists>xs. step_loop D step through cursor = Inr xs \<and> sorted_wrt (<) xs \<and>
    set xs = {c. \<exists>k::nat. c = cursor + int k * int step \<and> c \<le> through}"
  using assms
proof (induction D step through cursor rule: step_loop.induct)
  case (1 D step through cursor)
  show ?case
  proof (cases "cursor \<le> through")
    case True
    with "1.prems" have add: "iso_add_days D cursor (int step) = Inr (cursor + int step)"
      by (simp add: iso_add_days_def in_range_def)
    then obtain xs where xs: "step_loop D step through (cursor + int step) = Inr xs" "sorted_wrt (<) xs"
        "set xs = {c. \<exists>k::nat. c = cursor + int step + int k * int step \<and> c \<le> through}"
      using "1.IH" True "1.prems" by auto
    have eq: "step_loop D step through cursor = Inr (cursor # xs)"
      using True "1.prems"(1) add xs(1) by (subst step_loop.simps) simp
    have lt: "\<forall>x \<in> set xs. cursor < x"
    proof
      fix x
      assume "x \<in> set xs"
      then obtain k :: nat where "x = cursor + int step + int k * int step" using xs(3) by blast
      moreover have "0 \<le> int k * int step" by simp
      ultimately show "cursor < x" using "1.prems"(1) by linarith
    qed
    have "set (cursor # xs) = {c. \<exists>k::nat. c = cursor + int k * int step \<and> c \<le> through}" (is "_ = ?S")
    proof
      show "set (cursor # xs) \<subseteq> ?S"
      proof
        fix c
        assume "c \<in> set (cursor # xs)"
        then consider "c = cursor" | k :: nat where "c = cursor + int step + int k * int step" "c \<le> through"
          using xs(3) by auto
        then show "c \<in> ?S"
        proof cases
          case 1
          then show ?thesis using True by (intro CollectI exI [of _ 0]) simp
        next
          case (2 k)
          then show ?thesis by (intro CollectI exI [of _ "Suc k"]) (simp add: algebra_simps)
        qed
      qed
      show "?S \<subseteq> set (cursor # xs)"
      proof
        fix c
        assume "c \<in> ?S"
        then obtain k :: nat where k: "c = cursor + int k * int step" "c \<le> through" by blast
        show "c \<in> set (cursor # xs)"
        proof (cases k)
          case 0
          with k show ?thesis by simp
        next
          case (Suc i)
          with k have "c = cursor + int step + int i * int step" by (simp add: algebra_simps)
          with k(2) xs(3) show ?thesis by auto
        qed
      qed
    qed
    with eq xs(2) lt show ?thesis by auto
  next
    case False
    have "c \<notin> {c. \<exists>k::nat. c = cursor + int k * int step \<and> c \<le> through}" for c
    proof
      assume "c \<in> {c. \<exists>k::nat. c = cursor + int k * int step \<and> c \<le> through}"
      then obtain k :: nat where "cursor + int k * int step \<le> through" by blast
      moreover have "0 \<le> int k * int step" by simp
      ultimately show False using False by linarith
    qed
    then have "{c. \<exists>k::nat. c = cursor + int k * int step \<and> c \<le> through} = {}" by blast
    with False show ?thesis by (subst step_loop.simps) simp
  qed
qed

lemma ceil_steps:
  assumes "anchor < from" and "0 < (s::int)"
  defines "c \<equiv> anchor + ((from - anchor + s - 1) div s) * s"
  shows "from \<le> c" and "c < from + s" and "0 \<le> (from - anchor + s - 1) div s"
proof -
  define q where "q = (from - anchor + s - 1) div s"
  define r where "r = (from - anchor + s - 1) mod s"
  have "q * s + r = from - anchor + s - 1" unfolding q_def r_def by simp
  moreover have "0 \<le> r" "r < s" using assms(2) by (auto simp: r_def)
  ultimately show "from \<le> c" "c < from + s" unfolding c_def q_def [symmetric] by linarith+
  show "0 \<le> (from - anchor + s - 1) div s"
    using assms by (intro pos_imp_zdiv_nonneg_iff [THEN iffD2]) auto
qed

text \<open>
  Weekly and biweekly schedules: exactly the dates \<open>anchor + k * step\<close> of the window, in order.
\<close>

lemma step_occurrences_set:
  assumes "0 < step" and "date_min D \<le> anchor" and "from \<le> through" and "through + int step \<le> date_max D"
  shows "\<exists>xs. step_occurrences D anchor from through step = Inr xs \<and> sorted_wrt (<) xs \<and>
    set xs = {c. \<exists>k::nat. c = anchor + int k * int step \<and> from \<le> c \<and> c \<le> through}"
proof (cases "anchor < from")
  case True
  define q where "q = (from - anchor + int step - 1) div int step"
  define c0 where "c0 = anchor + q * int step"
  note cs = ceil_steps [OF True, of "int step", folded q_def, folded c0_def]
  have c0: "from \<le> c0" "c0 < from + int step" "0 \<le> q" using cs assms(1) by simp_all
  then have rng: "in_range D c0" using assms True by (simp add: in_range_def)
  have "tdiv (from - anchor + int step - 1) (int step) = q"
    unfolding q_def using True assms(1) by (intro tdiv_nonneg) auto
  then have eq: "step_occurrences D anchor from through step = step_loop D step through c0"
    using True rng by (simp add: step_occurrences_def iso_days_until_def Let_def iso_add_days_def c0_def)
  have dm: "date_min D \<le> c0" using rng by (simp add: in_range_def)
  obtain xs where xs: "step_loop D step through c0 = Inr xs" "sorted_wrt (<) xs"
      "set xs = {c. \<exists>k::nat. c = c0 + int k * int step \<and> c \<le> through}"
    using step_loop_set [OF assms(1) dm assms(4)] by blast
  have "set xs = {c. \<exists>k::nat. c = anchor + int k * int step \<and> from \<le> c \<and> c \<le> through}" (is "_ = ?S")
  proof
    show "set xs \<subseteq> ?S"
    proof
      fix c
      assume "c \<in> set xs"
      then obtain k :: nat where k: "c = c0 + int k * int step" "c \<le> through" using xs(3) by blast
      then have "c = anchor + int (nat q + k) * int step" using c0(3) by (simp add: c0_def algebra_simps)
      moreover have "0 \<le> int k * int step" by simp
      then have "from \<le> c" using k(1) c0(1) by linarith
      ultimately show "c \<in> ?S" using k(2) by blast
    qed
    show "?S \<subseteq> set xs"
    proof
      fix c
      assume "c \<in> ?S"
      then obtain k :: nat where k: "c = anchor + int k * int step" "from \<le> c" "c \<le> through" by blast
      have "q \<le> int k"
      proof (rule ccontr)
        assume "\<not> q \<le> int k"
        then have "(int k + 1) * int step \<le> q * int step" by (intro mult_right_mono) auto
        then have "c + int step \<le> c0" using k(1) by (simp add: c0_def algebra_simps)
        with c0(2) k(2) show False by linarith
      qed
      then have "c = c0 + int (k - nat q) * int step"
        using k(1) c0(3) by (simp add: c0_def of_nat_diff algebra_simps)
      with k(3) xs(3) show "c \<in> set xs" by blast
    qed
  qed
  with eq xs show ?thesis by simp
next
  case False
  obtain xs where xs: "step_loop D step through anchor = Inr xs" "sorted_wrt (<) xs"
      "set xs = {c. \<exists>k::nat. c = anchor + int k * int step \<and> c \<le> through}"
    using step_loop_set [OF assms(1,2,4)] by blast
  have "from \<le> anchor + int k * int step" for k :: nat
    using False by (smt (verit) mult_nonneg_nonneg of_nat_0_le_iff)
  then have "set xs = {c. \<exists>k::nat. c = anchor + int k * int step \<and> from \<le> c \<and> c \<le> through}"
    using xs(3) by auto
  with False xs show ?thesis by (simp add: step_occurrences_def)
qed

subsection \<open>Month by month\<close>

text \<open>
  \<open>due c\<close> describes the dates a month contributes; \<open>good\<close> says that a candidate function
  returns exactly those of its month, in order.
\<close>

definition good :: "date_api \<Rightarrow> (iso_date \<Rightarrow> fault + iso_date list) \<Rightarrow> (iso_date \<Rightarrow> bool) \<Rightarrow> bool" where
  "good D cands due \<longleftrightarrow> (\<forall>f. in_range D f \<longrightarrow> iso_day D f = 1 \<longrightarrow> \<not> last_month D f \<longrightarrow>
     (\<exists>cs. cands f = Inr cs \<and> sorted_wrt (<) cs \<and>
        set cs = {c. in_range D c \<and> iso_year D c = iso_year D f \<and> iso_month D c = iso_month D f \<and> due c}))"

context time_date
begin

lemma same_month_iff:
  assumes f: "in_range D f" "iso_day D f = 1" and l: "\<not> last_month D f" and c: "in_range D c" "f \<le> c"
  shows "(\<exists>g. next_month D f = Inr g \<and> c < g) \<longleftrightarrow> iso_year D c = iso_year D f \<and> iso_month D c = iso_month D f"
proof -
  obtain g where g: "next_month D f = Inr g" "in_range D g" "f < g"
    and yg: "ymd D g = (fst (next_month_of (iso_year D f) (iso_month D f)),
        snd (next_month_of (iso_year D f) (iso_month D f)), 1)"
    by (rule next_first [OF f(1) l])
  have "ymd D f \<le> ymd D c" using ymd_less_iff [OF c(1) f(1)] c(2) by (simp add: not_less [symmetric])
  moreover have "c < g \<longleftrightarrow> ymd D c < ymd D g" using ymd_less_iff [OF c(1) g(2)] by simp
  ultimately show ?thesis
    using g(1) yg parts_range [OF f(1)] parts_range [OF c(1)] f(2)
    by (auto simp: ymd_parts [of f] ymd_parts [of c] split: if_splits)
qed

lemma first_le:
  assumes "in_range D f" "iso_day D f = 1" "in_range D c" "iso_year D c = iso_year D f" "iso_month D c = iso_month D f"
  shows "f \<le> c"
proof -
  have "ymd D f \<le> ymd D c" using assms parts_range [OF assms(3)] by (simp add: ymd_parts)
  then show ?thesis using ymd_less_iff [OF assms(3,1)] by (simp add: not_less [symmetric])
qed

lemma month_loop_set:
  assumes "good D cands due" and "in_range D f" and "iso_day D f = 1"
    and "in_range D through" and "\<not> last_month D through" and "nat (through - f + 1) \<le> fuel"
    and "\<And>c. wanted c \<Longrightarrow> c \<le> through"
  shows "\<exists>xs. month_loop D cands wanted through fuel f = Inr xs \<and> sorted_wrt (<) xs \<and>
    set xs = {c. in_range D c \<and> f \<le> c \<and> wanted c \<and> due c}"
  using assms(2,3,6)
proof (induction fuel arbitrary: f)
  case 0
  then have "through < f" by simp
  then have "{c. in_range D c \<and> f \<le> c \<and> wanted c \<and> due c} = {}" using assms(7) by fastforce
  with \<open>through < f\<close> show ?case by (simp add: month_loop.simps)
next
  case (Suc n)
  show ?case
  proof (cases "through < f")
    case True
    then have "{c. in_range D c \<and> f \<le> c \<and> wanted c \<and> due c} = {}" using assms(7) by fastforce
    with True show ?thesis by (simp add: month_loop.simps)
  next
    case False
    have nl: "\<not> last_month D f"
    proof
      assume lf: "last_month D f"
      have "ymd D f \<le> ymd D through"
        using False ymd_less_iff [OF assms(4) Suc.prems(1)] by (simp add: not_less [symmetric])
      with lf parts_range [OF assms(4)] have "last_month D through"
        by (auto simp: last_month_def ymd_parts [of f] ymd_parts [of through])
      with assms(5) show False by simp
    qed
    obtain g where g: "next_month D f = Inr g" "in_range D g" "f < g"
      and yg: "ymd D g = (fst (next_month_of (iso_year D f) (iso_month D f)),
        snd (next_month_of (iso_year D f) (iso_month D f)), 1)"
      by (rule next_first [OF Suc.prems(1) nl])
    have dg: "iso_day D g = 1" using yg by (simp add: iso_day_def)
    obtain cs where cs: "cands f = Inr cs" "sorted_wrt (<) cs"
        "set cs = {c. in_range D c \<and> iso_year D c = iso_year D f \<and> iso_month D c = iso_month D f \<and> due c}"
      using assms(1) Suc.prems(1,2) nl unfolding good_def by blast
    have "nat (through - g + 1) \<le> n" using Suc.prems(3) g(3) by linarith
    then obtain xs where xs: "month_loop D cands wanted through n g = Inr xs" "sorted_wrt (<) xs"
        "set xs = {c. in_range D c \<and> g \<le> c \<and> wanted c \<and> due c}"
      using Suc.IH [OF g(2) dg] by blast
    have below: "c < g \<longleftrightarrow> iso_year D c = iso_year D f \<and> iso_month D c = iso_month D f"
      if "in_range D c" "f \<le> c" for c
      using same_month_iff [OF Suc.prems(1,2) nl that] g(1) by simp
    have csf: "c \<in> set cs \<longleftrightarrow> in_range D c \<and> f \<le> c \<and> c < g \<and> due c" for c
      using below first_le [OF Suc.prems(1,2)] unfolding cs(3) by blast
    have eq: "month_loop D cands wanted through (Suc n) f = Inr (filter wanted cs @ xs)"
      using False cs(1) g(1) xs(1) by (simp add: month_loop.simps)
    have "sorted_wrt (<) (filter wanted cs @ xs)"
      using cs(2) xs(2) csf xs(3) by (fastforce simp: sorted_wrt_append sorted_wrt_filter)
    moreover have "set (filter wanted cs @ xs) = {c. in_range D c \<and> f \<le> c \<and> wanted c \<and> due c}"
      using csf xs(3) g(3) by (auto simp: not_less)
    ultimately show ?thesis using eq by blast
  qed
qed

lemma last_of_month_cong:
  "iso_year D c = iso_year D f \<Longrightarrow> iso_month D c = iso_month D f \<Longrightarrow> last_of_month D c = last_of_month D f"
  by (simp add: last_of_month_def)

lemma good_monthly: "good D (monthly_candidates D day) (\<lambda>c. iso_day D c = clamp_day (month_end D c) day)"
  unfolding good_def
proof (intro allI impI)
  fix f
  assume f: "in_range D f" "iso_day D f = 1" "\<not> last_month D f"
  obtain l c where c: "last_of_month D f = Inr l" "with_day_clamped D f day = Inr c" "in_range D c"
    and yc: "ymd D c = (iso_year D f, iso_month D f, clamp_day (iso_day D l) day)"
    by (rule with_day_clamped_ex [OF f(1,3)])
  have pc: "iso_year D c = iso_year D f" "iso_month D c = iso_month D f"
      "iso_day D c = clamp_day (iso_day D l) day"
    using yc by (simp_all add: iso_parts)
  have only: "x = c" if "in_range D x" "iso_year D x = iso_year D f" "iso_month D x = iso_month D f"
      "iso_day D x = clamp_day (month_end D x) day" for x
    using that last_of_month_cong [OF that(2,3)] c(1) yc
    by (intro ymd_inj [OF that(1) c(3)]) (simp add: ymd_parts [of x] month_end_def)
  moreover have "iso_day D c = clamp_day (month_end D c) day"
    using pc last_of_month_cong [OF pc(1,2)] c(1) by (simp add: month_end_def)
  ultimately have me: "iso_day D c = clamp_day (month_end D c) day" by blast
  have "{x. in_range D x \<and> iso_year D x = iso_year D f \<and> iso_month D x = iso_month D f \<and>
      iso_day D x = clamp_day (month_end D x) day} = {c}" (is "?S = _")
  proof (intro equalityI subsetI)
    fix x
    assume "x \<in> ?S"
    with only show "x \<in> {c}" by simp
  next
    fix x
    assume "x \<in> {c}"
    then show "x \<in> ?S" using c(3) pc(1,2) me by (simp only: mem_Collect_eq singleton_iff)
  qed
  with c(2) show "\<exists>cs. monthly_candidates D day f = Inr cs \<and> sorted_wrt (<) cs \<and>
      set cs = {c. in_range D c \<and> iso_year D c = iso_year D f \<and> iso_month D c = iso_month D f \<and>
        iso_day D c = clamp_day (month_end D c) day}"
    by (simp add: monthly_candidates_def)
qed

lemma good_semimonthly: "good D (semimonthly_candidates D) (\<lambda>c. iso_day D c = 15 \<or> iso_day D c = month_end D c)"
  unfolding good_def
proof (intro allI impI)
  fix f
  assume f: "in_range D f" "iso_day D f = 1" "\<not> last_month D f"
  obtain l c where c: "last_of_month D f = Inr l" "with_day_clamped D f 15 = Inr c" "in_range D c"
    and yc: "ymd D c = (iso_year D f, iso_month D f, clamp_day (iso_day D l) 15)"
    by (rule with_day_clamped_ex [OF f(1,3)])
  obtain l' where l': "last_of_month D f = Inr l'" "in_range D l'" "iso_year D l' = iso_year D f"
      "iso_month D l' = iso_month D f" "28 \<le> iso_day D l'"
    using last_of_month_ex [OF f(1,3)] by metis
  with c(1) have ll: "l' = l" by simp
  have pc: "iso_year D c = iso_year D f" "iso_month D c = iso_month D f" "iso_day D c = 15"
    using yc l'(5) ll by (simp_all add: iso_parts clamp_day_def)
  have me: "month_end D x = iso_day D l" if "iso_year D x = iso_year D f" "iso_month D x = iso_month D f" for x
    using last_of_month_cong [OF that] c(1) by (simp add: month_end_def)
  have "ymd D c < ymd D l" using pc l' ll by (simp add: ymd_parts)
  then have "c < l" using ymd_less_iff [OF c(3)] l'(2) ll by simp
  have only: "x = c \<or> x = l" if "in_range D x" "iso_year D x = iso_year D f" "iso_month D x = iso_month D f"
      "iso_day D x = 15 \<or> iso_day D x = month_end D x" for x
    using that pc l' ll me [OF that(2,3)] ymd_inj [OF that(1) c(3)] ymd_inj [OF that(1), of l]
    by (auto simp: ymd_parts)
  have "{x. in_range D x \<and> iso_year D x = iso_year D f \<and> iso_month D x = iso_month D f \<and>
      (iso_day D x = 15 \<or> iso_day D x = month_end D x)} = {c, l}" (is "?S = _")
  proof (intro equalityI subsetI)
    fix x
    assume "x \<in> ?S"
    with only show "x \<in> {c, l}" by simp
  next
    fix x
    assume "x \<in> {c, l}"
    then consider "x = c" | "x = l" by blast
    then show "x \<in> ?S" using c(3) pc l' ll me [of l] by cases simp_all
  qed
  with \<open>c < l\<close> show "\<exists>cs. semimonthly_candidates D f = Inr cs \<and> sorted_wrt (<) cs \<and>
      set cs = {c. in_range D c \<and> iso_year D c = iso_year D f \<and> iso_month D c = iso_month D f \<and>
        (iso_day D c = 15 \<or> iso_day D c = month_end D c)}"
    using c(1,2) by (simp add: semimonthly_candidates_def)
qed

lemma first_start:
  assumes "in_range D from"
  obtains f where "first_of_month D from = Inr f" "in_range D f" "iso_day D f = 1" "f \<le> from"
proof -
  have "1 \<le> iso_day D from" using parts_range [OF assms] by simp
  then show ?thesis
    using first_of_month_eq [OF assms] by (intro that) (auto simp: iso_day_def)
qed

lemma monthly_set:
  assumes "in_range D from" "in_range D through" "\<not> last_month D through" "from \<le> through"
  shows "\<exists>xs. schedule_occurrences D Monthly anchor from through (Some day) = Inr xs \<and> sorted_wrt (<) xs \<and>
    set xs = {c. in_range D c \<and> anchor \<le> c \<and> from \<le> c \<and> c \<le> through \<and> iso_day D c = clamp_day (month_end D c) day}"
proof -
  obtain f where f: "first_of_month D from = Inr f" "in_range D f" "iso_day D f = 1" "f \<le> from"
    by (rule first_start [OF assms(1)])
  let ?wanted = "\<lambda>c. anchor \<le> c \<and> from \<le> c \<and> c \<le> through"
  have "\<exists>xs. month_loop D (monthly_candidates D day) ?wanted through (nat (through - f + 1)) f = Inr xs \<and>
      sorted_wrt (<) xs \<and> set xs = {c. in_range D c \<and> f \<le> c \<and> ?wanted c \<and> iso_day D c = clamp_day (month_end D c) day}"
    by (rule month_loop_set [OF good_monthly f(2,3) assms(2,3) order_refl]) simp
  then obtain xs where xs: "month_loop D (monthly_candidates D day) ?wanted through (nat (through - f + 1)) f = Inr xs"
      "sorted_wrt (<) xs" "set xs = {c. in_range D c \<and> f \<le> c \<and> ?wanted c \<and> iso_day D c = clamp_day (month_end D c) day}"
    by (elim exE conjE) (rule that)
  have "set xs = {c. in_range D c \<and> anchor \<le> c \<and> from \<le> c \<and> c \<le> through \<and> iso_day D c = clamp_day (month_end D c) day}"
    unfolding xs(3) using f(4) by (intro Collect_cong) linarith
  with xs(1,2) show ?thesis
    using assms(4) f(1) by (simp add: schedule_occurrences_def)
qed

lemma semimonthly_set:
  assumes "in_range D from" "in_range D through" "\<not> last_month D through" "from \<le> through"
  shows "\<exists>xs. schedule_occurrences D Semimonthly anchor from through day = Inr xs \<and> sorted_wrt (<) xs \<and>
    set xs = {c. in_range D c \<and> anchor \<le> c \<and> from \<le> c \<and> c \<le> through \<and>
      (iso_day D c = 15 \<or> iso_day D c = month_end D c)}"
proof -
  obtain f where f: "first_of_month D from = Inr f" "in_range D f" "iso_day D f = 1" "f \<le> from"
    by (rule first_start [OF assms(1)])
  let ?wanted = "\<lambda>c. anchor \<le> c \<and> from \<le> c \<and> c \<le> through"
  have "\<exists>xs. month_loop D (semimonthly_candidates D) ?wanted through (nat (through - f + 1)) f = Inr xs \<and>
      sorted_wrt (<) xs \<and> set xs = {c. in_range D c \<and> f \<le> c \<and> ?wanted c \<and> (iso_day D c = 15 \<or> iso_day D c = month_end D c)}"
    by (rule month_loop_set [OF good_semimonthly f(2,3) assms(2,3) order_refl]) simp
  then obtain xs where xs: "month_loop D (semimonthly_candidates D) ?wanted through (nat (through - f + 1)) f = Inr xs"
      "sorted_wrt (<) xs" "set xs = {c. in_range D c \<and> f \<le> c \<and> ?wanted c \<and> (iso_day D c = 15 \<or> iso_day D c = month_end D c)}"
    by (elim exE conjE) (rule that)
  have "set xs = {c. in_range D c \<and> anchor \<le> c \<and> from \<le> c \<and> c \<le> through \<and> (iso_day D c = 15 \<or> iso_day D c = month_end D c)}"
    unfolding xs(3) using f(4) by (intro Collect_cong) linarith
  with xs(1,2) show ?thesis
    using assms(4) f(1) by (simp add: schedule_occurrences_def)
qed

lemma in_year_clamped_ex:
  assumes "in_range D anchor" and "- 9999 \<le> y" and "y < 9999"
  shows "\<exists>c. in_year_clamped D anchor y = Inr c \<and> in_range D c \<and> iso_year D c = y \<and>
    iso_month D c = iso_month D anchor \<and> iso_day D c = clamp_day (month_end D c) (iso_day D anchor)"
proof -
  note a = parts_range [OF assms(1)]
  obtain f where f: "from_calendar_date D y (iso_month D anchor) 1 = Some f"
    using short_month [of y "iso_month D anchor" 1] assms a by auto
  then have rf: "in_range D f" "ymd D f = (y, iso_month D anchor, 1)" using from_sound by auto
  then have pf: "iso_year D f = y" "iso_month D f = iso_month D anchor" by (simp_all add: iso_parts)
  have nl: "\<not> last_month D f" using assms(3) pf by (simp add: last_month_def)
  obtain l c where c: "last_of_month D f = Inr l" "with_day_clamped D f (iso_day D anchor) = Inr c" "in_range D c"
    and yc: "ymd D c = (iso_year D f, iso_month D f, clamp_day (iso_day D l) (iso_day D anchor))"
    by (rule with_day_clamped_ex [OF rf(1) nl])
  then have pc: "iso_year D c = iso_year D f" "iso_month D c = iso_month D f"
      "iso_day D c = clamp_day (iso_day D l) (iso_day D anchor)"
    by (simp_all add: iso_parts)
  have "month_end D c = iso_day D l"
    using last_of_month_cong [OF pc(1,2)] c(1) by (simp add: month_end_def)
  then show ?thesis
    using c pc pf f a by (simp add: in_year_clamped_def iso_new_def)
qed

lemma annual_set:
  assumes "in_range D anchor" "in_range D from" "in_range D through" "iso_year D through < 9999" "from \<le> through"
  shows "\<exists>xs. schedule_occurrences D Annual anchor from through day = Inr xs \<and> sorted_wrt (<) xs \<and>
    set xs = {c. in_range D c \<and> anchor \<le> c \<and> from \<le> c \<and> c \<le> through \<and>
      iso_month D c = iso_month D anchor \<and> iso_day D c = clamp_day (month_end D c) (iso_day D anchor)}"
proof -
  let ?wanted = "\<lambda>c. anchor \<le> c \<and> from \<le> c \<and> c \<le> through"
  let ?years = "[iso_year D from..iso_year D through]"
  define cf where "cf y = projr (in_year_clamped D anchor y)" for y
  have cf: "in_year_clamped D anchor y = Inr (cf y) \<and> in_range D (cf y) \<and> iso_year D (cf y) = y \<and>
      iso_month D (cf y) = iso_month D anchor \<and> iso_day D (cf y) = clamp_day (month_end D (cf y)) (iso_day D anchor)"
    if "y \<in> set ?years" for y
  proof -
    have "- 9999 \<le> y" "y < 9999"
      using that assms(4) parts_range(1) [OF assms(2)] by auto
    from in_year_clamped_ex [OF assms(1) this] show ?thesis unfolding cf_def by auto
  qed
  have loop: "(\<forall>y \<in> set ys. in_year_clamped D anchor y = Inr (cf y)) \<Longrightarrow>
      year_loop (in_year_clamped D anchor) ?wanted ys = Inr (filter ?wanted (map cf ys))" for ys
    by (induction ys) auto
  have eq: "schedule_occurrences D Annual anchor from through day = Inr (filter ?wanted (map cf ?years))"
    using assms(5) loop [of ?years] cf by (simp add: schedule_occurrences_def)
  have mono: "cf y < cf z" if "y \<in> set ?years" "z \<in> set ?years" "y < z" for y z
  proof -
    have "ymd D (cf y) < ymd D (cf z)" using cf [OF that(1)] cf [OF that(2)] that(3) by (simp add: ymd_parts)
    then show ?thesis using ymd_less_iff cf [OF that(1)] cf [OF that(2)] by blast
  qed
  have "sorted_wrt (<) (map cf ?years)"
    unfolding sorted_wrt_map by (rule sorted_wrt_mono_rel [OF _ sorted_wrt_upto]) (rule mono)
  then have sorted: "sorted_wrt (<) (filter ?wanted (map cf ?years))" by (rule sorted_wrt_filter)
  have "set (filter ?wanted (map cf ?years)) = {c. in_range D c \<and> anchor \<le> c \<and> from \<le> c \<and> c \<le> through \<and>
      iso_month D c = iso_month D anchor \<and> iso_day D c = clamp_day (month_end D c) (iso_day D anchor)}" (is "_ = ?S")
  proof (intro equalityI subsetI)
    fix c
    assume "c \<in> set (filter ?wanted (map cf ?years))"
    then obtain y where y: "y \<in> set ?years" "c = cf y" and w: "?wanted c" by auto
    show "c \<in> ?S" unfolding y(2) using cf [OF y(1)] w unfolding y(2) by blast
  next
    fix c
    assume c: "c \<in> ?S"
    then have rc: "in_range D c" "from \<le> c" "c \<le> through" by auto
    have "ymd D from \<le> ymd D c" "ymd D c \<le> ymd D through"
      using rc ymd_less_iff [OF rc(1) assms(2)] ymd_less_iff [OF assms(3) rc(1)] by (simp_all add: not_less [symmetric])
    then have y: "iso_year D c \<in> set ?years" by (auto simp: ymd_parts)
    note k = cf [OF y]
    have me: "month_end D (cf (iso_year D c)) = month_end D c"
      using last_of_month_cong [of "cf (iso_year D c)" c] k c by (simp add: month_end_def)
    have "cf (iso_year D c) = c"
    proof (rule ymd_inj)
      show "in_range D (cf (iso_year D c))" using k by blast
      show "in_range D c" by (rule rc(1))
      show "ymd D (cf (iso_year D c)) = ymd D c"
        unfolding ymd_parts using k me c by (simp only: mem_Collect_eq)
    qed
    then have "c \<in> cf ` set ?years" using y by (metis imageI)
    with c show "c \<in> set (filter ?wanted (map cf ?years))" by simp
  qed
  with eq sorted show ?thesis by blast
qed

end

subsection \<open>All frequencies\<close>

text \<open>The dates a schedule is due on, independently of any window.\<close>

definition due_on :: "date_api \<Rightarrow> frequency \<Rightarrow> iso_date \<Rightarrow> nat \<Rightarrow> iso_date \<Rightarrow> bool" where
  "due_on D frequency anchor day c =
     (case frequency of
        Monthly \<Rightarrow> iso_day D c = clamp_day (month_end D c) day
      | Semimonthly \<Rightarrow> iso_day D c = 15 \<or> iso_day D c = month_end D c
      | Weekly \<Rightarrow> 7 dvd c - anchor
      | Biweekly \<Rightarrow> 14 dvd c - anchor
      | Annual \<Rightarrow> iso_month D c = iso_month D anchor \<and>
          iso_day D c = clamp_day (month_end D c) (iso_day D anchor)
      | OneTime \<Rightarrow> c = anchor)"

context time_date
begin

lemma year_before_end: "in_range D through \<Longrightarrow> iso_year D through < 9999 \<Longrightarrow>
    through + 31 \<le> date_max D"
proof -
  assume r: "in_range D through" and y: "iso_year D through < 9999"
  obtain j where "from_calendar_date D 9999 12 28 = Some j" using short_month [of 9999 12 28] by auto
  then have j: "in_range D j" "ymd D j = (9999, 12, 28)" using from_sound by auto
  obtain k where "from_calendar_date D 9999 1 1 = Some k" using short_month [of 9999 1 1] by auto
  then have k: "in_range D k" "ymd D k = (9999, 1, 1)" using from_sound by auto
  have "iso_year D k = 9999" using k(2) by (simp add: iso_parts)
  then have "through < k" using ymd_less_iff [OF r k(1)] y by (simp add: ymd_parts)
  have far: "a + 27 \<le> b" if "in_range D a" "in_range D b" "ymd D a = (9999, p, 1)" "ymd D b = (9999, q, 28)"
      "p \<le> q" for a b p q
  proof -
    have "in_range D (b - int 27) \<and> ymd D (b - int 27) = (9999, q, 28 - 27)"
      by (rule earlier_day [OF that(2,4)]) simp
    then have b: "in_range D (b - 27)" "ymd D (b - 27) = (9999, q, 1)" by auto
    have "ymd D a \<le> ymd D (b - 27)" using that(3,5) b(2) by auto
    then have "\<not> b - 27 < a" using ymd_less_iff [OF b(1) that(1)] by (simp add: not_less [symmetric])
    then show ?thesis by simp
  qed
  obtain n where "from_calendar_date D 9999 1 28 = Some n" using short_month [of 9999 1 28] by auto
  then have n: "in_range D n" "ymd D n = (9999, 1, 28)" using from_sound by auto
  obtain u where "from_calendar_date D 9999 12 1 = Some u" using short_month [of 9999 12 1] by auto
  then have u: "in_range D u" "ymd D u = (9999, 12, 1)" using from_sound by auto
  have "k + 27 \<le> n" by (rule far [OF k(1) n(1) k(2) n(2)]) simp
  moreover have "n < u" using ymd_less_iff [OF n(1) u(1)] by (simp add: n(2) u(2))
  moreover have "u + 27 \<le> j" by (rule far [OF u(1) j(1) u(2) j(2)]) simp
  ultimately show ?thesis using \<open>through < k\<close> j(1) by (simp add: in_range_def)
qed

lemma step_set:
  assumes "in_range D anchor" "in_range D through" "iso_year D through < 9999" "from \<le> through"
    and "step = 7 \<or> step = 14"
  shows "\<exists>xs. step_occurrences D anchor from through step = Inr xs \<and> sorted_wrt (<) xs \<and>
    set xs = {c. in_range D c \<and> anchor \<le> c \<and> from \<le> c \<and> c \<le> through \<and> int step dvd c - anchor}"
proof -
  have p: "0 < step" "date_min D \<le> anchor" "through + int step \<le> date_max D"
    using assms year_before_end [OF assms(2,3)] by (auto simp: in_range_def)
  have "(\<exists>k::nat. c = anchor + int k * int step \<and> from \<le> c \<and> c \<le> through) \<longleftrightarrow>
      in_range D c \<and> anchor \<le> c \<and> from \<le> c \<and> c \<le> through \<and> int step dvd c - anchor" for c
  proof
    assume "\<exists>k::nat. c = anchor + int k * int step \<and> from \<le> c \<and> c \<le> through"
    then obtain k :: nat where k: "c = anchor + int k * int step" "from \<le> c" "c \<le> through" by blast
    have "0 \<le> int k * int step" by simp
    then have "anchor \<le> c" using k(1) by linarith
    moreover have "in_range D c" using \<open>anchor \<le> c\<close> k(3) assms(1,2) unfolding in_range_def by linarith
    moreover have "int step dvd c - anchor" using k(1) by simp
    ultimately show "in_range D c \<and> anchor \<le> c \<and> from \<le> c \<and> c \<le> through \<and> int step dvd c - anchor"
      using k(2,3) by simp
  next
    assume c: "in_range D c \<and> anchor \<le> c \<and> from \<le> c \<and> c \<le> through \<and> int step dvd c - anchor"
    then obtain q where q: "c - anchor = int step * q" by blast
    with c p(1) have "0 \<le> q" by (metis diff_ge_0_iff_ge of_nat_0_less_iff zero_le_mult_iff not_less)
    with q have "c = anchor + int (nat q) * int step" by (simp add: algebra_simps)
    with c show "\<exists>k::nat. c = anchor + int k * int step \<and> from \<le> c \<and> c \<le> through" by blast
  qed
  then show ?thesis using step_occurrences_set [OF p(1,2) assms(4) p(3)] by simp
qed

lemma occurrences_spec:
  assumes "in_range D anchor" "in_range D from" "in_range D through" "iso_year D through < 9999"
  shows "\<exists>xs. schedule_occurrences D frequency anchor from through (Some day) = Inr xs \<and> sorted_wrt (<) xs \<and>
    set xs = {c. in_range D c \<and> anchor \<le> c \<and> from \<le> c \<and> c \<le> through \<and> due_on D frequency anchor day c}"
proof (cases "through < from")
  case True
  then have "{c. in_range D c \<and> anchor \<le> c \<and> from \<le> c \<and> c \<le> through \<and> due_on D frequency anchor day c} = {}"
    by auto
  with True show ?thesis by (simp add: schedule_occurrences_def)
next
  case False
  then have le: "from \<le> through" by simp
  have nl: "\<not> last_month D through" using assms(4) by (simp add: last_month_def)
  show ?thesis
  proof (cases frequency)
    case Monthly
    then show ?thesis using monthly_set [OF assms(2,3) nl le, of anchor day] by (simp only: due_on_def frequency.case)
  next
    case Semimonthly
    then show ?thesis using semimonthly_set [OF assms(2,3) nl le, of anchor "Some day"]
      by (simp only: due_on_def frequency.case)
  next
    case Biweekly
    then show ?thesis using step_set [OF assms(1,3,4) le, of 14] le
      by (simp add: due_on_def schedule_occurrences_def)
  next
    case Weekly
    then show ?thesis using step_set [OF assms(1,3,4) le, of 7] le
      by (simp add: due_on_def schedule_occurrences_def)
  next
    case Annual
    then show ?thesis using annual_set [OF assms le, of "Some day"]
      by (simp only: due_on_def frequency.case)
  next
    case OneTime
    then show ?thesis using le assms(1) by (auto simp: due_on_def schedule_occurrences_def)
  qed
qed

end

end
