(* ===== verification/Projection_Slots.thy ===== *)
theory Projection_Slots
  imports Schedule_Calc
begin

text \<open>
  The identity of a generated event. \<open>save_stream\<close> and the refresh key a projected event by its
  \<open>projection_slot\<close>, so two dates a schedule is due on must never share a slot, and a slot must not
  depend on the window the event was generated for. This theory proves both, for every frequency,
  and relates the occurrences of neighbouring windows.
\<close>

lemma concat_dash_inj:
  assumes "length a = length b"
  shows "a @ CHR ''-'' # s = b @ CHR ''-'' # t \<longleftrightarrow> a = b \<and> s = t"
  using assms by auto

context time_date
begin

lemma month_end_cong:
  "iso_year D c = iso_year D d \<Longrightarrow> iso_month D c = iso_month D d \<Longrightarrow> month_end D c = month_end D d"
  by (simp add: month_end_def last_of_month_def)

lemma parts_inj:
  "in_range D c \<Longrightarrow> in_range D d \<Longrightarrow> iso_year D c = iso_year D d \<Longrightarrow> iso_month D c = iso_month D d \<Longrightarrow>
   iso_day D c = iso_day D d \<Longrightarrow> c = d"
  by (rule ymd_inj) (simp_all add: ymd_parts)

lemma year_text:
  assumes "storable D c"
  shows "show_int_pad 4 (iso_year D c) = show_pad 4 (nat (iso_year D c))"
    "length (show_pad 4 (nat (iso_year D c))) = 4"
  using assms parts_range [of c]
  by (auto simp: storable_def show_int_pad_nat intro!: length_show_pad)

lemma year_text_inj:
  assumes "storable D c" "storable D d" "show_int_pad 4 (iso_year D c) = show_int_pad 4 (iso_year D d)"
  shows "iso_year D c = iso_year D d"
proof -
  have "nat (iso_year D c) = nat (iso_year D d)" using assms by (simp add: year_text show_pad_inj)
  moreover have "0 \<le> iso_year D c" "0 \<le> iso_year D d" using assms(1,2) by (simp_all add: storable_def)
  ultimately show ?thesis by (simp only: eq_nat_nat_iff)
qed

lemma month_text:
  assumes "storable D c" "storable D d"
    and "show_int_pad 4 (iso_year D c) @ CHR ''-'' # show_pad 2 (iso_month D c) @ s =
         show_int_pad 4 (iso_year D d) @ CHR ''-'' # show_pad 2 (iso_month D d) @ t"
  shows "iso_year D c = iso_year D d \<and> iso_month D c = iso_month D d \<and> s = t"
proof -
  have m: "length (show_pad 2 (iso_month D e)) = 2" if "storable D e" for e
    using that parts_range [of e] by (auto simp: storable_def intro!: length_show_pad)
  have y: "length (show_int_pad 4 (iso_year D e)) = 4" if "storable D e" for e
    using year_text [OF that] by simp
  have "show_int_pad 4 (iso_year D c) = show_int_pad 4 (iso_year D d)"
      "show_pad 2 (iso_month D c) @ s = show_pad 2 (iso_month D d) @ t"
    using assms(3) y [OF assms(1)] y [OF assms(2)] by simp_all
  then show ?thesis using year_text_inj [OF assms(1,2)] m [OF assms(1)] m [OF assms(2)]
    by (simp add: show_pad_inj)
qed

lemma dvd_tdiv_inj:
  assumes "0 < k" "anchor \<le> c" "anchor \<le> d" "k dvd c - anchor" "k dvd d - anchor"
    and "tdiv (c - anchor) k = tdiv (d - anchor) k"
  shows "c = (d::int)"
proof -
  have "c - anchor = k * ((c - anchor) div k)" "d - anchor = k * ((d - anchor) div k)"
    using assms(4,5) by simp_all
  moreover have "(c - anchor) div k = (d - anchor) div k" using assms by (simp add: tdiv_nonneg)
  ultimately show ?thesis by simp
qed

lemma slot_inj:
  assumes due: "due_on D f anchor day c" "due_on D f anchor day d"
    and r: "storable D c" "storable D d" "anchor \<le> c" "anchor \<le> d"
    and eq: "projection_slot D f anchor c = projection_slot D f anchor d"
  shows "c = d"
proof -
  have ir: "in_range D c" "in_range D d" using r by (auto simp: storable_def)
  show ?thesis
  proof (cases f)
    case Monthly
    then have ym: "iso_year D c = iso_year D d \<and> iso_month D c = iso_month D d"
      using eq month_text [OF r(1,2), of "[]" "[]"] by (simp add: projection_slot_def)
    then have "month_end D c = month_end D d" by (auto intro: month_end_cong)
    then have "iso_day D c = iso_day D d" using due Monthly by (simp add: due_on_def)
    with ym show ?thesis using parts_inj [OF ir] by simp
  next
    case Semimonthly
    define p where "p e = CHR '':'' # (if iso_day D e = 15 then ''mid'' else ''end'')" for e
    have slot: "projection_slot D f anchor e = ''semimonthly:'' @ (show_int_pad 4 (iso_year D e) @
        CHR ''-'' # show_pad 2 (iso_month D e) @ p e)" for e
      by (simp only: projection_slot_def Semimonthly frequency.case p_def append.simps append_assoc)
    have e: "iso_year D c = iso_year D d \<and> iso_month D c = iso_month D d \<and> p c = p d"
      by (rule month_text [OF r(1,2)]) (use eq in \<open>simp only: slot same_append_eq\<close>)
    then have "iso_day D c = 15 \<longleftrightarrow> iso_day D d = 15" by (simp add: p_def split: if_splits)
    moreover have "month_end D c = month_end D d" using e by (auto intro: month_end_cong)
    moreover have "iso_day D c = 15 \<or> iso_day D c = month_end D c"
        "iso_day D d = 15 \<or> iso_day D d = month_end D d" using due Semimonthly by (simp_all add: due_on_def)
    ultimately have "iso_day D c = iso_day D d" by linarith
    with e show ?thesis using parts_inj [OF ir] by simp
  next
    case Biweekly
    with due r eq show ?thesis using dvd_tdiv_inj [of 14 anchor c d]
      by (simp add: due_on_def projection_slot_def show_int_inj iso_days_until_def)
  next
    case Weekly
    with due r eq show ?thesis using dvd_tdiv_inj [of 7 anchor c d]
      by (simp add: due_on_def projection_slot_def show_int_inj iso_days_until_def)
  next
    case Annual
    with eq have y: "iso_year D c = iso_year D d"
      using year_text_inj [OF r(1,2)] by (simp add: projection_slot_def)
    have m: "iso_month D c = iso_month D d" using due Annual by (simp add: due_on_def)
    with y have "month_end D c = month_end D d" by (auto intro: month_end_cong)
    then have "iso_day D c = iso_day D d" using due Annual by (simp add: due_on_def)
    with y m show ?thesis using parts_inj [OF ir] by simp
  next
    case OneTime
    with due show ?thesis by (simp add: due_on_def)
  qed
qed

lemma slots_distinct:
  assumes w: "in_range D anchor" "storable D from" "in_range D through" "iso_year D through < 9999"
    and o: "schedule_occurrences D f anchor from through (Some day) = Inr xs"
  shows "distinct (map (projection_slot D f anchor) xs)"
proof -
  have ir: "in_range D from" using w(2) by (simp add: storable_def)
  have xs: "sorted_wrt (<) xs"
    "set xs = {c. in_range D c \<and> anchor \<le> c \<and> from \<le> c \<and> c \<le> through \<and> due_on D f anchor day c}"
    using occurrences_spec [OF w(1) ir w(3,4), of f day] o by auto
  have st: "storable D c" if "in_range D c" "from \<le> c" for c
  proof -
    have "ymd D from \<le> ymd D c" using ymd_less_iff [OF that(1) ir] that(2) by (simp add: not_less [symmetric])
    then have "iso_year D from \<le> iso_year D c" by (auto simp: ymd_parts less_eq_prod_def)
    with that w(2) show ?thesis by (simp add: storable_def)
  qed
  have "inj_on (projection_slot D f anchor) (set xs)"
  proof (rule inj_onI)
    fix c d
    assume cd: "c \<in> set xs" "d \<in> set xs" "projection_slot D f anchor c = projection_slot D f anchor d"
    then have "in_range D c" "from \<le> c" "anchor \<le> c" "due_on D f anchor day c"
        "in_range D d" "from \<le> d" "anchor \<le> d" "due_on D f anchor day d"
      using xs(2) by simp_all
    then show "c = d" using slot_inj st cd(3) by blast
  qed
  moreover have "distinct xs" using xs(1) by (simp add: strict_sorted_iff)
  ultimately show ?thesis by (simp add: distinct_map)
qed

text \<open>Neighbouring windows: generating for the union is generating for the parts.\<close>

lemma strict_sorted_unique: "sorted_wrt (<) xs \<Longrightarrow> sorted_wrt (<) ys \<Longrightarrow> set xs = set ys \<Longrightarrow> xs = (ys :: int list)"
  by (simp add: strict_sorted_equal)

lemma occurrences_split:
  assumes w: "in_range D anchor" "in_range D from" "in_range D through" "iso_year D through < 9999"
    and m: "from \<le> mid" "mid \<le> through"
  obtains xs ys where "schedule_occurrences D f anchor from mid (Some day) = Inr xs"
    "schedule_occurrences D f anchor (mid + 1) through (Some day) = Inr ys"
    "schedule_occurrences D f anchor from through (Some day) = Inr (xs @ ys)"
proof -
  have ir: "in_range D mid" by (rule in_range_between [OF w(2,3) m])
  have "ymd D mid \<le> ymd D through"
    using ymd_less_iff [OF w(3) ir] m(2) by (simp add: not_less [symmetric])
  then have y: "iso_year D mid < 9999" using w(4) by (auto simp: ymd_parts less_eq_prod_def)
  obtain xs where xs: "schedule_occurrences D f anchor from mid (Some day) = Inr xs" "sorted_wrt (<) xs"
      "set xs = {c. in_range D c \<and> anchor \<le> c \<and> from \<le> c \<and> c \<le> mid \<and> due_on D f anchor day c}"
    using occurrences_spec [OF w(1,2) ir y] by blast
  obtain zs where zs: "schedule_occurrences D f anchor from through (Some day) = Inr zs" "sorted_wrt (<) zs"
      "set zs = {c. in_range D c \<and> anchor \<le> c \<and> from \<le> c \<and> c \<le> through \<and> due_on D f anchor day c}"
    using occurrences_spec [OF w] by blast
  show ?thesis
  proof (cases "mid = through")
    case True
    with zs(1) xs(1) show ?thesis using that [of xs "[]"] by (simp add: schedule_occurrences_def)
  next
    case False
    with m have lt: "mid + 1 \<le> through" by simp
    have ir': "in_range D (mid + 1)" using ir w(3) lt unfolding in_range_def by linarith
    obtain ys where ys: "schedule_occurrences D f anchor (mid + 1) through (Some day) = Inr ys"
        "sorted_wrt (<) ys"
        "set ys = {c. in_range D c \<and> anchor \<le> c \<and> mid + 1 \<le> c \<and> c \<le> through \<and> due_on D f anchor day c}"
      using occurrences_spec [OF w(1) ir' w(3,4)] by blast
    have between: "c \<le> through \<Longrightarrow> from \<le> c \<Longrightarrow>
        (from \<le> c \<and> c \<le> mid) \<or> (mid + 1 \<le> c \<and> c \<le> through)" for c by linarith
    have "set (xs @ ys) = set zs"
    proof (rule set_eqI)
      fix c
      have "c \<in> set (xs @ ys) \<longleftrightarrow> (in_range D c \<and> anchor \<le> c \<and> due_on D f anchor day c) \<and>
          ((from \<le> c \<and> c \<le> mid) \<or> (mid + 1 \<le> c \<and> c \<le> through))"
        unfolding set_append Un_iff xs(3) ys(3) mem_Collect_eq by meson
      also have "((from \<le> c \<and> c \<le> mid) \<or> (mid + 1 \<le> c \<and> c \<le> through)) = (from \<le> c \<and> c \<le> through)"
        using m by linarith
      finally show "c \<in> set (xs @ ys) \<longleftrightarrow> c \<in> set zs" unfolding zs(3) mem_Collect_eq by meson
    qed
    moreover have "sorted_wrt (<) (xs @ ys)"
    proof -
      have "x < y" if "x \<in> set xs" "y \<in> set ys" for x y
      proof -
        have "x \<le> mid" using that(1) unfolding xs(3) by simp
        moreover have "mid + 1 \<le> y" using that(2) unfolding ys(3) by simp
        ultimately show ?thesis by simp
      qed
      with xs(2) ys(2) show ?thesis by (simp add: sorted_wrt_append)
    qed
    ultimately have "xs @ ys = zs" using zs(2) by (intro strict_sorted_unique) auto
    with xs(1) ys(1) zs(1) show ?thesis using that by blast
  qed
qed

end

end
