(* ===== verification/Samples.thy ===== *)
theory Samples
  imports Projection_Slots
begin

text \<open>
  Concrete inputs on which the theorems of the finance component are instantiated: the Gregorian
  calendar of \<open>Calendar\<close> for the \<open>time\<close> crate, a fixed clock, and a small database with one primary
  account, a stream, a schedule and two events. Its amounts are small multiples of the smallest
  positive float, so that the float operations evaluate quickly and exactly.
\<close>

definition f64_small :: "nat \<Rightarrow> f64" where
  "f64_small n = Fin False n"

definition sample_ext :: ext where
  "sample_ext = \<lparr>dates = gregorian, serde_ok = (\<lambda>s. s \<noteq> []), sqlite_json = (\<lambda>s. s \<noteq> []),
     schedule_meta = (\<lambda>i f. f), now_text = ''2026-01-01T00:00:00.000Z''\<rparr>"

definition empty_db :: fin_db where
  "empty_db = \<lparr>accounts = [], account_seq = 0, streams = [], stream_seq = 0, views = [], view_seq = 0,
     members = [], schedules = [], schedule_seq = 0, events = [], event_seq = 0\<rparr>"

definition cash_account :: account_row where
  "cash_account = \<lparr>ac_id = 1, ac_name = ''Checking'', ac_kind = ''cash'',
     ac_balance = Some (f64_small 100), ac_as_of = Some ''2026-01-01'',
     ac_source_type = Some ''monarch'', ac_source_ref = Some ''acct'', ac_metadata = None,
     ac_balance_updated_at = None, ac_is_primary = True, ac_is_active = True, ac_notes = None,
     ac_updated_at = ''2026-01-01T00:00:00.000Z''\<rparr>"

definition rent_stream :: stream_row where
  "rent_stream = \<lparr>st_id = 1, st_name = ''Rent'', st_type = ''expense'', st_kind = ''manual_expense'',
     st_direction = ''out'', st_certainty = ''known'', st_description = None,
     st_default_account_id = Some 1, st_configuration = None, st_parent_id = None,
     st_is_active = True, st_updated_at = ''2026-01-01T00:00:00.000Z''\<rparr>"

definition main_view :: view_row where
  "main_view = \<lparr>vw_id = 1, vw_name = ''Household'', vw_description = None, vw_is_default = True,
     vw_is_active = True, vw_updated_at = ''2026-01-01T00:00:00.000Z''\<rparr>"

definition rent_schedule :: schedule_row where
  "rent_schedule = \<lparr>sc_id = 1, sc_stream_id = 1, sc_account_id = None, sc_label = None,
     sc_amount = f64_small 50, sc_frequency = ''monthly'', sc_day_of_month = Some 31,
     sc_start_date = ''2026-01-01'', sc_end_date = None, sc_is_active = True, sc_metadata = None,
     sc_updated_at = ''2026-01-01T00:00:00.000Z''\<rparr>"

definition manual_event :: event_row where
  "manual_event = \<lparr>ev_id = 1, ev_stream_id = 1, ev_account_id = None, ev_label = Some ''Deposit'',
     ev_expected_date = ''2026-01-10'', ev_amount = f64_small 25, ev_override_label = None,
     ev_has_label_override = False, ev_override_date = None, ev_override_amount = None,
     ev_override_account_id = None, ev_has_account_override = False, ev_actual_date = None,
     ev_actual_amount = None, ev_status = ''confirmed'', ev_is_excluded = False,
     ev_exclusion_reason = None, ev_source_id = Some ''manual:1'', ev_source_type = Some ''manual'', ev_metadata = None,
     ev_notes = None, ev_updated_at = ''2026-01-01T00:00:00.000Z''\<rparr>"

definition slot_event :: event_row where
  "slot_event = manual_event\<lparr>ev_id := 2, ev_label := Some ''Rent'', ev_amount := f64_small 50,
     ev_expected_date := ''2026-02-28'', ev_status := ''projected'',
     ev_source_id := Some ''stream_schedule:1:monthly:2026-02'', ev_source_type := Some ''stream_schedule''\<rparr>"

definition sample_db :: fin_db where
  "sample_db = \<lparr>accounts = [cash_account], account_seq = 1, streams = [rent_stream], stream_seq = 1,
     views = [main_view], view_seq = 1, members = [(1, 1)], schedules = [rent_schedule],
     schedule_seq = 1, events = [manual_event, slot_event], event_seq = 2\<rparr>"

lemma sample_dates: "time_date (dates sample_ext)"
  by (simp add: sample_ext_def greg.time_date_axioms)

lemma rnd53_ge:
  assumes "2 ^ k \<le> m" and "2 * 53 \<le> k"
  shows "2 ^ (k - 1) \<le> rnd53 m"
proof -
  define j where "j = floorlog 2 m - 53"
  have "m < 2 ^ floorlog 2 m" "2 ^ (floorlog 2 m - 1) \<le> m"
    using floorlog_bounds [of m 2] less_le_trans [OF _ assms(1), of 0] by simp_all
  have "k < floorlog 2 m"
  proof (rule ccontr)
    assume "\<not> k < floorlog 2 m"
    then have "2 ^ floorlog 2 m \<le> (2::nat) ^ k" by simp
    with \<open>m < 2 ^ floorlog 2 m\<close> assms(1) show False by simp
  qed
  then have "j \<le> floorlog 2 m - 1" "0 < j" using assms(2) by (auto simp: j_def)
  have "m div 2 ^ j * 2 ^ j \<le> rnd53 m"
    using \<open>0 < j\<close> unfolding rnd53_def by (simp add: j_def [symmetric] Let_def)
  moreover have "2 ^ F \<le> m div 2 ^ j * 2 ^ j" if "2 ^ F \<le> m" "j \<le> F" for F
  proof -
    have "2 ^ F = (2::nat) ^ (F - j) * 2 ^ j" using that(2) by (simp add: power_add [symmetric])
    moreover from this that(1) have "2 ^ (F - j) \<le> m div 2 ^ j" by (simp add: less_eq_div_iff_mult_less_eq)
    ultimately show ?thesis by simp
  qed
  from this [OF \<open>2 ^ (floorlog 2 m - 1) \<le> m\<close> \<open>j \<le> floorlog 2 m - 1\<close>]
  have "2 ^ (floorlog 2 m - 1) \<le> m div 2 ^ j * 2 ^ j" .
  moreover have "(2::nat) ^ (k - 1) \<le> 2 ^ (floorlog 2 m - 1)" using \<open>k < floorlog 2 m\<close> by simp
  ultimately show ?thesis by linarith
qed

lemma small_lt_1e308: "a < 2 ^ 1073 \<Longrightarrow> f64_lt (Fin False a) f64_1e308"
proof -
  assume "a < 2 ^ 1073"
  moreover have "2 ^ (1074 - 1) \<le> rnd53 (10 ^ 308 * 2 ^ 1074)"
    by (rule rnd53_ge) simp_all
  ultimately have "a < rnd53 (10 ^ 308 * 2 ^ 1074)" by simp
  then show ?thesis unfolding f64_1e308_def f64_round_def Let_def
    by (simp add: f64_units_def)
qed

lemma f64_small_checks:
  "a < 1000000 \<Longrightarrow> amount_check (f64_small a)"
  "a < 1000000 \<Longrightarrow> f64_lt (f64_abs (f64_small a)) f64_1e308"
proof -
  assume "a < 1000000"
  then have "a < 2 ^ 1073" by (rule less_trans) simp
  then have "f64_lt (Fin False a) f64_1e308" by (rule small_lt_1e308)
  then show "amount_check (f64_small a)" "f64_lt (f64_abs (f64_small a)) f64_1e308"
    by (auto simp: amount_check_def f64_small_def f64_le_def f64_zero_def f64_units_def)
qed

lemmas sample_rows = cash_account_def rent_stream_def main_view_def rent_schedule_def manual_event_def
  slot_event_def

lemma sample_globs:
  "date_glob ''2026-01-01''" "date_glob ''2026-01-10''" "date_glob ''2026-02-28''"
  by code_simp+

lemma sample_nonblank:
  "sql_nonblank ''Checking''" "sql_nonblank ''cash''" "sql_nonblank ''Rent''" "sql_nonblank ''expense''"
  "sql_nonblank ''manual_expense''" "sql_nonblank ''Household''"
  by code_simp+

lemma sample_valid: "db_valid sample_ext sample_db"
  by (simp add: db_valid_def sample_db_def sample_rows account_check_def stream_check_def
      schedule_check_def event_check_def sample_globs sample_nonblank f64_small_checks primary_ok_def
      default_ok_def events_unique_def event_key_def map_filter_simps)

lemma sample_ids: "db_ids sample_db"
  by (simp add: db_ids_def ids_ok_def sample_db_def sample_rows)


text \<open>February 2026 and the occurrence of the sample schedule in it.\<close>

definition feb :: window where
  "feb = \<lparr>w_from = 739648, w_through = 739675\<rparr>"

lemma sample_texts:
  "iso_from_str gregorian ''2026-01-01'' = Inr 739617"
  "iso_to_string gregorian 739617 = ''2026-01-01''"
  "iso_to_string gregorian 739648 = ''2026-02-01''"
  "iso_to_string gregorian 739675 = ''2026-02-28''"
  by code_simp+

lemma sample_occurrences:
  "schedule_occurrences gregorian Monthly 739617 739648 739675 (Some 31) = Inr [739675]"
  by code_simp

lemma sample_slot: "projection_slot gregorian Monthly 739617 739675 = ''monthly:2026-02''"
  by code_simp

lemma sample_range:
  "in_range gregorian 739648" "iso_year gregorian 739648 = 2026"
  "in_range gregorian 739675" "iso_year gregorian 739675 = 2026"
  "in_range gregorian 739617" "iso_year gregorian 739617 = 2026"
  by code_simp+

end
