(* ===== verification/Accounts.thy ===== *)
theory Accounts
  imports Samples
begin

text \<open>
  The account part of \<open>src/finance/repository.rs\<close>: \<open>save_account\<close>, \<open>ensure_primary_account\<close>,
  \<open>set_starting_balance\<close>, \<open>list_accounts\<close> and \<open>get_cash_source\<close>. The component's contract is the
  cash anchor: at most one active account is primary, an active primary account is never lost, and
  what was set as the starting balance is what the forecast starts from.
\<close>

subsection \<open>Statements on the account table\<close>

definition update_accounts :: "ext \<Rightarrow> string \<Rightarrow> (account_row \<Rightarrow> bool) \<Rightarrow> (account_row \<Rightarrow> account_row) \<Rightarrow>
    nat fin_op" where
  "update_accounts X ctx P f =
     fin_write X ctx (\<lambda>db. (count_rows P (accounts db), db\<lparr>accounts := update_rows P f (accounts db)\<rparr>))"

definition insert_account :: "ext \<Rightarrow> string \<Rightarrow> (int \<Rightarrow> account_row) \<Rightarrow> int fin_op" where
  "insert_account X ctx row =
     fin_write X ctx (\<lambda>db. let i = account_seq db + 1 in
       (i, db\<lparr>accounts := accounts db @ [row i], account_seq := i\<rparr>))"

text \<open>\<open>x IS y\<close> on nullable columns: two \<open>NULL\<close>s are the same, numbers compare by value.\<close>

definition sql_is_real :: "f64 option \<Rightarrow> f64 option \<Rightarrow> bool" where
  "sql_is_real x y = (case (x, y) of (None, None) \<Rightarrow> True | (Some a, Some b) \<Rightarrow> f64_eq a b | _ \<Rightarrow> False)"

definition account_is_active_primary :: "account_row \<Rightarrow> bool" where
  "account_is_active_primary a \<longleftrightarrow> ac_is_primary a \<and> ac_is_active a"

definition clear_primary :: "ext \<Rightarrow> account_row \<Rightarrow> account_row" where
  "clear_primary X a = a\<lparr>ac_is_primary := False, ac_updated_at := now_text X\<rparr>"

definition account_update :: "ext \<Rightarrow> account_draft \<Rightarrow> account_row \<Rightarrow> account_row" where
  "account_update X d a =
     (let as_of = map_option (iso_to_string (dates X)) (ad_as_of d);
          same = sql_is_real (ac_balance a) (ad_balance d) \<and> ac_as_of a = as_of
      in a\<lparr>ac_name := trim (ad_name d), ac_kind := trim (ad_kind d), ac_balance := ad_balance d,
           ac_as_of := as_of,
           ac_source_type := (if ad_balance d = None then None else if same then ac_source_type a
                              else Some ''manual''),
           ac_source_ref := (if same then ac_source_ref a else None),
           ac_metadata := (if same then ac_metadata a else None),
           ac_balance_updated_at := (if ad_balance d = None then None
                                     else if same then ac_balance_updated_at a
                                     else Some (now_text X)),
           ac_is_primary := ad_is_primary d, ac_notes := clean_optional (ad_notes d),
           ac_updated_at := now_text X\<rparr>)"

definition new_account :: "ext \<Rightarrow> account_draft \<Rightarrow> int \<Rightarrow> account_row" where
  "new_account X d i =
     \<lparr>ac_id = i, ac_name = trim (ad_name d), ac_kind = trim (ad_kind d), ac_balance = ad_balance d,
      ac_as_of = map_option (iso_to_string (dates X)) (ad_as_of d),
      ac_source_type = (if ad_balance d = None then None else Some ''manual''),
      ac_source_ref = None, ac_metadata = None,
      ac_balance_updated_at = (if ad_balance d = None then None else Some (now_text X)),
      ac_is_primary = ad_is_primary d, ac_is_active = True, ac_notes = clean_optional (ad_notes d),
      ac_updated_at = now_text X\<rparr>"

subsection \<open>Saving an account\<close>

definition demotion_guard :: "int \<Rightarrow> unit fin_op" where
  "demotion_guard i =
     bnd (gets (\<lambda>db. find (\<lambda>a. ac_id a = i \<and> ac_is_active a) (accounts db))) (\<lambda>row.
       case row of None \<Rightarrow> raise (NotFound (''active account '' @ show_int i))
       | Some a \<Rightarrow> require (\<not> ac_is_primary a) (Conflict (''the current primary account cannot be '' @
           ''demoted; make another account primary instead'')))"

definition save_account :: "ext \<Rightarrow> account_draft \<Rightarrow> int fin_op" where
  "save_account X d =
     thn (lift_res (validate_nonempty ''account name'' (ad_name d)))
    (thn (lift_res (validate_nonempty ''account kind'' (ad_kind d)))
    (thn (lift_res (validate_optional_balance (ad_balance d) (ad_as_of d)))
    (transaction
      (thn (case ad_id d of Some i \<Rightarrow> if ad_is_primary d then ok () else demotion_guard i
            | None \<Rightarrow> ok ())
      (thn (if ad_is_primary d
            then thn (update_accounts X ''clear previous primary account''
                   (\<lambda>a. ac_is_primary a \<and> Some (ac_id a) \<noteq> ad_id d) (clear_primary X)) (ok ())
            else ok ())
      (case ad_id d of
         Some i \<Rightarrow>
           bnd (update_accounts X ''update account'' (\<lambda>a. ac_id a = i \<and> ac_is_active a)
             (account_update X d)) (\<lambda>changed.
           thn (require (changed = 1) (NotFound (''active account '' @ show_int i))) (ok i))
       | None \<Rightarrow> insert_account X ''insert account'' (new_account X d)))))))"

definition default_account :: "ext \<Rightarrow> int \<Rightarrow> account_row" where
  "default_account X i =
     \<lparr>ac_id = i, ac_name = ''Primary Cash'', ac_kind = ''cash'', ac_balance = None, ac_as_of = None,
      ac_source_type = None, ac_source_ref = None, ac_metadata = None, ac_balance_updated_at = None,
      ac_is_primary = True, ac_is_active = True, ac_notes = None, ac_updated_at = now_text X\<rparr>"

definition ensure_primary_account_on :: "ext \<Rightarrow> int fin_op" where
  "ensure_primary_account_on X =
     bnd (gets (\<lambda>db. first_by ac_id account_is_active_primary (accounts db))) (\<lambda>row.
       case row of Some a \<Rightarrow> ok (ac_id a)
       | None \<Rightarrow> insert_account X ''insert primary account'' (default_account X))"

definition ensure_primary_account :: "ext \<Rightarrow> int fin_op" where
  "ensure_primary_account X = transaction (ensure_primary_account_on X)"

definition balance_update :: "ext \<Rightarrow> f64 \<Rightarrow> iso_date \<Rightarrow> string \<Rightarrow> string option \<Rightarrow> string option \<Rightarrow>
    account_row \<Rightarrow> account_row" where
  "balance_update X amount as_of source_type source_ref metadata a =
     a\<lparr>ac_balance := Some amount, ac_as_of := Some (iso_to_string (dates X) as_of),
       ac_source_type := Some (trim source_type), ac_source_ref := clean_str source_ref,
       ac_metadata := metadata, ac_balance_updated_at := Some (now_text X),
       ac_updated_at := now_text X\<rparr>"

definition set_starting_balance :: "ext \<Rightarrow> f64 \<Rightarrow> iso_date \<Rightarrow> string \<Rightarrow> string option \<Rightarrow> string option \<Rightarrow>
    unit fin_op" where
  "set_starting_balance X amount as_of source_type source_ref metadata =
     thn (lift_res (validate_finite ''starting balance'' amount))
    (thn (lift_res (validate_nonempty ''balance source type'' source_type))
    (thn (lift_res (validate_json X ''balance metadata'' metadata))
    (transaction
      (bnd (ensure_primary_account_on X) (\<lambda>account_id.
       bnd (update_accounts X ''set starting balance''
              (\<lambda>a. ac_id a = account_id \<and> ac_is_active a \<and> ac_is_primary a)
              (balance_update X amount as_of source_type source_ref metadata)) (\<lambda>changed.
       require (changed = 1)
         (Conflict ''primary account disappeared while setting its balance'')))))))"

subsection \<open>Reading accounts\<close>

record account_view =
  av_id :: int
  av_name :: string
  av_kind :: string
  av_balance :: "f64 option"
  av_as_of :: "string option"
  av_source_type :: "string option"
  av_source_ref :: "string option"
  av_metadata :: "string option"
  av_balance_updated_at :: "string option"
  av_is_primary :: bool
  av_is_active :: bool
  av_notes :: "string option"

definition account_from_row :: "account_row \<Rightarrow> account_view" where
  "account_from_row a =
     \<lparr>av_id = ac_id a, av_name = ac_name a, av_kind = ac_kind a, av_balance = ac_balance a,
      av_as_of = ac_as_of a, av_source_type = ac_source_type a, av_source_ref = ac_source_ref a,
      av_metadata = ac_metadata a, av_balance_updated_at = ac_balance_updated_at a,
      av_is_primary = ac_is_primary a, av_is_active = ac_is_active a, av_notes = ac_notes a\<rparr>"

definition list_accounts :: "account_view list fin_op" where
  "list_accounts = gets (\<lambda>db. map account_from_row
     (sort_key (\<lambda>a. (\<not> ac_is_primary a, ascii_lower (ac_name a), ac_id a))
       (filter ac_is_active (accounts db))))"

definition primary_account_with_balance :: "account_view option fin_op" where
  "primary_account_with_balance = gets (\<lambda>db. map_option account_from_row
     (first_by ac_id (\<lambda>a. account_is_active_primary a \<and> ac_balance a \<noteq> None \<and> ac_as_of a \<noteq> None)
       (accounts db)))"

record cash_source =
  cs_amount :: f64
  cs_as_of :: string
  cs_account_name :: "string option"
  cs_source_kind :: string
  cs_detail :: string
  cs_updated_at :: "string option"

definition get_cash_source :: "cash_source option fin_op" where
  "get_cash_source =
     bnd primary_account_with_balance (\<lambda>row.
       case row of None \<Rightarrow> ok None
       | Some a \<Rightarrow>
           bnd (some_or (Storage ''primary balance row had no balance'') (av_balance a)) (\<lambda>amount.
           bnd (some_or (Storage ''primary balance row had no as-of date'') (av_as_of a)) (\<lambda>as_of.
           let kind = (case av_source_type a of Some t \<Rightarrow> t | None \<Rightarrow> ''manual'');
               detail = (if kind = ''monarch'' then ''Synced from Monarch for '' @ av_name a
                         else if kind = ''manual'' then ''Manual balance for '' @ av_name a
                         else kind @ '' balance for '' @ av_name a)
           in ok (Some \<lparr>cs_amount = amount, cs_as_of = as_of, cs_account_name = Some (av_name a),
                         cs_source_kind = kind, cs_detail = detail,
                         cs_updated_at = av_balance_updated_at a\<rparr>))))"

subsection \<open>Lemmas\<close>

lemma update_accounts_Inr:
  "update_accounts X ctx P f db = (Inr n, db') \<longleftrightarrow>
     n = count_rows P (accounts db) \<and> db' = db\<lparr>accounts := update_rows P f (accounts db)\<rparr> \<and> db_valid X db'"
  by (auto simp: update_accounts_def fin_write_Inr)

lemma insert_account_Inr:
  "insert_account X ctx row db = (Inr i, db') \<longleftrightarrow>
     i = account_seq db + 1 \<and> db' = db\<lparr>accounts := accounts db @ [row i], account_seq := i\<rparr> \<and> db_valid X db'"
  by (auto simp: insert_account_def fin_write_Inr Let_def)

lemma keeps_account_statements [keeps_rules, intro]:
  "keeps (db_valid X) (update_accounts X ctx P f)" "keeps (db_valid X) (insert_account X ctx row)"
  by (simp_all add: update_accounts_def insert_account_def keeps_fin_write)

lemma keeps_save_account: "keeps (db_valid X) (save_account X d)"
  unfolding save_account_def demotion_guard_def
  by (intro keeps_rules)

lemma keeps_ensure_primary: "keeps (db_valid X) (ensure_primary_account_on X)"
  unfolding ensure_primary_account_on_def
  by (intro keeps_rules)

lemma keeps_set_starting_balance: "keeps (db_valid X) (set_starting_balance X a b c d e)"
  unfolding set_starting_balance_def by (intro keeps_rules keeps_ensure_primary)

text \<open>At most one active primary account: two of them are the same row.\<close>

lemma primary_ok_unique:
  assumes "primary_ok as" "a \<in> set as" "b \<in> set as"
    "account_is_active_primary a" "account_is_active_primary b"
  shows "a = b"
proof -
  let ?P = "\<lambda>a. ac_is_primary a \<and> ac_is_active a"
  have "length (filter ?P as) \<le> 1" using assms(1) by (simp add: primary_ok_def count_rows_def)
  moreover have "a \<in> set (filter ?P as)" "b \<in> set (filter ?P as)"
    using assms by (simp_all add: account_is_active_primary_def)
  ultimately show ?thesis by (cases "filter ?P as") auto
qed

lemma db_valid_primary: "db_valid X db \<Longrightarrow> primary_ok (accounts db)"
  by (simp add: db_valid_def Let_def)

text \<open>The accounts after a successful save, in closed form.\<close>

definition demoted_accounts :: "ext \<Rightarrow> account_draft \<Rightarrow> account_row list \<Rightarrow> account_row list" where
  "demoted_accounts X d as =
     (if ad_is_primary d
      then update_rows (\<lambda>a. ac_is_primary a \<and> Some (ac_id a) \<noteq> ad_id d) (clear_primary X) as else as)"

definition saved_accounts :: "ext \<Rightarrow> account_draft \<Rightarrow> int \<Rightarrow> account_row list \<Rightarrow> account_row list" where
  "saved_accounts X d i as =
     (case ad_id d of
        Some j \<Rightarrow> update_rows (\<lambda>a. ac_id a = j \<and> ac_is_active a) (account_update X d) (demoted_accounts X d as)
      | None \<Rightarrow> demoted_accounts X d as @ [new_account X d i])"

lemma demotion_guard_Inr:
  assumes "demotion_guard i db = (Inr u, t)"
  shows "t = db \<and> (\<exists>a \<in> set (accounts db). ac_id a = i \<and> ac_is_active a \<and> \<not> ac_is_primary a)"
  using assms by (auto simp: demotion_guard_def op_Inr split: option.splits dest!: find_set)

lemma save_account_Inr:
  assumes "save_account X d db = (Inr i, db')"
  shows "validate_nonempty ''account name'' (ad_name d) = Inr ()"
    and "validate_nonempty ''account kind'' (ad_kind d) = Inr ()"
    and "validate_optional_balance (ad_balance d) (ad_as_of d) = Inr ()"
    and "\<not> ad_is_primary d \<Longrightarrow> ad_id d = Some j \<Longrightarrow>
      \<exists>a \<in> set (accounts db). ac_id a = j \<and> ac_is_active a \<and> \<not> ac_is_primary a"
    and "case ad_id d of Some j \<Rightarrow> i = j \<and> count_rows (\<lambda>a. ac_id a = j \<and> ac_is_active a)
           (demoted_accounts X d (accounts db)) = 1
         | None \<Rightarrow> i = account_seq db + 1"
    and "db' = db\<lparr>accounts := saved_accounts X d i (accounts db),
      account_seq := (if ad_id d = None then i else account_seq db)\<rparr>"
    and "db_valid X db'"
  using assms
  by (auto simp: save_account_def op_Inr update_accounts_Inr insert_account_Inr demoted_accounts_def
      saved_accounts_def split: option.splits if_splits dest!: demotion_guard_Inr)

lemma distinct_const_short:
  assumes "distinct (map f xs)" and "\<And>a b. a \<in> set xs \<Longrightarrow> b \<in> set xs \<Longrightarrow> f a = f b"
  shows "length xs \<le> 1"
proof (rule ccontr)
  assume "\<not> length xs \<le> 1"
  then obtain x y ys where xs: "xs = x # y # ys" by (cases xs rule: remdups_adj.cases) auto
  have "f x = f y" by (rule assms(2)) (simp_all add: xs)
  with assms(1) show False by (simp add: xs)
qed

lemma primary_okI:
  assumes "distinct (map ac_id as)"
    and "\<And>a b. a \<in> set as \<Longrightarrow> b \<in> set as \<Longrightarrow> account_is_active_primary a \<Longrightarrow>
      account_is_active_primary b \<Longrightarrow> ac_id a = ac_id b"
  shows "primary_ok as"
proof -
  let ?ps = "filter (\<lambda>a. ac_is_primary a \<and> ac_is_active a) as"
  have "\<And>a b. a \<in> set ?ps \<Longrightarrow> b \<in> set ?ps \<Longrightarrow> ac_id a = ac_id b"
    using assms(2) by (simp add: account_is_active_primary_def)
  moreover have "distinct (map ac_id ?ps)" using assms(1) by (simp add: distinct_map_filter)
  ultimately have "length ?ps \<le> 1" by (intro distinct_const_short [of ac_id])
  then show ?thesis by (simp add: primary_ok_def count_rows_def)
qed

lemma demoted_ids [simp]: "map ac_id (demoted_accounts X d as) = map ac_id as"
  by (simp add: demoted_accounts_def map_update_rows clear_primary_def)

lemma saved_ids: "map ac_id (saved_accounts X d i as) =
    (case ad_id d of Some j \<Rightarrow> map ac_id as | None \<Rightarrow> map ac_id as @ [i])"
  by (simp add: saved_accounts_def map_update_rows account_update_def new_account_def Let_def split: option.splits)

lemma saved_db_ids:
  assumes "db_ids db" "save_account X d db = (Inr i, db')"
  shows "db_ids db'"
proof -
  note s = save_account_Inr [OF assms(2)]
  have "ids_ok ac_id (saved_accounts X d i (accounts db)) (if ad_id d = None then i else account_seq db)"
  proof (cases "ad_id d")
    case None
    then have "i = account_seq db + 1" using s(5) by simp
    moreover have "ids_ok ac_id (demoted_accounts X d (accounts db)) (account_seq db)"
      using assms(1) by (simp add: db_ids_def demoted_accounts_def ids_ok_update clear_primary_def)
    ultimately show ?thesis using None ids_ok_snoc [of ac_id _ _ "new_account X d i"]
      by (simp add: saved_accounts_def new_account_def)
  next
    case (Some j)
    then show ?thesis using assms(1)
      by (simp add: db_ids_def saved_accounts_def demoted_accounts_def ids_ok_update account_update_def
          clear_primary_def Let_def)
  qed
  with assms(1) s(6) show ?thesis by (simp add: db_ids_def)
qed

lemma in_demoted:
  "a \<in> set as \<Longrightarrow> (if ad_is_primary d \<and> ac_is_primary a \<and> Some (ac_id a) \<noteq> ad_id d then clear_primary X a else a)
     \<in> set (demoted_accounts X d as)"
  by (auto simp: demoted_accounts_def set_update_rows)

lemma saved_row:
  assumes "save_account X d db = (Inr i, db')"
  shows "\<exists>a \<in> set (accounts db'). ac_id a = i \<and> ac_is_active a \<and> ac_name a = trim (ad_name d) \<and>
    ac_kind a = trim (ad_kind d) \<and> ac_balance a = ad_balance d \<and>
    ac_as_of a = map_option (iso_to_string (dates X)) (ad_as_of d) \<and> ac_is_primary a = ad_is_primary d \<and>
    ac_notes a = clean_optional (ad_notes d)"
proof (cases "ad_id d")
  case None
  then show ?thesis using save_account_Inr(6) [OF assms] by (simp add: saved_accounts_def new_account_def)
next
  case (Some j)
  note s = save_account_Inr [OF assms]
  obtain b where b: "b \<in> set (demoted_accounts X d (accounts db))" "ac_id b = j" "ac_is_active b"
    using s(5) Some count_rows_pos [of "\<lambda>a. ac_id a = j \<and> ac_is_active a" "demoted_accounts X d (accounts db)"]
    by auto
  then have "account_update X d b \<in> set (saved_accounts X d i (accounts db))"
    using Some by (auto simp: saved_accounts_def set_update_rows)
  moreover have "i = j" using s(5) Some by simp
  ultimately show ?thesis using b s(6)
    by (intro bexI [of _ "account_update X d b"]) (simp_all add: account_update_def Let_def)
qed

lemma saved_others:
  assumes "save_account X d db = (Inr i, db')" "a \<in> set (accounts db)" "ac_id a \<noteq> i"
  shows "(if ad_is_primary d \<and> ac_is_primary a then clear_primary X a else a) \<in> set (accounts db')"
proof -
  note s = save_account_Inr [OF assms(1)]
  have "Some (ac_id a) \<noteq> ad_id d" using s(5) assms(3) by (auto split: option.splits)
  then have *: "(if ad_is_primary d \<and> ac_is_primary a then clear_primary X a else a)
      \<in> set (demoted_accounts X d (accounts db))" (is "?b \<in> _")
    using in_demoted [OF assms(2), of d X] by simp
  show ?thesis
  proof (cases "ad_id d")
    case None
    with * s(6) show ?thesis by (simp add: saved_accounts_def)
  next
    case (Some j)
    then have "ac_id ?b \<noteq> j" using assms(3) s(5) by (simp add: clear_primary_def)
    then have "?b \<in> set (saved_accounts X d i (accounts db))"
      using * Some by (auto simp: saved_accounts_def set_update_rows image_iff)
    then show ?thesis using s(6) by simp
  qed
qed

definition has_primary :: "fin_db \<Rightarrow> bool" where
  "has_primary db \<longleftrightarrow> list_ex account_is_active_primary (accounts db)"

lemma has_primaryI: "a \<in> set (accounts db) \<Longrightarrow> account_is_active_primary a \<Longrightarrow> has_primary db"
  by (auto simp: has_primary_def list_ex_iff)

lemma save_account_has_primary:
  assumes "db_ids db" "has_primary db" "save_account X d db = (Inr i, db')"
  shows "has_primary db'"
proof (cases "ad_is_primary d")
  case True
  then show ?thesis using saved_row [OF assms(3)] has_primaryI by (auto simp: account_is_active_primary_def)
next
  case False
  obtain p where p: "p \<in> set (accounts db)" "account_is_active_primary p"
    using assms(2) by (auto simp: has_primary_def list_ex_iff)
  have "ac_id p \<noteq> i"
  proof (cases "ad_id d")
    case None
    then have "i = account_seq db + 1" using save_account_Inr(5) [OF assms(3)] by simp
    then show ?thesis using assms(1) p(1) by (auto simp: db_ids_def ids_ok_def)
  next
    case (Some j)
    obtain a where a: "a \<in> set (accounts db)" "ac_id a = j" "\<not> ac_is_primary a"
      using save_account_Inr(4) [OF assms(3) False Some] by blast
    have "distinct (map ac_id (accounts db))" using assms(1) by (simp add: db_ids_def ids_ok_def)
    then have "ac_id p \<noteq> ac_id a"
      using distinct_key_eq [of ac_id "accounts db" p a] p a by (auto simp: account_is_active_primary_def)
    then show ?thesis using a(2) Some save_account_Inr(5) [OF assms(3)] by simp
  qed
  from saved_others [OF assms(3) p(1) this] p(2) False show ?thesis by (auto intro: has_primaryI)
qed

lemma save_account_fails:
  assumes "save_account X d db = (Inl e, db')"
  shows "db' = db"
  using assms
  by (auto simp: save_account_def thn_def bnd_def lift_res_def transaction_def split: sum.splits prod.splits)


subsection \<open>Saving never trips a constraint\<close>

lemma opt_all_mono: "opt_all P x \<Longrightarrow> (\<And>a. P a \<Longrightarrow> Q a) \<Longrightarrow> opt_all Q x"
  by (cases x) simp_all

lemma checks_mono:
  assumes "A \<subseteq> B"
  shows "stream_check X A S r \<Longrightarrow> stream_check X B S r"
    and "schedule_check X A S c \<Longrightarrow> schedule_check X B S c"
    and "event_check X A S e \<Longrightarrow> event_check X B S e"
  using assms by (auto simp: stream_check_def schedule_check_def event_check_def elim!: opt_all_mono)

lemma db_valid_accounts:
  assumes "db_valid X db" "list_all (account_check X) as" "primary_ok as"
    and "set (map ac_id (accounts db)) \<subseteq> set (map ac_id as)"
  shows "db_valid X (db\<lparr>accounts := as\<rparr>)" "db_valid X (db\<lparr>accounts := as, account_seq := q\<rparr>)"
proof -
  let ?A = "set (map ac_id as)" and ?S = "set (map st_id (streams db))"
  note v = assms(1) [unfolded db_valid_def Let_def]
  have "list_all (stream_check X ?A ?S) (streams db)"
    by (rule list.pred_mono_strong) (use v checks_mono(1) [OF assms(4)] in blast)+
  moreover have "list_all (schedule_check X ?A ?S) (schedules db)"
    by (rule list.pred_mono_strong) (use v checks_mono(2) [OF assms(4)] in blast)+
  moreover have "list_all (event_check X ?A ?S) (events db)"
    by (rule list.pred_mono_strong) (use v checks_mono(3) [OF assms(4)] in blast)+
  ultimately show "db_valid X (db\<lparr>accounts := as\<rparr>)" "db_valid X (db\<lparr>accounts := as, account_seq := q\<rparr>)"
    using v assms(2,3) by (simp_all add: db_valid_def Let_def)
qed

lemma date_glob_iff_storable_text:
  assumes "storable D j" "time_date D"
  shows "date_glob (iso_to_string D j)"
proof -
  have "length (iso_to_string D j) = 10" "iso_from_str D (iso_to_string D j) = Inr j"
    using assms time_date.length_iso_to_string time_date.from_str_to_string by blast+
  then show ?thesis unfolding iso_from_str_def date_glob_def
    by (simp del: upt_rec_numeral split: if_split_asm)
qed

definition account_draft_storable :: "ext \<Rightarrow> account_draft \<Rightarrow> bool" where
  "account_draft_storable X d \<longleftrightarrow> sql_nonblank (trim (ad_name d)) \<and> sql_nonblank (trim (ad_kind d)) \<and>
     opt_all (\<lambda>b. f64_lt (f64_abs b) f64_1e308) (ad_balance d) \<and>
     opt_all (storable (dates X)) (ad_as_of d)"

lemma draft_checks:
  assumes "account_draft_storable X d" "time_date (dates X)"
    and "validate_optional_balance (ad_balance d) (ad_as_of d) = Inr ()"
  shows "account_check X (new_account X d i)" and "account_check X a \<Longrightarrow> account_check X (account_update X d a)"
proof -
  have bal: "(ad_balance d = None) = (ad_as_of d = None)"
    using assms(3) by (auto simp: validate_optional_balance_def rbnd_eq_Inr split: if_splits)
  have glob: "opt_all date_glob (map_option (iso_to_string (dates X)) (ad_as_of d))"
    using assms(1,2) date_glob_iff_storable_text
    by (cases "ad_as_of d") (auto simp: account_draft_storable_def)
  show "account_check X (new_account X d i)"
    using assms(1) bal glob by (simp add: account_check_def new_account_def account_draft_storable_def)
  show "account_check X (account_update X d a)" if "account_check X a"
    using that assms(1) bal glob
    by (simp add: account_check_def account_update_def account_draft_storable_def Let_def)
qed

lemma demoted_primary:
  assumes "primary_ok as" "distinct (map ac_id as)"
  shows "primary_ok (demoted_accounts X d as)"
proof (rule primary_okI)
  show "distinct (map ac_id (demoted_accounts X d as))" using assms(2) by simp
  fix a b
  assume ab: "a \<in> set (demoted_accounts X d as)" "b \<in> set (demoted_accounts X d as)"
    "account_is_active_primary a" "account_is_active_primary b"
  then have "a \<in> set as" "b \<in> set as"
    by (auto simp: demoted_accounts_def set_update_rows account_is_active_primary_def clear_primary_def
        split: if_splits)
  with ab(3,4) show "ac_id a = ac_id b" using primary_ok_unique [OF assms(1)] by blast
qed

lemma account_update_simps [simp]:
  "ac_id (account_update X d a) = ac_id a" "ac_is_active (account_update X d a) = ac_is_active a"
  "ac_is_primary (account_update X d a) = ad_is_primary d"
  "ac_id (new_account X d i) = i" "ac_is_primary (new_account X d i) = ad_is_primary d"
  "\<not> ac_is_primary (clear_primary X a)"
  by (simp_all add: account_update_def new_account_def clear_primary_def Let_def)

lemma saved_primary_id:
  assumes "b \<in> set (saved_accounts X d i as)" "ac_is_primary b"
  shows "if ad_is_primary d then ac_id b = (case ad_id d of Some j \<Rightarrow> j | None \<Rightarrow> i) else b \<in> set as"
  using assms
  by (cases "ad_id d"; cases "ad_is_primary d")
    (auto simp: saved_accounts_def demoted_accounts_def set_update_rows split: if_split_asm)

lemma saved_primary:
  assumes "primary_ok as" "distinct (map ac_id as)" "ad_id d = None \<Longrightarrow> i \<notin> set (map ac_id as)"
  shows "primary_ok (saved_accounts X d i as)"
proof (rule primary_okI)
  show "distinct (map ac_id (saved_accounts X d i as))"
    using assms(2,3) by (simp add: saved_ids split: option.splits)
  fix a b
  assume ab: "a \<in> set (saved_accounts X d i as)" "b \<in> set (saved_accounts X d i as)"
    "account_is_active_primary a" "account_is_active_primary b"
  show "ac_id a = ac_id b"
    using saved_primary_id [OF ab(1)] saved_primary_id [OF ab(2)] ab(3,4)
      primary_ok_unique [OF assms(1) _ _ ab(3,4)]
    unfolding account_is_active_primary_def by (cases "ad_is_primary d") simp_all
qed

lemma demoted_checks:
  "list_all (account_check X) as \<Longrightarrow> list_all (account_check X) (demoted_accounts X d as)"
  by (auto simp: demoted_accounts_def list_all_iff set_update_rows account_check_def clear_primary_def)

lemma saved_valid:
  assumes "db_valid X db" "db_ids db" "account_draft_storable X d" "time_date (dates X)"
    and "validate_optional_balance (ad_balance d) (ad_as_of d) = Inr ()"
    and "ad_id d = None \<Longrightarrow> i = account_seq db + 1"
  shows "db_valid X (db\<lparr>accounts := demoted_accounts X d (accounts db)\<rparr>)"
    and "db_valid X (db\<lparr>accounts := saved_accounts X d i (accounts db)\<rparr>)"
    and "db_valid X (db\<lparr>accounts := saved_accounts X d i (accounts db), account_seq := q\<rparr>)"
proof -
  have dis: "distinct (map ac_id (accounts db))" and fresh: "\<forall>r \<in> set (accounts db). ac_id r \<le> account_seq db"
    using assms(2) by (simp_all add: db_ids_def ids_ok_def)
  have chk: "list_all (account_check X) (accounts db)" using assms(1) by (simp add: db_valid_def Let_def)
  have p: "primary_ok (accounts db)" by (rule db_valid_primary [OF assms(1)])
  have dchk: "list_all (account_check X) (demoted_accounts X d (accounts db))" by (rule demoted_checks [OF chk])
  have schk: "list_all (account_check X) (saved_accounts X d i (accounts db))"
    using dchk draft_checks [OF assms(3-5)]
    by (auto simp: saved_accounts_def list_all_iff set_update_rows split: option.splits)
  have sp: "primary_ok (saved_accounts X d i (accounts db))"
    using fresh assms(6) by (intro saved_primary [OF p dis]) auto
  have sub: "set (map ac_id (accounts db)) \<subseteq> set (map ac_id (saved_accounts X d i (accounts db)))"
    by (simp add: saved_ids split: option.splits) auto
  show "db_valid X (db\<lparr>accounts := demoted_accounts X d (accounts db)\<rparr>)"
    by (rule db_valid_accounts [OF assms(1) dchk demoted_primary [OF p dis]]) (simp only: demoted_ids)
  show "db_valid X (db\<lparr>accounts := saved_accounts X d i (accounts db)\<rparr>)"
    "db_valid X (db\<lparr>accounts := saved_accounts X d i (accounts db), account_seq := q\<rparr>)"
    by (rule db_valid_accounts [OF assms(1) schk sp sub])+
qed


lemma save_account_no_storage:
  assumes "db_valid X db" "db_ids db" "account_draft_storable X d" "time_date (dates X)"
  shows "fst (save_account X d db) \<noteq> Inl (Storage c)"
proof
  assume "fst (save_account X d db) = Inl (Storage c)"
  then obtain t where eq: "save_account X d db = (Inl (Storage c), t)" by (metis prod.collapse)
  have v: "validate_nonempty l s = Inr () \<or> (\<exists>m. validate_nonempty l s = Inl (Validation m))" for l s
    by (simp add: validate_nonempty_def)
  have b: "validate_optional_balance (ad_balance d) (ad_as_of d) = Inr () \<or>
      (\<exists>m. validate_optional_balance (ad_balance d) (ad_as_of d) = Inl (Validation m))"
    by (simp add: validate_optional_balance_def validate_finite_def split: option.splits)
  have ok: "validate_nonempty ''account name'' (ad_name d) = Inr ()"
    "validate_nonempty ''account kind'' (ad_kind d) = Inr ()"
    "validate_optional_balance (ad_balance d) (ad_as_of d) = Inr ()"
    using eq v [of "''account name''" "ad_name d"] v [of "''account kind''" "ad_kind d"] b
    by (auto simp: save_account_def thn_def bnd_def lift_res_def)
  note valid = saved_valid [OF assms ok(3)]
  show False
  proof (cases "ad_id d")
    case None
    then have n: "db_valid X (db\<lparr>accounts := saved_accounts X d (account_seq db + 1) (accounts db),
        account_seq := account_seq db + 1\<rparr>)" using valid(3) by simp
    have d: "db_valid X (db\<lparr>accounts := demoted_accounts X d (accounts db)\<rparr>)" by (rule valid(1)) simp
    with n eq ok None show False
      by (auto simp: save_account_def op_defs update_accounts_def insert_account_def fin_write_def
          saved_accounts_def demoted_accounts_def Let_def split: if_splits)
  next
    case (Some j)
    then have n: "db_valid X (db\<lparr>accounts := saved_accounts X d j (accounts db)\<rparr>)" using valid(2) by simp
    with eq ok valid(1) [of j] Some show False
      by (auto simp: save_account_def demotion_guard_def op_defs update_accounts_def fin_write_def
          saved_accounts_def demoted_accounts_def Let_def split: if_splits option.splits)
  qed
qed

subsection \<open>The starting balance\<close>

lemma ensure_primary_Inr:
  assumes "ensure_primary_account_on X db = (Inr i, t)"
  shows "(\<exists>a \<in> set (accounts db). account_is_active_primary a \<and> ac_id a = i) \<and> t = db \<or>
    \<not> has_primary db \<and> i = account_seq db + 1 \<and>
    t = db\<lparr>accounts := accounts db @ [default_account X i], account_seq := i\<rparr> \<and> db_valid X t"
proof (cases "first_by ac_id account_is_active_primary (accounts db)")
  case None
  then have "\<not> has_primary db" by (simp add: first_by_None has_primary_def list_ex_iff)
  moreover have "insert_account X ''insert primary account'' (default_account X) db = (Inr i, t)"
    using None assms by (simp add: ensure_primary_account_on_def bnd_def gets_def)
  ultimately show ?thesis unfolding insert_account_Inr by blast
next
  case (Some a)
  with assms first_by_Some [OF Some] show ?thesis
    by (auto simp: ensure_primary_account_on_def op_Inr)
qed

lemma set_starting_balance_Inr:
  assumes "set_starting_balance X amount as_of st sr md db = (Inr u, db')" "db_valid X db"
  shows "\<exists>a \<in> set (accounts db'). account_is_active_primary a \<and> ac_balance a = Some amount \<and>
      ac_as_of a = Some (iso_to_string (dates X) as_of) \<and> ac_source_type a = Some (trim st) \<and>
      ac_balance_updated_at a = Some (now_text X)"
    and "db_valid X db'"
proof -
  let ?f = "balance_update X amount as_of st sr md"
  obtain i t where e: "ensure_primary_account_on X db = (Inr i, t)"
    and n: "count_rows (\<lambda>a. ac_id a = i \<and> ac_is_active a \<and> ac_is_primary a) (accounts t) = 1"
    and db': "db' = t\<lparr>accounts := update_rows (\<lambda>a. ac_id a = i \<and> ac_is_active a \<and> ac_is_primary a) ?f
        (accounts t)\<rparr>"
    and "db_valid X db'"
    using assms(1) by (auto simp: set_starting_balance_def op_Inr update_accounts_Inr)
  then show "db_valid X db'" by simp
  obtain a where a: "a \<in> set (accounts t)" "ac_id a = i" "ac_is_active a" "ac_is_primary a"
    using n count_rows_pos [of "\<lambda>a. ac_id a = i \<and> ac_is_active a \<and> ac_is_primary a" "accounts t"] by auto
  then have "?f a \<in> set (accounts db')" by (auto simp: db' set_update_rows)
  with a show "\<exists>a \<in> set (accounts db'). account_is_active_primary a \<and> ac_balance a = Some amount \<and>
      ac_as_of a = Some (iso_to_string (dates X) as_of) \<and> ac_source_type a = Some (trim st) \<and>
      ac_balance_updated_at a = Some (now_text X)"
    by (intro bexI [of _ "?f a"]) (simp_all add: balance_update_def account_is_active_primary_def)
qed

lemma get_cash_source_primary:
  assumes "primary_ok (accounts db)" "a \<in> set (accounts db)" "account_is_active_primary a"
    and "ac_balance a = Some x" "ac_as_of a = Some s"
  shows "get_cash_source db = (Inr (Some
    \<lparr>cs_amount = x, cs_as_of = s, cs_account_name = Some (ac_name a),
     cs_source_kind = (case ac_source_type a of Some t \<Rightarrow> t | None \<Rightarrow> ''manual''),
     cs_detail = (let k = (case ac_source_type a of Some t \<Rightarrow> t | None \<Rightarrow> ''manual'') in
       if k = ''monarch'' then ''Synced from Monarch for '' @ ac_name a
       else if k = ''manual'' then ''Manual balance for '' @ ac_name a
       else k @ '' balance for '' @ ac_name a),
     cs_updated_at = ac_balance_updated_at a\<rparr>), db)"
proof -
  let ?P = "\<lambda>a. account_is_active_primary a \<and> ac_balance a \<noteq> None \<and> ac_as_of a \<noteq> None"
  have "first_by ac_id ?P (accounts db) = Some a"
  proof (cases "first_by ac_id ?P (accounts db)")
    case None
    then have "\<not> ?P a" using assms(2) unfolding first_by_None by blast
    with assms(3-5) show ?thesis by simp
  next
    case (Some b)
    then have "b = a" using first_by_Some [OF Some] primary_ok_unique [OF assms(1) _ assms(2) _ assms(3)] by blast
    with Some show ?thesis by simp
  qed
  then show ?thesis using assms(4,5)
    by (simp add: get_cash_source_def primary_account_with_balance_def account_from_row_def
        bnd_def gets_def some_or_def ok_def Let_def)
qed


subsection \<open>Properties\<close>

text \<open>C11: Saving an account, whatever the draft and whether it succeeds or fails, keeps every
  constraint of the schema and never loses the cash anchor: if an active primary account existed
  before, exactly one exists afterwards.\<close>

theorem save_account_anchor:
  assumes "db_valid X db" "db_ids db" "has_primary db"
  shows "db_valid X (snd (save_account X d db)) \<and> db_ids (snd (save_account X d db)) \<and>
    (\<exists>!a. a \<in> set (accounts (snd (save_account X d db))) \<and> account_is_active_primary a)"
proof -
  obtain r t where eq: "save_account X d db = (r, t)" by (cases "save_account X d db")
  have v: "db_valid X t" by (rule keepsD [OF keeps_save_account assms(1) eq])
  have "db_ids t \<and> has_primary t"
  proof (cases r)
    case (Inl e)
    with eq save_account_fails [of X d db e t] assms show ?thesis by simp
  next
    case (Inr i)
    with eq show ?thesis
      using saved_db_ids [OF assms(2)] save_account_has_primary [OF assms(2,3)] by blast
  qed
  moreover from this have "\<exists>!a. a \<in> set (accounts t) \<and> account_is_active_primary a"
    using primary_ok_unique [OF db_valid_primary [OF v]] unfolding has_primary_def list_ex_iff by blast
  ultimately show ?thesis using v eq by simp
qed

theorem save_account_anchor_witness:
  "db_valid sample_ext (snd (save_account sample_ext
      \<lparr>ad_id = None, ad_name = ''Savings'', ad_kind = ''cash'', ad_balance = None, ad_as_of = None,
       ad_is_primary = True, ad_notes = None\<rparr> sample_db))"
  using save_account_anchor [OF sample_valid sample_ids] by (simp add: has_primary_def sample_db_def
    cash_account_def account_is_active_primary_def)

text \<open>What a successful save does: the returned account is active and holds the trimmed draft,
  every other account keeps its row except that a previous primary is demoted when the draft is
  primary, and no other table changes.\<close>

theorem save_account_effect:
  assumes "save_account X d db = (Inr i, db')"
  shows "(\<exists>a \<in> set (accounts db'). ac_id a = i \<and> ac_is_active a \<and> ac_name a = trim (ad_name d) \<and>
      ac_kind a = trim (ad_kind d) \<and> ac_balance a = ad_balance d \<and>
      ac_as_of a = map_option (iso_to_string (dates X)) (ad_as_of d) \<and>
      ac_is_primary a = ad_is_primary d \<and> ac_notes a = clean_optional (ad_notes d)) \<and>
    (\<forall>a \<in> set (accounts db). ac_id a \<noteq> i \<longrightarrow>
      (if ad_is_primary d \<and> ac_is_primary a then clear_primary X a else a) \<in> set (accounts db')) \<and>
    streams db' = streams db \<and> views db' = views db \<and> members db' = members db \<and>
    schedules db' = schedules db \<and> events db' = events db"
proof -
  have "streams db' = streams db \<and> views db' = views db \<and> members db' = members db \<and>
    schedules db' = schedules db \<and> events db' = events db"
    by (simp add: save_account_Inr(6) [OF assms])
  with saved_row [OF assms] saved_others [OF assms] show ?thesis by blast
qed

text \<open>The validators only return validation errors.\<close>

definition is_panic :: "fin_error \<Rightarrow> bool" where
  "is_panic e = (case e of Panicked _ \<Rightarrow> True | _ \<Rightarrow> False)"

lemma validation_errors:
  "validate_nonempty l s = Inl e \<Longrightarrow> \<not> is_panic e" "validate_finite l x = Inl e \<Longrightarrow> \<not> is_panic e"
  "validate_optional_balance b a = Inl e \<Longrightarrow> \<not> is_panic e" "validate_json X l j = Inl e \<Longrightarrow> \<not> is_panic e"
  by (auto simp: validate_nonempty_def validate_finite_def validate_optional_balance_def validate_json_def
      is_panic_def rbnd_def split: if_splits option.splits sum.splits)

lemma save_account_raises: "raises (\<lambda>e. \<not> is_panic e) (save_account X d)"
  unfolding save_account_def demotion_guard_def update_accounts_def insert_account_def fin_write_def
  by (intro raises_rules) (auto intro: raises_rules dest: validation_errors simp: is_panic_def)

definition second_account :: account_draft where
  "second_account = \<lparr>ad_id = None, ad_name = '' Savings'', ad_kind = ''cash'', ad_balance = None,
     ad_as_of = None, ad_is_primary = True, ad_notes = None\<rparr>"

lemma second_account_text:
  "trim '' Savings'' = ''Savings''"
  "trim ''cash'' = ''cash''" "sql_nonblank ''Savings''" "sql_nonblank ''cash''"
  by code_simp+

lemma second_account_storable: "account_draft_storable sample_ext second_account"
  by (simp add: account_draft_storable_def second_account_def second_account_text)

lemma second_account_valid:
  "validate_nonempty ''account name'' (ad_name second_account) = Inr ()"
  "validate_nonempty ''account kind'' (ad_kind second_account) = Inr ()"
  "validate_optional_balance (ad_balance second_account) (ad_as_of second_account) = Inr ()"
  by (simp_all add: validate_nonempty_def validate_optional_balance_def second_account_def second_account_text)

lemma second_account_saved: "\<exists>db'. save_account sample_ext second_account sample_db = (Inr 2, db')"
proof -
  have "db_valid sample_ext (sample_db\<lparr>accounts := demoted_accounts sample_ext second_account (accounts sample_db)\<rparr>)"
    "db_valid sample_ext (sample_db\<lparr>accounts := saved_accounts sample_ext second_account 2 (accounts sample_db),
      account_seq := 2\<rparr>)"
    by (rule saved_valid [where i = 2, OF sample_valid sample_ids second_account_storable sample_dates
          second_account_valid(3)]; simp add: second_account_def sample_db_def)+
  then show ?thesis using second_account_valid
    by (simp add: save_account_def op_defs update_accounts_def insert_account_def fin_write_def
        demoted_accounts_def saved_accounts_def second_account_def sample_db_def Let_def)
qed

theorem save_account_effect_witness:
  "\<exists>db'. save_account sample_ext second_account sample_db = (Inr 2, db') \<and>
     clear_primary sample_ext cash_account \<in> set (accounts db') \<and> events db' = events sample_db"
proof -
  obtain db' where eq: "save_account sample_ext second_account sample_db = (Inr 2, db')"
    using second_account_saved by blast
  from save_account_effect [OF eq] eq show ?thesis
    by (auto simp: sample_db_def cash_account_def second_account_def)
qed

text \<open>C27: A draft that passes the validation, whose texts hold no NUL first byte, whose balance is below
  the schema's bound and whose date has a four-digit year, never fails with a storage error: the
  previous primary is demoted before the new one is written, so the unique index is not violated.\<close>

theorem save_account_no_constraint_failure:
  assumes "db_valid X db" "db_ids db" "account_draft_storable X d" "time_date (dates X)"
  shows "\<exists>i. fst (save_account X d db) \<in> {Inr i} \<union> range (Inl \<circ> Validation) \<union> range (Inl \<circ> NotFound) \<union>
    range (Inl \<circ> Conflict)"
proof (cases "fst (save_account X d db)")
  case (Inr i)
  then show ?thesis by blast
next
  case (Inl e)
  then obtain t where "save_account X d db = (Inl e, t)" by (metis prod.collapse)
  then have "\<not> is_panic e" by (rule raisesD [OF save_account_raises])
  with save_account_no_storage [OF assms] Inl show ?thesis by (cases e) (auto simp: is_panic_def)
qed

theorem save_account_no_constraint_failure_witness:
  "\<exists>i. fst (save_account sample_ext second_account sample_db) \<in> {Inr i} \<union> range (Inl \<circ> Validation) \<union>
     range (Inl \<circ> NotFound) \<union> range (Inl \<circ> Conflict)"
  by (rule save_account_no_constraint_failure
      [OF sample_valid sample_ids second_account_storable sample_dates])

text \<open>What \<open>set_starting_balance\<close> stored is what \<open>get_cash_source\<close> reads back: the amount, the date's
  text and the trimmed source, whether the primary account existed or had to be created.\<close>

theorem starting_balance_roundtrip:
  assumes "db_valid X db" "set_starting_balance X amount as_of source_type source_ref metadata db = (Inr (), db')"
  shows "\<exists>c. get_cash_source db' = (Inr (Some c), db') \<and> cs_amount c = amount \<and>
    cs_as_of c = iso_to_string (dates X) as_of \<and> cs_source_kind c = trim source_type \<and>
    cs_updated_at c = Some (now_text X)"
proof -
  obtain a where a: "a \<in> set (accounts db')" "account_is_active_primary a" "ac_balance a = Some amount"
      "ac_as_of a = Some (iso_to_string (dates X) as_of)" "ac_source_type a = Some (trim source_type)"
      "ac_balance_updated_at a = Some (now_text X)"
    and v: "db_valid X db'"
    using set_starting_balance_Inr [OF assms(2,1)] by blast
  show ?thesis using get_cash_source_primary [OF db_valid_primary [OF v] a(1-4)] a(5,6) by simp
qed


theorem starting_balance_roundtrip_witness:
  "\<exists>db'. set_starting_balance sample_ext (f64_small 9) 739648 '' monarch'' None None sample_db = (Inr (), db') \<and>
     (\<exists>c. get_cash_source db' = (Inr (Some c), db') \<and> cs_amount c = f64_small 9 \<and>
        cs_source_kind c = ''monarch'')"
proof -
  let ?row = "balance_update sample_ext (f64_small 9) 739648 '' monarch'' None None cash_account"
  have t: "trim '' monarch'' = ''monarch''" "date_glob ''2026-02-01''" by code_simp+
  have p: "validate_nonempty ''balance source type'' '' monarch'' = Inr ()"
    "validate_finite ''starting balance'' (f64_small 9) = Inr ()" by code_simp+
  have v: "db_valid sample_ext (sample_db\<lparr>accounts := [?row]\<rparr>)"
    by (simp add: db_valid_def sample_db_def sample_rows balance_update_def account_check_def stream_check_def
        schedule_check_def event_check_def sample_globs sample_nonblank f64_small_checks primary_ok_def
        default_ok_def events_unique_def event_key_def map_filter_simps t sample_ext_def sample_texts)
  have a: "accounts sample_db = [cash_account]" "ac_id cash_account = 1" "account_is_active_primary cash_account"
    "ac_is_active cash_account" "ac_is_primary cash_account"
    by (simp_all add: sample_db_def cash_account_def account_is_active_primary_def)
  have e: "ensure_primary_account_on sample_ext sample_db = (Inr 1, sample_db)"
    by (simp add: ensure_primary_account_on_def first_by_def bnd_def gets_def ok_def a)
  have r: "set_starting_balance sample_ext (f64_small 9) 739648 '' monarch'' None None sample_db =
      (Inr (), sample_db\<lparr>accounts := [?row]\<rparr>)"
    by (simp add: set_starting_balance_def thn_Inr bnd_Inr lift_res_Inr require_Inr transaction_Inr
        update_accounts_Inr validate_json_def p e a v)
  from starting_balance_roundtrip [OF sample_valid r] r t show ?thesis by auto
qed

end
