(* ===== verification/Statements.thy ===== *)
theory Statements
  imports Accounts
begin

text \<open>
  The SQL statements that the stream, view and event operations of \<open>src/finance/repository.rs\<close>
  share, one definition per shape of statement: \<open>UPDATE .. WHERE\<close> returns the number of rows it
  matched, \<open>INSERT .. RETURNING id\<close> the fresh id. Each is atomic and fails when the result would
  violate a constraint (\<open>fin_write\<close>). Their effect, that they keep the constraints, and which
  errors they raise are the lemmas every operation's proof is built from.
\<close>

definition update_streams :: "ext \<Rightarrow> string \<Rightarrow> (stream_row \<Rightarrow> bool) \<Rightarrow> (stream_row \<Rightarrow> stream_row) \<Rightarrow>
    nat fin_op" where
  "update_streams X ctx P f =
     fin_write X ctx (\<lambda>db. (count_rows P (streams db), db\<lparr>streams := update_rows P f (streams db)\<rparr>))"

definition insert_stream :: "ext \<Rightarrow> string \<Rightarrow> (int \<Rightarrow> stream_row) \<Rightarrow> int fin_op" where
  "insert_stream X ctx row =
     fin_write X ctx (\<lambda>db. let i = stream_seq db + 1 in
       (i, db\<lparr>streams := streams db @ [row i], stream_seq := i\<rparr>))"

definition update_schedules :: "ext \<Rightarrow> string \<Rightarrow> (schedule_row \<Rightarrow> bool) \<Rightarrow>
    (schedule_row \<Rightarrow> schedule_row) \<Rightarrow> nat fin_op" where
  "update_schedules X ctx P f =
     fin_write X ctx (\<lambda>db.
       (count_rows P (schedules db), db\<lparr>schedules := update_rows P f (schedules db)\<rparr>))"

definition insert_schedule :: "ext \<Rightarrow> string \<Rightarrow> (int \<Rightarrow> schedule_row) \<Rightarrow> int fin_op" where
  "insert_schedule X ctx row =
     fin_write X ctx (\<lambda>db. let i = schedule_seq db + 1 in
       (i, db\<lparr>schedules := schedules db @ [row i], schedule_seq := i\<rparr>))"

definition update_views :: "ext \<Rightarrow> string \<Rightarrow> (view_row \<Rightarrow> bool) \<Rightarrow> (view_row \<Rightarrow> view_row) \<Rightarrow> nat fin_op" where
  "update_views X ctx P f =
     fin_write X ctx (\<lambda>db. (count_rows P (views db), db\<lparr>views := update_rows P f (views db)\<rparr>))"

definition insert_view :: "ext \<Rightarrow> string \<Rightarrow> (int \<Rightarrow> view_row) \<Rightarrow> int fin_op" where
  "insert_view X ctx row =
     fin_write X ctx (\<lambda>db. let i = view_seq db + 1 in
       (i, db\<lparr>views := views db @ [row i], view_seq := i\<rparr>))"

definition update_events :: "ext \<Rightarrow> string \<Rightarrow> (event_row \<Rightarrow> bool) \<Rightarrow> (event_row \<Rightarrow> event_row) \<Rightarrow>
    nat fin_op" where
  "update_events X ctx P f =
     fin_write X ctx (\<lambda>db. (count_rows P (events db), db\<lparr>events := update_rows P f (events db)\<rparr>))"

definition insert_event :: "ext \<Rightarrow> string \<Rightarrow> (int \<Rightarrow> event_row) \<Rightarrow> int fin_op" where
  "insert_event X ctx row =
     fin_write X ctx (\<lambda>db. let i = event_seq db + 1 in
       (i, db\<lparr>events := events db @ [row i], event_seq := i\<rparr>))"

definition delete_events :: "ext \<Rightarrow> string \<Rightarrow> (event_row \<Rightarrow> bool) \<Rightarrow> nat fin_op" where
  "delete_events X ctx P =
     fin_write X ctx (\<lambda>db. (count_rows P (events db), db\<lparr>events := filter (\<lambda>e. \<not> P e) (events db)\<rparr>))"

definition write_members :: "ext \<Rightarrow> string \<Rightarrow> (fin_db \<Rightarrow> (int \<times> int) list) \<Rightarrow> unit fin_op" where
  "write_members X ctx f = fin_write X ctx (\<lambda>db. ((), db\<lparr>members := f db\<rparr>))"

lemmas statement_defs = update_accounts_def insert_account_def update_streams_def insert_stream_def
  update_schedules_def insert_schedule_def update_views_def insert_view_def update_events_def
  insert_event_def delete_events_def write_members_def

lemma statement_Inr:
  "update_streams X ctx P f db = (Inr n, db') \<longleftrightarrow>
     n = count_rows P (streams db) \<and> db' = db\<lparr>streams := update_rows P f (streams db)\<rparr> \<and> db_valid X db'"
  "insert_stream X ctx row db = (Inr i, db') \<longleftrightarrow>
     i = stream_seq db + 1 \<and> db' = db\<lparr>streams := streams db @ [row i], stream_seq := i\<rparr> \<and> db_valid X db'"
  "update_schedules X ctx P2 g db = (Inr n, db') \<longleftrightarrow>
     n = count_rows P2 (schedules db) \<and> db' = db\<lparr>schedules := update_rows P2 g (schedules db)\<rparr> \<and> db_valid X db'"
  "insert_schedule X ctx row2 db = (Inr i, db') \<longleftrightarrow>
     i = schedule_seq db + 1 \<and> db' = db\<lparr>schedules := schedules db @ [row2 i], schedule_seq := i\<rparr> \<and> db_valid X db'"
  "update_views X ctx P3 h db = (Inr n, db') \<longleftrightarrow>
     n = count_rows P3 (views db) \<and> db' = db\<lparr>views := update_rows P3 h (views db)\<rparr> \<and> db_valid X db'"
  "insert_view X ctx row3 db = (Inr i, db') \<longleftrightarrow>
     i = view_seq db + 1 \<and> db' = db\<lparr>views := views db @ [row3 i], view_seq := i\<rparr> \<and> db_valid X db'"
  "update_events X ctx P4 k db = (Inr n, db') \<longleftrightarrow>
     n = count_rows P4 (events db) \<and> db' = db\<lparr>events := update_rows P4 k (events db)\<rparr> \<and> db_valid X db'"
  "insert_event X ctx row4 db = (Inr i, db') \<longleftrightarrow>
     i = event_seq db + 1 \<and> db' = db\<lparr>events := events db @ [row4 i], event_seq := i\<rparr> \<and> db_valid X db'"
  "delete_events X ctx P4 db = (Inr n, db') \<longleftrightarrow>
     n = count_rows P4 (events db) \<and> db' = db\<lparr>events := filter (\<lambda>e. \<not> P4 e) (events db)\<rparr> \<and> db_valid X db'"
  "write_members X ctx m db = (Inr (), db') \<longleftrightarrow> db' = db\<lparr>members := m db\<rparr> \<and> db_valid X db'"
  by (auto simp: statement_defs fin_write_Inr Let_def)

lemma keeps_statements [keeps_rules, intro]:
  "keeps (db_valid X) (update_streams X ctx P f)" "keeps (db_valid X) (insert_stream X ctx row)"
  "keeps (db_valid X) (update_schedules X ctx P2 g)" "keeps (db_valid X) (insert_schedule X ctx row2)"
  "keeps (db_valid X) (update_views X ctx P3 h)" "keeps (db_valid X) (insert_view X ctx row3)"
  "keeps (db_valid X) (update_events X ctx P4 k)" "keeps (db_valid X) (insert_event X ctx row4)"
  "keeps (db_valid X) (delete_events X ctx P4)" "keeps (db_valid X) (write_members X ctx m)"
  by (simp_all add: statement_defs keeps_fin_write)

text \<open>A statement whose \<open>WHERE\<close> pins the primary key changes at most one row.\<close>

lemma keyed_count:
  assumes "ids_ok key rs seq"
  shows "count_rows (\<lambda>r. key r = k \<and> Q r) rs = 1 \<longleftrightarrow> (\<exists>r \<in> set rs. key r = k \<and> Q r)"
  using assms count_rows_key [of key rs k Q] by (simp add: ids_ok_def)


text \<open>Ids stay distinct and below the sequence.\<close>

lemma keeps_ids_write:
  "(\<And>s. db_ids s \<Longrightarrow> db_ids (snd (f s))) \<Longrightarrow> keeps db_ids (fin_write X c f)"
  unfolding fin_write_def by (rule keeps_sql_write)

lemma keeps_ids_update:
  "(\<And>r. ac_id (f r) = ac_id r) \<Longrightarrow> keeps db_ids (update_accounts X c P f)"
  "(\<And>r. st_id (g r) = st_id r) \<Longrightarrow> keeps db_ids (update_streams X c P2 g)"
  "(\<And>r. sc_id (h r) = sc_id r) \<Longrightarrow> keeps db_ids (update_schedules X c P3 h)"
  "(\<And>r. vw_id (k r) = vw_id r) \<Longrightarrow> keeps db_ids (update_views X c P4 k)"
  "(\<And>r. ev_id (l r) = ev_id r) \<Longrightarrow> keeps db_ids (update_events X c P5 l)"
  unfolding statement_defs
  by (rule keeps_ids_write, simp add: db_ids_def ids_ok_update)+

lemma keeps_ids_insert:
  "(\<And>i. ac_id (row i) = i) \<Longrightarrow> keeps db_ids (insert_account X c row)"
  "(\<And>i. st_id (row2 i) = i) \<Longrightarrow> keeps db_ids (insert_stream X c row2)"
  "(\<And>i. sc_id (row3 i) = i) \<Longrightarrow> keeps db_ids (insert_schedule X c row3)"
  "(\<And>i. vw_id (row4 i) = i) \<Longrightarrow> keeps db_ids (insert_view X c row4)"
  "(\<And>i. ev_id (row5 i) = i) \<Longrightarrow> keeps db_ids (insert_event X c row5)"
  unfolding statement_defs
  by (rule keeps_ids_write, simp add: db_ids_def ids_ok_snoc Let_def)+

lemma keeps_ids_others:
  "keeps db_ids (delete_events X c P)" "keeps db_ids (write_members X c m)"
  unfolding statement_defs
  by (rule keeps_ids_write, simp add: db_ids_def ids_ok_filter)+

lemmas keeps_ids = keeps_ids_update keeps_ids_insert keeps_ids_others

end
