(* ===== verification/Streams.thy ===== *)
theory Streams
  imports Statements
begin

text \<open>
  Streams and their schedules in \<open>src/finance/repository.rs\<close>: \<open>save_stream\<close>, \<open>save_schedule_on\<close>,
  \<open>refresh_stream_schedule_events(_on)\<close>, \<open>delete_stream\<close>, \<open>list_streams\<close>, \<open>list_canvas_streams\<close>.
  A refresh first tombstones the untouched open events that the schedules generated in the window
  and then upserts every occurrence under its stable slot; the lemmas say which rows it may touch.
\<close>

definition decode_ctx :: "string \<Rightarrow> fault + 'a \<Rightarrow> fin_error + 'a" where
  "decode_ctx ctx r = (case r of Inr a \<Rightarrow> Inr a | Inl (Err _) \<Rightarrow> Inl (Storage ctx)
     | Inl (Panic m) \<Rightarrow> Inl (Panicked m))"

definition lift_ctx :: "string \<Rightarrow> fault + 'a \<Rightarrow> 'a fin_op" where
  "lift_ctx ctx r = lift_res (decode_ctx ctx r)"

subsection \<open>Validation\<close>

definition validate_schedule_draft :: "ext \<Rightarrow> schedule_draft \<Rightarrow> fin_error + unit" where
  "validate_schedule_draft X s =
     rbnd (validate_magnitude ''schedule amount'' (sd_amount s)) (\<lambda>_.
     rbnd (validate_json X ''schedule metadata'' (sd_metadata s)) (\<lambda>_.
     if sd_frequency s = Monthly \<and> sd_day_of_month s = None
     then Inl (Validation ''monthly schedules require a day of month'')
     else if (case sd_day_of_month s of Some d \<Rightarrow> \<not> (1 \<le> d \<and> d \<le> 31) | None \<Rightarrow> False)
     then Inl (Validation ''schedule day of month must be between 1 and 31'')
     else if (case sd_end_date s of Some e \<Rightarrow> e < sd_start_date s | None \<Rightarrow> False)
     then Inl (Validation ''schedule end date cannot precede its start date'')
     else Inr ()))"

definition validate_stream_draft :: "ext \<Rightarrow> stream_draft \<Rightarrow> fin_error + unit" where
  "validate_stream_draft X d =
     rbnd (validate_nonempty ''stream name'' (td_name d)) (\<lambda>_.
     rbnd (validate_nonempty ''stream type'' (td_type d)) (\<lambda>_.
     rbnd (validate_nonempty ''stream kind'' (td_kind d)) (\<lambda>_.
     rbnd (validate_json X ''stream configuration'' (td_configuration d)) (\<lambda>_.
     rfold (validate_schedule_draft X) (td_schedules d)))))"

subsection \<open>Schedules\<close>

record schedule_view =
  zv_id :: int
  zv_stream_id :: int
  zv_account_id :: "int option"
  zv_label :: "string option"
  zv_amount :: f64
  zv_frequency :: string
  zv_day_of_month :: "int option"
  zv_start_date :: string
  zv_end_date :: "string option"
  zv_is_active :: bool
  zv_metadata :: "string option"

definition schedule_from_row :: "schedule_row \<Rightarrow> schedule_view" where
  "schedule_from_row r =
     \<lparr>zv_id = sc_id r, zv_stream_id = sc_stream_id r, zv_account_id = sc_account_id r,
      zv_label = sc_label r, zv_amount = sc_amount r, zv_frequency = sc_frequency r,
      zv_day_of_month = sc_day_of_month r, zv_start_date = sc_start_date r,
      zv_end_date = sc_end_date r, zv_is_active = sc_is_active r, zv_metadata = sc_metadata r\<rparr>"

definition schedule_update :: "ext \<Rightarrow> schedule_draft \<Rightarrow> schedule_row \<Rightarrow> schedule_row" where
  "schedule_update X s r =
     r\<lparr>sc_account_id := sd_account_id s, sc_label := clean_optional (sd_label s),
       sc_amount := sd_amount s, sc_frequency := frequency_str (sd_frequency s),
       sc_day_of_month := map_option int (sd_day_of_month s),
       sc_start_date := iso_to_string (dates X) (sd_start_date s),
       sc_end_date := map_option (iso_to_string (dates X)) (sd_end_date s), sc_is_active := True,
       sc_metadata := sd_metadata s, sc_updated_at := now_text X\<rparr>"

definition new_schedule :: "ext \<Rightarrow> int \<Rightarrow> schedule_draft \<Rightarrow> int \<Rightarrow> schedule_row" where
  "new_schedule X stream_id s i =
     \<lparr>sc_id = i, sc_stream_id = stream_id, sc_account_id = sd_account_id s,
      sc_label = clean_optional (sd_label s), sc_amount = sd_amount s,
      sc_frequency = frequency_str (sd_frequency s),
      sc_day_of_month = map_option int (sd_day_of_month s),
      sc_start_date = iso_to_string (dates X) (sd_start_date s),
      sc_end_date = map_option (iso_to_string (dates X)) (sd_end_date s), sc_is_active = True,
      sc_metadata = sd_metadata s, sc_updated_at = now_text X\<rparr>"

definition save_schedule_on :: "ext \<Rightarrow> int \<Rightarrow> schedule_draft \<Rightarrow> int fin_op" where
  "save_schedule_on X stream_id s =
     (case sd_id s of
        Some i \<Rightarrow>
          bnd (update_schedules X ''update stream schedule''
                 (\<lambda>r. sc_id r = i \<and> sc_stream_id r = stream_id) (schedule_update X s)) (\<lambda>changed.
          thn (require (changed = 1)
                 (NotFound (''schedule '' @ show_int i @ '' on stream '' @ show_int stream_id)))
            (ok i))
      | None \<Rightarrow> insert_schedule X ''insert stream schedule'' (new_schedule X stream_id s))"

subsection \<open>Refreshing the projected events\<close>

definition untouched_open :: "int \<Rightarrow> string \<Rightarrow> string \<Rightarrow> event_row \<Rightarrow> bool" where
  "untouched_open stream_id from through e \<longleftrightarrow>
     ev_stream_id e = stream_id \<and> ev_source_type e = Some ''stream_schedule'' \<and>
     from \<le> ev_expected_date e \<and> ev_expected_date e \<le> through \<and>
     ev_status e \<in> {''projected'', ''confirmed''} \<and>
     ev_override_date e = None \<and> ev_override_amount e = None \<and>
     \<not> ev_has_label_override e \<and> \<not> ev_has_account_override e \<and>
     (ev_exclusion_reason e = None \<or> ev_exclusion_reason e = Some ''schedule'')"

definition tombstone :: "ext \<Rightarrow> event_row \<Rightarrow> event_row" where
  "tombstone X e =
     e\<lparr>ev_is_excluded := True, ev_exclusion_reason := Some ''schedule'', ev_updated_at := now_text X\<rparr>"

record projection =
  pj_source_id :: string
  pj_account_id :: "int option"
  pj_label :: string
  pj_date :: string
  pj_amount :: f64
  pj_metadata :: string

definition projection_of :: "ext \<Rightarrow> string \<Rightarrow> schedule_view \<Rightarrow> frequency \<Rightarrow> iso_date \<Rightarrow> iso_date \<Rightarrow>
    projection" where
  "projection_of X stream_name s frequency start occurrence =
     \<lparr>pj_source_id = ''stream_schedule:'' @ show_int (zv_id s) @ '':'' @
        projection_slot (dates X) frequency start occurrence,
      pj_account_id = zv_account_id s,
      pj_label = (case zv_label s of Some l \<Rightarrow> l | None \<Rightarrow> stream_name @ '' due''),
      pj_date = iso_to_string (dates X) occurrence, pj_amount = zv_amount s,
      pj_metadata = schedule_meta X (zv_id s) stream_name\<rparr>"

definition projected_event :: "ext \<Rightarrow> int \<Rightarrow> projection \<Rightarrow> int \<Rightarrow> event_row" where
  "projected_event X stream_id p i =
     \<lparr>ev_id = i, ev_stream_id = stream_id, ev_account_id = pj_account_id p,
      ev_label = Some (pj_label p), ev_expected_date = pj_date p, ev_amount = pj_amount p,
      ev_override_label = None, ev_has_label_override = False, ev_override_date = None,
      ev_override_amount = None, ev_override_account_id = None, ev_has_account_override = False,
      ev_actual_date = None, ev_actual_amount = None, ev_status = ''projected'',
      ev_is_excluded = False, ev_exclusion_reason = None, ev_source_id = Some (pj_source_id p),
      ev_source_type = Some ''stream_schedule'', ev_metadata = Some (pj_metadata p),
      ev_notes = None, ev_updated_at = now_text X\<rparr>"

definition reproject :: "ext \<Rightarrow> projection \<Rightarrow> event_row \<Rightarrow> event_row" where
  "reproject X p e =
     e\<lparr>ev_account_id := pj_account_id p, ev_label := Some (pj_label p),
       ev_expected_date := pj_date p, ev_amount := pj_amount p,
       ev_metadata := Some (pj_metadata p),
       ev_is_excluded := ev_exclusion_reason e = Some ''user'',
       ev_exclusion_reason := (if ev_exclusion_reason e = Some ''user'' then Some ''user'' else None),
       ev_updated_at := now_text X\<rparr>"

definition has_slot :: "int \<Rightarrow> string \<Rightarrow> event_row \<Rightarrow> bool" where
  "has_slot stream_id source_id e \<longleftrightarrow> event_key e = Some (stream_id, ''stream_schedule'', source_id)"

definition is_open :: "event_row \<Rightarrow> bool" where
  "is_open e \<longleftrightarrow> ev_status e \<in> {''projected'', ''confirmed''}"

definition upsert_projection :: "ext \<Rightarrow> int \<Rightarrow> projection \<Rightarrow> unit fin_op" where
  "upsert_projection X stream_id p =
     fin_write X ''upsert projected schedule event'' (\<lambda>db.
       if list_ex (has_slot stream_id (pj_source_id p)) (events db)
       then ((), db\<lparr>events := update_rows (\<lambda>e. has_slot stream_id (pj_source_id p) e \<and> is_open e)
                      (reproject X p) (events db)\<rparr>)
       else ((), db\<lparr>events := events db @ [projected_event X stream_id p (event_seq db + 1)],
                    event_seq := event_seq db + 1\<rparr>))"

definition refresh_schedule :: "ext \<Rightarrow> int \<Rightarrow> string \<Rightarrow> window \<Rightarrow> schedule_view \<Rightarrow> nat fin_op" where
  "refresh_schedule X stream_id stream_name w s =
     bnd (lift_ctx ''decode schedule frequency'' (frequency_from_str (zv_frequency s))) (\<lambda>frequency.
     bnd (lift_ctx ''decode schedule start date'' (iso_from_str (dates X) (zv_start_date s))) (\<lambda>start.
     bnd (case zv_end_date s of None \<Rightarrow> ok None
          | Some t \<Rightarrow> bnd (lift_ctx ''decode schedule end date'' (iso_from_str (dates X) t)) (\<lambda>e. ok (Some e)))
       (\<lambda>end_date.
     let range_start = max start (w_from w);
         range_end = min (case end_date of Some e \<Rightarrow> e | None \<Rightarrow> w_through w) (w_through w)
     in if range_end < range_start then ok 0
        else bnd (lift_res (fin_res (schedule_occurrences (dates X) frequency start range_start range_end
                   (map_option (\<lambda>d. nat (d mod 256)) (zv_day_of_month s))))) (\<lambda>occurrences.
             thn (for_each (\<lambda>occurrence. upsert_projection X stream_id
                    (projection_of X stream_name s frequency start occurrence)) occurrences)
               (ok (length occurrences))))))"

definition refresh_stream_schedule_events_on :: "ext \<Rightarrow> int \<Rightarrow> string \<Rightarrow> window \<Rightarrow> nat fin_op" where
  "refresh_stream_schedule_events_on X stream_id stream_name w =
     thn (update_events X ''tombstone obsolete schedule projections''
            (untouched_open stream_id (iso_to_string (dates X) (w_from w))
              (iso_to_string (dates X) (w_through w))) (tombstone X))
    (bnd (gets (\<lambda>db. map schedule_from_row (sort_key sc_id
            (filter (\<lambda>s. sc_stream_id s = stream_id \<and> sc_is_active s) (schedules db))))) (\<lambda>ss.
     bnd (collect_each (refresh_schedule X stream_id stream_name w) ss) (\<lambda>ns. ok (sum_list ns))))"

definition refresh_stream_schedule_events :: "ext \<Rightarrow> int \<Rightarrow> window \<Rightarrow> nat fin_op" where
  "refresh_stream_schedule_events X stream_id w =
     transaction (bnd (require_active_stream stream_id) (\<lambda>stream_name.
       refresh_stream_schedule_events_on X stream_id stream_name w))"

subsection \<open>Saving and deleting a stream\<close>

definition stream_update :: "ext \<Rightarrow> stream_draft \<Rightarrow> stream_row \<Rightarrow> stream_row" where
  "stream_update X d s =
     s\<lparr>st_name := trim (td_name d), st_type := trim (td_type d), st_kind := trim (td_kind d),
       st_direction := direction_str (td_direction d), st_certainty := certainty_str (td_certainty d),
       st_description := clean_optional (td_description d),
       st_default_account_id := td_default_account_id d, st_configuration := td_configuration d,
       st_parent_id := td_parent_id d, st_updated_at := now_text X\<rparr>"

definition new_stream :: "ext \<Rightarrow> stream_draft \<Rightarrow> int \<Rightarrow> stream_row" where
  "new_stream X d i =
     \<lparr>st_id = i, st_name = trim (td_name d), st_type = trim (td_type d), st_kind = trim (td_kind d),
      st_direction = direction_str (td_direction d), st_certainty = certainty_str (td_certainty d),
      st_description = clean_optional (td_description d),
      st_default_account_id = td_default_account_id d, st_configuration = td_configuration d,
      st_parent_id = td_parent_id d, st_is_active = True, st_updated_at = now_text X\<rparr>"

definition require_account_opt :: "int option \<Rightarrow> unit fin_op" where
  "require_account_opt a = (case a of None \<Rightarrow> ok () | Some i \<Rightarrow> require_active_account i)"

definition write_stream :: "ext \<Rightarrow> stream_draft \<Rightarrow> int fin_op" where
  "write_stream X d =
     (case td_id d of
        Some i \<Rightarrow>
          bnd (update_streams X ''update stream'' (\<lambda>s. st_id s = i \<and> st_is_active s) (stream_update X d))
            (\<lambda>changed. thn (require (changed = 1) (NotFound (''active stream '' @ show_int i))) (ok i))
      | None \<Rightarrow> insert_stream X ''insert stream'' (new_stream X d))"

fun save_schedules :: "ext \<Rightarrow> int \<Rightarrow> int list \<Rightarrow> schedule_draft list \<Rightarrow> int list fin_op" where
  "save_schedules X stream_id retained [] = ok retained"
| "save_schedules X stream_id retained (s # ss) =
     bnd (save_schedule_on X stream_id s) (\<lambda>i.
     thn (require (i \<notin> set retained)
            (Validation (''schedule '' @ show_int i @ '' appears more than once'')))
       (save_schedules X stream_id (i # retained) ss))"

definition deactivate_schedules :: "ext \<Rightarrow> int \<Rightarrow> int list \<Rightarrow> unit fin_op" where
  "deactivate_schedules X stream_id retained =
     bnd (gets (\<lambda>db. filter (\<lambda>i. i \<notin> set retained)
            (map sc_id (filter (\<lambda>s. sc_stream_id s = stream_id \<and> sc_is_active s) (schedules db))))) (\<lambda>gone.
     for_each (\<lambda>i. thn (update_schedules X ''deactivate removed stream schedule''
         (\<lambda>s. sc_id s = i \<and> sc_stream_id s = stream_id)
         (\<lambda>s. s\<lparr>sc_is_active := False, sc_updated_at := now_text X\<rparr>)) (ok ())) gone)"

definition attach_default_view :: "ext \<Rightarrow> int \<Rightarrow> unit fin_op" where
  "attach_default_view X stream_id =
     write_members X ''attach stream to default view'' (\<lambda>db.
       members db @ filter (\<lambda>m. m \<notin> set (members db))
         (map (\<lambda>v. (vw_id v, stream_id)) (filter (\<lambda>v. vw_is_default v \<and> vw_is_active v) (views db))))"

definition save_stream :: "ext \<Rightarrow> stream_draft \<Rightarrow> window \<Rightarrow> int fin_op" where
  "save_stream X d w =
     thn (lift_res (validate_stream_draft X d))
    (transaction
      (thn (require_account_opt (td_default_account_id d))
      (thn (case td_parent_id d of None \<Rightarrow> ok ()
            | Some p \<Rightarrow> bnd (require_active_stream p) (\<lambda>_. ok ()))
      (thn (for_each (\<lambda>s. require_account_opt (sd_account_id s)) (td_schedules d))
      (bnd (write_stream X d) (\<lambda>stream_id.
       bnd (save_schedules X stream_id [] (td_schedules d)) (\<lambda>retained.
       thn (deactivate_schedules X stream_id retained)
      (thn (attach_default_view X stream_id)
      (thn (refresh_stream_schedule_events_on X stream_id (td_name d) w)
           (ok stream_id))))))))))"

definition delete_stream :: "ext \<Rightarrow> int \<Rightarrow> unit fin_op" where
  "delete_stream X stream_id =
     transaction
       (bnd (update_streams X ''deactivate stream'' (\<lambda>s. st_id s = stream_id \<and> st_is_active s)
              (\<lambda>s. s\<lparr>st_is_active := False, st_updated_at := now_text X\<rparr>)) (\<lambda>changed.
        if changed = 0 then raise (NotFound (''active stream '' @ show_int stream_id))
        else
          thn (update_schedules X ''deactivate stream schedules''
                 (\<lambda>s. sc_stream_id s = stream_id \<and> sc_is_active s)
                 (\<lambda>s. s\<lparr>sc_is_active := False, sc_updated_at := now_text X\<rparr>))
         (thn (update_events X ''exclude open projections for deleted stream''
                 (\<lambda>e. ev_stream_id e = stream_id \<and> ev_source_type e = Some ''stream_schedule'' \<and>
                    ev_status e \<noteq> ''received'' \<and> \<not> ev_is_excluded e) (tombstone X))
           (ok ()))))"

subsection \<open>Reading streams\<close>

definition kind_rank :: "string \<Rightarrow> nat" where
  "kind_rank k = (if k = ''tmo_trust'' then 0 else if k = ''credit_card'' then 1
     else if k = ''manual_income'' then 2 else if k = ''manual_expense'' then 3 else 4)"

definition stream_order :: "stream_row \<Rightarrow> nat \<times> string \<times> int" where
  "stream_order s = (kind_rank (st_kind s), ascii_lower (st_name s), st_id s)"

record stream_config_view =
  cv_id :: int
  cv_name :: string
  cv_type :: string
  cv_kind :: string
  cv_direction :: string
  cv_certainty :: string
  cv_description :: "string option"
  cv_is_active :: bool
  cv_default_account_id :: "int option"
  cv_default_account_name :: "string option"
  cv_configuration :: "string option"
  cv_parent_id :: "int option"
  cv_schedule_id :: "int option"
  cv_schedule_label :: "string option"
  cv_schedule_amount :: "f64 option"
  cv_schedule_frequency :: "string option"
  cv_due_day :: "int option"
  cv_schedule_start_date :: "string option"
  cv_schedules :: "schedule_view list"

definition account_name :: "fin_db \<Rightarrow> int option \<Rightarrow> string option" where
  "account_name db a =
     (case a of None \<Rightarrow> None | Some i \<Rightarrow> map_option ac_name (find (\<lambda>r. ac_id r = i) (accounts db)))"

definition first_opt :: "'a list \<Rightarrow> 'a option" where
  "first_opt xs = (case xs of [] \<Rightarrow> None | x # _ \<Rightarrow> Some x)"

definition stream_config :: "fin_db \<Rightarrow> schedule_view list \<Rightarrow> stream_row \<Rightarrow> stream_config_view" where
  "stream_config db ss s =
     (let own = filter (\<lambda>z. zv_stream_id z = st_id s) ss; first = first_opt own
      in \<lparr>cv_id = st_id s, cv_name = st_name s, cv_type = st_type s, cv_kind = st_kind s,
          cv_direction = st_direction s, cv_certainty = st_certainty s,
          cv_description = st_description s, cv_is_active = st_is_active s,
          cv_default_account_id = st_default_account_id s,
          cv_default_account_name = account_name db (st_default_account_id s),
          cv_configuration = st_configuration s, cv_parent_id = st_parent_id s,
          cv_schedule_id = map_option zv_id first,
          cv_schedule_label = Option.bind first zv_label,
          cv_schedule_amount = map_option zv_amount first,
          cv_schedule_frequency = map_option zv_frequency first,
          cv_due_day = Option.bind first zv_day_of_month,
          cv_schedule_start_date = map_option zv_start_date first, cv_schedules = own\<rparr>)"

definition list_streams :: "stream_config_view list fin_op" where
  "list_streams = gets (\<lambda>db.
     let ss = map schedule_from_row (sort_key (\<lambda>s. (sc_stream_id s, sc_id s))
                (filter sc_is_active (schedules db)))
     in map (stream_config db ss) (sort_key stream_order (filter st_is_active (streams db))))"

definition list_canvas_streams :: "(int \<times> string \<times> string) list fin_op" where
  "list_canvas_streams = gets (\<lambda>db. map (\<lambda>s. (st_id s, st_name s, st_kind s))
     (sort_key stream_order (filter st_is_active (streams db))))"

end
