(* ===== verification/Refresh.thy ===== *)
theory Refresh
  imports Streams
begin

text \<open>
  What a refresh of a stream's projected events does. \<open>plan\<close> is the reference definition: the
  projections the active schedules ask for in the window, computed without touching the database. A
  successful refresh tombstones the untouched open rows and upserts the plan, so afterwards the plan
  and the visible untouched rows of the window agree; rows with user decisions survive it.
\<close>

subsection \<open>The plan\<close>

definition schedule_bounds :: "ext \<Rightarrow> window \<Rightarrow> schedule_view \<Rightarrow>
    fin_error + frequency \<times> iso_date \<times> iso_date \<times> iso_date" where
  "schedule_bounds X w s =
     rbnd (decode_ctx ''decode schedule frequency'' (frequency_from_str (zv_frequency s))) (\<lambda>frequency.
     rbnd (decode_ctx ''decode schedule start date'' (iso_from_str (dates X) (zv_start_date s))) (\<lambda>start.
     rbnd (case zv_end_date s of None \<Rightarrow> Inr None
           | Some t \<Rightarrow> rbnd (decode_ctx ''decode schedule end date'' (iso_from_str (dates X) t)) (\<lambda>e. Inr (Some e)))
       (\<lambda>end_date. Inr (frequency, start, max start (w_from w),
         min (case end_date of Some e \<Rightarrow> e | None \<Rightarrow> w_through w) (w_through w)))))"

definition plan_schedule :: "ext \<Rightarrow> string \<Rightarrow> window \<Rightarrow> schedule_view \<Rightarrow> fin_error + projection list" where
  "plan_schedule X stream_name w s =
     rbnd (schedule_bounds X w s) (\<lambda>(frequency, start, range_start, range_end).
       if range_end < range_start then Inr []
       else rbnd (fin_res (schedule_occurrences (dates X) frequency start range_start range_end
              (map_option (\<lambda>d. nat (d mod 256)) (zv_day_of_month s)))) (\<lambda>occurrences.
            Inr (map (projection_of X stream_name s frequency start) occurrences)))"

definition active_schedules :: "int \<Rightarrow> fin_db \<Rightarrow> schedule_view list" where
  "active_schedules stream_id db = map schedule_from_row (sort_key sc_id
     (filter (\<lambda>s. sc_stream_id s = stream_id \<and> sc_is_active s) (schedules db)))"

fun collect_res :: "('e + 'a) list \<Rightarrow> 'e + 'a list" where
  "collect_res [] = Inr []"
| "collect_res (r # rs) = rbnd r (\<lambda>a. rbnd (collect_res rs) (\<lambda>as. Inr (a # as)))"

definition plan :: "ext \<Rightarrow> int \<Rightarrow> string \<Rightarrow> window \<Rightarrow> fin_db \<Rightarrow> fin_error + projection list" where
  "plan X stream_id stream_name w db =
     rbnd (collect_res (map (plan_schedule X stream_name w) (active_schedules stream_id db)))
       (\<lambda>pss. Inr (concat pss))"

lemma for_each_map: "for_each f (map g xs) = for_each (\<lambda>x. f (g x)) xs"
  by (induction xs) simp_all

lemma for_each_append_Inr:
  "for_each f (xs @ ys) s = (Inr u, t) \<longleftrightarrow> (\<exists>v. for_each f xs s = (Inr (), v) \<and> for_each f ys v = (Inr u, t))"
  by (induction xs arbitrary: s) (auto simp: op_Inr)

lemma lift_res_rbnd: "lift_res (rbnd r f) = bnd (lift_res r) (\<lambda>a. lift_res (f a))"
  by (rule ext) (simp add: lift_res_def bnd_def rbnd_def split: sum.splits)

lemma lift_res_Inr_ok: "lift_res (Inr a) = ok a"
  by (simp add: lift_res_def ok_def)

lemma bounds_end:
  "lift_res (case x of None \<Rightarrow> Inr None | Some t \<Rightarrow> rbnd (r t) (\<lambda>e. Inr (Some e))) =
   (case x of None \<Rightarrow> ok None | Some t \<Rightarrow> bnd (lift_res (r t)) (\<lambda>e. ok (Some e)))"
  by (cases x) (simp_all add: lift_res_rbnd lift_res_Inr_ok)

lemma refresh_schedule_eq:
  "refresh_schedule X stream_id name w s =
     bnd (lift_res (plan_schedule X name w s)) (\<lambda>ps.
       thn (for_each (upsert_projection X stream_id) ps) (ok (length ps)))"
proof -
  have branch: "(if b then ok 0 else bnd (lift_res r) (\<lambda>os. thn (for_each (\<lambda>x. f (g x)) os) (ok (length os)))) =
      bnd (lift_res (if b then Inr [] else rbnd r (\<lambda>os. Inr (map g os))))
        (\<lambda>ps. thn (for_each f ps) (ok (length ps)))" for b r f g
    by (cases b) (simp_all add: lift_res_rbnd lift_res_Inr_ok bnd_assoc for_each_map)
  show ?thesis
    unfolding refresh_schedule_def plan_schedule_def schedule_bounds_def lift_ctx_def lift_res_rbnd
      bounds_end bnd_assoc
    by (simp add: lift_res_Inr_ok branch Let_def)
qed

lemma refresh_schedule_plan:
  "refresh_schedule X stream_id name w s db = (Inr n, db') \<longleftrightarrow>
     (\<exists>ps. plan_schedule X name w s = Inr ps \<and> n = length ps \<and>
       for_each (upsert_projection X stream_id) ps db = (Inr (), db'))"
  unfolding refresh_schedule_eq by (auto simp: op_Inr)

lemma collect_refresh_plan:
  "collect_each (refresh_schedule X stream_id name w) ss db = (Inr ns, db') \<longleftrightarrow>
     (\<exists>pss. collect_res (map (plan_schedule X name w) ss) = Inr pss \<and> ns = map length pss \<and>
       for_each (upsert_projection X stream_id) (concat pss) db = (Inr (), db'))"
proof (induction ss arbitrary: db ns db')
  case Nil
  then show ?case by (auto simp: ok_Inr)
next
  case (Cons s ss)
  show ?case
    unfolding collect_each.simps op_Inr refresh_schedule_plan Cons.IH collect_res.simps list.map rbnd_eq_Inr
    by (auto simp: for_each_append_Inr)
qed

text \<open>A successful refresh is: tombstone, then upsert the plan.\<close>

definition tombstoned :: "ext \<Rightarrow> int \<Rightarrow> window \<Rightarrow> fin_db \<Rightarrow> fin_db" where
  "tombstoned X stream_id w db =
     db\<lparr>events := update_rows (untouched_open stream_id (iso_to_string (dates X) (w_from w))
        (iso_to_string (dates X) (w_through w))) (tombstone X) (events db)\<rparr>"

lemma refresh_plan:
  "refresh_stream_schedule_events_on X stream_id name w db = (Inr n, db') \<longleftrightarrow>
     (\<exists>ps. plan X stream_id name w db = Inr ps \<and> n = length ps \<and> db_valid X (tombstoned X stream_id w db) \<and>
       for_each (upsert_projection X stream_id) ps (tombstoned X stream_id w db) = (Inr (), db'))"
proof -
  have active: "active_schedules stream_id (tombstoned X stream_id w db) = active_schedules stream_id db"
    by (simp add: active_schedules_def tombstoned_def)
  have len: "length (concat pss) = sum_list (map length pss)" for pss :: "'b list list"
    by (simp add: length_concat)
  show ?thesis
    unfolding refresh_stream_schedule_events_on_def plan_def rbnd_eq_Inr op_Inr statement_Inr
      tombstoned_def [symmetric] active_schedules_def [symmetric]
    by (auto simp: active collect_refresh_plan len)
qed

subsection \<open>The plan and the visible rows agree\<close>

lemma upsert_Inr:
  "upsert_projection X stream_id p db = (Inr u, db') \<longleftrightarrow> db_valid X db' \<and>
     db' = (if list_ex (has_slot stream_id (pj_source_id p)) (events db)
       then db\<lparr>events := update_rows (\<lambda>e. has_slot stream_id (pj_source_id p) e \<and> is_open e)
              (reproject X p) (events db)\<rparr>
       else db\<lparr>events := events db @ [projected_event X stream_id p (event_seq db + 1)],
              event_seq := event_seq db + 1\<rparr>)"
  by (auto simp: upsert_projection_def fin_write_Inr split: if_splits)

definition matches :: "int \<Rightarrow> projection \<Rightarrow> event_row \<Rightarrow> bool" where
  "matches stream_id p e \<longleftrightarrow> has_slot stream_id (pj_source_id p) e \<and> ev_expected_date e = pj_date p \<and>
     ev_amount e = pj_amount p \<and> ev_label e = Some (pj_label p) \<and> ev_account_id e = pj_account_id p"

definition untouched_visible :: "int \<Rightarrow> string \<Rightarrow> string \<Rightarrow> event_row \<Rightarrow> bool" where
  "untouched_visible stream_id from through e \<longleftrightarrow>
     ev_stream_id e = stream_id \<and> ev_source_type e = Some ''stream_schedule'' \<and> is_open e \<and>
     from \<le> ev_expected_date e \<and> ev_expected_date e \<le> through \<and> \<not> ev_is_excluded e \<and>
     ev_override_date e = None \<and> ev_override_amount e = None \<and>
     \<not> ev_has_label_override e \<and> \<not> ev_has_account_override e"

definition slot_filled :: "int \<Rightarrow> event_row list \<Rightarrow> projection \<Rightarrow> bool" where
  "slot_filled stream_id es p \<longleftrightarrow> (\<exists>e \<in> set es. has_slot stream_id (pj_source_id p) e \<and>
     (is_open e \<longrightarrow> matches stream_id p e \<and>
        (ev_is_excluded e \<longleftrightarrow> ev_exclusion_reason e = Some ''user'')))"

lemma event_key_cong:
  "ev_stream_id e = ev_stream_id e' \<Longrightarrow> ev_source_type e = ev_source_type e' \<Longrightarrow>
   ev_source_id e = ev_source_id e' \<Longrightarrow> event_key e = event_key e'"
  by (simp add: event_key_def split: option.splits)

lemma event_key_reproject [simp]: "event_key (reproject X p e) = event_key e"
  by (rule event_key_cong) (simp_all add: reproject_def)

lemma slot_simps [simp]:
  "has_slot stream_id src (reproject X p e) = has_slot stream_id src e"
  "is_open (reproject X p e) = is_open e"
  "has_slot stream_id src (projected_event X stream_id p i) \<longleftrightarrow> src = pj_source_id p"
  "is_open (projected_event X stream_id p i)"
  "matches stream_id p (reproject X p e) = has_slot stream_id (pj_source_id p) e"
  "matches stream_id p (projected_event X stream_id p i)"
proof -
  show "has_slot stream_id src (reproject X p e) = has_slot stream_id src e" by (simp add: has_slot_def)
  show "is_open (reproject X p e) = is_open e" by (simp add: is_open_def reproject_def)
  show "has_slot stream_id src (projected_event X stream_id p i) \<longleftrightarrow> src = pj_source_id p"
    by (auto simp: has_slot_def event_key_def projected_event_def)
  show "is_open (projected_event X stream_id p i)" by (simp add: is_open_def projected_event_def)
  show "matches stream_id p (reproject X p e) = has_slot stream_id (pj_source_id p) e"
    by (simp add: matches_def has_slot_def) (simp add: reproject_def)
  show "matches stream_id p (projected_event X stream_id p i)"
    by (simp add: matches_def has_slot_def event_key_def projected_event_def)
qed

lemma exclusion_simps [simp]:
  "ev_exclusion_reason (reproject X p e) =
     (if ev_exclusion_reason e = Some ''user'' then Some ''user'' else None)"
  "ev_is_excluded (reproject X p e) \<longleftrightarrow> ev_exclusion_reason e = Some ''user''"
  "ev_exclusion_reason (projected_event X stream_id p i) = None"
  "\<not> ev_is_excluded (projected_event X stream_id p i)"
  by (simp_all add: reproject_def projected_event_def)

lemma upsert_fills:
  assumes "upsert_projection X stream_id p db = (Inr u, db')"
  shows "slot_filled stream_id (events db') p"
proof (cases "list_ex (has_slot stream_id (pj_source_id p)) (events db)")
  case True
  then obtain e where e: "e \<in> set (events db)" "has_slot stream_id (pj_source_id p) e" by (auto simp: list_ex_iff)
  let ?e = "if is_open e then reproject X p e else e"
  have "?e \<in> set (events db')" using assms True e by (auto simp: upsert_Inr set_update_rows)
  moreover have "has_slot stream_id (pj_source_id p) ?e \<and> (is_open ?e \<longrightarrow> matches stream_id p ?e \<and>
        (ev_is_excluded ?e \<longleftrightarrow> ev_exclusion_reason ?e = Some ''user''))"
    using e(2) by simp
  ultimately show ?thesis unfolding slot_filled_def by blast
next
  case False
  then show ?thesis using assms
    by (simp add: upsert_Inr slot_filled_def)
qed

lemma upsert_keeps_filled:
  assumes "upsert_projection X stream_id p db = (Inr u, db')" "slot_filled stream_id (events db) q"
    and "pj_source_id q \<noteq> pj_source_id p"
  shows "slot_filled stream_id (events db') q"
proof -
  obtain e where e: "e \<in> set (events db)" "has_slot stream_id (pj_source_id q) e"
      "is_open e \<longrightarrow> matches stream_id q e \<and> (ev_is_excluded e \<longleftrightarrow> ev_exclusion_reason e = Some ''user'')"
    using assms(2) unfolding slot_filled_def by blast
  then have "\<not> has_slot stream_id (pj_source_id p) e" using assms(3) by (auto simp: has_slot_def)
  with e(1) assms(1) have "e \<in> set (events db')"
    by (auto simp: upsert_Inr set_update_rows image_iff split: if_splits)
  with e show ?thesis unfolding slot_filled_def by blast
qed

lemma upserts_fill:
  assumes "for_each (upsert_projection X stream_id) ps db = (Inr u, db')" "distinct (map pj_source_id ps)"
    and "p \<in> set ps \<or> slot_filled stream_id (events db) p \<and> pj_source_id p \<notin> pj_source_id ` set ps"
  shows "slot_filled stream_id (events db') p"
  using assms
proof (induction ps arbitrary: db)
  case Nil
  then show ?case by (simp add: ok_Inr)
next
  case (Cons q qs)
  obtain v w where s: "upsert_projection X stream_id q db = (Inr v, w)"
    and r: "for_each (upsert_projection X stream_id) qs w = (Inr u, db')"
    using Cons.prems(1) by (auto simp: op_Inr)
  have d: "distinct (map pj_source_id qs)" "pj_source_id q \<notin> pj_source_id ` set qs"
    using Cons.prems(2) by auto
  consider "p = q" | "p \<in> set qs" | "slot_filled stream_id (events db) p" "pj_source_id p \<noteq> pj_source_id q"
      "pj_source_id p \<notin> pj_source_id ` set qs"
    using Cons.prems(3) by auto
  then show ?case
  proof cases
    case 1
    then show ?thesis using Cons.IH [OF r d(1)] upsert_fills [OF s] d(2) by blast
  next
    case 2
    then show ?thesis using Cons.IH [OF r d(1)] by blast
  next
    case 3
    then show ?thesis using Cons.IH [OF r d(1)] upsert_keeps_filled [OF s] by blast
  qed
qed

lemma upsert_visible:
  assumes "upsert_projection X stream_id p db = (Inr u, db')"
    and "\<And>e. e \<in> set (events db) \<Longrightarrow> untouched_visible stream_id f t e \<Longrightarrow> \<exists>q \<in> Q. matches stream_id q e"
    and "e \<in> set (events db')" "untouched_visible stream_id f t e"
  shows "\<exists>q \<in> insert p Q. matches stream_id q e"
proof (cases "e \<in> set (events db)")
  case True
  with assms(2,4) show ?thesis by blast
next
  case False
  then consider e' where "e = reproject X p e'" "has_slot stream_id (pj_source_id p) e'"
    | "e = projected_event X stream_id p (event_seq db + 1)"
    using assms(1,3) by (auto simp: upsert_Inr set_update_rows split: if_splits)
  then show ?thesis by cases auto
qed

lemma upserts_visible:
  assumes "for_each (upsert_projection X stream_id) ps db = (Inr u, db')"
    and "\<And>e. e \<in> set (events db) \<Longrightarrow> untouched_visible stream_id f t e \<Longrightarrow> \<exists>q \<in> Q. matches stream_id q e"
    and "e \<in> set (events db')" "untouched_visible stream_id f t e"
  shows "\<exists>q \<in> set ps \<union> Q. matches stream_id q e"
  using assms
proof (induction ps arbitrary: db Q)
  case Nil
  then show ?case by (simp add: ok_Inr)
next
  case (Cons p ps)
  obtain v w where s: "upsert_projection X stream_id p db = (Inr v, w)"
    and r: "for_each (upsert_projection X stream_id) ps w = (Inr u, db')"
    using Cons.prems(1) by (auto simp: op_Inr)
  have "\<exists>q \<in> set ps \<union> insert p Q. matches stream_id q e"
    by (rule Cons.IH [OF r _ Cons.prems(3,4)]) (rule upsert_visible [OF s Cons.prems(2)])
  then show ?case by auto
qed

lemma tombstoned_invisible:
  assumes "db_valid X db" "e \<in> set (events (tombstoned X stream_id w db))"
  shows "\<not> untouched_visible stream_id (iso_to_string (dates X) (w_from w))
    (iso_to_string (dates X) (w_through w)) e"
proof
  let ?P = "untouched_open stream_id (iso_to_string (dates X) (w_from w)) (iso_to_string (dates X) (w_through w))"
  assume v: "untouched_visible stream_id (iso_to_string (dates X) (w_from w))
    (iso_to_string (dates X) (w_through w)) e"
  from assms(2) obtain e0 where e0: "e0 \<in> set (events db)" "e = (if ?P e0 then tombstone X e0 else e0)"
    by (auto simp: tombstoned_def set_update_rows)
  have "\<not> ?P e0" using v e0(2) by (auto simp: untouched_visible_def tombstone_def)
  moreover from this have "e = e0" using e0(2) by simp
  moreover have "ev_exclusion_reason e0 = None" if "\<not> ev_is_excluded e0"
    using assms(1) e0(1) that by (auto simp: db_valid_def Let_def list_all_iff event_check_def)
  ultimately show False using v by (auto simp: untouched_visible_def untouched_open_def is_open_def)
qed


subsection \<open>Every planned projection has its own slot\<close>

definition window_ok :: "date_api \<Rightarrow> window \<Rightarrow> bool" where
  "window_ok D w \<longleftrightarrow> storable D (w_from w) \<and> in_range D (w_through w) \<and> iso_year D (w_through w) < 9999"

lemma append_sep_inj:
  assumes "a @ c # s = b @ c # t" "c \<notin> set a" "c \<notin> set b"
  shows "a = b \<and> s = t"
proof -
  have tw: "takeWhile (\<lambda>x. x \<noteq> c) (u @ c # v) = u" if "c \<notin> set u" for u v
    using that by (induction u) auto
  have "takeWhile (\<lambda>x. x \<noteq> c) (a @ c # s) = takeWhile (\<lambda>x. x \<noteq> c) (b @ c # t)" using assms(1) by simp
  then have "a = b" using tw [OF assms(2)] tw [OF assms(3)] by simp
  with assms(1) show ?thesis by simp
qed

lemma show_int_no_colon: "CHR '':'' \<notin> set (show_int i)"
  using show_nat_no_char [of "CHR '':''"] by (auto simp: show_int_def is_digit_def code_def)

lemma source_id_inj:
  assumes "pj_source_id (projection_of X n s f a x) = pj_source_id (projection_of X n s' f' a' y)"
  shows "zv_id s = zv_id s' \<and> projection_slot (dates X) f a x = projection_slot (dates X) f' a' y"
proof -
  have "show_int (zv_id s) @ CHR '':'' # projection_slot (dates X) f a x =
      show_int (zv_id s') @ CHR '':'' # projection_slot (dates X) f' a' y"
    using assms by (simp add: projection_of_def)
  from append_sep_inj [OF this show_int_no_colon show_int_no_colon] show ?thesis
    by (simp add: show_int_inj)
qed

context time_date
begin

lemma year_mono: "in_range D a \<Longrightarrow> in_range D b \<Longrightarrow> a \<le> b \<Longrightarrow> iso_year D a \<le> iso_year D b"
  using ymd_less_iff [of b a] by (auto simp: ymd_parts less_eq_prod_def not_less [symmetric])

lemma slots_distinct_any:
  assumes "in_range D anchor" "storable D from" "in_range D through" "iso_year D through < 9999"
    and "schedule_occurrences D f anchor from through day = Inr xs"
  shows "distinct (map (projection_slot D f anchor) xs)"
proof (cases day)
  case (Some d)
  with assms slots_distinct show ?thesis by blast
next
  case None
  have "schedule_occurrences D f anchor from through (Some 1) = Inr xs \<or> xs = []"
    using assms(5) None by (cases f) (auto simp: schedule_occurrences_def split: if_splits)
  with slots_distinct [OF assms(1-4)] show ?thesis by auto
qed

end

lemma fin_res_Inr: "fin_res r = Inr a \<longleftrightarrow> r = Inr a"
  by (auto simp: fin_res_def split: sum.splits)

lemma decode_ctx_Inr: "decode_ctx c r = Inr a \<longleftrightarrow> r = Inr a"
  by (auto simp: decode_ctx_def split: sum.splits fault.splits)

lemma schedule_bounds_ok:
  assumes "time_date (dates X)" "window_ok (dates X) w" "schedule_bounds X w s = Inr (f, start, a, b)"
    and "a \<le> b"
  shows "storable (dates X) start" "storable (dates X) a" "in_range (dates X) b" "iso_year (dates X) b < 9999"
    "w_from w \<le> a" "b \<le> w_through w" "frequency_from_str (zv_frequency s) = Inr f"
proof -
  note from_str_storable = time_date.from_str_storable [OF assms(1)]
  note year_mono = time_date.year_mono [OF assms(1)]
  obtain e where fs: "frequency_from_str (zv_frequency s) = Inr f" "iso_from_str (dates X) (zv_start_date s) = Inr start"
    and a: "a = max start (w_from w)"
    and b: "b = min (case e of Some e \<Rightarrow> e | None \<Rightarrow> w_through w) (w_through w)"
    and e': "(case zv_end_date s of None \<Rightarrow> Inr None | Some t \<Rightarrow>
        rbnd (decode_ctx ''decode schedule end date'' (iso_from_str (dates X) t)) (\<lambda>e. Inr (Some e))) = Inr e"
    using assms(3) by (auto simp: schedule_bounds_def rbnd_eq_Inr decode_ctx_Inr)
  have e: "storable (dates X) x" if "e = Some x" for x
    using e' that from_str_storable by (auto simp: rbnd_eq_Inr decode_ctx_Inr split: option.splits)
  show st: "storable (dates X) start" using fs(2) from_str_storable by blast
  show "storable (dates X) a" using st assms(2) a by (auto simp: window_ok_def max_def)
  show bt: "b \<le> w_through w" using b by (auto simp: min_def split: option.splits)
  show ib: "in_range (dates X) b"
    using b e assms(2) by (cases e) (auto simp: window_ok_def storable_def min_def)
  show "iso_year (dates X) b < 9999"
    using year_mono [OF ib _ bt] assms(2) by (auto simp: window_ok_def)
  show "w_from w \<le> a" using a by simp
  show "frequency_from_str (zv_frequency s) = Inr f" by (rule fs(1))
qed

lemma plan_schedule_distinct:
  assumes "time_date (dates X)" "window_ok (dates X) w" "plan_schedule X name w s = Inr ps"
  shows "distinct (map pj_source_id ps)"
proof -
  note slots_distinct_any = time_date.slots_distinct_any [OF assms(1)]
  from assms(3) obtain f start a b where sb: "schedule_bounds X w s = Inr (f, start, a, b)"
    and r: "if b < a then ps = [] else \<exists>xs. schedule_occurrences (dates X) f start a b
        (map_option (\<lambda>d. nat (d mod 256)) (zv_day_of_month s)) = Inr xs \<and> ps = map (projection_of X name s f start) xs"
    by (auto simp: plan_schedule_def rbnd_eq_Inr fin_res_Inr split: if_splits)
  show ?thesis
  proof (cases "b < a")
    case True
    with r show ?thesis by simp
  next
    case False
    then obtain xs where xs: "schedule_occurrences (dates X) f start a b
        (map_option (\<lambda>d. nat (d mod 256)) (zv_day_of_month s)) = Inr xs" "ps = map (projection_of X name s f start) xs"
      using r by auto
    have le: "a \<le> b" using False by simp
    note bo = schedule_bounds_ok [OF assms(1,2) sb le]
    have "distinct (map (projection_slot (dates X) f start) xs)"
      using slots_distinct_any [OF _ bo(2-4) xs(1)] bo(1) by (simp add: storable_def)
    then have "inj_on (projection_slot (dates X) f start) (set xs)" "distinct xs" by (simp_all add: distinct_map)
    then have "inj_on (\<lambda>x. pj_source_id (projection_of X name s f start x)) (set xs)"
      using source_id_inj [of X name s f start _ s f start] unfolding inj_on_def by metis
    with \<open>distinct xs\<close> show ?thesis by (simp add: xs(2) distinct_map comp_def)
  qed
qed

lemma plan_schedule_ids:
  "plan_schedule X name w s = Inr ps \<Longrightarrow> p \<in> set ps \<Longrightarrow>
   \<exists>f a x. p = projection_of X name s f a x"
  unfolding plan_schedule_def rbnd_eq_Inr by (auto split: if_splits simp: rbnd_eq_Inr) blast

lemma collect_res_Inr: "collect_res rs = Inr as \<longleftrightarrow> map Inr as = rs"
  by (induction rs arbitrary: as) (auto simp: rbnd_eq_Inr)

lemma plans_distinct:
  assumes "time_date (dates X)" "window_ok (dates X) w" "distinct (map zv_id ss)"
    and "map Inr pss = map (plan_schedule X name w) ss"
  shows "distinct (map pj_source_id (concat pss))"
  using assms(3,4)
proof (induction ss arbitrary: pss)
  case Nil
  then show ?case by simp
next
  case (Cons s ss)
  then obtain ps qss where p: "pss = ps # qss" "plan_schedule X name w s = Inr ps"
      "map Inr qss = map (plan_schedule X name w) ss"
    by (cases pss) auto
  have IH: "distinct (map pj_source_id (concat qss))" using Cons.IH [OF _ p(3)] Cons.prems(1) by simp
  have "pj_source_id p \<noteq> pj_source_id q" if "p \<in> set ps" "q \<in> set (concat qss)" for p q
  proof
    assume eq: "pj_source_id p = pj_source_id q"
    from that(2) obtain qs where qs: "qs \<in> set qss" "q \<in> set qs" by auto
    then have "Inr qs \<in> set (map (plan_schedule X name w) ss)" unfolding p(3) [symmetric] by simp
    then obtain s' where s': "s' \<in> set ss" "plan_schedule X name w s' = Inr qs" by auto
    have "zv_id s = zv_id s'"
      using plan_schedule_ids [OF p(2) that(1)] plan_schedule_ids [OF s'(2) qs(2)] eq source_id_inj by metis
    with s'(1) Cons.prems(1) show False by auto
  qed
  then have "set (map pj_source_id ps) \<inter> set (map pj_source_id (concat qss)) = {}" by auto
  with plan_schedule_distinct [OF assms(1,2) p(2)] IH show ?case
    by (simp add: p(1) del: map_concat)
qed

lemma plan_distinct:
  assumes "time_date (dates X)" "window_ok (dates X) w" "db_ids db" "plan X stream_id name w db = Inr ps"
  shows "distinct (map pj_source_id ps)"
proof -
  obtain pss where pss: "map Inr pss = map (plan_schedule X name w) (active_schedules stream_id db)" "ps = concat pss"
    using assms(4) by (auto simp: plan_def rbnd_eq_Inr collect_res_Inr)
  have "distinct (map sc_id (schedules db))" using assms(3) by (simp add: db_ids_def ids_ok_def)
  then have "distinct (map sc_id (filter (\<lambda>s. sc_stream_id s = stream_id \<and> sc_is_active s) (schedules db)))"
    by (rule distinct_map_filter)
  then have "distinct (map sc_id (sort_key sc_id (filter (\<lambda>s. sc_stream_id s = stream_id \<and> sc_is_active s) (schedules db))))"
    by (simp add: distinct_map)
  then have "distinct (map zv_id (active_schedules stream_id db))"
    by (simp add: active_schedules_def schedule_from_row_def comp_def)
  from plans_distinct [OF assms(1,2) this pss(1)] show ?thesis by (simp add: pss(2))
qed


subsection \<open>Rows that a refresh must not lose\<close>

definition event_kept :: "event_row \<Rightarrow> event_row \<Rightarrow> bool" where
  "event_kept e e' \<longleftrightarrow>
     ev_id e' = ev_id e \<and> ev_stream_id e' = ev_stream_id e \<and> ev_source_id e' = ev_source_id e \<and>
     ev_source_type e' = ev_source_type e \<and> ev_status e' = ev_status e \<and>
     ev_override_label e' = ev_override_label e \<and> ev_has_label_override e' = ev_has_label_override e \<and>
     ev_override_date e' = ev_override_date e \<and> ev_override_amount e' = ev_override_amount e \<and>
     ev_override_account_id e' = ev_override_account_id e \<and>
     ev_has_account_override e' = ev_has_account_override e \<and>
     ev_actual_date e' = ev_actual_date e \<and> ev_actual_amount e' = ev_actual_amount e \<and>
     ev_notes e' = ev_notes e \<and>
     (ev_status e = ''received'' \<longrightarrow> e' = e) \<and>
     (ev_source_type e \<noteq> Some ''stream_schedule'' \<longrightarrow> e' = e) \<and>
     (ev_is_excluded e \<and> ev_exclusion_reason e = Some ''user'' \<longrightarrow>
        ev_is_excluded e' \<and> ev_exclusion_reason e' = Some ''user'')"

definition events_kept :: "fin_db \<Rightarrow> fin_db \<Rightarrow> bool" where
  "events_kept db db' \<longleftrightarrow> rows_related event_kept (events db) (events db')"

lemma event_kept_refl: "event_kept e e"
  by (simp add: event_kept_def)

lemma event_kept_trans: "event_kept a b \<Longrightarrow> event_kept b c \<Longrightarrow> event_kept a c"
  unfolding event_kept_def by (elim conjE) simp

interpretation kept: evolution events_kept
proof
  show "events_kept s s" for s by (simp add: events_kept_def rows_related_refl event_kept_refl)
  show "events_kept s t \<Longrightarrow> events_kept t u \<Longrightarrow> events_kept s u" for s t u
    unfolding events_kept_def by (rule rows_related_trans [OF event_kept_trans])
qed

lemma kept_write: "(\<And>s. events_kept s (snd (f s))) \<Longrightarrow> evolves events_kept (fin_write X c f)"
  unfolding fin_write_def by (rule kept.evolves_write)

lemma kept_statements:
  "evolves events_kept (update_streams X c P f)" "evolves events_kept (insert_stream X c row)"
  "evolves events_kept (update_schedules X c P2 g)" "evolves events_kept (insert_schedule X c row2)"
  "evolves events_kept (write_members X c m)"
  unfolding statement_defs
  by (rule kept_write, simp add: events_kept_def rows_related_refl event_kept_refl Let_def)+

lemma kept_update_events:
  "(\<And>e. P e \<Longrightarrow> event_kept e (f e)) \<Longrightarrow> evolves events_kept (update_events X c P f)"
  unfolding update_events_def
  by (rule kept_write) (simp add: events_kept_def rows_related_update event_kept_refl)

lemma kept_upsert: "evolves events_kept (upsert_projection X stream_id p)"
  unfolding upsert_projection_def
proof (rule kept_write)
  fix db
  have r: "event_kept e (reproject X p e)" if "has_slot stream_id src e" "is_open e" for e src
    using that by (auto simp: event_kept_def reproject_def has_slot_def is_open_def event_key_def
        split: option.splits)
  show "events_kept db (snd (if list_ex (has_slot stream_id (pj_source_id p)) (events db)
       then ((), db\<lparr>events := update_rows (\<lambda>e. has_slot stream_id (pj_source_id p) e \<and> is_open e)
                      (reproject X p) (events db)\<rparr>)
       else ((), db\<lparr>events := events db @ [projected_event X stream_id p (event_seq db + 1)],
                    event_seq := event_seq db + 1\<rparr>)))"
    by (auto simp: events_kept_def intro!: rows_related_update rows_related_append r event_kept_refl)
qed

lemma kept_tombstone:
  "untouched_open stream_id f t e \<Longrightarrow> event_kept e (tombstone X e)"
  by (auto simp: untouched_open_def event_kept_def tombstone_def)

lemma kept_require:
  "evolves events_kept (require_active_account a)" "evolves events_kept (require_active_stream i)"
  "evolves events_kept (require_account_opt ao)"
  by (auto simp: require_account_opt_def intro!: kept.evolves_reads kept.evolves_rules split: option.splits)

lemma kept_refresh: "evolves events_kept (refresh_stream_schedule_events_on X stream_id name w)"
  unfolding refresh_stream_schedule_events_on_def refresh_schedule_eq
  by (intro kept.evolves_rules kept_update_events kept_upsert) (rule kept_tombstone)

lemma kept_refresh_stream: "evolves events_kept (refresh_stream_schedule_events X stream_id w)"
  unfolding refresh_stream_schedule_events_def by (intro kept.evolves_rules kept_refresh kept_require)

lemma kept_save_schedules: "evolves events_kept (save_schedules X i retained ss)"
  by (induction ss arbitrary: retained)
    (simp_all add: save_schedule_on_def kept.evolves_rules kept_statements split: option.splits)

lemma kept_save_stream: "evolves events_kept (save_stream X d w)"
  unfolding save_stream_def write_stream_def deactivate_schedules_def attach_default_view_def
  by (intro kept.evolves_rules kept_statements kept_require kept_save_schedules kept_refresh)

lemma kept_delete_stream: "evolves events_kept (delete_stream X i)"
  unfolding delete_stream_def
  by (intro kept.evolves_rules kept_statements kept_update_events)
    (auto simp: event_kept_def tombstone_def)

subsection \<open>The constraints are kept\<close>

lemma keeps_upsert: "keeps (db_valid X) (upsert_projection X stream_id p)"
  unfolding upsert_projection_def by (rule keeps_fin_write)

lemma keeps_refresh: "keeps (db_valid X) (refresh_stream_schedule_events_on X stream_id name w)"
  unfolding refresh_stream_schedule_events_on_def refresh_schedule_eq
  by (intro keeps_rules keeps_upsert)

lemma keeps_save_schedules: "keeps (db_valid X) (save_schedules X i retained ss)"
  by (induction ss arbitrary: retained)
    (auto simp: save_schedule_on_def intro!: keeps_rules split: option.splits)

lemma keeps_save_stream: "keeps (db_valid X) (save_stream X d w)"
  unfolding save_stream_def write_stream_def deactivate_schedules_def attach_default_view_def require_account_opt_def
  by (intro keeps_rules keeps_save_schedules keeps_refresh)


subsection \<open>Properties\<close>

text \<open>C1: A successful refresh of a stream makes its projected events agree with its active schedules:
  it reports the number of planned occurrences, the occurrences have pairwise different slots, every
  planned slot has a row which, while open, carries the schedule's date, amount, label and account and
  is visible unless the user excluded it, and conversely every visible row of the window without a user
  override is one of the planned occurrences (nothing obsolete is left).\<close>

theorem refresh_projects_plan:
  assumes "time_date (dates X)" "window_ok (dates X) w" "db_valid X db" "db_ids db"
    and "refresh_stream_schedule_events_on X stream_id name w db = (Inr n, db')"
  shows "\<exists>ps. plan X stream_id name w db = Inr ps \<and> n = length ps \<and> distinct (map pj_source_id ps) \<and>
    (\<forall>p \<in> set ps. slot_filled stream_id (events db') p) \<and>
    (\<forall>e \<in> set (events db'). untouched_visible stream_id (iso_to_string (dates X) (w_from w))
        (iso_to_string (dates X) (w_through w)) e \<longrightarrow> (\<exists>p \<in> set ps. matches stream_id p e))"
proof -
  obtain ps where ps: "plan X stream_id name w db = Inr ps" "n = length ps"
      "for_each (upsert_projection X stream_id) ps (tombstoned X stream_id w db) = (Inr (), db')"
    using assms(5) unfolding refresh_plan by blast
  have d: "distinct (map pj_source_id ps)" by (rule plan_distinct [OF assms(1,2,4) ps(1)])
  moreover have "\<forall>p \<in> set ps. slot_filled stream_id (events db') p"
    using upserts_fill [OF ps(3) d] by blast
  moreover have "\<exists>p \<in> set ps \<union> {}. matches stream_id p e" if "e \<in> set (events db')"
    "untouched_visible stream_id (iso_to_string (dates X) (w_from w)) (iso_to_string (dates X) (w_through w)) e" for e
    using upserts_visible [OF ps(3) _ that, of "{}"] tombstoned_invisible [OF assms(3)] by blast
  ultimately show ?thesis using ps(1,2) by auto
qed

lemma sample_plan:
  "plan sample_ext 1 ''Rent'' feb sample_db = Inr
     [\<lparr>pj_source_id = ''stream_schedule:1:monthly:2026-02'', pj_account_id = None, pj_label = ''Rent due'',
       pj_date = ''2026-02-28'', pj_amount = f64_small 50, pj_metadata = ''Rent''\<rparr>]"
  (is "_ = Inr [?p]")
proof -
  have "show_int 1 = ''1''" by code_simp
  moreover have "frequency_from_str ''monthly'' = Inr Monthly" by code_simp
  ultimately show ?thesis
    by (simp add: plan_def active_schedules_def sample_db_def rent_schedule_def plan_schedule_def
        schedule_bounds_def schedule_from_row_def sample_ext_def feb_def decode_ctx_def sample_texts
        sample_occurrences projection_of_def sample_slot fin_res_def)
qed

lemma sample_refresh: "\<exists>db'. refresh_stream_schedule_events_on sample_ext 1 ''Rent'' feb sample_db = (Inr 1, db')"
proof -
  have "db_valid sample_ext (tombstoned sample_ext 1 feb sample_db)"
    by (simp add: tombstoned_def untouched_open_def tombstone_def db_valid_def sample_db_def sample_rows
        account_check_def stream_check_def schedule_check_def event_check_def sample_globs sample_nonblank
        f64_small_checks primary_ok_def default_ok_def events_unique_def event_key_def map_filter_simps)
  moreover have "\<exists>db'. for_each (upsert_projection sample_ext 1)
     [\<lparr>pj_source_id = ''stream_schedule:1:monthly:2026-02'', pj_account_id = None, pj_label = ''Rent due'',
       pj_date = ''2026-02-28'', pj_amount = f64_small 50, pj_metadata = ''Rent''\<rparr>]
     (tombstoned sample_ext 1 feb sample_db) = (Inr (), db')"
    by (simp add: op_Inr upsert_Inr tombstoned_def untouched_open_def tombstone_def db_valid_def sample_db_def
        sample_rows reproject_def is_open_def has_slot_def sample_ext_def feb_def sample_texts
        account_check_def stream_check_def schedule_check_def event_check_def sample_globs sample_nonblank
        f64_small_checks primary_ok_def default_ok_def events_unique_def event_key_def map_filter_simps)
  ultimately show ?thesis unfolding refresh_plan sample_plan by auto
qed

lemma feb_ok: "window_ok (dates sample_ext) feb"
  by (simp add: window_ok_def storable_def sample_range feb_def sample_ext_def)

theorem refresh_projects_plan_witness:
  "\<exists>db'. refresh_stream_schedule_events_on sample_ext 1 ''Rent'' feb sample_db = (Inr 1, db') \<and>
     (\<exists>e \<in> set (events db'). has_slot 1 ''stream_schedule:1:monthly:2026-02'' e)"
proof -
  obtain db' where r: "refresh_stream_schedule_events_on sample_ext 1 ''Rent'' feb sample_db = (Inr 1, db')"
    using sample_refresh by blast
  from refresh_projects_plan [OF sample_dates feb_ok sample_valid sample_ids r] sample_plan r
  show ?thesis by (auto simp: slot_filled_def)
qed


text \<open>C23: Saving a stream, refreshing it and deleting it never lose what the user or reality decided:
  every event that existed is still there with the same status, overrides, actual values and notes;
  received events and events that no schedule generated are unchanged, and an event the user
  excluded stays excluded. This holds for every outcome, errors included.\<close>

theorem user_decisions_survive:
  "\<forall>e \<in> set (events db).
     (\<exists>e' \<in> set (events (snd (save_stream X d w db))). event_kept e e') \<and>
     (\<exists>e' \<in> set (events (snd (refresh_stream_schedule_events X i w db))). event_kept e e') \<and>
     (\<exists>e' \<in> set (events (snd (delete_stream X i db))). event_kept e e')"
  using kept_save_stream [of X d w] kept_refresh_stream [of X i w] kept_delete_stream [of X i]
  unfolding evolves_def events_kept_def rows_related_def by blast

theorem user_decisions_survive_witness:
  "\<exists>e' \<in> set (events (snd (delete_stream sample_ext 1 sample_db))). event_kept manual_event e'"
  using user_decisions_survive [of sample_db] by (simp add: sample_db_def)

text \<open>Deleting a stream, when it succeeds, is complete: the stream was active and is inactive, none
  of its schedules is active, and every generated event of it that is not received is excluded.\<close>

theorem delete_stream_complete:
  assumes "delete_stream X i db = (Inr (), db')"
  shows "(\<exists>s \<in> set (streams db). st_id s = i \<and> st_is_active s) \<and>
    (\<forall>s \<in> set (streams db'). st_id s = i \<longrightarrow> \<not> st_is_active s) \<and>
    (\<forall>s \<in> set (schedules db'). sc_stream_id s = i \<longrightarrow> \<not> sc_is_active s) \<and>
    (\<forall>e \<in> set (events db'). ev_stream_id e = i \<and> ev_source_type e = Some ''stream_schedule'' \<and>
       ev_status e \<noteq> ''received'' \<longrightarrow> ev_is_excluded e)"
proof -
  let ?P = "\<lambda>s. st_id s = i \<and> st_is_active s"
  have n: "0 < count_rows ?P (streams db)"
    and s: "streams db' = update_rows ?P (\<lambda>s. s\<lparr>st_is_active := False, st_updated_at := now_text X\<rparr>) (streams db)"
    and c: "schedules db' = update_rows (\<lambda>s. sc_stream_id s = i \<and> sc_is_active s)
        (\<lambda>s. s\<lparr>sc_is_active := False, sc_updated_at := now_text X\<rparr>) (schedules db)"
    and e: "events db' = update_rows (\<lambda>e. ev_stream_id e = i \<and> ev_source_type e = Some ''stream_schedule'' \<and>
        ev_status e \<noteq> ''received'' \<and> \<not> ev_is_excluded e) (tombstone X) (events db)"
    using assms by (auto simp: delete_stream_def op_Inr statement_Inr split: if_splits)
  show ?thesis using count_rows_pos [OF n]
    by (auto simp: s c e set_update_rows tombstone_def)
qed

lemmas valid_defs = db_valid_def account_check_def stream_check_def schedule_check_def event_check_def
  sample_globs sample_nonblank f64_small_checks primary_ok_def default_ok_def events_unique_def
  event_key_def map_filter_simps

lemma sample_deleted_valid:
  defines "s' \<equiv> rent_stream\<lparr>st_is_active := False, st_updated_at := now_text sample_ext\<rparr>"
    and "c' \<equiv> rent_schedule\<lparr>sc_is_active := False, sc_updated_at := now_text sample_ext\<rparr>"
  shows "db_valid sample_ext (sample_db\<lparr>streams := [s']\<rparr>)"
    and "db_valid sample_ext (sample_db\<lparr>streams := [s'], schedules := [c']\<rparr>)"
    and "db_valid sample_ext (sample_db\<lparr>streams := [s'], schedules := [c'],
      events := [manual_event, tombstone sample_ext slot_event]\<rparr>)"
  unfolding s'_def c'_def
  by (simp_all add: valid_defs sample_db_def sample_rows tombstone_def)

theorem delete_stream_complete_witness:
  "\<exists>db'. delete_stream sample_ext 1 sample_db = (Inr (), db') \<and>
     (\<forall>s \<in> set (schedules db'). sc_stream_id s = 1 \<longrightarrow> \<not> sc_is_active s)"
proof -
  have "\<exists>db'. delete_stream sample_ext 1 sample_db = (Inr (), db')"
    using sample_deleted_valid
    by (simp add: delete_stream_def op_Inr statement_Inr tombstone_def sample_db_def sample_rows)
  then show ?thesis using delete_stream_complete by blast
qed

subsection \<open>Saving replaces the active schedules\<close>

definition stored_schedule :: "ext \<Rightarrow> int \<Rightarrow> fin_db \<Rightarrow> int \<Rightarrow> schedule_draft \<Rightarrow> bool" where
  "stored_schedule X stream_id db i s \<longleftrightarrow> (\<exists>r \<in> set (schedules db). sc_id r = i \<and> sc_stream_id r = stream_id \<and>
     sc_is_active r \<and> sc_account_id r = sd_account_id s \<and> sc_label r = clean_optional (sd_label s) \<and>
     sc_amount r = sd_amount s \<and> sc_frequency r = frequency_str (sd_frequency s) \<and>
     sc_day_of_month r = map_option int (sd_day_of_month s) \<and>
     sc_start_date r = iso_to_string (dates X) (sd_start_date s) \<and>
     sc_end_date r = map_option (iso_to_string (dates X)) (sd_end_date s) \<and> sc_metadata r = sd_metadata s) \<and>
     (sd_id s = None \<or> sd_id s = Some i)"

lemma stored_schedule_cong: "schedules db' = schedules db \<Longrightarrow> stored_schedule X i db' = stored_schedule X i db"
  by (simp add: stored_schedule_def fun_eq_iff)

lemma save_schedule_stored:
  assumes "save_schedule_on X stream_id s db = (Inr i, db')"
  shows "stored_schedule X stream_id db' i s"
    and "stored_schedule X stream_id db j q \<Longrightarrow> j \<noteq> i \<Longrightarrow> stored_schedule X stream_id db' j q"
proof -
  show "stored_schedule X stream_id db' i s"
  proof (cases "sd_id s")
    case None
    then show ?thesis using assms
      by (simp add: save_schedule_on_def statement_Inr stored_schedule_def new_schedule_def)
  next
    case (Some k)
    let ?P = "\<lambda>r. sc_id r = k \<and> sc_stream_id r = stream_id"
    have n: "count_rows ?P (schedules db) = 1" and i: "i = k"
      and db': "schedules db' = update_rows ?P (schedule_update X s) (schedules db)"
      using assms Some by (auto simp: save_schedule_on_def op_Inr statement_Inr)
    obtain r where r: "r \<in> set (schedules db)" "?P r" using n count_rows_pos [of ?P "schedules db"] by auto
    then have "schedule_update X s r \<in> set (schedules db')" by (auto simp: db' set_update_rows)
    with r(2) i Some show ?thesis unfolding stored_schedule_def
      by (intro conjI bexI [of _ "schedule_update X s r"]) (simp_all add: schedule_update_def)
  qed
  assume q: "stored_schedule X stream_id db j q" "j \<noteq> i"
  then obtain r where r: "r \<in> set (schedules db)" "sc_id r = j" "stored_schedule X stream_id (db\<lparr>schedules := [r]\<rparr>) j q"
    by (auto simp: stored_schedule_def)
  have "r \<in> set (schedules db')"
    using assms r(1,2) q(2)
    by (auto simp: save_schedule_on_def op_Inr statement_Inr set_update_rows image_iff split: option.splits)
  with r(2,3) show "stored_schedule X stream_id db' j q" by (auto simp: stored_schedule_def)
qed

lemma save_schedules_stored:
  assumes "save_schedules X stream_id retained ss db = (Inr ids, db')" "distinct retained"
    and "list_all2 (stored_schedule X stream_id db) retained (rev done)"
  shows "distinct ids \<and> list_all2 (stored_schedule X stream_id db') ids (rev (done @ ss))"
  using assms
proof (induction ss arbitrary: retained "done" db)
  case Nil
  then show ?case by (simp add: ok_Inr)
next
  case (Cons s ss)
  obtain i u where i: "save_schedule_on X stream_id s db = (Inr i, u)" "i \<notin> set retained"
    and r: "save_schedules X stream_id (i # retained) ss u = (Inr ids, db')"
    using Cons.prems(1) by (auto simp: op_Inr)
  have "list_all2 (stored_schedule X stream_id u) retained (rev done)"
    using Cons.prems(3)
  proof (rule list.rel_mono_strong)
    fix j q
    assume "j \<in> set retained" "stored_schedule X stream_id db j q"
    with i(2) show "stored_schedule X stream_id u j q" using save_schedule_stored(2) [OF i(1)] by blast
  qed
  then have "list_all2 (stored_schedule X stream_id u) (i # retained) (rev (done @ [s]))"
    using save_schedule_stored(1) [OF i(1)] by simp
  from Cons.IH [OF r _ this] Cons.prems(2) i(2) show ?case by simp
qed

lemma deactivate_each:
  assumes "for_each (\<lambda>i. thn (update_schedules X c (\<lambda>s. sc_id s = i \<and> sc_stream_id s = stream_id)
         (\<lambda>s. s\<lparr>sc_is_active := False, sc_updated_at := now_text X\<rparr>)) (ok ())) gone db = (Inr u, db')"
  shows "schedules db' = update_rows (\<lambda>s. sc_id s \<in> set gone \<and> sc_stream_id s = stream_id)
         (\<lambda>s. s\<lparr>sc_is_active := False, sc_updated_at := now_text X\<rparr>) (schedules db)"
  using assms
proof (induction gone arbitrary: db)
  case Nil
  then show ?case by (simp add: ok_Inr update_rows_none)
next
  case (Cons g gone)
  then show ?case by (auto simp: op_Inr statement_Inr update_rows_def)
qed

lemma deactivate_Inr:
  assumes "deactivate_schedules X stream_id retained db = (Inr u, db')"
  shows "schedules db' = update_rows (\<lambda>s. sc_id s \<in> set (filter (\<lambda>i. i \<notin> set retained)
            (map sc_id (filter (\<lambda>s. sc_stream_id s = stream_id \<and> sc_is_active s) (schedules db)))) \<and>
            sc_stream_id s = stream_id)
         (\<lambda>s. s\<lparr>sc_is_active := False, sc_updated_at := now_text X\<rparr>) (schedules db)"
  using assms unfolding deactivate_schedules_def op_Inr by (auto dest!: deactivate_each)

lemma deactivate_active:
  assumes "deactivate_schedules X stream_id retained db = (Inr u, db')"
    and "s \<in> set (schedules db')" "sc_stream_id s = stream_id" "sc_is_active s"
  shows "sc_id s \<in> set retained"
proof (rule ccontr)
  assume no: "sc_id s \<notin> set retained"
  define gone where "gone = filter (\<lambda>i. i \<notin> set retained)
    (map sc_id (filter (\<lambda>s. sc_stream_id s = stream_id \<and> sc_is_active s) (schedules db)))"
  obtain s0 where s0: "s0 \<in> set (schedules db)"
      "s = (if sc_id s0 \<in> set gone \<and> sc_stream_id s0 = stream_id
        then s0\<lparr>sc_is_active := False, sc_updated_at := now_text X\<rparr> else s0)"
    using assms(2) unfolding deactivate_Inr [OF assms(1)] gone_def [symmetric] set_update_rows by blast
  with assms(4) have "s = s0" "\<not> (sc_id s0 \<in> set gone \<and> sc_stream_id s0 = stream_id)"
    by (auto split: if_splits)
  moreover have "sc_id s \<in> set gone" using s0(1) no assms(3,4) \<open>s = s0\<close> by (simp add: gone_def)
  ultimately show False using assms(3) by simp
qed

lemma update_rows_keep: "r \<in> set rs \<Longrightarrow> \<not> P r \<Longrightarrow> r \<in> set (update_rows P f rs)"
  by (induction rs) auto

lemma deactivate_keeps:
  assumes "deactivate_schedules X stream_id retained db = (Inr u, db')"
    and "r \<in> set (schedules db)" "sc_id r \<in> set retained"
  shows "r \<in> set (schedules db')"
proof -
  let ?gone = "filter (\<lambda>i. i \<notin> set retained)
    (map sc_id (filter (\<lambda>s. sc_stream_id s = stream_id \<and> sc_is_active s) (schedules db)))"
  have "sc_id r \<notin> set ?gone" using assms(3) by simp
  then show ?thesis unfolding deactivate_Inr [OF assms(1)] using assms(2)
    by (intro update_rows_keep) blast+
qed

text \<open>Nothing after the schedules are written touches them.\<close>

definition same_schedules :: "fin_db \<Rightarrow> fin_db \<Rightarrow> bool" where
  "same_schedules db db' \<longleftrightarrow> schedules db' = schedules db"

interpretation sched: evolution same_schedules
  by unfold_locales (simp_all add: same_schedules_def)

lemma sched_write: "(\<And>s. same_schedules s (snd (f s))) \<Longrightarrow> evolves same_schedules (fin_write X c f)"
  unfolding fin_write_def by (rule sched.evolves_write)

lemma sched_refresh: "evolves same_schedules (refresh_stream_schedule_events_on X stream_id name w)"
  unfolding refresh_stream_schedule_events_on_def refresh_schedule_eq upsert_projection_def update_events_def
  by (intro sched.evolves_rules sched_write) (simp_all add: same_schedules_def)

lemma sched_attach: "evolves same_schedules (attach_default_view X stream_id)"
  unfolding attach_default_view_def write_members_def by (rule sched_write) (simp add: same_schedules_def)

lemma saved_schedules:
  assumes "save_stream X d w db = (Inr i, db')"
  shows "\<exists>ids. distinct ids \<and> list_all2 (stored_schedule X i db') ids (rev (td_schedules d)) \<and>
    (\<forall>s \<in> set (schedules db'). sc_stream_id s = i \<and> sc_is_active s \<longrightarrow> sc_id s \<in> set ids)"
proof -
  obtain s1 s2 s3 s4 ids n where a: "save_schedules X i [] (td_schedules d) s1 = (Inr ids, s2)"
    and b: "deactivate_schedules X i ids s2 = (Inr (), s3)"
    and c: "attach_default_view X i s3 = (Inr (), s4)"
    and r: "refresh_stream_schedule_events_on X i (td_name d) w s4 = (Inr n, db')"
    using assms unfolding save_stream_def op_Inr by auto
  have eq: "schedules db' = schedules s3"
    using evolvesD [OF sched_attach c] evolvesD [OF sched_refresh r] by (simp add: same_schedules_def)
  have st: "distinct ids" "list_all2 (stored_schedule X i s2) ids (rev (td_schedules d))"
    using save_schedules_stored [OF a, of "[]"] by auto
  have "list_all2 (stored_schedule X i db') ids (rev (td_schedules d))"
    using st(2)
  proof (rule list.rel_mono_strong)
    fix j q
    assume j: "j \<in> set ids" "stored_schedule X i s2 j q"
    then obtain r where r: "r \<in> set (schedules s2)" "sc_id r = j" "stored_schedule X i (s2\<lparr>schedules := [r]\<rparr>) j q"
      by (auto simp: stored_schedule_def)
    then have "r \<in> set (schedules s3)" using deactivate_keeps [OF b] j(1) by blast
    with r(3) eq show "stored_schedule X i db' j q" by (auto simp: stored_schedule_def)
  qed
  moreover have "sc_id s \<in> set ids" if "s \<in> set (schedules db')" "sc_stream_id s = i" "sc_is_active s" for s
    using that deactivate_active [OF b] by (simp add: eq)
  ultimately show ?thesis using st(1) by blast
qed

text \<open>C24: Saving a stream replaces its complete set of active schedules: afterwards the active schedules
  of the stream are exactly the drafts, in order and with the drafts' values (new ones inserted, listed
  ones updated and reactivated), and every schedule that the draft leaves out is inactive.\<close>

theorem save_stream_replaces_schedules:
  assumes "save_stream X d w db = (Inr i, db')"
  shows "\<exists>ids. distinct ids \<and> list_all2 (stored_schedule X i db') ids (rev (td_schedules d)) \<and>
    (\<forall>s \<in> set (schedules db'). sc_stream_id s = i \<and> sc_is_active s \<longrightarrow> sc_id s \<in> set ids)"
  by (rule saved_schedules [OF assms])


text \<open>Saving the sample stream as it is: the rows stay, and the refresh is the sample refresh.\<close>

definition rent_schedule_draft :: schedule_draft where
  "rent_schedule_draft = \<lparr>sd_id = Some 1, sd_account_id = None, sd_label = None, sd_amount = f64_small 50,
     sd_frequency = Monthly, sd_day_of_month = Some 31, sd_start_date = 739617, sd_end_date = None,
     sd_metadata = None\<rparr>"

definition rent_draft :: stream_draft where
  "rent_draft = \<lparr>td_id = Some 1, td_name = ''Rent'', td_type = ''expense'', td_kind = ''manual_expense'',
     td_direction = Out, td_certainty = Known, td_description = None, td_default_account_id = Some 1,
     td_configuration = None, td_parent_id = None, td_schedules = [rent_schedule_draft]\<rparr>"

lemma rent_trims: "trim ''Rent'' = ''Rent''" "trim ''expense'' = ''expense''"
  "trim ''manual_expense'' = ''manual_expense''"
  by code_simp+

lemma rent_amount_valid: "validate_magnitude ''schedule amount'' (f64_small 50) = Inr ()"
  by code_simp

lemma rent_valid: "validate_stream_draft sample_ext rent_draft = Inr ()"
  by (simp add: validate_stream_draft_def rent_draft_def validate_nonempty_def rent_trims validate_json_def
      validate_schedule_draft_def rent_schedule_draft_def rent_amount_valid)

lemma rent_rows: "stream_update sample_ext rent_draft rent_stream = rent_stream"
  "schedule_update sample_ext rent_schedule_draft rent_schedule = rent_schedule"
  by (simp_all add: stream_update_def schedule_update_def rent_draft_def rent_stream_def rent_schedule_def
      rent_schedule_draft_def rent_trims direction_str_def certainty_str_def frequency_str_def
      clean_optional_def sample_ext_def sample_texts)

lemma sample_tables: "accounts sample_db = [cash_account]" "streams sample_db = [rent_stream]"
  "schedules sample_db = [rent_schedule]" "views sample_db = [main_view]" "members sample_db = [(1, 1)]"
  "sample_db\<lparr>streams := [rent_stream]\<rparr> = sample_db" "sample_db\<lparr>schedules := [rent_schedule]\<rparr> = sample_db"
  "sample_db\<lparr>members := [(1, 1)]\<rparr> = sample_db"
  by (simp_all add: sample_db_def)

lemma sample_keys: "ac_id cash_account = 1" "ac_is_active cash_account" "st_id rent_stream = 1"
  "st_is_active rent_stream" "sc_id rent_schedule = 1" "sc_stream_id rent_schedule = 1"
  "sc_is_active rent_schedule" "vw_id main_view = 1" "vw_is_default main_view" "vw_is_active main_view"
  by (simp_all add: sample_rows)

lemma rent_saves:
  assumes r: "refresh_stream_schedule_events_on sample_ext 1 ''Rent'' w sample_db = (Inr n, db')"
  shows "save_stream sample_ext rent_draft w sample_db = (Inr 1, db')"
proof -
  have parts: "td_id rent_draft = Some 1" "td_name rent_draft = ''Rent''"
    "td_default_account_id rent_draft = Some 1" "td_parent_id rent_draft = None"
    "td_schedules rent_draft = [rent_schedule_draft]" "sd_id rent_schedule_draft = Some 1"
    "sd_account_id rent_schedule_draft = None"
    by (simp_all add: rent_draft_def rent_schedule_draft_def)
  have acc: "require_active_account 1 sample_db = (Inr (), sample_db)"
    by (simp add: require_active_account_Inr sample_tables sample_keys)
  have ws: "write_stream sample_ext rent_draft sample_db = (Inr 1, sample_db)"
    by (simp add: write_stream_def parts op_Inr statement_Inr sample_tables sample_keys rent_rows sample_valid)
  have s: "save_schedule_on sample_ext 1 rent_schedule_draft sample_db = (Inr 1, sample_db)"
    by (simp add: save_schedule_on_def parts op_Inr statement_Inr sample_tables sample_keys rent_rows sample_valid)
  have d: "deactivate_schedules sample_ext 1 [1] sample_db = (Inr (), sample_db)"
    by (simp add: deactivate_schedules_def op_Inr sample_tables sample_keys)
  have a: "attach_default_view sample_ext 1 sample_db = (Inr (), sample_db)"
    by (simp add: attach_default_view_def statement_Inr sample_tables sample_keys sample_valid)
  show ?thesis
    unfolding save_stream_def parts op_Inr rent_valid require_account_opt_def
    by (simp add: parts op_Inr acc ws s d a r)
qed

lemma rent_saved: "\<exists>db'. save_stream sample_ext rent_draft feb sample_db = (Inr 1, db')"
  using sample_refresh rent_saves by blast

theorem save_stream_replaces_schedules_witness:
  "\<exists>db'. save_stream sample_ext rent_draft feb sample_db = (Inr 1, db') \<and>
     (\<exists>i. stored_schedule sample_ext 1 db' i rent_schedule_draft)"
proof -
  obtain db' where eq: "save_stream sample_ext rent_draft feb sample_db = (Inr 1, db')"
    using rent_saved by blast
  from save_stream_replaces_schedules [OF eq] eq show ?thesis
    by (auto simp: rent_draft_def list_all2_Cons2)
qed

end
