(* ===== verification/Events.thy ===== *)
theory Events
  imports Refresh
begin

text \<open>
  The event operations of \<open>src/finance/repository.rs\<close>: \<open>create_manual_event\<close>, \<open>patch_event\<close>,
  \<open>remove_event\<close>, \<open>restore_scheduled_event\<close>, \<open>reconcile_event\<close>, \<open>list_events\<close> and the
  classification of a rejected mutation. The component's contract: user edits live in the override
  columns only, an exclusion can be undone, and a received event is final.
\<close>

subsection \<open>Effective values\<close>

definition effective_label :: "event_row \<Rightarrow> string option" where
  "effective_label e = (if ev_has_label_override e then ev_override_label e else ev_label e)"

definition coalesce :: "'a option \<Rightarrow> 'a option \<Rightarrow> 'a option" where
  "coalesce x y = (case x of Some a \<Rightarrow> Some a | None \<Rightarrow> y)"

definition effective_date :: "event_row \<Rightarrow> string" where
  "effective_date e = (case coalesce (ev_actual_date e) (ev_override_date e) of Some d \<Rightarrow> d
     | None \<Rightarrow> ev_expected_date e)"

definition effective_amount :: "event_row \<Rightarrow> f64" where
  "effective_amount e = (case coalesce (ev_actual_amount e) (ev_override_amount e) of Some a \<Rightarrow> a
     | None \<Rightarrow> ev_amount e)"

definition effective_account :: "event_row \<Rightarrow> int option" where
  "effective_account e = (if ev_has_account_override e then ev_override_account_id e else ev_account_id e)"

subsection \<open>Rejected mutations\<close>

definition bool_text :: "bool \<Rightarrow> string" where
  "bool_text b = (if b then ''true'' else ''false'')"

definition immutable_or_missing_event :: "int \<Rightarrow> string \<Rightarrow> unit fin_op" where
  "immutable_or_missing_event event_id operation =
     bnd (gets (\<lambda>db. find (\<lambda>e. ev_id e = event_id) (events db))) (\<lambda>row.
       case row of None \<Rightarrow> raise (NotFound (''event '' @ show_int event_id))
       | Some e \<Rightarrow> raise (Conflict (''cannot '' @ operation @ '' event '' @ show_int event_id @
           '' (status='' @ ev_status e @ '', source_type='' @
           (case ev_source_type e of Some t \<Rightarrow> t | None \<Rightarrow> ''unknown'') @
           '', excluded='' @ bool_text (ev_is_excluded e) @ '')'')))"

definition one_or_reject :: "nat \<Rightarrow> int \<Rightarrow> string \<Rightarrow> unit fin_op" where
  "one_or_reject changed event_id operation =
     (if changed = 1 then ok () else immutable_or_missing_event event_id operation)"

subsection \<open>Creating\<close>

definition new_manual_event :: "ext \<Rightarrow> event_draft \<Rightarrow> int \<Rightarrow> event_row" where
  "new_manual_event X d i =
     \<lparr>ev_id = i, ev_stream_id = ed_stream_id d, ev_account_id = ed_account_id d,
      ev_label = Some (trim (ed_label d)), ev_expected_date = iso_to_string (dates X) (ed_expected_date d),
      ev_amount = ed_amount d, ev_override_label = None, ev_has_label_override = False,
      ev_override_date = None, ev_override_amount = None, ev_override_account_id = None,
      ev_has_account_override = False, ev_actual_date = None, ev_actual_amount = None,
      ev_status = status_str (ed_status d), ev_is_excluded = False, ev_exclusion_reason = None,
      ev_source_id = None, ev_source_type = Some ''manual'', ev_metadata = ed_metadata d,
      ev_notes = clean_optional (ed_notes d), ev_updated_at = now_text X\<rparr>"

definition create_manual_event :: "ext \<Rightarrow> event_draft \<Rightarrow> int fin_op" where
  "create_manual_event X d =
     thn (lift_res (validate_nonempty ''event label'' (ed_label d)))
    (thn (lift_res (validate_positive_magnitude ''event amount'' (ed_amount d)))
    (thn (lift_res (validate_json X ''event metadata'' (ed_metadata d)))
    (thn (require (ed_status d \<noteq> Received) (Validation
            (''a received event must be created by reconciliation with actual fields'')))
    (transaction
      (thn (bnd (require_active_stream (ed_stream_id d)) (\<lambda>_. ok ()))
      (thn (require_account_opt (ed_account_id d))
      (bnd (insert_event X ''insert manual event'' (new_manual_event X d)) (\<lambda>event_id.
       thn (update_events X ''assign manual event source id'' (\<lambda>e. ev_id e = event_id)
              (\<lambda>e. e\<lparr>ev_source_id := Some (''manual:'' @ show_int event_id)\<rparr>))
         (ok event_id)))))))))"

subsection \<open>Patching the overrides\<close>

definition as_parts :: "('a \<Rightarrow> 'b) \<Rightarrow> 'a patch \<Rightarrow> nat \<times> 'b option" where
  "as_parts f p = (case p of Keep \<Rightarrow> (0, None) | Clear \<Rightarrow> (1, None) | SetTo v \<Rightarrow> (2, Some (f v)))"

definition as_copy_parts :: "'a patch \<Rightarrow> nat \<times> 'a option" where
  "as_copy_parts p = as_parts (\<lambda>v. v) p"

definition patch_text_parts :: "string patch \<Rightarrow> nat \<times> string option" where
  "patch_text_parts p = as_parts trim p"

definition editable :: "event_row \<Rightarrow> bool" where
  "editable e \<longleftrightarrow> is_open e \<and> ev_source_type e \<in> {Some ''manual'', Some ''stream_schedule''}"

definition apply_patch :: "ext \<Rightarrow> event_patch \<Rightarrow> event_row \<Rightarrow> event_row" where
  "apply_patch X p e =
     (let (label_code, label_value) = patch_text_parts (ep_label p);
          (date_code, date_value) = as_parts (iso_to_string (dates X)) (ep_expected_date p);
          (amount_code, amount_value) = as_copy_parts (ep_amount p);
          (account_code, account_value) = as_copy_parts (ep_account_id p);
          (notes_code, notes_value) = patch_text_parts (ep_notes p)
      in e\<lparr>ev_override_label := (if label_code = 0 then ev_override_label e else label_value),
           ev_has_label_override := (if label_code = 0 then ev_has_label_override e else True),
           ev_override_date := (if date_code = 0 then ev_override_date e else date_value),
           ev_override_amount := (if amount_code = 0 then ev_override_amount e else amount_value),
           ev_override_account_id := (if account_code = 0 then ev_override_account_id e
                                      else if account_code = 1 then None else account_value),
           ev_has_account_override := (if account_code = 0 then ev_has_account_override e
                                       else if account_code = 1 then False else True),
           ev_notes := (if notes_code = 0 then ev_notes e else notes_value),
           ev_updated_at := now_text X\<rparr>)"

definition patch_event :: "ext \<Rightarrow> int \<Rightarrow> event_patch \<Rightarrow> unit fin_op" where
  "patch_event X event_id p =
     thn (case ep_amount p of SetTo a \<Rightarrow> lift_res (validate_positive_magnitude ''event amount override'' a)
          | _ \<Rightarrow> ok ())
    (thn (case ep_label p of SetTo l \<Rightarrow> lift_res (validate_nonempty ''event label override'' l)
          | _ \<Rightarrow> ok ())
    (thn (case ep_account_id p of SetTo a \<Rightarrow> require_active_account a | _ \<Rightarrow> ok ())
    (bnd (update_events X ''patch event overrides'' (\<lambda>e. ev_id e = event_id \<and> editable e) (apply_patch X p))
      (\<lambda>changed. one_or_reject changed event_id ''edit''))))"

subsection \<open>Removing, restoring, reconciling\<close>

definition exclude_by_user :: "ext \<Rightarrow> event_row \<Rightarrow> event_row" where
  "exclude_by_user X e =
     e\<lparr>ev_is_excluded := True, ev_exclusion_reason := Some ''user'', ev_updated_at := now_text X\<rparr>"

definition remove_event :: "ext \<Rightarrow> int \<Rightarrow> unit fin_op" where
  "remove_event X event_id =
     bnd (transaction
       (bnd (delete_events X ''delete manual event''
               (\<lambda>e. ev_id e = event_id \<and> ev_source_type e = Some ''manual'' \<and> is_open e)) (\<lambda>deleted.
        if deleted = 1 then ok True
        else bnd (update_events X ''exclude generated event''
               (\<lambda>e. ev_id e = event_id \<and> ev_source_type e = Some ''stream_schedule'' \<and> is_open e)
               (exclude_by_user X)) (\<lambda>n. ok (n = 1)))))
      (\<lambda>changed. if changed then ok () else immutable_or_missing_event event_id ''remove'')"

definition clear_exclusion :: "ext \<Rightarrow> event_row \<Rightarrow> event_row" where
  "clear_exclusion X e =
     e\<lparr>ev_is_excluded := False, ev_exclusion_reason := None, ev_updated_at := now_text X\<rparr>"

definition restore_scheduled_event :: "ext \<Rightarrow> int \<Rightarrow> unit fin_op" where
  "restore_scheduled_event X event_id =
     bnd (update_events X ''restore generated event''
            (\<lambda>e. ev_id e = event_id \<and> ev_source_type e = Some ''stream_schedule'' \<and> is_open e \<and>
                 ev_exclusion_reason e = Some ''user'') (clear_exclusion X))
       (\<lambda>changed. one_or_reject changed event_id ''restore'')"

definition receive :: "ext \<Rightarrow> iso_date \<Rightarrow> f64 \<Rightarrow> event_row \<Rightarrow> event_row" where
  "receive X actual_date actual_amount e =
     e\<lparr>ev_actual_date := Some (iso_to_string (dates X) actual_date),
       ev_actual_amount := Some actual_amount, ev_status := ''received'', ev_updated_at := now_text X\<rparr>"

definition reconcile_event :: "ext \<Rightarrow> int \<Rightarrow> iso_date \<Rightarrow> f64 \<Rightarrow> unit fin_op" where
  "reconcile_event X event_id actual_date actual_amount =
     thn (lift_res (validate_positive_magnitude ''actual event amount'' actual_amount))
    (bnd (update_events X ''reconcile expected event''
            (\<lambda>e. ev_id e = event_id \<and> \<not> ev_is_excluded e \<and> editable e)
            (receive X actual_date actual_amount))
      (\<lambda>changed. one_or_reject changed event_id ''reconcile''))"

subsection \<open>Listing\<close>

record event_view =
  nv_id :: int
  nv_stream_id :: int
  nv_account_id :: "int option"
  nv_label :: "string option"
  nv_expected_date :: string
  nv_amount :: f64
  nv_override_label :: "string option"
  nv_override_date :: "string option"
  nv_override_amount :: "f64 option"
  nv_override_account_id :: "int option"
  nv_has_account_override :: bool
  nv_actual_date :: "string option"
  nv_actual_amount :: "f64 option"
  nv_effective_date :: string
  nv_effective_amount :: f64
  nv_status :: string
  nv_is_excluded :: bool
  nv_source_id :: "string option"
  nv_source_type :: "string option"
  nv_metadata :: "string option"
  nv_notes :: "string option"

definition event_from_row :: "event_row \<Rightarrow> event_view" where
  "event_from_row e =
     \<lparr>nv_id = ev_id e, nv_stream_id = ev_stream_id e, nv_account_id = effective_account e,
      nv_label = effective_label e, nv_expected_date = ev_expected_date e, nv_amount = ev_amount e,
      nv_override_label = ev_override_label e, nv_override_date = ev_override_date e,
      nv_override_amount = ev_override_amount e, nv_override_account_id = ev_override_account_id e,
      nv_has_account_override = ev_has_account_override e, nv_actual_date = ev_actual_date e,
      nv_actual_amount = ev_actual_amount e, nv_effective_date = effective_date e,
      nv_effective_amount = effective_amount e, nv_status = ev_status e,
      nv_is_excluded = ev_is_excluded e, nv_source_id = ev_source_id e,
      nv_source_type = ev_source_type e, nv_metadata = ev_metadata e, nv_notes = ev_notes e\<rparr>"

definition list_events :: "ext \<Rightarrow> iso_date \<Rightarrow> iso_date \<Rightarrow> int option \<Rightarrow> bool \<Rightarrow> event_view list fin_op" where
  "list_events X from through stream_id include_excluded =
     (if through < from then raise (Storage ''event range ends before it starts'')
      else gets (\<lambda>db. map event_from_row
        (sort_key (\<lambda>e. (effective_date e, ev_id e))
          (filter (\<lambda>e. iso_to_string (dates X) from \<le> effective_date e \<and>
               effective_date e \<le> iso_to_string (dates X) through \<and>
               (stream_id = None \<or> stream_id = Some (ev_stream_id e)) \<and>
               (include_excluded \<or> \<not> ev_is_excluded e)) (events db)))))"


subsection \<open>Lemmas\<close>

lemma keyed_event:
  assumes "db_ids db"
  shows "count_rows (\<lambda>e. ev_id e = i \<and> Q e) (events db) = 1 \<longleftrightarrow> (\<exists>e \<in> set (events db). ev_id e = i \<and> Q e)"
proof -
  have "ids_ok ev_id (events db) (event_seq db)" using assms by (simp add: db_ids_def)
  then show ?thesis by (rule keyed_count)
qed

lemma reject_Inl: "\<exists>err. immutable_or_missing_event i what db = (Inl err, db)"
  by (simp add: immutable_or_missing_event_def bnd_def gets_def raise_def split: option.splits)

lemma reject_Conflict:
  assumes "e \<in> set (events db)" "ev_id e = i"
  shows "\<exists>m. immutable_or_missing_event i what db = (Inl (Conflict m), db)"
proof -
  have "find (\<lambda>e. ev_id e = i) (events db) \<noteq> None" using assms unfolding find_None_iff by blast
  then show ?thesis by (auto simp: immutable_or_missing_event_def bnd_def gets_def raise_def)
qed

lemma one_or_reject_Inr: "one_or_reject n i what db = (Inr u, t) \<longleftrightarrow> n = 1 \<and> t = db"
  using reject_Inl [of i what db] by (auto simp: one_or_reject_def ok_def)

lemma reads_reject: "reads (one_or_reject n i what)"
  unfolding one_or_reject_def immutable_or_missing_event_def
  by (auto simp: reads_def bnd_def gets_def raise_def ok_def split: option.splits)

lemma reads_reject': "reads (immutable_or_missing_event i what)"
  unfolding immutable_or_missing_event_def
  by (auto simp: reads_def bnd_def gets_def raise_def split: option.splits)

lemma keeps_case_patch [keeps_rules]:
  "keeps I a \<Longrightarrow> keeps I b \<Longrightarrow> (\<And>x. keeps I (c x)) \<Longrightarrow>
   keeps I (case p of Keep \<Rightarrow> a | Clear \<Rightarrow> b | SetTo x \<Rightarrow> c x)"
  by (cases p) auto

lemma keeps_events:
  "keeps (db_valid X) (create_manual_event X d)" "keeps (db_valid X) (patch_event X i p)"
  "keeps (db_valid X) (remove_event X i)" "keeps (db_valid X) (restore_scheduled_event X i)"
  "keeps (db_valid X) (reconcile_event X i ad aa)"
  unfolding create_manual_event_def patch_event_def remove_event_def restore_scheduled_event_def
    reconcile_event_def require_account_opt_def
  by (intro keeps_rules reads_keeps [OF reads_reject] reads_keeps [OF reads_reject'])+

lemma patch_event_Inr:
  assumes "patch_event X i p db = (Inr u, db')"
  shows "count_rows (\<lambda>e. ev_id e = i \<and> editable e) (events db) = 1"
    and "db' = db\<lparr>events := update_rows (\<lambda>e. ev_id e = i \<and> editable e) (apply_patch X p) (events db)\<rparr>"
    and "db_valid X db'"
    and "ep_amount p = SetTo a \<Longrightarrow> validate_positive_magnitude ''event amount override'' a = Inr ()"
    and "ep_label p = SetTo l \<Longrightarrow> validate_nonempty ''event label override'' l = Inr ()"
    and "ep_account_id p = SetTo k \<Longrightarrow> \<exists>r \<in> set (accounts db). ac_id r = k \<and> ac_is_active r"
  using assms
  by (auto simp: patch_event_def op_Inr statement_Inr one_or_reject_Inr require_active_account_Inr
      split: patch.splits)

lemma apply_patch_overrides:
  "ev_override_label (apply_patch X p e) =
     (case ep_label p of Keep \<Rightarrow> ev_override_label e | Clear \<Rightarrow> None | SetTo l \<Rightarrow> Some (trim l))"
  "ev_has_label_override (apply_patch X p e) \<longleftrightarrow> ep_label p \<noteq> Keep \<or> ev_has_label_override e"
  "ev_override_date (apply_patch X p e) =
     (case ep_expected_date p of Keep \<Rightarrow> ev_override_date e | Clear \<Rightarrow> None
      | SetTo j \<Rightarrow> Some (iso_to_string (dates X) j))"
  "ev_override_amount (apply_patch X p e) =
     (case ep_amount p of Keep \<Rightarrow> ev_override_amount e | Clear \<Rightarrow> None | SetTo a \<Rightarrow> Some a)"
  "ev_override_account_id (apply_patch X p e) =
     (case ep_account_id p of Keep \<Rightarrow> ev_override_account_id e | Clear \<Rightarrow> None | SetTo k \<Rightarrow> Some k)"
  "ev_has_account_override (apply_patch X p e) =
     (case ep_account_id p of Keep \<Rightarrow> ev_has_account_override e | Clear \<Rightarrow> False | SetTo k \<Rightarrow> True)"
  unfolding apply_patch_def as_parts_def as_copy_parts_def patch_text_parts_def Let_def split_beta
  by (simp_all split: patch.split)

lemma apply_patch_base:
  "ev_id (apply_patch X p e) = ev_id e" "ev_stream_id (apply_patch X p e) = ev_stream_id e"
  "ev_label (apply_patch X p e) = ev_label e" "ev_expected_date (apply_patch X p e) = ev_expected_date e"
  "ev_amount (apply_patch X p e) = ev_amount e" "ev_account_id (apply_patch X p e) = ev_account_id e"
  "ev_status (apply_patch X p e) = ev_status e" "ev_is_excluded (apply_patch X p e) = ev_is_excluded e"
  "ev_exclusion_reason (apply_patch X p e) = ev_exclusion_reason e"
  "ev_source_id (apply_patch X p e) = ev_source_id e" "ev_source_type (apply_patch X p e) = ev_source_type e"
  "ev_actual_date (apply_patch X p e) = ev_actual_date e"
  "ev_actual_amount (apply_patch X p e) = ev_actual_amount e"
  "ev_metadata (apply_patch X p e) = ev_metadata e"
  by (simp_all add: apply_patch_def Let_def split_beta)

lemma apply_patch_stamp: "ev_updated_at (apply_patch X p e) = now_text X"
  by (simp add: apply_patch_def Let_def split_beta)

lemma apply_patch_notes:
  "ev_notes (apply_patch X p e) = (case ep_notes p of Keep \<Rightarrow> ev_notes e | Clear \<Rightarrow> None | SetTo n \<Rightarrow> Some (trim n))"
  by (simp add: apply_patch_def as_parts_def patch_text_parts_def Let_def split_beta split: patch.split)

text \<open>What a patched event shows. An actual date or amount takes precedence over an override.\<close>

lemma apply_patch_effective:
  "ev_actual_amount e = None \<Longrightarrow> effective_amount (apply_patch X p e) =
      (case ep_amount p of Keep \<Rightarrow> effective_amount e | Clear \<Rightarrow> ev_amount e | SetTo a \<Rightarrow> a)"
  "ev_actual_date e = None \<Longrightarrow> effective_date (apply_patch X p e) =
      (case ep_expected_date p of Keep \<Rightarrow> effective_date e | Clear \<Rightarrow> ev_expected_date e
       | SetTo j \<Rightarrow> iso_to_string (dates X) j)"
  "effective_account (apply_patch X p e) =
      (case ep_account_id p of Keep \<Rightarrow> effective_account e | Clear \<Rightarrow> ev_account_id e | SetTo k \<Rightarrow> Some k)"
  "effective_label (apply_patch X p e) =
      (case ep_label p of Keep \<Rightarrow> effective_label e | Clear \<Rightarrow> None | SetTo l \<Rightarrow> Some (trim l))"
  unfolding effective_amount_def effective_date_def effective_account_def effective_label_def
    apply_patch_base apply_patch_overrides coalesce_def
  by (simp_all split: patch.split)

text \<open>Clearing a label override hides the generated label too.\<close>

lemma cleared_label:
  "ep_label p = Clear \<Longrightarrow> ev_label e = Some l \<Longrightarrow> effective_label (apply_patch X p e) = None \<and> effective_label e \<in> {Some l, ev_override_label e}"
  by (simp add: apply_patch_effective) (simp add: effective_label_def)

definition same_base :: "event_row \<Rightarrow> event_row \<Rightarrow> bool" where
  "same_base e e' \<longleftrightarrow> ev_id e' = ev_id e \<and> ev_stream_id e' = ev_stream_id e \<and> ev_label e' = ev_label e \<and>
     ev_expected_date e' = ev_expected_date e \<and> ev_amount e' = ev_amount e \<and>
     ev_account_id e' = ev_account_id e \<and> ev_status e' = ev_status e \<and>
     ev_is_excluded e' = ev_is_excluded e \<and> ev_exclusion_reason e' = ev_exclusion_reason e \<and>
     ev_source_id e' = ev_source_id e \<and> ev_source_type e' = ev_source_type e \<and>
     ev_actual_date e' = ev_actual_date e \<and> ev_actual_amount e' = ev_actual_amount e \<and>
     ev_metadata e' = ev_metadata e"

lemma update_event_row:
  assumes "db_ids db" "e \<in> set (events db)" "Q e"
  shows "update_rows (\<lambda>x. ev_id x = ev_id e \<and> Q x) f (events db) =
    map (\<lambda>x. if x = e then f e else x) (events db)"
proof -
  have "distinct (map ev_id (events db))" using assms(1) by (simp add: db_ids_def ids_ok_def)
  then have "(ev_id x = ev_id e \<and> Q x) = (x = e)" if "x \<in> set (events db)" for x
    using distinct_key_eq [OF _ that assms(2)] assms(3) by blast
  then show ?thesis by (simp add: update_rows_def cong: map_cong)
qed

subsection \<open>Properties\<close>

text \<open>C25: A successful patch changes exactly one event, open and user-editable, and only its override columns, its
  notes and its stamp: every generated value stays. A kept field shows what it showed, a set one the new value, and a
  cleared date, amount or account the generated value again (a date or amount only while no actual one is recorded,
  which takes precedence). A cleared label is not part of the claim: the code leaves its override flag set, so that the
  event then shows no label (\<open>cleared_label\<close>), against the comment of \<open>patch_event\<close>.\<close>

theorem patch_event_effect:
  assumes "db_ids db" "patch_event X i p db = (Inr (), db')"
  shows "\<exists>e e'. e \<in> set (events db) \<and> ev_id e = i \<and> editable e \<and> same_base e e' \<and> ev_updated_at e' = now_text X \<and>
    db' = db\<lparr>events := map (\<lambda>x. if x = e then e' else x) (events db)\<rparr> \<and>
    (ep_label p \<noteq> Clear \<longrightarrow> effective_label e' = (case ep_label p of SetTo l \<Rightarrow> Some (trim l) | _ \<Rightarrow> effective_label e)) \<and>
    effective_account e' = (case ep_account_id p of Keep \<Rightarrow> effective_account e
      | Clear \<Rightarrow> ev_account_id e | SetTo k \<Rightarrow> Some k) \<and>
    ev_notes e' = (case ep_notes p of Keep \<Rightarrow> ev_notes e | Clear \<Rightarrow> None | SetTo n \<Rightarrow> Some (trim n)) \<and>
    (ev_actual_amount e = None \<longrightarrow> effective_amount e' = (case ep_amount p of Keep \<Rightarrow> effective_amount e
      | Clear \<Rightarrow> ev_amount e | SetTo a \<Rightarrow> a)) \<and>
    (ev_actual_date e = None \<longrightarrow> effective_date e' = (case ep_expected_date p of Keep \<Rightarrow> effective_date e
      | Clear \<Rightarrow> ev_expected_date e | SetTo j \<Rightarrow> iso_to_string (dates X) j))"
proof -
  note s = patch_event_Inr [OF assms(2)]
  obtain e where e: "e \<in> set (events db)" "ev_id e = i" "editable e"
    using s(1) keyed_event [OF assms(1), of i editable] by auto
  have m: "db' = db\<lparr>events := map (\<lambda>x. if x = e then apply_patch X p e else x) (events db)\<rparr>"
    using s(2) update_event_row [OF assms(1) e(1), of editable "apply_patch X p"] e by simp
  have b: "same_base e (apply_patch X p e)" by (simp add: same_base_def apply_patch_base)
  show ?thesis
    by (intro exI conjI impI, rule e, rule e, rule e, rule b, rule apply_patch_stamp, rule m)
      (use apply_patch_effective [where e = e and X = X and p = p] apply_patch_notes [of X p e] in \<open>auto split: patch.splits\<close>)
qed

text \<open>Received events are final.\<close>

definition received_kept :: "fin_db \<Rightarrow> fin_db \<Rightarrow> bool" where
  "received_kept db db' \<longleftrightarrow>
     (\<forall>e \<in> set (events db). ev_status e = ''received'' \<longrightarrow> e \<in> set (events db'))"

interpretation rec: evolution received_kept
  by unfold_locales (simp_all add: received_kept_def)

lemma rec_write:
  "(\<And>s. received_kept s (snd (f s))) \<Longrightarrow> evolves received_kept (fin_write X c f)"
  unfolding fin_write_def by (rule rec.evolves_write)

lemma rec_update_events:
  "(\<And>e. P e \<Longrightarrow> ev_status e \<noteq> ''received'') \<Longrightarrow> evolves received_kept (update_events X c P f)"
  unfolding update_events_def
  by (rule rec_write) (auto simp: received_kept_def intro: update_rows_keep)

lemma rec_delete_events:
  "(\<And>e. P e \<Longrightarrow> ev_status e \<noteq> ''received'') \<Longrightarrow> evolves received_kept (delete_events X c P)"
  unfolding delete_events_def by (rule rec_write) (auto simp: received_kept_def)

lemma rec_reads: "reads m \<Longrightarrow> evolves received_kept m"
  by (rule rec.evolves_reads)

lemma rec_case_patch:
  "evolves received_kept a \<Longrightarrow> evolves received_kept b \<Longrightarrow> (\<And>x. evolves received_kept (c x)) \<Longrightarrow>
   evolves received_kept (case p of Keep \<Rightarrow> a | Clear \<Rightarrow> b | SetTo x \<Rightarrow> c x)"
  by (cases p) auto

lemma is_open_not_received: "is_open e \<Longrightarrow> ev_status e \<noteq> ''received''"
  by (auto simp: is_open_def)

lemmas rec_rules = rec.evolves_rules rec_update_events rec_delete_events rec_case_patch
  rec_reads [OF reads_reject] rec_reads [OF reads_reject'] rec_reads [OF reads_require_active_account]
  rec_reads [OF reads_require_active_stream]

lemma rec_patch: "evolves received_kept (patch_event X i p)"
  unfolding patch_event_def by (intro rec_rules) (auto simp: editable_def dest: is_open_not_received)

lemma rec_remove: "evolves received_kept (remove_event X i)"
  unfolding remove_event_def by (intro rec_rules) (auto dest: is_open_not_received)

lemma rec_restore: "evolves received_kept (restore_scheduled_event X i)"
  unfolding restore_scheduled_event_def by (intro rec_rules) (auto dest: is_open_not_received)

lemma rec_reconcile: "evolves received_kept (reconcile_event X i ad aa)"
  unfolding reconcile_event_def by (intro rec_rules) (auto simp: editable_def dest: is_open_not_received)

text \<open>C20: A received event is final. No patch, removal, restoration or reconciliation of any event, and
  no save, refresh or deletion of any stream, changes or drops it, whatever the outcome; and removing,
  restoring or (with a valid amount) reconciling it is answered by a conflict.\<close>

theorem received_is_final:
  assumes "db_ids db" "e \<in> set (events db)" "ev_status e = ''received''"
  shows "e \<in> set (events (snd (patch_event X i p db))) \<and> e \<in> set (events (snd (remove_event X i db))) \<and>
    e \<in> set (events (snd (restore_scheduled_event X i db))) \<and>
    e \<in> set (events (snd (reconcile_event X i ad aa db))) \<and>
    e \<in> set (events (snd (save_stream X d w db))) \<and>
    e \<in> set (events (snd (refresh_stream_schedule_events X s w db))) \<and>
    e \<in> set (events (snd (delete_stream X s db))) \<and>
    (db_valid X db \<longrightarrow>
      (\<exists>m. fst (remove_event X (ev_id e) db) = Inl (Conflict m)) \<and>
      (\<exists>m. fst (restore_scheduled_event X (ev_id e) db) = Inl (Conflict m)) \<and>
      (validate_positive_magnitude ''actual event amount'' aa = Inr () \<longrightarrow>
        (\<exists>m. fst (reconcile_event X (ev_id e) ad aa db) = Inl (Conflict m))))"
proof -
  have k: "e \<in> set (events (snd (m db)))" if "evolves received_kept m" for m :: "'x fin_op"
    using that assms(2,3) unfolding evolves_def received_kept_def by blast
  have f: "e \<in> set (events (snd (m db)))" if "evolves events_kept m" for m :: "'x fin_op"
    using that assms(2,3) unfolding evolves_def events_kept_def rows_related_def event_kept_def by blast
  have none: "count_rows (\<lambda>x. ev_id x = ev_id e \<and> Q x) (events db) = 0"
    "update_rows (\<lambda>x. ev_id x = ev_id e \<and> Q x) g (events db) = events db"
    "filter (\<lambda>x. ev_id x = ev_id e \<longrightarrow> \<not> Q x) (events db) = events db"
    if "\<And>x. Q x \<Longrightarrow> is_open x" for Q g
  proof -
    have "distinct (map ev_id (events db))" using assms(1) by (simp add: db_ids_def ids_ok_def)
    then have no: "\<not> (ev_id x = ev_id e \<and> Q x)" if "x \<in> set (events db)" for x
      using distinct_key_eq [OF _ that assms(2)] \<open>\<And>x. Q x \<Longrightarrow> is_open x\<close> is_open_not_received assms(3) by blast
    show "count_rows (\<lambda>x. ev_id x = ev_id e \<and> Q x) (events db) = 0" using no by (simp add: count_rows_0)
    show "update_rows (\<lambda>x. ev_id x = ev_id e \<and> Q x) g (events db) = events db"
      using no by (rule update_rows_none)
    show "filter (\<lambda>x. ev_id x = ev_id e \<longrightarrow> \<not> Q x) (events db) = events db"
      using no by (simp add: filter_id_conv)
  qed
  have rej: "\<exists>m. immutable_or_missing_event (ev_id e) what db = (Inl (Conflict m), db)" for what
    by (rule reject_Conflict [OF assms(2)]) simp
  have "(\<exists>m. fst (remove_event X (ev_id e) db) = Inl (Conflict m)) \<and>
      (\<exists>m. fst (restore_scheduled_event X (ev_id e) db) = Inl (Conflict m)) \<and>
      (validate_positive_magnitude ''actual event amount'' aa = Inr () \<longrightarrow>
        (\<exists>m. fst (reconcile_event X (ev_id e) ad aa db) = Inl (Conflict m)))" if v: "db_valid X db"
  proof -
    have u: "update_events X c (\<lambda>x. ev_id x = ev_id e \<and> Q x) g db = (Inr 0, db)" if "\<And>x. Q x \<Longrightarrow> is_open x" for c Q g
      using none [OF that] v by (simp add: statement_Inr)
    have d: "delete_events X c (\<lambda>x. ev_id x = ev_id e \<and> Q x) db = (Inr 0, db)" if "\<And>x. Q x \<Longrightarrow> is_open x" for c Q
      using none [OF that] v by (simp add: statement_Inr)
    have 1: "delete_events X ''delete manual event'' (\<lambda>x. ev_id x = ev_id e \<and> ev_source_type x = Some ''manual'' \<and>
        is_open x) db = (Inr 0, db)" by (rule d) simp
    have 2: "update_events X ''exclude generated event'' (\<lambda>x. ev_id x = ev_id e \<and>
        ev_source_type x = Some ''stream_schedule'' \<and> is_open x) (exclude_by_user X) db = (Inr 0, db)"
      by (rule u) simp
    have 3: "update_events X ''restore generated event'' (\<lambda>x. ev_id x = ev_id e \<and>
        ev_source_type x = Some ''stream_schedule'' \<and> is_open x \<and> ev_exclusion_reason x = Some ''user'')
        (clear_exclusion X) db = (Inr 0, db)" by (rule u) simp
    have 4: "update_events X ''reconcile expected event'' (\<lambda>x. ev_id x = ev_id e \<and> \<not> ev_is_excluded x \<and>
        editable x) (receive X ad aa) db = (Inr 0, db)" by (rule u) (simp add: editable_def)
    show ?thesis
      unfolding remove_event_def restore_scheduled_event_def reconcile_event_def one_or_reject_def
        thn_def bnd_def lift_res_def transaction_def ok_def
      using rej [of "''remove''"] rej [of "''restore''"] rej [of "''reconcile''"] by (auto simp: 1 2 3 4)
  qed
  then show ?thesis
    using k [OF rec_patch] k [OF rec_remove] k [OF rec_restore] k [OF rec_reconcile]
      f [OF kept_save_stream] f [OF kept_refresh_stream] f [OF kept_delete_stream] by blast
qed


lemma remove_scheduled:
  assumes "db_ids db" "db_valid X db" "e \<in> set (events db)" "ev_source_type e = Some ''stream_schedule''" "is_open e"
    and "db_valid X (db\<lparr>events := map (\<lambda>x. if x = e then exclude_by_user X e else x) (events db)\<rparr>)"
  shows "remove_event X (ev_id e) db =
    (Inr (), db\<lparr>events := map (\<lambda>x. if x = e then exclude_by_user X e else x) (events db)\<rparr>)"
proof -
  have dis: "distinct (map ev_id (events db))" using assms(1) by (simp add: db_ids_def ids_ok_def)
  let ?M = "\<lambda>x. ev_id x = ev_id e \<and> ev_source_type x = Some ''manual'' \<and> is_open x"
  let ?S = "\<lambda>x. ev_id x = ev_id e \<and> ev_source_type x = Some ''stream_schedule'' \<and> is_open x"
  have no: "\<not> ?M x" if "x \<in> set (events db)" for x
    using distinct_key_eq [OF dis that assms(3)] assms(4) by auto
  have c: "count_rows ?M (events db) = 0" using no by (simp add: count_rows_0)
  have fl: "filter (\<lambda>x. \<not> ?M x) (events db) = events db" using no by (simp add: filter_id_conv)
  have u: "update_rows ?S (exclude_by_user X) (events db) = map (\<lambda>x. if x = e then exclude_by_user X e else x) (events db)"
    by (rule update_event_row [OF assms(1,3)]) (simp add: assms)
  have n: "count_rows ?S (events db) = 1"
    by (subst keyed_event [OF assms(1)]) (intro bexI [OF _ assms(3)], simp add: assms)
  have 1: "delete_events X ''delete manual event'' ?M db = (Inr 0, db)"
    unfolding statement_Inr using c fl assms(2) by simp
  have 2: "update_events X ''exclude generated event'' ?S (exclude_by_user X) db =
      (Inr 1, db\<lparr>events := map (\<lambda>x. if x = e then exclude_by_user X e else x) (events db)\<rparr>)"
    unfolding statement_Inr using n u assms(6) by simp
  show ?thesis by (simp add: remove_event_def bnd_def transaction_def ok_def 1 2)
qed

lemma db_ids_events:
  assumes "db_ids db" "map ev_id es = map ev_id (events db)"
  shows "db_ids (db\<lparr>events := es\<rparr>)"
proof -
  have "ev_id ` set es = ev_id ` set (events db)" using assms(2) by (metis list.set_map)
  then have "ids_ok ev_id es (event_seq db)"
    using assms unfolding db_ids_def ids_ok_def by (metis (mono_tags, lifting) image_iff)
  with assms(1) show ?thesis by (simp add: db_ids_def)
qed

lemma replaced_event_valid:
  assumes "db_valid X db" "e \<in> set (events db)" "event_key e' = event_key e"
    "\<And>as ss. event_check X as ss e \<Longrightarrow> event_check X as ss e'"
  shows "db_valid X (db\<lparr>events := map (\<lambda>x. if x = e then e' else x) (events db)\<rparr>)"
proof -
  have "List.map_filter event_key (map (\<lambda>x. if x = e then e' else x) es) = List.map_filter event_key es" for es
    using assms(3) by (induction es) (simp_all add: map_filter_simps split: option.split)
  then have "events_unique (map (\<lambda>x. if x = e then e' else x) (events db)) = events_unique (events db)"
    unfolding events_unique_def by simp
  with assms show ?thesis by (auto simp: db_valid_def Let_def list_all_iff)
qed

lemma exclusion_check:
  "event_check X as ss e \<Longrightarrow> is_open e \<Longrightarrow> event_check X as ss (exclude_by_user X e)"
  "event_check X as ss e \<Longrightarrow> event_check X as ss (clear_exclusion X e)"
  by (auto simp: event_check_def exclude_by_user_def clear_exclusion_def is_open_def)

text \<open>C26: Removing a generated event and restoring it is the identity on its data. An open generated event that is not
  excluded can be removed: it is then excluded by the user and nothing else changes. After that its restoration always
  succeeds, and the events are what they were before, up to the time of the event's last update.\<close>

theorem remove_restore_roundtrip:
  assumes "db_valid X db" "db_ids db" "e \<in> set (events db)" "ev_source_type e = Some ''stream_schedule''" "is_open e"
    and "\<not> ev_is_excluded e"
  shows "\<exists>gone. remove_event X (ev_id e) db = (Inr (), gone) \<and>
    gone = db\<lparr>events := map (\<lambda>x. if x = e
      then e\<lparr>ev_is_excluded := True, ev_exclusion_reason := Some ''user'', ev_updated_at := now_text X\<rparr> else x) (events db)\<rparr> \<and>
    restore_scheduled_event X (ev_id e) gone =
      (Inr (), db\<lparr>events := map (\<lambda>x. if x = e then e\<lparr>ev_updated_at := now_text X\<rparr> else x) (events db)\<rparr>)"
proof -
  let ?e = "exclude_by_user X e"
  let ?on = "\<lambda>f. db\<lparr>events := map (\<lambda>x. if x = e then f else x) (events db)\<rparr>"
  have reason: "ev_exclusion_reason e = None"
    using assms(1,3,6) by (auto simp: db_valid_def Let_def list_all_iff event_check_def)
  have dis: "distinct (map ev_id (events db))" using assms(2) by (simp add: db_ids_def ids_ok_def)
  have k: "event_key ?e = event_key e" "event_key (clear_exclusion X ?e) = event_key e" "ev_id ?e = ev_id e"
    by (simp_all add: event_key_def exclude_by_user_def clear_exclusion_def split: option.split)
  have v1: "db_valid X (?on ?e)"
    by (rule replaced_event_valid [OF assms(1,3) k(1)]) (rule exclusion_check, assumption, rule assms)
  have v2: "db_valid X (?on (clear_exclusion X ?e))"
    by (rule replaced_event_valid [OF assms(1,3) k(2)]) (intro exclusion_check assms)
  have rm: "remove_event X (ev_id e) db = (Inr (), ?on ?e)"
    by (rule remove_scheduled [OF assms(2,1,3,4,5) v1])
  have fresh: "x \<noteq> ?e" if "x \<in> set (events db)" "x \<noteq> e" for x
    using that k(3) distinct_key_eq [OF dis that(1) assms(3)] by auto
  have ids1: "db_ids (?on ?e)" by (rule db_ids_events [OF assms(2)]) (simp add: k(3))
  have in1: "?e \<in> set (events (?on ?e))" using assms(3) by force
  have u: "update_rows (\<lambda>x. ev_id x = ev_id e \<and> ev_source_type x = Some ''stream_schedule'' \<and> is_open x \<and>
      ev_exclusion_reason x = Some ''user'') (clear_exclusion X) (events (?on ?e)) = events (?on (clear_exclusion X ?e))"
    using update_event_row [OF ids1 in1, of "\<lambda>x. ev_source_type x = Some ''stream_schedule'' \<and> is_open x \<and>
        ev_exclusion_reason x = Some ''user''" "clear_exclusion X"] assms(4,5) fresh
    by (auto simp: exclude_by_user_def is_open_def)
  have c: "count_rows (\<lambda>x. ev_id x = ev_id e \<and> ev_source_type x = Some ''stream_schedule'' \<and> is_open x \<and>
      ev_exclusion_reason x = Some ''user'') (events (?on ?e)) = 1"
    using assms(4,5) in1 by (subst keyed_event [OF ids1]) (intro bexI [OF _ in1], simp add: exclude_by_user_def is_open_def)
  have rs: "restore_scheduled_event X (ev_id e) (?on ?e) = (Inr (), ?on (clear_exclusion X ?e))"
    unfolding restore_scheduled_event_def bnd_Inr one_or_reject_Inr statement_Inr using c u v2 by auto
  have "clear_exclusion X ?e = e\<lparr>ev_updated_at := now_text X\<rparr>"
    using assms(6) reason by (simp add: clear_exclusion_def exclude_by_user_def)
  with rm rs show ?thesis by (auto simp: exclude_by_user_def)
qed

lemma slot_event_id: "ev_id slot_event = 2"
  by (simp add: slot_event_def)

theorem remove_restore_roundtrip_witness:
  "\<exists>gone. remove_event sample_ext 2 sample_db = (Inr (), gone) \<and> restore_scheduled_event sample_ext 2 gone =
     (Inr (), sample_db\<lparr>events := [manual_event, slot_event\<lparr>ev_updated_at := now_text sample_ext\<rparr>]\<rparr>)"
proof -
  have h: "slot_event \<in> set (events sample_db)" "ev_source_type slot_event = Some ''stream_schedule''"
    "is_open slot_event" "\<not> ev_is_excluded slot_event"
    by (simp_all add: sample_db_def manual_event_def slot_event_def is_open_def)
  have ev: "events sample_db = [manual_event, slot_event]" "manual_event \<noteq> slot_event"
    by (simp_all add: sample_db_def) (simp add: manual_event_def slot_event_def)
  show ?thesis
    using remove_restore_roundtrip [OF sample_valid sample_ids h] ev by (auto simp: slot_event_id)
qed

definition paid_event :: event_row where
  "paid_event = manual_event\<lparr>ev_status := ''received'', ev_actual_date := Some ''2026-01-10'',
     ev_actual_amount := Some (f64_small 25)\<rparr>"

theorem received_is_final_witness:
  "\<exists>m. fst (remove_event sample_ext (ev_id paid_event) (sample_db\<lparr>events := [paid_event, slot_event]\<rparr>)) =
     Inl (Conflict m)"
proof -
  have v: "db_valid sample_ext (sample_db\<lparr>events := [paid_event, slot_event]\<rparr>)"
    by (simp add: valid_defs sample_db_def sample_rows paid_event_def)
  have i: "db_ids (sample_db\<lparr>events := [paid_event, slot_event]\<rparr>)"
    by (rule db_ids_events [OF sample_ids]) (simp add: sample_db_def paid_event_def manual_event_def slot_event_def)
  have m: "paid_event \<in> set (events (sample_db\<lparr>events := [paid_event, slot_event]\<rparr>))" by simp
  have r: "ev_status paid_event = ''received''" by (simp add: paid_event_def)
  show ?thesis using received_is_final [OF i m r] v by blast
qed

text \<open>A successful reconciliation takes exactly one visible open event, stores the actual date and
  amount and makes it received; what was expected, the overrides and every other event are kept, and
  the event's effective date and amount are now the actual ones.\<close>

theorem reconcile_event_effect:
  assumes "db_ids db" "reconcile_event X i actual_date actual_amount db = (Inr (), db')"
  shows "\<exists>e \<in> set (events db). ev_id e = i \<and> is_open e \<and> \<not> ev_is_excluded e \<and>
    events db' = map (\<lambda>x. if x = e then receive X actual_date actual_amount e else x) (events db) \<and>
    ev_status (receive X actual_date actual_amount e) = ''received'' \<and>
    ev_expected_date (receive X actual_date actual_amount e) = ev_expected_date e \<and>
    ev_amount (receive X actual_date actual_amount e) = ev_amount e \<and>
    effective_date (receive X actual_date actual_amount e) = iso_to_string (dates X) actual_date \<and>
    effective_amount (receive X actual_date actual_amount e) = actual_amount"
proof -
  let ?P = "\<lambda>e. ev_id e = i \<and> \<not> ev_is_excluded e \<and> editable e"
  have n: "count_rows ?P (events db) = 1"
    and db': "events db' = update_rows ?P (receive X actual_date actual_amount) (events db)"
    using assms(2) by (auto simp: reconcile_event_def op_Inr statement_Inr one_or_reject_Inr)
  obtain e where e: "e \<in> set (events db)" "ev_id e = i" "\<not> ev_is_excluded e" "editable e"
    using n keyed_event [OF assms(1), of i "\<lambda>e. \<not> ev_is_excluded e \<and> editable e"] by auto
  have "events db' = map (\<lambda>x. if x = e then receive X actual_date actual_amount e else x) (events db)"
    using update_event_row [OF assms(1) e(1), of "\<lambda>e. \<not> ev_is_excluded e \<and> editable e"] e by (simp add: db')
  with e show ?thesis
    by (intro bexI [OF _ e(1)]) (simp add: receive_def effective_date_def effective_amount_def coalesce_def editable_def)
qed

theorem reconcile_event_effect_witness:
  "\<exists>db'. reconcile_event sample_ext 1 739648 (f64_small 20) sample_db = (Inr (), db') \<and>
     (\<exists>e \<in> set (events db'). ev_status e = ''received'')"
proof -
  let ?db' = "sample_db\<lparr>events := [receive sample_ext 739648 (f64_small 20) manual_event, slot_event]\<rparr>"
  have g: "date_glob ''2026-02-01''" by code_simp
  have v: "db_valid sample_ext ?db'"
    using g by (simp add: valid_defs sample_db_def sample_rows receive_def sample_ext_def sample_texts)
  have p: "validate_positive_magnitude ''actual event amount'' (f64_small 20) = Inr ()" by code_simp
  have ev: "events sample_db = [manual_event, slot_event]" by (simp add: sample_db_def)
  have f: "ev_id manual_event = 1" "ev_id slot_event = 2" "editable manual_event" "\<not> ev_is_excluded manual_event"
    by (simp_all add: manual_event_def slot_event_def editable_def is_open_def)
  have r: "reconcile_event sample_ext 1 739648 (f64_small 20) sample_db = (Inr (), ?db')"
    by (simp add: reconcile_event_def thn_Inr bnd_Inr lift_res_Inr one_or_reject_Inr statement_Inr p ev f v)
  from reconcile_event_effect [OF sample_ids r] r show ?thesis by auto
qed

text \<open>Listing events returns, in the order of effective date and id, exactly the events whose
  effective date lies in the range as a calendar date (the comparison is made on the stored text), of
  the asked stream, leaving out excluded ones unless they are asked for; it changes nothing.\<close>

theorem list_events_spec:
  assumes "time_date (dates X)" "storable (dates X) from" "storable (dates X) through" "from \<le> through"
  shows "\<exists>vs. list_events X from through stream_id include_excluded db = (Inr vs, db) \<and>
    sorted (map (\<lambda>v. (nv_effective_date v, nv_id v)) vs) \<and>
    set vs = event_from_row ` {e \<in> set (events db).
      iso_to_string (dates X) from \<le> effective_date e \<and> effective_date e \<le> iso_to_string (dates X) through \<and>
      (stream_id = None \<or> stream_id = Some (ev_stream_id e)) \<and> (include_excluded \<or> \<not> ev_is_excluded e)} \<and>
    (\<forall>e \<in> set (events db). \<forall>j. storable (dates X) j \<and> effective_date e = iso_to_string (dates X) j \<longrightarrow>
      (iso_to_string (dates X) from \<le> effective_date e \<and> effective_date e \<le> iso_to_string (dates X) through \<longleftrightarrow>
       from \<le> j \<and> j \<le> through))"
proof -
  let ?P = "\<lambda>e. iso_to_string (dates X) from \<le> effective_date e \<and> effective_date e \<le> iso_to_string (dates X) through \<and>
      (stream_id = None \<or> stream_id = Some (ev_stream_id e)) \<and> (include_excluded \<or> \<not> ev_is_excluded e)"
  let ?k = "\<lambda>e. (effective_date e, ev_id e)"
  let ?vs = "map event_from_row (sort_key ?k (filter ?P (events db)))"
  have "list_events X from through stream_id include_excluded db = (Inr ?vs, db)"
    using assms(4) by (simp add: list_events_def gets_def)
  moreover have "sorted (map (\<lambda>v. (nv_effective_date v, nv_id v)) ?vs)"
    using sorted_sort_key [of ?k "filter ?P (events db)"] by (simp add: comp_def event_from_row_def)
  moreover have "set ?vs = event_from_row ` {e \<in> set (events db). ?P e}" by simp
  moreover have "\<forall>e \<in> set (events db). \<forall>j. storable (dates X) j \<and> effective_date e = iso_to_string (dates X) j \<longrightarrow>
      (iso_to_string (dates X) from \<le> effective_date e \<and> effective_date e \<le> iso_to_string (dates X) through \<longleftrightarrow>
       from \<le> j \<and> j \<le> through)"
    using time_date.to_string_le [OF assms(1)] assms(2,3) by simp
  ultimately show ?thesis by blast
qed

theorem list_events_spec_witness:
  "\<exists>vs. list_events sample_ext 739617 739648 None False sample_db = (Inr vs, sample_db) \<and>
    sorted (map (\<lambda>v. (nv_effective_date v, nv_id v)) vs)"
proof -
  have "storable (dates sample_ext) 739617" "storable (dates sample_ext) 739648"
    by (simp_all add: storable_def sample_range sample_ext_def)
  from list_events_spec [OF sample_dates this, of None False sample_db] show ?thesis by force
qed

text \<open>A manual event is created once: the returned id is new, the stored row is the trimmed draft with
  the source id \<open>manual:<id>\<close>, is open and visible, shows the draft's date, amount and account, and no
  existing event changes.\<close>

theorem create_manual_event_effect:
  assumes "db_ids db" "create_manual_event X d db = (Inr i, db')"
  shows "i \<notin> ev_id ` set (events db) \<and>
    events db' = events db @ [(new_manual_event X d i)\<lparr>ev_source_id := Some (''manual:'' @ show_int i)\<rparr>] \<and>
    (\<exists>s \<in> set (streams db). st_id s = ed_stream_id d \<and> st_is_active s) \<and>
    is_open ((new_manual_event X d i)\<lparr>ev_source_id := Some (''manual:'' @ show_int i)\<rparr>) \<and> db_valid X db'"
proof -
  obtain n where i: "i = event_seq db + 1"
    and db': "events db' = update_rows (\<lambda>e. ev_id e = i) (\<lambda>e. e\<lparr>ev_source_id := Some (''manual:'' @ show_int i)\<rparr>)
        (events db @ [new_manual_event X d i])"
    and v: "db_valid X db'" and st: "ed_status d \<noteq> Received"
    and s: "require_active_stream (ed_stream_id d) db = (Inr n, db)"
    using assms(2) readsD [OF reads_require_active_stream]
    by (auto simp: create_manual_event_def op_Inr statement_Inr require_account_opt_def
        require_active_account_Inr split: option.splits) (metis)+
  have fresh: "\<forall>e \<in> set (events db). ev_id e \<noteq> i" using assms(1) i by (auto simp: db_ids_def ids_ok_def)
  then have "update_rows (\<lambda>e. ev_id e = i) f (events db) = events db" for f by (intro update_rows_none) blast
  then have "events db' = events db @ [(new_manual_event X d i)\<lparr>ev_source_id := Some (''manual:'' @ show_int i)\<rparr>]"
    by (simp add: db') (simp add: new_manual_event_def)
  moreover have "is_open ((new_manual_event X d i)\<lparr>ev_source_id := Some (''manual:'' @ show_int i)\<rparr>)"
    using st by (cases "ed_status d") (simp_all add: is_open_def new_manual_event_def status_str_def)
  ultimately show ?thesis using fresh v require_active_stream_Inr [OF s] by blast
qed


definition sample_patch :: event_patch where
  "sample_patch = \<lparr>ep_label = SetTo ''Refund'', ep_expected_date = Keep, ep_amount = SetTo (f64_small 30),
     ep_account_id = Keep, ep_notes = Keep\<rparr>"

theorem patch_event_effect_witness:
  "\<exists>db'. patch_event sample_ext 1 sample_patch sample_db = (Inr (), db') \<and>
     (\<exists>e \<in> set (events db'). ev_id e = 1 \<and> effective_amount e = f64_small 30 \<and> effective_label e = Some ''Refund'')"
proof -
  let ?db' = "sample_db\<lparr>events := [apply_patch sample_ext sample_patch manual_event, slot_event]\<rparr>"
  have v: "db_valid sample_ext ?db'"
    by (simp add: valid_defs sample_db_def sample_rows apply_patch_def sample_patch_def as_parts_def
        as_copy_parts_def patch_text_parts_def)
  have p: "validate_positive_magnitude ''event amount override'' (f64_small 30) = Inr ()"
    "validate_nonempty ''event label override'' ''Refund'' = Inr ()" "trim ''Refund'' = ''Refund''" by code_simp+
  have ev: "events sample_db = [manual_event, slot_event]" by (simp add: sample_db_def)
  have f: "ev_id manual_event = 1" "ev_id slot_event = 2" "editable manual_event"
    "ev_actual_date manual_event = None" "ev_actual_amount manual_event = None"
    by (simp_all add: manual_event_def slot_event_def editable_def is_open_def)
  have s: "ep_amount sample_patch = SetTo (f64_small 30)" "ep_label sample_patch = SetTo ''Refund''"
    "ep_account_id sample_patch = Keep"
    by (simp_all add: sample_patch_def)
  have r: "patch_event sample_ext 1 sample_patch sample_db = (Inr (), ?db')"
    by (simp add: patch_event_def thn_Inr bnd_Inr lift_res_Inr one_or_reject_Inr statement_Inr ok_Inr p ev f v s)
  from patch_event_effect [OF sample_ids r] obtain e e' where e: "e \<in> set (events sample_db)" "ev_id e = 1" "same_base e e'"
    and m: "?db' = sample_db\<lparr>events := map (\<lambda>x. if x = e then e' else x) (events sample_db)\<rparr>"
    and l: "ep_label sample_patch \<noteq> Clear \<longrightarrow> effective_label e' =
      (case ep_label sample_patch of SetTo l \<Rightarrow> Some (trim l) | _ \<Rightarrow> effective_label e)"
    and a: "ev_actual_amount e = None \<longrightarrow> effective_amount e' =
      (case ep_amount sample_patch of Keep \<Rightarrow> effective_amount e | Clear \<Rightarrow> ev_amount e | SetTo a \<Rightarrow> a)"
    by (elim exE conjE) (erule that, assumption+)
  have e1: "e = manual_event" using e f ev by auto
  have "e' \<in> set (events ?db')" unfolding m using e(1) by force
  then have "\<exists>x \<in> set (events ?db'). ev_id x = 1 \<and> effective_amount x = f64_small 30 \<and> effective_label x = Some ''Refund''"
    by (rule rev_bexI) (use e l a in \<open>simp add: e1 f s p same_base_def\<close>)
  with r show ?thesis by blast
qed

definition gift_draft :: event_draft where
  "gift_draft = \<lparr>ed_stream_id = 1, ed_account_id = None, ed_label = ''Gift'', ed_expected_date = 739648,
     ed_amount = f64_small 7, ed_status = Projected, ed_metadata = None, ed_notes = None\<rparr>"

theorem create_manual_event_effect_witness:
  "\<exists>db'. create_manual_event sample_ext gift_draft sample_db = (Inr 3, db') \<and>
     (\<exists>e \<in> set (events db'). ev_id e = 3 \<and> ev_source_id e = Some ''manual:3'')"
proof -
  let ?row = "new_manual_event sample_ext gift_draft 3"
  have t: "trim ''Gift'' = ''Gift''" "show_int 3 = ''3''" "date_glob ''2026-02-01''" by code_simp+
  have p: "validate_nonempty ''event label'' ''Gift'' = Inr ()"
    "validate_positive_magnitude ''event amount'' (f64_small 7) = Inr ()" by code_simp+
  have v1: "db_valid sample_ext (sample_db\<lparr>events := [manual_event, slot_event, ?row], event_seq := 3\<rparr>)"
    by (simp add: valid_defs sample_db_def sample_rows new_manual_event_def gift_draft_def t sample_ext_def
        sample_texts status_str_def clean_optional_def)
  have v2: "db_valid sample_ext (sample_db\<lparr>event_seq := 3, events := [manual_event, slot_event,
      ?row\<lparr>ev_source_id := Some ''manual:3''\<rparr>]\<rparr>)"
    by (simp add: valid_defs sample_db_def sample_rows new_manual_event_def gift_draft_def t sample_ext_def
        sample_texts status_str_def clean_optional_def)
  have ev: "events sample_db = [manual_event, slot_event]" "event_seq sample_db = 2" by (simp_all add: sample_db_def)
  have f: "ev_id manual_event = 1" "ev_id slot_event = 2" "ev_id ?row = 3"
    by (simp_all add: manual_event_def slot_event_def new_manual_event_def)
  have d: "ed_label gift_draft = ''Gift''" "ed_amount gift_draft = f64_small 7" "ed_metadata gift_draft = None"
    "ed_status gift_draft = Projected" "ed_account_id gift_draft = None" "ed_stream_id gift_draft = 1"
    by (simp_all add: gift_draft_def)
  have s: "require_active_stream 1 sample_db = (Inr ''Rent'', sample_db)"
    by (simp add: require_active_stream_def bnd_def gets_def ok_def sample_db_def rent_stream_def)
  have r: "create_manual_event sample_ext gift_draft sample_db = (Inr 3, sample_db\<lparr>events := [manual_event, slot_event,
      ?row\<lparr>ev_source_id := Some ''manual:3''\<rparr>], event_seq := 3\<rparr>)"
    by (simp add: create_manual_event_def thn_Inr bnd_Inr lift_res_Inr require_Inr ok_Inr transaction_Inr
        statement_Inr require_account_opt_def validate_json_def p ev f d s t v1 v2)
  from create_manual_event_effect [OF sample_ids r] r t f show ?thesis by auto
qed

end
