(* ===== verification/Views.thy ===== *)
theory Views
  imports Events
begin

text \<open>
  Stream views and the default configuration in \<open>src/finance/repository.rs\<close>: \<open>save_view\<close>,
  \<open>list_view_summaries\<close>, \<open>list_view_editors\<close>, \<open>default_view_id\<close>, and \<open>bootstrap_defaults\<close> with its
  \<open>ensure_*_on\<close> helpers. A view's membership is replaced as a whole; at most one active view is the
  default.
\<close>

subsection \<open>Saving a view\<close>

definition view_update :: "ext \<Rightarrow> view_draft \<Rightarrow> view_row \<Rightarrow> view_row" where
  "view_update X d v =
     v\<lparr>vw_name := trim (vd_name d), vw_description := clean_optional (vd_description d),
       vw_is_default := vd_is_default d, vw_updated_at := now_text X\<rparr>"

definition new_view :: "ext \<Rightarrow> view_draft \<Rightarrow> int \<Rightarrow> view_row" where
  "new_view X d i =
     \<lparr>vw_id = i, vw_name = trim (vd_name d), vw_description = clean_optional (vd_description d),
      vw_is_default = vd_is_default d, vw_is_active = True, vw_updated_at = now_text X\<rparr>"

definition clear_default :: "ext \<Rightarrow> view_row \<Rightarrow> view_row" where
  "clear_default X v = v\<lparr>vw_is_default := False, vw_updated_at := now_text X\<rparr>"

definition write_view :: "ext \<Rightarrow> view_draft \<Rightarrow> int fin_op" where
  "write_view X d =
     (case vd_id d of
        Some i \<Rightarrow>
          bnd (update_views X ''update stream view'' (\<lambda>v. vw_id v = i \<and> vw_is_active v) (view_update X d))
            (\<lambda>changed. thn (require (changed = 1) (NotFound (''active stream view '' @ show_int i))) (ok i))
      | None \<Rightarrow> insert_view X ''insert stream view'' (new_view X d))"

definition save_view :: "ext \<Rightarrow> view_draft \<Rightarrow> int fin_op" where
  "save_view X d =
     thn (lift_res (validate_nonempty ''stream view name'' (vd_name d)))
    (thn (require (distinct (vd_stream_ids d))
            (Validation ''stream view members contain duplicate stream ids''))
    (transaction
      (thn (for_each (\<lambda>s. bnd (require_active_stream s) (\<lambda>_. ok ())) (vd_stream_ids d))
      (thn (if vd_is_default d
            then thn (update_views X ''clear previous default stream view''
                   (\<lambda>v. vw_is_default v \<and> Some (vw_id v) \<noteq> vd_id d) (clear_default X)) (ok ())
            else ok ())
      (bnd (write_view X d) (\<lambda>view_id.
       thn (write_members X ''clear stream-view membership''
              (\<lambda>db. filter (\<lambda>m. fst m \<noteq> view_id) (members db)))
      (thn (for_each (\<lambda>s. write_members X ''insert stream-view member''
              (\<lambda>db. members db @ [(view_id, s)])) (vd_stream_ids d))
           (ok view_id))))))))"

subsection \<open>Reading views\<close>

record view_summary =
  vs_id :: int
  vs_name :: string
  vs_description :: "string option"
  vs_is_default :: bool
  vs_is_active :: bool

definition view_from_row :: "view_row \<Rightarrow> view_summary" where
  "view_from_row v = \<lparr>vs_id = vw_id v, vs_name = vw_name v, vs_description = vw_description v,
     vs_is_default = vw_is_default v, vs_is_active = vw_is_active v\<rparr>"

definition list_view_summaries :: "view_summary list fin_op" where
  "list_view_summaries = gets (\<lambda>db. map view_from_row
     (sort_key (\<lambda>v. (\<not> vw_is_default v, ascii_lower (vw_name v), vw_id v)) (filter vw_is_active (views db))))"

record view_editor =
  ve_view :: view_summary
  ve_members :: "(int \<times> string \<times> bool) list"

definition list_view_editors :: "view_editor list fin_op" where
  "list_view_editors =
     bnd list_view_summaries (\<lambda>vs.
     bnd (gets (\<lambda>db. map (\<lambda>s. (st_id s, st_name s))
            (sort_key (\<lambda>s. (ascii_lower (st_name s), st_id s)) (filter st_is_active (streams db))))) (\<lambda>ss.
     bnd (gets members) (\<lambda>ms.
       ok (map (\<lambda>v. \<lparr>ve_view = v,
             ve_members = map (\<lambda>(s, n). (s, n, (vs_id v, s) \<in> set ms)) ss\<rparr>) vs))))"

definition default_view_id :: "int option fin_op" where
  "default_view_id = gets (\<lambda>db. map_option vw_id
     (first_by vw_id (\<lambda>v. vw_is_default v \<and> vw_is_active v) (views db)))"

subsection \<open>The default configuration\<close>

record seed =
  se_name :: string
  se_type :: string
  se_kind :: string
  se_direction :: direction
  se_certainty :: certainty
  se_description :: string

definition seeds :: "seed list" where
  "seeds =
    [\<lparr>se_name = ''Trust Deeds'', se_type = ''mortgage_portfolio'', se_kind = ''tmo_trust'',
      se_direction = In, se_certainty = Known,
      se_description = ''Payments flowing into your trust deed cash view.''\<rparr>,
     \<lparr>se_name = ''One-off Income'', se_type = ''manual_income'', se_kind = ''manual_income'',
      se_direction = In, se_certainty = Known, se_description = ''Manual one-time inflows.''\<rparr>,
     \<lparr>se_name = ''One-off Expense'', se_type = ''manual_expense'', se_kind = ''manual_expense'',
      se_direction = Out, se_certainty = Known,
      se_description = ''Manual one-time outflows and bills.''\<rparr>,
     \<lparr>se_name = ''Hannah Costco'', se_type = ''credit_card_due'', se_kind = ''credit_card'',
      se_direction = Out, se_certainty = Estimated,
      se_description = ''Monthly Hannah Costco payment due date.''\<rparr>,
     \<lparr>se_name = ''Drew Costco'', se_type = ''credit_card_due'', se_kind = ''credit_card'',
      se_direction = Out, se_certainty = Estimated,
      se_description = ''Monthly Drew Costco payment due date.''\<rparr>,
     \<lparr>se_name = ''Apple Card'', se_type = ''credit_card_due'', se_kind = ''credit_card'',
      se_direction = Out, se_certainty = Estimated,
      se_description = ''Monthly Apple Card payment due date.''\<rparr>]"

definition seed_update :: "ext \<Rightarrow> seed \<Rightarrow> int \<Rightarrow> stream_row \<Rightarrow> stream_row" where
  "seed_update X q account_id s =
     s\<lparr>st_name := se_name q, st_type := se_type q, st_kind := se_kind q,
       st_direction := direction_str (se_direction q), st_certainty := certainty_str (se_certainty q),
       st_description := Some (se_description q), st_default_account_id := Some account_id,
       st_is_active := True, st_updated_at := now_text X\<rparr>"

definition seed_stream :: "ext \<Rightarrow> seed \<Rightarrow> int \<Rightarrow> int \<Rightarrow> stream_row" where
  "seed_stream X q account_id i =
     \<lparr>st_id = i, st_name = se_name q, st_type = se_type q, st_kind = se_kind q,
      st_direction = direction_str (se_direction q), st_certainty = certainty_str (se_certainty q),
      st_description = Some (se_description q), st_default_account_id = Some account_id,
      st_configuration = None, st_parent_id = None, st_is_active = True, st_updated_at = now_text X\<rparr>"

definition ensure_seed_stream_on :: "ext \<Rightarrow> int \<Rightarrow> seed \<Rightarrow> int fin_op" where
  "ensure_seed_stream_on X account_id q =
     bnd (gets (\<lambda>db. first_by st_id (\<lambda>s. st_name s = se_name q) (streams db))) (\<lambda>row.
       case row of
         Some s \<Rightarrow> thn (update_streams X ''update seeded stream'' (\<lambda>r. st_id r = st_id s)
                     (seed_update X q account_id)) (ok (st_id s))
       | None \<Rightarrow> insert_stream X ''insert seeded stream'' (seed_stream X q account_id))"

definition seed_schedule_update :: "ext \<Rightarrow> int \<Rightarrow> string \<Rightarrow> nat \<Rightarrow> iso_date \<Rightarrow> schedule_row \<Rightarrow>
    schedule_row" where
  "seed_schedule_update X account_id stream_name day start s =
     s\<lparr>sc_account_id := Some account_id, sc_label := Some (stream_name @ '' due''), sc_amount := f64_zero,
       sc_frequency := ''monthly'', sc_day_of_month := Some (int day),
       sc_start_date := iso_to_string (dates X) start, sc_end_date := None, sc_is_active := True,
       sc_updated_at := now_text X\<rparr>"

definition seed_schedule :: "ext \<Rightarrow> int \<Rightarrow> string \<Rightarrow> nat \<Rightarrow> iso_date \<Rightarrow> int \<Rightarrow> int \<Rightarrow> schedule_row" where
  "seed_schedule X account_id stream_name day start stream_id i =
     \<lparr>sc_id = i, sc_stream_id = stream_id, sc_account_id = Some account_id,
      sc_label = Some (stream_name @ '' due''), sc_amount = f64_zero, sc_frequency = ''monthly'',
      sc_day_of_month = Some (int day), sc_start_date = iso_to_string (dates X) start,
      sc_end_date = None, sc_is_active = True, sc_metadata = None, sc_updated_at = now_text X\<rparr>"

definition ensure_seed_monthly_schedule_on :: "ext \<Rightarrow> int \<Rightarrow> string \<Rightarrow> nat \<Rightarrow> iso_date \<Rightarrow> int \<Rightarrow> int fin_op" where
  "ensure_seed_monthly_schedule_on X stream_id stream_name day start account_id =
     bnd (gets (\<lambda>db. first_by sc_id (\<lambda>s. sc_stream_id s = stream_id) (schedules db))) (\<lambda>row.
       case row of
         Some s \<Rightarrow> thn (update_schedules X ''update seeded stream schedule'' (\<lambda>r. sc_id r = sc_id s)
                     (seed_schedule_update X account_id stream_name day start)) (ok (sc_id s))
       | None \<Rightarrow> insert_schedule X ''insert seeded stream schedule''
                   (seed_schedule X account_id stream_name day start stream_id))"

definition all_streams_view :: "ext \<Rightarrow> view_row \<Rightarrow> view_row" where
  "all_streams_view X v =
     v\<lparr>vw_name := ''All Streams'', vw_description := Some ''Merged view across every active stream.'',
       vw_is_default := True, vw_is_active := True, vw_updated_at := now_text X\<rparr>"

definition ensure_default_view_on :: "ext \<Rightarrow> int fin_op" where
  "ensure_default_view_on X =
     bnd (gets (\<lambda>db. first_by (\<lambda>v. (\<not> vw_is_default v, vw_id v))
            (\<lambda>v. vw_is_default v \<or> vw_name v = ''All Streams'') (views db))) (\<lambda>row.
       case row of
         Some v \<Rightarrow>
           thn (update_views X ''clear duplicate default stream view''
                  (\<lambda>w. vw_is_default w \<and> vw_id w \<noteq> vw_id v) (\<lambda>w. w\<lparr>vw_is_default := False\<rparr>))
          (thn (update_views X ''update default stream view'' (\<lambda>w. vw_id w = vw_id v) (all_streams_view X))
             (ok (vw_id v)))
       | None \<Rightarrow> insert_view X ''insert default stream view'' (\<lambda>i.
           \<lparr>vw_id = i, vw_name = ''All Streams'',
            vw_description = Some ''Merged view across every active stream.'', vw_is_default = True,
            vw_is_active = True, vw_updated_at = now_text X\<rparr>))"

definition populate_view :: "ext \<Rightarrow> int \<Rightarrow> unit fin_op" where
  "populate_view X view_id =
     write_members X ''populate default stream view'' (\<lambda>db.
       members db @ filter (\<lambda>m. m \<notin> set (members db))
         (map (\<lambda>s. (view_id, st_id s)) (filter st_is_active (streams db))))"

record bootstrap_result =
  br_primary_account_id :: int
  br_default_view_id :: int
  br_stream_ids :: "int list"

definition bootstrap_defaults :: "ext \<Rightarrow> iso_date \<Rightarrow> bootstrap_result fin_op" where
  "bootstrap_defaults X today =
     transaction
       (bnd (ensure_primary_account_on X) (\<lambda>account_id.
        bnd (collect_each (ensure_seed_stream_on X account_id) seeds) (\<lambda>stream_ids.
        thn (for_each (\<lambda>(index, day).
               bnd (lift_res (fin_res (first_of_month (dates X) today))) (\<lambda>start.
               bnd (ensure_seed_monthly_schedule_on X (stream_ids ! index) (se_name (seeds ! index)) day
                      start account_id) (\<lambda>_. ok ())))
             [(3, 21), (4, 22), (5, 31)])
       (bnd (ensure_default_view_on X) (\<lambda>view_id.
        thn (populate_view X view_id)
       (bnd (lift_res (fin_res (iso_add_days (dates X) today 365))) (\<lambda>through.
        bnd (lift_res (fin_res (window_new today through))) (\<lambda>w.
        thn (for_each (\<lambda>s. bnd (require_active_stream s) (\<lambda>name.
               bnd (refresh_stream_schedule_events_on X s name w) (\<lambda>_. ok ()))) stream_ids)
          (ok \<lparr>br_primary_account_id = account_id, br_default_view_id = view_id,
               br_stream_ids = stream_ids\<rparr>)))))))))"


subsection \<open>Membership is replaced as a whole\<close>

lemma keeps_save_view: "keeps (db_valid X) (save_view X d)"
  unfolding save_view_def write_view_def by (intro keeps_rules)

lemma insert_members_Inr:
  "for_each (\<lambda>s. write_members X c (\<lambda>db. members db @ [(i, s)])) ss db = (Inr u, db') \<Longrightarrow>
   db' = db\<lparr>members := members db @ map (Pair i) ss\<rparr>"
proof (induction ss arbitrary: db)
  case Nil
  then show ?case by (simp add: ok_Inr)
next
  case (Cons s ss)
  then obtain v where v: "write_members X c (\<lambda>db. members db @ [(i, s)]) db = (Inr (), v)"
      "for_each (\<lambda>s. write_members X c (\<lambda>db. members db @ [(i, s)])) ss v = (Inr u, db')"
    by (auto simp: thn_Inr)
  from v(1) have "v = db\<lparr>members := members db @ [(i, s)]\<rparr>" by (simp add: statement_Inr)
  with Cons.IH [OF v(2)] show ?case by simp
qed

lemma active_streams_Inr:
  "for_each (\<lambda>s. bnd (require_active_stream s) (\<lambda>_. ok ())) ss db = (Inr u, db') \<Longrightarrow>
   db' = db \<and> (\<forall>s \<in> set ss. \<exists>r \<in> set (streams db). st_id r = s \<and> st_is_active r)"
proof (induction ss)
  case Nil
  then show ?case by (simp add: ok_Inr)
next
  case (Cons s ss)
  then show ?case by (auto simp: op_Inr dest!: require_active_stream_Inr)
qed

lemma write_view_Inr:
  assumes "write_view X d db = (Inr i, db')"
  shows "members db' = members db" "streams db' = streams db"
    and "\<exists>v \<in> set (views db'). vw_id v = i \<and> vw_is_active v \<and> vw_name v = trim (vd_name d) \<and>
      vw_description v = clean_optional (vd_description d) \<and> vw_is_default v = vd_is_default d"
    and "vd_id d = Some j \<Longrightarrow> i = j"
proof -
  show "members db' = members db" "streams db' = streams db"
    using assms by (auto simp: write_view_def op_Inr statement_Inr split: option.splits)
  show "vd_id d = Some j \<Longrightarrow> i = j" using assms by (auto simp: write_view_def op_Inr)
  show "\<exists>v \<in> set (views db'). vw_id v = i \<and> vw_is_active v \<and> vw_name v = trim (vd_name d) \<and>
      vw_description v = clean_optional (vd_description d) \<and> vw_is_default v = vd_is_default d"
  proof (cases "vd_id d")
    case None
    then show ?thesis using assms by (simp add: write_view_def statement_Inr new_view_def)
  next
    case (Some k)
    let ?P = "\<lambda>v. vw_id v = k \<and> vw_is_active v"
    have n: "count_rows ?P (views db) = 1" and i: "i = k"
      and db': "views db' = update_rows ?P (view_update X d) (views db)"
      using assms Some by (auto simp: write_view_def op_Inr statement_Inr)
    obtain v where v: "v \<in> set (views db)" "?P v" using n count_rows_pos [of ?P "views db"] by auto
    then have "view_update X d v \<in> set (views db')" by (auto simp: db' set_update_rows)
    with v(2) i show ?thesis by (intro bexI [of _ "view_update X d v"]) (simp_all add: view_update_def)
  qed
qed

lemma default_unique:
  assumes "default_ok vs" "a \<in> set vs" "b \<in> set vs" "vw_is_default a" "vw_is_active a" "vw_is_default b" "vw_is_active b"
  shows "a = b"
proof -
  let ?P = "\<lambda>v. vw_is_default v \<and> vw_is_active v"
  have "length (filter ?P vs) \<le> 1" using assms(1) by (simp add: default_ok_def count_rows_def)
  moreover have "a \<in> set (filter ?P vs)" "b \<in> set (filter ?P vs)" using assms by simp_all
  ultimately show ?thesis by (cases "filter ?P vs") auto
qed

text \<open>Saving a view replaces its membership as a whole: afterwards its members are exactly the listed
  streams, each once and all of them active, the memberships of other views are unchanged, the view
  row is the trimmed draft, and if the draft is the default then no other active view is.\<close>

theorem save_view_effect:
  assumes "save_view X d db = (Inr i, db')"
  shows "{s. (i, s) \<in> set (members db')} = set (vd_stream_ids d) \<and> distinct (vd_stream_ids d) \<and>
    (\<forall>v s. v \<noteq> i \<longrightarrow> ((v, s) \<in> set (members db') \<longleftrightarrow> (v, s) \<in> set (members db))) \<and>
    (\<forall>s \<in> set (vd_stream_ids d). \<exists>r \<in> set (streams db'). st_id r = s \<and> st_is_active r) \<and>
    (\<exists>v \<in> set (views db'). vw_id v = i \<and> vw_is_active v \<and> vw_name v = trim (vd_name d) \<and>
       vw_description v = clean_optional (vd_description d) \<and> vw_is_default v = vd_is_default d \<and>
       (vd_is_default d \<longrightarrow> (\<forall>w \<in> set (views db'). vw_is_default w \<and> vw_is_active w \<longrightarrow> w = v)))"
proof -
  obtain s0 s1 s2 s3 where dis: "distinct (vd_stream_ids d)"
    and a: "for_each (\<lambda>s. bnd (require_active_stream s) (\<lambda>_. ok ())) (vd_stream_ids d) db = (Inr (), s0)"
    and c: "(if vd_is_default d
            then thn (update_views X ''clear previous default stream view''
                   (\<lambda>v. vw_is_default v \<and> Some (vw_id v) \<noteq> vd_id d) (clear_default X)) (ok ())
            else ok ()) s0 = (Inr (), s1)"
    and w: "write_view X d s1 = (Inr i, s2)"
    and m0: "write_members X ''clear stream-view membership''
              (\<lambda>db. filter (\<lambda>m. fst m \<noteq> i) (members db)) s2 = (Inr (), s3)"
    and f: "for_each (\<lambda>s. write_members X ''insert stream-view member''
              (\<lambda>db. members db @ [(i, s)])) (vd_stream_ids d) s3 = (Inr (), db')"
    using assms unfolding save_view_def op_Inr by auto
  have m: "s3 = s2\<lparr>members := filter (\<lambda>m. fst m \<noteq> i) (members s2)\<rparr>" "db_valid X s3"
    using m0 unfolding statement_Inr by blast+
  have s0: "s0 = db" using active_streams_Inr [OF a] by simp
  have s1: "members s1 = members db" "streams s1 = streams db"
    using c by (auto simp: s0 op_Inr statement_Inr split: if_splits)
  note w' = write_view_Inr [OF w]
  have db': "db' = s3\<lparr>members := members s3 @ map (Pair i) (vd_stream_ids d)\<rparr>" by (rule insert_members_Inr [OF f])
  have mem: "members db' = filter (\<lambda>m. fst m \<noteq> i) (members db) @ map (Pair i) (vd_stream_ids d)"
    by (simp add: db' m(1) w'(1) s1)
  have act: "\<forall>s \<in> set (vd_stream_ids d). \<exists>r \<in> set (streams db'). st_id r = s \<and> st_is_active r"
    using active_streams_Inr [OF a] by (simp add: db' m(1) w'(2) s1)
  have vs: "views db' = views s2" "views s3 = views s2" by (simp_all add: db' m(1))
  have "default_ok (views s2)" using m(2) vs(2) by (simp add: db_valid_def Let_def)
  then have u: "w = v" if "v \<in> set (views db')" "vw_is_active v" "vw_is_default v" "w \<in> set (views db')"
    "vw_is_default w" "vw_is_active w" for v w
    using default_unique [of "views s2" w v] that by (simp add: vs)
  obtain v where v: "v \<in> set (views db')" "vw_id v = i" "vw_is_active v" "vw_name v = trim (vd_name d)"
      "vw_description v = clean_optional (vd_description d)" "vw_is_default v = vd_is_default d"
    using w'(3) by (auto simp: vs)
  have "\<exists>v \<in> set (views db'). vw_id v = i \<and> vw_is_active v \<and> vw_name v = trim (vd_name d) \<and>
       vw_description v = clean_optional (vd_description d) \<and> vw_is_default v = vd_is_default d \<and>
       (vd_is_default d \<longrightarrow> (\<forall>w \<in> set (views db'). vw_is_default w \<and> vw_is_active w \<longrightarrow> w = v))"
    using v u [OF v(1,3)] by (intro bexI [OF _ v(1)]) auto
  moreover have "{s. (i, s) \<in> set (members db')} = set (vd_stream_ids d)" by (auto simp: mem)
  moreover have "\<forall>v s. v \<noteq> i \<longrightarrow> ((v, s) \<in> set (members db') \<longleftrightarrow> (v, s) \<in> set (members db))" by (auto simp: mem)
  ultimately show ?thesis using dis act by blast
qed

definition household :: view_draft where
  "household = \<lparr>vd_id = Some 1, vd_name = ''Household'', vd_description = None, vd_is_default = True,
     vd_stream_ids = [1]\<rparr>"

theorem save_view_effect_witness:
  "\<exists>db'. save_view sample_ext household sample_db = (Inr 1, db') \<and> {s. (1, s) \<in> set (members db')} = {1}"
proof -
  have d: "vd_name household = ''Household''" "vd_stream_ids household = [1]" "vd_is_default household"
    "vd_id household = Some 1" by (simp_all add: household_def)
  have t: "trim ''Household'' = ''Household''" "validate_nonempty ''stream view name'' ''Household'' = Inr ()"
    by code_simp+
  have u: "view_update sample_ext household main_view = main_view"
    by (simp add: view_update_def household_def main_view_def t clean_optional_def sample_ext_def)
  have s: "require_active_stream 1 sample_db = (Inr ''Rent'', sample_db)"
    by (simp add: require_active_stream_def bnd_def gets_def ok_def sample_db_def rent_stream_def)
  have v: "db_valid sample_ext (sample_db\<lparr>members := []\<rparr>)" by (simp add: valid_defs sample_db_def sample_rows)
  have vw: "sample_db\<lparr>views := [main_view]\<rparr> = sample_db" by (simp add: sample_db_def)
  have r: "save_view sample_ext household sample_db = (Inr 1, sample_db\<lparr>members := [(1, 1)]\<rparr>)"
    by (simp add: save_view_def write_view_def thn_Inr bnd_Inr lift_res_Inr require_Inr ok_Inr transaction_Inr
        statement_Inr d t s u v vw sample_tables sample_keys sample_valid)
  from save_view_effect [OF r] r d show ?thesis by auto
qed

text \<open>The view editor offers, for every active view in the listing order, every active stream exactly
  once, with the flag that tells whether it is a member.\<close>

theorem view_editors_spec:
  "\<exists>es. list_view_editors db = (Inr es, db) \<and>
    map ve_view es = map view_from_row (sort_key (\<lambda>v. (\<not> vw_is_default v, ascii_lower (vw_name v), vw_id v))
      (filter vw_is_active (views db))) \<and>
    (\<forall>e \<in> set es. set (ve_members e) =
      (\<lambda>s. (st_id s, st_name s, (vs_id (ve_view e), st_id s) \<in> set (members db))) ` {s \<in> set (streams db). st_is_active s} \<and>
      length (ve_members e) = length (filter st_is_active (streams db)))"
proof -
  let ?vs = "map view_from_row (sort_key (\<lambda>v. (\<not> vw_is_default v, ascii_lower (vw_name v), vw_id v))
      (filter vw_is_active (views db)))"
  let ?ss = "map (\<lambda>s. (st_id s, st_name s))
      (sort_key (\<lambda>s. (ascii_lower (st_name s), st_id s)) (filter st_is_active (streams db)))"
  let ?es = "map (\<lambda>v. \<lparr>ve_view = v, ve_members = map (\<lambda>(s, n). (s, n, (vs_id v, s) \<in> set (members db))) ?ss\<rparr>) ?vs"
  have "list_view_editors db = (Inr ?es, db)"
    by (simp add: list_view_editors_def list_view_summaries_def bnd_def gets_def ok_def)
  moreover have "map ve_view ?es = ?vs" by (simp add: comp_def)
  moreover have "\<forall>e \<in> set ?es. set (ve_members e) =
      (\<lambda>s. (st_id s, st_name s, (vs_id (ve_view e), st_id s) \<in> set (members db))) ` {s \<in> set (streams db). st_is_active s} \<and>
      length (ve_members e) = length (filter st_is_active (streams db))"
    by (auto simp: image_image)
  ultimately show ?thesis by blast
qed

theorem view_editors_spec_witness:
  "\<exists>es. list_view_editors sample_db = (Inr es, sample_db) \<and> map ve_view es = [view_from_row main_view]"
  using view_editors_spec [of sample_db] by (auto simp: sample_db_def main_view_def)


subsection \<open>The default configuration\<close>

definition seeded :: "int \<Rightarrow> fin_db \<Rightarrow> int \<Rightarrow> seed \<Rightarrow> bool" where
  "seeded account_id db i q \<longleftrightarrow> (\<exists>s \<in> set (streams db). st_id s = i \<and> st_is_active s \<and> st_name s = se_name q \<and>
     st_type s = se_type q \<and> st_kind s = se_kind q \<and> st_direction s = direction_str (se_direction q) \<and>
     st_certainty s = certainty_str (se_certainty q) \<and> st_default_account_id s = Some account_id)"

lemma keeps_ids_seed: "keeps db_ids (ensure_seed_stream_on X a q)"
  unfolding ensure_seed_stream_on_def
  by (intro keeps_rules keeps_ids) (simp_all add: seed_update_def seed_stream_def)

lemma ensure_seed_seeded:
  assumes "ensure_seed_stream_on X a q db = (Inr i, db')" "db_ids db"
  shows "seeded a db' i q"
    and "seeded a db j p \<Longrightarrow> se_name p \<noteq> se_name q \<Longrightarrow> seeded a db' j p"
    and "accounts db' = accounts db"
proof -
  show "seeded a db' i q"
  proof (cases "first_by st_id (\<lambda>s. st_name s = se_name q) (streams db)")
    case None
    then show ?thesis using assms(1)
      by (simp add: ensure_seed_stream_on_def op_Inr statement_Inr seeded_def seed_stream_def)
  next
    case (Some s)
    then have "s \<in> set (streams db)" using first_by_Some [OF Some] by simp
    then have "seed_update X q a s \<in> set (update_rows (\<lambda>r. st_id r = st_id s) (seed_update X q a) (streams db))"
      by (auto simp: set_update_rows)
    moreover have "streams db' = update_rows (\<lambda>r. st_id r = st_id s) (seed_update X q a) (streams db)" "i = st_id s"
      using assms(1) Some by (auto simp: ensure_seed_stream_on_def op_Inr statement_Inr)
    ultimately show ?thesis unfolding seeded_def
      by (intro bexI [of _ "seed_update X q a s"]) (simp_all add: seed_update_def)
  qed
  show "accounts db' = accounts db" using assms(1)
    by (auto simp: ensure_seed_stream_on_def op_Inr statement_Inr split: option.splits)
  assume p: "seeded a db j p" "se_name p \<noteq> se_name q"
  then obtain s0 where s0: "s0 \<in> set (streams db)" "st_name s0 = se_name p" "seeded a (db\<lparr>streams := [s0]\<rparr>) j p"
    by (auto simp: seeded_def)
  have "s0 \<in> set (streams db')"
  proof (cases "first_by st_id (\<lambda>s. st_name s = se_name q) (streams db)")
    case None
    then show ?thesis using assms(1) s0(1) by (auto simp: ensure_seed_stream_on_def op_Inr statement_Inr)
  next
    case (Some s)
    then have s: "s \<in> set (streams db)" "st_name s = se_name q" using first_by_Some [OF Some] by simp_all
    have "distinct (map st_id (streams db))" using assms(2) by (simp add: db_ids_def ids_ok_def)
    then have "st_id s0 \<noteq> st_id s" using distinct_key_eq [of st_id, OF _ s0(1) s(1)] s(2) s0(2) p(2) by metis
    then have "s0 \<in> set (update_rows (\<lambda>r. st_id r = st_id s) (seed_update X q a) (streams db))"
      using s0(1) by (intro update_rows_keep) auto
    then show ?thesis using assms(1) Some by (auto simp: ensure_seed_stream_on_def op_Inr statement_Inr)
  qed
  with s0(3) show "seeded a db' j p" by (auto simp: seeded_def)
qed

lemma ensure_seeds:
  assumes "collect_each (ensure_seed_stream_on X a) qs db = (Inr ids, db')" "db_ids db"
    and "distinct (map se_name qs)"
    and "\<forall>(j, p) \<in> S. seeded a db j p \<and> se_name p \<notin> se_name ` set qs"
  shows "list_all2 (seeded a db') ids qs \<and> (\<forall>(j, p) \<in> S. seeded a db' j p) \<and> accounts db' = accounts db"
  using assms
proof (induction qs arbitrary: db ids S)
  case Nil
  then show ?case by (auto simp: ok_Inr)
next
  case (Cons q qs)
  obtain i u rest where q: "ensure_seed_stream_on X a q db = (Inr i, u)"
    and r: "collect_each (ensure_seed_stream_on X a) qs u = (Inr rest, db')" and ids: "ids = i # rest"
    using Cons.prems(1) by (auto simp: op_Inr)
  note es = ensure_seed_seeded [OF q Cons.prems(2)]
  have u: "db_ids u" by (rule keepsD [OF keeps_ids_seed Cons.prems(2) q])
  have "\<forall>(j, p) \<in> insert (i, q) S. seeded a u j p \<and> se_name p \<notin> se_name ` set qs"
    using es(1,2) Cons.prems(3,4) by fastforce
  from Cons.IH [OF r u _ this] Cons.prems(3) es(3) show ?case by (simp add: ids)
qed

text \<open>What the later steps of the bootstrap leave alone.\<close>

definition same_catalog :: "fin_db \<Rightarrow> fin_db \<Rightarrow> bool" where
  "same_catalog db db' \<longleftrightarrow> accounts db' = accounts db \<and> streams db' = streams db"

definition same_config :: "fin_db \<Rightarrow> fin_db \<Rightarrow> bool" where
  "same_config db db' \<longleftrightarrow> accounts db' = accounts db \<and> streams db' = streams db \<and> views db' = views db \<and>
     members db' = members db"

interpretation cat: evolution same_catalog
  by unfold_locales (simp_all add: same_catalog_def)

interpretation cfg: evolution same_config
  by unfold_locales (simp_all add: same_config_def)

lemma cat_write: "(\<And>s. same_catalog s (snd (f s))) \<Longrightarrow> evolves same_catalog (fin_write X c f)"
  unfolding fin_write_def by (rule cat.evolves_write)

lemma cfg_write: "(\<And>s. same_config s (snd (f s))) \<Longrightarrow> evolves same_config (fin_write X c f)"
  unfolding fin_write_def by (rule cfg.evolves_write)

lemma cfg_refresh: "evolves same_config (refresh_stream_schedule_events_on X s name w)"
  unfolding refresh_stream_schedule_events_on_def refresh_schedule_eq upsert_projection_def update_events_def
  by (intro cfg.evolves_rules cfg_write) (simp_all add: same_config_def)

lemma cfg_schedule: "evolves same_config (ensure_seed_monthly_schedule_on X s n d st a)"
  unfolding ensure_seed_monthly_schedule_on_def update_schedules_def insert_schedule_def
  by (intro cfg.evolves_rules cfg_write) (simp_all add: same_config_def Let_def)

lemma cfg_schedules:
  "evolves same_config (for_each (\<lambda>(index, day). bnd (lift_res (q index day)) (\<lambda>start.
     bnd (ensure_seed_monthly_schedule_on X (f index) (g index) day start a) (\<lambda>_. ok ()))) xs)"
  by (intro cfg.evolves_for_each) (auto intro!: cfg.evolves_rules cfg_schedule)

lemma cfg_refreshes:
  "evolves same_config (for_each (\<lambda>s. bnd (require_active_stream s) (\<lambda>name.
     bnd (refresh_stream_schedule_events_on X s name w) (\<lambda>_. ok ()))) ids)"
  by (intro cfg.evolves_rules cfg.evolves_reads [OF reads_require_active_stream] cfg_refresh)

lemma keeps_refreshes:
  "keeps (db_valid X) (for_each (\<lambda>s. bnd (require_active_stream s) (\<lambda>name.
     bnd (refresh_stream_schedule_events_on X s name w) (\<lambda>_. ok ()))) ids)"
  by (intro keeps_rules keeps_refresh)

lemma cat_view: "evolves same_catalog (ensure_default_view_on X)"
  unfolding ensure_default_view_on_def update_views_def insert_view_def
  by (intro cat.evolves_rules cat_write) (simp_all add: same_catalog_def Let_def)

lemma ensure_default_view_Inr:
  assumes "ensure_default_view_on X db = (Inr i, db')"
  shows "\<exists>v \<in> set (views db'). vw_id v = i \<and> vw_is_default v \<and> vw_is_active v \<and> vw_name v = ''All Streams''"
proof (cases "first_by (\<lambda>v. (\<not> vw_is_default v, vw_id v)) (\<lambda>v. vw_is_default v \<or> vw_name v = ''All Streams'') (views db)")
  case None
  then show ?thesis using assms by (simp add: ensure_default_view_on_def op_Inr statement_Inr)
next
  case (Some v)
  then have "v \<in> set (views db)" using first_by_Some [OF Some] by simp
  define f where "f w = (if vw_is_default w \<and> vw_id w \<noteq> vw_id v then w\<lparr>vw_is_default := False\<rparr> else w)" for w :: view_row
  define us where "us = update_rows (\<lambda>w. vw_is_default w \<and> vw_id w \<noteq> vw_id v) (\<lambda>w. w\<lparr>vw_is_default := False\<rparr>) (views db)"
  have fv: "f v \<in> set us" unfolding us_def set_update_rows f_def [symmetric] using \<open>v \<in> set (views db)\<close> by blast
  have "vw_id (f v) = vw_id v" by (simp add: f_def)
  have i: "i = vw_id v" and vs: "views db' = update_rows (\<lambda>w. vw_id w = vw_id v) (all_streams_view X) us"
    using assms Some by (auto simp: ensure_default_view_on_def op_Inr statement_Inr us_def)
  have "all_streams_view X (f v) \<in> set (views db')"
    unfolding vs set_update_rows using fv \<open>vw_id (f v) = vw_id v\<close> by (intro image_eqI [of _ _ "f v"]) simp_all
  with i \<open>vw_id (f v) = vw_id v\<close> show ?thesis
    by (intro bexI [of _ "all_streams_view X (f v)"]) (simp_all add: all_streams_view_def)
qed

text \<open>A successful bootstrap leaves the default configuration in place: the returned account is an
  active primary account, each of the six seeds has its active stream with the seed's data and that
  account as default, the returned view is the only active default view, and every active stream is
  one of its members.\<close>

theorem bootstrap_effect:
  assumes "db_valid X db" "db_ids db" "bootstrap_defaults X today db = (Inr r, db')"
  shows "db_valid X db' \<and>
    (\<exists>a \<in> set (accounts db'). account_is_active_primary a \<and> ac_id a = br_primary_account_id r) \<and>
    list_all2 (seeded (br_primary_account_id r) db') (br_stream_ids r) seeds \<and>
    (\<exists>v \<in> set (views db'). vw_id v = br_default_view_id r \<and> vw_name v = ''All Streams'' \<and>
      (\<forall>w \<in> set (views db'). vw_is_default w \<and> vw_is_active w \<longleftrightarrow> w = v)) \<and>
    (\<forall>s \<in> set (streams db'). st_is_active s \<longrightarrow> (br_default_view_id r, st_id s) \<in> set (members db'))"
proof -
  obtain a ids i s1 s2 s3 s4 s5 w where
      1: "ensure_primary_account_on X db = (Inr a, s1)"
    and 2: "collect_each (ensure_seed_stream_on X a) seeds s1 = (Inr ids, s2)"
    and 3: "for_each (\<lambda>(index, day).
               bnd (lift_res (fin_res (first_of_month (dates X) today))) (\<lambda>start.
               bnd (ensure_seed_monthly_schedule_on X (ids ! index) (se_name (seeds ! index)) day
                      start a) (\<lambda>_. ok ())))
             [(3, 21), (4, 22), (5, 31)] s2 = (Inr (), s3)"
    and 4: "ensure_default_view_on X s3 = (Inr i, s4)"
    and 5: "populate_view X i s4 = (Inr (), s5)"
    and 6: "for_each (\<lambda>s. bnd (require_active_stream s) (\<lambda>name.
               bnd (refresh_stream_schedule_events_on X s name w) (\<lambda>_. ok ()))) ids s5 = (Inr (), db')"
    and r: "r = \<lparr>br_primary_account_id = a, br_default_view_id = i, br_stream_ids = ids\<rparr>"
    using assms(3) unfolding bootstrap_defaults_def op_Inr by auto
  have c3: "same_config s2 s3" by (rule evolvesD [OF cfg_schedules 3])
  have c4: "same_catalog s3 s4" by (rule evolvesD [OF cat_view 4])
  have c5: "s5 = s4\<lparr>members := members s4 @ filter (\<lambda>m. m \<notin> set (members s4))
         (map (\<lambda>s. (i, st_id s)) (filter st_is_active (streams s4)))\<rparr>" "db_valid X s5"
    using 5 unfolding populate_view_def statement_Inr by blast+
  have c6: "same_config s5 db'" by (rule evolvesD [OF cfg_refreshes 6])
  have "keeps db_ids (ensure_primary_account_on X)"
    unfolding ensure_primary_account_on_def by (intro keeps_rules keeps_ids) (simp add: default_account_def)
  from keepsD [OF this assms(2) 1] have ids1: "db_ids s1" .
  have dn: "distinct (map se_name seeds)" by (simp add: seeds_def)
  have sd: "list_all2 (seeded a s2) ids seeds" "accounts s2 = accounts s1"
    using ensure_seeds [OF 2 ids1 dn, of "{}"] by auto
  have st: "streams db' = streams s2" "accounts db' = accounts s1" "views db' = views s4"
    "members db' = members s5" "streams s4 = streams db'"
    using c3 c4 c5(1) c6 sd(2) by (simp_all add: same_config_def same_catalog_def)
  have v: "db_valid X db'"
    by (rule keepsD [OF keeps_refreshes c5(2) 6])
  have p: "\<exists>x \<in> set (accounts db'). account_is_active_primary x \<and> ac_id x = a"
    using ensure_primary_Inr [OF 1] by (auto simp: st(2) default_account_def account_is_active_primary_def)
  have "list_all2 (seeded a db') ids seeds"
    using sd(1) by (rule list_all2_mono) (simp add: seeded_def st(1))
  moreover obtain x where x: "x \<in> set (views db')" "vw_id x = i" "vw_is_default x" "vw_is_active x"
      "vw_name x = ''All Streams''"
    using ensure_default_view_Inr [OF 4] by (auto simp: st(3))
  moreover have "default_ok (views db')" using v by (simp add: db_valid_def Let_def)
  then have "\<forall>w \<in> set (views db'). vw_is_default w \<and> vw_is_active w \<longleftrightarrow> w = x"
    using default_unique [OF _ _ x(1)] x(3,4) by blast
  moreover have "\<forall>s \<in> set (streams db'). st_is_active s \<longrightarrow> (i, st_id s) \<in> set (members db')"
    by (auto simp: st(4) c5(1) st(5))
  ultimately show ?thesis using v p by (auto simp: r)
qed

end
