(* ===== verification/Refresh_Total.thy ===== *)
theory Refresh_Total
  imports Views
begin

text \<open>
  The refresh always returns: on a valid database whose stored schedule dates are calendar dates, for a
  window before the year 9999, every statement of \<open>refresh_stream_schedule_events_on\<close> passes the
  schema's constraints and every date computation succeeds. The loop bounds (the fuel of the month
  loop) are enough by the lemmas of \<open>Schedule_Calc\<close>.
\<close>

definition projection_storable :: "ext \<Rightarrow> fin_db \<Rightarrow> projection \<Rightarrow> bool" where
  "projection_storable X db p \<longleftrightarrow> opt_all (\<lambda>a. a \<in> set (map ac_id (accounts db))) (pj_account_id p) \<and>
     date_glob (pj_date p) \<and> amount_check (pj_amount p) \<and> sqlite_json X (pj_metadata p)"

lemma db_valid_events:
  assumes "db_valid X db" "events_unique es"
    and "list_all (event_check X (set (map ac_id (accounts db))) (set (map st_id (streams db)))) es"
  shows "db_valid X (db\<lparr>events := es\<rparr>)" "db_valid X (db\<lparr>events := es, event_seq := q\<rparr>)"
  using assms by (simp_all add: db_valid_def Let_def)

lemma db_valid_eventsD:
  assumes "db_valid X db"
  shows "events_unique (events db)"
    "list_all (event_check X (set (map ac_id (accounts db))) (set (map st_id (streams db)))) (events db)"
  using assms by (simp_all add: db_valid_def Let_def)

lemma events_unique_update:
  assumes "events_unique es" "\<And>e. event_key (f e) = event_key e"
  shows "events_unique (update_rows P f es)"
proof -
  have "List.map_filter event_key (update_rows P f es) = List.map_filter event_key es"
    using assms(2) by (induction es) (auto simp: map_filter_simps split: option.splits)
  with assms(1) show ?thesis by (simp add: events_unique_def)
qed

lemma map_filter_append: "List.map_filter f (xs @ ys) = List.map_filter f xs @ List.map_filter f ys"
  by (simp add: List.map_filter_def)

lemma events_unique_snoc:
  assumes "events_unique es" "event_key e = Some k" "\<forall>x \<in> set es. event_key x \<noteq> Some k"
  shows "events_unique (es @ [e])"
proof -
  have "k \<notin> set (List.map_filter event_key es)" using assms(3) by (auto simp: List.map_filter_def)
  then show ?thesis using assms(1,2)
    by (simp add: events_unique_def map_filter_append map_filter_simps)
qed

lemma tombstone_event_check:
  "event_check X A S e \<Longrightarrow> ev_status e \<noteq> ''received'' \<Longrightarrow> event_check X A S (tombstone X e)"
  by (simp add: event_check_def tombstone_def)

lemma tombstoned_valid:
  assumes "db_valid X db"
  shows "db_valid X (tombstoned X stream_id w db)"
  unfolding tombstoned_def
proof (rule db_valid_events(1) [OF assms])
  show "events_unique (update_rows (untouched_open stream_id (iso_to_string (dates X) (w_from w))
        (iso_to_string (dates X) (w_through w))) (tombstone X) (events db))"
    by (rule events_unique_update [OF db_valid_eventsD(1) [OF assms]])
      (rule event_key_cong, simp_all add: tombstone_def)
  show "list_all (event_check X (set (map ac_id (accounts db))) (set (map st_id (streams db))))
      (update_rows (untouched_open stream_id (iso_to_string (dates X) (w_from w))
        (iso_to_string (dates X) (w_through w))) (tombstone X) (events db))"
    using db_valid_eventsD(2) [OF assms]
    by (auto simp: list_all_iff set_update_rows untouched_open_def intro!: tombstone_event_check)
qed

lemma reproject_check:
  assumes "event_check X A S e" "is_open e" "opt_all (\<lambda>a. a \<in> A) (pj_account_id p)"
    "date_glob (pj_date p)" "amount_check (pj_amount p)" "sqlite_json X (pj_metadata p)"
  shows "event_check X A S (reproject X p e)"
  using assms by (auto simp: event_check_def reproject_def is_open_def)

lemma projected_check:
  assumes "stream_id \<in> S" "opt_all (\<lambda>a. a \<in> A) (pj_account_id p)"
    "date_glob (pj_date p)" "amount_check (pj_amount p)" "sqlite_json X (pj_metadata p)"
  shows "event_check X A S (projected_event X stream_id p i)"
  using assms by (simp add: event_check_def projected_event_def)

lemma upsert_succeeds:
  assumes "db_valid X db" "stream_id \<in> set (map st_id (streams db))" "projection_storable X db p"
  shows "\<exists>db'. upsert_projection X stream_id p db = (Inr (), db') \<and> db_valid X db' \<and>
    accounts db' = accounts db \<and> streams db' = streams db"
proof (cases "list_ex (has_slot stream_id (pj_source_id p)) (events db)")
  case True
  let ?es = "update_rows (\<lambda>e. has_slot stream_id (pj_source_id p) e \<and> is_open e) (reproject X p) (events db)"
  have "db_valid X (db\<lparr>events := ?es\<rparr>)"
  proof (rule db_valid_events(1) [OF assms(1)])
    show "events_unique ?es" by (rule events_unique_update [OF db_valid_eventsD(1) [OF assms(1)]]) simp
    show "list_all (event_check X (set (map ac_id (accounts db))) (set (map st_id (streams db)))) ?es"
      using db_valid_eventsD(2) [OF assms(1)] assms(3)
      by (auto simp: list_all_iff set_update_rows projection_storable_def intro!: reproject_check)
  qed
  then show ?thesis using True by (simp add: upsert_Inr)
next
  case False
  let ?e = "projected_event X stream_id p (event_seq db + 1)"
  have key: "event_key ?e = Some (stream_id, ''stream_schedule'', pj_source_id p)"
    by (simp add: event_key_def projected_event_def)
  have "db_valid X (db\<lparr>events := events db @ [?e], event_seq := event_seq db + 1\<rparr>)"
  proof (rule db_valid_events(2) [OF assms(1)])
    show "events_unique (events db @ [?e])"
      by (rule events_unique_snoc [OF db_valid_eventsD(1) [OF assms(1)] key])
        (use False in \<open>simp add: list_ex_iff has_slot_def\<close>)
    show "list_all (event_check X (set (map ac_id (accounts db))) (set (map st_id (streams db)))) (events db @ [?e])"
      using db_valid_eventsD(2) [OF assms(1)] assms(2,3)
      by (simp add: projection_storable_def projected_check)
  qed
  then show ?thesis using False by (simp add: upsert_Inr)
qed

lemma upserts_succeed:
  assumes "db_valid X db" "stream_id \<in> set (map st_id (streams db))" "\<forall>p \<in> set ps. projection_storable X db p"
  shows "\<exists>db'. for_each (upsert_projection X stream_id) ps db = (Inr (), db')"
  using assms
proof (induction ps arbitrary: db)
  case Nil
  then show ?case by (simp add: ok_def)
next
  case (Cons p ps)
  obtain u where u: "upsert_projection X stream_id p db = (Inr (), u)" "db_valid X u" "accounts u = accounts db"
      "streams u = streams db"
    using upsert_succeeds [OF Cons.prems(1,2), of p] Cons.prems(3) by auto
  have "\<forall>p \<in> set ps. projection_storable X u p" using Cons.prems(3) u(3) by (simp add: projection_storable_def)
  with Cons.IH [OF u(2)] Cons.prems(2) u(4) obtain db' where "for_each (upsert_projection X stream_id) ps u = (Inr (), db')"
    by auto
  then show ?case using u(1) by (auto simp: thn_Inr)
qed

subsection \<open>The plan exists\<close>

definition schedule_decodes :: "ext \<Rightarrow> schedule_row \<Rightarrow> bool" where
  "schedule_decodes X s \<longleftrightarrow> (\<exists>j. iso_from_str (dates X) (sc_start_date s) = Inr j) \<and>
     (case sc_end_date s of None \<Rightarrow> True | Some t \<Rightarrow> \<exists>j. iso_from_str (dates X) t = Inr j)"

definition ext_laws :: "ext \<Rightarrow> bool" where
  "ext_laws X \<longleftrightarrow> time_date (dates X) \<and> (\<forall>i n. sqlite_json X (schedule_meta X i n))"

lemma frequency_decodes:
  "f \<in> {''monthly'', ''semimonthly'', ''biweekly'', ''weekly'', ''annual'', ''one_time''} \<Longrightarrow>
   \<exists>x. frequency_from_str f = Inr x \<and> (f = ''monthly'' \<longleftrightarrow> x = Monthly)"
  by (auto simp: frequency_from_str_def)

lemma bounds_exist:
  assumes "schedule_decodes X s" "schedule_check X A S s"
  shows "\<exists>f a x y. schedule_bounds X w (schedule_from_row s) = Inr (f, a, x, y) \<and>
    (sc_frequency s = ''monthly'' \<longleftrightarrow> f = Monthly)"
proof -
  obtain f where f: "frequency_from_str (sc_frequency s) = Inr f" "sc_frequency s = ''monthly'' \<longleftrightarrow> f = Monthly"
    using frequency_decodes assms(2) unfolding schedule_check_def by blast
  show ?thesis
    using f assms(1)
    by (auto simp: schedule_bounds_def schedule_from_row_def schedule_decodes_def decode_ctx_def split: option.splits)
qed

context time_date
begin

lemma occurrences_exist:
  assumes "in_range D anchor" "storable D from" "in_range D through" "iso_year D through < 9999"
    and "frequency = Monthly \<Longrightarrow> day \<noteq> None"
  shows "\<exists>xs. schedule_occurrences D frequency anchor from through day = Inr xs \<and>
    (\<forall>x \<in> set xs. storable D x \<and> from \<le> x \<and> x \<le> through)"
proof -
  have ir: "in_range D from" using assms(2) by (simp add: storable_def)
  obtain d where "schedule_occurrences D frequency anchor from through day =
      schedule_occurrences D frequency anchor from through (Some d)"
  proof (cases day)
    case None
    then have "frequency \<noteq> Monthly" using assms(5) by blast
    then have "schedule_occurrences D frequency anchor from through day =
        schedule_occurrences D frequency anchor from through (Some 1)"
      by (cases frequency) (simp_all add: schedule_occurrences_def)
    then show ?thesis by (rule that)
  next
    case (Some d)
    then show ?thesis by (intro that [of d]) simp
  qed
  moreover obtain xs where xs: "schedule_occurrences D frequency anchor from through (Some d) = Inr xs"
      "set xs = {c. in_range D c \<and> anchor \<le> c \<and> from \<le> c \<and> c \<le> through \<and> due_on D frequency anchor d c}"
    using occurrences_spec [OF assms(1) ir assms(3,4)] by blast
  moreover have "storable D x \<and> from \<le> x \<and> x \<le> through" if "x \<in> set xs" for x
  proof -
    have "in_range D x" "from \<le> x" "x \<le> through" using that unfolding xs(2) by simp_all
    with year_mono [OF ir] assms(2) show ?thesis by (force simp: storable_def)
  qed
  ultimately show ?thesis by metis
qed

end

lemma plan_schedule_exists:
  assumes "ext_laws X" "window_ok (dates X) w" "schedule_decodes X s"
    "schedule_check X (set (map ac_id (accounts db))) S s"
  shows "\<exists>ps. plan_schedule X name w (schedule_from_row s) = Inr ps \<and> (\<forall>p \<in> set ps. projection_storable X db p)"
proof -
  have td: "time_date (dates X)" using assms(1) by (simp add: ext_laws_def)
  note occurrences_exist = time_date.occurrences_exist [OF td]
  let ?s = "schedule_from_row s"
  obtain f st a b where b: "schedule_bounds X w ?s = Inr (f, st, a, b)" "sc_frequency s = ''monthly'' \<longleftrightarrow> f = Monthly"
    using bounds_exist [OF assms(3,4)] by blast
  show ?thesis
  proof (cases "b < a")
    case True
    then show ?thesis using b(1) by (simp add: plan_schedule_def)
  next
    case False
    then have le: "a \<le> b" by simp
    note bo = schedule_bounds_ok [OF td assms(2) b(1) le]
    have day: "f = Monthly \<Longrightarrow> map_option (\<lambda>d. nat (d mod 256)) (zv_day_of_month ?s) \<noteq> None"
      using b(2) assms(4) by (simp add: schedule_check_def schedule_from_row_def)
    have "in_range (dates X) st" using bo(1) by (simp add: storable_def)
    then have "\<exists>xs. schedule_occurrences (dates X) f st a b (map_option (\<lambda>d. nat (d mod 256)) (zv_day_of_month ?s)) = Inr xs \<and>
        (\<forall>x \<in> set xs. storable (dates X) x \<and> a \<le> x \<and> x \<le> b)"
      by (rule occurrences_exist [OF _ bo(2-4)]) (rule day)
    then obtain xs where xs0: "schedule_occurrences (dates X) f st a b (map_option (\<lambda>d. nat (d mod 256)) (zv_day_of_month ?s)) = Inr xs"
        "\<forall>x \<in> set xs. storable (dates X) x \<and> a \<le> x \<and> x \<le> b"
      by (elim exE conjE)
    have xs: "schedule_occurrences (dates X) f st a b (map_option (\<lambda>d. nat (d mod 256)) (zv_day_of_month ?s)) = Inr xs"
        "\<forall>x \<in> set xs. storable (dates X) x"
      using xs0 by simp_all
    have p: "projection_storable X db (projection_of X name ?s f st x)" if "storable (dates X) x" for x
      using assms(1,4) date_glob_iff_storable_text [OF that td]
      by (simp add: projection_storable_def projection_of_def schedule_from_row_def schedule_check_def ext_laws_def)
    have "plan_schedule X name w ?s = Inr (map (projection_of X name ?s f st) xs)"
      using b(1) False xs(1) by (simp add: plan_schedule_def fin_res_def)
    with p xs(2) show ?thesis by auto
  qed
qed

lemma collect_res_exists:
  assumes "\<forall>x \<in> set xs. \<exists>a. f x = Inr a \<and> Q a"
  shows "\<exists>as. collect_res (map f xs) = Inr as \<and> (\<forall>a \<in> set as. Q a)"
  using assms by (induction xs) force+

lemma plan_exists:
  assumes "ext_laws X" "window_ok (dates X) w" "db_valid X db"
    and "\<forall>s \<in> set (schedules db). sc_stream_id s = stream_id \<and> sc_is_active s \<longrightarrow> schedule_decodes X s"
  shows "\<exists>ps. plan X stream_id name w db = Inr ps \<and> (\<forall>p \<in> set ps. projection_storable X db p)"
proof -
  have c: "schedule_check X (set (map ac_id (accounts db))) (set (map st_id (streams db))) s" if "s \<in> set (schedules db)" for s
    using that assms(3) by (simp add: db_valid_def Let_def list_all_iff)
  have "\<exists>ps. plan_schedule X name w z = Inr ps \<and> (\<forall>p \<in> set ps. projection_storable X db p)"
    if z: "z \<in> set (active_schedules stream_id db)" for z
  proof -
    obtain s where s: "s \<in> set (schedules db)" "sc_stream_id s = stream_id" "sc_is_active s" "z = schedule_from_row s"
      using z by (auto simp: active_schedules_def)
    show ?thesis unfolding s(4) by (rule plan_schedule_exists [OF assms(1,2) _ c [OF s(1)]]) (use assms(4) s in blast)
  qed
  from collect_res_exists [of "active_schedules stream_id db" "plan_schedule X name w", OF ballI, OF this]
  obtain pss where "collect_res (map (plan_schedule X name w) (active_schedules stream_id db)) = Inr pss"
      "\<forall>ps \<in> set pss. \<forall>p \<in> set ps. projection_storable X db p"
    by blast
  then show ?thesis by (auto simp: plan_def)
qed

text \<open>C22: A refresh cannot fail: on a valid database whose active schedules of the stream hold calendar
  dates, with a window that starts in a four-digit year and ends before the year 9999, the refresh
  of an existing stream returns the number of planned occurrences; no constraint is violated, no date
  computation panics and the month loop's fuel suffices.\<close>

theorem refresh_total:
  assumes "ext_laws X" "window_ok (dates X) w" "db_valid X db" "stream_id \<in> set (map st_id (streams db))"
    and "\<forall>s \<in> set (schedules db). sc_stream_id s = stream_id \<and> sc_is_active s \<longrightarrow> schedule_decodes X s"
  shows "\<exists>ps db'. plan X stream_id name w db = Inr ps \<and>
    refresh_stream_schedule_events_on X stream_id name w db = (Inr (length ps), db')"
proof -
  obtain ps where ps: "plan X stream_id name w db = Inr ps" "\<forall>p \<in> set ps. projection_storable X db p"
    using plan_exists [OF assms(1-3,5)] by blast
  have "\<forall>p \<in> set ps. projection_storable X (tombstoned X stream_id w db) p"
    using ps(2) by (simp add: projection_storable_def tombstoned_def)
  moreover have "stream_id \<in> set (map st_id (streams (tombstoned X stream_id w db)))"
    using assms(4) by (simp add: tombstoned_def)
  ultimately obtain db' where
      "for_each (upsert_projection X stream_id) ps (tombstoned X stream_id w db) = (Inr (), db')"
    using upserts_succeed [OF tombstoned_valid [OF assms(3)]] by blast
  then show ?thesis using ps(1) tombstoned_valid [OF assms(3)] unfolding refresh_plan by blast
qed

lemma sample_laws: "ext_laws (sample_ext\<lparr>schedule_meta := \<lambda>i n. ''{}''\<rparr>)"
  using sample_dates by (simp add: ext_laws_def sample_ext_def)

lemma sample_valid': "db_valid (sample_ext\<lparr>schedule_meta := \<lambda>i n. ''{}''\<rparr>) sample_db"
  by (simp add: valid_defs sample_db_def sample_rows sample_ext_def)

theorem refresh_total_witness:
  "\<exists>ps db'. plan (sample_ext\<lparr>schedule_meta := \<lambda>i n. ''{}''\<rparr>) 1 ''Rent'' feb sample_db = Inr ps \<and>
    refresh_stream_schedule_events_on (sample_ext\<lparr>schedule_meta := \<lambda>i n. ''{}''\<rparr>) 1 ''Rent'' feb sample_db =
      (Inr (length ps), db')"
proof (rule refresh_total [OF sample_laws _ sample_valid'])
  show "window_ok (dates (sample_ext\<lparr>schedule_meta := \<lambda>i n. ''{}''\<rparr>)) feb" using feb_ok by simp
  show "1 \<in> set (map st_id (streams sample_db))" by (simp add: sample_tables sample_keys)
  show "\<forall>s \<in> set (schedules sample_db). sc_stream_id s = 1 \<and> sc_is_active s \<longrightarrow>
      schedule_decodes (sample_ext\<lparr>schedule_meta := \<lambda>i n. ''{}''\<rparr>) s"
    by (simp add: sample_tables schedule_decodes_def rent_schedule_def sample_ext_def sample_texts)
qed

end
