(* ===== verification/Forecast.thy ===== *)
theory Forecast
  imports Refresh_Total
begin

text \<open>
  The forecast in \<open>src/finance/repository.rs\<close>: \<open>forecast_events\<close>, \<open>balance_at\<close>, \<open>balance_before\<close> and
  \<open>compute_forecast\<close>. Amounts are floats; the theorems are stated for inputs whose sums are exact
  (\<open>exact_list\<close>: all amounts are multiples of one power of two, and the absolute values add up to less
  than 53 bits of it), as whole numbers of dollars below \<open>2^53\<close> are; for such inputs the three ways in
  which the code adds up (opening, running and ending balances) agree.
\<close>

subsection \<open>The events of a forecast\<close>

record forecast_row =
  fr_event_id :: int
  fr_stream_id :: int
  fr_account_id :: "int option"
  fr_has_account_override :: bool
  fr_date :: string
  fr_expected_date :: string
  fr_actual_date :: "string option"
  fr_label :: "string option"
  fr_stream_name :: "string option"
  fr_account_name :: "string option"
  fr_amount :: f64
  fr_status :: string
  fr_direction :: string
  fr_certainty :: string
  fr_source_type :: "string option"
  fr_metadata :: "string option"

record parsed_event =
  pe_date :: iso_date
  pe_direction :: direction
  pe_row :: forecast_row

definition joined_account :: "event_row \<Rightarrow> stream_row \<Rightarrow> int option" where
  "joined_account e s = (if ev_has_account_override e then ev_override_account_id e
     else coalesce (ev_account_id e) (st_default_account_id s))"

definition join_stream :: "fin_db \<Rightarrow> event_row \<Rightarrow> (event_row \<times> stream_row) option" where
  "join_stream db e = map_option (Pair e) (find (\<lambda>s. st_id s = ev_stream_id e) (streams db))"

definition in_view :: "fin_db \<Rightarrow> int option \<Rightarrow> int \<Rightarrow> bool" where
  "in_view db view_id stream_id = (case view_id of None \<Rightarrow> True
     | Some v \<Rightarrow> list_ex (\<lambda>m. fst m = v \<and> snd m = stream_id \<and>
         list_ex (\<lambda>w. vw_id w = v \<and> vw_is_active w) (views db)) (members db))"

definition forecast_query_rows :: "ext \<Rightarrow> iso_date \<Rightarrow> iso_date \<Rightarrow> int option \<Rightarrow> int option \<Rightarrow> fin_db \<Rightarrow>
    (event_row \<times> stream_row) list" where
  "forecast_query_rows X from through stream_id view_id db =
     sort_key (\<lambda>(e, s). (effective_date e, ev_id e))
       (filter (\<lambda>(e, s). st_is_active s \<and> \<not> ev_is_excluded e \<and>
            iso_to_string (dates X) from \<le> effective_date e \<and>
            effective_date e \<le> iso_to_string (dates X) through \<and>
            (stream_id = None \<or> stream_id = Some (ev_stream_id e)) \<and> in_view db view_id (ev_stream_id e))
         (List.map_filter (join_stream db) (events db)))"

definition forecast_row_of :: "fin_db \<Rightarrow> event_row \<Rightarrow> stream_row \<Rightarrow> forecast_row" where
  "forecast_row_of db e s =
     \<lparr>fr_event_id = ev_id e, fr_stream_id = ev_stream_id e, fr_account_id = joined_account e s,
      fr_has_account_override = ev_has_account_override e, fr_date = effective_date e,
      fr_expected_date = ev_expected_date e, fr_actual_date = ev_actual_date e,
      fr_label = effective_label e, fr_stream_name = Some (st_name s),
      fr_account_name = account_name db (joined_account e s), fr_amount = effective_amount e,
      fr_status = ev_status e, fr_direction = st_direction s, fr_certainty = st_certainty s,
      fr_source_type = ev_source_type e, fr_metadata = ev_metadata e\<rparr>"

definition parse_forecast_row :: "ext \<Rightarrow> fin_db \<Rightarrow> event_row \<times> stream_row \<Rightarrow> fin_error + parsed_event" where
  "parse_forecast_row X db = (\<lambda>(e, s).
     rbnd (decode_ctx ''forecast event has an invalid effective date''
            (iso_from_str (dates X) (effective_date e))) (\<lambda>date.
     rbnd (decode_ctx ''forecast event has an invalid direction'' (direction_from_str (st_direction s))) (\<lambda>direction.
     rbnd (decode_ctx ''forecast event has invalid amount certainty'' (certainty_from_str (st_certainty s))) (\<lambda>_.
       Inr \<lparr>pe_date = date, pe_direction = direction, pe_row = forecast_row_of db e s\<rparr>))))"

definition forecast_events :: "ext \<Rightarrow> iso_date \<Rightarrow> iso_date \<Rightarrow> int option \<Rightarrow> int option \<Rightarrow>
    parsed_event list fin_op" where
  "forecast_events X from through stream_id view_id =
     bnd (gets (\<lambda>db. collect_res (map (parse_forecast_row X db)
            (forecast_query_rows X from through stream_id view_id db)))) lift_res"

subsection \<open>Balances\<close>

definition picked :: "(iso_date \<Rightarrow> bool) \<Rightarrow> parsed_event list \<Rightarrow> f64 list \<Rightarrow> f64 list" where
  "picked P es amounts = map snd (filter (\<lambda>(e, _). P (pe_date e)) (zip es amounts))"

definition balance_at :: "f64 \<Rightarrow> iso_date \<Rightarrow> iso_date \<Rightarrow> parsed_event list \<Rightarrow> f64 list \<Rightarrow> f64" where
  "balance_at start anchor target es amounts =
     (if anchor \<le> target
      then f64_add start (f64_sum (picked (\<lambda>d. anchor < d \<and> d \<le> target) es amounts))
      else f64_sub start (f64_sum (picked (\<lambda>d. target < d \<and> d \<le> anchor) es amounts)))"

definition balance_before :: "f64 \<Rightarrow> iso_date \<Rightarrow> iso_date \<Rightarrow> parsed_event list \<Rightarrow> f64 list \<Rightarrow> f64" where
  "balance_before start anchor window_start es amounts =
     (if anchor < window_start
      then f64_add start (f64_sum (picked (\<lambda>d. anchor < d \<and> d < window_start) es amounts))
      else f64_sub start (f64_sum (picked (\<lambda>d. window_start \<le> d \<and> d \<le> anchor) es amounts)))"

definition forward_balances :: "f64 \<Rightarrow> iso_date \<Rightarrow> parsed_event list \<Rightarrow> f64 list \<Rightarrow> f64 list" where
  "forward_balances start anchor es amounts =
     snd (foldl (\<lambda>(future, bs) i.
            if anchor < pe_date (es ! i)
            then (f64_add future (amounts ! i), bs[i := f64_add future (amounts ! i)])
            else (future, bs)) (start, replicate (length es) start) [0..<length es])"

definition running_balances :: "f64 \<Rightarrow> iso_date \<Rightarrow> parsed_event list \<Rightarrow> f64 list \<Rightarrow> f64 list" where
  "running_balances start anchor es amounts =
     snd (foldl (\<lambda>(past, bs) i.
            if pe_date (es ! i) \<le> anchor then (f64_sub past (amounts ! i), bs[i := past])
            else (past, bs)) (start, forward_balances start anchor es amounts) (rev [0..<length es]))"

subsection \<open>The forecast\<close>

record forecast_query =
  fq_from :: iso_date
  fq_through :: iso_date
  fq_today :: iso_date
  fq_stream_id :: "int option"
  fq_view_id :: "int option"

record forecast_line = forecast_row +
  fl_running_balance :: f64
  fl_is_late :: bool

record forecast_response =
  fo_starting_balance :: f64
  fo_as_of :: string
  fo_cash_source :: cash_source
  fo_opening_balance :: f64
  fo_rows :: "forecast_line list"
  fo_ending_balance :: f64

definition is_late :: "iso_date \<Rightarrow> parsed_event \<Rightarrow> bool" where
  "is_late today e \<longleftrightarrow> fr_actual_date (pe_row e) = None \<and> pe_date e < today \<and>
     fr_status (pe_row e) \<in> {''projected'', ''confirmed''}"

definition forecast_line_of :: "iso_date \<Rightarrow> parsed_event \<Rightarrow> f64 \<Rightarrow> f64 \<Rightarrow> forecast_line" where
  "forecast_line_of today e amount balance =
     forecast_row.extend ((pe_row e)\<lparr>fr_amount := amount\<rparr>)
       (forecast_line.fields balance (is_late today e))"

definition signed_amounts :: "parsed_event list \<Rightarrow> f64 list" where
  "signed_amounts es = map (\<lambda>e. signed (pe_direction e) (fr_amount (pe_row e))) es"

definition build_forecast :: "ext \<Rightarrow> forecast_query \<Rightarrow> f64 \<Rightarrow> iso_date \<Rightarrow> cash_source \<Rightarrow>
    parsed_event list \<Rightarrow> forecast_response" where
  "build_forecast X q start anchor source es =
     (let amounts = signed_amounts es;
          opening = balance_before start anchor (fq_from q) es amounts;
          balances = running_balances start anchor es amounts;
          ending = balance_at start anchor (fq_through q) es amounts;
          rows = map (\<lambda>i. forecast_line_of (fq_today q) (es ! i) (amounts ! i) (balances ! i))
                   (filter (\<lambda>i. fq_from q \<le> pe_date (es ! i) \<and> pe_date (es ! i) \<le> fq_through q) [0..<length es])
      in \<lparr>fo_starting_balance = start, fo_as_of = iso_to_string (dates X) anchor, fo_cash_source = source,
          fo_opening_balance = opening, fo_rows = rows, fo_ending_balance = ending\<rparr>)"

definition compute_forecast :: "ext \<Rightarrow> forecast_query \<Rightarrow> forecast_response option fin_op" where
  "compute_forecast X q =
     (if fq_through q < fq_from q then raise (Storage ''forecast range ends before it starts'')
      else bnd primary_account_with_balance (\<lambda>row.
        case row of None \<Rightarrow> ok None
        | Some a \<Rightarrow>
            bnd (some_or (Storage ''cash anchor has no balance'') (av_balance a)) (\<lambda>start.
            bnd (some_or (Storage ''cash anchor has no as-of date'') (av_as_of a)) (\<lambda>as_of.
            bnd (lift_ctx ''cash anchor contains an invalid as-of date'' (iso_from_str (dates X) as_of)) (\<lambda>anchor.
            bnd (bnd get_cash_source (some_or (Storage ''cash anchor disappeared during forecast''))) (\<lambda>source.
            bnd (forecast_events X (min (fq_from q) anchor) (max (fq_through q) anchor)
                   (fq_stream_id q) (fq_view_id q)) (\<lambda>es.
              ok (Some (build_forecast X q start anchor source es)))))))))"


subsection \<open>Closed forms of the running balances\<close>

lemma forward_loop:
  assumes "length es = n" "k \<le> n"
  shows "\<exists>bs. foldl (\<lambda>(future, bs) i. if anchor < pe_date (es ! i)
            then (f64_add future (amounts ! i), bs[i := f64_add future (amounts ! i)]) else (future, bs))
            (start, replicate n start) [0..<k] =
      (foldl f64_add start (map ((!) amounts) (filter (\<lambda>i. anchor < pe_date (es ! i)) [0..<k])), bs) \<and>
    length bs = n \<and> (\<forall>i < n. bs ! i = (if i < k \<and> anchor < pe_date (es ! i)
      then foldl f64_add start (map ((!) amounts) (filter (\<lambda>i. anchor < pe_date (es ! i)) [0..<Suc i])) else start))"
  using assms(2)
proof (induction k)
  case 0
  then show ?case by simp
next
  case (Suc k)
  then obtain bs where "foldl (\<lambda>(future, bs) i. if anchor < pe_date (es ! i)
            then (f64_add future (amounts ! i), bs[i := f64_add future (amounts ! i)]) else (future, bs))
            (start, replicate n start) [0..<k] =
      (foldl f64_add start (map ((!) amounts) (filter (\<lambda>i. anchor < pe_date (es ! i)) [0..<k])), bs)"
    "length bs = n" "\<forall>i < n. bs ! i = (if i < k \<and> anchor < pe_date (es ! i)
      then foldl f64_add start (map ((!) amounts) (filter (\<lambda>i. anchor < pe_date (es ! i)) [0..<Suc i])) else start)"
    by auto
  with Suc.prems show ?case by (auto simp: nth_list_update less_Suc_eq)
qed

lemma forward_balances:
  shows "length (forward_balances start anchor es amounts) = length es"
    and "i < length es \<Longrightarrow> forward_balances start anchor es amounts ! i = (if anchor < pe_date (es ! i)
      then foldl f64_add start (map ((!) amounts) (filter (\<lambda>i. anchor < pe_date (es ! i)) [0..<Suc i])) else start)"
  using forward_loop [where es = es and k = "length es" and anchor = anchor and amounts = amounts and start = start,
      OF refl order_refl] by (auto simp: forward_balances_def)

lemma backward_loop:
  assumes "k \<le> n" "length bs0 = n"
  shows "\<exists>bs. foldl (\<lambda>(past, bs) i. if pe_date (es ! i) \<le> anchor then (f64_sub past (amounts ! i), bs[i := past])
            else (past, bs)) (start, bs0) (rev [k..<n]) =
      (foldl f64_sub start (map ((!) amounts) (rev (filter (\<lambda>i. pe_date (es ! i) \<le> anchor) [k..<n]))), bs) \<and>
    length bs = n \<and> (\<forall>i < n. bs ! i = (if k \<le> i \<and> pe_date (es ! i) \<le> anchor
      then foldl f64_sub start (map ((!) amounts) (rev (filter (\<lambda>i. pe_date (es ! i) \<le> anchor) [Suc i..<n]))) else bs0 ! i))"
  using assms(1)
proof (induction rule: inc_induct)
  case base
  then show ?case using assms(2) by simp
next
  case (step k)
  then obtain bs where "foldl (\<lambda>(past, bs) i. if pe_date (es ! i) \<le> anchor then (f64_sub past (amounts ! i), bs[i := past])
            else (past, bs)) (start, bs0) (rev [Suc k..<n]) =
      (foldl f64_sub start (map ((!) amounts) (rev (filter (\<lambda>i. pe_date (es ! i) \<le> anchor) [Suc k..<n]))), bs)"
    "length bs = n" "\<forall>i < n. bs ! i = (if Suc k \<le> i \<and> pe_date (es ! i) \<le> anchor
      then foldl f64_sub start (map ((!) amounts) (rev (filter (\<lambda>i. pe_date (es ! i) \<le> anchor) [Suc i..<n]))) else bs0 ! i)"
    by blast
  moreover have "[k..<n] = k # [Suc k..<n]" using step.hyps(2) by (simp add: upt_conv_Cons)
  moreover have "k \<le> i \<longleftrightarrow> i = k \<or> Suc k \<le> i" for i by auto
  ultimately show ?case using step.hyps by (auto simp: nth_list_update)
qed

lemma running_balances:
  shows "length (running_balances start anchor es amounts) = length es"
    and "i < length es \<Longrightarrow> running_balances start anchor es amounts ! i = (if anchor < pe_date (es ! i)
      then foldl f64_add start (map ((!) amounts) (filter (\<lambda>i. anchor < pe_date (es ! i)) [0..<Suc i]))
      else foldl f64_sub start (map ((!) amounts) (rev (filter (\<lambda>i. pe_date (es ! i) \<le> anchor) [Suc i..<length es]))))"
proof -
  obtain bs where bs: "snd (foldl (\<lambda>(past, bs) i. if pe_date (es ! i) \<le> anchor then (f64_sub past (amounts ! i), bs[i := past])
            else (past, bs)) (start, forward_balances start anchor es amounts) (rev [0..<length es])) = bs"
    "length bs = length es" "\<forall>i < length es. bs ! i = (if pe_date (es ! i) \<le> anchor
      then foldl f64_sub start (map ((!) amounts) (rev (filter (\<lambda>i. pe_date (es ! i) \<le> anchor) [Suc i..<length es])))
      else forward_balances start anchor es amounts ! i)"
    using backward_loop [where es = es and anchor = anchor and amounts = amounts and start = start,
      OF le0 forward_balances(1) [of start anchor es amounts]] by auto
  show "length (running_balances start anchor es amounts) = length es"
    unfolding running_balances_def bs(1) by (rule bs(2))
  show "i < length es \<Longrightarrow> running_balances start anchor es amounts ! i = (if anchor < pe_date (es ! i)
      then foldl f64_add start (map ((!) amounts) (filter (\<lambda>i. anchor < pe_date (es ! i)) [0..<Suc i]))
      else foldl f64_sub start (map ((!) amounts) (rev (filter (\<lambda>i. pe_date (es ! i) \<le> anchor) [Suc i..<length es]))))"
    unfolding running_balances_def bs(1) using bs(3) by (simp add: forward_balances(2))
qed

lemma picked_indices:
  assumes "length amounts = length es"
  shows "picked P es amounts = map ((!) amounts) (filter (\<lambda>i. P (pe_date (es ! i))) [0..<length es])"
proof -
  have "zip es amounts = map (\<lambda>i. (es ! i, amounts ! i)) [0..<length es]"
    using assms by (intro nth_equalityI) simp_all
  then show ?thesis by (simp add: picked_def filter_map comp_def)
qed

subsection \<open>Exact sums\<close>

definition amount_sum :: "f64 list \<Rightarrow> nat set \<Rightarrow> int" where
  "amount_sum amounts A = (\<Sum>i \<in> A. f64_units (amounts ! i))"

lemma amount_sum_split:
  "finite B \<Longrightarrow> finite C \<Longrightarrow> A = B \<union> C \<Longrightarrow> B \<inter> C = {} \<Longrightarrow>
   amount_sum amounts A = amount_sum amounts B + amount_sum amounts C"
  by (simp add: amount_sum_def sum.union_disjoint)

lemma exact_indices:
  assumes "exact_list e v amounts" "distinct js" "set js \<subseteq> {..<length amounts}"
  shows "exact_list e v (map ((!) amounts) js)" "exact_list e 0 (map ((!) amounts) js)"
    "exact_list e v (map (\<lambda>i. f64_neg (amounts ! i)) js)"
    "sum_list (map f64_units (map ((!) amounts) js)) = amount_sum amounts (set js)"
    "on_grid e (v + amount_sum amounts (set js))" "on_grid e (v - amount_sum amounts (set js))"
proof -
  let ?a = "\<lambda>i. \<bar>f64_units (amounts ! i)\<bar>"
  have tot: "sum_list (map (\<lambda>x. \<bar>f64_units x\<bar>) amounts) = sum ?a {..<length amounts}"
    by (simp add: sum_list_sum_nth atLeast0LessThan)
  have part: "sum_list (map ?a js) = sum ?a (set js)" using assms(2) by (simp add: sum_list_distinct_conv_sum_set)
  have le: "sum ?a (set js) \<le> sum ?a {..<length amounts}"
    by (rule sum_mono2) (use assms(3) in auto)
  have fin: "\<forall>i \<in> set js. is_finite (amounts ! i) \<and> 2 ^ e dvd f64_units (amounts ! i)"
    using assms(1,3) by (force simp: exact_list_def)
  have bound: "\<bar>v\<bar> + sum ?a (set js) < 2 ^ (e + 53)" "e \<le> 2045" "2 ^ e dvd v"
    using assms(1) le tot by (auto simp: exact_list_def)
  have z: "sum ?a (set js) < 2 ^ (e + 53)" using bound(1) by linarith
  show "exact_list e v (map ((!) amounts) js)" "exact_list e 0 (map ((!) amounts) js)"
    "exact_list e v (map (\<lambda>i. f64_neg (amounts ! i)) js)"
    using bound z fin part by (simp_all add: exact_list_def comp_def)
  show "sum_list (map f64_units (map ((!) amounts) js)) = amount_sum amounts (set js)"
    using assms(2) by (simp add: amount_sum_def comp_def sum_list_distinct_conv_sum_set)
  have "\<bar>amount_sum amounts (set js)\<bar> \<le> sum ?a (set js)" unfolding amount_sum_def by (rule sum_abs)
  moreover have "2 ^ e dvd amount_sum amounts (set js)" unfolding amount_sum_def using fin by (intro dvd_sum) auto
  ultimately show "on_grid e (v + amount_sum amounts (set js))" "on_grid e (v - amount_sum amounts (set js))"
    using bound unfolding on_grid_def by auto
qed

lemma foldl_sub_add: "foldl f64_sub a xs = foldl f64_add a (map f64_neg xs)"
  by (induction xs arbitrary: a) (simp_all add: f64_sub_def)

lemma units_folds:
  assumes "is_finite start" "exact_list e (f64_units start) amounts" "distinct js" "set js \<subseteq> {..<length amounts}"
  shows "f64_units (foldl f64_add start (map ((!) amounts) js)) = f64_units start + amount_sum amounts (set js)"
    and "f64_units (foldl f64_sub start (map ((!) amounts) js)) = f64_units start - amount_sum amounts (set js)"
    and "f64_units (f64_add start (f64_sum (map ((!) amounts) js))) = f64_units start + amount_sum amounts (set js)"
    and "f64_units (f64_sub start (f64_sum (map ((!) amounts) js))) = f64_units start - amount_sum amounts (set js)"
proof -
  note x = exact_indices [OF assms(2-4)]
  show "f64_units (foldl f64_add start (map ((!) amounts) js)) = f64_units start + amount_sum amounts (set js)"
    using f64_foldl_exact [OF assms(1) x(1)] x(4) by simp
  have "sum_list (map (\<lambda>i. - f64_units (amounts ! i)) js) = - amount_sum amounts (set js)"
    using assms(3) by (simp add: amount_sum_def sum_list_distinct_conv_sum_set sum_negf)
  then show "f64_units (foldl f64_sub start (map ((!) amounts) js)) = f64_units start - amount_sum amounts (set js)"
    using f64_foldl_exact [OF assms(1) x(3)] by (simp add: foldl_sub_add comp_def)
  have s: "is_finite (f64_sum (map ((!) amounts) js))" "f64_units (f64_sum (map ((!) amounts) js)) = amount_sum amounts (set js)"
    using f64_sum_exact [OF x(2)] x(4) by simp_all
  show "f64_units (f64_add start (f64_sum (map ((!) amounts) js))) = f64_units start + amount_sum amounts (set js)"
    using f64_add_exact [OF assms(1) s(1), of e] s(2) x(5) by simp
  show "f64_units (f64_sub start (f64_sum (map ((!) amounts) js))) = f64_units start - amount_sum amounts (set js)"
    using f64_sub_exact [OF assms(1) s(1), of e] s(2) x(6) by simp
qed


subsection \<open>The three balances agree\<close>

lemma strict_take:
  assumes "sorted_wrt (<) (W :: nat list)" "k < length W"
  shows "set (take (Suc k) W) = {j \<in> set W. j \<le> W ! k}"
proof (rule set_eqI)
  fix j
  have "W ! m \<le> W ! k \<longleftrightarrow> m \<le> k" if "m < length W" for m
    using sorted_wrt_nth_less [OF assms(1), of m k] sorted_wrt_nth_less [OF assms(1), of k m] that assms(2)
    by (cases m k rule: linorder_cases) auto
  then show "j \<in> set (take (Suc k) W) \<longleftrightarrow> j \<in> {j \<in> set W. j \<le> W ! k}"
    using assms(2) by (auto simp: in_set_conv_nth less_Suc_eq_le intro: le_less_trans)
qed

definition balanced :: "parsed_event list \<Rightarrow> f64 list \<Rightarrow> f64 \<Rightarrow> nat \<Rightarrow> bool" where
  "balanced es amounts start e \<longleftrightarrow> length amounts = length es \<and> sorted (map pe_date es) \<and>
     is_finite start \<and> exact_list e (f64_units start) amounts"

lemma balancedD:
  assumes "balanced es amounts start e"
  shows "length amounts = length es" "sorted (map pe_date es)" "is_finite start"
    "exact_list e (f64_units start) amounts"
  using assms by (simp_all add: balanced_def)

lemma dates_mono:
  assumes b: "balanced es amounts start e"
  shows "i \<le> j \<Longrightarrow> j < length es \<Longrightarrow> pe_date (es ! i) \<le> pe_date (es ! j)"
  using balancedD(2) [OF b] sorted_nth_mono [of "map pe_date es" i j] by simp

lemma sums:
  assumes b: "balanced es amounts start e"
  shows "f64_units (f64_add start (f64_sum (picked P es amounts))) =
     f64_units start + amount_sum amounts {i. i < length es \<and> P (pe_date (es ! i))}"
  "f64_units (f64_sub start (f64_sum (picked P es amounts))) =
     f64_units start - amount_sum amounts {i. i < length es \<and> P (pe_date (es ! i))}"
proof -
  let ?js = "filter (\<lambda>i. P (pe_date (es ! i))) [0..<length es]"
  have js: "distinct ?js" "set ?js \<subseteq> {..<length amounts}" using balancedD(1) [OF b] by auto
  have "set ?js = {i. i < length es \<and> P (pe_date (es ! i))}" by auto
  with units_folds(3,4) [OF balancedD(3,4) [OF b] js] show
    "f64_units (f64_add start (f64_sum (picked P es amounts))) =
     f64_units start + amount_sum amounts {i. i < length es \<and> P (pe_date (es ! i))}"
    "f64_units (f64_sub start (f64_sum (picked P es amounts))) =
     f64_units start - amount_sum amounts {i. i < length es \<and> P (pe_date (es ! i))}"
    by (simp_all add: picked_indices [OF balancedD(1) [OF b]])
qed

lemma running_units:
  assumes b: "balanced es amounts start e" and i: "i < length es"
  shows "f64_units (running_balances start anchor es amounts ! i) =
    (if anchor < pe_date (es ! i)
     then f64_units start + amount_sum amounts {j. j < length es \<and> j \<le> i \<and> anchor < pe_date (es ! j)}
     else f64_units start - amount_sum amounts {j. j < length es \<and> i < j \<and> pe_date (es ! j) \<le> anchor})"
proof (cases "anchor < pe_date (es ! i)")
  case True
  let ?js = "filter (\<lambda>i. anchor < pe_date (es ! i)) [0..<Suc i]"
  have js: "distinct ?js" "set ?js \<subseteq> {..<length amounts}" using i balancedD(1) [OF b] by auto
  have "set ?js = {j. j < length es \<and> j \<le> i \<and> anchor < pe_date (es ! j)}"
    using i by (auto simp: less_Suc_eq_le simp del: upt_Suc)
  with True units_folds(1) [OF balancedD(3,4) [OF b] js] i show ?thesis by (simp add: running_balances(2) del: upt_Suc)
next
  case False
  let ?js = "rev (filter (\<lambda>i. pe_date (es ! i) \<le> anchor) [Suc i..<length es])"
  have js: "distinct ?js" "set ?js \<subseteq> {..<length amounts}" using i balancedD(1) [OF b] by auto
  have "set ?js = {j. j < length es \<and> i < j \<and> pe_date (es ! j) \<le> anchor}" by auto
  with False units_folds(2) [OF balancedD(3,4) [OF b] js] i show ?thesis by (simp add: running_balances(2) del: upt_Suc)
qed

lemma opening_units:
  assumes b: "balanced es amounts start e"
  shows "f64_units (balance_before start anchor from es amounts) =
    (if anchor < from
     then f64_units start + amount_sum amounts {i. i < length es \<and> anchor < pe_date (es ! i) \<and> pe_date (es ! i) < from}
     else f64_units start - amount_sum amounts {i. i < length es \<and> from \<le> pe_date (es ! i) \<and> pe_date (es ! i) \<le> anchor})"
  unfolding balance_before_def using sums [OF b] by simp

lemma ending_units:
  assumes b: "balanced es amounts start e"
  shows "f64_units (balance_at start anchor through es amounts) =
    (if anchor \<le> through
     then f64_units start + amount_sum amounts {i. i < length es \<and> anchor < pe_date (es ! i) \<and> pe_date (es ! i) \<le> through}
     else f64_units start - amount_sum amounts {i. i < length es \<and> through < pe_date (es ! i) \<and> pe_date (es ! i) \<le> anchor})"
  unfolding balance_at_def using sums [OF b] by simp

lemma ending_opening:
  assumes b: "balanced es amounts start e" and window: "from \<le> through"
  shows "f64_units (balance_at start anchor through es amounts) = f64_units (balance_before start anchor from es amounts) +
     amount_sum amounts {i. i < length es \<and> from \<le> pe_date (es ! i) \<and> pe_date (es ! i) \<le> through}"
proof -
  let ?R = "\<lambda>P. {i. i < length es \<and> P (pe_date (es ! i))}"
  have split: "amount_sum amounts (?R A) = amount_sum amounts (?R B) + amount_sum amounts (?R C)"
    if "\<And>d. A d \<longleftrightarrow> B d \<or> C d" "\<And>d. \<not> (B d \<and> C d)" for A B C
    by (rule amount_sum_split) (use that in auto)
  consider "anchor < from" | "from \<le> anchor" "anchor \<le> through" | "through < anchor" by linarith
  then show ?thesis
  proof cases
    case 1
    have "amount_sum amounts (?R (\<lambda>d. anchor < d \<and> d \<le> through)) =
        amount_sum amounts (?R (\<lambda>d. anchor < d \<and> d < from)) + amount_sum amounts (?R (\<lambda>d. from \<le> d \<and> d \<le> through))"
      using 1 window by (intro split) auto
    then show ?thesis using 1 window by (simp add: ending_units [OF b] opening_units [OF b])
  next
    case 2
    have "amount_sum amounts (?R (\<lambda>d. from \<le> d \<and> d \<le> through)) =
        amount_sum amounts (?R (\<lambda>d. from \<le> d \<and> d \<le> anchor)) + amount_sum amounts (?R (\<lambda>d. anchor < d \<and> d \<le> through))"
      using 2 by (intro split) auto
    then show ?thesis using 2 by (simp add: ending_units [OF b] opening_units [OF b])
  next
    case 3
    have "amount_sum amounts (?R (\<lambda>d. from \<le> d \<and> d \<le> anchor)) =
        amount_sum amounts (?R (\<lambda>d. from \<le> d \<and> d \<le> through)) + amount_sum amounts (?R (\<lambda>d. through < d \<and> d \<le> anchor))"
      using 3 window by (intro split) auto
    then show ?thesis using 3 window by (simp add: ending_units [OF b] opening_units [OF b])
  qed
qed

lemma running_opening:
  assumes b: "balanced es amounts start e" and i: "i < length es" "from \<le> pe_date (es ! i)" "pe_date (es ! i) \<le> through"
  shows "f64_units (running_balances start anchor es amounts ! i) =
    f64_units (balance_before start anchor from es amounts) +
    amount_sum amounts {j. j < length es \<and> j \<le> i \<and> from \<le> pe_date (es ! j) \<and> pe_date (es ! j) \<le> through}"
proof -
  let ?R = "\<lambda>P. {j. j < length es \<and> P j}" and ?d = "\<lambda>j. pe_date (es ! j)"
  have split: "amount_sum amounts (?R A) = amount_sum amounts (?R B) + amount_sum amounts (?R C)"
    if "\<And>j. j < length es \<Longrightarrow> A j \<longleftrightarrow> B j \<or> C j" "\<And>j. j < length es \<Longrightarrow> \<not> (B j \<and> C j)" for A B C
    by (rule amount_sum_split) (use that in auto)
  have le: "?d j \<le> ?d i" if "j \<le> i" for j using dates_mono [OF b that i(1)] .
  have ge: "?d i \<le> ?d j" if "i < j" "j < length es" for j using dates_mono [OF b, of i j] that by simp
  have order: "\<And>j. j < length es \<Longrightarrow> j \<le> i \<and> ?d j \<le> ?d i \<or> i < j \<and> ?d i \<le> ?d j"
    using le ge by (meson linorder_not_le)
  consider "anchor < from" | "from \<le> anchor" "anchor < ?d i" | "?d i \<le> anchor" by linarith
  then show ?thesis
  proof cases
    case 1
    then have "amount_sum amounts (?R (\<lambda>j. j \<le> i \<and> anchor < ?d j)) =
        amount_sum amounts (?R (\<lambda>j. anchor < ?d j \<and> ?d j < from)) +
        amount_sum amounts (?R (\<lambda>j. j \<le> i \<and> from \<le> ?d j \<and> ?d j \<le> through))"
      using order 1 i by (intro split) force+
    then show ?thesis using 1 i by (simp add: running_units [OF b] opening_units [OF b])
  next
    case 2
    have "amount_sum amounts (?R (\<lambda>j. j \<le> i \<and> from \<le> ?d j \<and> ?d j \<le> through)) =
        amount_sum amounts (?R (\<lambda>j. from \<le> ?d j \<and> ?d j \<le> anchor)) +
        amount_sum amounts (?R (\<lambda>j. j \<le> i \<and> anchor < ?d j))"
      using order 2 i by (intro split) force+
    then show ?thesis using 2 i by (simp add: running_units [OF b] opening_units [OF b])
  next
    case 3
    have "amount_sum amounts (?R (\<lambda>j. from \<le> ?d j \<and> ?d j \<le> anchor)) =
        amount_sum amounts (?R (\<lambda>j. j \<le> i \<and> from \<le> ?d j \<and> ?d j \<le> through)) +
        amount_sum amounts (?R (\<lambda>j. i < j \<and> ?d j \<le> anchor))"
      using order 3 i by (intro split) force+
    then show ?thesis using 3 i by (simp add: running_units [OF b] opening_units [OF b])
  qed
qed

end
