(* ===== verification/Date_Contract.thy ===== *)
theory Date_Contract
  imports Projection_Slots Samples
begin

text \<open>
  What the rest of the program relies on from \<open>src/finance/date.rs\<close> and from the schedule
  calculation of \<open>src/finance/repository.rs\<close>, for every implementation \<open>D\<close> of the \<open>time\<close> crate that
  keeps the laws \<open>time_date\<close>; the witnesses use the Gregorian calendar.
\<close>

subsection \<open>Text and dates\<close>

lemma digits_pad_id:
  assumes "length t = w" "0 < w" "list_all is_digit t"
  shows "show_pad w (digits_val t) = t"
proof -
  have bound: "digits_val_acc 0 t < 10 ^ length t" if "list_all is_digit t" for t
    using that
  proof (induction t rule: rev_induct)
    case (snoc c t)
    then have "is_digit c" by simp
    then have "code c \<le> 57" by (simp add: is_digit_def)
    then have "digit_val c \<le> 9" by (simp add: digit_val_def)
    with snoc show ?case by (simp add: digits_val_acc_append)
  qed simp
  let ?u = "show_pad w (digits_val t)"
  have u: "length ?u = length t" "list_all is_digit ?u"
    using bound [OF assms(3)] assms by (simp_all add: length_show_pad show_pad_digits digits_val_def)
  have "digits_val_acc 0 ?u = digits_val_acc 0 t"
    using digits_val_pad [of w "digits_val t"] by (simp add: digits_val_def)
  then have "\<not> ?u < t" "\<not> t < ?u"
    using digits_order [OF u(1) u(2) assms(3), of 0] digits_order [OF u(1) [symmetric] assms(3) u(2), of 0]
    by simp_all
  then show ?thesis by simp
qed

context time_date
begin

lemma from_str_canonical:
  assumes "iso_from_str D s = Inr j"
  shows "iso_to_string D j = s"
proof -
  have l: "length s = 10" and dash: "s ! 4 = CHR ''-''" "s ! 7 = CHR ''-''"
    and digs: "list_all (\<lambda>i. i = 4 \<or> i = 7 \<or> is_digit (s ! i)) [0..<10]"
    and new: "iso_new D (int (digits_val (take 4 s))) (digits_val (take 2 (drop 5 s)))
      (digits_val (take 2 (drop 8 s))) = Inr j"
    using assms by (auto simp: iso_from_str_def split: if_splits)
  have "from_calendar_date D (int (digits_val (take 4 s))) (digits_val (take 2 (drop 5 s)))
      (digits_val (take 2 (drop 8 s))) = Some j"
    using new by (auto simp: iso_new_def context_or_def split: if_splits option.splits)
  then have ymd: "ymd D j = (int (digits_val (take 4 s)), digits_val (take 2 (drop 5 s)), digits_val (take 2 (drop 8 s)))"
    using from_sound by blast
  have dig: "is_digit (s ! i)" if "i < 10" "i \<noteq> 4" "i \<noteq> 7" for i
    using digs that by (auto simp: list_all_iff)
  have seg: "list_all is_digit (take n (drop m s))" if "\<And>i. m \<le> i \<Longrightarrow> i < m + n \<Longrightarrow> i \<noteq> 4 \<and> i \<noteq> 7" "m + n \<le> 10" for m n
    using that l by (auto simp: list_all_length intro!: dig)
  have pads: "show_pad 4 (digits_val (take 4 s)) = take 4 s"
    "show_pad 2 (digits_val (take 2 (drop 5 s))) = take 2 (drop 5 s)"
    "show_pad 2 (digits_val (take 2 (drop 8 s))) = take 2 (drop 8 s)"
    using seg [of 0 4] seg [of 5 2] seg [of 8 2] l by (auto intro!: digits_pad_id)
  have "iso_to_string D j = take 4 s @ [s ! 4] @ take 2 (drop 5 s) @ [s ! 7] @ take 2 (drop 8 s)"
    using ymd pads dash by (simp add: iso_to_string_def iso_parts show_int_pad_nat)
  also have "\<dots> = s"
    using l by (auto simp: eval_nat_numeral length_Suc_conv)
  finally show ?thesis .
qed

lemma from_str_iff: "iso_from_str D s = Inr j \<longleftrightarrow> storable D j \<and> iso_to_string D j = s"
  using from_str_canonical from_str_storable from_str_to_string by blast

lemma last_of_month_cases:
  assumes "in_range D j"
  shows "if last_month D j then (\<exists>e. last_of_month D j = Inl (Panic e)) \<and> (\<exists>e. next_month D j = Inl (Err e))
    else \<exists>l. last_of_month D j = Inr l \<and> j \<le> l \<and> next_month D j = Inr (l + 1) \<and>
      iso_year D l = iso_year D j \<and> iso_month D l = iso_month D j \<and> 28 \<le> iso_day D l"
proof (cases "last_month D j")
  case True
  then show ?thesis using last_of_month_overflow next_month_overflow by simp
next
  case False
  show ?thesis by (rule last_of_month_ex [OF assms False]) (use False in auto)
qed

end

text \<open>C34: The text form of a date is a bijection between the dates of the years 0 to 9999 and the
  texts that \<open>IsoDate::from_str\<close> accepts: a text parses to a date exactly when the date has a
  four-digit year and the text is what \<open>Display\<close> prints for it. No two texts name the same date.\<close>

theorem date_text_bijection:
  assumes "time_date D"
  shows "iso_from_str D s = Inr j \<longleftrightarrow> storable D j \<and> iso_to_string D j = s"
  using assms by (rule time_date.from_str_iff)

theorem date_text_bijection_witness:
  "storable gregorian 739617 \<and> iso_to_string gregorian 739617 = ''2026-01-01''"
  using date_text_bijection [OF greg.time_date_axioms, of "''2026-01-01''" 739617] sample_texts(1) by simp

text \<open>C35: The text of a date is ten characters long and the texts of two dates with four-digit years are
  ordered as the dates are, so that SQL's \<open>BETWEEN\<close>, \<open>MAX\<close> and \<open>ORDER BY\<close> on the stored
  columns compare dates.\<close>

theorem date_text_order:
  assumes "time_date D" "storable D j" "storable D k"
  shows "length (iso_to_string D j) = 10 \<and> (iso_to_string D j < iso_to_string D k \<longleftrightarrow> j < k) \<and>
    (iso_to_string D j = iso_to_string D k \<longleftrightarrow> j = k)"
  using time_date.length_iso_to_string [OF assms(1,2)] time_date.to_string_less [OF assms]
    time_date.to_string_inj [OF assms] by simp

lemma sample_storable: "storable gregorian 739617" "storable gregorian 739648" "storable gregorian 739675"
  using sample_range by (simp_all add: storable_def)

theorem date_text_order_witness: "''2026-01-01'' < ''2026-02-01''"
  using date_text_order [OF greg.time_date_axioms sample_storable(1,2)] sample_texts by simp

text \<open>C36: \<open>last_of_month\<close> of a date of any month but December 9999 is the last day of the date's own
  month: not before the date, the eve of what \<open>next_month\<close> returns, and the 28th or
  later. In December 9999 it panics, where \<open>next_month\<close> returns an error.\<close>

theorem last_of_month_spec:
  assumes "time_date D" "in_range D j"
  shows "if last_month D j then (\<exists>e. last_of_month D j = Inl (Panic e)) \<and> (\<exists>e. next_month D j = Inl (Err e))
    else \<exists>l. last_of_month D j = Inr l \<and> j \<le> l \<and> next_month D j = Inr (l + 1) \<and>
      iso_year D l = iso_year D j \<and> iso_month D l = iso_month D j \<and> 28 \<le> iso_day D l"
  using assms by (rule time_date.last_of_month_cases)

definition final_day :: iso_date where
  "final_day = date_max gregorian"

lemma final_day_facts: "in_range gregorian final_day" "last_month gregorian final_day"
  by code_simp+

theorem last_of_month_spec_witness: "\<exists>e. last_of_month gregorian final_day = Inl (Panic e)"
  using last_of_month_spec [OF greg.time_date_axioms final_day_facts(1)] final_day_facts(2) by simp

subsection \<open>Occurrences\<close>

text \<open>C32: For a schedule with a given day and a window that ends before the year 9999, \<open>schedule_occurrences\<close> returns, in strictly increasing order,
  exactly the dates of the window on or after the schedule's anchor on which the schedule is due: for a monthly
  schedule the configured day or the last day of a shorter month, for a semimonthly one the 15th and
  the month's last day, for weekly and biweekly ones the multiples of 7 and 14 days from the anchor, for
  an annual one the anchor's month and day (clamped on leap days), for a one-time one the anchor.\<close>

theorem schedule_dates:
  assumes "time_date D" "in_range D anchor" "in_range D from" "in_range D through" "iso_year D through < 9999"
  shows "\<exists>xs. schedule_occurrences D frequency anchor from through (Some day) = Inr xs \<and> sorted_wrt (<) xs \<and>
    set xs = {c. in_range D c \<and> anchor \<le> c \<and> from \<le> c \<and> c \<le> through \<and> due_on D frequency anchor day c}"
  using assms by (rule time_date.occurrences_spec)

theorem schedule_dates_witness: "due_on gregorian Monthly 739617 31 739675"
proof -
  have "\<exists>xs. schedule_occurrences gregorian Monthly 739617 739648 739675 (Some 31) = Inr xs \<and> sorted_wrt (<) xs \<and>
    set xs = {c. in_range gregorian c \<and> 739617 \<le> c \<and> 739648 \<le> c \<and> c \<le> 739675 \<and> due_on gregorian Monthly 739617 31 c}"
    by (rule schedule_dates [OF greg.time_date_axioms]) (simp_all add: sample_range)
  then have e: "set [739675] = {c. in_range gregorian c \<and> 739617 \<le> c \<and> 739648 \<le> c \<and> c \<le> 739675 \<and>
      due_on gregorian Monthly 739617 31 c}"
    by (simp add: sample_occurrences)
  have "739675 \<in> set [739675 :: int]" by simp
  then show ?thesis unfolding e by simp
qed

text \<open>Generating a window in two adjacent pieces gives the same occurrences as generating it at once: none is lost
  and none is generated twice at the seam. Refreshing month by month is refreshing the whole range.\<close>

theorem schedule_windows_compose:
  assumes "time_date D" "in_range D anchor" "in_range D from" "in_range D through" "iso_year D through < 9999"
    and "from \<le> mid" "mid \<le> through"
  shows "\<exists>xs ys. schedule_occurrences D f anchor from mid (Some day) = Inr xs \<and>
    schedule_occurrences D f anchor (mid + 1) through (Some day) = Inr ys \<and>
    schedule_occurrences D f anchor from through (Some day) = Inr (xs @ ys)"
  using time_date.occurrences_split [OF assms, of f day] by blast

theorem schedule_windows_compose_witness:
  "\<exists>xs ys. schedule_occurrences gregorian Monthly 739617 739617 739648 (Some 31) = Inr xs \<and>
    schedule_occurrences gregorian Monthly 739617 (739648 + 1) 739675 (Some 31) = Inr ys \<and>
    schedule_occurrences gregorian Monthly 739617 739617 739675 (Some 31) = Inr (xs @ ys)"
  by (rule schedule_windows_compose [OF greg.time_date_axioms]) (simp_all add: sample_range)

text \<open>C33: The occurrences that one schedule, with a given day, generates in a window have different projection slots.\<close>

theorem schedule_slots_distinct:
  assumes "time_date D" "in_range D anchor" "storable D from" "in_range D through" "iso_year D through < 9999"
    and "schedule_occurrences D f anchor from through (Some day) = Inr xs"
  shows "distinct (map (projection_slot D f anchor) xs)"
  using assms by (rule time_date.slots_distinct)

lemma sample_semimonthly:
  "schedule_occurrences gregorian Semimonthly 739617 739648 739675 (Some 1) = Inr [739662, 739675]"
  by code_simp

theorem schedule_slots_distinct_witness:
  "distinct (map (projection_slot gregorian Semimonthly 739617) [739662, 739675])"
  by (rule schedule_slots_distinct [OF greg.time_date_axioms _ sample_storable(2) _ _ sample_semimonthly])
    (simp_all add: sample_range)

end
