(* ===== verification/Forecast_Balance.thy ===== *)
theory Forecast_Balance
  imports Forecast Date_Contract "HOL-Library.Multiset"
begin

text \<open>
  The forecast as a whole: \<open>compute_forecast\<close> reads its events in date order and the balances it reports
  add up, row by row. The float arithmetic is exact as soon as the amounts that are stored are
  (\<open>exact_list\<close>), so the sums below are the sums of the code's own floats, in units of the smallest
  positive float.
\<close>

lemma exact_list_sub:
  assumes x: "exact_list e v xs" and sub: "mset ys \<subseteq># mset xs"
  shows "exact_list e v ys"
proof -
  have set: "set ys \<subseteq> set xs" using set_mset_mono [OF sub] by simp
  obtain r where r: "mset xs = mset ys + r" using sub by (metis subset_mset.le_iff_add)
  obtain rs where rs: "r = mset rs" by (metis ex_mset)
  have "mset (map (\<lambda>x. \<bar>f64_units x\<bar>) xs) = mset (map (\<lambda>x. \<bar>f64_units x\<bar>) (ys @ rs))" using r rs by simp
  then have "sum_list (map (\<lambda>x. \<bar>f64_units x\<bar>) xs) = sum_list (map (\<lambda>x. \<bar>f64_units x\<bar>) (ys @ rs))"
    by (metis sum_mset_sum_list)
  moreover have "0 \<le> sum_list (map (\<lambda>x. \<bar>f64_units x\<bar>) rs)" by (rule sum_list_nonneg) auto
  ultimately show ?thesis using x set by (auto simp: exact_list_def)
qed

lemma exact_list_abs:
  assumes "map (\<lambda>x. \<bar>f64_units x\<bar>) ys = map (\<lambda>x. \<bar>f64_units x\<bar>) xs" "map is_finite ys = map is_finite xs"
  shows "exact_list e v ys = exact_list e v xs"
proof -
  have l: "length ys = length xs" by (metis assms(2) length_map)
  have n: "is_finite (ys ! i) = is_finite (xs ! i)" "\<bar>f64_units (ys ! i)\<bar> = \<bar>f64_units (xs ! i)\<bar>" if "i < length xs" for i
    using that l assms by (metis nth_map)+
  have d: "(2 ^ e dvd f64_units (ys ! i)) = ((2::int) ^ e dvd f64_units (xs ! i))" if "i < length xs" for i
    using n(2) [OF that] by (metis dvd_abs_iff)
  show ?thesis unfolding exact_list_def assms(1) all_set_conv_all_nth using l n(1) d by auto
qed

subsection \<open>The events that are read\<close>

definition row_parses :: "ext \<Rightarrow> event_row \<times> stream_row \<Rightarrow> parsed_event \<Rightarrow> bool" where
  "row_parses X r p \<longleftrightarrow> iso_from_str (dates X) (effective_date (fst r)) = Inr (pe_date p) \<and>
     fr_amount (pe_row p) = effective_amount (fst r) \<and> fr_event_id (pe_row p) = ev_id (fst r)"

lemma parse_forecast_row_ok: "parse_forecast_row X db r = Inr p \<Longrightarrow> row_parses X r p"
  by (auto simp: parse_forecast_row_def row_parses_def rbnd_eq_Inr forecast_row_of_def decode_ctx_def
      split: prod.splits sum.splits fault.splits)

lemma forecast_events_rows:
  assumes "forecast_events X a b sid vid db = (Inr es, db')"
  shows "length es = length (forecast_query_rows X a b sid vid db) \<and>
    (\<forall>i < length es. row_parses X (forecast_query_rows X a b sid vid db ! i) (es ! i))"
proof -
  have "map Inr es = map (parse_forecast_row X db) (forecast_query_rows X a b sid vid db)"
    using assms by (simp add: forecast_events_def op_Inr collect_res_Inr)
  then have l: "length es = length (forecast_query_rows X a b sid vid db)"
    and n: "\<And>i. i < length es \<Longrightarrow> parse_forecast_row X db (forecast_query_rows X a b sid vid db ! i) = Inr (es ! i)"
    by (metis length_map, metis length_map nth_map)
  then show ?thesis using parse_forecast_row_ok [OF n] by blast
qed

lemma forecast_events_sorted:
  assumes D: "time_date (dates X)" and e: "forecast_events X a b sid vid db = (Inr es, db')"
  shows "sorted (map pe_date es)"
  unfolding sorted_iff_nth_mono
proof (intro allI impI)
  let ?rs = "forecast_query_rows X a b sid vid db" and ?key = "\<lambda>r :: event_row \<times> stream_row. (effective_date (fst r), ev_id (fst r))"
  note r = forecast_events_rows [OF e]
  fix i j
  assume "i \<le> j" "j < length (map pe_date es)"
  then have ij: "i \<le> j" "i < length es" "j < length es" by simp_all
  have "sorted (map ?key ?rs)"
    unfolding forecast_query_rows_def case_prod_unfold by (rule sorted_sort_key)
  then have "?key (?rs ! i) \<le> ?key (?rs ! j)" using ij r sorted_nth_mono [of "map ?key ?rs" i j] by simp
  then have le: "effective_date (fst (?rs ! i)) \<le> effective_date (fst (?rs ! j))"
    by (auto simp: less_eq_prod_def)
  have p: "iso_from_str (dates X) (effective_date (fst (?rs ! i))) = Inr (pe_date (es ! i))"
    "iso_from_str (dates X) (effective_date (fst (?rs ! j))) = Inr (pe_date (es ! j))"
    using r ij by (simp_all add: row_parses_def)
  note st = time_date.from_str_storable [OF D p(1)] time_date.from_str_storable [OF D p(2)]
  have "iso_to_string (dates X) (pe_date (es ! i)) \<le> iso_to_string (dates X) (pe_date (es ! j))"
    using le time_date.from_str_canonical [OF D p(1)] time_date.from_str_canonical [OF D p(2)] by simp
  then show "map pe_date es ! i \<le> map pe_date es ! j"
    using time_date.to_string_le [OF D st] ij by simp
qed

lemma join_stream_fst: "map fst (List.map_filter (join_stream db) es) = filter (\<lambda>e. join_stream db e \<noteq> None) es"
  by (induction es) (auto simp: map_filter_simps join_stream_def split: option.splits)

lemma forecast_amounts_sub:
  "mset (map (\<lambda>r. effective_amount (fst r)) (forecast_query_rows X a b sid vid db)) \<subseteq>#
     mset (map effective_amount (events db))"
proof -
  let ?m = "List.map_filter (join_stream db) (events db)"
  have "mset (forecast_query_rows X a b sid vid db) \<subseteq># mset ?m"
    unfolding forecast_query_rows_def by (simp add: mset_filter)
  then have "image_mset (\<lambda>r. effective_amount (fst r)) (mset (forecast_query_rows X a b sid vid db)) \<subseteq>#
      image_mset (\<lambda>r. effective_amount (fst r)) (mset ?m)" by (rule image_mset_subseteq_mono)
  also have "image_mset (\<lambda>r. effective_amount (fst r)) (mset ?m) = image_mset effective_amount (mset (map fst ?m))"
    by (simp add: comp_def image_mset.compositionality)
  also have "\<dots> \<subseteq># image_mset effective_amount (mset (events db))"
    unfolding join_stream_fst by (rule image_mset_subseteq_mono) (simp add: mset_filter)
  finally show ?thesis by simp
qed

lemma signed_units: "\<bar>f64_units (signed d x)\<bar> = \<bar>f64_units x\<bar>" "is_finite (signed d x) = is_finite x"
  by (cases d; simp add: signed_def f64_abs_units)+

lemma forecast_events_balanced:
  assumes D: "time_date (dates X)" and e: "forecast_events X a b sid vid db = (Inr es, db')"
    and x: "is_finite start" "exact_list g (f64_units start) (map effective_amount (events db))"
  shows "balanced es (signed_amounts es) start g"
proof -
  let ?rs = "forecast_query_rows X a b sid vid db"
  note r = forecast_events_rows [OF e]
  have am: "map (\<lambda>p. fr_amount (pe_row p)) es = map (\<lambda>r. effective_amount (fst r)) ?rs"
    using r by (intro nth_equalityI) (simp_all add: row_parses_def)
  have "exact_list g (f64_units start) (map (\<lambda>p. fr_amount (pe_row p)) es)"
    unfolding am by (rule exact_list_sub [OF x(2) forecast_amounts_sub])
  then have "exact_list g (f64_units start) (signed_amounts es)"
    by (subst exact_list_abs [where xs = "map (\<lambda>p. fr_amount (pe_row p)) es"])
      (simp_all add: signed_amounts_def signed_units comp_def)
  with x(1) forecast_events_sorted [OF D e] show ?thesis by (simp add: balanced_def signed_amounts_def)
qed

subsection \<open>The rows of a forecast\<close>

lemma build_forecast_rows:
  assumes b: "balanced es (signed_amounts es) start g" and w: "fq_from q \<le> fq_through q"
    and f: "f = build_forecast X q start anchor source es"
  shows "f64_units (fo_ending_balance f) = f64_units (fo_opening_balance f) +
      sum_list (map (\<lambda>r. f64_units (fr_amount r)) (fo_rows f))"
    and "i < length (fo_rows f) \<Longrightarrow> f64_units (fl_running_balance (fo_rows f ! i)) =
      f64_units (fo_opening_balance f) + sum_list (map (\<lambda>r. f64_units (fr_amount r)) (take (Suc i) (fo_rows f)))"
proof -
  let ?am = "signed_amounts es" and ?in = "\<lambda>i. fq_from q \<le> pe_date (es ! i) \<and> pe_date (es ! i) \<le> fq_through q"
  define js where "js = filter ?in [0..<length es]"
  have js: "set js = {i. i < length es \<and> ?in i}" "sorted_wrt (<) js" "distinct js"
    by (auto simp: js_def intro: sorted_wrt_filter)
  have rows: "fo_rows f = map (\<lambda>i. forecast_line_of (fq_today q) (es ! i) (?am ! i) (running_balances start anchor es ?am ! i)) js"
    and op: "fo_opening_balance f = balance_before start anchor (fq_from q) es ?am"
    and en: "fo_ending_balance f = balance_at start anchor (fq_through q) es ?am"
    by (simp_all add: f build_forecast_def Let_def js_def)
  have line: "fr_amount (forecast_line_of t p a b) = a" "fl_running_balance (forecast_line_of t p a b) = b" for t p a b
    by (simp_all add: forecast_line_of_def forecast_row.defs forecast_line.defs)
  have sum: "sum_list (map (\<lambda>i. f64_units (?am ! i)) ks) = amount_sum ?am (set ks)" if "distinct ks" for ks
    using that by (simp add: amount_sum_def sum_list_distinct_conv_sum_set)
  show "f64_units (fo_ending_balance f) = f64_units (fo_opening_balance f) +
      sum_list (map (\<lambda>r. f64_units (fr_amount r)) (fo_rows f))"
    using ending_opening [OF b w, of anchor] sum [OF js(3)] by (simp add: rows op en line comp_def js(1))
  assume "i < length (fo_rows f)"
  then have i: "i < length js" by (simp add: rows)
  then have ji: "js ! i < length es \<and> ?in (js ! i)" using js(1) nth_mem by blast
  have "set (take (Suc i) js) = {j. j < length es \<and> j \<le> js ! i \<and> ?in j}"
    unfolding strict_take [OF js(2) i] js(1) by auto
  moreover have "sum_list (map (\<lambda>i. f64_units (?am ! i)) (take (Suc i) js)) = amount_sum ?am (set (take (Suc i) js))"
    by (rule sum) (simp add: js(3))
  ultimately show "f64_units (fl_running_balance (fo_rows f ! i)) =
      f64_units (fo_opening_balance f) + sum_list (map (\<lambda>r. f64_units (fr_amount r)) (take (Suc i) (fo_rows f)))"
    using running_opening [OF b, of "js ! i" "fq_from q" "fq_through q" anchor] ji i
    by (simp add: rows op line comp_def take_map)
qed

lemma compute_forecast_built:
  assumes "compute_forecast X q db = (Inr (Some f), db')"
  obtains start anchor source es where "fq_from q \<le> fq_through q"
    "f = build_forecast X q start anchor source es" "fo_starting_balance f = start"
    "forecast_events X (min (fq_from q) anchor) (max (fq_through q) anchor) (fq_stream_id q) (fq_view_id q) db = (Inr es, db)"
proof -
  have le: "fq_from q \<le> fq_through q" using assms by (auto simp: compute_forecast_def raise_def split: if_splits)
  have src: "get_cash_source db = (Inr c, u) \<Longrightarrow> u = db" for c u
    by (auto simp: get_cash_source_def primary_account_with_balance_def op_Inr Let_def split: option.splits)
  have fe: "forecast_events X a b sid vid db = (Inr es, u) \<Longrightarrow> u = db" for a b sid vid es u
    by (auto simp: forecast_events_def op_Inr)
  have lc: "lift_ctx m r db = (Inr c, u) \<Longrightarrow> u = db" for m and r :: "fault + iso_date" and c u
    by (auto simp: lift_ctx_def op_defs split: sum.splits fault.splits)
  have "\<exists>start anchor source es u. f = build_forecast X q start anchor source es \<and>
    forecast_events X (min (fq_from q) anchor) (max (fq_through q) anchor) (fq_stream_id q) (fq_view_id q) db = (Inr es, u)"
    using assms le unfolding compute_forecast_def
    by (auto simp: op_Inr primary_account_with_balance_def split: option.splits dest!: lc src) blast
  then obtain start anchor source es where
    "f = build_forecast X q start anchor source es"
    "forecast_events X (min (fq_from q) anchor) (max (fq_through q) anchor) (fq_stream_id q) (fq_view_id q) db = (Inr es, db)"
    using fe by metis
  moreover then have "fo_starting_balance f = start" by (simp add: build_forecast_def Let_def)
  ultimately show ?thesis using that le by blast
qed

text \<open>C31: The balances of a forecast add up: the ending balance is the opening balance plus the signed amounts of
  the rows shown, and the running balance of every row is the opening balance plus the amounts of the rows up
  to and including it, whether the cash anchor lies before, inside or after the window. This holds
  whenever the starting balance and the stored amounts are multiples of one power of two and together
  fit in 53 bits of it, as whole numbers of dollars below \<open>2^53\<close> do.\<close>

theorem forecast_balances_add_up:
  assumes "time_date (dates X)" "compute_forecast X q db = (Inr (Some f), db')"
    and "is_finite (fo_starting_balance f)"
    and "exact_list g (f64_units (fo_starting_balance f)) (map effective_amount (events db))"
  shows "f64_units (fo_ending_balance f) = f64_units (fo_opening_balance f) +
      sum_list (map (\<lambda>r. f64_units (fr_amount r)) (fo_rows f)) \<and>
    (\<forall>i < length (fo_rows f). f64_units (fl_running_balance (fo_rows f ! i)) =
      f64_units (fo_opening_balance f) + sum_list (map (\<lambda>r. f64_units (fr_amount r)) (take (Suc i) (fo_rows f))))"
proof -
  obtain start anchor source es where b: "fq_from q \<le> fq_through q" "f = build_forecast X q start anchor source es"
    "fo_starting_balance f = start"
    "forecast_events X (min (fq_from q) anchor) (max (fq_through q) anchor) (fq_stream_id q) (fq_view_id q) db = (Inr es, db)"
    using compute_forecast_built [OF assms(2)] .
  have "balanced es (signed_amounts es) start g"
    using forecast_events_balanced [OF assms(1) b(4)] assms(3,4) b(3) by simp
  from build_forecast_rows [OF this b(1,2)] show ?thesis by simp
qed

subsection \<open>Why the exactness hypothesis\<close>

text \<open>
  Beyond 53 bits the order of the additions shows: with a starting balance of \<open>2^53\<close> units and two amounts
  of one unit, the running balance of the last row stays at the start while the ending balance counts both.
\<close>

lemma floorlog_54: "2 ^ 53 \<le> m \<Longrightarrow> m < 2 ^ 54 \<Longrightarrow> floorlog 2 m = 54"
  using floorlog_leI [of m 2 54] floorlog_le_iff [of 2 m 53] by fastforce

lemma round_54:
  assumes "2 ^ 53 \<le> m" "m < 2 ^ 54"
  shows "f64_round s m = Fin s (if odd m then if odd (m div 2) then m + 1 else m - 1 else m)"
proof -
  have "m + 1 < 2 ^ 2098" using assms(2) power_increasing [of 54 2098 "2::nat"] by (simp add: less_le_trans)
  moreover have "rnd53 m = (if odd m then if odd (m div 2) then m + 1 else m - 1 else m)"
  proof -
    have "odd m \<Longrightarrow> m mod 2 = 1" "even m \<Longrightarrow> m mod 2 = 0" by presburger+
    moreover have "m div 2 * 2 = m - m mod 2" by (simp add: minus_mod_eq_div_mult [symmetric])
    moreover have "odd m \<Longrightarrow> (m div 2 + 1) * 2 = m + 1" by presburger
    ultimately show ?thesis
      unfolding rnd53_def floorlog_54 [OF assms] Let_def by (cases "odd m") simp_all
  qed
  ultimately show ?thesis by (auto simp: f64_round_def Let_def)
qed

lemma round_small: "m < 2 ^ 53 \<Longrightarrow> f64_round s m = Fin s m"
  using f64_round_exact [of 0 "int m" s] by (simp add: on_grid_def)

lemma big_plus_one: "f64_add (Fin False (2 ^ 53)) (Fin False 1) = Fin False (2 ^ 53)"
  by (simp add: f64_units_def Let_def round_54 nat_add_distrib)

lemma big_plus_two: "f64_add (Fin False (2 ^ 53)) (Fin False 2) = Fin False (2 ^ 53 + 2)"
  by (simp add: f64_units_def Let_def round_54 nat_add_distrib)

lemma one_plus_one: "f64_sum [Fin False 1, Fin False 1] = Fin False 2"
  by (simp add: f64_sum_def f64_units_def Let_def round_small)

lemma running_ending_rounding:
  assumes "pe_date p = 2"
  shows "running_balances (Fin False (2 ^ 53)) 1 [p, p] [Fin False 1, Fin False 1] ! 1 = Fin False (2 ^ 53)"
    and "balance_at (Fin False (2 ^ 53)) 1 2 [p, p] [Fin False 1, Fin False 1] = Fin False (2 ^ 53 + 2)"
proof -
  show "running_balances (Fin False (2 ^ 53)) 1 [p, p] [Fin False 1, Fin False 1] ! 1 = Fin False (2 ^ 53)"
    using assms big_plus_one by (simp add: running_balances(2) upt_rec del: f64_add.simps)
  have "picked (\<lambda>d. 1 < d \<and> d \<le> 2) [p, p] [Fin False 1, Fin False 1] = [Fin False 1, Fin False 1]"
    using assms by (simp add: picked_def)
  then show "balance_at (Fin False (2 ^ 53)) 1 2 [p, p] [Fin False 1, Fin False 1] = Fin False (2 ^ 53 + 2)"
    by (simp only: balance_at_def one_plus_one big_plus_two) simp
qed
subsection \<open>A forecast of the sample database\<close>

definition sample_query :: forecast_query where
  "sample_query = \<lparr>fq_from = 739648, fq_through = 739675, fq_today = 739617, fq_stream_id = None, fq_view_id = None\<rparr>"

lemma sample_exact: "exact_list 0 (f64_units (f64_small 100)) (map effective_amount (events sample_db))"
  by (simp add: exact_list_def sample_db_def effective_amount_def coalesce_def slot_event_def manual_event_def
      f64_small_def f64_units_def is_finite_def)

lemma sample_forecast_rows:
  "forecast_query_rows sample_ext 739617 739675 None None sample_db = [(manual_event, rent_stream), (slot_event, rent_stream)]"
  by (simp add: forecast_query_rows_def sample_db_def join_stream_def rent_stream_def slot_event_def manual_event_def
      map_filter_simps effective_date_def coalesce_def in_view_def sample_ext_def sample_texts sort_key_def
      insort_key_def)

lemma sample_calendar: "dates sample_ext = gregorian"
  by (simp add: sample_ext_def)

lemma sample_event_dates:
  "iso_from_str gregorian ''2026-01-10'' = Inr 739626" "iso_from_str gregorian ''2026-02-28'' = Inr 739675"
  by code_simp+

lemma sample_primary:
  "primary_account_with_balance sample_db = (Inr (Some (account_from_row cash_account)), sample_db)"
  by (simp add: primary_account_with_balance_def gets_def first_by_def sample_db_def cash_account_def
      account_is_active_primary_def)

lemma sample_source: "\<exists>c. get_cash_source sample_db = (Inr (Some c), sample_db)"
  by (simp add: get_cash_source_def bnd_def sample_primary some_or_def ok_def Let_def account_from_row_def cash_account_def)

lemma sample_forecast_events:
  "\<exists>es. forecast_events sample_ext 739617 739675 None None sample_db = (Inr es, sample_db)"
  by (simp add: forecast_events_def bnd_def gets_def lift_res_def sample_forecast_rows parse_forecast_row_def
      sample_calendar effective_date_def coalesce_def slot_event_def manual_event_def rent_stream_def
      sample_event_dates decode_ctx_def direction_from_str_def certainty_from_str_def)

lemma sample_forecast:
  "\<exists>f. compute_forecast sample_ext sample_query sample_db = (Inr (Some f), sample_db) \<and> fo_starting_balance f = f64_small 100"
proof -
  obtain c where c: "get_cash_source sample_db = (Inr (Some c), sample_db)" using sample_source by blast
  obtain es where es: "forecast_events sample_ext 739617 739675 None None sample_db = (Inr es, sample_db)"
    using sample_forecast_events by blast
  have "compute_forecast sample_ext sample_query sample_db =
      (Inr (Some (build_forecast sample_ext sample_query (f64_small 100) 739617 c es)), sample_db)"
    using c es
    by (simp add: compute_forecast_def sample_query_def bnd_def sample_primary account_from_row_def cash_account_def
        some_or_def ok_def lift_ctx_def decode_ctx_def lift_res_def sample_calendar sample_texts)
  then show ?thesis by (simp add: build_forecast_def Let_def)
qed

theorem forecast_balances_add_up_witness:
  "\<exists>f. compute_forecast sample_ext sample_query sample_db = (Inr (Some f), sample_db) \<and>
    f64_units (fo_ending_balance f) = f64_units (fo_opening_balance f) +
      sum_list (map (\<lambda>r. f64_units (fr_amount r)) (fo_rows f))"
proof -
  obtain f where f: "compute_forecast sample_ext sample_query sample_db = (Inr (Some f), sample_db)"
    "fo_starting_balance f = f64_small 100" using sample_forecast by blast
  have "is_finite (fo_starting_balance f)" by (simp add: f(2) f64_small_def is_finite_def)
  from forecast_balances_add_up [OF sample_dates f(1) this, of 0] f sample_exact show ?thesis by auto
qed

end
