(* ===== verification/Operations.thy ===== *)
theory Operations
  imports Rust_Text
begin

text \<open>
  Durable coordination of synchronisation runs: \<open>src/operations/models.rs\<close>, \<open>src/operations/error.rs\<close> and
  \<open>src/operations/repository.rs\<close>, over the tables \<open>sync_log\<close>, \<open>operation_control\<close> and \<open>intg_integration_connection\<close> of
  \<open>migrations/0003_integrations_operations.sql\<close> and \<open>migrations/0006_sync_retry.sql\<close>. The unique indexes
  of \<open>sync_log\<close> (one running run per connection, one live run per scheduled slot) are part of \<open>run_clash\<close>:
  \<open>INSERT .. ON CONFLICT DO NOTHING\<close> inserts nothing when the new row clashes. \<open>X\<close> is SQLite's
  \<open>datetime(..) IS NOT NULL\<close>.
\<close>

subsection \<open>Data\<close>

datatype op_error = OpValidation string | ConnectionNotFound string | OpReadOnly | OpSchedulerDisabled
  | Coordination string | OpStorage string

datatype op_mode = ReadOnly | Enabled

definition mode_str :: "op_mode \<Rightarrow> string" where
  "mode_str m = (case m of ReadOnly \<Rightarrow> ''read_only'' | Enabled \<Rightarrow> ''enabled'')"

text \<open>\<open>{:?}\<close> on a string: quotes, with escapes.\<close>

definition hex_digit :: "nat \<Rightarrow> char" where
  "hex_digit n = (if n < 10 then digit_char n else byte (87 + n))"

definition debug_char :: "char \<Rightarrow> string" where
  "debug_char c =
     (if c = CHR 0x22 then [CHR 0x5C, CHR 0x22] else if c = CHR 0x5C then [CHR 0x5C, CHR 0x5C]
      else if c = CHR 0x0A then [CHR 0x5C, CHR ''n''] else if c = CHR 0x0D then [CHR 0x5C, CHR ''r'']
      else if c = CHR 0x09 then [CHR 0x5C, CHR ''t''] else if code c = 0 then [CHR 0x5C, CHR ''0'']
      else if code c < 32 \<or> code c = 127 then
        [CHR 0x5C] @ ''u{'' @ (if code c < 16 then [] else [hex_digit (code c div 16)]) @ [hex_digit (code c mod 16)] @ ''}''
      else [c])"

definition debug_str :: "string \<Rightarrow> string" where
  "debug_str s = [CHR 0x22] @ concat (map debug_char s) @ [CHR 0x22]"

definition mode_from_str :: "string \<Rightarrow> op_error + op_mode" where
  "mode_from_str s =
     (if s = ''read_only'' then Inr ReadOnly else if s = ''enabled'' then Inr Enabled
      else Inl (Coordination (''database contains unsupported operation mode '' @ debug_str s)))"

record op_control =
  oc_mode :: op_mode
  oc_scheduler_enabled :: bool
  oc_updated_at :: string

datatype run_status = Running | Success | Failure

definition run_status_str :: "run_status \<Rightarrow> string" where
  "run_status_str s = (case s of Running \<Rightarrow> ''running'' | Success \<Rightarrow> ''success'' | Failure \<Rightarrow> ''error'')"

definition run_status_from_str :: "string \<Rightarrow> op_error + run_status" where
  "run_status_from_str s =
     (if s = ''running'' then Inr Running else if s = ''success'' then Inr Success
      else if s = ''error'' then Inr Failure
      else Inl (Coordination (''database contains unsupported sync status '' @ debug_str s)))"

record sync_run =
  sr_id :: int
  sr_slug :: string
  sr_scheduled_for :: "string option"
  sr_started_at :: string
  sr_finished_at :: "string option"
  sr_status :: run_status
  sr_error :: "string option"
  sr_endpoints :: "string option"
  sr_events :: int
  sr_loans :: int
  sr_snapshots :: int

datatype claim_outcome = Claimed sync_run | AlreadyRunning sync_run | AlreadyScheduled sync_run
  | CoveredBySuccess sync_run

record sync_completion =
  sy_endpoints :: "string option"
  sy_events :: int
  sy_loans :: int
  sy_snapshots :: int

subsection \<open>Tables\<close>

record run_row =
  rr_id :: int
  rr_slug :: string
  rr_scheduled_for :: "string option"
  rr_started_at :: string
  rr_finished_at :: "string option"
  rr_status :: string
  rr_error :: "string option"
  rr_endpoints :: "string option"
  rr_events :: int
  rr_loans :: int
  rr_snapshots :: int

record control_row =
  co_mode :: string
  co_scheduler_enabled :: int
  co_updated_at :: string

record conn_row =
  cn_id :: int
  cn_slug :: string
  cn_name :: string
  cn_provider :: string
  cn_status :: string
  cn_cadence :: string
  cn_last_synced_at :: "string option"
  cn_last_error :: "string option"
  cn_next_scheduled_at :: "string option"
  cn_updated_at :: string

record op_db =
  op_control_row :: "control_row option"
  op_connections :: "conn_row list"
  runs :: "run_row list"
  run_seq :: int

type_synonym 'a op_op = "(op_db, op_error, 'a) op"

definition timestamp_glob :: "(string \<Rightarrow> bool) \<Rightarrow> string \<Rightarrow> bool" where
  "timestamp_glob X s \<longleftrightarrow> length s = 24 \<and> s ! 4 = CHR ''-'' \<and> s ! 7 = CHR ''-'' \<and> s ! 10 = CHR ''T'' \<and>
     s ! 13 = CHR '':'' \<and> s ! 16 = CHR '':'' \<and> s ! 19 = CHR ''.'' \<and> s ! 23 = CHR ''Z'' \<and> X s"

definition run_check :: "(string \<Rightarrow> bool) \<Rightarrow> run_row \<Rightarrow> bool" where
  "run_check X r \<longleftrightarrow>
     pred_option (timestamp_glob X) (rr_scheduled_for r) \<and> timestamp_glob X (rr_started_at r) \<and>
     pred_option (timestamp_glob X) (rr_finished_at r) \<and>
     rr_status r \<in> {''running'', ''success'', ''error''} \<and>
     0 \<le> rr_events r \<and> 0 \<le> rr_loans r \<and> 0 \<le> rr_snapshots r \<and>
     dropWhile (\<lambda>c. c = CHR '' '') (rr_slug r) \<noteq> [] \<and>
     (rr_status r = ''running'' \<longleftrightarrow> rr_finished_at r = None)"

definition live :: "run_row \<Rightarrow> bool" where
  "live r \<longleftrightarrow> rr_status r \<in> {''running'', ''success''}"

definition run_clash :: "run_row \<Rightarrow> run_row \<Rightarrow> bool" where
  "run_clash q r \<longleftrightarrow> rr_slug q = rr_slug r \<and>
     (rr_status q = ''running'' \<and> rr_status r = ''running'' \<or>
      live q \<and> live r \<and> rr_scheduled_for q \<noteq> None \<and> rr_scheduled_for q = rr_scheduled_for r)"

fun clash_free :: "run_row list \<Rightarrow> bool" where
  "clash_free [] = True"
| "clash_free (r # rs) = (\<not> list_ex (run_clash r) rs \<and> clash_free rs)"

definition control_check :: "(string \<Rightarrow> bool) \<Rightarrow> control_row \<Rightarrow> bool" where
  "control_check X c \<longleftrightarrow> co_mode c \<in> {''read_only'', ''enabled''} \<and> co_scheduler_enabled c \<in> {0, 1} \<and>
     timestamp_glob X (co_updated_at c) \<and> (co_mode c = ''enabled'' \<or> co_scheduler_enabled c = 0)"

definition utc_check :: "(string \<Rightarrow> bool) \<Rightarrow> string \<Rightarrow> bool" where
  "utc_check X s \<longleftrightarrow> 20 \<le> length s \<and> X s"

definition conn_check :: "(string \<Rightarrow> bool) \<Rightarrow> conn_row \<Rightarrow> bool" where
  "conn_check X c \<longleftrightarrow> (\<forall>s \<in> {cn_slug c, cn_name c, cn_provider c}. dropWhile (\<lambda>c. c = CHR '' '') s \<noteq> []) \<and>
     pred_option (utc_check X) (cn_next_scheduled_at c) \<and> pred_option (utc_check X) (cn_last_synced_at c) \<and>
     utc_check X (cn_updated_at c)"

definition has_connection :: "string \<Rightarrow> op_db \<Rightarrow> bool" where
  "has_connection slug db = list_ex (\<lambda>c. cn_slug c = slug) (op_connections db)"

definition op_valid :: "(string \<Rightarrow> bool) \<Rightarrow> op_db \<Rightarrow> bool" where
  "op_valid X db \<longleftrightarrow> pred_option (control_check X) (op_control_row db) \<and>
     list_all (run_check X) (runs db) \<and> clash_free (runs db) \<and>
     list_all (conn_check X) (op_connections db) \<and> distinct (map cn_slug (op_connections db)) \<and>
     distinct (map cn_id (op_connections db))"

text \<open>The state after the migrations: no runs, and the control row that the migration inserts.\<close>

definition op_initial :: "string \<Rightarrow> conn_row list \<Rightarrow> op_db" where
  "op_initial now connections = \<lparr>op_control_row = Some \<lparr>co_mode = ''read_only'', co_scheduler_enabled = 0,
     co_updated_at = now\<rparr>, op_connections = connections, runs = [], run_seq = 0\<rparr>"

subsection \<open>Validation and decoding\<close>

definition op_require_nonempty :: "string \<Rightarrow> string \<Rightarrow> op_error + unit" where
  "op_require_nonempty label v =
     (if trim v = [] then Inl (OpValidation (label @ '' cannot be empty'')) else Inr ())"

definition require_timestamp :: "string \<Rightarrow> string \<Rightarrow> op_error + unit" where
  "require_timestamp label v =
     (if length v = 24 \<and> v ! 4 = CHR ''-'' \<and> v ! 7 = CHR ''-'' \<and> v ! 10 = CHR ''T'' \<and> v ! 13 = CHR '':'' \<and>
         v ! 16 = CHR '':'' \<and> v ! 19 = CHR ''.'' \<and> v ! 23 = CHR ''Z'' \<and>
         list_all (\<lambda>i. i \<in> {4, 7, 10, 13, 16, 19, 23} \<or> is_digit (v ! i)) [0..<24]
      then Inr ()
      else Inl (OpValidation (label @
        '' must use fixed-width UTC RFC3339 milliseconds (YYYY-MM-DDTHH:MM:SS.mmmZ)'')))"

definition require_positive_id :: "string \<Rightarrow> int \<Rightarrow> op_error + unit" where
  "require_positive_id label v =
     (if v \<le> 0 then Inl (OpValidation (label @ '' id must be positive'')) else Inr ())"

definition validate_completion :: "sync_completion \<Rightarrow> op_error + unit" where
  "validate_completion c =
     rfold (\<lambda>(label, v). if v < 0 then Inl (OpValidation (label @ '' cannot be negative'')) else Inr ())
       [(''events upserted'', sy_events c), (''loans upserted'', sy_loans c),
        (''snapshots created'', sy_snapshots c)]"

definition control_from_row :: "control_row \<Rightarrow> op_error + op_control" where
  "control_from_row c =
     rbnd (mode_from_str (co_mode c)) (\<lambda>mode.
     rbnd (if co_scheduler_enabled c = 0 then Inr False else if co_scheduler_enabled c = 1 then Inr True
           else Inl (Coordination (''database contains unsupported scheduler-enabled value '' @
                  show_int (co_scheduler_enabled c)))) (\<lambda>enabled.
       Inr \<lparr>oc_mode = mode, oc_scheduler_enabled = enabled, oc_updated_at = co_updated_at c\<rparr>))"

definition sync_run_from_row :: "run_row \<Rightarrow> op_error + sync_run" where
  "sync_run_from_row r =
     rbnd (run_status_from_str (rr_status r)) (\<lambda>status.
       Inr \<lparr>sr_id = rr_id r, sr_slug = rr_slug r, sr_scheduled_for = rr_scheduled_for r,
         sr_started_at = rr_started_at r, sr_finished_at = rr_finished_at r, sr_status = status,
         sr_error = rr_error r, sr_endpoints = rr_endpoints r, sr_events = rr_events r,
         sr_loans = rr_loans r, sr_snapshots = rr_snapshots r\<rparr>)"

fun collect_runs :: "run_row list \<Rightarrow> op_error + sync_run list" where
  "collect_runs [] = Inr []"
| "collect_runs (r # rs) = rbnd (sync_run_from_row r) (\<lambda>a. rbnd (collect_runs rs) (\<lambda>as. Inr (a # as)))"

definition one_run :: "run_row option \<Rightarrow> op_error + sync_run option" where
  "one_run row = (case row of None \<Rightarrow> Inr None | Some r \<Rightarrow> rbnd (sync_run_from_row r) (\<lambda>a. Inr (Some a)))"

subsection \<open>Operation control\<close>

definition update_control :: "(string \<Rightarrow> bool) \<Rightarrow> string \<Rightarrow> (control_row \<Rightarrow> bool) \<Rightarrow>
    (control_row \<Rightarrow> control_row) \<Rightarrow> control_row option op_op" where
  "update_control X ctx P f = sql_write (op_valid X) (OpStorage ctx) (\<lambda>db.
     case op_control_row db of
       None \<Rightarrow> (None, db)
     | Some c \<Rightarrow> if P c then (Some (f c), db\<lparr>op_control_row := Some (f c)\<rparr>) else (None, db))"

definition control_on :: "op_control op_op" where
  "control_on = bnd (gets op_control_row) (\<lambda>row.
     case row of None \<Rightarrow> raise (Coordination ''operation-control singleton is missing'')
     | Some c \<Rightarrow> lift_res (control_from_row c))"

definition set_control :: "(string \<Rightarrow> bool) \<Rightarrow> op_mode \<Rightarrow> bool \<Rightarrow> string \<Rightarrow> op_control op_op" where
  "set_control X mode enabled now =
     thn (lift_res (require_timestamp ''operation-control timestamp'' now))
    (thn (require (\<not> (mode = ReadOnly \<and> enabled))
            (OpValidation ''the scheduler cannot be enabled while operations are read-only''))
    (bnd (update_control X ''update operation control'' (\<lambda>_. True)
            (\<lambda>c. c\<lparr>co_mode := mode_str mode, co_scheduler_enabled := (if enabled then 1 else 0),
                   co_updated_at := now\<rparr>)) (\<lambda>row.
       case row of None \<Rightarrow> raise (Coordination ''operation-control singleton disappeared during update'')
       | Some c \<Rightarrow> lift_res (control_from_row c))))"

definition enter_read_only :: "(string \<Rightarrow> bool) \<Rightarrow> string \<Rightarrow> op_control op_op" where
  "enter_read_only X now = set_control X ReadOnly False now"

definition enable_writes :: "(string \<Rightarrow> bool) \<Rightarrow> string \<Rightarrow> op_control op_op" where
  "enable_writes X now = set_control X Enabled False now"

definition set_scheduler_enabled :: "(string \<Rightarrow> bool) \<Rightarrow> bool \<Rightarrow> string \<Rightarrow> op_control op_op" where
  "set_scheduler_enabled X enabled now =
     thn (lift_res (require_timestamp ''operation-control timestamp'' now))
    (bnd (update_control X ''update operation scheduler control''
            (\<lambda>c. \<not> enabled \<or> co_mode c = ''enabled'')
            (\<lambda>c. c\<lparr>co_scheduler_enabled := (if enabled then 1 else 0), co_updated_at := now\<rparr>)) (\<lambda>row.
       case row of
         Some c \<Rightarrow> lift_res (control_from_row c)
       | None \<Rightarrow> bnd control_on (\<lambda>control.
           if enabled \<and> oc_mode control = ReadOnly then raise OpReadOnly
           else raise (Coordination ''operation scheduler control was not updated''))))"

definition require_writes_enabled :: "op_control op_op" where
  "require_writes_enabled = bnd control_on (\<lambda>control.
     if oc_mode control \<noteq> Enabled then raise OpReadOnly else ok control)"

definition require_scheduler_enabled :: "op_control op_op" where
  "require_scheduler_enabled = bnd require_writes_enabled (\<lambda>control.
     if \<not> oc_scheduler_enabled control then raise OpSchedulerDisabled else ok control)"

definition require_connection_on :: "string \<Rightarrow> unit op_op" where
  "require_connection_on slug =
     bnd (gets (has_connection slug)) (\<lambda>known. require known (ConnectionNotFound slug))"

subsection \<open>Reading runs\<close>

text \<open>\<open>ORDER BY .. DESC LIMIT 1\<close>: the largest key.\<close>

definition latest :: "(run_row \<Rightarrow> 'k::linorder) \<Rightarrow> (run_row \<Rightarrow> bool) \<Rightarrow> op_db \<Rightarrow> run_row option" where
  "latest key P db = (case rev (sort_key key (filter P (runs db))) of [] \<Rightarrow> None | r # _ \<Rightarrow> Some r)"

definition current_run_on :: "string \<Rightarrow> sync_run option op_op" where
  "current_run_on slug = bnd (gets (latest (\<lambda>r. (rr_started_at r, rr_id r))
     (\<lambda>r. rr_slug r = slug \<and> rr_status r = ''running''))) (\<lambda>row. lift_res (one_run row))"

definition run_for_scheduled_slot_on :: "string \<Rightarrow> string \<Rightarrow> sync_run option op_op" where
  "run_for_scheduled_slot_on slug slot = bnd (gets (latest rr_id
     (\<lambda>r. rr_slug r = slug \<and> rr_scheduled_for r = Some slot))) (\<lambda>row. lift_res (one_run row))"

definition successful_run_since_on :: "string \<Rightarrow> string \<Rightarrow> sync_run option op_op" where
  "successful_run_since_on slug slot = bnd (gets (latest (\<lambda>r. (rr_started_at r, rr_id r))
     (\<lambda>r. rr_slug r = slug \<and> rr_status r = ''success'' \<and> slot \<le> rr_started_at r))) (\<lambda>row. lift_res (one_run row))"

definition current_run :: "string \<Rightarrow> sync_run option op_op" where
  "current_run slug = thn (lift_res (op_require_nonempty ''connection slug'' slug)) (current_run_on slug)"

definition find_sync_run :: "int \<Rightarrow> sync_run option op_op" where
  "find_sync_run run_id =
     thn (lift_res (require_positive_id ''sync run'' run_id))
       (bnd (gets (\<lambda>db. find (\<lambda>r. rr_id r = run_id) (runs db))) (\<lambda>row. lift_res (one_run row)))"

definition list_recent :: "string \<Rightarrow> nat \<Rightarrow> sync_run list op_op" where
  "list_recent slug limit =
     thn (lift_res (op_require_nonempty ''connection slug'' slug))
    (thn (require (0 < limit \<and> limit \<le> 500) (OpValidation ''sync-run list limit must be between 1 and 500''))
    (bnd (gets (\<lambda>db. take limit (rev (sort_key (\<lambda>r. (rr_started_at r, rr_id r))
            (filter (\<lambda>r. rr_slug r = slug) (runs db)))))) (\<lambda>rows. lift_res (collect_runs rows))))"

subsection \<open>Claims\<close>

definition max_scheduled_attempts :: nat where
  "max_scheduled_attempts = 3"

definition insert_run :: "(string \<Rightarrow> bool) \<Rightarrow> string \<Rightarrow> (op_db \<Rightarrow> bool) \<Rightarrow> (int \<Rightarrow> run_row) \<Rightarrow>
    run_row option op_op" where
  "insert_run X ctx P new = (\<lambda>db.
     let r = new (run_seq db + 1)
     in if \<not> P db then (Inr None, db)
        else if \<not> run_check X r then (Inl (OpStorage ctx), db)
        else if list_ex (\<lambda>q. run_clash q r) (runs db) then (Inr None, db)
        else (Inr (Some r), db\<lparr>runs := runs db @ [r], run_seq := run_seq db + 1\<rparr>))"

definition new_run :: "string \<Rightarrow> string option \<Rightarrow> string \<Rightarrow> int \<Rightarrow> run_row" where
  "new_run slug slot started_at i =
     \<lparr>rr_id = i, rr_slug = slug, rr_scheduled_for = slot, rr_started_at = started_at,
      rr_finished_at = None, rr_status = ''running'', rr_error = None, rr_endpoints = None,
      rr_events = 0, rr_loans = 0, rr_snapshots = 0\<rparr>"

definition writes_on :: "op_db \<Rightarrow> bool" where
  "writes_on db = (case op_control_row db of None \<Rightarrow> False | Some c \<Rightarrow> co_mode c = ''enabled'')"

definition scheduler_on :: "op_db \<Rightarrow> bool" where
  "scheduler_on db = (case op_control_row db of None \<Rightarrow> False
     | Some c \<Rightarrow> co_mode c = ''enabled'' \<and> co_scheduler_enabled c = 1)"

definition claim_manual :: "(string \<Rightarrow> bool) \<Rightarrow> string \<Rightarrow> string \<Rightarrow> claim_outcome op_op" where
  "claim_manual X slug started_at =
     thn (lift_res (op_require_nonempty ''connection slug'' slug))
    (thn (lift_res (require_timestamp ''run start timestamp'' started_at))
    (transaction
      (bnd (insert_run X ''claim manual sync run''
              (\<lambda>db. writes_on db \<and> has_connection slug db) (new_run slug None started_at)) (\<lambda>row.
        case row of
          Some r \<Rightarrow> bnd (lift_res (sync_run_from_row r)) (\<lambda>claimed. ok (Claimed claimed))
        | None \<Rightarrow>
            thn require_writes_enabled
           (thn (require_connection_on slug)
           (bnd (current_run_on slug) (\<lambda>current.
              case current of Some c \<Rightarrow> ok (AlreadyRunning c)
              | None \<Rightarrow> raise (Coordination ''manual claim was not inserted, but no running conflict remains''))))))))"

definition claim_scheduled :: "(string \<Rightarrow> bool) \<Rightarrow> string \<Rightarrow> string \<Rightarrow> string \<Rightarrow> claim_outcome op_op" where
  "claim_scheduled X slug slot started_at =
     thn (lift_res (op_require_nonempty ''connection slug'' slug))
    (thn (lift_res (require_timestamp ''scheduled slot timestamp'' slot))
    (thn (lift_res (require_timestamp ''run start timestamp'' started_at))
    (transaction
      (bnd (insert_run X ''claim scheduled sync run''
              (\<lambda>db. scheduler_on db \<and> has_connection slug db \<and>
                 \<not> list_ex (\<lambda>r. rr_slug r = slug \<and> rr_status r = ''success'' \<and> slot \<le> rr_started_at r) (runs db) \<and>
                 count_rows (\<lambda>r. rr_slug r = slug \<and> rr_scheduled_for r = Some slot \<and> rr_status r = ''error'')
                   (runs db) < max_scheduled_attempts)
              (new_run slug (Some slot) started_at)) (\<lambda>row.
        case row of
          Some r \<Rightarrow> bnd (lift_res (sync_run_from_row r)) (\<lambda>claimed. ok (Claimed claimed))
        | None \<Rightarrow>
            thn require_scheduler_enabled
           (thn (require_connection_on slug)
           (bnd (current_run_on slug) (\<lambda>current.
              case current of
                Some c \<Rightarrow> ok (if sr_scheduled_for c = Some slot then AlreadyScheduled c else AlreadyRunning c)
              | None \<Rightarrow> bnd (successful_run_since_on slug slot) (\<lambda>coverage.
                  case coverage of
                    Some c \<Rightarrow> ok (CoveredBySuccess c)
                  | None \<Rightarrow> bnd (run_for_scheduled_slot_on slug slot) (\<lambda>existing.
                      case existing of
                        Some c \<Rightarrow> ok (AlreadyScheduled c)
                      | None \<Rightarrow> raise (Coordination
                          ''scheduled claim was not inserted, but no durable conflict remains'')))))))))))"

subsection \<open>Transitions of a run\<close>

definition stale_message :: string where
  "stale_message = ''execution owner expired before recording completion''"

definition update_runs :: "(string \<Rightarrow> bool) \<Rightarrow> string \<Rightarrow> (op_db \<Rightarrow> run_row \<Rightarrow> bool) \<Rightarrow> (run_row \<Rightarrow> run_row) \<Rightarrow>
    run_row list op_op" where
  "update_runs X ctx P f = sql_write (op_valid X) (OpStorage ctx) (\<lambda>db.
     (map f (filter (P db) (runs db)), db\<lparr>runs := update_rows (P db) f (runs db)\<rparr>))"

definition fail_run :: "string \<Rightarrow> string \<Rightarrow> run_row \<Rightarrow> run_row" where
  "fail_run finished_at message r =
     r\<lparr>rr_status := ''error'', rr_finished_at := Some finished_at, rr_error := Some message\<rparr>"

definition succeed_run :: "string \<Rightarrow> sync_completion \<Rightarrow> run_row \<Rightarrow> run_row" where
  "succeed_run finished_at c r =
     r\<lparr>rr_status := ''success'', rr_finished_at := Some finished_at, rr_error := None,
       rr_endpoints := sy_endpoints c, rr_events := sy_events c, rr_loans := sy_loans c,
       rr_snapshots := sy_snapshots c\<rparr>"

definition interrupt_stale :: "(string \<Rightarrow> bool) \<Rightarrow> string \<Rightarrow> string \<Rightarrow> string \<Rightarrow> sync_run list op_op" where
  "interrupt_stale X slug finished_at cutoff =
     thn (lift_res (op_require_nonempty ''connection slug'' slug))
    (thn (lift_res (require_timestamp ''stale-run finish timestamp'' finished_at))
    (thn (lift_res (require_timestamp ''stale-run cutoff timestamp'' cutoff))
    (thn require_writes_enabled
    (bnd (update_runs X ''interrupt stale sync runs''
            (\<lambda>db r. rr_status r = ''running'' \<and> rr_started_at r < cutoff \<and> rr_slug r = slug \<and> writes_on db)
            (fail_run finished_at stale_message)) (\<lambda>rows.
     bnd (lift_res (collect_runs rows)) (\<lambda>interrupted.
       if interrupted = [] then thn require_writes_enabled (ok interrupted) else ok interrupted))))))"

definition complete_success :: "(string \<Rightarrow> bool) \<Rightarrow> int \<Rightarrow> string \<Rightarrow> sync_completion \<Rightarrow> sync_run op_op" where
  "complete_success X run_id finished_at completion =
     thn (lift_res (require_positive_id ''sync run'' run_id))
    (thn (lift_res (require_timestamp ''run finish timestamp'' finished_at))
    (thn (lift_res (validate_completion completion))
    (bnd (update_runs X ''complete successful sync run''
            (\<lambda>_ r. rr_id r = run_id \<and> rr_status r = ''running'') (succeed_run finished_at completion)) (\<lambda>rows.
       case rows of
         [] \<Rightarrow> raise (Coordination (''sync run '' @ show_int run_id @
                  '' was not running during successful completion''))
       | r # _ \<Rightarrow> lift_res (sync_run_from_row r)))))"

definition complete_error :: "(string \<Rightarrow> bool) \<Rightarrow> int \<Rightarrow> string \<Rightarrow> string \<Rightarrow> sync_run op_op" where
  "complete_error X run_id finished_at message =
     thn (lift_res (require_positive_id ''sync run'' run_id))
    (thn (lift_res (require_timestamp ''run finish timestamp'' finished_at))
    (thn (lift_res (op_require_nonempty ''sync error message'' message))
    (bnd (update_runs X ''complete failed sync run''
            (\<lambda>_ r. rr_id r = run_id \<and> rr_status r = ''running'') (fail_run finished_at message)) (\<lambda>rows.
       case rows of
         [] \<Rightarrow> raise (Coordination (''sync run '' @ show_int run_id @
                  '' was not running during error completion''))
       | r # _ \<Rightarrow> lift_res (sync_run_from_row r)))))"


subsection \<open>Rows and decoding\<close>

definition run_of :: "run_row \<Rightarrow> sync_run" where
  "run_of r = \<lparr>sr_id = rr_id r, sr_slug = rr_slug r, sr_scheduled_for = rr_scheduled_for r,
     sr_started_at = rr_started_at r, sr_finished_at = rr_finished_at r,
     sr_status = (if rr_status r = ''running'' then Running else if rr_status r = ''success'' then Success else Failure),
     sr_error = rr_error r, sr_endpoints = rr_endpoints r, sr_events = rr_events r, sr_loans = rr_loans r,
     sr_snapshots = rr_snapshots r\<rparr>"

lemma run_of_simps [simp]: "sr_id (run_of r) = rr_id r" "sr_slug (run_of r) = rr_slug r"
  "sr_scheduled_for (run_of r) = rr_scheduled_for r" "sr_started_at (run_of r) = rr_started_at r"
  by (simp_all add: run_of_def)

lemma decode_run: "run_check X r \<Longrightarrow> sync_run_from_row r = Inr (run_of r)"
  by (auto simp: run_check_def sync_run_from_row_def run_status_from_str_def run_of_def)

lemma decode_runs: "list_all (run_check X) rs \<Longrightarrow> collect_runs rs = Inr (map run_of rs)"
  by (induction rs) (auto simp: decode_run)

lemma status_roundtrip: "run_status_from_str (run_status_str s) = Inr s"
  by (cases s) (simp_all add: run_status_from_str_def run_status_str_def)

lemma mode_roundtrip: "mode_from_str (mode_str m) = Inr m"
  by (cases m) (simp_all add: mode_from_str_def mode_str_def)

lemma control_from_row_valid:
  "control_check X c \<Longrightarrow> \<exists>m. control_from_row c =
     Inr \<lparr>oc_mode = m, oc_scheduler_enabled = (co_scheduler_enabled c = 1), oc_updated_at = co_updated_at c\<rparr> \<and>
     (m = Enabled \<longleftrightarrow> co_mode c = ''enabled'')"
  by (auto simp: control_check_def control_from_row_def mode_from_str_def)

lemma latest_None: "latest key P db = None \<longleftrightarrow> (\<forall>r \<in> set (runs db). \<not> P r)"
proof -
  have "latest key P db = None \<longleftrightarrow> rev (sort_key key (filter P (runs db))) = []"
    by (auto simp: latest_def split: list.splits)
  also have "\<dots> \<longleftrightarrow> filter P (runs db) = []" by (metis length_0_conv length_rev length_sort)
  finally show ?thesis by (simp add: filter_empty_conv)
qed

lemma latest_Some:
  assumes "latest key P db = Some r"
  shows "r \<in> set (runs db)" "P r" "q \<in> set (runs db) \<Longrightarrow> P q \<Longrightarrow> key q \<le> key r"
proof -
  let ?s = "sort_key key (filter P (runs db))"
  obtain rest where e: "rev ?s = r # rest"
    using assms by (auto simp: latest_def split: list.splits)
  then have s: "?s = rev rest @ [r]" by (metis rev_rev_ident rev.simps(2))
  have "r \<in> set ?s" unfolding s by simp
  then show "r \<in> set (runs db)" "P r" by simp_all
  assume "q \<in> set (runs db)" "P q"
  then have "q \<in> set ?s" by simp
  then have "q \<in> set (rev rest) \<or> q = r" unfolding s by auto
  moreover have "sorted (map key (rev rest @ [r]))" using sorted_sort_key [of key "filter P (runs db)"] unfolding s .
  ultimately show "key q \<le> key r" by (auto simp: sorted_append)
qed

lemma latest_exists:
  assumes "r \<in> set (runs db)" "P r"
  obtains q where "latest key P db = Some q" "q \<in> set (runs db)" "P q"
proof (cases "latest key P db")
  case None
  with assms have False unfolding latest_None by blast
  then show ?thesis ..
next
  case (Some q)
  with latest_Some(1,2) [OF Some] show ?thesis by (intro that)
qed

lemma op_validD:
  assumes "op_valid X db"
  shows "op_control_row db = Some c \<Longrightarrow> control_check X c" "r \<in> set (runs db) \<Longrightarrow> run_check X r" "clash_free (runs db)"
  using assms by (auto simp: op_valid_def list_all_iff)

subsection \<open>The unique indexes\<close>

lemma run_clash_sym: "run_clash q r \<longleftrightarrow> run_clash r q"
  unfolding run_clash_def by metis

lemma clash_free_append:
  "clash_free (rs @ qs) \<longleftrightarrow> clash_free rs \<and> clash_free qs \<and> (\<forall>r \<in> set rs. \<forall>q \<in> set qs. \<not> run_clash r q)"
  by (induction rs) (auto simp: list_ex_iff)

lemma clash_free_snoc: "clash_free (rs @ [r]) \<longleftrightarrow> clash_free rs \<and> \<not> list_ex (\<lambda>q. run_clash q r) rs"
  by (simp add: clash_free_append list_ex_iff)

lemma clash_free_count:
  assumes "clash_free rs" "\<And>q r. P q \<Longrightarrow> P r \<Longrightarrow> run_clash q r"
  shows "count_rows P rs \<le> 1"
  using assms(1)
proof (induction rs)
  case (Cons r rs)
  show ?case
  proof (cases "P r")
    case True
    with Cons.prems assms(2) have "\<forall>q \<in> set rs. \<not> P q" by (auto simp: list_ex_iff)
    then have "count_rows P rs = 0" by (simp add: count_rows_0)
    with True show ?thesis by simp
  qed (use Cons in simp)
qed simp

lemma clash_free_update:
  assumes "clash_free rs" "\<And>q r. P r \<Longrightarrow> run_clash q (f r) \<Longrightarrow> run_clash q r"
  shows "clash_free (update_rows P f rs)"
proof -
  have c: "run_clash (if P q then f q else q) (if P r then f r else r) \<Longrightarrow> run_clash q r" for q r
  proof -
    assume "run_clash (if P q then f q else q) (if P r then f r else r)"
    then have "run_clash (if P q then f q else q) r" using assms(2) by (auto split: if_splits)
    then have "run_clash r (if P q then f q else q)" by (simp add: run_clash_sym)
    then have "run_clash r q" using assms(2) by (auto split: if_splits)
    then show ?thesis by (simp add: run_clash_sym)
  qed
  show ?thesis using assms(1)
  proof (induction rs)
    case (Cons r rs)
    have "\<not> list_ex (run_clash (if P r then f r else r)) (update_rows P f rs)"
    proof
      assume "list_ex (run_clash (if P r then f r else r)) (update_rows P f rs)"
      then obtain q where "q \<in> set rs" "run_clash (if P r then f r else r) (if P q then f q else q)"
        unfolding list_ex_iff set_update_rows by blast
      then have "q \<in> set rs" "run_clash r q" using c by blast+
      with Cons.prems show False by (auto simp: list_ex_iff)
    qed
    with Cons show ?case by simp
  qed simp
qed

text \<open>Inserting a run: three outcomes.\<close>

lemma insert_run_cases:
  obtains (skip) "insert_run X ctx P new db = (Inr None, db)"
      "\<not> P db \<or> run_check X (new (run_seq db + 1)) \<and> (\<exists>q \<in> set (runs db). run_clash q (new (run_seq db + 1)))"
    | (broken) "insert_run X ctx P new db = (Inl (OpStorage ctx), db)" "\<not> run_check X (new (run_seq db + 1))"
    | (inserted) "insert_run X ctx P new db = (Inr (Some (new (run_seq db + 1))),
          db\<lparr>runs := runs db @ [new (run_seq db + 1)], run_seq := run_seq db + 1\<rparr>)"
      "P db" "run_check X (new (run_seq db + 1))" "\<forall>q \<in> set (runs db). \<not> run_clash q (new (run_seq db + 1))"
  by (cases "P db"; cases "run_check X (new (run_seq db + 1))";
      cases "\<exists>q \<in> set (runs db). run_clash q (new (run_seq db + 1))")
    (auto simp: insert_run_def Let_def list_ex_iff)

lemma keeps_insert_run [keeps_rules, intro]: "keeps (op_valid X) (insert_run X ctx P new)"
proof (rule keepsI)
  fix db r t
  assume "op_valid X db" "insert_run X ctx P new db = (r, t)"
  then show "op_valid X t"
    by (cases rule: insert_run_cases [of X ctx P new db])
      (auto simp: op_valid_def clash_free_snoc list_ex_iff)
qed

lemma keeps_op_updates [keeps_rules, intro]:
  "keeps (op_valid X) (update_runs X ctx P' f)" "keeps (op_valid X) (update_control X ctx P'' g)"
  by (simp_all add: update_runs_def update_control_def keeps_valid_write)

lemma reads_control_on [intro]: "reads control_on"
  unfolding control_on_def by (intro reads_bnd) (auto split: option.splits)

lemma reads_require_writes [intro]: "reads require_writes_enabled"
  unfolding require_writes_enabled_def by (intro reads_bnd reads_control_on) auto

lemma reads_require_scheduler [intro]: "reads require_scheduler_enabled"
  unfolding require_scheduler_enabled_def by (intro reads_bnd reads_require_writes) auto

lemma reads_op_queries [intro]:
  "reads (require_connection_on slug)" "reads (current_run_on slug)"
  "reads (run_for_scheduled_slot_on slug slot)" "reads (successful_run_since_on slug slot)"
  by (simp_all add: require_connection_on_def current_run_on_def run_for_scheduled_slot_on_def
      successful_run_since_on_def reads_bnd reads_intros)

lemmas op_reads = reads_control_on reads_require_writes reads_require_scheduler reads_op_queries

lemmas keeps_op_reads [keeps_rules, intro] = op_reads [THEN reads_keeps]

lemma keeps_case_list [keeps_rules]:
  "keeps I a \<Longrightarrow> (\<And>x xs. keeps I (b x xs)) \<Longrightarrow> keeps I (case z of [] \<Rightarrow> a | x # xs \<Rightarrow> b x xs)"
  by (cases z) auto

lemma keeps_op_valid:
  "keeps (op_valid X) (set_control X mode enabled now)" "keeps (op_valid X) (set_scheduler_enabled X enabled now)"
  "keeps (op_valid X) (claim_manual X slug t)" "keeps (op_valid X) (claim_scheduled X slug slot t)"
  "keeps (op_valid X) (interrupt_stale X slug t cutoff)" "keeps (op_valid X) (complete_success X i t c)"
  "keeps (op_valid X) (complete_error X i t m)"
  by (auto simp: set_control_def set_scheduler_enabled_def claim_manual_def claim_scheduled_def interrupt_stale_def
      complete_success_def complete_error_def intro!: keeps_rules split: list.splits)

end
