(* ===== verification/Operation_Runs.thy ===== *)
theory Operation_Runs
  imports Operations
begin

text \<open>
  What the coordination of runs guarantees. \<open>op_step\<close> is one operation of any process on the shared
  database (each is a transaction or a single statement, so processes interleave at this granularity);
  the guarantees are invariants of the reachable states: at most one running run per connection, at most
  three attempts per scheduled slot, no scheduler in read-only mode, and finished runs never change.
\<close>

subsection \<open>Steps\<close>

inductive op_step :: "(string \<Rightarrow> bool) \<Rightarrow> op_db \<Rightarrow> op_db \<Rightarrow> bool" for X where
  control: "op_step X db (snd (set_control X mode enabled now db))"
| scheduler: "op_step X db (snd (set_scheduler_enabled X enabled now db))"
| manual: "op_step X db (snd (claim_manual X slug started_at db))"
| scheduled: "op_step X db (snd (claim_scheduled X slug slot started_at db))"
| interrupt: "op_step X db (snd (interrupt_stale X slug finished_at cutoff db))"
| success: "op_step X db (snd (complete_success X i finished_at completion db))"
| failure: "op_step X db (snd (complete_error X i finished_at message db))"

definition op_reachable :: "(string \<Rightarrow> bool) \<Rightarrow> op_db \<Rightarrow> bool" where
  "op_reachable X db \<longleftrightarrow> (\<exists>now connections. op_valid X (op_initial now connections) \<and> (op_step X)\<^sup>*\<^sup>* (op_initial now connections) db)"

definition attempts :: "string \<Rightarrow> string \<Rightarrow> op_db \<Rightarrow> nat" where
  "attempts slug slot db = count_rows (\<lambda>r. rr_slug r = slug \<and> rr_scheduled_for r = Some slot) (runs db)"

definition slot_errors :: "string \<Rightarrow> string \<Rightarrow> op_db \<Rightarrow> nat" where
  "slot_errors slug slot db =
     count_rows (\<lambda>r. rr_slug r = slug \<and> rr_scheduled_for r = Some slot \<and> rr_status r = ''error'') (runs db)"

definition run_ids :: "op_db \<Rightarrow> bool" where
  "run_ids db \<longleftrightarrow> distinct (map rr_id (runs db)) \<and> (\<forall>r \<in> set (runs db). 0 < rr_id r \<and> rr_id r \<le> run_seq db) \<and> 0 \<le> run_seq db"

definition op_inv :: "(string \<Rightarrow> bool) \<Rightarrow> op_db \<Rightarrow> bool" where
  "op_inv X db \<longleftrightarrow> op_valid X db \<and> run_ids db \<and> (\<forall>slug slot. attempts slug slot db \<le> max_scheduled_attempts)"

lemma op_invD:
  assumes "op_inv X db"
  shows "op_valid X db" "run_ids db" "attempts slug slot db \<le> max_scheduled_attempts"
  using assms by (simp_all add: op_inv_def)

lemma count_rows_cong_map:
  "map k rs = map k qs \<Longrightarrow> count_rows (\<lambda>r. Q (k r)) rs = count_rows (\<lambda>r. Q (k r)) qs"
proof (induction rs arbitrary: qs)
  case (Cons r rs)
  then obtain q qs' where "qs = q # qs'" "k r = k q" "map k rs = map k qs'" by (cases qs) auto
  with Cons.IH [of qs'] show ?case by simp
qed simp

lemma attempts_update:
  assumes "\<And>r. rr_slug (f r) = rr_slug r" "\<And>r. rr_scheduled_for (f r) = rr_scheduled_for r"
  shows "attempts slug slot (db\<lparr>runs := update_rows P f (runs db)\<rparr>) = attempts slug slot db"
  unfolding attempts_def
  using count_rows_cong_map [of "\<lambda>r. (rr_slug r, rr_scheduled_for r)" "update_rows P f (runs db)" "runs db"
      "\<lambda>(a, b). a = slug \<and> b = Some slot"] assms
  by (simp add: map_update_rows split_def)

lemma keeps_inv_update:
  assumes "\<And>r. rr_id (f r) = rr_id r \<and> rr_slug (f r) = rr_slug r \<and> rr_scheduled_for (f r) = rr_scheduled_for r"
  shows "keeps (op_inv X) (update_runs X ctx P f)"
  unfolding update_runs_def
proof (rule keeps_sql_write)
  fix db
  assume inv: "op_inv X db"
    and v: "op_valid X (snd (map f (filter (P db) (runs db)), db\<lparr>runs := update_rows (P db) f (runs db)\<rparr>))"
  have "run_ids (db\<lparr>runs := update_rows (P db) f (runs db)\<rparr>)"
    using op_invD(2) [OF inv] assms by (auto simp: run_ids_def map_update_rows set_update_rows)
  with v op_invD(3) [OF inv] attempts_update [of f] assms
  show "op_inv X (snd (map f (filter (P db) (runs db)), db\<lparr>runs := update_rows (P db) f (runs db)\<rparr>))"
    by (simp add: op_inv_def)
qed

lemma keeps_inv_control: "keeps (op_inv X) (update_control X ctx P f)"
  unfolding update_control_def
  by (rule keeps_sql_write)
    (auto simp: op_inv_def attempts_def run_ids_def split: option.splits)

text \<open>While a slot has no live run, its attempts are its errors.\<close>

lemma attempts_errors:
  assumes "op_valid X db" "\<forall>q \<in> set (runs db). \<not> run_clash q r" "live r" "rr_scheduled_for r = Some slot"
  shows "attempts (rr_slug r) slot db = slot_errors (rr_slug r) slot db"
proof -
  have "rr_slug q = rr_slug r \<and> rr_scheduled_for q = Some slot \<longleftrightarrow>
      rr_slug q = rr_slug r \<and> rr_scheduled_for q = Some slot \<and> rr_status q = ''error''" if "q \<in> set (runs db)" for q
    using assms that op_validD(2) [OF assms(1) that] by (auto simp: run_clash_def live_def run_check_def)
  then have "filter (\<lambda>q. rr_slug q = rr_slug r \<and> rr_scheduled_for q = Some slot) (runs db) =
      filter (\<lambda>q. rr_slug q = rr_slug r \<and> rr_scheduled_for q = Some slot \<and> rr_status q = ''error'') (runs db)"
    by (intro filter_cong) auto
  then show ?thesis by (simp add: attempts_def slot_errors_def count_rows_def)
qed

lemma attempts_snoc:
  "attempts slug slot (db\<lparr>runs := runs db @ [r], run_seq := n\<rparr>) =
     attempts slug slot db + (if rr_slug r = slug \<and> rr_scheduled_for r = Some slot then 1 else 0)"
  by (simp add: attempts_def count_rows_def)

lemma keeps_inv_insert:
  assumes "\<And>db slot. P db \<Longrightarrow> sched = Some slot \<Longrightarrow> slot_errors slug slot db < max_scheduled_attempts"
  shows "keeps (op_inv X) (insert_run X ctx P (new_run slug sched started_at))"
proof (rule keepsI)
  fix db r t
  assume inv: "op_inv X db" and eq: "insert_run X ctx P (new_run slug sched started_at) db = (r, t)"
  let ?r = "new_run slug sched started_at (run_seq db + 1)"
  have v: "op_valid X t" using keepsD [OF keeps_insert_run op_invD(1) [OF inv] eq] .
  show "op_inv X t"
  proof (cases rule: insert_run_cases [of X ctx P "new_run slug sched started_at" db])
    case inserted
    with eq have t: "t = db\<lparr>runs := runs db @ [?r], run_seq := run_seq db + 1\<rparr>" by simp
    have "run_ids t" using op_invD(2) [OF inv] unfolding t
      by (fastforce simp: run_ids_def new_run_def)
    moreover have "attempts slug' slot t \<le> max_scheduled_attempts" for slug' slot
    proof (cases "slug' = slug \<and> sched = Some slot")
      case True
      then have "attempts slug slot db = slot_errors slug slot db"
        using attempts_errors [OF op_invD(1) [OF inv] inserted(4)] by (simp add: new_run_def live_def)
      with True assms [OF inserted(2)] show ?thesis by (simp add: t attempts_snoc new_run_def)
    next
      case False
      with op_invD(3) [OF inv] show ?thesis by (auto simp: t attempts_snoc new_run_def)
    qed
    ultimately show ?thesis using v by (simp add: op_inv_def)
  qed (use eq inv in auto)
qed

lemma keeps_inv_reads: "reads m \<Longrightarrow> keeps (op_inv X) m"
  by (rule reads_keeps)

lemmas keeps_inv_rules = keeps_rules keeps_inv_control keeps_inv_reads [OF reads_control_on]
  keeps_inv_reads [OF reads_require_writes] keeps_inv_reads [OF reads_require_scheduler]
  keeps_inv_reads [OF reads_op_queries(1)] keeps_inv_reads [OF reads_op_queries(2)]
  keeps_inv_reads [OF reads_op_queries(3)] keeps_inv_reads [OF reads_op_queries(4)]

lemma keeps_inv_set_control: "keeps (op_inv X) (set_control X mode enabled now)"
  unfolding set_control_def by (intro keeps_inv_rules)

lemma keeps_inv_scheduler: "keeps (op_inv X) (set_scheduler_enabled X enabled now)"
  unfolding set_scheduler_enabled_def by (intro keeps_inv_rules)

lemma keeps_inv_manual: "keeps (op_inv X) (claim_manual X slug t)"
  unfolding claim_manual_def by (intro keeps_inv_rules keeps_inv_insert) simp

lemma keeps_inv_scheduled: "keeps (op_inv X) (claim_scheduled X slug slot t)"
  unfolding claim_scheduled_def by (intro keeps_inv_rules keeps_inv_insert) (simp add: slot_errors_def)

lemma keeps_inv_interrupt: "keeps (op_inv X) (interrupt_stale X slug t cutoff)"
  unfolding interrupt_stale_def by (intro keeps_inv_rules keeps_inv_update) (simp add: fail_run_def)

lemma keeps_inv_success: "keeps (op_inv X) (complete_success X i t c)"
  unfolding complete_success_def by (intro keeps_inv_rules keeps_inv_update) (simp add: succeed_run_def)

lemma keeps_inv_error: "keeps (op_inv X) (complete_error X i t m)"
  unfolding complete_error_def by (intro keeps_inv_rules keeps_inv_update) (simp add: fail_run_def)

lemmas keeps_op_inv = keeps_inv_set_control keeps_inv_scheduler keeps_inv_manual keeps_inv_scheduled
  keeps_inv_interrupt keeps_inv_success keeps_inv_error

lemma op_step_inv: "op_step X db db' \<Longrightarrow> op_inv X db \<Longrightarrow> op_inv X db'"
  by (induction rule: op_step.induct) (rule keeps_op_inv [THEN keeps_snd], assumption)+

lemma op_initial_inv: "op_valid X (op_initial now connections) \<Longrightarrow> op_inv X (op_initial now connections)"
  by (simp add: op_inv_def op_initial_def run_ids_def attempts_def)

lemma op_reachable_inv:
  assumes "op_reachable X db"
  shows "op_inv X db"
proof -
  obtain now cs where g: "op_valid X (op_initial now cs)" and steps: "(op_step X)\<^sup>*\<^sup>* (op_initial now cs) db"
    using assms by (auto simp: op_reachable_def)
  from steps show ?thesis
    by (induction rule: rtranclp_induct) (auto intro: op_initial_inv [OF g] op_step_inv)
qed

text \<open>C28: In every state that any interleaving of the operations can reach, a connection has at most one
  running run, a scheduled slot of a connection has been attempted at most three times and has at most
  one running or successful attempt, and the scheduler is never enabled in read-only mode.\<close>

theorem run_guarantees:
  assumes "op_reachable X db"
  shows "count_rows (\<lambda>r. rr_slug r = slug \<and> rr_status r = ''running'') (runs db) \<le> 1 \<and>
    attempts slug slot db \<le> 3 \<and>
    count_rows (\<lambda>r. rr_slug r = slug \<and> rr_scheduled_for r = Some slot \<and> live r) (runs db) \<le> 1 \<and>
    (scheduler_on db \<longrightarrow> writes_on db) \<and>
    (\<forall>c. op_control_row db = Some c \<and> co_mode c = ''read_only'' \<longrightarrow> co_scheduler_enabled c = 0)"
proof -
  note inv = op_reachable_inv [OF assms]
  have cf: "clash_free (runs db)" using op_validD(3) [OF op_invD(1) [OF inv]] .
  have "count_rows (\<lambda>r. rr_slug r = slug \<and> rr_status r = ''running'') (runs db) \<le> 1"
    by (rule clash_free_count [OF cf]) (simp add: run_clash_def)
  moreover have "count_rows (\<lambda>r. rr_slug r = slug \<and> rr_scheduled_for r = Some slot \<and> live r) (runs db) \<le> 1"
    by (rule clash_free_count [OF cf]) (simp add: run_clash_def)
  moreover have "scheduler_on db \<longrightarrow> writes_on db" by (auto simp: scheduler_on_def writes_on_def split: option.splits)
  moreover have "op_control_row db = Some c \<and> co_mode c = ''read_only'' \<longrightarrow> co_scheduler_enabled c = 0" for c
    using op_validD(1) [OF op_invD(1) [OF inv], of c] by (auto simp: control_check_def)
  ultimately show ?thesis using op_invD(3) [OF inv] by (auto simp: max_scheduled_attempts_def)
qed


subsection \<open>Finished runs are final\<close>

definition run_kept :: "run_row \<Rightarrow> run_row \<Rightarrow> bool" where
  "run_kept q r \<longleftrightarrow> rr_id r = rr_id q \<and> rr_slug r = rr_slug q \<and> rr_scheduled_for r = rr_scheduled_for q \<and>
     rr_started_at r = rr_started_at q \<and> (rr_status q \<noteq> ''running'' \<longrightarrow> r = q)"

definition runs_kept :: "op_db \<Rightarrow> op_db \<Rightarrow> bool" where
  "runs_kept db db' \<longleftrightarrow> rows_related run_kept (runs db) (runs db') \<and> op_connections db' = op_connections db"

lemma run_kept_refl: "run_kept r r"
  by (simp add: run_kept_def)

interpretation log: evolution runs_kept
proof
  show "runs_kept s s" for s by (simp add: runs_kept_def rows_related_refl run_kept_refl)
  show "runs_kept s u" if "runs_kept s t" "runs_kept t u" for s t u
    using that rows_related_trans [of run_kept "runs s" "runs t" "runs u"]
    unfolding runs_kept_def by (fastforce simp: run_kept_def)
qed

lemma log_update_runs:
  assumes "\<And>r. rr_id (f r) = rr_id r \<and> rr_slug (f r) = rr_slug r \<and> rr_scheduled_for (f r) = rr_scheduled_for r \<and>
      rr_started_at (f r) = rr_started_at r" "\<And>db r. P db r \<Longrightarrow> rr_status r = ''running''"
  shows "evolves runs_kept (update_runs X ctx P f)"
  unfolding update_runs_def
  by (rule log.evolves_write)
    (auto simp: runs_kept_def run_kept_def assms intro!: rows_related_update dest: assms(2))

lemma log_update_control: "evolves runs_kept (update_control X ctx P f)"
  unfolding update_control_def
  by (rule log.evolves_write) (auto simp: runs_kept_def rows_related_refl run_kept_refl split: option.splits)

lemma log_insert_run: "evolves runs_kept (insert_run X ctx P new)"
  unfolding evolves_def insert_run_def Let_def
  by (auto simp: runs_kept_def rows_related_refl rows_related_append run_kept_refl)

lemma log_case_list: "evolves runs_kept a \<Longrightarrow> (\<And>x xs. evolves runs_kept (b x xs)) \<Longrightarrow>
    evolves runs_kept (case z of [] \<Rightarrow> a | x # xs \<Rightarrow> b x xs)"
  by (cases z) auto

lemmas log_rules = log.evolves_rules log_update_control log_insert_run log_case_list
  op_reads [THEN log.evolves_reads]

lemma log_operations:
  "evolves runs_kept (set_control X mode enabled now)" "evolves runs_kept (set_scheduler_enabled X enabled now)"
  "evolves runs_kept (claim_manual X slug t)" "evolves runs_kept (claim_scheduled X slug slot t)"
  unfolding set_control_def set_scheduler_enabled_def claim_manual_def claim_scheduled_def
  by (intro log_rules)+

lemma log_transitions:
  "evolves runs_kept (interrupt_stale X slug t cutoff)" "evolves runs_kept (complete_success X i t c)"
  "evolves runs_kept (complete_error X i t m)"
  unfolding interrupt_stale_def complete_success_def complete_error_def
  by (intro log_rules log_update_runs; simp add: fail_run_def succeed_run_def)+

lemma op_step_kept: "op_step X db db' \<Longrightarrow> runs_kept db db'"
  by (induction rule: op_step.induct)
    (rule log_operations [unfolded evolves_def, rule_format] log_transitions [unfolded evolves_def, rule_format])+

text \<open>A finished run is final and a run's identity never changes: along any further operations every run
  stays in the log with its id, connection, slot and start, and a run that has succeeded or failed keeps
  its whole record (its finish time, message and counters).\<close>

theorem finished_runs_final:
  assumes "(op_step X)\<^sup>*\<^sup>* db db'" "r \<in> set (runs db)"
  shows "\<exists>r' \<in> set (runs db'). run_kept r r' \<and> (rr_status r \<noteq> ''running'' \<longrightarrow> r' = r)"
proof -
  from assms(1) have "runs_kept db db'"
    by (induction rule: rtranclp_induct) (auto intro: log.refl log.trans op_step_kept)
  with assms(2) show ?thesis by (auto simp: runs_kept_def rows_related_def run_kept_def)
qed


subsection \<open>Claims\<close>

lemma require_writes_result:
  assumes "op_valid X db"
  shows "writes_on db \<Longrightarrow> \<exists>c. require_writes_enabled db = (Inr c, db) \<and> (oc_scheduler_enabled c \<longleftrightarrow> scheduler_on db)"
    and "\<not> writes_on db \<Longrightarrow> op_control_row db \<noteq> None \<Longrightarrow> require_writes_enabled db = (Inl OpReadOnly, db)"
proof -
  have r: "require_writes_enabled db = (if writes_on db
      then (Inr \<lparr>oc_mode = Enabled, oc_scheduler_enabled = (co_scheduler_enabled c = 1), oc_updated_at = co_updated_at c\<rparr>, db)
      else (Inl OpReadOnly, db))" if "op_control_row db = Some c" for c
    using control_from_row_valid [OF op_validD(1) [OF assms that]] that
    by (auto simp: require_writes_enabled_def control_on_def bnd_def gets_def lift_res_def writes_on_def raise_def ok_def)
  show "writes_on db \<Longrightarrow> \<exists>c. require_writes_enabled db = (Inr c, db) \<and> (oc_scheduler_enabled c \<longleftrightarrow> scheduler_on db)"
    using r by (cases "op_control_row db") (auto simp: writes_on_def scheduler_on_def)
  show "\<not> writes_on db \<Longrightarrow> op_control_row db \<noteq> None \<Longrightarrow> require_writes_enabled db = (Inl OpReadOnly, db)"
    using r by auto
qed

lemma require_scheduler_result:
  assumes "op_valid X db" "scheduler_on db"
  obtains c where "require_scheduler_enabled db = (Inr c, db)"
proof -
  have "writes_on db" using assms(2) by (auto simp: scheduler_on_def writes_on_def split: option.splits)
  then obtain c where "require_writes_enabled db = (Inr c, db)" "oc_scheduler_enabled c"
    using require_writes_result(1) [OF assms(1)] assms(2) by blast
  then have "require_scheduler_enabled db = (Inr c, db)"
    by (simp add: require_scheduler_enabled_def bnd_def ok_def)
  then show ?thesis by (rule that)
qed

lemma one_run_valid: "op_valid X db \<Longrightarrow> latest key P db = row \<Longrightarrow> one_run row = Inr (map_option run_of row)"
proof (cases row)
  case (Some r)
  assume "op_valid X db" "latest key P db = row"
  with Some have "run_check X r" using latest_Some(1) op_validD(2) by metis
  with Some show ?thesis by (simp add: one_run_def decode_run)
qed (simp add: one_run_def)

lemma query_results:
  assumes "op_valid X db"
  shows "current_run_on slug db = (Inr (map_option run_of (latest (\<lambda>r. (rr_started_at r, rr_id r))
      (\<lambda>r. rr_slug r = slug \<and> rr_status r = ''running'') db)), db)"
    "run_for_scheduled_slot_on slug slot db = (Inr (map_option run_of (latest rr_id
      (\<lambda>r. rr_slug r = slug \<and> rr_scheduled_for r = Some slot) db)), db)"
    "successful_run_since_on slug slot db = (Inr (map_option run_of (latest (\<lambda>r. (rr_started_at r, rr_id r))
      (\<lambda>r. rr_slug r = slug \<and> rr_status r = ''success'' \<and> slot \<le> rr_started_at r) db)), db)"
  by (simp_all add: current_run_on_def run_for_scheduled_slot_on_def successful_run_since_on_def bnd_def gets_def
      lift_res_def one_run_valid [OF assms refl])

definition running_run :: "string \<Rightarrow> op_db \<Rightarrow> bool" where
  "running_run slug db \<longleftrightarrow> (\<exists>r \<in> set (runs db). rr_slug r = slug \<and> rr_status r = ''running'')"

definition covered :: "string \<Rightarrow> string \<Rightarrow> op_db \<Rightarrow> bool" where
  "covered slug slot db \<longleftrightarrow> (\<exists>r \<in> set (runs db). rr_slug r = slug \<and> rr_status r = ''success'' \<and> slot \<le> rr_started_at r)"

definition slot_done :: "string \<Rightarrow> string \<Rightarrow> op_db \<Rightarrow> bool" where
  "slot_done slug slot db \<longleftrightarrow> (\<exists>r \<in> set (runs db). rr_slug r = slug \<and> rr_status r = ''success'' \<and> rr_scheduled_for r = Some slot)"

definition with_run :: "run_row \<Rightarrow> op_db \<Rightarrow> op_db" where
  "with_run r db = db\<lparr>runs := runs db @ [r], run_seq := run_seq db + 1\<rparr>"

lemma clash_new_run:
  "run_clash q (new_run slug slot t i) \<longleftrightarrow> rr_slug q = slug \<and>
     (rr_status q = ''running'' \<or> live q \<and> slot \<noteq> None \<and> rr_scheduled_for q = slot)"
  by (auto simp: run_clash_def new_run_def live_def)

lemma clash_new_run_ex:
  "(\<exists>q \<in> set (runs db). run_clash q (new_run slug None t i)) \<longleftrightarrow> running_run slug db"
  "(\<exists>q \<in> set (runs db). run_clash q (new_run slug (Some slot) t i)) \<longleftrightarrow> running_run slug db \<or> slot_done slug slot db"
  by (auto simp: clash_new_run running_run_def slot_done_def live_def)

text \<open>A manual claim on a connection that exists, while writes are enabled, either starts a run or returns
  the run that is going on; it never fails. It starts one exactly when none is running: the new run is
  appended as running, and otherwise nothing changes.\<close>

theorem claim_manual_spec:
  assumes "op_valid X db" "writes_on db" "has_connection slug db"
    and "op_require_nonempty ''connection slug'' slug = Inr ()" "require_timestamp ''run start timestamp'' t = Inr ()"
    and "run_check X (new_run slug None t (run_seq db + 1))"
  shows "if running_run slug db
    then \<exists>r \<in> set (runs db). rr_slug r = slug \<and> rr_status r = ''running'' \<and>
           claim_manual X slug t db = (Inr (AlreadyRunning (run_of r)), db)
    else claim_manual X slug t db = (Inr (Claimed (run_of (new_run slug None t (run_seq db + 1)))),
           with_run (new_run slug None t (run_seq db + 1)) db)"
proof (cases "running_run slug db")
  case True
  let ?P = "\<lambda>r. rr_slug r = slug \<and> rr_status r = ''running''"
  obtain q where "q \<in> set (runs db)" "?P q" using True unfolding running_run_def by blast
  then obtain r where r: "latest (\<lambda>r. (rr_started_at r, rr_id r)) ?P db = Some r" "r \<in> set (runs db)" "?P r"
    by (rule latest_exists [where P = ?P])
  obtain c where w: "require_writes_enabled db = (Inr c, db)" using require_writes_result(1) [OF assms(1,2)] by blast
  have "insert_run X ''claim manual sync run'' (\<lambda>db. writes_on db \<and> has_connection slug db)
      (new_run slug None t) db = (Inr None, db)"
    using assms(2,3,6) True clash_new_run_ex(1) by (simp add: insert_run_def Let_def list_ex_iff)
  then have "claim_manual X slug t db = (Inr (AlreadyRunning (run_of r)), db)"
    using assms(3-5) w r(1) query_results(1) [OF assms(1), of slug]
    by (simp add: claim_manual_def thn_def bnd_def lift_res_def transaction_def require_connection_on_def gets_def
        require_def ok_def)
  with True r show ?thesis by auto
next
  case False
  then have "insert_run X ''claim manual sync run'' (\<lambda>db. writes_on db \<and> has_connection slug db)
      (new_run slug None t) db = (Inr (Some (new_run slug None t (run_seq db + 1))),
        with_run (new_run slug None t (run_seq db + 1)) db)"
    using assms(2,3,6) clash_new_run_ex(1) [of db slug t] by (simp add: insert_run_def Let_def list_ex_iff with_run_def)
  with False assms(4,5) show ?thesis
    by (simp add: claim_manual_def thn_def bnd_def lift_res_def transaction_def ok_def decode_run [OF assms(6)])
qed

text \<open>C29: A scheduled claim on an existing connection, while the scheduler is enabled, is always classified and
  never fails: it starts a run exactly when nothing is running, no success started since the slot (which
  covers it) or was claimed for the slot itself, and fewer than three attempts of the slot have failed; otherwise nothing
  changes and the answer names, in this order, the running run, a success since the slot, or the latest attempt of the slot.
  That a failed slot may be claimed again, three times in all, is what \<open>migrations/0006_sync_retry.sql\<close>,
  \<open>MAX_SCHEDULED_ATTEMPTS\<close> and the comment of \<open>claim_scheduled\<close> say; the README and the port plan still describe the
  slots before that migration.\<close>

theorem claim_scheduled_spec:
  assumes "op_valid X db" "scheduler_on db" "has_connection slug db"
    and "op_require_nonempty ''connection slug'' slug = Inr ()" "require_timestamp ''run start timestamp'' t = Inr ()"
    and "require_timestamp ''scheduled slot timestamp'' slot = Inr ()"
    and "run_check X (new_run slug (Some slot) t (run_seq db + 1))"
  shows "\<exists>out db'. claim_scheduled X slug slot t db = (Inr out, db') \<and>
    (if \<not> running_run slug db \<and> \<not> covered slug slot db \<and> \<not> slot_done slug slot db \<and> slot_errors slug slot db < 3
     then out = Claimed (run_of (new_run slug (Some slot) t (run_seq db + 1))) \<and>
          db' = with_run (new_run slug (Some slot) t (run_seq db + 1)) db
     else db' = db \<and> (\<exists>r \<in> set (runs db). rr_slug r = slug \<and>
       (if running_run slug db then rr_status r = ''running'' \<and>
          out = (if rr_scheduled_for r = Some slot then AlreadyScheduled else AlreadyRunning) (run_of r)
        else if covered slug slot db then rr_status r = ''success'' \<and> slot \<le> rr_started_at r \<and> out = CoveredBySuccess (run_of r)
        else rr_scheduled_for r = Some slot \<and> out = AlreadyScheduled (run_of r) \<and>
          (\<forall>q \<in> set (runs db). rr_slug q = slug \<and> rr_scheduled_for q = Some slot \<longrightarrow> rr_id q \<le> rr_id r))))"
proof (cases "\<not> running_run slug db \<and> \<not> covered slug slot db \<and> \<not> slot_done slug slot db \<and> slot_errors slug slot db < 3")
  case True
  let ?new = "new_run slug (Some slot) t"
  have "insert_run X ''claim scheduled sync run''
      (\<lambda>db. scheduler_on db \<and> has_connection slug db \<and>
         \<not> list_ex (\<lambda>r. rr_slug r = slug \<and> rr_status r = ''success'' \<and> slot \<le> rr_started_at r) (runs db) \<and>
         count_rows (\<lambda>r. rr_slug r = slug \<and> rr_scheduled_for r = Some slot \<and> rr_status r = ''error'')
           (runs db) < max_scheduled_attempts) ?new db =
      (Inr (Some (?new (run_seq db + 1))), with_run (?new (run_seq db + 1)) db)"
    using True assms(2,3,7) clash_new_run_ex(2) [of db slug slot t "run_seq db + 1"]
    by (auto simp: insert_run_def Let_def list_ex_iff with_run_def covered_def slot_errors_def max_scheduled_attempts_def)
  then have "claim_scheduled X slug slot t db = (Inr (Claimed (run_of (?new (run_seq db + 1)))), with_run (?new (run_seq db + 1)) db)"
    using assms(4-6) by (simp add: claim_scheduled_def thn_def bnd_def lift_res_def transaction_def ok_def decode_run [OF assms(7)])
  with True show ?thesis by simp
next
  case False
  obtain c where w: "require_scheduler_enabled db = (Inr c, db)" by (rule require_scheduler_result [OF assms(1,2)])
  let ?R = "\<lambda>r. rr_slug r = slug \<and> rr_status r = ''running''"
  let ?C = "\<lambda>r. rr_slug r = slug \<and> rr_status r = ''success'' \<and> slot \<le> rr_started_at r"
  let ?S = "\<lambda>r. rr_slug r = slug \<and> rr_scheduled_for r = Some slot"
  let ?k = "\<lambda>r. (rr_started_at r, rr_id r)"
  have ins: "insert_run X ''claim scheduled sync run''
      (\<lambda>db. scheduler_on db \<and> has_connection slug db \<and>
         \<not> list_ex (\<lambda>r. rr_slug r = slug \<and> rr_status r = ''success'' \<and> slot \<le> rr_started_at r) (runs db) \<and>
         count_rows (\<lambda>r. rr_slug r = slug \<and> rr_scheduled_for r = Some slot \<and> rr_status r = ''error'')
           (runs db) < max_scheduled_attempts) (new_run slug (Some slot) t) db = (Inr None, db)"
    using False clash_new_run_ex(2) [of db slug slot t] assms(7)
    by (auto simp: insert_run_def Let_def list_ex_iff covered_def slot_errors_def max_scheduled_attempts_def)
  have eq: "claim_scheduled X slug slot t db = (case latest ?k ?R db of
      Some r \<Rightarrow> (Inr (if rr_scheduled_for r = Some slot then AlreadyScheduled (run_of r) else AlreadyRunning (run_of r)), db)
    | None \<Rightarrow> (case latest ?k ?C db of Some r \<Rightarrow> (Inr (CoveredBySuccess (run_of r)), db)
    | None \<Rightarrow> (case latest rr_id ?S db of Some r \<Rightarrow> (Inr (AlreadyScheduled (run_of r)), db)
    | None \<Rightarrow> (Inl (Coordination ''scheduled claim was not inserted, but no durable conflict remains''), db))))"
    using assms(3-6) w query_results [OF assms(1)]
    by (auto simp: claim_scheduled_def thn_def bnd_def ins lift_res_def transaction_def require_connection_on_def gets_def
        require_def ok_def raise_def split: option.splits)
  show ?thesis
  proof (cases "latest ?k ?R db")
    case (Some r)
    then have "r \<in> set (runs db)" "?R r" using latest_Some(1,2) [OF Some] by simp_all
    moreover from this have "running_run slug db" by (auto simp: running_run_def)
    ultimately show ?thesis using eq Some False by auto
  next
    case None
    then have nr: "\<not> running_run slug db" unfolding latest_None running_run_def by blast
    show ?thesis
    proof (cases "latest ?k ?C db")
      case (Some r)
      then have "r \<in> set (runs db)" "?C r" using latest_Some(1,2) [OF Some] by simp_all
      moreover from this have "covered slug slot db" by (auto simp: covered_def)
      ultimately show ?thesis using eq Some None nr by auto
    next
      case C: None
      then have nc: "\<not> covered slug slot db" unfolding latest_None covered_def by blast
      with nr False have "slot_done slug slot db \<or> 3 \<le> slot_errors slug slot db" by auto
      then have "\<exists>q \<in> set (runs db). ?S q"
      proof
        assume "3 \<le> slot_errors slug slot db"
        then have "slot_errors slug slot db \<noteq> 0" by simp
        then show ?thesis unfolding slot_errors_def count_rows_0 by blast
      qed (auto simp: slot_done_def)
      then obtain r where r: "latest rr_id ?S db = Some r" by (metis (mono_tags, lifting) latest_exists)
      with latest_Some [OF r] eq None C nr nc False show ?thesis by auto
    qed
  qed
qed


subsection \<open>Transitions\<close>

lemma update_runs_ok:
  assumes "op_valid X db" "\<And>r. P db r \<Longrightarrow> rr_status r = ''running''"
    and "\<And>r. r \<in> set (runs db) \<Longrightarrow> P db r \<Longrightarrow> run_check X (f r)"
    and "\<And>q r. rr_status r = ''running'' \<Longrightarrow> run_clash q (f r) \<Longrightarrow> run_clash q r"
  shows "update_runs X ctx P f db = (Inr (map f (filter (P db) (runs db))), db\<lparr>runs := update_rows (P db) f (runs db)\<rparr>)"
proof -
  have "clash_free (update_rows (P db) f (runs db))"
    by (rule clash_free_update [OF op_validD(3) [OF assms(1)]]) (use assms(2,4) in blast)
  moreover have "\<forall>r \<in> set (update_rows (P db) f (runs db)). run_check X r"
    using assms(3) op_validD(2) [OF assms(1)] by (auto simp: set_update_rows)
  ultimately have "op_valid X (db\<lparr>runs := update_rows (P db) f (runs db)\<rparr>)"
    using assms(1) by (simp add: op_valid_def list_all_iff)
  then show ?thesis by (simp add: update_runs_def sql_write_def)
qed

lemma transition_clash:
  "run_clash q (fail_run t m r) \<Longrightarrow> run_clash q r"
  "rr_status r = ''running'' \<Longrightarrow> run_clash q (succeed_run t c r) \<Longrightarrow> run_clash q r"
  by (auto simp: run_clash_def live_def fail_run_def succeed_run_def)

lemma transition_check:
  "run_check X r \<Longrightarrow> timestamp_glob X t \<Longrightarrow> run_check X (fail_run t m r)"
  "run_check X r \<Longrightarrow> timestamp_glob X t \<Longrightarrow> validate_completion c = Inr () \<Longrightarrow> run_check X (succeed_run t c r)"
  by (auto simp: run_check_def fail_run_def succeed_run_def validate_completion_def rfold_Inr rbnd_eq_Inr split: if_splits)

lemma filter_single: "distinct xs \<Longrightarrow> x \<in> set xs \<Longrightarrow> filter (\<lambda>q. q = x) xs = [x]"
  by (induction xs) (auto simp: filter_empty_conv)

lemma filter_run:
  assumes "run_ids db" "r \<in> set (runs db)" "rr_status r = ''running''"
  shows "filter (\<lambda>q. rr_id q = rr_id r \<and> rr_status q = ''running'') (runs db) = [r]"
    and "update_rows (\<lambda>q. rr_id q = rr_id r \<and> rr_status q = ''running'') f (runs db) =
         map (\<lambda>q. if q = r then f r else q) (runs db)"
proof -
  have d: "distinct (map rr_id (runs db))" using assms(1) by (simp add: run_ids_def)
  have e: "rr_id q = rr_id r \<and> rr_status q = ''running'' \<longleftrightarrow> q = r" if "q \<in> set (runs db)" for q
    using distinct_key_eq [OF d that assms(2)] assms(3) by auto
  have "filter (\<lambda>q. rr_id q = rr_id r \<and> rr_status q = ''running'') (runs db) = filter (\<lambda>q. q = r) (runs db)"
    using e by (intro filter_cong) auto
  also have "\<dots> = [r]"
    using assms(2) d by (intro filter_single) (simp_all add: distinct_map)
  finally show "filter (\<lambda>q. rr_id q = rr_id r \<and> rr_status q = ''running'') (runs db) = [r]" .
  show "update_rows (\<lambda>q. rr_id q = rr_id r \<and> rr_status q = ''running'') f (runs db) =
         map (\<lambda>q. if q = r then f r else q) (runs db)"
    using e by (simp add: update_rows_def)
qed

definition replace_run :: "run_row \<Rightarrow> run_row \<Rightarrow> op_db \<Rightarrow> op_db" where
  "replace_run r r' db = db\<lparr>runs := map (\<lambda>q. if q = r then r' else q) (runs db)\<rparr>"

lemma complete_running:
  assumes "op_inv X db" "r \<in> set (runs db)" "rr_status r = ''running''"
    and "require_timestamp ''run finish timestamp'' t = Inr ()" "timestamp_glob X t"
  shows "validate_completion c = Inr () \<Longrightarrow>
      complete_success X (rr_id r) t c db = (Inr (run_of (succeed_run t c r)), replace_run r (succeed_run t c r) db)"
    and "op_require_nonempty ''sync error message'' m = Inr () \<Longrightarrow>
      complete_error X (rr_id r) t m db = (Inr (run_of (fail_run t m r)), replace_run r (fail_run t m r) db)"
proof -
  note v = op_invD(1) [OF assms(1)] and ids = op_invD(2) [OF assms(1)]
  have pos: "require_positive_id ''sync run'' (rr_id r) = Inr ()"
    using ids assms(2) by (auto simp: require_positive_id_def run_ids_def)
  note rc = op_validD(2) [OF v]
  let ?P = "\<lambda>(_ :: op_db) q. rr_id q = rr_id r \<and> rr_status q = ''running''"
  show "complete_success X (rr_id r) t c db = (Inr (run_of (succeed_run t c r)), replace_run r (succeed_run t c r) db)"
    if c: "validate_completion c = Inr ()"
    using update_runs_ok [OF v, of ?P "succeed_run t c"] transition_check(2) [OF rc assms(5) c]
      transition_clash(2) filter_run [OF ids assms(2,3)] pos assms(4) c
      decode_run [OF transition_check(2) [OF rc [OF assms(2)] assms(5) c]]
    by (simp add: complete_success_def thn_def bnd_def lift_res_def replace_run_def)
  show "complete_error X (rr_id r) t m db = (Inr (run_of (fail_run t m r)), replace_run r (fail_run t m r) db)"
    if m: "op_require_nonempty ''sync error message'' m = Inr ()"
    using update_runs_ok [OF v, of ?P "fail_run t m"] transition_check(1) [OF rc assms(5)]
      transition_clash(1) filter_run [OF ids assms(2,3)] pos assms(4) m
      decode_run [OF transition_check(1) [OF rc [OF assms(2)] assms(5)]]
    by (simp add: complete_error_def thn_def bnd_def lift_res_def replace_run_def)
qed

text \<open>Completing a run is decided once: the completion of a running run (with valid arguments) is recorded,
  as a success or as a failure, and changes no other run; once it is recorded every further completion of
  that run, by whoever, is refused with a coordination error and changes nothing.\<close>

theorem completion_once:
  assumes "op_inv X db" "r \<in> set (runs db)" "rr_status r = ''running''"
    and "require_timestamp ''run finish timestamp'' t = Inr ()" "timestamp_glob X t"
    and "require_timestamp ''run finish timestamp'' t' = Inr ()"
    and "validate_completion c = Inr ()" "op_require_nonempty ''sync error message'' m = Inr ()"
  shows "complete_success X (rr_id r) t c db = (Inr (run_of (succeed_run t c r)), replace_run r (succeed_run t c r) db) \<and>
    complete_error X (rr_id r) t m db = (Inr (run_of (fail_run t m r)), replace_run r (fail_run t m r) db) \<and>
    (\<forall>r' \<in> {succeed_run t c r, fail_run t m r}.
      (\<exists>e. complete_success X (rr_id r) t' c (replace_run r r' db) = (Inl (Coordination e), replace_run r r' db)) \<and>
      (\<exists>e. complete_error X (rr_id r) t' m (replace_run r r' db) = (Inl (Coordination e), replace_run r r' db)))"
proof -
  note v = op_invD(1) [OF assms(1)] and ids = op_invD(2) [OF assms(1)]
  have pos: "require_positive_id ''sync run'' (rr_id r) = Inr ()"
    using ids assms(2) by (auto simp: require_positive_id_def run_ids_def)
  let ?P = "\<lambda>(_ :: op_db) q. rr_id q = rr_id r \<and> rr_status q = ''running''"
  note s = complete_running(1) [OF assms(1-5) assms(7)] and f = complete_running(2) [OF assms(1-5) assms(8)]
  have again: "(\<exists>e. complete_success X (rr_id r) t' c db' = (Inl (Coordination e), db')) \<and>
      (\<exists>e. complete_error X (rr_id r) t' m db' = (Inl (Coordination e), db'))"
    if "op_valid X db'" "\<forall>q \<in> set (runs db'). rr_id q = rr_id r \<longrightarrow> rr_status q \<noteq> ''running''" for db'
  proof -
    have none: "filter (\<lambda>q. rr_id q = rr_id r \<and> rr_status q = ''running'') (runs db') = []"
      using that(2) by (simp add: filter_empty_conv)
    have same: "update_rows (\<lambda>q. rr_id q = rr_id r \<and> rr_status q = ''running'') g (runs db') = runs db'" for g
      by (rule update_rows_none) (use that(2) in blast)
    have "update_runs X ctx ?P g db' = (Inr [], db')" for ctx g
      using that(1) by (simp add: update_runs_def sql_write_def none same)
    then show ?thesis using pos assms(6-8)
      by (simp add: complete_success_def complete_error_def thn_def bnd_def lift_res_def raise_def)
  qed
  have v1: "op_valid X (replace_run r (succeed_run t c r) db)"
    using keeps_snd [OF keeps_op_valid(6) v, of "rr_id r" t c] s by simp
  have v2: "op_valid X (replace_run r (fail_run t m r) db)"
    using keeps_snd [OF keeps_op_valid(7) v, of "rr_id r" t m] f by simp
  have nr: "\<forall>q \<in> set (runs (replace_run r r' db)). rr_id q = rr_id r \<longrightarrow> rr_status q \<noteq> ''running''"
    if "rr_status r' \<noteq> ''running''" for r'
    using that distinct_key_eq [of rr_id "runs db" _ r] ids assms(2) by (auto simp: replace_run_def run_ids_def)
  have st: "rr_status (succeed_run t c r) \<noteq> ''running''" "rr_status (fail_run t m r) \<noteq> ''running''"
    by (simp_all add: succeed_run_def fail_run_def)
  show ?thesis using s f again [OF v1 nr [OF st(1)]] again [OF v2 nr [OF st(2)]] by simp
qed

text \<open>C30: Reaping is exact and respects the lease: with writes enabled it marks as failed exactly the running
  runs of the given connection that started before the cutoff, returns them, and touches no other row,
  in particular no run of another connection and no run that started at or after the cutoff; in
  read-only mode it changes nothing.\<close>

theorem interrupt_stale_spec:
  assumes "op_valid X db" "op_require_nonempty ''connection slug'' slug = Inr ()"
    and "require_timestamp ''stale-run finish timestamp'' t = Inr ()" "timestamp_glob X t"
    and "require_timestamp ''stale-run cutoff timestamp'' cutoff = Inr ()" "op_control_row db \<noteq> None"
  shows "if writes_on db
    then interrupt_stale X slug t cutoff db =
      (Inr (map (\<lambda>r. run_of (fail_run t stale_message r))
         (filter (\<lambda>r. rr_status r = ''running'' \<and> rr_started_at r < cutoff \<and> rr_slug r = slug) (runs db))),
       db\<lparr>runs := map (\<lambda>r. if rr_status r = ''running'' \<and> rr_started_at r < cutoff \<and> rr_slug r = slug
                         then fail_run t stale_message r else r) (runs db)\<rparr>)
    else interrupt_stale X slug t cutoff db = (Inl OpReadOnly, db)"
proof (cases "writes_on db")
  case True
  let ?P = "\<lambda>db r. rr_status r = ''running'' \<and> rr_started_at r < cutoff \<and> rr_slug r = slug \<and> writes_on db"
  let ?f = "fail_run t stale_message"
  let ?rows = "filter (?P db) (runs db)"
  note rc = op_validD(2) [OF assms(1)]
  have u: "update_runs X ctx ?P ?f db = (Inr (map ?f ?rows), db\<lparr>runs := update_rows (?P db) ?f (runs db)\<rparr>)" for ctx
    by (rule update_runs_ok [OF assms(1)]) (use transition_check(1) [OF rc assms(4)] transition_clash(1) in blast)+
  have d: "collect_runs (map ?f ?rows) = Inr (map (\<lambda>r. run_of (?f r)) ?rows)"
    using transition_check(1) [OF rc assms(4)] by (subst decode_runs [of X]) (auto simp: list_all_iff comp_def)
  obtain c where w: "require_writes_enabled db = (Inr c, db)" using require_writes_result(1) [OF assms(1) True] by blast
  have same: "db\<lparr>runs := update_rows (?P db) ?f (runs db)\<rparr> = db" if "?rows = []"
  proof -
    have "update_rows (?P db) ?f (runs db) = runs db"
      by (rule update_rows_none) (use that in \<open>auto simp: filter_empty_conv\<close>)
    then show ?thesis by simp
  qed
  have "interrupt_stale X slug t cutoff db = (Inr (map (\<lambda>r. run_of (?f r)) ?rows), db\<lparr>runs := update_rows (?P db) ?f (runs db)\<rparr>)"
  proof (cases "?rows = []")
    case True
    then show ?thesis using assms(2,3,5) w u d same [OF True]
      by (simp add: interrupt_stale_def thn_def bnd_def lift_res_def ok_def del: update_rows_def)
  next
    case False
    then show ?thesis using assms(2,3,5) w u d
      by (simp add: interrupt_stale_def thn_def bnd_def lift_res_def ok_def)
  qed
  with True show ?thesis by (simp add: update_rows_def)
next
  case False
  then show ?thesis using assms(2,3,5) require_writes_result(2) [OF assms(1) False assms(6)]
    by (simp add: interrupt_stale_def thn_def bnd_def lift_res_def)
qed


subsection \<open>A sample state\<close>

definition any_time :: "string \<Rightarrow> bool" where
  "any_time s = True"

definition op_now :: string where
  "op_now = ''2026-07-14T13:00:00.000Z''"

definition op_slot :: string where
  "op_slot = ''2026-07-14T06:00:00.000Z''"

definition failed_run :: run_row where
  "failed_run = \<lparr>rr_id = 1, rr_slug = ''tmo'', rr_scheduled_for = Some op_slot, rr_started_at = op_slot,
     rr_finished_at = Some op_slot, rr_status = ''error'', rr_error = Some ''timeout'', rr_endpoints = None,
     rr_events = 0, rr_loans = 0, rr_snapshots = 0\<rparr>"

definition active_run :: run_row where
  "active_run = new_run ''monarch'' None op_slot 2"

definition sample_connection :: "int \<Rightarrow> string \<Rightarrow> conn_row" where
  "sample_connection i slug = \<lparr>cn_id = i, cn_slug = slug, cn_name = slug, cn_provider = slug, cn_status = ''active'',
     cn_cadence = ''daily'', cn_last_synced_at = None, cn_last_error = None, cn_next_scheduled_at = None,
     cn_updated_at = op_slot\<rparr>"

definition op_sample :: op_db where
  "op_sample = \<lparr>op_control_row = Some \<lparr>co_mode = ''enabled'', co_scheduler_enabled = 1, co_updated_at = op_slot\<rparr>,
     op_connections = [sample_connection 1 ''tmo'', sample_connection 2 ''monarch''], runs = [failed_run, active_run], run_seq = 2\<rparr>"

lemma op_texts:
  "timestamp_glob any_time op_now" "timestamp_glob any_time op_slot"
  "require_timestamp l op_now = Inr ()" "require_timestamp l op_slot = Inr ()"
  "op_slot < op_now" "\<not> op_now \<le> op_slot" "op_slot \<noteq> op_now" "utc_check any_time op_slot"
proof -
  have len: "length op_now = 24" "length op_slot = 24" by code_simp+
  show "timestamp_glob any_time op_now" "timestamp_glob any_time op_slot" by code_simp+
  have "list_all (\<lambda>i. i \<in> {4, 7, 10, 13, 16, 19, 23} \<or> is_digit (op_now ! i)) [0..<24]"
    "list_all (\<lambda>i. i \<in> {4, 7, 10, 13, 16, 19, 23} \<or> is_digit (op_slot ! i)) [0..<24]" by code_simp+
  then show "require_timestamp l op_now = Inr ()" "require_timestamp l op_slot = Inr ()"
    by (simp_all add: require_timestamp_def len) (simp_all add: op_now_def op_slot_def)
  show "op_slot < op_now" "\<not> op_now \<le> op_slot" "op_slot \<noteq> op_now" "utc_check any_time op_slot" by code_simp+
qed

lemma op_slugs:
  "op_require_nonempty ''connection slug'' ''tmo'' = Inr ()" "op_require_nonempty ''connection slug'' ''monarch'' = Inr ()"
  "op_require_nonempty ''sync error message'' ''boom'' = Inr ()"
  by code_simp+

lemma op_sample_inv: "op_inv any_time op_sample"
  by (auto simp: op_inv_def op_valid_def op_sample_def control_check_def op_texts run_check_def failed_run_def
      active_run_def new_run_def run_clash_def live_def run_ids_def attempts_def max_scheduled_attempts_def
      sample_connection_def conn_check_def)

lemmas op_sample_valid = op_invD(1) [OF op_sample_inv]

lemma op_sample_facts:
  "writes_on op_sample" "scheduler_on op_sample" "has_connection ''tmo'' op_sample"
  "op_control_row op_sample \<noteq> None" "active_run \<in> set (runs op_sample)" "rr_status active_run = ''running''"
  "rr_id active_run = 2" "\<not> running_run ''tmo'' op_sample" "\<not> covered ''tmo'' op_slot op_sample"
  "\<not> slot_done ''tmo'' op_slot op_sample" "slot_errors ''tmo'' op_slot op_sample = 1"
  by (simp_all add: op_sample_def writes_on_def scheduler_on_def active_run_def new_run_def failed_run_def
      running_run_def covered_def slot_done_def slot_errors_def has_connection_def sample_connection_def)

lemma op_sample_seq: "run_seq op_sample = 2"
  by (simp add: op_sample_def)

lemma op_new_check: "run_check any_time (new_run ''tmo'' sched op_now i) \<longleftrightarrow> pred_option (timestamp_glob any_time) sched"
  by (simp add: run_check_def new_run_def op_texts)

lemma op_initial_sample: "op_valid any_time (op_initial op_slot [sample_connection 1 ''tmo''])"
  by (simp add: op_valid_def op_initial_def control_check_def op_texts conn_check_def sample_connection_def)

theorem run_guarantees_witness:
  "count_rows (\<lambda>r. rr_slug r = ''tmo'' \<and> rr_status r = ''running'')
     (runs (snd (claim_manual any_time ''tmo'' op_now (snd (set_control any_time Enabled False op_now
        (op_initial op_slot [sample_connection 1 ''tmo''])))))) \<le> 1"
proof -
  have "op_reachable any_time (snd (claim_manual any_time ''tmo'' op_now (snd (set_control any_time Enabled False op_now
        (op_initial op_slot [sample_connection 1 ''tmo''])))))"
    unfolding op_reachable_def using op_initial_sample
    by (blast intro: op_step.control op_step.manual rtranclp.rtrancl_into_rtrancl rtranclp.rtrancl_refl)
  from run_guarantees [OF this] show ?thesis by simp
qed

theorem finished_runs_final_witness:
  "failed_run \<in> set (runs (snd (interrupt_stale any_time ''tmo'' op_now op_now op_sample)))"
proof -
  have "(op_step any_time)\<^sup>*\<^sup>* op_sample (snd (interrupt_stale any_time ''tmo'' op_now op_now op_sample))"
    by (intro r_into_rtranclp op_step.interrupt)
  moreover have "failed_run \<in> set (runs op_sample)" by (simp add: op_sample_def)
  ultimately show ?thesis using finished_runs_final [of any_time op_sample _ failed_run] by (auto simp: failed_run_def)
qed

theorem claim_manual_spec_witness:
  "\<exists>r. claim_manual any_time ''tmo'' op_now op_sample = (Inr (Claimed r), with_run (new_run ''tmo'' None op_now 3) op_sample)"
  using claim_manual_spec [OF op_sample_valid op_sample_facts(1,3) op_slugs(1) op_texts(3)]
  by (auto simp: op_sample_facts op_new_check op_sample_seq)

theorem claim_scheduled_spec_witness:
  "\<exists>r db'. claim_scheduled any_time ''tmo'' op_slot op_now op_sample = (Inr (Claimed r), db')"
proof -
  have "run_check any_time (new_run ''tmo'' (Some op_slot) op_now (run_seq op_sample + 1))"
    by (simp add: op_new_check op_texts)
  from claim_scheduled_spec [OF op_sample_valid op_sample_facts(2,3) op_slugs(1) op_texts(3,4) this]
  show ?thesis by (auto simp: op_sample_facts)
qed

theorem completion_once_witness:
  "fst (complete_success any_time 2 op_now \<lparr>sy_endpoints = None, sy_events = 1, sy_loans = 2, sy_snapshots = 0\<rparr> op_sample) =
     Inr (run_of (succeed_run op_now \<lparr>sy_endpoints = None, sy_events = 1, sy_loans = 2, sy_snapshots = 0\<rparr> active_run))"
proof -
  let ?c = "\<lparr>sy_endpoints = None, sy_events = 1, sy_loans = 2, sy_snapshots = 0\<rparr>"
  have "validate_completion ?c = Inr ()" by (simp add: validate_completion_def)
  from completion_once [OF op_sample_inv op_sample_facts(5,6) op_texts(3,1,3) this op_slugs(3)]
  show ?thesis by (simp add: op_sample_facts)
qed

theorem interrupt_stale_spec_witness:
  "fst (interrupt_stale any_time ''monarch'' op_now op_now op_sample) =
     Inr [run_of (fail_run op_now stale_message active_run)]"
  using interrupt_stale_spec [OF op_sample_valid op_slugs(2) op_texts(3,1,3) op_sample_facts(4)]
  by (simp add: op_sample_facts(1)) (simp add: op_sample_def active_run_def new_run_def failed_run_def op_texts)

end
