(* ===== verification/Utc_Clock.thy ===== *)
theory Utc_Clock
  imports Iso_Date Operations
begin

text \<open>
  Instants and their stored text. \<open>time::OffsetDateTime\<close> in UTC is the number of nanoseconds since
  the Unix epoch; its date is a date of the interface \<open>D\<close>. \<open>format_utc_millis\<close> (the same function in
  \<open>src/scheduler.rs\<close> and \<open>src/sync_runtime/mod.rs\<close>) writes the fixed-width text of the durable timestamps.
  The lemmas show that this text passes \<open>require_timestamp\<close> and is ordered as the instants are, to the
  millisecond, so that SQL's comparisons of stored timestamps compare instants.
\<close>

type_synonym instant = int

definition second :: instant where "second = 1000000000"

definition millisecond :: instant where "millisecond = 1000000"

definition day_ns :: instant where "day_ns = 86400 * second"

definition unix_epoch :: "date_api \<Rightarrow> iso_date" where
  "unix_epoch D = (case from_calendar_date D 1970 1 1 of Some e \<Rightarrow> e | None \<Rightarrow> 0)"

definition utc_date :: "date_api \<Rightarrow> instant \<Rightarrow> iso_date" where
  "utc_date D t = unix_epoch D + t div day_ns"

definition representable :: "date_api \<Rightarrow> instant \<Rightarrow> bool" where
  "representable D t \<longleftrightarrow> in_range D (utc_date D t)"

definition unix_timestamp :: "instant \<Rightarrow> int" where
  "unix_timestamp t = t div second"

definition from_unix_timestamp :: "date_api \<Rightarrow> int \<Rightarrow> instant option" where
  "from_unix_timestamp D s = (if representable D (s * second) then Some (s * second) else None)"

definition checked_add :: "date_api \<Rightarrow> instant \<Rightarrow> int \<Rightarrow> instant option" where
  "checked_add D t d = (if representable D (t + d) then Some (t + d) else None)"

text \<open>The milliseconds since midnight, and the fields of the time of day.\<close>

definition ms_of_day :: "instant \<Rightarrow> nat" where
  "ms_of_day t = nat (t mod day_ns div millisecond)"

definition time_fields :: "nat \<Rightarrow> nat \<times> nat \<times> nat \<times> nat" where
  "time_fields ms = (ms div 3600000, ms div 60000 mod 60, ms div 1000 mod 60, ms mod 1000)"

definition time_text :: "nat \<Rightarrow> string" where
  "time_text ms = (case time_fields ms of (h, m, s, f) \<Rightarrow>
     ''T'' @ show_pad 2 h @ '':'' @ show_pad 2 m @ '':'' @ show_pad 2 s @ ''.'' @ show_pad 3 f @ ''Z'')"

definition format_utc_millis :: "date_api \<Rightarrow> instant \<Rightarrow> string" where
  "format_utc_millis D t =
     show_int_pad 4 (iso_year D (utc_date D t)) @ ''-'' @ show_pad 2 (iso_month D (utc_date D t)) @ ''-'' @
     show_pad 2 (iso_day D (utc_date D t)) @ time_text (ms_of_day t)"

definition format_date :: "date_api \<Rightarrow> instant \<Rightarrow> string" where
  "format_date D t =
     show_int_pad 4 (iso_year D (utc_date D t)) @ ''-'' @ show_pad 2 (iso_month D (utc_date D t)) @ ''-'' @
     show_pad 2 (iso_day D (utc_date D t))"

text \<open>The instants of the years 0 to 9999, whose text has a fixed width.\<close>

definition writable :: "date_api \<Rightarrow> instant \<Rightarrow> bool" where
  "writable D t \<longleftrightarrow> storable D (utc_date D t)"

subsection \<open>The time of day\<close>

lemma ms_of_day_bound: "ms_of_day t < 86400000"
proof -
  have "0 \<le> t mod day_ns" "t mod day_ns < 86400000 * millisecond"
    by (simp_all add: day_ns_def second_def millisecond_def)
  then have "t mod day_ns div millisecond < 86400000"
    by (simp add: millisecond_def)
  then show ?thesis by (simp add: ms_of_day_def)
qed

lemma instant_order: "t div millisecond < u div millisecond \<longleftrightarrow>
    t div day_ns < u div day_ns \<or> t div day_ns = u div day_ns \<and> ms_of_day t < ms_of_day u"
proof -
  have f: "t div millisecond = (t div day_ns) * 86400000 + t mod day_ns div millisecond" for t
  proof -
    have "t = (t div day_ns * 86400000) * millisecond + t mod day_ns"
      using div_mult_mod_eq [of t day_ns] by (simp add: day_ns_def second_def millisecond_def)
    then have "t div millisecond = ((t div day_ns * 86400000) * millisecond + t mod day_ns) div millisecond"
      by simp
    also have "\<dots> = t div day_ns * 86400000 + t mod day_ns div millisecond"
      by (rule div_mult_self3) (simp add: millisecond_def)
    finally show ?thesis .
  qed
  have b: "0 \<le> t mod day_ns div millisecond" "t mod day_ns div millisecond < 86400000" for t
    by (simp_all add: day_ns_def second_def millisecond_def)
  show ?thesis
    unfolding f [of t] f [of u] ms_of_day_def using b [of t] b [of u] by (auto simp: nat_less_eq_zless)
qed

lemma time_fields_less: "time_fields a < time_fields b \<longleftrightarrow> a < b"
proof -
  have split: "a < b \<longleftrightarrow> a div k < b div k \<or> a div k = b div k \<and> a mod k < b mod k" if "0 < k" for a b k :: nat
  proof -
    have e: "a = k * (a div k) + a mod k" "b = k * (b div k) + b mod k" by simp_all
    have m: "a mod k < k" "b mod k < k" using that by simp_all
    show ?thesis
    proof (cases "a div k" "b div k" rule: linorder_cases)
      case less
      then have "k * (a div k) + k \<le> k * (b div k)" by (metis Suc_leI mult_Suc_right add.commute mult_le_mono2)
      with e m less show ?thesis by linarith
    next
      case equal
      with e show ?thesis by (metis add_less_cancel_left less_irrefl)
    next
      case greater
      then have "k * (b div k) + k \<le> k * (a div k)" by (metis Suc_leI mult_Suc_right add.commute mult_le_mono2)
      with e m greater show ?thesis by linarith
    qed
  qed
  have g: "x mod (m * n) div m = x div m mod n" if "0 < m" for x m n :: nat
    using that by (simp add: mod_mult2_eq)
  have c: "x mod 3600000 mod 60000 = x mod 60000" "x mod 60000 mod 1000 = x mod 1000" for x :: nat
    by (simp_all add: mod_mod_cancel)
  have f: "time_fields x = (x div 3600000, x mod 3600000 div 60000, x mod 60000 div 1000, x mod 1000)" for x
    unfolding time_fields_def using g [of 60000 x 60] g [of 1000 x 60] by simp
  have "a < b \<longleftrightarrow> a div 3600000 < b div 3600000 \<or> a div 3600000 = b div 3600000 \<and>
      (a mod 3600000 div 60000 < b mod 3600000 div 60000 \<or> a mod 3600000 div 60000 = b mod 3600000 div 60000 \<and>
        (a mod 60000 div 1000 < b mod 60000 div 1000 \<or> a mod 60000 div 1000 = b mod 60000 div 1000 \<and>
          a mod 1000 < b mod 1000))"
    using split [of 3600000 a b] split [of 60000 "a mod 3600000" "b mod 3600000"]
      split [of 1000 "a mod 60000" "b mod 60000"] unfolding c by simp
  then show ?thesis unfolding f less_prod_simp by (simp only: le_less) blast
qed

lemma time_fields_bounds:
  assumes "time_fields ms = (h, m, s, f)" "ms < 86400000"
  shows "h < 100" "m < 100" "s < 100" "f < 1000"
proof -
  have "x mod 60 < 100" for x :: nat by (rule less_le_trans [OF mod_less_divisor]) simp_all
  then show "m < 100" "s < 100" using assms(1) by (auto simp: time_fields_def)
  show "h < 100" using assms by (auto simp: time_fields_def intro: less_mult_imp_div_less)
  show "f < 1000" using assms(1) by (auto simp: time_fields_def)
qed

subsection \<open>The stored text\<close>

lemma time_text_width: "ms < 86400000 \<Longrightarrow> length (time_text ms) = 14"
  by (cases "time_fields ms") (simp add: time_text_def length_show_pad time_fields_bounds)

lemma time_text_less:
  assumes "a < 86400000" "b < 86400000"
  shows "time_text a < time_text b \<longleftrightarrow> a < b"
proof -
  obtain h m s f where fa: "time_fields a = (h, m, s, f)" by (cases "time_fields a")
  obtain h' m' s' f' where fb: "time_fields b = (h', m', s', f')" by (cases "time_fields b")
  note bounds = time_fields_bounds [OF fa assms(1)] time_fields_bounds [OF fb assms(2)]
  have "time_text a < time_text b \<longleftrightarrow> h < h' \<or> h = h' \<and> (m < m' \<or> m = m' \<and> (s < s' \<or> s = s' \<and> f < f'))"
    using bounds by (simp add: time_text_def fa fb append_less_iff length_show_pad show_pad_less show_pad_inj)
  also have "\<dots> \<longleftrightarrow> time_fields a < time_fields b" unfolding fa fb less_prod_simp by (simp only: le_less) blast
  finally show ?thesis by (simp add: time_fields_less)
qed

context time_date
begin

lemma format_parts: "format_utc_millis D t = iso_to_string D (utc_date D t) @ time_text (ms_of_day t)"
  "format_date D t = iso_to_string D (utc_date D t)"
  by (simp_all add: format_utc_millis_def format_date_def iso_to_string_def)

lemma length_format: "writable D t \<Longrightarrow> length (format_utc_millis D t) = 24"
  by (simp add: format_parts writable_def length_iso_to_string time_text_width ms_of_day_bound)

lemma format_less:
  assumes "writable D t" "writable D u"
  shows "format_utc_millis D t < format_utc_millis D u \<longleftrightarrow> t div millisecond < u div millisecond"
proof -
  note st = assms [unfolded writable_def]
  have d: "utc_date D t < utc_date D u \<longleftrightarrow> t div day_ns < u div day_ns"
    "utc_date D t = utc_date D u \<longleftrightarrow> t div day_ns = u div day_ns" by (simp_all add: utc_date_def)
  have "format_utc_millis D t < format_utc_millis D u \<longleftrightarrow> utc_date D t < utc_date D u \<or>
      utc_date D t = utc_date D u \<and> ms_of_day t < ms_of_day u"
    using st to_string_less [OF st] to_string_inj [OF st]
    by (simp add: format_parts append_less_iff length_iso_to_string time_text_less ms_of_day_bound)
  then show ?thesis unfolding d instant_order .
qed

lemma format_le:
  assumes "writable D t" "writable D u"
  shows "format_utc_millis D t \<le> format_utc_millis D u \<longleftrightarrow> t div millisecond \<le> u div millisecond"
  using format_less [OF assms(2,1)] by (simp add: not_less [symmetric])

lemma format_inj:
  assumes "writable D t" "writable D u"
  shows "format_utc_millis D t = format_utc_millis D u \<longleftrightarrow> t div millisecond = u div millisecond"
  using format_le [OF assms] format_le [OF assms(2,1)] by (auto simp: order_eq_iff)

lemma format_timestamp:
  assumes "writable D t"
  shows "require_timestamp label (format_utc_millis D t) = Inr ()"
proof -
  note st = storable_text [OF assms [unfolded writable_def]]
  define Y where "Y = show_pad 4 (nat (iso_year D (utc_date D t)))"
  define M where "M = show_pad 2 (iso_month D (utc_date D t))"
  define A where "A = show_pad 2 (iso_day D (utc_date D t))"
  obtain h m s f where hms: "time_fields (ms_of_day t) = (h, m, s, f)" by (cases "time_fields (ms_of_day t)")
  note b = time_fields_bounds [OF hms ms_of_day_bound]
  from b have lt: "length (show_pad 2 h) = 2" "length (show_pad 2 m) = 2" "length (show_pad 2 s) = 2" "length (show_pad 3 f) = 3"
    by (simp_all add: length_show_pad)
  have ld: "length Y = 4" "length M = 2" "length A = 2" using st by (simp_all add: Y_def M_def A_def)
  have shape: "format_utc_millis D t = Y @ ''-'' @ M @ ''-'' @ A @ ''T'' @ show_pad 2 h @ '':'' @ show_pad 2 m @ '':'' @
      show_pad 2 s @ ''.'' @ show_pad 3 f @ ''Z''"
    by (simp add: format_parts st(1) time_text_def hms Y_def M_def A_def)
  have dig: "list_all is_digit Y" "list_all is_digit M" "list_all is_digit A" "list_all is_digit (show_pad 2 h)"
    "list_all is_digit (show_pad 2 m)" "list_all is_digit (show_pad 2 s)" "list_all is_digit (show_pad 3 f)"
    by (simp_all add: Y_def M_def A_def show_pad_digits)
  show ?thesis
    using ld lt dig unfolding shape
    by (auto simp: eval_nat_numeral length_Suc_conv require_timestamp_def upt_rec)
qed

end

end
