(* ===== verification/Connections.thy ===== *)
theory Connections
  imports Utc_Clock Operation_Runs
begin

text \<open>
  The integration connections (\<open>intg_integration_connection\<close>) as the coordination code uses them:
  \<open>src/integrations/error.rs\<close>, \<open>connection_by_slug\<close> of \<open>src/integrations/repository.rs\<close>, and
  \<open>set_next_scheduled_at\<close> and \<open>mark_tmo_error\<close> of \<open>src/integrations/tmo_write.rs\<close>. The table is part of
  the operations database, whose constraints \<open>op_valid\<close> every statement respects.
\<close>

datatype int_error = IntConfiguration string | IntValidation string | IntStorage string

type_synonym 'a int_op = "(op_db, int_error, 'a) op"

definition connection_by_slug :: "string \<Rightarrow> conn_row option int_op" where
  "connection_by_slug slug = gets (\<lambda>db. find (\<lambda>c. cn_slug c = slug) (op_connections db))"

text \<open>\<open>UPDATE .. WHERE\<close> on the table, returning the number of rows that changed.\<close>

definition update_connections :: "(string \<Rightarrow> bool) \<Rightarrow> string \<Rightarrow> (conn_row \<Rightarrow> bool) \<Rightarrow> (conn_row \<Rightarrow> conn_row) \<Rightarrow>
    nat int_op" where
  "update_connections X ctx P f = sql_write (op_valid X) (IntStorage ctx) (\<lambda>db.
     (count_rows P (op_connections db), db\<lparr>op_connections := update_rows P f (op_connections db)\<rparr>))"

definition next_slot_update :: "string option \<Rightarrow> string \<Rightarrow> conn_row \<Rightarrow> conn_row" where
  "next_slot_update next updated_at c =
     c\<lparr>cn_next_scheduled_at := next,
       cn_updated_at := (if cn_next_scheduled_at c = next then cn_updated_at c else updated_at)\<rparr>"

definition set_next_scheduled_at :: "(string \<Rightarrow> bool) \<Rightarrow> string \<Rightarrow> string option \<Rightarrow> string \<Rightarrow> unit int_op" where
  "set_next_scheduled_at X slug next updated_at =
     thn (require (trim slug \<noteq> []) (IntValidation ''integration connection slug cannot be empty''))
    (bnd (update_connections X ''update integration next scheduled time'' (\<lambda>c. cn_slug c = slug)
            (next_slot_update next updated_at)) (\<lambda>changed.
       require (changed = 1)
         (IntStorage ''integration connection disappeared while recording its schedule'')))"

definition error_update :: "string \<Rightarrow> string \<Rightarrow> conn_row \<Rightarrow> conn_row" where
  "error_update message updated_at c =
     c\<lparr>cn_status := ''error'', cn_last_error := Some message, cn_updated_at := updated_at\<rparr>"

definition mark_tmo_error :: "(string \<Rightarrow> bool) \<Rightarrow> int \<Rightarrow> string \<Rightarrow> string \<Rightarrow> unit int_op" where
  "mark_tmo_error X connection_id message updated_at =
     bnd (update_connections X ''mark TMO connection error''
            (\<lambda>c. cn_id c = connection_id \<and> cn_slug c = ''tmo'') (error_update message updated_at)) (\<lambda>changed.
       require (changed = 1)
         (IntStorage ''TMO integration connection disappeared during error transition''))"

subsection \<open>Lemmas\<close>

lemma keeps_connections [keeps_rules, intro]:
  "keeps (op_valid X) (set_next_scheduled_at X slug next t)"
  "keeps (op_valid X) (mark_tmo_error X i m t)"
  by (auto simp: set_next_scheduled_at_def mark_tmo_error_def update_connections_def keeps_valid_write intro!: keeps_rules)

lemma reads_connection_by_slug [intro]: "reads (connection_by_slug slug)"
  by (simp add: connection_by_slug_def reads_intros)

lemma find_unique:
  assumes "distinct (map f xs)" "c \<in> set xs"
  shows "find (\<lambda>d. f d = f c) xs = Some c"
  using assms by (induction xs) auto

lemma find_slug:
  assumes "op_valid X db" "c \<in> set (op_connections db)" "cn_slug c = slug"
  shows "find (\<lambda>c. cn_slug c = slug) (op_connections db) = Some c"
proof -
  have "distinct (map cn_slug (op_connections db))" using assms(1) by (simp add: op_valid_def)
  from find_unique [OF this assms(2)] show ?thesis unfolding assms(3) .
qed

lemma count_one:
  assumes "distinct (map f xs)" "c \<in> set xs"
  shows "count_rows (\<lambda>d. f d = f c) xs = 1"
proof -
  obtain ys zs where xs: "xs = ys @ c # zs" using assms(2) by (meson split_list)
  have nin: "f c \<notin> f ` set ys" "f c \<notin> f ` set zs" using assms(1) by (simp_all add: xs)
  have "filter (\<lambda>d. f d = f c) ys = []" "filter (\<lambda>d. f d = f c) zs = []"
    unfolding filter_empty_conv using nin by (metis imageI)+
  then show ?thesis by (simp add: count_rows_def xs)
qed

text \<open>Updating the row of one slug keeps the constraints when the new row satisfies them and keeps its keys.\<close>

lemma update_connection_valid:
  assumes "op_valid X db" "\<And>c. P c \<Longrightarrow> c \<in> set (op_connections db) \<Longrightarrow> conn_check X (f c)"
    and "\<And>c. cn_slug (f c) = cn_slug c" "\<And>c. cn_id (f c) = cn_id c"
  shows "op_valid X (db\<lparr>op_connections := update_rows P f (op_connections db)\<rparr>)"
proof -
  have m: "map cn_slug (update_rows P f cs) = map cn_slug cs" "map cn_id (update_rows P f cs) = map cn_id cs" for cs
    using assms(3,4) by (induction cs) (simp_all add: update_rows_def)
  show ?thesis using assms(1,2) by (auto simp: op_valid_def m list_all_iff set_update_rows)
qed

lemma set_next_scheduled_at_ok:
  assumes v: "op_valid X db" and c: "c \<in> set (op_connections db)" "cn_slug c = slug" and s: "trim slug \<noteq> []"
    and t: "pred_option (utc_check X) next" "utc_check X updated_at"
  shows "set_next_scheduled_at X slug next updated_at db = (Inr (),
    db\<lparr>op_connections := update_rows (\<lambda>c. cn_slug c = slug) (next_slot_update next updated_at) (op_connections db)\<rparr>)"
proof -
  have "conn_check X (next_slot_update next updated_at d)" if "d \<in> set (op_connections db)" for d
    using v that t by (auto simp: op_valid_def list_all_iff conn_check_def next_slot_update_def)
  then have "op_valid X (db\<lparr>op_connections := update_rows (\<lambda>c. cn_slug c = slug) (next_slot_update next updated_at) (op_connections db)\<rparr>)"
    by (intro update_connection_valid [OF v]) (simp_all add: next_slot_update_def)
  moreover have "count_rows (\<lambda>d. cn_slug d = slug) (op_connections db) = 1"
    using count_one [of cn_slug "op_connections db" c] v c by (simp add: op_valid_def)
  ultimately show ?thesis
    using s by (simp add: set_next_scheduled_at_def update_connections_def thn_def bnd_def sql_write_def Let_def require_def ok_def)
qed

end
