(* ===== verification/Providers.thy ===== *)
theory Providers
  imports Rust_Text Float64
begin

text \<open>
  The provider boundary, \<open>src/providers\<close>: the errors, the data of The Mortgage Office (TMO) and of
  Monarch, and the logic around their HTTP calls. A call itself (\<open>get_data\<close>, \<open>graphql\<close>: \<open>reqwest\<close>, the
  network and \<open>serde\<close>) is an argument: \<open>fetch p\<close> is what the service answers for page \<open>p\<close>. The
  portfolio loop is translated with its page counter, which fits an \<open>i32\<close> or stops with an error, so the
  loop ends for every server.
\<close>

datatype provider_name = Tmo | Monarch

datatype provider_error = InvalidConfiguration provider_name | Timeout provider_name | Transport provider_name
  | HttpStatus provider_name nat | ResponseTooLarge provider_name nat | InvalidResponse provider_name
  | AuthenticationRejected provider_name | RequestRejected provider_name | MissingData provider_name

definition provider_str :: "provider_name \<Rightarrow> string" where
  "provider_str p = (case p of Tmo \<Rightarrow> ''TMO'' | Monarch \<Rightarrow> ''Monarch'')"

definition provider_error_str :: "provider_error \<Rightarrow> string" where
  "provider_error_str e = (case e of
     InvalidConfiguration p \<Rightarrow> provider_str p @ '' provider configuration is invalid''
   | Timeout p \<Rightarrow> provider_str p @ '' request timed out''
   | Transport p \<Rightarrow> provider_str p @ '' request could not be completed''
   | HttpStatus p status \<Rightarrow> provider_str p @ '' returned HTTP status '' @ show_nat status
   | ResponseTooLarge p limit \<Rightarrow> provider_str p @ '' response exceeded the '' @ show_nat limit @ ''-byte limit''
   | InvalidResponse p \<Rightarrow> provider_str p @ '' returned an invalid response''
   | AuthenticationRejected p \<Rightarrow> provider_str p @ '' rejected authentication''
   | RequestRejected p \<Rightarrow> provider_str p @ '' rejected the request''
   | MissingData p \<Rightarrow> provider_str p @ '' response did not contain required data'')"

subsection \<open>TMO data\<close>

record tmo_credentials =
  tc_company_id :: string
  tc_account :: string
  tc_pin :: string

definition credentials_valid :: "tmo_credentials \<Rightarrow> bool" where
  "credentials_valid c \<longleftrightarrow> list_all (\<lambda>v. trim v \<noteq> []) [tc_company_id c, tc_account c, tc_pin c]"

record tmo_user =
  tu_source_rec_id :: string
  tu_company_id :: string
  tu_account :: string
  tu_name :: string
  tu_email :: string

record tmo_loan =
  tl_account :: string
  tl_borrower_name :: string
  tl_street :: string
  tl_city :: string
  tl_state :: string
  tl_zip :: string
  tl_percent_owned :: f64
  tl_interest_rate :: f64
  tl_maturity_date :: string
  tl_term_left :: int
  tl_next_payment_date :: string
  tl_interest_paid_to :: string
  tl_billed_through :: "string option"
  tl_regular_payment :: f64
  tl_balance :: f64
  tl_is_delinquent :: bool

record tmo_detail =
  tq_account :: string
  tq_borrower_name :: string
  tq_street :: string
  tq_city :: string
  tq_state :: string
  tq_zip :: string
  tq_description :: "string option"
  tq_property_type :: "string option"
  tq_property_priority :: "int option"
  tq_occupancy :: "string option"
  tq_ltv :: "f64 option"
  tq_appraised_value :: "f64 option"
  tq_priority :: "int option"
  tq_original_balance :: f64
  tq_principal_balance :: f64
  tq_note_rate :: f64
  tq_maturity_date :: string
  tq_next_payment_date :: string
  tq_interest_paid_to :: string
  tq_regular_payment :: f64
  tq_payment_frequency :: string
  tq_loan_type :: int

record tmo_payment =
  tp_check_number :: string
  tp_loan_account :: string
  tp_check_date :: string
  tp_amount :: f64
  tp_service_fee :: f64
  tp_interest :: f64
  tp_principal :: f64
  tp_charges :: f64
  tp_late_charges :: f64
  tp_other :: f64
  tp_borrower_name :: string
  tp_property_name :: string

record tmo_overview =
  to_portfolio_value :: f64
  to_portfolio_yield :: f64
  to_ytd_interest :: f64
  to_ytd_principal :: f64
  to_portfolio_count :: int
  to_trust_balance :: f64
  to_outstanding_checks :: f64
  to_service_fees :: f64

text \<open>\<open>str::contains\<close>.\<close>

definition normalize_check_number :: "string \<Rightarrow> string option" where
  "normalize_check_number raw =
     (let trimmed = trim raw
      in if trimmed = [] \<or> contains_text (ascii_lower trimmed) ''print'' then None else Some trimmed)"

subsection \<open>Paging\<close>

record 'a paginated =
  pg_page :: int
  pg_rows_per_page :: int
  pg_total_count :: int
  pg_data :: "'a list"

definition append_paginated_page :: "'a list \<Rightarrow> nat option \<Rightarrow> 'a paginated \<Rightarrow> int \<Rightarrow>
    provider_error + ('a list \<times> nat \<times> bool)" where
  "append_paginated_page rows expected_total response requested_page =
     (if pg_total_count response < 0 \<or> pg_rows_per_page response < 0 then Inl (InvalidResponse Tmo)
      else let total_count = nat (pg_total_count response); rows_per_page = nat (pg_rows_per_page response)
        in if pg_page response \<noteq> requested_page \<or> rows_per_page = 0 \<or> rows_per_page < length (pg_data response) \<or>
              (\<exists>expected \<in> set_option expected_total. expected \<noteq> total_count) \<or>
              (pg_data response = [] \<and> length rows < total_count)
           then Inl (InvalidResponse Tmo)
           else let rows' = rows @ pg_data response
             in if total_count < length rows' then Inl (InvalidResponse Tmo)
                else Inr (rows', total_count, length rows' = total_count))"

definition i32_max :: int where
  "i32_max = 2147483647"

function portfolio_loop :: "(int \<Rightarrow> provider_error + 'a paginated) \<Rightarrow> int \<Rightarrow> nat option \<Rightarrow> 'a list \<Rightarrow>
    provider_error + 'a list" where
  "portfolio_loop fetch page expected_total loans =
     (case fetch page of Inl e \<Rightarrow> Inl e
      | Inr response \<Rightarrow>
          (case append_paginated_page loans expected_total response page of Inl e \<Rightarrow> Inl e
           | Inr (loans', n_total, final) \<Rightarrow>
               if final then Inr loans'
               else if i32_max \<le> page then Inl (InvalidResponse Tmo)
               else portfolio_loop fetch (page + 1) (Some n_total) loans'))"
  by pat_completeness auto
termination
  by (relation "measure (\<lambda>(fetch, page, n_total, loans). nat (i32_max - page))") auto

declare portfolio_loop.simps [simp del]

definition get_portfolio :: "(int \<Rightarrow> provider_error + 'a paginated) \<Rightarrow> provider_error + 'a list" where
  "get_portfolio fetch = portfolio_loop fetch 1 None []"

definition get_history :: "(int \<Rightarrow> provider_error + 'a paginated) \<Rightarrow> provider_error + 'a list" where
  "get_history fetch = (case fetch 1 of Inl e \<Rightarrow> Inl e | Inr response \<Rightarrow> Inr (pg_data response))"

subsection \<open>Completeness of the portfolio\<close>

lemma append_page_Inr:
  assumes "append_paginated_page rows expected response page = Inr (rows', n_total, final)"
  shows "rows' = rows @ pg_data response" "n_total = nat (pg_total_count response)" "0 \<le> pg_total_count response"
    "pg_page response = page" "expected = Some t \<Longrightarrow> n_total = t" "final \<longleftrightarrow> length rows' = n_total"
    "length rows' \<le> n_total" "\<not> final \<Longrightarrow> length rows < length rows'"
  using assms by (auto simp: append_paginated_page_def Let_def split: if_splits)

lemma portfolio_loop_complete:
  assumes "portfolio_loop fetch page expected rows = Inr loans"
  shows "\<exists>ps. ps \<noteq> [] \<and> loans = rows @ concat (map pg_data ps) \<and>
    (\<forall>i < length ps. fetch (page + int i) = Inr (ps ! i) \<and> pg_page (ps ! i) = page + int i \<and>
       pg_total_count (ps ! i) = int (length loans)) \<and>
    (\<forall>t. expected = Some t \<longrightarrow> length loans = t) \<and> length ps + length rows \<le> Suc (length loans)"
  using assms
proof (induction fetch page expected rows rule: portfolio_loop.induct)
  case (1 fetch page expected rows)
  obtain response where r: "fetch page = Inr response"
    using "1.prems" by (subst (asm) portfolio_loop.simps) (auto split: sum.splits)
  obtain rows' n_total final where a: "append_paginated_page rows expected response page = Inr (rows', n_total, final)"
    using "1.prems" r by (subst (asm) portfolio_loop.simps) (auto split: sum.splits prod.splits)
  note ap = append_page_Inr [OF a]
  show ?case
  proof (cases final)
    case True
    then have "loans = rows'" using "1.prems" r a by (subst (asm) portfolio_loop.simps) simp
    with True ap r show ?thesis by (intro exI [of _ "[response]"]) auto
  next
    case False
    have le: "\<not> i32_max \<le> page" and rest: "portfolio_loop fetch (page + 1) (Some n_total) rows' = Inr loans"
      using "1.prems" r a False by (subst (asm) portfolio_loop.simps; simp split: if_splits)+
    obtain ps where ps: "ps \<noteq> []" "loans = rows' @ concat (map pg_data ps)"
      "\<forall>i < length ps. fetch (page + 1 + int i) = Inr (ps ! i) \<and> pg_page (ps ! i) = page + 1 + int i \<and>
         pg_total_count (ps ! i) = int (length loans)"
      "length loans = n_total" "length ps + length rows' \<le> Suc (length loans)"
      using "1.IH" [OF r a refl refl False le rest] by auto
    have "\<forall>i < length (response # ps). fetch (page + int i) = Inr ((response # ps) ! i) \<and>
        pg_page ((response # ps) ! i) = page + int i \<and> pg_total_count ((response # ps) ! i) = int (length loans)"
      using ps(3,4) r ap(2-4) by (auto simp: less_Suc_eq_0_disj add.assoc)
    moreover have "length (response # ps) + length rows \<le> Suc (length loans)"
      using ps(5) ap(8) [OF False] by (simp only: list.size)
    ultimately show ?thesis
      using ps(1,2,4) ap(1,5) by (intro exI [of _ "response # ps"]) auto
  qed
qed

text \<open>An honest server: page \<open>p\<close> holds the rows \<open>(p - 1) * k\<close> to \<open>p * k - 1\<close> of its list.\<close>

definition paged :: "nat \<Rightarrow> 'a list \<Rightarrow> int \<Rightarrow> provider_error + 'a paginated" where
  "paged k rows page = Inr \<lparr>pg_page = page, pg_rows_per_page = int k, pg_total_count = int (length rows),
     pg_data = take k (drop (nat (page - 1) * k) rows)\<rparr>"

lemma portfolio_loop_paged:
  assumes k: "0 < k" and small: "int (length rows) < i32_max"
  shows "n * k \<le> length rows \<Longrightarrow> n * k < length rows \<or> n = 0 \<Longrightarrow> expected = None \<or> expected = Some (length rows) \<Longrightarrow>
    portfolio_loop (paged k rows) (int n + 1) expected (take (n * k) rows) = Inr rows"
proof (induction "length rows - n * k" arbitrary: n expected rule: less_induct)
  case less
  have pg: "paged k rows (int n + 1) = Inr \<lparr>pg_page = int n + 1, pg_rows_per_page = int k, pg_total_count = int (length rows),
     pg_data = take k (drop (n * k) rows)\<rparr>" by (simp add: paged_def)
  have tk: "take (n * k) rows @ take k (drop (n * k) rows) = take (Suc n * k) rows"
    by (simp only: mult_Suc add.commute [of k] take_add)
  have ne: "n * k < length rows \<Longrightarrow> take k (drop (n * k) rows) \<noteq> []" using k by simp
  have ap: "append_paginated_page (take (n * k) rows) expected
      \<lparr>pg_page = int n + 1, pg_rows_per_page = int k, pg_total_count = int (length rows),
       pg_data = take k (drop (n * k) rows)\<rparr> (int n + 1) =
     Inr (take (Suc n * k) rows, length rows, length (take (Suc n * k) rows) = length rows)"
    using less.prems k ne by (auto simp: append_paginated_page_def Let_def tk)
  show ?case
  proof (cases "Suc n * k < length rows")
    case False
    then have all: "take (Suc n * k) rows = rows" by simp
    show ?thesis
      by (subst portfolio_loop.simps) (simp only: pg ap [unfolded all] sum.case prod.case refl if_True)
  next
    case True
    have "Suc n * 1 \<le> Suc n * k" using k by (intro mult_le_mono) simp_all
    from le_less_trans [OF this True] have "int n + 1 < int (length rows)" by simp
    then have "\<not> i32_max \<le> int n + 1" using small by linarith
    moreover have "length (take (Suc n * k) rows) \<noteq> length rows" using True by simp
    moreover have "portfolio_loop (paged k rows) (int (Suc n) + 1) (Some (length rows)) (take (Suc n * k) rows) = Inr rows"
      using True k by (intro less.hyps) auto
    moreover have "int n + 1 + 1 = int (Suc n) + 1" by simp
    ultimately show ?thesis
      by (subst portfolio_loop.simps) (simp only: pg ap sum.case prod.case if_False)
  qed
qed

text \<open>C38: The portfolio is fetched completely. If \<open>get_portfolio\<close> returns loans, they are the rows of the pages 1 to
  \<open>n\<close> in order, every page announced exactly their number as the total, and at most one request per loan plus one was made;
  the loop ends whatever the server answers. From a server that serves a list in pages it returns that list.\<close>

theorem portfolio_complete:
  "(\<forall>loans. get_portfolio fetch = Inr loans \<longrightarrow> (\<exists>ps. ps \<noteq> [] \<and> loans = concat (map pg_data ps) \<and>
      length ps \<le> Suc (length loans) \<and>
      (\<forall>i < length ps. fetch (1 + int i) = Inr (ps ! i) \<and> pg_total_count (ps ! i) = int (length loans)))) \<and>
   (0 < k \<and> int (length rows) < i32_max \<longrightarrow> get_portfolio (paged k rows) = Inr rows)"
proof (intro conjI allI impI)
  fix loans
  assume "get_portfolio fetch = Inr loans"
  from portfolio_loop_complete [OF this [unfolded get_portfolio_def]]
  show "\<exists>ps. ps \<noteq> [] \<and> loans = concat (map pg_data ps) \<and> length ps \<le> Suc (length loans) \<and>
      (\<forall>i < length ps. fetch (1 + int i) = Inr (ps ! i) \<and> pg_total_count (ps ! i) = int (length loans))"
    by auto
next
  assume "0 < k \<and> int (length rows) < i32_max"
  then show "get_portfolio (paged k rows) = Inr rows"
    using portfolio_loop_paged [of k rows 0 None] by (simp add: get_portfolio_def)
qed

theorem portfolio_complete_witness: "get_portfolio (paged 2 [7, 8, 9 :: nat]) = Inr [7, 8, 9]"
  using portfolio_complete [THEN conjunct2, of 2 "[7, 8, 9 :: nat]"] by (simp add: i32_max_def)

text \<open>The payment history, by contrast, is the first page only.\<close>

lemma get_history_first_page: "get_history (paged k rows) = Inr (take k rows)"
  by (simp add: get_history_def paged_def)

end
