(* ===== verification/App_State.thy ===== *)
theory App_State
  imports Statements Connections Providers
begin

text \<open>
  The whole database as the synchronisation code sees it: the finance tables, the operations tables, the
  settings and the provider staging tables of \<open>migrations/0003_integrations_operations.sql\<close>, with the constraints
  that span them (\<open>app_valid\<close>). An operation of one component is lifted with \<open>zoom\<close>; the locale
  \<open>component\<close> states the laws of such a part, and what a lifted operation keeps.
\<close>

subsection \<open>Provider staging tables\<close>

record overview_row =
  ow_connection_id :: int
  ow_snapshot_date :: string
  ow_portfolio_value :: "f64 option"
  ow_portfolio_yield :: "f64 option"
  ow_portfolio_count :: "int option"
  ow_ytd_interest :: "f64 option"
  ow_ytd_principal :: "f64 option"
  ow_trust_balance :: "f64 option"
  ow_outstanding_checks :: "f64 option"
  ow_service_fees :: "f64 option"
  ow_processing_state :: string
  ow_raw_payload :: "string option"
  ow_updated_at :: string

record snapshot_row =
  sn_snapshot_date :: string
  sn_portfolio_value :: "f64 option"
  sn_portfolio_yield :: "f64 option"
  sn_portfolio_count :: "int option"
  sn_ytd_interest :: "f64 option"
  sn_ytd_principal :: "f64 option"
  sn_trust_balance :: "f64 option"
  sn_outstanding_checks :: "f64 option"
  sn_service_fees :: "f64 option"
  sn_synced_at :: string

record loan_row =
  lo_connection_id :: int
  lo_stream_id :: "int option"
  lo_account :: string
  lo_borrower_name :: "string option"
  lo_address :: "string option"
  lo_city :: "string option"
  lo_state :: "string option"
  lo_zip :: "string option"
  lo_description :: "string option"
  lo_property_type :: "string option"
  lo_property_priority :: "int option"
  lo_occupancy :: "string option"
  lo_appraised_value :: "f64 option"
  lo_ltv :: "f64 option"
  lo_percent_owned :: "f64 option"
  lo_priority :: "int option"
  lo_loan_type :: "int option"
  lo_interest_rate :: "f64 option"
  lo_note_rate :: "f64 option"
  lo_original_balance :: "f64 option"
  lo_loan_balance :: "f64 option"
  lo_principal_balance :: "f64 option"
  lo_regular_payment :: "f64 option"
  lo_payment_frequency :: "string option"
  lo_maturity_date :: "string option"
  lo_next_payment_date :: "string option"
  lo_interest_paid_to :: "string option"
  lo_billed_through :: "string option"
  lo_term_left :: "int option"
  lo_is_delinquent :: bool
  lo_is_active :: bool
  lo_raw_summary :: "string option"
  lo_raw_detail :: "string option"
  lo_summary_imported_at :: "string option"
  lo_detail_imported_at :: "string option"
  lo_updated_at :: string

record payment_row =
  py_id :: int
  py_connection_id :: int
  py_external_id :: string
  py_loan_account :: string
  py_borrower_name :: string
  py_property_name :: string
  py_check_number :: "string option"
  py_check_date :: string
  py_amount :: f64
  py_service_fee :: f64
  py_interest :: f64
  py_principal :: f64
  py_charges :: f64
  py_late_charges :: f64
  py_other :: f64
  py_processing_state :: string
  py_event_source_id :: "string option"
  py_raw_payload :: "string option"
  py_updated_at :: string

record tmo_account_row =
  ta_company_id :: string
  ta_account_number :: string
  ta_source_rec_id :: "string option"
  ta_display_name :: "string option"
  ta_email :: "string option"
  ta_last_login_at :: "string option"
  ta_updated_at :: string

record setting_row =
  se_key :: string
  se_value :: string
  se_updated_at :: string

record credential_row =
  cr_connection_id :: int
  cr_company_id :: string
  cr_account_number :: string
  cr_pin_ciphertext :: string
  cr_pin_nonce :: string
  cr_key_version :: int

record app_db =
  ap_fin :: fin_db
  ap_ops :: op_db
  ap_settings :: "setting_row list"
  ap_tmo_account :: "tmo_account_row option"
  ap_overviews :: "overview_row list"
  ap_snapshots :: "snapshot_row list"
  ap_loans :: "loan_row list"
  ap_payments :: "payment_row list"
  ap_payment_seq :: int
  ap_links :: "(int \<times> int) list"
  ap_credentials :: "credential_row list"

subsection \<open>Constraints\<close>

definition real_check :: "f64 \<Rightarrow> bool" where
  "real_check x \<longleftrightarrow> f64_lt (f64_abs x) f64_1e308"

definition overview_check :: "ext \<Rightarrow> (string \<Rightarrow> bool) \<Rightarrow> int set \<Rightarrow> overview_row \<Rightarrow> bool" where
  "overview_check X T connection_ids r \<longleftrightarrow> ow_connection_id r \<in> connection_ids \<and> date_glob (ow_snapshot_date r) \<and>
     list_all (opt_all real_check) [ow_portfolio_value r, ow_portfolio_yield r, ow_ytd_interest r, ow_ytd_principal r,
       ow_trust_balance r, ow_outstanding_checks r, ow_service_fees r] \<and>
     opt_all (sqlite_json X) (ow_raw_payload r) \<and> utc_check T (ow_updated_at r)"

definition snapshot_check :: "(string \<Rightarrow> bool) \<Rightarrow> snapshot_row \<Rightarrow> bool" where
  "snapshot_check T r \<longleftrightarrow> date_glob (sn_snapshot_date r) \<and>
     list_all (opt_all real_check) [sn_portfolio_value r, sn_portfolio_yield r, sn_ytd_interest r, sn_ytd_principal r,
       sn_trust_balance r, sn_outstanding_checks r, sn_service_fees r] \<and> utc_check T (sn_synced_at r)"

definition loan_check :: "ext \<Rightarrow> (string \<Rightarrow> bool) \<Rightarrow> int set \<Rightarrow> int set \<Rightarrow> loan_row \<Rightarrow> bool" where
  "loan_check X T connection_ids stream_ids r \<longleftrightarrow> lo_connection_id r \<in> connection_ids \<and>
     opt_all (\<lambda>s. s \<in> stream_ids) (lo_stream_id r) \<and>
     list_all (opt_all date_glob) [lo_maturity_date r, lo_next_payment_date r, lo_interest_paid_to r, lo_billed_through r] \<and>
     list_all (opt_all (sqlite_json X)) [lo_raw_summary r, lo_raw_detail r] \<and>
     list_all (opt_all (utc_check T)) [lo_summary_imported_at r, lo_detail_imported_at r] \<and> utc_check T (lo_updated_at r) \<and>
     list_all (opt_all real_check) [lo_appraised_value r, lo_ltv r, lo_percent_owned r, lo_interest_rate r, lo_note_rate r,
       lo_original_balance r, lo_loan_balance r, lo_principal_balance r, lo_regular_payment r]"

definition payment_check :: "ext \<Rightarrow> (string \<Rightarrow> bool) \<Rightarrow> int set \<Rightarrow> payment_row \<Rightarrow> bool" where
  "payment_check X T connection_ids r \<longleftrightarrow> py_connection_id r \<in> connection_ids \<and> date_glob (py_check_date r) \<and>
     opt_all (sqlite_json X) (py_raw_payload r) \<and> utc_check T (py_updated_at r) \<and>
     list_all real_check [py_amount r, py_service_fee r, py_interest r, py_principal r, py_charges r, py_late_charges r,
       py_other r]"

definition links_check :: "(int \<times> int) list \<Rightarrow> int set \<Rightarrow> int set \<Rightarrow> bool" where
  "links_check links payment_ids event_ids \<longleftrightarrow> distinct (map fst links) \<and>
     list_all (\<lambda>(p, e). p \<in> payment_ids \<and> e \<in> event_ids) links"

definition app_valid :: "ext \<Rightarrow> (string \<Rightarrow> bool) \<Rightarrow> app_db \<Rightarrow> bool" where
  "app_valid X T db \<longleftrightarrow>
     (let connection_ids = set (map cn_id (op_connections (ap_ops db))); stream_ids = set (map st_id (streams (ap_fin db)))
      in db_valid X (ap_fin db) \<and> op_valid T (ap_ops db) \<and>
         list_all (\<lambda>s. se_key s \<noteq> [] \<and> utc_check T (se_updated_at s)) (ap_settings db) \<and> distinct (map se_key (ap_settings db)) \<and>
         opt_all (\<lambda>a. opt_all (utc_check T) (ta_last_login_at a) \<and> utc_check T (ta_updated_at a)) (ap_tmo_account db) \<and>
         list_all (overview_check X T connection_ids) (ap_overviews db) \<and>
         distinct (map (\<lambda>r. (ow_connection_id r, ow_snapshot_date r)) (ap_overviews db)) \<and>
         list_all (snapshot_check T) (ap_snapshots db) \<and> distinct (map sn_snapshot_date (ap_snapshots db)) \<and>
         list_all (loan_check X T connection_ids stream_ids) (ap_loans db) \<and>
         distinct (map (\<lambda>r. (lo_connection_id r, lo_account r)) (ap_loans db)) \<and>
         list_all (payment_check X T connection_ids) (ap_payments db) \<and>
         distinct (map (\<lambda>r. (py_connection_id r, py_external_id r)) (ap_payments db)) \<and>
         links_check (ap_links db) (set (map py_id (ap_payments db))) (set (map ev_id (events (ap_fin db)))) \<and>
         list_all (\<lambda>r. cr_connection_id r \<in> connection_ids \<and> 0 < cr_key_version r) (ap_credentials db) \<and>
         distinct (map cr_connection_id (ap_credentials db)))"

text \<open>Ids come from their sequences.\<close>

definition app_ids :: "app_db \<Rightarrow> bool" where
  "app_ids db \<longleftrightarrow> db_ids (ap_fin db) \<and> ids_ok py_id (ap_payments db) (ap_payment_seq db)"

subsection \<open>Parts of the state\<close>

definition zoom :: "('s \<Rightarrow> 'a) \<Rightarrow> ('a \<Rightarrow> 's \<Rightarrow> 's) \<Rightarrow> ('a, 'e, 'r) op \<Rightarrow> ('s, 'e, 'r) op" where
  "zoom get put m = (\<lambda>s. case m (get s) of (r, t) \<Rightarrow> (r, put t s))"

lemma zoom_Inr: "zoom get put m s = (Inr b, s') \<longleftrightarrow> (\<exists>t. m (get s) = (Inr b, t) \<and> s' = put t s)"
  by (auto simp: zoom_def split: prod.splits)

locale component =
  fixes get :: "'s \<Rightarrow> 'a" and put :: "'a \<Rightarrow> 's \<Rightarrow> 's"
  assumes get_put: "get (put a s) = a"
    and put_get: "put (get s) s = s"
    and put_put: "put b (put a s) = put b s"
begin

lemma zoom_ok: "zoom get put (ok a) = ok a"
  by (rule ext) (simp add: zoom_def ok_def put_get)

lemma zoom_raise: "zoom get put (raise e) = raise e"
  by (rule ext) (simp add: zoom_def raise_def put_get)

lemma zoom_bnd: "zoom get put (bnd m f) = bnd (zoom get put m) (\<lambda>a. zoom get put (f a))"
  by (rule ext) (auto simp: zoom_def bnd_def get_put put_put split: prod.splits sum.splits)

lemma zoom_transaction: "zoom get put (transaction m) = transaction (zoom get put m)"
  by (rule ext) (auto simp: zoom_def transaction_def put_get split: prod.splits sum.splits)

lemma zoom_reads: "reads m \<Longrightarrow> reads (zoom get put m)"
  by (auto simp: reads_def zoom_def put_get split: prod.splits) (metis put_get snd_conv)

lemma zoom_keeps:
  assumes "keeps J m" "\<And>s. I s \<longleftrightarrow> J (get s) \<and> K s" "\<And>a s. K (put a s) = K s"
  shows "keeps I (zoom get put m)"
  using assms by (auto simp: keeps_def zoom_def get_put split: prod.splits)

end

definition put_fin :: "fin_db \<Rightarrow> app_db \<Rightarrow> app_db" where
  "put_fin f db = db\<lparr>ap_fin := f\<rparr>"

definition put_ops :: "op_db \<Rightarrow> app_db \<Rightarrow> app_db" where
  "put_ops o' db = db\<lparr>ap_ops := o'\<rparr>"

interpretation fin_part: component ap_fin put_fin
  by unfold_locales (simp_all add: put_fin_def)

interpretation ops_part: component ap_ops put_ops
  by unfold_locales (simp_all add: put_ops_def)

definition on_fin :: "(fin_db, 'e, 'r) op \<Rightarrow> (app_db, 'e, 'r) op" where
  "on_fin m = zoom ap_fin put_fin m"

definition on_ops :: "(op_db, 'e, 'r) op \<Rightarrow> (app_db, 'e, 'r) op" where
  "on_ops m = zoom ap_ops put_ops m"

end
