(* ===== verification/Tmo_Import.thy ===== *)
theory Tmo_Import
  imports App_State
begin

text \<open>
  The import of a provider capture, \<open>src/integrations/tmo_write.rs\<close>: \<open>validate_capture\<close>, \<open>apply_tmo_sync\<close> and
  \<open>replace_payment_projection\<close>, which make the staging tables and the stream events mirror the capture. The
  operations run inside the caller's transaction. \<open>N\<close> holds what third-party code computes: chrono's
  date check and the JSON texts of the captured values.
\<close>

record tmo_ext =
  naive_date :: "string \<Rightarrow> bool"
  json_overview :: "tmo_overview \<Rightarrow> string"
  json_loan :: "tmo_loan \<Rightarrow> string"
  json_detail :: "tmo_detail \<Rightarrow> string"
  json_payment :: "tmo_payment \<Rightarrow> string"

record tmo_capture =
  ca_connection_id :: int
  ca_captured_at :: string
  ca_snapshot_date :: string
  ca_company_id :: string
  ca_account_number :: string
  ca_user :: tmo_user
  ca_overview :: tmo_overview
  ca_loans :: "tmo_loan list"
  ca_details :: "tmo_detail list"
  ca_detail_failures :: int
  ca_payments :: "tmo_payment list"

record tmo_persistence =
  pe_events_upserted :: int
  pe_loans_upserted :: int
  pe_snapshots_created :: int

type_synonym 'a app_op = "(app_db, int_error, 'a) op"

subsection \<open>Validation\<close>

definition required_date :: "tmo_ext \<Rightarrow> string \<Rightarrow> string \<Rightarrow> int_error + string" where
  "required_date N label value =
     (let v = trim (case split_on (CHR ''T'') value of [] \<Rightarrow> value | s # _ \<Rightarrow> s)
      in if naive_date N v then Inr v else Inl (IntValidation (label @ '' is not a valid ISO date'')))"

definition optional_date :: "tmo_ext \<Rightarrow> string \<Rightarrow> string option \<Rightarrow> int_error + string option" where
  "optional_date N label value = (case value of None \<Rightarrow> Inr None
     | Some v \<Rightarrow> if trim v = [] then Inr None
                 else rbnd (required_date N label (trim v)) (\<lambda>d. Inr (Some d)))"

definition require_finite :: "string \<Rightarrow> f64 list \<Rightarrow> int_error + unit" where
  "require_finite label values =
     (if list_ex (\<lambda>v. \<not> is_finite v) values then Inl (IntValidation (label @ '' contains a non-finite number'')) else Inr ())"

definition require_optional_finite :: "string \<Rightarrow> f64 option list \<Rightarrow> int_error + unit" where
  "require_optional_finite label values =
     (if list_ex (\<lambda>v. case v of None \<Rightarrow> False | Some x \<Rightarrow> \<not> is_finite x) values
      then Inl (IntValidation (label @ '' contains a non-finite number'')) else Inr ())"

text \<open>\<open>amount * 100.0\<close>: the exact product, rounded; and \<open>round() as i64\<close>, which saturates.\<close>

definition f64_times_100 :: "f64 \<Rightarrow> f64" where
  "f64_times_100 x = (case x of NaN \<Rightarrow> NaN | Inf s \<Rightarrow> Inf s | Fin s m \<Rightarrow> f64_round s (100 * m))"

definition i64_bound :: int where
  "i64_bound = 9223372036854775808"

definition round_to_i64 :: "f64 \<Rightarrow> int" where
  "round_to_i64 x = (case x of NaN \<Rightarrow> 0 | Inf s \<Rightarrow> (if s then - i64_bound else i64_bound - 1)
     | Fin s m \<Rightarrow>
         let n = int ((2 * m + 2 ^ 1074) div 2 ^ 1075); v = (if s then - n else n)
         in max (- i64_bound) (min (i64_bound - 1) v))"

definition payment_external_id :: "tmo_payment \<Rightarrow> string \<Rightarrow> int_error + string" where
  "payment_external_id p check_date =
     (let cents = f64_times_100 (tp_amount p)
      in if \<not> is_finite cents \<or> f64_units cents < - i64_bound * 2 ^ 1074 \<or> i64_bound * 2 ^ 1074 < f64_units cents
         then Inl (IntValidation ''TMO payment amount cannot be represented as canonical cents'')
         else Inr (''history:'' @ tp_loan_account p @ '':'' @ check_date @ '':'' @ show_int (round_to_i64 cents)))"

fun check_loans :: "string list \<Rightarrow> tmo_loan list \<Rightarrow> int_error + string list" where
  "check_loans seen [] = Inr seen"
| "check_loans seen (l # ls) =
     (if trim (tl_account l) = [] \<or> tl_account l \<in> set seen
      then Inl (IntValidation ''TMO portfolio contains an empty or duplicate loan account'')
      else rbnd (require_finite ''TMO loan summary'' [tl_percent_owned l, tl_interest_rate l, tl_regular_payment l, tl_balance l])
             (\<lambda>_. check_loans (tl_account l # seen) ls))"

definition check_detail :: "string list \<Rightarrow> tmo_detail \<Rightarrow> int_error + unit" where
  "check_detail seen_accounts d =
     (if tq_account d \<notin> set seen_accounts
      then Inl (IntValidation ''TMO loan detail is absent from the captured portfolio'')
      else rbnd (require_finite ''TMO loan detail'' [tq_original_balance d, tq_principal_balance d, tq_note_rate d, tq_regular_payment d])
             (\<lambda>_. require_optional_finite ''TMO optional loan detail'' [tq_ltv d, tq_appraised_value d]))"

fun check_payments :: "tmo_ext \<Rightarrow> string list \<Rightarrow> tmo_payment list \<Rightarrow> int_error + unit" where
  "check_payments N seen [] = Inr ()"
| "check_payments N seen (p # ps) =
     (if trim (tp_loan_account p) = [] then Inl (IntValidation ''TMO payment loan account is empty'')
      else rbnd (require_finite ''TMO payment'' [tp_amount p, tp_service_fee p, tp_interest p, tp_principal p, tp_charges p,
                  tp_late_charges p, tp_other p]) (\<lambda>_.
           rbnd (required_date N ''TMO payment check date'' (tp_check_date p)) (\<lambda>check_date.
           rbnd (payment_external_id p check_date) (\<lambda>external_id.
             if external_id \<in> set seen
             then Inl (IntValidation ''TMO payment history contains a duplicate canonical payment identity'')
             else check_payments N (external_id # seen) ps))))"

definition validate_tmo_capture :: "tmo_ext \<Rightarrow> tmo_capture \<Rightarrow> int_error + unit" where
  "validate_tmo_capture N c =
     (if ca_connection_id c \<le> 0 \<or> trim (ca_company_id c) = [] \<or> trim (ca_account_number c) = []
      then Inl (IntValidation ''TMO capture identity is invalid'')
      else rbnd (required_date N ''TMO snapshot date'' (ca_snapshot_date c)) (\<lambda>_.
        if to_portfolio_count (ca_overview c) < 0 \<or> nat (to_portfolio_count (ca_overview c)) \<noteq> length (ca_loans c)
        then Inl (IntValidation ''TMO portfolio count does not match the complete loan capture'')
        else let v = ca_overview c in
          rbnd (require_finite ''TMO overview'' [to_portfolio_value v, to_portfolio_yield v, to_ytd_interest v, to_ytd_principal v,
                  to_trust_balance v, to_outstanding_checks v, to_service_fees v]) (\<lambda>_.
          rbnd (check_loans [] (ca_loans c)) (\<lambda>seen_accounts.
          rbnd (rfold (check_detail seen_accounts) (ca_details c)) (\<lambda>_.
            if ca_detail_failures c < 0 \<or> int (length (ca_details c)) + ca_detail_failures c \<noteq> int (length (ca_loans c))
            then Inl (IntValidation ''TMO loan-detail outcome counters do not match the portfolio'')
            else check_payments N [] (ca_payments c))))))"

subsection \<open>Statements\<close>

definition app_write :: "ext \<Rightarrow> (string \<Rightarrow> bool) \<Rightarrow> string \<Rightarrow> (app_db \<Rightarrow> 'a \<times> app_db) \<Rightarrow> 'a app_op" where
  "app_write X T ctx f = sql_write (app_valid X T) (IntStorage ctx) f"

definition require_tmo_connection :: "int \<Rightarrow> unit app_op" where
  "require_tmo_connection connection_id =
     bnd (gets (\<lambda>db. list_ex (\<lambda>c. cn_id c = connection_id \<and> cn_slug c = ''tmo'') (op_connections (ap_ops db)))) (\<lambda>known.
       require known (IntStorage ''TMO integration connection is missing''))"

definition require_trust_deed_stream :: "int app_op" where
  "require_trust_deed_stream =
     bnd (gets (\<lambda>db. first_by (\<lambda>s. (st_type s \<noteq> ''mortgage_portfolio'', st_id s))
            (\<lambda>s. st_is_active s \<and> (st_type s = ''mortgage_portfolio'' \<or> st_kind s = ''tmo_trust'')) (streams (ap_fin db)))) (\<lambda>row.
       case row of None \<Rightarrow> raise (IntConfiguration
             ''Trust Deeds stream is missing; run the explicit application bootstrap'')
       | Some s \<Rightarrow> ok (st_id s))"

definition sync_connection :: "tmo_capture \<Rightarrow> conn_row \<Rightarrow> conn_row" where
  "sync_connection c r =
     (let warning = (if 0 < ca_detail_failures c
            then Some (show_int (ca_detail_failures c) @
              '' TMO loan detail request(s) failed; portfolio summaries were synchronized.'') else None)
      in r\<lparr>cn_status := (if warning = None then ''active'' else ''degraded''), cn_last_error := warning,
            cn_last_synced_at := Some (ca_captured_at c), cn_updated_at := ca_captured_at c\<rparr>)"

definition write_connection :: "ext \<Rightarrow> (string \<Rightarrow> bool) \<Rightarrow> tmo_capture \<Rightarrow> unit app_op" where
  "write_connection X T c = app_write X T ''update TMO connection after sync'' (\<lambda>db. ((),
     db\<lparr>ap_ops := (ap_ops db)\<lparr>op_connections := update_rows
          (\<lambda>r. cn_id r = ca_connection_id c \<and> cn_slug r = ''tmo'') (sync_connection c) (op_connections (ap_ops db))\<rparr>\<rparr>))"

definition write_account :: "ext \<Rightarrow> (string \<Rightarrow> bool) \<Rightarrow> tmo_capture \<Rightarrow> unit app_op" where
  "write_account X T c = app_write X T ''upsert TMO account'' (\<lambda>db. ((), db\<lparr>ap_tmo_account := Some
     \<lparr>ta_company_id = tu_company_id (ca_user c), ta_account_number = tu_account (ca_user c),
      ta_source_rec_id = Some (tu_source_rec_id (ca_user c)), ta_display_name = Some (tu_name (ca_user c)),
      ta_email = Some (tu_email (ca_user c)), ta_last_login_at = Some (ca_captured_at c), ta_updated_at = ca_captured_at c\<rparr>\<rparr>))"

text \<open>\<open>INSERT .. ON CONFLICT(key) DO UPDATE\<close>: the rows with the key are updated, or the new row is appended.\<close>

definition upsert :: "('r \<Rightarrow> bool) \<Rightarrow> ('r \<Rightarrow> 'r) \<Rightarrow> 'r \<Rightarrow> 'r list \<Rightarrow> 'r list" where
  "upsert P f new rs = (if list_ex P rs then update_rows P f rs else rs @ [new])"

definition new_overview :: "tmo_ext \<Rightarrow> tmo_capture \<Rightarrow> overview_row" where
  "new_overview N c = (let v = ca_overview c in
     \<lparr>ow_connection_id = ca_connection_id c, ow_snapshot_date = ca_snapshot_date c,
      ow_portfolio_value = Some (to_portfolio_value v), ow_portfolio_yield = Some (to_portfolio_yield v),
      ow_portfolio_count = Some (to_portfolio_count v), ow_ytd_interest = Some (to_ytd_interest v),
      ow_ytd_principal = Some (to_ytd_principal v), ow_trust_balance = Some (to_trust_balance v),
      ow_outstanding_checks = Some (to_outstanding_checks v), ow_service_fees = Some (to_service_fees v),
      ow_processing_state = ''captured'', ow_raw_payload = Some (json_overview N v), ow_updated_at = ca_captured_at c\<rparr>)"

definition write_overview :: "ext \<Rightarrow> (string \<Rightarrow> bool) \<Rightarrow> tmo_ext \<Rightarrow> tmo_capture \<Rightarrow> unit app_op" where
  "write_overview X T N c = app_write X T ''upsert TMO overview capture'' (\<lambda>db. ((), db\<lparr>ap_overviews :=
     upsert (\<lambda>r. ow_connection_id r = ca_connection_id c \<and> ow_snapshot_date r = ca_snapshot_date c)
       (\<lambda>_. new_overview N c) (new_overview N c) (ap_overviews db)\<rparr>))"

definition new_snapshot :: "tmo_capture \<Rightarrow> snapshot_row" where
  "new_snapshot c = (let v = ca_overview c in
     \<lparr>sn_snapshot_date = ca_snapshot_date c, sn_portfolio_value = Some (to_portfolio_value v),
      sn_portfolio_yield = Some (to_portfolio_yield v), sn_portfolio_count = Some (to_portfolio_count v),
      sn_ytd_interest = Some (to_ytd_interest v), sn_ytd_principal = Some (to_ytd_principal v),
      sn_trust_balance = Some (to_trust_balance v), sn_outstanding_checks = Some (to_outstanding_checks v),
      sn_service_fees = Some (to_service_fees v), sn_synced_at = ca_captured_at c\<rparr>)"

definition write_snapshot :: "ext \<Rightarrow> (string \<Rightarrow> bool) \<Rightarrow> tmo_capture \<Rightarrow> unit app_op" where
  "write_snapshot X T c = app_write X T ''upsert portfolio snapshot'' (\<lambda>db. ((), db\<lparr>ap_snapshots :=
     upsert (\<lambda>r. sn_snapshot_date r = ca_snapshot_date c) (\<lambda>_. new_snapshot c) (new_snapshot c) (ap_snapshots db)\<rparr>))"


subsection \<open>Loans\<close>

definition write_loans :: "ext \<Rightarrow> (string \<Rightarrow> bool) \<Rightarrow> string \<Rightarrow> (loan_row list \<Rightarrow> 'a \<times> loan_row list) \<Rightarrow> 'a app_op" where
  "write_loans X T ctx f = app_write X T ctx (\<lambda>db. let (a, rs) = f (ap_loans db) in (a, db\<lparr>ap_loans := rs\<rparr>))"

definition stage_loan :: "tmo_capture \<Rightarrow> loan_row \<Rightarrow> loan_row" where
  "stage_loan c r = r\<lparr>lo_is_active := False, lo_updated_at := ca_captured_at c\<rparr>"

definition stage_loans :: "ext \<Rightarrow> (string \<Rightarrow> bool) \<Rightarrow> tmo_capture \<Rightarrow> unit app_op" where
  "stage_loans X T c = write_loans X T ''stage existing TMO loans for snapshot replacement'' (\<lambda>rs. ((),
     update_rows (\<lambda>r. lo_connection_id r = ca_connection_id c \<and> lo_is_active r) (stage_loan c) rs))"

definition is_loan :: "tmo_capture \<Rightarrow> string \<Rightarrow> loan_row \<Rightarrow> bool" where
  "is_loan c account r \<longleftrightarrow> lo_connection_id r = ca_connection_id c \<and> lo_account r = account"

definition summary_update :: "tmo_ext \<Rightarrow> tmo_capture \<Rightarrow> int \<Rightarrow> tmo_loan \<Rightarrow> string \<Rightarrow> string \<Rightarrow> string \<Rightarrow> string option \<Rightarrow>
    loan_row \<Rightarrow> loan_row" where
  "summary_update N c stream_id l maturity_date next_payment_date interest_paid_to billed_through r =
     r\<lparr>lo_stream_id := (case lo_stream_id r of None \<Rightarrow> Some stream_id | Some s \<Rightarrow> Some s),
       lo_borrower_name := Some (tl_borrower_name l), lo_address := Some (tl_street l), lo_city := Some (tl_city l),
       lo_state := Some (tl_state l), lo_zip := Some (tl_zip l), lo_percent_owned := Some (tl_percent_owned l),
       lo_interest_rate := Some (tl_interest_rate l), lo_note_rate := Some (tl_interest_rate l),
       lo_maturity_date := Some maturity_date, lo_term_left := Some (tl_term_left l),
       lo_next_payment_date := Some next_payment_date, lo_interest_paid_to := Some interest_paid_to,
       lo_billed_through := billed_through, lo_regular_payment := Some (tl_regular_payment l),
       lo_loan_balance := Some (tl_balance l), lo_principal_balance := Some (tl_balance l),
       lo_is_delinquent := tl_is_delinquent l, lo_is_active := True, lo_raw_summary := Some (json_loan N l),
       lo_summary_imported_at := Some (ca_captured_at c), lo_updated_at := ca_captured_at c\<rparr>"

text \<open>The columns that the \<open>INSERT\<close> does not name are \<open>NULL\<close>.\<close>

definition empty_loan :: "tmo_capture \<Rightarrow> string \<Rightarrow> loan_row" where
  "empty_loan c account =
     \<lparr>lo_connection_id = ca_connection_id c, lo_stream_id = None, lo_account = account, lo_borrower_name = None,
      lo_address = None, lo_city = None, lo_state = None, lo_zip = None, lo_description = None,
      lo_property_type = None, lo_property_priority = None, lo_occupancy = None, lo_appraised_value = None,
      lo_ltv = None, lo_percent_owned = None, lo_priority = None, lo_loan_type = None, lo_interest_rate = None,
      lo_note_rate = None, lo_original_balance = None, lo_loan_balance = None, lo_principal_balance = None,
      lo_regular_payment = None, lo_payment_frequency = None, lo_maturity_date = None, lo_next_payment_date = None,
      lo_interest_paid_to = None, lo_billed_through = None, lo_term_left = None, lo_is_delinquent = False,
      lo_is_active = True, lo_raw_summary = None, lo_raw_detail = None, lo_summary_imported_at = None,
      lo_detail_imported_at = None, lo_updated_at = ca_captured_at c\<rparr>"

definition import_loan :: "ext \<Rightarrow> (string \<Rightarrow> bool) \<Rightarrow> tmo_ext \<Rightarrow> tmo_capture \<Rightarrow> int \<Rightarrow> tmo_loan \<Rightarrow> unit app_op" where
  "import_loan X T N c stream_id l =
     bnd (lift_res (required_date N ''loan maturity date'' (tl_maturity_date l))) (\<lambda>maturity_date.
     bnd (lift_res (required_date N ''loan next-payment date'' (tl_next_payment_date l))) (\<lambda>next_payment_date.
     bnd (lift_res (required_date N ''loan interest-paid-to date'' (tl_interest_paid_to l))) (\<lambda>interest_paid_to.
     bnd (lift_res (optional_date N ''loan billed-through date'' (tl_billed_through l))) (\<lambda>billed_through.
       let f = summary_update N c stream_id l maturity_date next_payment_date interest_paid_to billed_through
       in write_loans X T ''upsert TMO loan summary'' (\<lambda>rs. ((),
            upsert (is_loan c (tl_account l)) f (f (empty_loan c (tl_account l))) rs))))))"

definition detail_update :: "tmo_ext \<Rightarrow> tmo_capture \<Rightarrow> tmo_detail \<Rightarrow> string \<Rightarrow> string \<Rightarrow> string \<Rightarrow> loan_row \<Rightarrow> loan_row" where
  "detail_update N c d maturity_date next_payment_date interest_paid_to r =
     r\<lparr>lo_borrower_name := Some (tq_borrower_name d), lo_address := Some (tq_street d), lo_city := Some (tq_city d),
       lo_state := Some (tq_state d), lo_zip := Some (tq_zip d), lo_description := tq_description d,
       lo_property_type := tq_property_type d, lo_property_priority := tq_property_priority d,
       lo_occupancy := tq_occupancy d, lo_ltv := tq_ltv d, lo_appraised_value := tq_appraised_value d,
       lo_priority := tq_priority d, lo_original_balance := Some (tq_original_balance d),
       lo_principal_balance := Some (tq_principal_balance d), lo_note_rate := Some (tq_note_rate d),
       lo_maturity_date := Some maturity_date, lo_next_payment_date := Some next_payment_date,
       lo_interest_paid_to := Some interest_paid_to, lo_regular_payment := Some (tq_regular_payment d),
       lo_payment_frequency := Some (tq_payment_frequency d), lo_loan_type := Some (tq_loan_type d),
       lo_raw_detail := Some (json_detail N d), lo_detail_imported_at := Some (ca_captured_at c),
       lo_updated_at := ca_captured_at c\<rparr>"

definition import_detail :: "ext \<Rightarrow> (string \<Rightarrow> bool) \<Rightarrow> tmo_ext \<Rightarrow> tmo_capture \<Rightarrow> tmo_detail \<Rightarrow> unit app_op" where
  "import_detail X T N c d =
     bnd (lift_res (required_date N ''loan detail maturity date'' (tq_maturity_date d))) (\<lambda>maturity_date.
     bnd (lift_res (required_date N ''loan detail next-payment date'' (tq_next_payment_date d))) (\<lambda>next_payment_date.
     bnd (lift_res (required_date N ''loan detail interest-paid-to date'' (tq_interest_paid_to d))) (\<lambda>interest_paid_to.
     bnd (write_loans X T ''apply TMO loan detail'' (\<lambda>rs. (count_rows (is_loan c (tq_account d)) rs,
            update_rows (is_loan c (tq_account d)) (detail_update N c d maturity_date next_payment_date interest_paid_to) rs)))
       (\<lambda>changed. require (changed = 1)
          (IntValidation ''TMO loan detail did not match its captured portfolio summary'')))))"

subsection \<open>Payments and their events\<close>

definition is_payment :: "tmo_capture \<Rightarrow> string \<Rightarrow> payment_row \<Rightarrow> bool" where
  "is_payment c external_id r \<longleftrightarrow> py_connection_id r = ca_connection_id c \<and> py_external_id r = external_id"

definition payment_values :: "tmo_ext \<Rightarrow> tmo_capture \<Rightarrow> tmo_payment \<Rightarrow> string \<Rightarrow> string \<Rightarrow> payment_row \<Rightarrow> payment_row" where
  "payment_values N c p check_date external_id r =
     r\<lparr>py_loan_account := tp_loan_account p, py_borrower_name := tp_borrower_name p,
       py_property_name := tp_property_name p, py_check_number := normalize_check_number (tp_check_number p),
       py_check_date := check_date, py_amount := tp_amount p, py_service_fee := tp_service_fee p,
       py_interest := tp_interest p, py_principal := tp_principal p, py_charges := tp_charges p,
       py_late_charges := tp_late_charges p, py_other := tp_other p, py_processing_state := ''normalized'',
       py_event_source_id := Some external_id, py_raw_payload := Some (json_payment N p),
       py_updated_at := ca_captured_at c\<rparr>"

definition new_payment :: "tmo_ext \<Rightarrow> tmo_capture \<Rightarrow> tmo_payment \<Rightarrow> string \<Rightarrow> string \<Rightarrow> int \<Rightarrow> payment_row" where
  "new_payment N c p check_date external_id i =
     \<lparr>py_id = i, py_connection_id = ca_connection_id c, py_external_id = external_id,
      py_loan_account = tp_loan_account p, py_borrower_name = tp_borrower_name p,
      py_property_name = tp_property_name p, py_check_number = normalize_check_number (tp_check_number p),
      py_check_date = check_date, py_amount = tp_amount p, py_service_fee = tp_service_fee p,
      py_interest = tp_interest p, py_principal = tp_principal p, py_charges = tp_charges p,
      py_late_charges = tp_late_charges p, py_other = tp_other p, py_processing_state = ''normalized'',
      py_event_source_id = Some external_id, py_raw_payload = Some (json_payment N p),
      py_updated_at = ca_captured_at c\<rparr>"

definition upsert_payment :: "ext \<Rightarrow> (string \<Rightarrow> bool) \<Rightarrow> tmo_ext \<Rightarrow> tmo_capture \<Rightarrow> tmo_payment \<Rightarrow> string \<Rightarrow> string \<Rightarrow>
    int app_op" where
  "upsert_payment X T N c p check_date external_id = app_write X T ''upsert TMO payment'' (\<lambda>db.
     case find (is_payment c external_id) (ap_payments db) of
       Some r \<Rightarrow> (py_id r, db\<lparr>ap_payments := update_rows (is_payment c external_id)
                    (payment_values N c p check_date external_id) (ap_payments db)\<rparr>)
     | None \<Rightarrow> let i = ap_payment_seq db + 1
               in (i, db\<lparr>ap_payments := ap_payments db @ [new_payment N c p check_date external_id i], ap_payment_seq := i\<rparr>))"

definition is_history :: "int \<Rightarrow> string \<Rightarrow> event_row \<Rightarrow> bool" where
  "is_history stream_id external_id e \<longleftrightarrow>
     ev_stream_id e = stream_id \<and> ev_source_type e = Some ''tmo_history'' \<and> ev_source_id e = Some external_id"

definition event_values :: "tmo_capture \<Rightarrow> tmo_payment \<Rightarrow> string \<Rightarrow> event_row \<Rightarrow> event_row" where
  "event_values c p check_date e =
     (let amount = f64_abs (tp_amount p); is_received = normalize_check_number (tp_check_number p) \<noteq> None
      in e\<lparr>ev_label := Some (tp_borrower_name p @ '' - '' @ tp_property_name p), ev_expected_date := check_date,
           ev_amount := amount, ev_actual_date := (if is_received then Some check_date else None),
           ev_actual_amount := (if is_received then Some amount else None),
           ev_status := (if is_received then ''received'' else ''confirmed''), ev_updated_at := ca_captured_at c\<rparr>)"

definition new_history_event :: "tmo_capture \<Rightarrow> int \<Rightarrow> tmo_payment \<Rightarrow> string \<Rightarrow> string \<Rightarrow> int \<Rightarrow> event_row" where
  "new_history_event c stream_id p check_date external_id i =
     event_values c p check_date
       \<lparr>ev_id = i, ev_stream_id = stream_id, ev_account_id = None, ev_label = None, ev_expected_date = check_date,
        ev_amount = f64_abs (tp_amount p), ev_override_label = None, ev_has_label_override = False,
        ev_override_date = None, ev_override_amount = None, ev_override_account_id = None,
        ev_has_account_override = False, ev_actual_date = None, ev_actual_amount = None, ev_status = ''projected'',
        ev_is_excluded = False, ev_exclusion_reason = None, ev_source_id = Some external_id,
        ev_source_type = Some ''tmo_history'', ev_metadata = None, ev_notes = None, ev_updated_at = ca_captured_at c\<rparr>"

definition upsert_history_event :: "ext \<Rightarrow> (string \<Rightarrow> bool) \<Rightarrow> tmo_capture \<Rightarrow> int \<Rightarrow> tmo_payment \<Rightarrow> string \<Rightarrow> string \<Rightarrow>
    int app_op" where
  "upsert_history_event X T c stream_id p check_date external_id =
     app_write X T ''upsert normalized TMO stream event'' (\<lambda>db. let f = ap_fin db in
       case find (is_history stream_id external_id) (events f) of
         Some e \<Rightarrow> (ev_id e, db\<lparr>ap_fin := f\<lparr>events := update_rows (is_history stream_id external_id)
                      (event_values c p check_date) (events f)\<rparr>\<rparr>)
       | None \<Rightarrow> let i = event_seq f + 1
                 in (i, db\<lparr>ap_fin := f\<lparr>events := events f @ [new_history_event c stream_id p check_date external_id i],
                       event_seq := i\<rparr>\<rparr>))"

definition link_payment :: "ext \<Rightarrow> (string \<Rightarrow> bool) \<Rightarrow> int \<Rightarrow> int \<Rightarrow> unit app_op" where
  "link_payment X T payment_id event_id = app_write X T ''link TMO payment to normalized stream event'' (\<lambda>db. ((),
     db\<lparr>ap_links := upsert (\<lambda>l. fst l = payment_id) (\<lambda>l. (payment_id, event_id)) (payment_id, event_id) (ap_links db)\<rparr>))"

definition import_payment :: "ext \<Rightarrow> (string \<Rightarrow> bool) \<Rightarrow> tmo_ext \<Rightarrow> tmo_capture \<Rightarrow> int \<Rightarrow> tmo_payment \<Rightarrow> unit app_op" where
  "import_payment X T N c stream_id p =
     bnd (lift_res (required_date N ''payment check date'' (tp_check_date p))) (\<lambda>check_date.
     bnd (lift_res (payment_external_id p check_date)) (\<lambda>external_id.
     bnd (upsert_payment X T N c p check_date external_id) (\<lambda>payment_id.
     bnd (upsert_history_event X T c stream_id p check_date external_id) (\<lambda>event_id.
       link_payment X T payment_id event_id))))"

definition stage_payments :: "ext \<Rightarrow> (string \<Rightarrow> bool) \<Rightarrow> tmo_capture \<Rightarrow> unit app_op" where
  "stage_payments X T c = app_write X T ''stage existing TMO payments for snapshot replacement'' (\<lambda>db. ((),
     db\<lparr>ap_payments := update_rows (\<lambda>r. py_connection_id r = ca_connection_id c)
          (\<lambda>r. r\<lparr>py_processing_state := ''stale''\<rparr>) (ap_payments db)\<rparr>))"

text \<open>\<open>DELETE FROM stream_event\<close>: the links of the deleted events go with them (\<open>ON DELETE CASCADE\<close>).\<close>

definition delete_app_events :: "ext \<Rightarrow> (string \<Rightarrow> bool) \<Rightarrow> string \<Rightarrow> (app_db \<Rightarrow> event_row \<Rightarrow> bool) \<Rightarrow> unit app_op" where
  "delete_app_events X T ctx P = app_write X T ctx (\<lambda>db.
     let kept = filter (\<lambda>e. \<not> P db e) (events (ap_fin db))
     in ((), db\<lparr>ap_fin := (ap_fin db)\<lparr>events := kept\<rparr>,
              ap_links := filter (\<lambda>l. snd l \<in> set (map ev_id kept)) (ap_links db)\<rparr>))"

definition is_stale :: "tmo_capture \<Rightarrow> payment_row \<Rightarrow> bool" where
  "is_stale c r \<longleftrightarrow> py_connection_id r = ca_connection_id c \<and> py_processing_state r = ''stale''"

definition linked_where :: "(payment_row \<Rightarrow> bool) \<Rightarrow> app_db \<Rightarrow> event_row \<Rightarrow> bool" where
  "linked_where P db e \<longleftrightarrow> list_ex (\<lambda>l. snd l = ev_id e \<and> list_ex (\<lambda>r. py_id r = fst l \<and> P r) (ap_payments db)) (ap_links db)"

definition delete_stale_payments :: "ext \<Rightarrow> (string \<Rightarrow> bool) \<Rightarrow> tmo_capture \<Rightarrow> unit app_op" where
  "delete_stale_payments X T c = app_write X T ''remove payments absent from TMO snapshot'' (\<lambda>db.
     let kept = filter (\<lambda>r. \<not> is_stale c r) (ap_payments db)
     in ((), db\<lparr>ap_payments := kept, ap_links := filter (\<lambda>l. fst l \<in> set (map py_id kept)) (ap_links db)\<rparr>))"

definition is_legacy_schedule :: "event_row \<Rightarrow> bool" where
  "is_legacy_schedule e \<longleftrightarrow> ev_status e = ''projected'' \<and> ev_source_type e = Some ''schedule''"

text \<open>What the capture no longer holds is deleted: events of stale payments, these payments, history events without
  a payment, and the projections of an older version.\<close>

definition prune_projection :: "ext \<Rightarrow> (string \<Rightarrow> bool) \<Rightarrow> tmo_capture \<Rightarrow> int \<Rightarrow> unit app_op" where
  "prune_projection X T c stream_id =
     thn (delete_app_events X T ''remove stream events for payments absent from TMO snapshot'' (linked_where (is_stale c)))
    (thn (delete_stale_payments X T c)
    (thn (delete_app_events X T ''remove orphaned TMO history events'' (\<lambda>db e.
            ev_stream_id e = stream_id \<and> ev_source_type e = Some ''tmo_history'' \<and>
            \<not> linked_where (\<lambda>r. py_connection_id r = ca_connection_id c) db e))
         (delete_app_events X T ''remove legacy TMO schedule projections'' (\<lambda>_. is_legacy_schedule))))"

definition replace_payment_projection :: "ext \<Rightarrow> (string \<Rightarrow> bool) \<Rightarrow> tmo_ext \<Rightarrow> tmo_capture \<Rightarrow> int \<Rightarrow> unit app_op" where
  "replace_payment_projection X T N c stream_id =
     thn (stage_payments X T c)
    (thn (for_each (import_payment X T N c stream_id) (ca_payments c))
         (prune_projection X T c stream_id))"

subsection \<open>The import\<close>

definition apply_tmo_sync :: "ext \<Rightarrow> (string \<Rightarrow> bool) \<Rightarrow> tmo_ext \<Rightarrow> tmo_capture \<Rightarrow> tmo_persistence app_op" where
  "apply_tmo_sync X T N c =
     thn (lift_res (validate_tmo_capture N c))
    (thn (require_tmo_connection (ca_connection_id c))
    (bnd require_trust_deed_stream (\<lambda>stream_id.
     thn (write_connection X T c)
    (thn (write_account X T c)
    (thn (write_overview X T N c)
    (thn (write_snapshot X T c)
    (thn (stage_loans X T c)
    (thn (for_each (import_loan X T N c stream_id) (ca_loans c))
    (thn (for_each (import_detail X T N c) (ca_details c))
    (thn (replace_payment_projection X T N c stream_id)
         (ok \<lparr>pe_events_upserted = int (length (ca_payments c)), pe_loans_upserted = int (length (ca_loans c)),
              pe_snapshots_created = 1\<rparr>)))))))))))"

definition upsert_setting :: "ext \<Rightarrow> (string \<Rightarrow> bool) \<Rightarrow> string \<Rightarrow> string \<Rightarrow> string \<Rightarrow> unit app_op" where
  "upsert_setting X T key v updated_at =
     thn (require (trim key \<noteq> []) (IntValidation ''setting key cannot be empty''))
         (app_write X T ''upsert integration setting'' (\<lambda>db. ((), db\<lparr>ap_settings :=
            upsert (\<lambda>s. se_key s = trim key) (\<lambda>s. s\<lparr>se_value := v, se_updated_at := updated_at\<rparr>)
              \<lparr>se_key = trim key, se_value = v, se_updated_at = updated_at\<rparr> (ap_settings db)\<rparr>)))"

end
