(* ===== verification/Tmo_Mirror.thy ===== *)
theory Tmo_Mirror
  imports Tmo_Import
begin

text \<open>
  What a successful import leaves behind: the payments and the \<open>tmo_history\<close> events of the trust stream are
  exactly those of the capture, linked to each other; the active loans are exactly the captured ones; nothing
  else of the ledger changes. The loop over the payments is described by \<open>imported\<close>, which composes.
\<close>

subsection \<open>Specification\<close>

definition payment_identity :: "tmo_ext \<Rightarrow> tmo_payment \<Rightarrow> (string \<times> string) option" where
  "payment_identity N p = (case required_date N [] (tp_check_date p) of Inl _ \<Rightarrow> None
     | Inr d \<Rightarrow> (case payment_external_id p d of Inl _ \<Rightarrow> None | Inr x \<Rightarrow> Some (d, x)))"

definition recorded :: "tmo_capture \<Rightarrow> tmo_payment \<Rightarrow> string \<Rightarrow> string \<Rightarrow> payment_row \<Rightarrow> bool" where
  "recorded c p d x r \<longleftrightarrow> is_payment c x r \<and> py_processing_state r = ''normalized'' \<and> py_check_date r = d \<and>
     py_loan_account r = tp_loan_account p \<and> py_check_number r = normalize_check_number (tp_check_number p) \<and>
     [py_amount r, py_service_fee r, py_interest r, py_principal r, py_charges r, py_late_charges r, py_other r] =
     [tp_amount p, tp_service_fee p, tp_interest p, tp_principal p, tp_charges p, tp_late_charges p, tp_other p]"

definition mirrors :: "int \<Rightarrow> tmo_payment \<Rightarrow> string \<Rightarrow> string \<Rightarrow> event_row \<Rightarrow> bool" where
  "mirrors s p d x e \<longleftrightarrow> is_history s x e \<and> ev_expected_date e = d \<and> ev_amount e = f64_abs (tp_amount p) \<and>
     (case normalize_check_number (tp_check_number p) of
        None \<Rightarrow> ev_status e = ''confirmed'' \<and> ev_actual_date e = None \<and> ev_actual_amount e = None
      | Some _ \<Rightarrow> ev_status e = ''received'' \<and> ev_actual_date e = Some d \<and> ev_actual_amount e = Some (f64_abs (tp_amount p)))"

definition mirrored :: "tmo_ext \<Rightarrow> tmo_capture \<Rightarrow> int \<Rightarrow> app_db \<Rightarrow> tmo_payment \<Rightarrow> bool" where
  "mirrored N c s db p \<longleftrightarrow> (\<exists>d x r e. payment_identity N p = Some (d, x) \<and> r \<in> set (ap_payments db) \<and>
     e \<in> set (events (ap_fin db)) \<and> recorded c p d x r \<and> mirrors s p d x e \<and> (py_id r, ev_id e) \<in> set (ap_links db))"

text \<open>A link joins a payment to the history event with its identity.\<close>

definition links_match :: "app_db \<Rightarrow> bool" where
  "links_match db \<longleftrightarrow> (\<forall>(i, k) \<in> set (ap_links db). \<forall>r \<in> set (ap_payments db). \<forall>e \<in> set (events (ap_fin db)).
     py_id r = i \<longrightarrow> ev_id e = k \<longrightarrow> ev_source_type e = Some ''tmo_history'' \<and> ev_source_id e = Some (py_external_id r))"

definition fin_rest :: "fin_db \<Rightarrow> fin_db" where
  "fin_rest f = f\<lparr>events := [], event_seq := 0\<rparr>"

definition ap_rest :: "app_db \<Rightarrow> app_db" where
  "ap_rest db = db\<lparr>ap_fin := fin_rest (ap_fin db), ap_payments := [], ap_payment_seq := 0, ap_links := []\<rparr>"

lemmas rest_defs = ap_rest_def fin_rest_def

subsection \<open>Keys\<close>

lemma set_update_keyed:
  assumes "\<And>a b. a \<in> set rs \<Longrightarrow> b \<in> set rs \<Longrightarrow> P a \<Longrightarrow> P b \<Longrightarrow> a = b" "r \<in> set rs" "P r"
  shows "set (update_rows P f rs) = insert (f r) {q \<in> set rs. \<not> P q}"
proof -
  have "P q \<longleftrightarrow> q = r" if "q \<in> set rs" for q using that assms by blast
  then show ?thesis unfolding set_update_rows using assms(2,3) by force
qed

lemma set_upsert_const: "set (upsert P (\<lambda>_. new) new rs) = insert new {q \<in> set rs. \<not> P q}"
proof (cases "list_ex P rs")
  case True
  then show ?thesis by (auto simp: upsert_def set_update_rows list_ex_iff)
next
  case False
  then show ?thesis by (auto simp: upsert_def list_ex_iff)
qed

lemma payment_unique:
  assumes "app_valid X T db" "q \<in> set (ap_payments db)" "r \<in> set (ap_payments db)" "is_payment c x q" "is_payment c x r"
  shows "q = r"
proof -
  have "distinct (map (\<lambda>r. (py_connection_id r, py_external_id r)) (ap_payments db))"
    using assms(1) by (simp add: app_valid_def Let_def)
  from distinct_key_eq [OF this assms(2,3)] show ?thesis using assms(4,5) by (simp add: is_payment_def)
qed

lemma map_filter_unique:
  "distinct (List.map_filter k xs) \<Longrightarrow> a \<in> set xs \<Longrightarrow> b \<in> set xs \<Longrightarrow> k a = Some v \<Longrightarrow> k b = Some v \<Longrightarrow> a = b"
proof (induction xs)
  case (Cons z zs)
  have mem: "v \<in> set (List.map_filter k ys)" if "y \<in> set ys" "k y = Some v" for y ys
    using that by (induction ys) (auto simp: map_filter_simps split: option.splits)
  from Cons mem [of _ zs] show ?case by (auto simp: map_filter_simps split: option.splits)
qed simp

lemma history_unique:
  assumes "app_valid X T db" "q \<in> set (events (ap_fin db))" "e \<in> set (events (ap_fin db))" "is_history s x q" "is_history s x e"
  shows "q = e"
proof -
  have "distinct (List.map_filter event_key (events (ap_fin db)))"
    using assms(1) by (simp add: app_valid_def db_valid_def events_unique_def Let_def)
  from map_filter_unique [OF this assms(2,3)] show ?thesis using assms(4,5) by (simp add: is_history_def event_key_def)
qed

lemma ids_okD: "ids_ok key rs seq \<Longrightarrow> a \<in> set rs \<Longrightarrow> b \<in> set rs \<Longrightarrow> key a = key b \<Longrightarrow> a = b"
  unfolding ids_ok_def by (blast intro: distinct_key_eq)

lemma app_write_Inr: "app_write X T ctx f db = (Inr a, db') \<longleftrightarrow> f db = (a, db') \<and> app_valid X T db'"
  by (simp add: app_write_def sql_write_Inr)

lemma links_checkD:
  assumes "app_valid X T db" "(i, k) \<in> set (ap_links db)"
  shows "i \<in> py_id ` set (ap_payments db)" "k \<in> ev_id ` set (events (ap_fin db))"
  using assms by (auto simp: app_valid_def links_check_def list_all_iff Let_def)

subsection \<open>One payment\<close>

lemma upsert_payment_step:
  assumes "upsert_payment X T N c p d x db = (Inr i, db')" "app_valid X T db" "app_ids db"
  obtains r where "py_id r = i" "recorded c p d x r"
    "set (ap_payments db') = insert r {q \<in> set (ap_payments db). \<not> is_payment c x q}"
    "app_valid X T db'" "app_ids db'" "ap_fin db' = ap_fin db" "ap_links db' = ap_links db" "ap_rest db' = ap_rest db"
proof (cases "find (is_payment c x) (ap_payments db)")
  case None
  then have no: "\<forall>q \<in> set (ap_payments db). \<not> is_payment c x q" by (simp add: find_None_iff)
  have i: "i = ap_payment_seq db + 1"
    using assms(1) None by (simp add: upsert_payment_def app_write_Inr Let_def)
  have db': "db' = db\<lparr>ap_payments := ap_payments db @ [new_payment N c p d x i], ap_payment_seq := i\<rparr>" and v: "app_valid X T db'"
    using assms(1) None unfolding i by (auto simp: upsert_payment_def app_write_Inr Let_def)
  have "app_ids db'" using assms(3) ids_ok_snoc [of py_id "ap_payments db" "ap_payment_seq db" "new_payment N c p d x i"]
    by (simp add: db' i app_ids_def new_payment_def)
  with no v db' show ?thesis
    by (intro that [of "new_payment N c p d x i"]) (auto simp: new_payment_def recorded_def is_payment_def rest_defs)
next
  case (Some r0)
  note r0 = find_set [OF this]
  have db': "db' = db\<lparr>ap_payments := update_rows (is_payment c x) (payment_values N c p d x) (ap_payments db)\<rparr>"
    and i: "i = py_id r0" and v: "app_valid X T db'"
    using assms(1) Some by (simp_all add: upsert_payment_def app_write_Inr)
  have "set (ap_payments db') = insert (payment_values N c p d x r0) {q \<in> set (ap_payments db). \<not> is_payment c x q}"
    unfolding db' using r0 by (simp add: set_update_keyed [of _ "is_payment c x" r0] payment_unique [OF assms(2)])
  with r0 v i assms(3) db' show ?thesis
    by (intro that [of "payment_values N c p d x r0"])
      (auto simp: payment_values_def recorded_def is_payment_def app_ids_def rest_defs intro: ids_ok_update)
qed

lemma upsert_history_step:
  assumes "upsert_history_event X T c s p d x db = (Inr k, db')" "app_valid X T db" "app_ids db"
  obtains e where "ev_id e = k" "mirrors s p d x e"
    "set (events (ap_fin db')) = insert e {q \<in> set (events (ap_fin db)). \<not> is_history s x q}"
    "(\<exists>q \<in> set (events (ap_fin db)). is_history s x q \<and> ev_id q = k) \<or> k \<notin> ev_id ` set (events (ap_fin db))"
    "app_valid X T db'" "app_ids db'" "ap_payments db' = ap_payments db" "ap_links db' = ap_links db" "ap_rest db' = ap_rest db"
proof (cases "find (is_history s x) (events (ap_fin db))")
  case None
  then have no: "\<forall>q \<in> set (events (ap_fin db)). \<not> is_history s x q" by (simp add: find_None_iff)
  have k: "k = event_seq (ap_fin db) + 1"
    using assms(1) None by (simp add: upsert_history_event_def app_write_Inr Let_def)
  have db': "db' = db\<lparr>ap_fin := (ap_fin db)\<lparr>events := events (ap_fin db) @ [new_history_event c s p d x k], event_seq := k\<rparr>\<rparr>"
    and v: "app_valid X T db'"
    using assms(1) None unfolding k by (auto simp: upsert_history_event_def app_write_Inr Let_def)
  have fresh: "k \<notin> ev_id ` set (events (ap_fin db))"
    using assms(3) by (force simp: app_ids_def db_ids_def ids_ok_def k)
  have "app_ids db'" using assms(3) ids_ok_snoc [of ev_id "events (ap_fin db)" "event_seq (ap_fin db)" "new_history_event c s p d x k"]
    by (simp add: db' k app_ids_def db_ids_def new_history_event_def event_values_def Let_def)
  with no v fresh db' show ?thesis
    by (intro that [of "new_history_event c s p d x k"])
      (auto simp: new_history_event_def event_values_def mirrors_def is_history_def rest_defs Let_def split: option.splits)
next
  case (Some e0)
  note e0 = find_set [OF this]
  have db': "db' = db\<lparr>ap_fin := (ap_fin db)\<lparr>events := update_rows (is_history s x) (event_values c p d) (events (ap_fin db))\<rparr>\<rparr>"
    and k: "k = ev_id e0" and v: "app_valid X T db'"
    using assms(1) Some by (simp_all add: upsert_history_event_def app_write_Inr Let_def)
  have ids: "app_ids db'" using assms(3) ids_ok_update [of ev_id "events (ap_fin db)" "event_seq (ap_fin db)" "event_values c p d" "is_history s x"]
    by (simp add: db' app_ids_def db_ids_def event_values_def Let_def)
  have "set (events (ap_fin db')) = insert (event_values c p d e0) {q \<in> set (events (ap_fin db)). \<not> is_history s x q}"
    unfolding db' using e0 by (simp add: set_update_keyed [of _ "is_history s x" e0] history_unique [OF assms(2)])
  with e0 v k ids db' show ?thesis
    by (intro that [of "event_values c p d e0"])
      (auto simp: event_values_def mirrors_def is_history_def rest_defs Let_def split: option.splits)
qed


lemma link_payment_step:
  assumes "link_payment X T i k db = (Inr (), db')"
  shows "set (ap_links db') = insert (i, k) {l \<in> set (ap_links db). fst l \<noteq> i}" "app_valid X T db'"
    "ap_fin db' = ap_fin db" "ap_payments db' = ap_payments db" "ap_payment_seq db' = ap_payment_seq db" "ap_rest db' = ap_rest db"
  using assms by (auto simp: link_payment_def app_write_Inr set_upsert_const rest_defs)

definition imported :: "int \<Rightarrow> tmo_capture \<Rightarrow> string set \<Rightarrow> app_db \<Rightarrow> app_db \<Rightarrow> bool" where
  "imported s c ids db db' \<longleftrightarrow> ap_rest db' = ap_rest db \<and>
     (\<forall>r. (\<forall>x \<in> ids. \<not> is_payment c x r) \<longrightarrow> r \<in> set (ap_payments db') \<longleftrightarrow> r \<in> set (ap_payments db)) \<and>
     (\<forall>e. (\<forall>x \<in> ids. \<not> is_history s x e) \<longrightarrow> e \<in> set (events (ap_fin db')) \<longleftrightarrow> e \<in> set (events (ap_fin db))) \<and>
     (\<forall>r \<in> set (ap_payments db'). (\<forall>x \<in> ids. \<not> is_payment c x r) \<longrightarrow>
        (\<forall>k. (py_id r, k) \<in> set (ap_links db') \<longleftrightarrow> (py_id r, k) \<in> set (ap_links db))) \<and>
     (links_match db \<longrightarrow> links_match db')"

lemma imported_refl: "imported s c {} db db"
  by (simp add: imported_def)

lemma imported_trans:
  assumes "imported s c A db db1" "imported s c B db1 db2"
  shows "imported s c (A \<union> B) db db2"
proof -
  have none: "(\<forall>x \<in> A \<union> B. P x) \<longleftrightarrow> (\<forall>x \<in> A. P x) \<and> (\<forall>x \<in> B. P x)" for P by blast
  have "(py_id r, k) \<in> set (ap_links db2) \<longleftrightarrow> (py_id r, k) \<in> set (ap_links db)"
    if "r \<in> set (ap_payments db2)" "\<forall>x \<in> A. \<not> is_payment c x r" "\<forall>x \<in> B. \<not> is_payment c x r" for r k
  proof -
    have "r \<in> set (ap_payments db1)" using assms(2) that by (simp add: imported_def)
    with assms that show ?thesis by (simp add: imported_def)
  qed
  moreover have "ap_rest db2 = ap_rest db" using assms by (simp add: imported_def)
  ultimately show ?thesis using assms unfolding imported_def none by (intro conjI) blast+
qed

lemma mirrored_kept:
  assumes "mirrored N c s db p" "payment_identity N p = Some (d, x)" "x \<notin> B" "imported s c B db db'"
  shows "mirrored N c s db' p"
proof -
  obtain r e where r: "r \<in> set (ap_payments db)" "recorded c p d x r" and e: "e \<in> set (events (ap_fin db))" "mirrors s p d x e"
    and l: "(py_id r, ev_id e) \<in> set (ap_links db)"
    using assms(1,2) by (auto simp: mirrored_def)
  have nr: "\<forall>y \<in> B. \<not> is_payment c y r" and ne: "\<forall>y \<in> B. \<not> is_history s y e"
    using r(2) e(2) assms(3) by (auto simp: recorded_def mirrors_def is_payment_def is_history_def)
  have r': "r \<in> set (ap_payments db')" and e': "e \<in> set (events (ap_fin db'))"
    using assms(4) nr ne r(1) e(1) by (simp_all add: imported_def)
  with assms(4) nr l have "(py_id r, ev_id e) \<in> set (ap_links db')" by (simp add: imported_def)
  with r' e' r(2) e(2) assms(2) show ?thesis by (auto simp: mirrored_def)
qed

lemma required_date_Inr: "required_date N l v = Inr d \<longleftrightarrow> required_date N [] v = Inr d"
  by (simp add: required_date_def Let_def)

lemma import_payment_step:
  assumes "import_payment X T N c s p db = (Inr (), db')" "app_valid X T db" "app_ids db"
  obtains d x where "payment_identity N p = Some (d, x)" "imported s c {x} db db'" "mirrored N c s db' p"
    "app_valid X T db'" "app_ids db'"
proof -
  obtain d x i k db1 db2 where id: "required_date N [] (tp_check_date p) = Inr d" "payment_external_id p d = Inr x"
    and s1: "upsert_payment X T N c p d x db = (Inr i, db1)" and s2: "upsert_history_event X T c s p d x db1 = (Inr k, db2)"
    and s3: "link_payment X T i k db2 = (Inr (), db')"
    using assms(1) unfolding import_payment_def op_Inr required_date_Inr [of N "''payment check date''"] by blast
  obtain r where r: "py_id r = i" "recorded c p d x r"
    "set (ap_payments db1) = insert r {q \<in> set (ap_payments db). \<not> is_payment c x q}"
    and v1: "app_valid X T db1" "app_ids db1" and f1: "ap_fin db1 = ap_fin db" "ap_links db1 = ap_links db" "ap_rest db1 = ap_rest db"
    by (rule upsert_payment_step [OF s1 assms(2,3)])
  obtain e where e: "ev_id e = k" "mirrors s p d x e"
    "set (events (ap_fin db2)) = insert e {q \<in> set (events (ap_fin db1)). \<not> is_history s x q}"
    and old: "(\<exists>q \<in> set (events (ap_fin db1)). is_history s x q \<and> ev_id q = k) \<or> k \<notin> ev_id ` set (events (ap_fin db1))"
    and v2: "app_valid X T db2" "app_ids db2"
    and f2: "ap_payments db2 = ap_payments db1" "ap_links db2 = ap_links db1" "ap_rest db2 = ap_rest db1"
    by (rule upsert_history_step [OF s2 v1])
  note s3' = link_payment_step [OF s3]
  have pays: "set (ap_payments db') = insert r {q \<in> set (ap_payments db). \<not> is_payment c x q}" using r(3) f2 s3' by simp
  have evs: "set (events (ap_fin db')) = insert e {q \<in> set (events (ap_fin db)). \<not> is_history s x q}" using e(3) f1 s3' by simp
  have links: "set (ap_links db') = insert (i, k) {l \<in> set (ap_links db). fst l \<noteq> i}" using s3'(1) f1 f2 by simp
  have pr: "is_payment c x r" and he: "is_history s x e" using r(2) e(2) by (simp_all add: recorded_def mirrors_def)
  have ids: "app_ids db'" using v2(2) s3' by (simp add: app_ids_def)
  then have pid: "q = r" if "q \<in> set (ap_payments db')" "py_id q = i" for q
    using ids_okD [of py_id _ _ q r] that r(1) pays by (auto simp: app_ids_def)
  have eid: "q = e" if "q \<in> set (events (ap_fin db'))" "ev_id q = k" for q
    using ids ids_okD [of ev_id _ _ q e] that e(1) evs by (auto simp: app_ids_def db_ids_def)
  have match: "links_match db'" if lm: "links_match db"
  proof -
    have "ev_source_type g = Some ''tmo_history'' \<and> ev_source_id g = Some (py_external_id q)"
      if l: "(a, b) \<in> set (ap_links db')" and q: "q \<in> set (ap_payments db')" "py_id q = a"
        and g: "g \<in> set (events (ap_fin db'))" "ev_id g = b" for a b q g
    proof (cases "a = i")
      case True
      with l links have "b = k" by auto
      with True pid [of q] eid [of g] q g pr he show ?thesis by (auto simp: is_payment_def is_history_def)
    next
      case False
      with l links q pays r(1) have old_l: "(a, b) \<in> set (ap_links db)" and q0: "q \<in> set (ap_payments db)" by auto
      show ?thesis
      proof (cases "g = e")
        case False
        with g evs have "g \<in> set (events (ap_fin db))" by auto
        with lm old_l q0 q(2) g(2) show ?thesis by (fastforce simp: links_match_def)
      next
        case True
        with g e(1) have "b = k" by simp
        moreover have "b \<in> ev_id ` set (events (ap_fin db))" by (rule links_checkD(2) [OF assms(2) old_l])
        ultimately obtain g0 where "g0 \<in> set (events (ap_fin db))" "is_history s x g0" "ev_id g0 = b"
          using old f1 by auto
        with lm old_l q0 q(2) have "py_external_id q = x" by (fastforce simp: links_match_def is_history_def)
        with True he show ?thesis by (simp add: is_history_def)
      qed
    qed
    then show ?thesis by (auto simp: links_match_def)
  qed
  have imp: "imported s c {x} db db'"
    unfolding imported_def
  proof (intro conjI allI ballI impI)
    show "ap_rest db' = ap_rest db" using f1 f2 s3' by simp
  next
    fix q assume "\<forall>y \<in> {x}. \<not> is_payment c y q"
    then show "q \<in> set (ap_payments db') \<longleftrightarrow> q \<in> set (ap_payments db)" using pays pr by auto
  next
    fix q assume "\<forall>y \<in> {x}. \<not> is_history s y q"
    then show "q \<in> set (events (ap_fin db')) \<longleftrightarrow> q \<in> set (events (ap_fin db))" using evs he by auto
  next
    fix q b assume "q \<in> set (ap_payments db')" "\<forall>y \<in> {x}. \<not> is_payment c y q"
    then have "py_id q \<noteq> i" using pid pr by blast
    then show "(py_id q, b) \<in> set (ap_links db') \<longleftrightarrow> (py_id q, b) \<in> set (ap_links db)" using links by auto
  qed (rule match)
  have pi: "payment_identity N p = Some (d, x)" using id by (simp add: payment_identity_def)
  have "mirrored N c s db' p"
    using pi r(1,2) e(1,2) pays evs links by (auto simp: mirrored_def)
  with pi imp s3'(2) ids show ?thesis by (intro that)
qed


subsection \<open>All payments\<close>

definition payment_key :: "tmo_ext \<Rightarrow> tmo_payment \<Rightarrow> string option" where
  "payment_key N p = map_option snd (payment_identity N p)"

definition payment_keys :: "tmo_ext \<Rightarrow> tmo_payment list \<Rightarrow> string set" where
  "payment_keys N ps = {x. \<exists>p \<in> set ps. payment_key N p = Some x}"

lemma import_loop:
  assumes "for_each (import_payment X T N c s) ps db = (Inr (), db')" "app_valid X T db" "app_ids db"
    "distinct (map (payment_key N) ps)"
  shows "imported s c (payment_keys N ps) db db' \<and> (\<forall>p \<in> set ps. mirrored N c s db' p) \<and> app_valid X T db' \<and> app_ids db'"
  using assms
proof (induction ps arbitrary: db)
  case Nil
  then show ?case by (simp add: ok_Inr imported_refl payment_keys_def)
next
  case (Cons p ps)
  obtain db1 where s1: "import_payment X T N c s p db = (Inr (), db1)"
    and rest: "for_each (import_payment X T N c s) ps db1 = (Inr (), db')"
    using Cons.prems(1) by (auto simp: thn_Inr)
  obtain d x where px: "payment_identity N p = Some (d, x)" and i1: "imported s c {x} db db1" and m: "mirrored N c s db1 p"
    and v1: "app_valid X T db1" "app_ids db1"
    by (rule import_payment_step [OF s1 Cons.prems(2,3)])
  have IH: "imported s c (payment_keys N ps) db1 db'" "\<forall>p \<in> set ps. mirrored N c s db' p" "app_valid X T db'" "app_ids db'"
    using Cons.IH [OF rest v1] Cons.prems(4) by simp_all
  have "payment_key N p \<notin> payment_key N ` set ps" using Cons.prems(4) by simp
  then have "x \<notin> payment_keys N ps" using px by (auto simp: payment_keys_def payment_key_def image_iff)
  then have "mirrored N c s db' p" by (rule mirrored_kept [OF m px _ IH(1)])
  moreover have "payment_keys N (p # ps) = {x} \<union> payment_keys N ps" using px by (auto simp: payment_keys_def payment_key_def)
  ultimately show ?case using imported_trans [OF i1 IH(1)] IH by simp
qed

lemma payment_key_Inr:
  assumes "required_date N l (tp_check_date p) = Inr d" "payment_external_id p d = Inr x"
  shows "payment_key N p = Some x"
  using assms required_date_Inr [of N l] by (simp add: payment_key_def payment_identity_def)

lemma check_payments_keys:
  assumes "check_payments N seen ps = Inr ()"
  shows "distinct (map (payment_key N) ps) \<and> (\<forall>p \<in> set ps. \<exists>x. payment_key N p = Some x \<and> x \<notin> set seen)"
  using assms
proof (induction ps arbitrary: seen)
  case (Cons p ps)
  obtain d x where d: "required_date N ''TMO payment check date'' (tp_check_date p) = Inr d" "payment_external_id p d = Inr x"
    and x: "x \<notin> set seen" and rest: "check_payments N (x # seen) ps = Inr ()"
    using Cons.prems by (auto simp: rbnd_eq_Inr split: if_splits)
  note k = payment_key_Inr [OF d]
  from Cons.IH [OF rest] k x show ?case by fastforce
qed simp

lemma links_match_mono:
  assumes "links_match db" "set (ap_links db') \<subseteq> set (ap_links db)" "set (ap_payments db') \<subseteq> set (ap_payments db)"
    "set (events (ap_fin db')) \<subseteq> set (events (ap_fin db))"
  shows "links_match db'"
  unfolding links_match_def
proof clarify
  fix i k r e
  assume "(py_id r, ev_id e) \<in> set (ap_links db')" "r \<in> set (ap_payments db')" "e \<in> set (events (ap_fin db'))"
  with assms(2-4) have "(py_id r, ev_id e) \<in> set (ap_links db)" "r \<in> set (ap_payments db)" "e \<in> set (events (ap_fin db))" by blast+
  with assms(1) show "ev_source_type e = Some ''tmo_history'' \<and> ev_source_id e = Some (py_external_id r)"
    by (fastforce simp: links_match_def)
qed

lemma delete_events_step:
  assumes "delete_app_events X T ctx P db = (Inr (), db')"
  shows "set (events (ap_fin db')) = {e \<in> set (events (ap_fin db)). \<not> P db e}"
    "set (ap_links db') = {l \<in> set (ap_links db). snd l \<in> ev_id ` set (events (ap_fin db'))}"
    "ap_payments db' = ap_payments db" "ap_rest db' = ap_rest db" "app_valid X T db'" "app_ids db \<Longrightarrow> app_ids db'"
    "links_match db \<Longrightarrow> links_match db'"
proof -
  have db': "app_valid X T db'" "db' = db\<lparr>ap_fin := (ap_fin db)\<lparr>events := filter (\<lambda>e. \<not> P db e) (events (ap_fin db))\<rparr>,
      ap_links := filter (\<lambda>l. snd l \<in> set (map ev_id (filter (\<lambda>e. \<not> P db e) (events (ap_fin db))))) (ap_links db)\<rparr>"
    using assms by (auto simp: delete_app_events_def app_write_Inr Let_def)
  show "set (events (ap_fin db')) = {e \<in> set (events (ap_fin db)). \<not> P db e}"
    "set (ap_links db') = {l \<in> set (ap_links db). snd l \<in> ev_id ` set (events (ap_fin db'))}"
    "ap_payments db' = ap_payments db" "ap_rest db' = ap_rest db" "app_valid X T db'"
    using db'(1) by (auto simp: db'(2) rest_defs)
  show "app_ids db'" if "app_ids db" using that by (simp add: db'(2) app_ids_def db_ids_def ids_ok_filter)
  show "links_match db'" if "links_match db" using that by (rule links_match_mono) (auto simp: db'(2))
qed

lemma delete_payments_step:
  assumes "delete_stale_payments X T c db = (Inr (), db')"
  shows "set (ap_payments db') = {r \<in> set (ap_payments db). \<not> is_stale c r}"
    "set (ap_links db') = {l \<in> set (ap_links db). fst l \<in> py_id ` set (ap_payments db')}"
    "ap_fin db' = ap_fin db" "ap_rest db' = ap_rest db" "app_valid X T db'" "app_ids db \<Longrightarrow> app_ids db'"
    "links_match db \<Longrightarrow> links_match db'"
proof -
  have db': "app_valid X T db'" "db' = db\<lparr>ap_payments := filter (\<lambda>r. \<not> is_stale c r) (ap_payments db),
      ap_links := filter (\<lambda>l. fst l \<in> set (map py_id (filter (\<lambda>r. \<not> is_stale c r) (ap_payments db)))) (ap_links db)\<rparr>"
    using assms by (auto simp: delete_stale_payments_def app_write_Inr Let_def)
  show "set (ap_payments db') = {r \<in> set (ap_payments db). \<not> is_stale c r}"
    "set (ap_links db') = {l \<in> set (ap_links db). fst l \<in> py_id ` set (ap_payments db')}"
    "ap_fin db' = ap_fin db" "ap_rest db' = ap_rest db" "app_valid X T db'"
    using db'(1) by (auto simp: db'(2) rest_defs)
  show "app_ids db'" if "app_ids db" using that by (simp add: db'(2) app_ids_def ids_ok_filter)
  show "links_match db'" if "links_match db" using that by (rule links_match_mono) (auto simp: db'(2))
qed

lemma stage_payments_step:
  assumes "stage_payments X T c db = (Inr (), db')"
  shows "set (ap_payments db') = (\<lambda>r. if py_connection_id r = ca_connection_id c then r\<lparr>py_processing_state := ''stale''\<rparr> else r) ` set (ap_payments db)"
    "ap_links db' = ap_links db" "ap_fin db' = ap_fin db" "ap_rest db' = ap_rest db" "app_valid X T db'"
    "app_ids db \<Longrightarrow> app_ids db'" "links_match db \<Longrightarrow> links_match db'"
proof -
  have db': "app_valid X T db'" "db' = db\<lparr>ap_payments := update_rows (\<lambda>r. py_connection_id r = ca_connection_id c)
          (\<lambda>r. r\<lparr>py_processing_state := ''stale''\<rparr>) (ap_payments db)\<rparr>"
    using assms by (auto simp: stage_payments_def app_write_Inr)
  show "set (ap_payments db') = (\<lambda>r. if py_connection_id r = ca_connection_id c then r\<lparr>py_processing_state := ''stale''\<rparr> else r) ` set (ap_payments db)"
    "ap_links db' = ap_links db" "ap_fin db' = ap_fin db" "ap_rest db' = ap_rest db" "app_valid X T db'"
    using db'(1) by (simp_all add: db'(2) rest_defs set_update_rows)
  show "app_ids db'" if "app_ids db" using that by (simp add: db'(2) app_ids_def ids_ok_update)
  show "links_match db'" if "links_match db"
    using that by (fastforce simp: db'(2) links_match_def set_update_rows)
qed


definition same_ledger :: "app_db \<Rightarrow> app_db \<Rightarrow> bool" where
  "same_ledger db db' \<longleftrightarrow> fin_rest (ap_fin db') = fin_rest (ap_fin db) \<and>
     (\<forall>e. ev_source_type e \<noteq> Some ''tmo_history'' \<longrightarrow> \<not> is_legacy_schedule e \<longrightarrow>
        (e \<in> set (events (ap_fin db')) \<longleftrightarrow> e \<in> set (events (ap_fin db))))"

definition payments_mirror :: "tmo_ext \<Rightarrow> tmo_capture \<Rightarrow> int \<Rightarrow> app_db \<Rightarrow> bool" where
  "payments_mirror N c s db \<longleftrightarrow> (\<forall>p \<in> set (ca_payments c). mirrored N c s db p) \<and>
     (\<forall>r \<in> set (ap_payments db). py_connection_id r = ca_connection_id c \<longrightarrow>
        (\<exists>p \<in> set (ca_payments c). \<exists>d x. payment_identity N p = Some (d, x) \<and> recorded c p d x r)) \<and>
     (\<forall>e \<in> set (events (ap_fin db)). ev_stream_id e = s \<longrightarrow> ev_source_type e = Some ''tmo_history'' \<longrightarrow>
        (\<exists>p \<in> set (ca_payments c). \<exists>d x. payment_identity N p = Some (d, x) \<and> mirrors s p d x e))"

text \<open>After the loop: every captured payment is mirrored, and the stale payments are those the capture lacks.\<close>

definition loaded :: "(string \<Rightarrow> bool) \<Rightarrow> ext \<Rightarrow> tmo_ext \<Rightarrow> tmo_capture \<Rightarrow> int \<Rightarrow> app_db \<Rightarrow> bool" where
  "loaded T X N c s db \<longleftrightarrow> app_valid X T db \<and> app_ids db \<and> links_match db \<and> (\<forall>p \<in> set (ca_payments c). mirrored N c s db p) \<and>
     (\<forall>r \<in> set (ap_payments db). is_stale c r \<longleftrightarrow>
        py_connection_id r = ca_connection_id c \<and> (\<forall>x \<in> payment_keys N (ca_payments c). \<not> is_payment c x r))"

lemma captured_row:
  assumes "app_valid X T db" "\<forall>p \<in> set (ca_payments c). mirrored N c s db p"
    and "r \<in> set (ap_payments db)" "x \<in> payment_keys N (ca_payments c)" "is_payment c x r"
  shows "\<exists>p \<in> set (ca_payments c). \<exists>d. payment_identity N p = Some (d, x) \<and> recorded c p d x r"
proof -
  obtain p d where p: "p \<in> set (ca_payments c)" "payment_identity N p = Some (d, x)"
    using assms(4) by (auto simp: payment_keys_def payment_key_def)
  then obtain r' where r': "r' \<in> set (ap_payments db)" "recorded c p d x r'" using assms(2) by (auto simp: mirrored_def)
  then have "r' = r" using payment_unique [OF assms(1) r'(1) assms(3) _ assms(5)] by (simp add: recorded_def)
  with p r' show ?thesis by auto
qed

lemma loop_loaded:
  assumes "stage_payments X T c db = (Inr (), db1)" "for_each (import_payment X T N c s) (ca_payments c) db1 = (Inr (), db2)"
    "app_ids db" "links_match db" "distinct (map (payment_key N) (ca_payments c))"
  shows "loaded T X N c s db2" "imported s c (payment_keys N (ca_payments c)) db1 db2"
proof -
  note s1 = stage_payments_step [OF assms(1)]
  have s2: "imported s c (payment_keys N (ca_payments c)) db1 db2" "\<forall>p \<in> set (ca_payments c). mirrored N c s db2 p"
    "app_valid X T db2" "app_ids db2"
    using import_loop [OF assms(2) s1(5) s1(6) [OF assms(3)] assms(5)] by simp_all
  have "is_stale c r \<longleftrightarrow> py_connection_id r = ca_connection_id c \<and> (\<forall>x \<in> payment_keys N (ca_payments c). \<not> is_payment c x r)"
    if r: "r \<in> set (ap_payments db2)" for r
  proof
    assume st: "is_stale c r"
    then have "\<not> is_payment c x r" if "x \<in> payment_keys N (ca_payments c)" for x
      using captured_row [OF s2(3,2) r that] by (auto simp: is_stale_def recorded_def)
    with st show "py_connection_id r = ca_connection_id c \<and> (\<forall>x \<in> payment_keys N (ca_payments c). \<not> is_payment c x r)"
      by (simp add: is_stale_def)
  next
    assume rc: "py_connection_id r = ca_connection_id c \<and> (\<forall>x \<in> payment_keys N (ca_payments c). \<not> is_payment c x r)"
    then have "r \<in> set (ap_payments db1)" using s2(1) r by (simp add: imported_def)
    then show "is_stale c r" using rc s1(1) by (auto simp: is_stale_def split: if_splits)
  qed
  moreover have "links_match db2" using s2(1) s1(7) [OF assms(4)] by (simp add: imported_def)
  ultimately show "loaded T X N c s db2" using s2 by (simp add: loaded_def)
qed (rule import_loop [OF assms(2) stage_payments_step(5,6) [OF assms(1)] assms(5), THEN conjunct1], rule assms(3))

lemma linked_whereE:
  assumes "linked_where P db e"
  obtains r where "r \<in> set (ap_payments db)" "(py_id r, ev_id e) \<in> set (ap_links db)" "P r"
  using assms by (force simp: linked_where_def list_ex_iff)

lemma linked_whereI: "r \<in> set (ap_payments db) \<Longrightarrow> (py_id r, ev_id e) \<in> set (ap_links db) \<Longrightarrow> P r \<Longrightarrow> linked_where P db e"
  by (force simp: linked_where_def list_ex_iff)

lemma stale_links:
  assumes "loaded T X N c s db" "e \<in> set (events (ap_fin db))" "linked_where (is_stale c) db e"
  shows "ev_source_type e = Some ''tmo_history''" "is_history s x e \<Longrightarrow> x \<notin> payment_keys N (ca_payments c)"
proof -
  obtain q where q: "q \<in> set (ap_payments db)" "(py_id q, ev_id e) \<in> set (ap_links db)" "is_stale c q"
    using assms(3) by (rule linked_whereE)
  then have src: "ev_source_type e = Some ''tmo_history''" "ev_source_id e = Some (py_external_id q)"
    using assms(1,2) by (fastforce simp: loaded_def links_match_def)+
  show "ev_source_type e = Some ''tmo_history''" by (rule src(1))
  assume "is_history s x e"
  with src q(3) have "is_payment c x q" by (simp add: is_history_def is_payment_def is_stale_def)
  with assms(1) q(1,3) show "x \<notin> payment_keys N (ca_payments c)" by (auto simp: loaded_def)
qed

lemma prune_mirror:
  assumes "prune_projection X T c s db = (Inr (), db')" and l: "loaded T X N c s db"
  shows "payments_mirror N c s db'" "app_valid X T db'" "app_ids db'" "links_match db'" "ap_rest db' = ap_rest db"
    "set (ap_payments db') = {r \<in> set (ap_payments db). \<not> is_stale c r}"
    "\<And>e. ev_source_type e \<noteq> Some ''tmo_history'' \<Longrightarrow> \<not> is_legacy_schedule e \<Longrightarrow>
       e \<in> set (events (ap_fin db')) \<longleftrightarrow> e \<in> set (events (ap_fin db))"
proof -
  let ?ids = "payment_keys N (ca_payments c)"
  let ?linked = "linked_where (\<lambda>r. py_connection_id r = ca_connection_id c)"
  obtain db3 db4 db5
    where d3: "delete_app_events X T ''remove stream events for payments absent from TMO snapshot'' (linked_where (is_stale c)) db = (Inr (), db3)"
    and d4: "delete_stale_payments X T c db3 = (Inr (), db4)"
    and d5: "delete_app_events X T ''remove orphaned TMO history events'' (\<lambda>db e.
            ev_stream_id e = s \<and> ev_source_type e = Some ''tmo_history'' \<and> \<not> ?linked db e) db4 = (Inr (), db5)"
    and d6: "delete_app_events X T ''remove legacy TMO schedule projections'' (\<lambda>_. is_legacy_schedule) db5 = (Inr (), db')"
    using assms(1) by (auto simp: prune_projection_def thn_Inr)
  note s3 = delete_events_step [OF d3] and s4 = delete_payments_step [OF d4]
    and s5 = delete_events_step [OF d5] and s6 = delete_events_step [OF d6]
  have lm4: "links_match db4" using l s3(7) s4(7) by (simp add: loaded_def)
  show pays: "set (ap_payments db') = {r \<in> set (ap_payments db). \<not> is_stale c r}" using s3(3) s4(1) s5(3) s6(3) by simp
  show "app_valid X T db'" by (rule s6(5))
  show "app_ids db'" "links_match db'" using l s3(6,7) s4(6,7) s5(6,7) s6(6,7) by (simp_all add: loaded_def)
  show "ap_rest db' = ap_rest db" using s3(4) s4(4) s5(4) s6(4) by simp
  show "e \<in> set (events (ap_fin db')) \<longleftrightarrow> e \<in> set (events (ap_fin db))"
    if "ev_source_type e \<noteq> Some ''tmo_history''" "\<not> is_legacy_schedule e" for e
    using that stale_links(1) [OF l, of e] s3(1) s4(3) s5(1) s6(1) by auto
  have kept: "mirrored N c s db' p" if p: "p \<in> set (ca_payments c)" for p
  proof -
    obtain d x r e where px: "payment_identity N p = Some (d, x)" and r: "r \<in> set (ap_payments db)" "recorded c p d x r"
      and e: "e \<in> set (events (ap_fin db))" "mirrors s p d x e" and lk: "(py_id r, ev_id e) \<in> set (ap_links db)"
      using l p by (auto simp: loaded_def mirrored_def)
    have x: "x \<in> ?ids" using p px by (auto simp: payment_keys_def payment_key_def)
    have pr: "is_payment c x r" and he: "is_history s x e" using r(2) e(2) by (simp_all add: recorded_def mirrors_def)
    have e3: "e \<in> set (events (ap_fin db3))" using stale_links(2) [OF l e(1) _ he] x s3(1) e(1) by blast
    then have l3: "(py_id r, ev_id e) \<in> set (ap_links db3)" using s3(2) lk by auto
    have "\<not> is_stale c r" using l r(1) x pr by (auto simp: loaded_def)
    then have r4: "r \<in> set (ap_payments db4)" and l4: "(py_id r, ev_id e) \<in> set (ap_links db4)"
      using s4(1,2) s3(3) r(1) l3 by auto
    have "?linked db4 e" using linked_whereI [OF r4 l4] pr by (simp add: is_payment_def)
    then have e5: "e \<in> set (events (ap_fin db5))" and l5: "(py_id r, ev_id e) \<in> set (ap_links db5)"
      using s5(1,2) s4(3) e3 l4 by auto
    have "\<not> is_legacy_schedule e" using he by (simp add: is_history_def is_legacy_schedule_def)
    then have "e \<in> set (events (ap_fin db'))" "(py_id r, ev_id e) \<in> set (ap_links db')" using s6(1,2) e5 l5 by auto
    moreover have "r \<in> set (ap_payments db')" using r4 s5(3) s6(3) by simp
    ultimately show ?thesis using px r(2) e(2) by (auto simp: mirrored_def)
  qed
  have recs: "\<exists>p \<in> set (ca_payments c). \<exists>d x. payment_identity N p = Some (d, x) \<and> recorded c p d x r"
    if r: "r \<in> set (ap_payments db')" "py_connection_id r = ca_connection_id c" for r
  proof -
    have r2: "r \<in> set (ap_payments db)" and "\<not> is_stale c r" using r(1) pays by auto
    with l r(2) obtain x where "x \<in> ?ids" "is_payment c x r" by (auto simp: loaded_def)
    with l captured_row [OF _ _ r2] show ?thesis by (fastforce simp: loaded_def)
  qed
  have evs: "\<exists>p \<in> set (ca_payments c). \<exists>d x. payment_identity N p = Some (d, x) \<and> mirrors s p d x e"
    if e: "e \<in> set (events (ap_fin db'))" "ev_stream_id e = s" "ev_source_type e = Some ''tmo_history''" for e
  proof -
    have e4: "e \<in> set (events (ap_fin db4))" and "?linked db4 e" using e s6(1) s5(1) by auto
    then obtain r where r: "r \<in> set (ap_payments db4)" "(py_id r, ev_id e) \<in> set (ap_links db4)" "py_connection_id r = ca_connection_id c"
      by (blast elim: linked_whereE)
    obtain p d x where p: "p \<in> set (ca_payments c)" "payment_identity N p = Some (d, x)" "recorded c p d x r"
      using recs [of r] r s5(3) s6(3) by auto
    have "ev_source_id e = Some (py_external_id r)" using lm4 r(1,2) e4 by (fastforce simp: links_match_def)
    then have he: "is_history s x e" using e p(3) by (simp add: is_history_def recorded_def is_payment_def)
    obtain e' where e': "e' \<in> set (events (ap_fin db'))" "mirrors s p d x e'"
      using kept [OF p(1)] p(2) by (auto simp: mirrored_def)
    have "e' = e" using history_unique [OF s6(5) e'(1) e(1) _ he] e'(2) by (simp add: mirrors_def)
    with p e' show ?thesis by blast
  qed
  show "payments_mirror N c s db'" unfolding payments_mirror_def using kept evs recs by auto
qed

lemma replace_payments:
  assumes "replace_payment_projection X T N c s db = (Inr (), db')" "app_ids db" "links_match db"
    and keys: "distinct (map (payment_key N) (ca_payments c))"
  shows "payments_mirror N c s db'" "app_valid X T db'" "app_ids db'" "links_match db'" "ap_rest db' = ap_rest db"
    "same_ledger db db'"
    "\<And>r. py_connection_id r \<noteq> ca_connection_id c \<Longrightarrow> r \<in> set (ap_payments db') \<longleftrightarrow> r \<in> set (ap_payments db)"
proof -
  obtain db1 db2 where d1: "stage_payments X T c db = (Inr (), db1)"
    and d2: "for_each (import_payment X T N c s) (ca_payments c) db1 = (Inr (), db2)"
    and d3: "prune_projection X T c s db2 = (Inr (), db')"
    using assms(1) by (auto simp: replace_payment_projection_def thn_Inr)
  note s1 = stage_payments_step [OF d1]
  note s2 = loop_loaded [OF d1 d2 assms(2-4)]
  note s3 = prune_mirror [OF d3 s2(1)]
  show "payments_mirror N c s db'" "app_valid X T db'" "app_ids db'" "links_match db'" by (rule s3)+
  show rest: "ap_rest db' = ap_rest db" using s1(4) s2(2) s3(5) by (simp add: imported_def)
  show "r \<in> set (ap_payments db') \<longleftrightarrow> r \<in> set (ap_payments db)" if r: "py_connection_id r \<noteq> ca_connection_id c" for r
  proof -
    have "r \<in> set (ap_payments db2) \<longleftrightarrow> r \<in> set (ap_payments db1)"
      using s2(2) r by (simp add: imported_def is_payment_def)
    then show ?thesis using r s1(1) s3(6) by (auto simp: is_stale_def)
  qed
  have "e \<in> set (events (ap_fin db2)) \<longleftrightarrow> e \<in> set (events (ap_fin db))" if "ev_source_type e \<noteq> Some ''tmo_history''" for e
    using s2(2) that s1(3) by (simp add: imported_def is_history_def)
  moreover have "fin_rest (ap_fin db') = fin_rest (ap_fin db)" using arg_cong [OF rest, of ap_fin] by (simp add: ap_rest_def)
  ultimately show "same_ledger db db'" using s3(7) by (simp add: same_ledger_def)
qed

end
