(* ===== verification/Tmo_Capture.thy ===== *)
theory Tmo_Capture
  imports Tmo_Mirror
begin

text \<open>
  The whole import: after \<open>apply_tmo_sync\<close> returns, payments, history events, loans, snapshots and the
  connection are those of the capture. With \<open>Tmo_Mirror\<close> this is the contract that the
  synchronisation runtime relies on.
\<close>

subsection \<open>Loans\<close>

definition summarised :: "tmo_capture \<Rightarrow> tmo_loan \<Rightarrow> loan_row \<Rightarrow> bool" where
  "summarised c l r \<longleftrightarrow> is_loan c (tl_account l) r \<and> lo_is_active r \<and> lo_percent_owned r = Some (tl_percent_owned l) \<and>
     lo_interest_rate r = Some (tl_interest_rate l) \<and> lo_loan_balance r = Some (tl_balance l) \<and>
     lo_term_left r = Some (tl_term_left l) \<and> lo_is_delinquent r = tl_is_delinquent l"

definition loans_mirror :: "tmo_capture \<Rightarrow> app_db \<Rightarrow> bool" where
  "loans_mirror c db \<longleftrightarrow> (\<forall>l \<in> set (ca_loans c). \<exists>r \<in> set (ap_loans db). summarised c l r) \<and>
     (\<forall>r \<in> set (ap_loans db). lo_connection_id r = ca_connection_id c \<longrightarrow>
        (lo_is_active r \<longleftrightarrow> lo_account r \<in> tl_account ` set (ca_loans c)))"

definition no_loans :: "app_db \<Rightarrow> app_db" where
  "no_loans db = db\<lparr>ap_loans := []\<rparr>"

lemma loan_unique:
  assumes "app_valid X T db" "q \<in> set (ap_loans db)" "r \<in> set (ap_loans db)" "is_loan c a q" "is_loan c a r"
  shows "q = r"
proof -
  have "distinct (map (\<lambda>r. (lo_connection_id r, lo_account r)) (ap_loans db))"
    using assms(1) by (simp add: app_valid_def Let_def)
  from distinct_key_eq [OF this assms(2,3)] show ?thesis using assms(4,5) by (simp add: is_loan_def)
qed

lemma write_loans_Inr: "write_loans X T ctx f db = (Inr a, db') \<longleftrightarrow>
    (\<exists>rs. f (ap_loans db) = (a, rs) \<and> db' = db\<lparr>ap_loans := rs\<rparr>) \<and> app_valid X T db'"
  by (auto simp: write_loans_def app_write_Inr Let_def split: prod.splits)

lemma set_upsert_keyed:
  assumes "\<And>a b. a \<in> set rs \<Longrightarrow> b \<in> set rs \<Longrightarrow> P a \<Longrightarrow> P b \<Longrightarrow> a = b" "\<And>r. P r \<Longrightarrow> Q (f r)" "Q new"
  obtains r where "set (upsert P f new rs) = insert r {q \<in> set rs. \<not> P q}" "Q r"
proof (cases "list_ex P rs")
  case True
  then obtain r where r: "r \<in> set rs" "P r" by (auto simp: list_ex_iff)
  have "set (update_rows P f rs) = insert (f r) {q \<in> set rs. \<not> P q}" using assms(1) r by (rule set_update_keyed)
  with assms(2) True r show ?thesis by (intro that [of "f r"]) (simp_all add: upsert_def)
next
  case False
  then have "{q \<in> set rs. \<not> P q} = set rs" by (auto simp: list_ex_iff)
  with False assms(3) show ?thesis by (intro that [of new]) (simp_all add: upsert_def)
qed

lemma summary_summarised: "is_loan c (tl_account l) r \<Longrightarrow> summarised c l (summary_update N c s l md np ip bt r)"
  by (simp add: summarised_def summary_update_def is_loan_def)

lemma import_loan_step:
  assumes "import_loan X T N c s l db = (Inr (), db')" "app_valid X T db"
  obtains r where "set (ap_loans db') = insert r {q \<in> set (ap_loans db). \<not> is_loan c (tl_account l) q}" "summarised c l r"
    "app_valid X T db'" "no_loans db' = no_loans db"
proof -
  obtain md np ip bt where w: "write_loans X T ''upsert TMO loan summary'' (\<lambda>rs. ((), upsert (is_loan c (tl_account l))
      (summary_update N c s l md np ip bt) (summary_update N c s l md np ip bt (empty_loan c (tl_account l))) rs)) db = (Inr (), db')"
    using assms(1) unfolding import_loan_def op_Inr Let_def by blast
  have new: "summarised c l (summary_update N c s l md np ip bt (empty_loan c (tl_account l)))"
    by (rule summary_summarised) (simp add: is_loan_def empty_loan_def)
  obtain r where r: "set (upsert (is_loan c (tl_account l)) (summary_update N c s l md np ip bt)
      (summary_update N c s l md np ip bt (empty_loan c (tl_account l))) (ap_loans db)) =
      insert r {q \<in> set (ap_loans db). \<not> is_loan c (tl_account l) q}" "summarised c l r"
    by (rule set_upsert_keyed [where Q = "summarised c l", OF _ summary_summarised new])
      (rule loan_unique [OF assms(2)])
  from w r show ?thesis by (intro that [of r]) (auto simp: write_loans_Inr no_loans_def)
qed

lemma import_loans_loop:
  assumes "for_each (import_loan X T N c s) ls db = (Inr (), db')" "app_valid X T db" "distinct (map tl_account ls)"
  shows "(\<forall>l \<in> set ls. \<exists>r \<in> set (ap_loans db'). summarised c l r) \<and> app_valid X T db' \<and> no_loans db' = no_loans db \<and>
    (\<forall>r. (\<forall>l \<in> set ls. \<not> is_loan c (tl_account l) r) \<longrightarrow> (r \<in> set (ap_loans db') \<longleftrightarrow> r \<in> set (ap_loans db)))"
  using assms
proof (induction ls arbitrary: db)
  case Nil
  then show ?case by (simp add: ok_Inr)
next
  case (Cons l ls)
  obtain db1 where s1: "import_loan X T N c s l db = (Inr (), db1)" and rest: "for_each (import_loan X T N c s) ls db1 = (Inr (), db')"
    using Cons.prems(1) by (auto simp: thn_Inr)
  obtain r where r: "set (ap_loans db1) = insert r {q \<in> set (ap_loans db). \<not> is_loan c (tl_account l) q}" "summarised c l r"
    and v1: "app_valid X T db1" and n1: "no_loans db1 = no_loans db"
    by (rule import_loan_step [OF s1 Cons.prems(2)])
  have IH: "\<forall>l \<in> set ls. \<exists>r \<in> set (ap_loans db'). summarised c l r" "app_valid X T db'" "no_loans db' = no_loans db1"
    "\<And>q. \<forall>l \<in> set ls. \<not> is_loan c (tl_account l) q \<Longrightarrow> q \<in> set (ap_loans db') \<longleftrightarrow> q \<in> set (ap_loans db1)"
    using Cons.IH [OF rest v1] Cons.prems(3) by simp_all
  have il: "is_loan c (tl_account l) r" using r(2) by (simp add: summarised_def)
  with Cons.prems(3) have "\<forall>k \<in> set ls. \<not> is_loan c (tl_account k) r" by (auto simp: is_loan_def)
  with IH(4) r(1) have "r \<in> set (ap_loans db')" by simp
  with IH(1) r(2) have "\<forall>l \<in> set (l # ls). \<exists>r \<in> set (ap_loans db'). summarised c l r" by auto
  moreover have "q \<in> set (ap_loans db') \<longleftrightarrow> q \<in> set (ap_loans db)" if "\<forall>k \<in> set (l # ls). \<not> is_loan c (tl_account k) q" for q
    using that IH(4) [of q] r(1) il by auto
  ultimately show ?case using IH(2,3) n1 by simp
qed

text \<open>A detail adds columns to a loan; it does not touch the ones a summary is judged by.\<close>

definition detailed :: "loan_row \<Rightarrow> loan_row \<Rightarrow> bool" where
  "detailed r q \<longleftrightarrow> (lo_connection_id q, lo_account q, lo_is_active q, lo_percent_owned q, lo_interest_rate q) =
     (lo_connection_id r, lo_account r, lo_is_active r, lo_percent_owned r, lo_interest_rate r) \<and>
     (lo_loan_balance q, lo_term_left q, lo_is_delinquent q) = (lo_loan_balance r, lo_term_left r, lo_is_delinquent r)"

lemma detailed_summarised: "detailed r q \<Longrightarrow> summarised c l q \<longleftrightarrow> summarised c l r"
  by (auto simp: detailed_def summarised_def is_loan_def)

lemma import_details_loop:
  assumes "for_each (import_detail X T N c) ds db = (Inr (), db')" "app_valid X T db"
  shows "list_all2 detailed (ap_loans db) (ap_loans db') \<and> app_valid X T db' \<and> no_loans db' = no_loans db \<and>
    (\<forall>r. lo_connection_id r \<noteq> ca_connection_id c \<longrightarrow> (r \<in> set (ap_loans db') \<longleftrightarrow> r \<in> set (ap_loans db)))"
  using assms
proof (induction ds arbitrary: db)
  case Nil
  then show ?case by (simp add: ok_Inr list.rel_refl detailed_def)
next
  case (Cons d ds)
  obtain db1 where s1: "import_detail X T N c d db = (Inr (), db1)" and rest: "for_each (import_detail X T N c) ds db1 = (Inr (), db')"
    using Cons.prems(1) by (auto simp: thn_Inr)
  obtain md np ip where db1: "db1 = db\<lparr>ap_loans := update_rows (is_loan c (tq_account d)) (detail_update N c d md np ip) (ap_loans db)\<rparr>"
    and v1: "app_valid X T db1"
    using s1 unfolding import_detail_def op_Inr write_loans_Inr by auto
  have det: "detailed r (if is_loan c (tq_account d) r then detail_update N c d md np ip r else r)" for r
    by (simp add: detailed_def detail_update_def)
  have u: "list_all2 detailed rs (update_rows (is_loan c (tq_account d)) (detail_update N c d md np ip) rs)" for rs
    by (induction rs) (use det in \<open>auto split: if_splits\<close>)
  have tr: "detailed a b \<Longrightarrow> detailed b e \<Longrightarrow> detailed a e" for a b e by (simp add: detailed_def)
  have keep: "r \<in> set (ap_loans db1) \<longleftrightarrow> r \<in> set (ap_loans db)" if "lo_connection_id r \<noteq> ca_connection_id c" for r
    using that by (auto simp: db1 set_update_rows is_loan_def detail_update_def split: if_splits intro: rev_image_eqI)
  note IH = Cons.IH [OF rest v1]
  have "list_all2 detailed (ap_loans db) (ap_loans db')"
    using list_all2_trans [of detailed detailed detailed, OF tr, OF _ _ u [of "ap_loans db"]] IH by (simp add: db1)
  moreover have "no_loans db1 = no_loans db" by (simp add: db1 no_loans_def)
  ultimately show ?case using IH keep by simp
qed


lemma check_loans_accounts:
  assumes "check_loans seen ls = Inr accts"
  shows "distinct (map tl_account ls) \<and> set (map tl_account ls) \<inter> set seen = {} \<and> set accts = set seen \<union> set (map tl_account ls)"
  using assms
proof (induction ls arbitrary: seen)
  case (Cons l ls)
  then have "tl_account l \<notin> set seen" "check_loans (tl_account l # seen) ls = Inr accts"
    by (auto simp: rbnd_eq_Inr split: if_splits)
  with Cons.IH [of "tl_account l # seen"] show ?case by auto
qed simp

lemma loans_mirrored:
  assumes "stage_loans X T c db = (Inr (), db1)" "for_each (import_loan X T N c s) (ca_loans c) db1 = (Inr (), db2)"
    "for_each (import_detail X T N c) (ca_details c) db2 = (Inr (), db3)" "distinct (map tl_account (ca_loans c))"
  shows "loans_mirror c db3" "no_loans db3 = no_loans db"
    "\<And>r. lo_connection_id r \<noteq> ca_connection_id c \<Longrightarrow> r \<in> set (ap_loans db3) \<longleftrightarrow> r \<in> set (ap_loans db)"
proof -
  have db1: "app_valid X T db1" "db1 = db\<lparr>ap_loans := update_rows (\<lambda>r. lo_connection_id r = ca_connection_id c \<and> lo_is_active r) (stage_loan c) (ap_loans db)\<rparr>"
    using assms(1) by (auto simp: stage_loans_def write_loans_Inr)
  note s2 = import_loans_loop [OF assms(2) db1(1) assms(4)]
  have v2: "app_valid X T db2" using s2 by blast
  note s3 = import_details_loop [OF assms(3) v2]
  show "no_loans db3 = no_loans db" using s2 s3 by (simp add: db1(2) no_loans_def)
  have staged: "\<not> lo_is_active r" if "r \<in> set (ap_loans db1)" "lo_connection_id r = ca_connection_id c" for r
    using that by (auto simp: db1(2) set_update_rows stage_loan_def split: if_splits)
  have active: "lo_is_active r \<longleftrightarrow> lo_account r \<in> tl_account ` set (ca_loans c)"
    if r: "r \<in> set (ap_loans db2)" "lo_connection_id r = ca_connection_id c" for r
  proof (cases "lo_account r \<in> tl_account ` set (ca_loans c)")
    case True
    then obtain l where l: "l \<in> set (ca_loans c)" "is_loan c (tl_account l) r" using r(2) by (auto simp: is_loan_def)
    obtain q where q: "q \<in> set (ap_loans db2)" "summarised c l q" using s2 l(1) by blast
    have "q = r" using loan_unique [OF v2 q(1) r(1) _ l(2)] q(2) by (simp add: summarised_def)
    with q(2) True show ?thesis by (simp add: summarised_def)
  next
    case False
    then have "\<forall>l \<in> set (ca_loans c). \<not> is_loan c (tl_account l) r" by (auto simp: is_loan_def)
    with s2 r(1) have "r \<in> set (ap_loans db1)" by blast
    with staged r(2) False show ?thesis by blast
  qed
  have before: "\<exists>r \<in> set (ap_loans db2). detailed r q" if "q \<in> set (ap_loans db3)" for q
    using s3 that by (metis list_all2_conv_all_nth in_set_conv_nth)
  have after: "\<exists>q \<in> set (ap_loans db3). detailed r q" if "r \<in> set (ap_loans db2)" for r
    using s3 that by (metis list_all2_conv_all_nth in_set_conv_nth)
  show "loans_mirror c db3"
    unfolding loans_mirror_def
  proof (intro conjI ballI impI)
    fix l assume "l \<in> set (ca_loans c)"
    with s2 obtain r where "r \<in> set (ap_loans db2)" "summarised c l r" by blast
    with after detailed_summarised show "\<exists>r \<in> set (ap_loans db3). summarised c l r" by blast
  next
    fix q assume q: "q \<in> set (ap_loans db3)" "lo_connection_id q = ca_connection_id c"
    then obtain r where "r \<in> set (ap_loans db2)" "detailed r q" using before by blast
    with active [of r] q(2) show "lo_is_active q \<longleftrightarrow> lo_account q \<in> tl_account ` set (ca_loans c)" by (simp add: detailed_def)
  qed
  show "r \<in> set (ap_loans db3) \<longleftrightarrow> r \<in> set (ap_loans db)" if r: "lo_connection_id r \<noteq> ca_connection_id c" for r
  proof -
    have "r \<in> set (ap_loans db2) \<longleftrightarrow> r \<in> set (ap_loans db1)" using s2 r by (auto simp: is_loan_def)
    moreover have "r \<in> set (ap_loans db1) \<longleftrightarrow> r \<in> set (ap_loans db)"
      using r by (auto simp: db1(2) set_update_rows stage_loan_def split: if_splits intro: rev_image_eqI)
    ultimately show ?thesis using s3 r by blast
  qed
qed

subsection \<open>The whole import\<close>

definition capture_recorded :: "tmo_ext \<Rightarrow> tmo_capture \<Rightarrow> app_db \<Rightarrow> bool" where
  "capture_recorded N c db \<longleftrightarrow> new_overview N c \<in> set (ap_overviews db) \<and> new_snapshot c \<in> set (ap_snapshots db) \<and>
     (\<forall>r \<in> set (op_connections (ap_ops db)). cn_id r = ca_connection_id c \<longrightarrow> cn_slug r = ''tmo'' \<longrightarrow>
        cn_last_synced_at r = Some (ca_captured_at c) \<and>
        (if 0 < ca_detail_failures c then cn_status r = ''degraded'' else cn_status r = ''active'' \<and> cn_last_error r = None))"

definition is_trust_stream :: "stream_row \<Rightarrow> bool" where
  "is_trust_stream s \<longleftrightarrow> st_is_active s \<and> (st_type s = ''mortgage_portfolio'' \<or> st_kind s = ''tmo_trust'')"

text \<open>What an import may not touch: the execution records, the settings, the credentials, other streams' data.\<close>

definition untouched :: "tmo_capture \<Rightarrow> app_db \<Rightarrow> app_db \<Rightarrow> bool" where
  "untouched c db db' \<longleftrightarrow> (ap_ops db')\<lparr>op_connections := []\<rparr> = (ap_ops db)\<lparr>op_connections := []\<rparr> \<and>
     ap_settings db' = ap_settings db \<and> ap_credentials db' = ap_credentials db \<and> same_ledger db db' \<and>
     (\<forall>r. py_connection_id r \<noteq> ca_connection_id c \<longrightarrow> r \<in> set (ap_payments db') \<longleftrightarrow> r \<in> set (ap_payments db)) \<and>
     (\<forall>r. lo_connection_id r \<noteq> ca_connection_id c \<longrightarrow> r \<in> set (ap_loans db') \<longleftrightarrow> r \<in> set (ap_loans db))"

lemma no_loans_eq:
  assumes "no_loans db' = no_loans db"
  shows "ap_fin db' = ap_fin db" "ap_ops db' = ap_ops db" "ap_settings db' = ap_settings db" "ap_overviews db' = ap_overviews db"
    "ap_snapshots db' = ap_snapshots db" "ap_payments db' = ap_payments db" "ap_payment_seq db' = ap_payment_seq db"
    "ap_links db' = ap_links db" "ap_credentials db' = ap_credentials db"
  using assms by (cases db', cases db, simp add: no_loans_def)+

lemma ap_rest_eq:
  assumes "ap_rest db' = ap_rest db"
  shows "ap_ops db' = ap_ops db" "ap_settings db' = ap_settings db" "ap_overviews db' = ap_overviews db"
    "ap_snapshots db' = ap_snapshots db" "ap_loans db' = ap_loans db" "ap_credentials db' = ap_credentials db"
  using assms by (cases db', cases db, simp add: ap_rest_def)+

lemma validated:
  assumes "validate_tmo_capture N c = Inr ()"
  shows "distinct (map tl_account (ca_loans c))" "distinct (map (payment_key N) (ca_payments c))"
proof -
  obtain accts where "check_loans [] (ca_loans c) = Inr accts" "check_payments N [] (ca_payments c) = Inr ()"
    using assms by (auto simp: validate_tmo_capture_def rbnd_eq_Inr Let_def split: if_splits)
  then show "distinct (map tl_account (ca_loans c))" "distinct (map (payment_key N) (ca_payments c))"
    using check_loans_accounts check_payments_keys by blast+
qed

lemma write_connection_step:
  assumes "write_connection X T c db = (Inr (), db')"
  shows "app_valid X T db'" "\<exists>rs. db' = db\<lparr>ap_ops := (ap_ops db)\<lparr>op_connections := rs\<rparr>\<rparr>"
    "\<forall>r \<in> set (op_connections (ap_ops db')). cn_id r = ca_connection_id c \<longrightarrow> cn_slug r = ''tmo'' \<longrightarrow>
        cn_last_synced_at r = Some (ca_captured_at c) \<and>
        (if 0 < ca_detail_failures c then cn_status r = ''degraded'' else cn_status r = ''active'' \<and> cn_last_error r = None)"
  using assms by (auto simp: write_connection_def app_write_Inr set_update_rows sync_connection_def Let_def split: if_splits)

lemma write_snapshots_step:
  assumes "write_account X T c db = (Inr (), db1)" "write_overview X T N c db1 = (Inr (), db2)" "write_snapshot X T c db2 = (Inr (), db')"
  shows "app_valid X T db'" "new_overview N c \<in> set (ap_overviews db')" "new_snapshot c \<in> set (ap_snapshots db')"
    "\<exists>a os ss. db' = db\<lparr>ap_tmo_account := a, ap_overviews := os, ap_snapshots := ss\<rparr>"
proof -
  obtain a os ss where db': "app_valid X T db'" "db' = db\<lparr>ap_tmo_account := a, ap_overviews := os, ap_snapshots := ss\<rparr>"
    and os: "os = upsert (\<lambda>r. ow_connection_id r = ca_connection_id c \<and> ow_snapshot_date r = ca_snapshot_date c)
       (\<lambda>_. new_overview N c) (new_overview N c) (ap_overviews db)"
    and ss: "ss = upsert (\<lambda>r. sn_snapshot_date r = ca_snapshot_date c) (\<lambda>_. new_snapshot c) (new_snapshot c) (ap_snapshots db)"
    using assms by (auto simp: write_account_def write_overview_def write_snapshot_def app_write_Inr)
  then show "app_valid X T db'" "new_overview N c \<in> set (ap_overviews db')" "new_snapshot c \<in> set (ap_snapshots db')"
    "\<exists>a os ss. db' = db\<lparr>ap_tmo_account := a, ap_overviews := os, ap_snapshots := ss\<rparr>"
    by (auto simp: set_upsert_const)
qed

lemma apply_tmo_sync_effect:
  assumes "apply_tmo_sync X T N c db = (Inr out, db')" "app_ids db" "links_match db"
  shows "\<exists>s \<in> set (streams (ap_fin db)). is_trust_stream s \<and> payments_mirror N c (st_id s) db'"
    "loans_mirror c db'" "capture_recorded N c db'" "untouched c db db'" "app_valid X T db'" "app_ids db'" "links_match db'"
    "out = \<lparr>pe_events_upserted = int (length (ca_payments c)), pe_loans_upserted = int (length (ca_loans c)), pe_snapshots_created = 1\<rparr>"
proof -
  obtain s db1 db2 db3 db4 db5 db6 db7 where v: "validate_tmo_capture N c = Inr ()"
    and s: "require_trust_deed_stream db = (Inr s, db)"
    and d1: "write_connection X T c db = (Inr (), db1)"
    and d4: "write_account X T c db1 = (Inr (), db2)" "write_overview X T N c db2 = (Inr (), db3)" "write_snapshot X T c db3 = (Inr (), db4)"
    and d5: "stage_loans X T c db4 = (Inr (), db5)" "for_each (import_loan X T N c s) (ca_loans c) db5 = (Inr (), db6)"
      "for_each (import_detail X T N c) (ca_details c) db6 = (Inr (), db7)"
    and d6: "replace_payment_projection X T N c s db7 = (Inr (), db')"
    and out: "out = \<lparr>pe_events_upserted = int (length (ca_payments c)), pe_loans_upserted = int (length (ca_loans c)), pe_snapshots_created = 1\<rparr>"
    using assms(1) unfolding apply_tmo_sync_def require_tmo_connection_def require_trust_deed_stream_def
    by (auto simp: op_Inr split: option.splits)
  note w1 = write_connection_step [OF d1] and w4 = write_snapshots_step [OF d4]
    and w5 = loans_mirrored [OF d5 validated(1) [OF v]]
  obtain rs a os ss where db4: "db4 = db\<lparr>ap_ops := (ap_ops db)\<lparr>op_connections := rs\<rparr>, ap_tmo_account := a, ap_overviews := os, ap_snapshots := ss\<rparr>"
    and rs: "op_connections (ap_ops db1) = rs"
    using w1(2) w4(4) by auto
  have same7: "ap_fin db7 = ap_fin db" "ap_payments db7 = ap_payments db" "ap_links db7 = ap_links db" "ap_payment_seq db7 = ap_payment_seq db"
    "ap_ops db7 = ap_ops db4" "ap_settings db7 = ap_settings db" "ap_credentials db7 = ap_credentials db"
    "ap_overviews db7 = ap_overviews db4" "ap_snapshots db7 = ap_snapshots db4"
    using no_loans_eq [OF w5(2)] by (simp_all add: db4)
  have i7: "app_ids db7" "links_match db7" using assms(2,3) by (simp_all add: app_ids_def links_match_def same7)
  note w6 = replace_payments [OF d6 i7 validated(2) [OF v]]
  have same8: "ap_ops db' = ap_ops db7" "ap_settings db' = ap_settings db7" "ap_credentials db' = ap_credentials db7"
    "ap_loans db' = ap_loans db7" "ap_overviews db' = ap_overviews db7" "ap_snapshots db' = ap_snapshots db7"
    by (rule ap_rest_eq [OF w6(5)])+
  show "\<exists>s \<in> set (streams (ap_fin db)). is_trust_stream s \<and> payments_mirror N c (st_id s) db'"
    using s w6(1) first_by_Some unfolding require_trust_deed_stream_def
    by (fastforce simp: op_Inr is_trust_stream_def split: option.splits)
  show "loans_mirror c db'" using w5(1) by (simp add: loans_mirror_def same8)
  show "capture_recorded N c db'" using w1(3) w4(2,3) by (simp add: capture_recorded_def same8 same7 db4 rs)
  have "ap_loans db4 = ap_loans db" by (simp add: db4)
  with w6(6,7) w5(3) show "untouched c db db'" by (simp add: untouched_def same8 same7 db4 same_ledger_def)
  show "app_valid X T db'" "app_ids db'" "links_match db'" by (rule w6)+
  show "out = \<lparr>pe_events_upserted = int (length (ca_payments c)), pe_loans_upserted = int (length (ca_loans c)), pe_snapshots_created = 1\<rparr>"
    by (rule out)
qed

end
