(* ===== verification/Sync_Runtime.thy ===== *)
theory Sync_Runtime
  imports Tmo_Capture
begin

text \<open>
  One synchronisation of the TMO connection, \<open>src/sync_runtime/mod.rs\<close>: reap stale runs, claim, capture, and
  record the outcome. The state is the whole database (\<open>app_db\<close>); each repository call is a transaction of
  its own. What is not this code is collected in \<open>sync_env\<close>: the provider, the decryption of the stored PIN, the
  clock's readings, whether the guarded execution runs to its end, panics or exceeds its deadline, and
  \<open>en_others\<close>, what other processes do to the database between two transactions.
\<close>

subsection \<open>Errors and outcomes\<close>

datatype sync_trigger = ManualTrigger | ScheduledTrigger string

datatype failure_class = FConfiguration | FProvider | FStorage | FCoordination | FExecution

definition class_http_status :: "failure_class \<Rightarrow> nat" where
  "class_http_status c = (case c of FConfiguration \<Rightarrow> 409 | FProvider \<Rightarrow> 502 | FStorage \<Rightarrow> 503
     | FCoordination \<Rightarrow> 409 | FExecution \<Rightarrow> 503)"

datatype sync_execution = SyncCompleted sync_run | SyncFailed sync_run failure_class | SyncAlreadyRunning sync_run
  | SyncAlreadyScheduled sync_run | SyncCovered sync_run

definition execution_run :: "sync_execution \<Rightarrow> sync_run" where
  "execution_run e = (case e of SyncCompleted r \<Rightarrow> r | SyncFailed r _ \<Rightarrow> r | SyncAlreadyRunning r \<Rightarrow> r
     | SyncAlreadyScheduled r \<Rightarrow> r | SyncCovered r \<Rightarrow> r)"

definition outcome_code :: "sync_execution \<Rightarrow> string" where
  "outcome_code e = (case e of SyncCompleted _ \<Rightarrow> ''completed'' | SyncFailed _ _ \<Rightarrow> ''failed''
     | SyncAlreadyRunning _ \<Rightarrow> ''already_running'' | SyncAlreadyScheduled _ \<Rightarrow> ''already_scheduled''
     | SyncCovered _ \<Rightarrow> ''covered_by_success'')"

definition execution_http_status :: "sync_execution \<Rightarrow> nat" where
  "execution_http_status e = (case e of SyncCompleted _ \<Rightarrow> 200 | SyncCovered _ \<Rightarrow> 200
     | SyncFailed _ class \<Rightarrow> class_http_status class | SyncAlreadyRunning _ \<Rightarrow> 409 | SyncAlreadyScheduled _ \<Rightarrow> 409)"

datatype sync_error = MissingConnection | MissingCredential | SyncConfiguration string | SyncCredential string
  | SyncProvider provider_error | InvalidCapture string | SyncIntegration int_error | SyncOperation op_error
  | SyncStorage string | DeadlineExceeded | UnexpectedTermination

definition from_integration :: "int_error \<Rightarrow> sync_error" where
  "from_integration e = (case e of IntConfiguration m \<Rightarrow> SyncConfiguration m | IntValidation m \<Rightarrow> InvalidCapture m
     | IntStorage m \<Rightarrow> SyncIntegration (IntStorage m))"

definition public_message :: "sync_error \<Rightarrow> string" where
  "public_message e = (case e of
       MissingConnection \<Rightarrow> ''The TMO integration is not configured.''
     | MissingCredential \<Rightarrow> ''TMO credentials are not configured.''
     | SyncConfiguration _ \<Rightarrow> ''TMO synchronization prerequisites are not configured.''
     | SyncCredential _ \<Rightarrow> ''Stored TMO credentials could not be decrypted.''
     | SyncProvider p \<Rightarrow> (case p of AuthenticationRejected _ \<Rightarrow> ''TMO rejected authentication.''
         | Timeout _ \<Rightarrow> ''A TMO request timed out.'' | _ \<Rightarrow> ''TMO could not complete the synchronization request.'')
     | InvalidCapture _ \<Rightarrow> ''TMO returned data that could not be imported safely.''
     | SyncIntegration (IntValidation _) \<Rightarrow> ''TMO returned data that could not be imported safely.''
     | SyncIntegration (IntConfiguration _) \<Rightarrow> ''TMO synchronization prerequisites are not configured.''
     | SyncIntegration (IntStorage _) \<Rightarrow> ''The TMO synchronization database is temporarily unavailable.''
     | SyncStorage _ \<Rightarrow> ''The TMO synchronization database is temporarily unavailable.''
     | SyncOperation OpReadOnly \<Rightarrow> ''Writes are temporarily disabled.''
     | SyncOperation OpSchedulerDisabled \<Rightarrow> ''Scheduled synchronization is disabled.''
     | SyncOperation _ \<Rightarrow> ''The TMO execution record changed before completion.''
     | DeadlineExceeded \<Rightarrow> ''TMO synchronization exceeded its execution deadline.''
     | UnexpectedTermination \<Rightarrow> ''TMO synchronization stopped unexpectedly.'')"

definition failure_class_of :: "sync_error \<Rightarrow> failure_class" where
  "failure_class_of e = (case e of
       MissingConnection \<Rightarrow> FConfiguration | MissingCredential \<Rightarrow> FConfiguration | SyncConfiguration _ \<Rightarrow> FConfiguration
     | SyncCredential _ \<Rightarrow> FConfiguration | SyncIntegration (IntConfiguration _) \<Rightarrow> FConfiguration
     | SyncProvider _ \<Rightarrow> FProvider | InvalidCapture _ \<Rightarrow> FProvider | SyncIntegration (IntValidation _) \<Rightarrow> FProvider
     | SyncIntegration (IntStorage _) \<Rightarrow> FStorage | SyncStorage _ \<Rightarrow> FStorage | SyncOperation _ \<Rightarrow> FCoordination
     | DeadlineExceeded \<Rightarrow> FExecution | UnexpectedTermination \<Rightarrow> FExecution)"

definition class_code :: "sync_error \<Rightarrow> string" where
  "class_code e = (case failure_class_of e of FConfiguration \<Rightarrow> ''configuration'' | FProvider \<Rightarrow> ''provider''
     | FStorage \<Rightarrow> ''storage'' | FCoordination \<Rightarrow> ''coordination'' | FExecution \<Rightarrow> ''execution'')"

definition error_http_status :: "sync_error \<Rightarrow> nat" where
  "error_http_status e = class_http_status (failure_class_of e)"

subsection \<open>The environment\<close>

record tmo_session =
  se_user :: tmo_user
  se_overview :: "provider_error + tmo_overview"
  se_portfolio :: "provider_error + tmo_loan list"
  se_detail :: "string \<Rightarrow> provider_error + tmo_detail"
  se_history :: "provider_error + tmo_payment list"

text \<open>How a future that may be dropped ends: it returns, it panics, or its deadline passes. In the last two cases the
  flag says whether its last transaction had reached the database; before that transaction it only reads. \<open>en_recovery\<close> is
  \<open>None\<close> when the recovery keeps its own deadline.\<close>

datatype fate = Returns | PanicsAfter bool | TimesOut bool

record sync_env =
  en_decrypt :: "string \<Rightarrow> string \<Rightarrow> int \<Rightarrow> string + string"
  en_login :: "tmo_credentials \<Rightarrow> provider_error + tmo_session"
  en_started :: instant
  en_captured :: instant
  en_finished :: instant
  en_marked :: instant
  en_failed :: instant
  en_recovered :: instant
  en_others :: "nat \<Rightarrow> app_db \<Rightarrow> app_db"
  en_fate :: fate
  en_recovery :: "bool option"

type_synonym 'a sync_op = "(app_db, sync_error, 'a) op"

definition others :: "sync_env \<Rightarrow> nat \<Rightarrow> unit sync_op" where
  "others E i = (\<lambda>db. (Inr (), en_others E i db))"

definition attempt :: "('s, 'e, 'a) op \<Rightarrow> ('s, 'e, 'e + 'a) op" where
  "attempt m = (\<lambda>s. case m s of (r, t) \<Rightarrow> (Inr r, t))"

definition stale_after :: int where
  "stale_after = 6 * 60 * second"

definition tmo_slug :: string where
  "tmo_slug = ''tmo''"

subsection \<open>Capture\<close>

definition load_tmo_connection :: "int sync_op" where
  "load_tmo_connection = bnd (map_err from_integration (on_ops (connection_by_slug tmo_slug))) (\<lambda>found.
     case found of None \<Rightarrow> raise MissingConnection | Some c \<Rightarrow> ok (cn_id c))"

definition tmo_credential :: "int \<Rightarrow> credential_row option sync_op" where
  "tmo_credential connection_id = gets (\<lambda>db. find (\<lambda>r. cr_connection_id r = connection_id) (ap_credentials db))"

definition provider_call :: "provider_error + 'a \<Rightarrow> sync_error + 'a" where
  "provider_call r = (case r of Inl e \<Rightarrow> Inl (SyncProvider e) | Inr a \<Rightarrow> Inr a)"

fun capture_details :: "(string \<Rightarrow> provider_error + tmo_detail) \<Rightarrow> tmo_loan list \<Rightarrow> tmo_detail list \<Rightarrow> int \<Rightarrow>
    sync_error + (tmo_detail list \<times> int)" where
  "capture_details detail [] details failures = Inr (details, failures)"
| "capture_details detail (l # ls) details failures = (case detail (tl_account l) of
       Inr d \<Rightarrow> capture_details detail ls (details @ [d]) failures
     | Inl _ \<Rightarrow> if i64_bound \<le> failures + 1 then Inl (InvalidCapture ''loan-detail failure counter overflowed'')
               else capture_details detail ls details (failures + 1))"

definition provider_capture :: "date_api \<Rightarrow> sync_env \<Rightarrow> int \<Rightarrow> credential_row \<Rightarrow> sync_error + tmo_capture" where
  "provider_capture D E connection_id cr =
     rbnd (case en_decrypt E (cr_pin_ciphertext cr) (cr_pin_nonce cr) (cr_key_version cr) of
             Inl m \<Rightarrow> Inl (SyncCredential m) | Inr pin \<Rightarrow> Inr pin) (\<lambda>pin.
     rbnd (provider_call (en_login E \<lparr>tc_company_id = cr_company_id cr, tc_account = cr_account_number cr, tc_pin = pin\<rparr>)) (\<lambda>session.
     rbnd (provider_call (se_overview session)) (\<lambda>overview.
     rbnd (provider_call (se_portfolio session)) (\<lambda>loans.
     rbnd (capture_details (se_detail session) loans [] 0) (\<lambda>(details, failures).
     rbnd (provider_call (se_history session)) (\<lambda>payments.
       Inr \<lparr>ca_connection_id = connection_id, ca_captured_at = format_utc_millis D (en_captured E),
            ca_snapshot_date = format_date D (en_captured E), ca_company_id = cr_company_id cr,
            ca_account_number = cr_account_number cr, ca_user = se_user session, ca_overview = overview, ca_loans = loans,
            ca_details = details, ca_detail_failures = failures, ca_payments = payments\<rparr>))))))"

definition capture :: "date_api \<Rightarrow> sync_env \<Rightarrow> int \<Rightarrow> tmo_capture sync_op" where
  "capture D E connection_id =
     bnd (tmo_credential connection_id) (\<lambda>found. case found of None \<Rightarrow> raise MissingCredential
       | Some cr \<Rightarrow> lift_res (provider_capture D E connection_id cr))"

subsection \<open>Recording the outcome\<close>

definition completion_of :: "tmo_capture \<Rightarrow> tmo_persistence \<Rightarrow> sync_completion" where
  "completion_of c p =
     \<lparr>sy_endpoints = Some (if ca_detail_failures c = 0 then ''overview,portfolio,loanDetail,history''
        else ''overview,portfolio,loanDetail:'' @ show_int (int (length (ca_details c))) @ ''/'' @
             show_int (int (length (ca_details c)) + ca_detail_failures c) @ '',history''),
      sy_events = pe_events_upserted p, sy_loans = pe_loans_upserted p, sy_snapshots = pe_snapshots_created p\<rparr>"

definition finish_success :: "date_api \<Rightarrow> ext \<Rightarrow> (string \<Rightarrow> bool) \<Rightarrow> tmo_ext \<Rightarrow> sync_env \<Rightarrow> sync_run \<Rightarrow> tmo_capture \<Rightarrow>
    sync_run sync_op" where
  "finish_success D X T N E run c = transaction
     (bnd (map_err from_integration (apply_tmo_sync X T N c)) (\<lambda>persistence.
        map_err SyncOperation (on_ops (complete_success T (sr_id run) (format_utc_millis D (en_finished E))
          (completion_of c persistence)))))"

definition finish_failure :: "date_api \<Rightarrow> (string \<Rightarrow> bool) \<Rightarrow> instant \<Rightarrow> instant \<Rightarrow> sync_run \<Rightarrow> int option \<Rightarrow> sync_error \<Rightarrow>
    sync_execution sync_op" where
  "finish_failure D T marked failed run connection_id failure = transaction
     (thn (case connection_id of None \<Rightarrow> ok ()
           | Some i \<Rightarrow> map_err from_integration (on_ops (mark_tmo_error T i (public_message failure) (format_utc_millis D marked))))
     (bnd (map_err SyncOperation (on_ops (complete_error T (sr_id run) (format_utc_millis D failed) (public_message failure)))) (\<lambda>failed_run.
        ok (SyncFailed failed_run (failure_class_of failure)))))"

definition execute_claimed :: "date_api \<Rightarrow> ext \<Rightarrow> (string \<Rightarrow> bool) \<Rightarrow> tmo_ext \<Rightarrow> sync_env \<Rightarrow> sync_run \<Rightarrow> sync_execution sync_op" where
  "execute_claimed D X T N E run =
     bnd (attempt load_tmo_connection) (\<lambda>loaded.
     thn (others E 2)
    (bnd (case loaded of Inl e \<Rightarrow> ok (None, Inl e)
          | Inr i \<Rightarrow> bnd (attempt (capture D E i)) (\<lambda>captured. ok (Some i, captured))) (\<lambda>(connection_id, captured).
     thn (others E 3)
    (bnd (case captured of Inl e \<Rightarrow> ok (Inl e) | Inr c \<Rightarrow> attempt (finish_success D X T N E run c)) (\<lambda>finished.
       case finished of Inr completed \<Rightarrow> ok (SyncCompleted completed)
       | Inl e \<Rightarrow> thn (others E 4) (finish_failure D T (en_marked E) (en_failed E) run connection_id e))))))"

definition recover_claim :: "date_api \<Rightarrow> (string \<Rightarrow> bool) \<Rightarrow> sync_env \<Rightarrow> sync_run \<Rightarrow> sync_error \<Rightarrow> sync_execution sync_op" where
  "recover_claim D T E run failure = thn (others E 5) (\<lambda>db.
     case finish_failure D T (en_recovered E) (en_recovered E) run None failure db of (res, db') \<Rightarrow>
       (case en_recovery E of
          None \<Rightarrow> (case res of Inr execution \<Rightarrow> (Inr execution, db') | Inl _ \<Rightarrow> (Inl failure, db'))
        | Some reached \<Rightarrow> (Inl failure, if reached then db' else db)))"

text \<open>The guarded execution and its recovery: everything after the claim.\<close>

definition run_claimed :: "date_api \<Rightarrow> ext \<Rightarrow> (string \<Rightarrow> bool) \<Rightarrow> tmo_ext \<Rightarrow> sync_env \<Rightarrow> sync_run \<Rightarrow> sync_execution sync_op" where
  "run_claimed D X T N E run = (\<lambda>db.
     case execute_claimed D X T N E run db of (res, db') \<Rightarrow>
       (case en_fate E of
          Returns \<Rightarrow> (case res of Inr execution \<Rightarrow> (Inr execution, db') | Inl e \<Rightarrow> recover_claim D T E run e db')
        | PanicsAfter reached \<Rightarrow> recover_claim D T E run UnexpectedTermination (if reached then db' else db)
        | TimesOut reached \<Rightarrow> recover_claim D T E run DeadlineExceeded (if reached then db' else db)))"

definition sync_run_tmo :: "date_api \<Rightarrow> ext \<Rightarrow> (string \<Rightarrow> bool) \<Rightarrow> tmo_ext \<Rightarrow> sync_env \<Rightarrow> sync_trigger \<Rightarrow> sync_execution sync_op" where
  "sync_run_tmo D X T N E trigger =
     (let started_at = format_utc_millis D (en_started E); stale_cutoff = format_utc_millis D (en_started E - stale_after)
      in thn (map_err SyncOperation (on_ops (interrupt_stale T tmo_slug started_at stale_cutoff)))
        (thn (others E 0)
        (bnd (map_err SyncOperation (on_ops (case trigger of ManualTrigger \<Rightarrow> claim_manual T tmo_slug started_at
               | ScheduledTrigger slot \<Rightarrow> claim_scheduled T tmo_slug slot started_at))) (\<lambda>outcome.
           case outcome of
             Claimed run \<Rightarrow> thn (others E 1) (run_claimed D X T N E run)
           | AlreadyRunning run \<Rightarrow> ok (SyncAlreadyRunning run)
           | AlreadyScheduled run \<Rightarrow> ok (SyncAlreadyScheduled run)
           | CoveredBySuccess run \<Rightarrow> ok (SyncCovered run)))))"

definition current_or_last :: "sync_run list \<Rightarrow> sync_run option" where
  "current_or_last rs = (case find (\<lambda>r. sr_status r = Running) rs of Some r \<Rightarrow> Some r
     | None \<Rightarrow> (case rs of [] \<Rightarrow> None | r # _ \<Rightarrow> Some r))"


subsection \<open>Cases of an execution\<close>

lemma others_bind [simp]: "bnd (others E i) f db = f () (en_others E i db)" "thn (others E i) m db = m (en_others E i db)"
  by (simp_all add: bnd_def thn_def others_def)

lemma attempt_apply: "bnd (attempt m) f db = (case m db of (r, t) \<Rightarrow> f r t)"
  by (simp add: bnd_def attempt_def split: prod.splits)

lemma reads_on_ops: "reads m \<Longrightarrow> reads (on_ops m)"
  unfolding on_ops_def by (rule ops_part.zoom_reads)

lemma reads_capture [intro]: "reads load_tmo_connection" "reads (capture D E i)"
proof -
  show "reads load_tmo_connection" unfolding load_tmo_connection_def
    by (rule reads_bnd [OF reads_map_err [OF reads_on_ops [OF reads_connection_by_slug]]]) (auto intro: reads_intros split: option.splits)
  show "reads (capture D E i)" unfolding capture_def tmo_credential_def
    by (rule reads_bnd [OF reads_intros(3)]) (auto intro: reads_intros split: option.splits)
qed

lemma capture_Inr: "capture D E i db = (Inr c, db') \<Longrightarrow> \<exists>cr. provider_capture D E i cr = Inr c"
  by (auto simp: capture_def op_Inr split: option.splits)

lemma finish_success_fails: "finish_success D X T N E run c db = (Inl e, db') \<Longrightarrow> db' = db"
  unfolding finish_success_def transaction_Inl by blast

lemma execute_claimed_cases:
  assumes "execute_claimed D X T N E run db = (res, db')"
  defines "A \<equiv> en_others E 3 (en_others E 2 db)"
  obtains (completed) c r i cr where "res = Inr (SyncCompleted r)" "finish_success D X T N E run c A = (Inr r, db')"
      "provider_capture D E i cr = Inr c"
    | (failed) i e where "finish_failure D T (en_marked E) (en_failed E) run i e (en_others E 4 A) = (res, db')"
proof -
  obtain loaded db0 where "load_tmo_connection db = (loaded, db0)" by (cases "load_tmo_connection db")
  moreover from this have "db0 = db" by (rule readsD [OF reads_capture(1)])
  ultimately have l: "load_tmo_connection db = (loaded, db)" by simp
  obtain cid captured where c: "bnd (case loaded of Inl e \<Rightarrow> ok (None, Inl e)
      | Inr i \<Rightarrow> bnd (attempt (capture D E i)) (\<lambda>captured. ok (Some i, captured))) f (en_others E 2 db) =
      f (cid, captured) (en_others E 2 db)" and cap: "\<And>c. captured = Inr c \<Longrightarrow> \<exists>i cr. provider_capture D E i cr = Inr c"
    for f :: "int option \<times> (sync_error + tmo_capture) \<Rightarrow> sync_execution sync_op"
  proof (cases loaded)
    case (Inl e)
    then show ?thesis by (intro that [of None "Inl e"]) simp_all
  next
    case (Inr i)
    obtain captured t where cp: "capture D E i (en_others E 2 db) = (captured, t)" by (cases "capture D E i (en_others E 2 db)")
    have "t = en_others E 2 db" by (rule readsD [OF reads_capture(2) cp])
    with Inr cp show ?thesis
      by (intro that [of "Some i" captured]) (simp add: bnd_assoc attempt_apply, use capture_Inr in blast)
  qed
  have run: "(res, db') = bnd (case captured of Inl e \<Rightarrow> ok (Inl e) | Inr c \<Rightarrow> attempt (finish_success D X T N E run c)) (\<lambda>finished.
       case finished of Inr completed \<Rightarrow> ok (SyncCompleted completed)
       | Inl e \<Rightarrow> thn (others E 4) (finish_failure D T (en_marked E) (en_failed E) run cid e)) A"
    using assms(1) unfolding execute_claimed_def by (simp add: attempt_apply l c A_def)
  show ?thesis
  proof (cases captured)
    case (Inl e)
    with run show ?thesis by (intro failed [of cid e]) simp
  next
    case (Inr c)
    obtain fin t where f: "finish_success D X T N E run c A = (fin, t)" by (cases "finish_success D X T N E run c A")
    show ?thesis
    proof (cases fin)
      case (Inl e)
      with f have "t = A" by (simp add: finish_success_fails)
      with run f Inl Inr show ?thesis by (intro failed [of cid e]) (simp add: attempt_apply)
    next
      case r: (Inr r)
      obtain i cr where "provider_capture D E i cr = Inr c" using cap [OF Inr] by blast
      with run f r Inr show ?thesis by (intro completed [of r c i cr]) (simp_all add: attempt_apply ok_def)
    qed
  qed
qed

end
