(* ===== verification/Scheduler.thy ===== *)
theory Scheduler
  imports Connections Date_Contract
begin

text \<open>
  \<open>src/scheduler.rs\<close>: the cadences of scheduled synchronisation, their deterministic UTC slots, and
  \<open>prepare_schedule\<close>, which decides in one transaction whether a connection is due and records when it is due
  next. \<open>X\<close> is SQLite's check of a timestamp text; \<open>clock_accepts\<close> says that it accepts the text of every
  instant.
\<close>

subsection \<open>Cadences and slots\<close>

datatype cadence = Hourly | Every6h | Every12h | Daily | Manual

definition default_for_tmo :: cadence where
  "default_for_tmo = Daily"

definition cadence_str :: "cadence \<Rightarrow> string" where
  "cadence_str c = (case c of Hourly \<Rightarrow> ''hourly'' | Every6h \<Rightarrow> ''every_6h'' | Every12h \<Rightarrow> ''every_12h''
     | Daily \<Rightarrow> ''daily'' | Manual \<Rightarrow> ''manual'')"

definition from_legacy_cron :: "string \<Rightarrow> cadence option" where
  "from_legacy_cron expression =
     (let fields = split_ws expression
      in if length fields \<noteq> 5 then None
         else let hour = fields ! 1
              in if drop 2 fields \<noteq> [''*'', ''*'', ''*''] then Some Daily
                 else if hour = ''*'' then Some Hourly
                 else if hour = ''*/6'' \<or> hour = ''0,6,12,18'' then Some Every6h
                 else if hour = ''*/12'' \<or> hour = ''0,12'' then Some Every12h
                 else Some Daily)"

definition parse_cadence :: "string \<Rightarrow> cadence option" where
  "parse_cadence raw =
     (let trimmed = trim raw; s = ascii_lower trimmed
      in if trimmed = [] then Some Manual
         else if s \<in> {''manual'', ''off'', ''disabled''} then Some Manual
         else if s \<in> {''hourly'', ''every_hour'', ''1h''} then Some Hourly
         else if s \<in> {''every_6h'', ''6h'', ''4x_daily'', ''every_6_hours''} then Some Every6h
         else if s \<in> {''every_12h'', ''12h'', ''2x_daily'', ''every_12_hours''} then Some Every12h
         else if s \<in> {''daily'', ''1x_daily'', ''24h'', ''every_day''} then Some Daily
         else from_legacy_cron s)"

definition cadence_period :: "cadence \<Rightarrow> int option" where
  "cadence_period c = (case c of Hourly \<Rightarrow> Some (3600 * second) | Every6h \<Rightarrow> Some (6 * 3600 * second)
     | Every12h \<Rightarrow> Some (12 * 3600 * second) | Daily \<Rightarrow> Some (86400 * second) | Manual \<Rightarrow> None)"

definition most_recent_slot :: "date_api \<Rightarrow> cadence \<Rightarrow> instant \<Rightarrow> instant option" where
  "most_recent_slot D c now =
     Option.bind (case c of Hourly \<Rightarrow> Some 1 | Every6h \<Rightarrow> Some 6 | Every12h \<Rightarrow> Some 12 | Daily \<Rightarrow> Some 24 | Manual \<Rightarrow> None)
       (\<lambda>period_hours.
          let offset_hours = (if c = Daily then 6 else 0);
              period_seconds = period_hours * 60 * 60;
              offset_seconds = offset_hours * 60 * 60;
              shifted = unix_timestamp now - offset_seconds;
              slot_seconds = shifted div period_seconds * period_seconds + offset_seconds
          in from_unix_timestamp D slot_seconds)"

definition next_slot :: "date_api \<Rightarrow> cadence \<Rightarrow> instant \<Rightarrow> instant option" where
  "next_slot D c now = Option.bind (cadence_period c) (\<lambda>period.
     Option.bind (most_recent_slot D c now) (\<lambda>slot. checked_add D slot period))"

subsection \<open>Preparing a schedule\<close>

datatype preparation = NotConfigured | ManualOnly | Due string string

datatype sched_error = InvalidCadence | SchedOperation op_error | SchedStorage int_error | SchedFailure string

definition record_schedule :: "date_api \<Rightarrow> (string \<Rightarrow> bool) \<Rightarrow> string \<Rightarrow> instant \<Rightarrow>
    conn_row option \<Rightarrow> (op_db, sched_error, (cadence option \<times> string option) option) op" where
  "record_schedule D X slug now integration = (case integration of None \<Rightarrow> ok None
     | Some c \<Rightarrow>
         let cadence = parse_cadence (cn_cadence c);
             next_text = map_option (format_utc_millis D) (Option.bind cadence (\<lambda>cad. next_slot D cad now))
         in thn (map_err SchedStorage (set_next_scheduled_at X slug next_text (format_utc_millis D now)))
              (ok (Some (cadence, next_text))))"

definition preparation_of :: "date_api \<Rightarrow> instant \<Rightarrow> (cadence option \<times> string option) option \<Rightarrow>
    (op_db, sched_error, preparation) op" where
  "preparation_of D now prepared = (case prepared of
       None \<Rightarrow> ok NotConfigured
     | Some (None, _) \<Rightarrow> raise InvalidCadence
     | Some (Some cad, next_text) \<Rightarrow>
         if cad = Manual then ok ManualOnly
         else bnd (some_or (SchedFailure ''could not calculate the current UTC slot'')
                     (map_option (format_utc_millis D) (most_recent_slot D cad now))) (\<lambda>scheduled_for.
              bnd (some_or (SchedFailure ''could not calculate the next UTC slot'') next_text) (\<lambda>next_at.
                ok (Due scheduled_for next_at))))"

definition prepare_schedule :: "date_api \<Rightarrow> (string \<Rightarrow> bool) \<Rightarrow> string \<Rightarrow> instant \<Rightarrow>
    (op_db, sched_error, preparation) op" where
  "prepare_schedule D X slug now =
     bnd (transaction
       (bnd (map_err SchedOperation require_scheduler_enabled) (\<lambda>_.
        bnd (map_err SchedStorage (connection_by_slug slug)) (record_schedule D X slug now))))
     (preparation_of D now)"

subsection \<open>Slots\<close>

definition slot_period :: "cadence \<Rightarrow> int" where
  "slot_period c = (case cadence_period c of None \<Rightarrow> 0 | Some p \<Rightarrow> p)"

definition slot_offset :: "cadence \<Rightarrow> int" where
  "slot_offset c = (if c = Daily then 6 * 3600 * second else 0)"

lemma slot_period_pos: "c \<noteq> Manual \<Longrightarrow> 0 < slot_period c"
  by (cases c) (simp_all add: slot_period_def cadence_period_def second_def)

lemma floor_floor:
  assumes "0 < (k::int)" "0 < p"
  shows "(t div k - a) div p * (p * k) + a * k = (t - a * k) div (p * k) * (p * k) + a * k"
proof -
  have "t div k - a = (t - a * k) div k" using div_mult_self1 [of k t "- a"] assms(1) by simp
  then show ?thesis using assms by (simp add: zdiv_zmult2_eq [of p] mult.commute [of p k])
qed

definition slot_start :: "cadence \<Rightarrow> instant \<Rightarrow> instant" where
  "slot_start c now = (now - slot_offset c) div slot_period c * slot_period c + slot_offset c"

lemma slot_eq:
  assumes "c \<noteq> Manual"
  shows "most_recent_slot D c now = (if representable D (slot_start c now) then Some (slot_start c now) else None)"
proof -
  obtain h :: int where h: "0 < h" "slot_period c = h * 3600 * second"
    "(case c of Hourly \<Rightarrow> Some 1 | Every6h \<Rightarrow> Some 6 | Every12h \<Rightarrow> Some 12 | Daily \<Rightarrow> Some 24 | Manual \<Rightarrow> None) = Some h"
    using assms by (cases c) (simp_all add: slot_period_def cadence_period_def second_def)
  define a :: int where "a = (if c = Daily then 6 * 3600 else 0)"
  have off: "slot_offset c = a * second" by (simp add: a_def slot_offset_def)
  have "((now div second - a) div (h * 3600) * (h * 3600) + a) * second = slot_start c now"
    using floor_floor [of second "h * 3600" now a] h(1)
    by (simp add: slot_start_def h(2) off distrib_right mult.assoc second_def)
  moreover have "most_recent_slot D c now =
      from_unix_timestamp D ((now div second - a) div (h * 3600) * (h * 3600) + a)"
    unfolding most_recent_slot_def h(3) Option.bind.simps Let_def unix_timestamp_def a_def
    by (simp add: mult.assoc)
  ultimately show ?thesis by (simp only: from_unix_timestamp_def)
qed

lemma slot_start_bounds:
  assumes "c \<noteq> Manual"
  shows "slot_start c now \<le> now" "now < slot_start c now + slot_period c"
proof -
  note p = slot_period_pos [OF assms]
  have "now - slot_offset c = (now - slot_offset c) div slot_period c * slot_period c + (now - slot_offset c) mod slot_period c"
    by simp
  moreover have "0 \<le> (now - slot_offset c) mod slot_period c" "(now - slot_offset c) mod slot_period c < slot_period c"
    using p by simp_all
  ultimately show "slot_start c now \<le> now" "now < slot_start c now + slot_period c"
    unfolding slot_start_def by linarith+
qed

lemma slot_start_grid: "slot_period c dvd slot_start c now - slot_offset c"
  by (simp add: slot_start_def)

lemma slot_start_unique:
  assumes c: "c \<noteq> Manual" and s: "slot_period c dvd s - slot_offset c" "s \<le> now" "now < s + slot_period c"
  shows "slot_start c now = s"
proof -
  obtain q where q: "s - slot_offset c = slot_period c * q" using s(1) by blast
  have "(now - slot_offset c) div slot_period c = q"
    using q s(2,3) by (intro int_div_pos_eq [where r = "now - s"]) auto
  with q show ?thesis by (simp add: slot_start_def algebra_simps)
qed

text \<open>C37: The slots of a cadence. Whenever \<open>most_recent_slot\<close> returns a slot, it lies on the cadence's grid (full
  periods since the epoch, shifted to 06:00 UTC for the daily cadence), is not after \<open>now\<close>, and the next
  grid point is after \<open>now\<close>; \<open>next_slot\<close> is exactly that next point. Every instant of the same period
  has the same slot, so a trigger that is delivered again within the period claims the same slot.\<close>

theorem slots_of_cadence:
  assumes "most_recent_slot D c now = Some s"
  shows "slot_period c dvd s - slot_offset c \<and> s \<le> now \<and> now < s + slot_period c \<and>
    next_slot D c now = checked_add D s (slot_period c) \<and>
    (\<forall>later. s \<le> later \<and> later < s + slot_period c \<longrightarrow> most_recent_slot D c later = Some s)"
proof -
  have c: "c \<noteq> Manual" using assms by (cases c) (simp_all add: most_recent_slot_def)
  have s: "s = slot_start c now" "representable D s" using assms by (simp_all add: slot_eq [OF c] split: if_splits)
  obtain p where p: "cadence_period c = Some p" "slot_period c = p"
    using c by (cases c) (simp_all add: cadence_period_def slot_period_def)
  have "most_recent_slot D c later = Some s" if "s \<le> later" "later < s + slot_period c" for later
    using slot_start_unique [OF c _ that] slot_start_grid [of c now] s by (simp add: slot_eq [OF c])
  moreover have "next_slot D c now = checked_add D s (slot_period c)" using assms p by (simp add: next_slot_def)
  ultimately show ?thesis using slot_start_bounds [OF c, of now] slot_start_grid [of c now] s(1) by simp
qed

subsection \<open>Preparing a schedule\<close>

definition clock_accepts :: "date_api \<Rightarrow> (string \<Rightarrow> bool) \<Rightarrow> bool" where
  "clock_accepts D X \<longleftrightarrow> (\<forall>t. writable D t \<longrightarrow> X (format_utc_millis D t))"

lemma utc_check_format:
  assumes "time_date D" "clock_accepts D X" "writable D t"
  shows "utc_check X (format_utc_millis D t)"
  using assms time_date.length_format [OF assms(1,3)] by (simp add: clock_accepts_def utc_check_def)

lemma writable_representable: "writable D t \<Longrightarrow> representable D t"
  by (simp add: writable_def storable_def representable_def)

definition scheduled_connection :: "string \<Rightarrow> string option \<Rightarrow> string \<Rightarrow> op_db \<Rightarrow> op_db" where
  "scheduled_connection slug next now db =
     db\<lparr>op_connections := update_rows (\<lambda>c. cn_slug c = slug) (next_slot_update next now) (op_connections db)\<rparr>"

lemma prepare_due:
  assumes D: "time_date D" and X: "clock_accepts D X" and v: "op_valid X db" and on: "scheduler_on db"
    and c: "c \<in> set (op_connections db)" "cn_slug c = slug" "trim slug \<noteq> []"
    and cad: "parse_cadence (cn_cadence c) = Some cad" "cad \<noteq> Manual"
    and w: "writable D now" "writable D (slot_start cad now)" "writable D (slot_start cad now + slot_period cad)"
  shows "prepare_schedule D X slug now db =
    (Inr (Due (format_utc_millis D (slot_start cad now)) (format_utc_millis D (slot_start cad now + slot_period cad))),
     scheduled_connection slug (Some (format_utc_millis D (slot_start cad now + slot_period cad))) (format_utc_millis D now) db)"
proof -
  let ?next = "Some (format_utc_millis D (slot_start cad now + slot_period cad))"
  have slot: "most_recent_slot D cad now = Some (slot_start cad now)"
    using w(2) by (simp add: slot_eq [OF cad(2)] writable_representable)
  have nxt: "next_slot D cad now = Some (slot_start cad now + slot_period cad)"
    using slots_of_cadence [OF slot] w(3) by (simp add: checked_add_def writable_representable)
  obtain control where g: "require_scheduler_enabled db = (Inr control, db)"
    by (rule require_scheduler_result [OF v on])
  have set: "set_next_scheduled_at X slug ?next (format_utc_millis D now) db =
      (Inr (), scheduled_connection slug ?next (format_utc_millis D now) db)"
    unfolding scheduled_connection_def
    by (rule set_next_scheduled_at_ok [OF v c]) (simp_all add: utc_check_format [OF D X] w)
  have "record_schedule D X slug now (Some c) db = (Inr (Some (Some cad, ?next)),
      scheduled_connection slug ?next (format_utc_millis D now) db)"
    by (simp add: record_schedule_def Let_def cad nxt set thn_def bnd_def map_err_def ok_def)
  then have "transaction (bnd (map_err SchedOperation require_scheduler_enabled) (\<lambda>_.
        bnd (map_err SchedStorage (connection_by_slug slug)) (record_schedule D X slug now))) db =
      (Inr (Some (Some cad, ?next)), scheduled_connection slug ?next (format_utc_millis D now) db)"
    by (simp add: transaction_def bnd_def map_err_def g connection_by_slug_def gets_def find_slug [OF v c(1,2)])
  then show ?thesis unfolding prepare_schedule_def
    by (rule bnd_eqI) (simp add: preparation_of_def cad(2) slot some_or_def, simp add: ok_def)
qed

text \<open>The statement below needs the timestamps to the millisecond; slots are whole seconds.\<close>

lemma ms_before:
  assumes "millisecond dvd t" "now < t"
  shows "now div millisecond < t div millisecond"
proof -
  obtain k where k: "t = 1000000 * k" using assms(1) by (auto simp: millisecond_def)
  have "now div 1000000 < k" using assms(2) unfolding k by presburger
  then show ?thesis by (simp add: k millisecond_def)
qed

lemma slot_whole_ms: "c \<noteq> Manual \<Longrightarrow> millisecond dvd slot_start c now"
  "c \<noteq> Manual \<Longrightarrow> millisecond dvd slot_start c now + slot_period c"
proof -
  assume c: "c \<noteq> Manual"
  then have p: "millisecond dvd slot_period c" "millisecond dvd slot_offset c"
    by (cases c; simp add: slot_period_def cadence_period_def second_def millisecond_def slot_offset_def)+
  then show "millisecond dvd slot_start c now"
    unfolding slot_start_def by (intro dvd_add dvd_mult) auto
  with p(1) show "millisecond dvd slot_start c now + slot_period c" by simp
qed

text \<open>While the scheduler is enabled and the connection has an automatic cadence, \<open>prepare_schedule\<close> returns \<open>Due\<close>
  with the text of the current slot and of the next one, and stores the next one in the connection's row (its
  \<open>updated_at\<close> changes only when the value does); nothing else changes. The texts are timestamps that the claim
  accepts, in the order slot, now, next. A later call within the same period returns the same slot, so
  that the durable claim can recognise a redelivery.\<close>

theorem prepare_schedule_spec:
  assumes "time_date D" "clock_accepts D X" "op_valid X db" "scheduler_on db"
    and "c \<in> set (op_connections db)" "cn_slug c = slug" "trim slug \<noteq> []"
    and "parse_cadence (cn_cadence c) = Some cad" "cad \<noteq> Manual"
    and "writable D now" "writable D later" "slot_start cad now \<le> later" "later < slot_start cad now + slot_period cad"
    and "writable D (slot_start cad now)" "writable D (slot_start cad now + slot_period cad)"
  shows "\<exists>slot next. prepare_schedule D X slug now db =
      (Inr (Due slot next), scheduled_connection slug (Some next) (format_utc_millis D now) db) \<and>
    require_timestamp label slot = Inr () \<and> require_timestamp label next = Inr () \<and>
    slot \<le> format_utc_millis D now \<and> format_utc_millis D now < next \<and>
    prepare_schedule D X slug later db =
      (Inr (Due slot next), scheduled_connection slug (Some next) (format_utc_millis D later) db)"
proof -
  let ?s = "slot_start cad now" and ?n = "slot_start cad now + slot_period cad"
  have later: "slot_start cad later = ?s"
    by (rule slot_start_unique [OF assms(9) slot_start_grid assms(12,13)])
  note b = slot_start_bounds [OF assms(9), of now]
  have "?s div millisecond \<le> now div millisecond" using b(1) by (simp add: zdiv_mono1 millisecond_def)
  then have le: "format_utc_millis D ?s \<le> format_utc_millis D now"
    using time_date.format_le [OF assms(1,14,10)] by simp
  have lt: "format_utc_millis D now < format_utc_millis D ?n"
    using time_date.format_less [OF assms(1,10,15)] ms_before [OF slot_whole_ms(2) [OF assms(9)] b(2)] by simp
  note ts = time_date.format_timestamp [OF assms(1,14)] time_date.format_timestamp [OF assms(1,15)]
  have "prepare_schedule D X slug now db = (Inr (Due (format_utc_millis D ?s) (format_utc_millis D ?n)),
      scheduled_connection slug (Some (format_utc_millis D ?n)) (format_utc_millis D now) db)"
    by (rule prepare_due [OF assms(1-10,14,15)])
  moreover have "prepare_schedule D X slug later db = (Inr (Due (format_utc_millis D ?s) (format_utc_millis D ?n)),
      scheduled_connection slug (Some (format_utc_millis D ?n)) (format_utc_millis D later) db)"
    using prepare_due [OF assms(1-9,11), unfolded later, OF assms(14,15)] by simp
  ultimately show ?thesis using ts le lt by blast
qed

text \<open>The name that \<open>as_str\<close> writes for a cadence is read back by \<open>parse\<close> as that cadence.\<close>

lemma cadence_texts:
  "trim ''hourly'' = ''hourly''" "trim ''every_6h'' = ''every_6h''" "trim ''every_12h'' = ''every_12h''"
  "trim ''daily'' = ''daily''" "trim ''manual'' = ''manual''"
  "ascii_lower ''hourly'' = ''hourly''" "ascii_lower ''every_6h'' = ''every_6h''" "ascii_lower ''every_12h'' = ''every_12h''"
  "ascii_lower ''daily'' = ''daily''" "ascii_lower ''manual'' = ''manual''"
  by code_simp+

lemma cadence_roundtrip: "parse_cadence (cadence_str c) = Some c"
  by (cases c) (simp_all add: parse_cadence_def cadence_str_def cadence_texts Let_def)

subsection \<open>A sample instant\<close>

text \<open>2026-07-14, 13:00 and 14:00 UTC; the daily slot began at 06:00.\<close>

definition one_pm :: instant where "one_pm = 1784034000000000000"

definition two_pm :: instant where "two_pm = 1784037600000000000"

lemma sample_slot_start: "slot_start Daily one_pm = 1784008800000000000" "slot_period Daily = 86400000000000"
  by (simp_all add: slot_start_def slot_offset_def slot_period_def cadence_period_def one_pm_def second_def)

lemma sample_writable:
  "writable gregorian one_pm" "writable gregorian two_pm" "writable gregorian 1784008800000000000"
  "writable gregorian 1784095200000000000"
  by code_simp+

theorem slots_of_cadence_witness: "most_recent_slot gregorian Daily two_pm = Some 1784008800000000000"
proof -
  have "most_recent_slot gregorian Daily one_pm = Some 1784008800000000000"
    by (simp add: slot_eq sample_slot_start writable_representable [OF sample_writable(3)])
  from slots_of_cadence [OF this] show ?thesis by (simp add: sample_slot_start two_pm_def)
qed

theorem prepare_schedule_spec_witness:
  "\<exists>slot next. prepare_schedule gregorian any_time ''tmo'' one_pm op_sample =
    (Inr (Due slot next), scheduled_connection ''tmo'' (Some next) (format_utc_millis gregorian one_pm) op_sample)"
proof -
  have x: "clock_accepts gregorian any_time" by (simp add: clock_accepts_def any_time_def)
  have c: "sample_connection 1 ''tmo'' \<in> set (op_connections op_sample)" "cn_slug (sample_connection 1 ''tmo'') = ''tmo''"
    by (simp_all add: op_sample_def sample_connection_def)
  have t: "trim ''tmo'' \<noteq> []" by code_simp
  have cad: "parse_cadence (cn_cadence (sample_connection 1 ''tmo'')) = Some Daily"
    using cadence_roundtrip [of Daily] by (simp add: sample_connection_def cadence_str_def)
  have "slot_start Daily one_pm \<le> two_pm" "two_pm < slot_start Daily one_pm + slot_period Daily"
    "writable gregorian (slot_start Daily one_pm)" "writable gregorian (slot_start Daily one_pm + slot_period Daily)"
    using sample_writable by (simp_all add: sample_slot_start two_pm_def)
  from prepare_schedule_spec [OF greg.time_date_axioms x op_sample_valid op_sample_facts(2) c t cad _ sample_writable(1,2) this]
  show ?thesis by blast
qed

end
