(* ===== verification/Tmo_Contract.thy ===== *)
theory Tmo_Contract
  imports Tmo_Capture Refresh_Total
begin

text \<open>
  The contract of the TMO import, and a concrete import: one loan and one payment into a database with a trust
  stream and empty staging tables.
\<close>

text \<open>C2: A successful import mirrors its capture. Every captured payment has one staged payment with its values and a
  linked \<open>tmo_history\<close> event on the trust stream: received on the check date when it carries a check number, confirmed
  otherwise. The connection has no other payments, the stream no other history events. The active loans are the captured
  ones, with their balances and rates. The overview and portfolio snapshot of the day are stored and the connection is
  marked synchronised, degraded when a loan detail failed.\<close>

theorem import_mirrors_capture:
  assumes "apply_tmo_sync X T N c db = (Inr out, db')" "app_ids db" "links_match db"
  shows "(\<exists>s \<in> set (streams (ap_fin db)). is_trust_stream s \<and> payments_mirror N c (st_id s) db') \<and>
    loans_mirror c db' \<and> capture_recorded N c db' \<and>
    pe_events_upserted out = int (length (ca_payments c)) \<and> pe_loans_upserted out = int (length (ca_loans c))"
  using apply_tmo_sync_effect [OF assms] by simp

text \<open>C39: A successful import touches nothing else and keeps the invariants: run records, settings and credentials, the
  staged payments and loans of other connections, accounts, streams, schedules and views, and every event that is neither
  \<open>tmo_history\<close> nor a legacy projection stay as they are; the constraints, the ids below their sequences and the
  agreement of payment links with the events they point to hold afterwards.\<close>

theorem import_keeps_the_rest:
  assumes "apply_tmo_sync X T N c db = (Inr out, db')" "app_ids db" "links_match db"
  shows "untouched c db db' \<and> app_valid X T db' \<and> app_ids db' \<and> links_match db'"
  using apply_tmo_sync_effect [OF assms] by simp

subsection \<open>A concrete import\<close>

definition sample_tmo :: tmo_ext where
  "sample_tmo = \<lparr>naive_date = (\<lambda>s. length s = 10), json_overview = (\<lambda>_. ''{}''), json_loan = (\<lambda>_. ''{}''),
     json_detail = (\<lambda>_. ''{}''), json_payment = (\<lambda>_. ''{}'')\<rparr>"

definition trust_stream :: stream_row where
  "trust_stream = rent_stream\<lparr>st_id := 2, st_name := ''Trust'', st_type := ''mortgage_portfolio'', st_kind := ''tmo_trust'', st_direction := ''in''\<rparr>"

definition trust_fin :: fin_db where
  "trust_fin = sample_db\<lparr>streams := [rent_stream, trust_stream], stream_seq := 2\<rparr>"

definition trust_db :: app_db where
  "trust_db = \<lparr>ap_fin = trust_fin, ap_ops = op_sample, ap_settings = [], ap_tmo_account = None, ap_overviews = [],
     ap_snapshots = [], ap_loans = [], ap_payments = [], ap_payment_seq = 0, ap_links = [], ap_credentials = []\<rparr>"

definition sample_loan :: tmo_loan where
  "sample_loan = \<lparr>tl_account = ''L1'', tl_borrower_name = ''Ann'', tl_street = [], tl_city = [], tl_state = [], tl_zip = [],
     tl_percent_owned = f64_small 100, tl_interest_rate = f64_small 8, tl_maturity_date = ''2026-02-28'', tl_term_left = 1,
     tl_next_payment_date = ''2026-02-28'', tl_interest_paid_to = ''2026-01-01'', tl_billed_through = None,
     tl_regular_payment = f64_small 25, tl_balance = f64_small 1000, tl_is_delinquent = False\<rparr>"

definition sample_payment :: tmo_payment where
  "sample_payment = \<lparr>tp_check_number = ''17'', tp_loan_account = ''L1'', tp_check_date = ''2026-01-10'', tp_amount = f64_small 0,
     tp_service_fee = f64_small 0, tp_interest = f64_small 0, tp_principal = f64_small 0, tp_charges = f64_small 0,
     tp_late_charges = f64_small 0, tp_other = f64_small 0, tp_borrower_name = ''Ann'', tp_property_name = ''Oak''\<rparr>"

definition sample_capture :: tmo_capture where
  "sample_capture = \<lparr>ca_connection_id = 1, ca_captured_at = op_now, ca_snapshot_date = ''2026-02-28'', ca_company_id = ''co'',
     ca_account_number = ''7'', ca_user = \<lparr>tu_source_rec_id = ''r'', tu_company_id = ''co'', tu_account = ''7'', tu_name = ''Ann'', tu_email = ''a''\<rparr>,
     ca_overview = \<lparr>to_portfolio_value = f64_small 1000, to_portfolio_yield = f64_small 8, to_ytd_interest = f64_small 0,
        to_ytd_principal = f64_small 0, to_portfolio_count = 1, to_trust_balance = f64_small 0, to_outstanding_checks = f64_small 0,
        to_service_fees = f64_small 0\<rparr>,
     ca_loans = [sample_loan], ca_details = [], ca_detail_failures = 1, ca_payments = [sample_payment]\<rparr>"

lemma sample_dates_required:
  "required_date sample_tmo l ''2026-02-28'' = Inr ''2026-02-28''" "required_date sample_tmo l ''2026-01-10'' = Inr ''2026-01-10''"
  "required_date sample_tmo l ''2026-01-01'' = Inr ''2026-01-01''"
proof -
  have t: "trim (case split_on (CHR ''T'') ''2026-02-28'' of [] \<Rightarrow> ''2026-02-28'' | s # _ \<Rightarrow> s) = ''2026-02-28''"
    "trim (case split_on (CHR ''T'') ''2026-01-10'' of [] \<Rightarrow> ''2026-01-10'' | s # _ \<Rightarrow> s) = ''2026-01-10''"
    "trim (case split_on (CHR ''T'') ''2026-01-01'' of [] \<Rightarrow> ''2026-01-01'' | s # _ \<Rightarrow> s) = ''2026-01-01''"
    by code_simp+
  show "required_date sample_tmo l ''2026-02-28'' = Inr ''2026-02-28''" "required_date sample_tmo l ''2026-01-10'' = Inr ''2026-01-10''"
    "required_date sample_tmo l ''2026-01-01'' = Inr ''2026-01-01''"
    unfolding required_date_def Let_def t by (simp_all add: sample_tmo_def)
qed

lemma sample_payment_id: "payment_external_id sample_payment ''2026-01-10'' = Inr ''history:L1:2026-01-10:0''"
proof -
  have "f64_times_100 (f64_small 0) = Fin False 0"
    using f64_round_exact [of 0 0 False] by (simp add: f64_times_100_def f64_small_def on_grid_def)
  moreover have "round_to_i64 (Fin False 0) = 0" by (simp add: round_to_i64_def i64_bound_def)
  moreover have "''history:'' @ ''L1'' @ '':'' @ ''2026-01-10'' @ '':'' @ show_int 0 = ''history:L1:2026-01-10:0''" by code_simp
  ultimately show ?thesis by (simp add: payment_external_id_def sample_payment_def i64_bound_def f64_units_def is_finite_def Let_def)
qed

lemma sample_validated: "validate_tmo_capture sample_tmo sample_capture = Inr ()"
proof -
  have t: "trim ''co'' = ''co''" "trim ''7'' = ''7''" "trim ''L1'' = ''L1''" by code_simp+
  have "check_loans [] [sample_loan] = Inr [''L1'']"
    by (simp add: sample_loan_def t require_finite_def f64_small_def is_finite_def)
  moreover have "check_payments sample_tmo [] [sample_payment] = Inr ()"
    using sample_payment_id by (simp add: sample_payment_def t require_finite_def f64_small_def is_finite_def sample_dates_required)
  ultimately show ?thesis
    by (simp add: validate_tmo_capture_def sample_capture_def t sample_dates_required require_finite_def f64_small_def is_finite_def)
qed


text \<open>The states of the import differ in which rows have been written; they are all valid.\<close>

definition sample_history :: event_row where
  "sample_history = new_history_event sample_capture 2 sample_payment ''2026-01-10'' ''history:L1:2026-01-10:0'' 3"

definition sample_staged :: payment_row where
  "sample_staged = new_payment sample_tmo sample_capture sample_payment ''2026-01-10'' ''history:L1:2026-01-10:0'' 1"

definition sample_loan_row :: loan_row where
  "sample_loan_row = summary_update sample_tmo sample_capture 2 sample_loan ''2026-02-28'' ''2026-02-28'' ''2026-01-01'' None
     (empty_loan sample_capture ''L1'')"

definition trust_state :: "conn_row \<Rightarrow> tmo_account_row option \<Rightarrow> overview_row list \<Rightarrow> snapshot_row list \<Rightarrow> loan_row list \<Rightarrow>
    payment_row list \<Rightarrow> event_row list \<Rightarrow> (int \<times> int) list \<Rightarrow> app_db" where
  "trust_state cn acct ovs sns ls ps es links =
     trust_db\<lparr>ap_ops := op_sample\<lparr>op_connections := [cn, sample_connection 2 ''monarch'']\<rparr>, ap_tmo_account := acct, ap_overviews := ovs,
       ap_snapshots := sns, ap_loans := ls, ap_payments := ps, ap_payment_seq := int (length ps),
       ap_fin := trust_fin\<lparr>events := [manual_event, slot_event] @ es, event_seq := 2 + int (length es)\<rparr>, ap_links := links\<rparr>"

lemma trust_initial: "trust_db = trust_state (sample_connection 1 ''tmo'') None [] [] [] [] [] []"
  by (simp add: trust_state_def trust_db_def trust_fin_def sample_db_def op_sample_def)

lemma real_check_small: "a < 1000000 \<Longrightarrow> real_check (f64_small a)"
  by (simp add: real_check_def f64_small_checks)

lemma now_utc: "utc_check any_time op_now"
  by code_simp

lemma sample_checks:
  "overview_check sample_ext any_time {1, 2} (new_overview sample_tmo sample_capture)"
  "snapshot_check any_time (new_snapshot sample_capture)"
  "loan_check sample_ext any_time {1, 2} {1, 2} sample_loan_row"
  "payment_check sample_ext any_time {1, 2} sample_staged"
  "event_check sample_ext {1} {1, 2} sample_history"
  "conn_check any_time (sync_connection sample_capture (sample_connection 1 ''tmo''))"
proof -
  have n: "normalize_check_number ''17'' = Some ''17''" by code_simp
  show "overview_check sample_ext any_time {1, 2} (new_overview sample_tmo sample_capture)" "snapshot_check any_time (new_snapshot sample_capture)"
    by (simp_all add: overview_check_def snapshot_check_def new_overview_def new_snapshot_def sample_capture_def real_check_small
        sample_globs now_utc sample_ext_def sample_tmo_def)
  show "loan_check sample_ext any_time {1, 2} {1, 2} sample_loan_row" "payment_check sample_ext any_time {1, 2} sample_staged"
    by (simp_all add: loan_check_def payment_check_def sample_loan_row_def sample_staged_def summary_update_def empty_loan_def
        new_payment_def sample_capture_def sample_loan_def sample_payment_def real_check_small sample_globs now_utc sample_ext_def sample_tmo_def)
  have "f64_abs (f64_small 0) = f64_small 0" by (simp add: f64_small_def)
  then show "event_check sample_ext {1} {1, 2} sample_history"
    by (simp add: event_check_def sample_history_def new_history_event_def event_values_def sample_payment_def n f64_small_checks
        sample_globs Let_def)
  show "conn_check any_time (sync_connection sample_capture (sample_connection 1 ''tmo''))"
    by (simp add: conn_check_def sync_connection_def sample_connection_def sample_capture_def now_utc)
qed


lemma distinct_short: "length xs \<le> 1 \<Longrightarrow> distinct (map g xs)"
  by (cases xs) auto

lemma trust_valid:
  assumes "cn \<in> {sample_connection 1 ''tmo'', sync_connection sample_capture (sample_connection 1 ''tmo'')}"
    "pred_option (\<lambda>a. ta_updated_at a = op_now \<and> ta_last_login_at a = Some op_now) acct"
    "set ovs \<subseteq> {new_overview sample_tmo sample_capture}" "set sns \<subseteq> {new_snapshot sample_capture}" "set ls \<subseteq> {sample_loan_row}"
    "set ps \<subseteq> {sample_staged}" "set es \<subseteq> {sample_history}" "links = [] \<or> links = [(1, 3)] \<and> ps \<noteq> [] \<and> es \<noteq> []"
    "length ovs \<le> 1" "length sns \<le> 1" "length ls \<le> 1" "length ps \<le> 1" "length es \<le> 1"
  shows "app_valid sample_ext any_time (trust_state cn acct ovs sns ls ps es links)"
proof -
  let ?f = "trust_fin\<lparr>events := [manual_event, slot_event] @ es, event_seq := 2 + int (length es)\<rparr>"
  let ?o = "op_sample\<lparr>op_connections := [cn, sample_connection 2 ''monarch'']\<rparr>"
  have short: "xs = [] \<or> xs = [x]" if "set xs \<subseteq> {x}" "length xs \<le> 1" for xs and x :: 'a
    using that by (cases xs) (auto simp: length_Suc_conv)
  have ids: "cn_id cn = 1" "cn_slug cn = ''tmo''" "conn_check any_time cn"
    using assms(1) sample_checks(6) op_sample_valid by (auto simp: sync_connection_def sample_connection_def op_valid_def op_sample_def)
  have "op_valid any_time op_sample" by (rule op_sample_valid)
  then have o: "op_valid any_time ?o" using ids by (simp add: op_valid_def op_sample_def) (simp add: sample_connection_def)
  have key: "event_key sample_history = Some (2, ''tmo_history'', ''history:L1:2026-01-10:0'')" "ev_id sample_history = 3"
    by (simp_all add: sample_history_def new_history_event_def event_values_def event_key_def Let_def)
  have old_keys: "event_key manual_event = Some (1, ''manual'', ''manual:1'')"
    "event_key slot_event = Some (1, ''stream_schedule'', ''stream_schedule:1:monthly:2026-02'')"
    by (simp_all add: event_key_def manual_event_def slot_event_def)
  have "sql_nonblank ''Trust'' \<and> sql_nonblank ''mortgage_portfolio'' \<and> sql_nonblank ''tmo_trust''" by code_simp
  then have t: "db_valid sample_ext trust_fin"
    by (simp add: db_valid_def trust_fin_def sample_db_def sample_rows trust_stream_def account_check_def stream_check_def
      schedule_check_def event_check_def sample_globs sample_nonblank f64_small_checks primary_ok_def
      default_ok_def events_unique_def event_key_def map_filter_simps)
  have ids_t: "map ac_id (accounts trust_fin) = [1]" "map st_id (streams trust_fin) = [1, 2]" "events trust_fin = [manual_event, slot_event]"
    by (simp_all add: trust_fin_def sample_db_def cash_account_def rent_stream_def trust_stream_def)
  have old: "list_all (event_check sample_ext {1} {1, 2}) [manual_event, slot_event]"
    using db_valid_eventsD(2) [OF t] by (simp add: ids_t)
  have f: "db_valid sample_ext ?f"
  proof (rule db_valid_events(2) [OF t])
    show "events_unique ([manual_event, slot_event] @ es)"
      using short [OF assms(7,13)] key
      by (elim disjE) (simp_all add: events_unique_def map_filter_simps old_keys)
    show "list_all (event_check sample_ext (set (map ac_id (accounts trust_fin))) (set (map st_id (streams trust_fin)))) ([manual_event, slot_event] @ es)"
      using short [OF assms(7,13)] old sample_checks(5) unfolding ids_t by (elim disjE) simp_all
  qed
  have "opt_all (\<lambda>a. opt_all (utc_check any_time) (ta_last_login_at a) \<and> utc_check any_time (ta_updated_at a)) acct"
    using assms(2) now_utc by (cases acct) auto
  moreover have "links_check links (set (map py_id ps)) (set (map ev_id ([manual_event, slot_event] @ es)))"
    using short [OF assms(6,12)] short [OF assms(7,13)] assms(8)
    by (auto simp: links_check_def key sample_staged_def new_payment_def)
  moreover have "list_all (overview_check sample_ext any_time {1, 2}) ovs" "list_all (snapshot_check any_time) sns"
    "list_all (loan_check sample_ext any_time {1, 2} {1, 2}) ls" "list_all (payment_check sample_ext any_time {1, 2}) ps"
    using assms(3-6) sample_checks(1-4) by (auto simp: list_all_iff)
  moreover have "set (map cn_id (op_connections ?o)) = {1, 2}" "set (map st_id (streams ?f)) = {1, 2}"
    using ids ids_t by (simp_all add: sample_connection_def)
  ultimately show ?thesis
    using o f assms(9-12) unfolding app_valid_def Let_def trust_state_def trust_db_def by (simp add: distinct_short)
qed


lemma app_write_ok: "f db = (a, db') \<Longrightarrow> app_valid X T db' \<Longrightarrow> app_write X T ctx f db = (Inr a, db')"
  by (simp add: app_write_Inr)

definition synced :: conn_row where
  "synced = sync_connection sample_capture (sample_connection 1 ''tmo'')"

definition sample_account_row :: tmo_account_row where
  "sample_account_row = \<lparr>ta_company_id = ''co'', ta_account_number = ''7'', ta_source_rec_id = Some ''r'', ta_display_name = Some ''Ann'',
     ta_email = Some ''a'', ta_last_login_at = Some op_now, ta_updated_at = op_now\<rparr>"

abbreviation synced_state :: "loan_row list \<Rightarrow> payment_row list \<Rightarrow> event_row list \<Rightarrow> (int \<times> int) list \<Rightarrow> app_db" where
  "synced_state ls ps es links \<equiv> trust_state synced (Some sample_account_row) [new_overview sample_tmo sample_capture]
     [new_snapshot sample_capture] ls ps es links"

lemma synced_valid:
  "set ls \<subseteq> {sample_loan_row} \<Longrightarrow> set ps \<subseteq> {sample_staged} \<Longrightarrow> set es \<subseteq> {sample_history} \<Longrightarrow>
   links = [] \<or> links = [(1, 3)] \<and> ps \<noteq> [] \<and> es \<noteq> [] \<Longrightarrow> length ls \<le> 1 \<Longrightarrow> length ps \<le> 1 \<Longrightarrow> length es \<le> 1 \<Longrightarrow>
   app_valid sample_ext any_time (synced_state ls ps es links)"
  by (rule trust_valid) (simp_all add: sample_account_row_def synced_def)

lemma trust_fields:
  "ap_ops (trust_state cn a os ss ls ps es k) = op_sample\<lparr>op_connections := [cn, sample_connection 2 ''monarch'']\<rparr>"
  "ap_overviews (trust_state cn a os ss ls ps es k) = os" "ap_snapshots (trust_state cn a os ss ls ps es k) = ss"
  "ap_loans (trust_state cn a os ss ls ps es k) = ls" "ap_payments (trust_state cn a os ss ls ps es k) = ps"
  "ap_payment_seq (trust_state cn a os ss ls ps es k) = int (length ps)" "ap_links (trust_state cn a os ss ls ps es k) = k"
  "ap_fin (trust_state cn a os ss ls ps es k) = trust_fin\<lparr>events := [manual_event, slot_event] @ es, event_seq := 2 + int (length es)\<rparr>"
  by (simp_all add: trust_state_def)

lemma trust_updates:
  "(trust_state cn a os ss ls ps es k)\<lparr>ap_ops := op_sample\<lparr>op_connections := [cn', sample_connection 2 ''monarch'']\<rparr>\<rparr> =
     trust_state cn' a os ss ls ps es k"
  "(trust_state cn a os ss ls ps es k)\<lparr>ap_tmo_account := a'\<rparr> = trust_state cn a' os ss ls ps es k"
  "(trust_state cn a os ss ls ps es k)\<lparr>ap_overviews := os'\<rparr> = trust_state cn a os' ss ls ps es k"
  "(trust_state cn a os ss ls ps es k)\<lparr>ap_snapshots := ss'\<rparr> = trust_state cn a os ss' ls ps es k"
  "(trust_state cn a os ss ls ps es k)\<lparr>ap_loans := ls'\<rparr> = trust_state cn a os ss ls' ps es k"
  "(trust_state cn a os ss ls ps es k)\<lparr>ap_payments := ps @ [p], ap_payment_seq := int (length ps) + 1\<rparr> =
     trust_state cn a os ss ls (ps @ [p]) es k"
  "(trust_state cn a os ss ls ps es k)\<lparr>ap_links := k'\<rparr> = trust_state cn a os ss ls ps es k'"
  "(trust_state cn a os ss ls ps es k)\<lparr>ap_fin := trust_fin\<lparr>events := manual_event # slot_event # es @ [e], event_seq := 2 + int (length es) + 1\<rparr>\<rparr> =
     trust_state cn a os ss ls ps (es @ [e]) k"
  by (simp_all add: trust_state_def)

lemma trust_same:
  "(trust_state cn a os ss ls ps es k)\<lparr>ap_payments := ps\<rparr> = trust_state cn a os ss ls ps es k"
  "(trust_state cn a os ss ls ps es k)\<lparr>ap_payments := ps, ap_links := k\<rparr> = trust_state cn a os ss ls ps es k"
  "(trust_state cn a os ss ls ps es k)\<lparr>ap_fin := trust_fin\<lparr>events := manual_event # slot_event # es, event_seq := 2 + int (length es)\<rparr>,
     ap_links := k\<rparr> = trust_state cn a os ss ls ps es k"
  by (simp_all add: trust_state_def)

lemma import_snapshots:
  "write_connection sample_ext any_time sample_capture trust_db = (Inr (), trust_state synced None [] [] [] [] [] [])"
  "write_account sample_ext any_time sample_capture (trust_state synced None [] [] [] [] [] []) =
     (Inr (), trust_state synced (Some sample_account_row) [] [] [] [] [] [])"
  "write_overview sample_ext any_time sample_tmo sample_capture (trust_state synced (Some sample_account_row) [] [] [] [] [] []) =
     (Inr (), trust_state synced (Some sample_account_row) [new_overview sample_tmo sample_capture] [] [] [] [] [])"
  "write_snapshot sample_ext any_time sample_capture
     (trust_state synced (Some sample_account_row) [new_overview sample_tmo sample_capture] [] [] [] [] []) = (Inr (), synced_state [] [] [] [])"
proof -
  have u: "update_rows (\<lambda>r. cn_id r = ca_connection_id sample_capture \<and> cn_slug r = ''tmo'') (sync_connection sample_capture)
      [sample_connection 1 ''tmo'', sample_connection 2 ''monarch''] = [synced, sample_connection 2 ''monarch'']"
    by (simp add: synced_def sample_connection_def sample_capture_def)
  show "write_connection sample_ext any_time sample_capture trust_db = (Inr (), trust_state synced None [] [] [] [] [] [])"
    unfolding write_connection_def trust_initial
    by (rule app_write_ok [OF _ trust_valid]) (simp_all add: trust_fields u trust_updates del: update_rows_Cons, simp_all add: synced_def)
  show "write_account sample_ext any_time sample_capture (trust_state synced None [] [] [] [] [] []) =
     (Inr (), trust_state synced (Some sample_account_row) [] [] [] [] [] [])"
    unfolding write_account_def
    by (rule app_write_ok [OF _ trust_valid]) (simp_all add: trust_fields trust_updates synced_def sample_account_row_def sample_capture_def)
  show "write_overview sample_ext any_time sample_tmo sample_capture (trust_state synced (Some sample_account_row) [] [] [] [] [] []) =
     (Inr (), trust_state synced (Some sample_account_row) [new_overview sample_tmo sample_capture] [] [] [] [] [])"
    unfolding write_overview_def
    by (rule app_write_ok [OF _ trust_valid]) (simp_all add: trust_fields trust_updates synced_def sample_account_row_def upsert_def)
  show "write_snapshot sample_ext any_time sample_capture
     (trust_state synced (Some sample_account_row) [new_overview sample_tmo sample_capture] [] [] [] [] []) = (Inr (), synced_state [] [] [] [])"
    unfolding write_snapshot_def
    by (rule app_write_ok [OF _ synced_valid]) (simp_all add: trust_fields trust_updates upsert_def)
qed

lemma import_loan_rows:
  "stage_loans sample_ext any_time sample_capture (synced_state [] [] [] []) = (Inr (), synced_state [] [] [] [])"
  "import_loan sample_ext any_time sample_tmo sample_capture 2 sample_loan (synced_state [] [] [] []) = (Inr (), synced_state [sample_loan_row] [] [] [])"
proof -
  show "stage_loans sample_ext any_time sample_capture (synced_state [] [] [] []) = (Inr (), synced_state [] [] [] [])"
    unfolding stage_loans_def write_loans_def
    by (rule app_write_ok [OF _ synced_valid]) (simp_all add: trust_fields trust_updates)
  have d: "tl_maturity_date sample_loan = ''2026-02-28''" "tl_next_payment_date sample_loan = ''2026-02-28''"
    "tl_interest_paid_to sample_loan = ''2026-01-01''" "tl_billed_through sample_loan = None" "tl_account sample_loan = ''L1''"
    by (simp_all add: sample_loan_def)
  have "write_loans sample_ext any_time ctx (\<lambda>rs. ((), upsert (is_loan sample_capture ''L1'')
      (summary_update sample_tmo sample_capture 2 sample_loan ''2026-02-28'' ''2026-02-28'' ''2026-01-01'' None)
      (summary_update sample_tmo sample_capture 2 sample_loan ''2026-02-28'' ''2026-02-28'' ''2026-01-01'' None (empty_loan sample_capture ''L1'')) rs))
      (synced_state [] [] [] []) = (Inr (), synced_state [sample_loan_row] [] [] [])" for ctx
    unfolding write_loans_def sample_loan_row_def [symmetric]
    by (rule app_write_ok [OF _ synced_valid]) (simp_all add: trust_fields trust_updates upsert_def)
  then show "import_loan sample_ext any_time sample_tmo sample_capture 2 sample_loan (synced_state [] [] [] []) = (Inr (), synced_state [sample_loan_row] [] [] [])"
    by (simp add: import_loan_def d sample_dates_required optional_date_def bnd_def lift_res_def Let_def)
qed


lemma import_payment_rows:
  "stage_payments sample_ext any_time sample_capture (synced_state [sample_loan_row] [] [] []) = (Inr (), synced_state [sample_loan_row] [] [] [])"
  "import_payment sample_ext any_time sample_tmo sample_capture 2 sample_payment (synced_state [sample_loan_row] [] [] []) =
     (Inr (), synced_state [sample_loan_row] [sample_staged] [sample_history] [(1, 3)])"
proof -
  let ?x = "''history:L1:2026-01-10:0''"
  show "stage_payments sample_ext any_time sample_capture (synced_state [sample_loan_row] [] [] []) = (Inr (), synced_state [sample_loan_row] [] [] [])"
    unfolding stage_payments_def
    by (rule app_write_ok [OF _ synced_valid]) (simp_all add: trust_fields trust_same)
  have d: "tp_check_date sample_payment = ''2026-01-10''" by (simp add: sample_payment_def)
  have p: "upsert_payment sample_ext any_time sample_tmo sample_capture sample_payment ''2026-01-10'' ?x (synced_state [sample_loan_row] [] [] []) =
      (Inr 1, synced_state [sample_loan_row] [sample_staged] [] [])"
    unfolding upsert_payment_def
    using trust_updates(6) [where ps = "[]" and p = sample_staged]
    by (intro app_write_ok [OF _ synced_valid]) (simp_all add: trust_fields Let_def sample_staged_def)
  have none: "\<not> is_history 2 ?x manual_event" "\<not> is_history 2 ?x slot_event"
    by (simp_all add: is_history_def manual_event_def slot_event_def)
  have e: "upsert_history_event sample_ext any_time sample_capture 2 sample_payment ''2026-01-10'' ?x
      (synced_state [sample_loan_row] [sample_staged] [] []) = (Inr 3, synced_state [sample_loan_row] [sample_staged] [sample_history] [])"
    unfolding upsert_history_event_def
    using trust_updates(8) [where es = "[]" and e = sample_history]
    by (intro app_write_ok [OF _ synced_valid]) (simp_all add: trust_fields Let_def none sample_history_def)
  have l: "link_payment sample_ext any_time 1 3 (synced_state [sample_loan_row] [sample_staged] [sample_history] []) =
      (Inr (), synced_state [sample_loan_row] [sample_staged] [sample_history] [(1, 3)])"
    unfolding link_payment_def by (rule app_write_ok [OF _ synced_valid]) (simp_all add: trust_fields trust_updates upsert_def)
  show "import_payment sample_ext any_time sample_tmo sample_capture 2 sample_payment (synced_state [sample_loan_row] [] [] []) =
     (Inr (), synced_state [sample_loan_row] [sample_staged] [sample_history] [(1, 3)])"
    by (simp add: import_payment_def d sample_dates_required sample_payment_id bnd_def lift_res_def p e l)
qed

abbreviation "imported_state \<equiv> synced_state [sample_loan_row] [sample_staged] [sample_history] [(1, 3)]"

lemma prune_nothing: "prune_projection sample_ext any_time sample_capture 2 imported_state = (Inr (), imported_state)"
proof -
  have v: "app_valid sample_ext any_time imported_state" by (rule synced_valid) simp_all
  have row: "py_id sample_staged = 1" "py_connection_id sample_staged = 1" "py_processing_state sample_staged = ''normalized''"
    "ca_connection_id sample_capture = 1"
    by (simp_all add: sample_staged_def new_payment_def sample_capture_def)
  have ids: "ev_id manual_event = 1" "ev_id slot_event = 2" "ev_id sample_history = 3"
    "ev_source_type manual_event = Some ''manual''" "ev_source_type slot_event = Some ''stream_schedule''"
    "ev_source_type sample_history = Some ''tmo_history''"
    by (simp_all add: manual_event_def slot_event_def sample_history_def new_history_event_def event_values_def Let_def)
  have keep: "delete_app_events sample_ext any_time ctx P imported_state = (Inr (), imported_state)"
    if "\<forall>e \<in> {manual_event, slot_event, sample_history}. \<not> P imported_state e" for ctx P
    unfolding delete_app_events_def using that
    by (intro app_write_ok [OF _ v]) (use trust_same(3) [where es = "[sample_history]"] in \<open>simp add: trust_fields Let_def ids\<close>)
  have "delete_stale_payments sample_ext any_time sample_capture imported_state = (Inr (), imported_state)"
    unfolding delete_stale_payments_def
    by (intro app_write_ok [OF _ v]) (simp add: trust_fields trust_same Let_def is_stale_def row)
  then show ?thesis
    by (simp add: prune_projection_def thn_def bnd_def keep linked_where_def trust_fields is_stale_def row ids is_legacy_schedule_def)
qed

lemma sample_import:
  "apply_tmo_sync sample_ext any_time sample_tmo sample_capture trust_db =
     (Inr \<lparr>pe_events_upserted = 1, pe_loans_upserted = 1, pe_snapshots_created = 1\<rparr>, imported_state)"
proof -
  have c: "ca_connection_id sample_capture = 1" "ca_loans sample_capture = [sample_loan]" "ca_details sample_capture = []"
    "ca_payments sample_capture = [sample_payment]"
    by (simp_all add: sample_capture_def)
  have r: "require_tmo_connection 1 trust_db = (Inr (), trust_db)"
    by (simp add: require_tmo_connection_def trust_db_def op_sample_def sample_connection_def bnd_def gets_def require_def ok_def)
  have st: "require_trust_deed_stream trust_db = (Inr 2, trust_db)"
    by (simp add: require_trust_deed_stream_def trust_db_def trust_fin_def trust_stream_def rent_stream_def sample_db_def
        first_by_def bnd_def gets_def ok_def)
  have p: "replace_payment_projection sample_ext any_time sample_tmo sample_capture 2 (synced_state [sample_loan_row] [] [] []) =
      (Inr (), imported_state)"
    by (simp add: replace_payment_projection_def thn_def bnd_def c import_payment_rows prune_nothing ok_def)
  show ?thesis
    unfolding apply_tmo_sync_def
    by (simp add: thn_def bnd_def lift_res_def sample_validated c r st import_snapshots import_loan_rows p ok_def)
qed

lemma trust_facts: "app_ids trust_db" "links_match trust_db"
  by (simp_all add: app_ids_def db_ids_def ids_ok_def links_match_def trust_db_def trust_fin_def sample_db_def
      cash_account_def rent_stream_def trust_stream_def main_view_def rent_schedule_def manual_event_def slot_event_def)

theorem import_mirrors_capture_witness:
  "payments_mirror sample_tmo sample_capture 2 imported_state \<and> loans_mirror sample_capture imported_state"
  using import_mirrors_capture [OF sample_import trust_facts]
  by (auto simp: trust_db_def trust_fin_def is_trust_stream_def trust_stream_def rent_stream_def)

theorem import_keeps_the_rest_witness: "untouched sample_capture trust_db imported_state \<and> links_match imported_state"
  using import_keeps_the_rest [OF sample_import trust_facts] by blast

end
