(* ===== verification/Sync_Outcome.thy ===== *)
theory Sync_Outcome
  imports Sync_Runtime Scheduler Tmo_Contract
begin

text \<open>
  What a synchronisation guarantees. \<open>sync_inv\<close> is the invariant of the database, \<open>sync_good\<close> the relation that
  every transaction of any process keeps: from an invariant state to an invariant state, with finished runs final.
  It is reflexive and transitive, so the locale \<open>evolution\<close> composes it along the code.
\<close>

subsection \<open>The invariant and the relation\<close>

definition sync_inv :: "ext \<Rightarrow> (string \<Rightarrow> bool) \<Rightarrow> app_db \<Rightarrow> bool" where
  "sync_inv X T db \<longleftrightarrow> app_valid X T db \<and> app_ids db \<and> links_match db \<and> op_inv T (ap_ops db)"

definition log_kept :: "app_db \<Rightarrow> app_db \<Rightarrow> bool" where
  "log_kept db db' \<longleftrightarrow> rows_related run_kept (runs (ap_ops db)) (runs (ap_ops db'))"

definition sync_good :: "ext \<Rightarrow> (string \<Rightarrow> bool) \<Rightarrow> app_db \<Rightarrow> app_db \<Rightarrow> bool" where
  "sync_good X T db db' \<longleftrightarrow> (sync_inv X T db \<longrightarrow> sync_inv X T db' \<and> log_kept db db')"

lemma run_kept_trans: "run_kept p q \<Longrightarrow> run_kept q r \<Longrightarrow> run_kept p r"
  by (auto simp: run_kept_def)

lemma log_kept_refl: "log_kept db db"
  by (simp add: log_kept_def rows_related_refl run_kept_refl)

lemma log_kept_trans: "log_kept a b \<Longrightarrow> log_kept b c \<Longrightarrow> log_kept a c"
  unfolding log_kept_def using run_kept_trans by (rule rows_related_trans)

interpretation sync: evolution "sync_good X T"
proof
  show "sync_good X T s s" for s by (simp add: sync_good_def log_kept_refl)
  show "sync_good X T s u" if "sync_good X T s t" "sync_good X T t u" for s t u
    using that log_kept_trans by (auto simp: sync_good_def)
qed

lemma sync_goodD: "sync_good X T db db' \<Longrightarrow> sync_inv X T db \<Longrightarrow> sync_inv X T db' \<and> log_kept db db'"
  by (simp add: sync_good_def)

definition ops_kept :: "op_db \<Rightarrow> op_db \<Rightarrow> bool" where
  "ops_kept o1 o2 \<longleftrightarrow> rows_related run_kept (runs o1) (runs o2) \<and> map cn_id (op_connections o2) = map cn_id (op_connections o1)"

lemma sync_inv_ops:
  assumes "sync_inv X T db" "op_inv T o2" "map cn_id (op_connections o2) = map cn_id (op_connections (ap_ops db))"
  shows "sync_inv X T (put_ops o2 db)"
proof -
  have s: "set (map cn_id (op_connections o2)) = set (map cn_id (op_connections (ap_ops db)))" by (simp only: assms(3))
  have "app_valid X T db" "app_ids db" "links_match db" using assms(1) by (simp_all add: sync_inv_def)
  then have "app_valid X T (put_ops o2 db)" "app_ids (put_ops o2 db)" "links_match (put_ops o2 db)"
    using op_invD(1) [OF assms(2)]
    by (simp_all add: put_ops_def app_valid_def Let_def s app_ids_def links_match_def del: set_map list.set_map)
  with assms(2) show ?thesis by (simp add: sync_inv_def put_ops_def)
qed

lemma sync_on_ops:
  assumes "keeps (op_inv T) m" "evolves ops_kept m"
  shows "evolves (sync_good X T) (on_ops m)"
  unfolding evolves_def sync_good_def
proof (intro allI impI)
  fix db assume i: "sync_inv X T db"
  obtain r o2 where m: "m (ap_ops db) = (r, o2)" by (cases "m (ap_ops db)")
  have "op_inv T o2" using keepsD [OF assms(1) _ m] i by (simp add: sync_inv_def)
  moreover have k: "ops_kept (ap_ops db) o2" using evolvesD [OF assms(2) m] .
  ultimately show "sync_inv X T (snd (on_ops m db)) \<and> log_kept db (snd (on_ops m db))"
    using sync_inv_ops [OF i] by (simp add: on_ops_def zoom_def m ops_kept_def log_kept_def) (simp add: put_ops_def)
qed

lemma runs_kept_ops: "evolves runs_kept m \<Longrightarrow> evolves ops_kept m"
  by (auto simp: evolves_def runs_kept_def ops_kept_def)

interpretation conn: evolution ops_kept
proof
  show "ops_kept s s" for s by (simp add: ops_kept_def rows_related_refl run_kept_refl)
  show "ops_kept s u" if "ops_kept s t" "ops_kept t u" for s t u
    using that rows_related_trans [of run_kept, OF run_kept_trans] by (auto simp: ops_kept_def)
qed

lemma mark_error_ops: "evolves ops_kept (mark_tmo_error T i msg t)" "keeps (op_inv T) (mark_tmo_error T i msg t)"
proof -
  have w: "evolves ops_kept (update_connections T ctx P (error_update msg t))" for ctx P
    unfolding update_connections_def evolves_def sql_write_def Let_def
    by (auto simp: ops_kept_def rows_related_refl run_kept_refl map_update_rows error_update_def)
  show "evolves ops_kept (mark_tmo_error T i msg t)"
    unfolding mark_tmo_error_def by (intro conn.evolves_rules w)
  have "keeps (op_inv T) (update_connections T ctx P (error_update msg t))" for ctx P
    unfolding update_connections_def by (rule keeps_sql_write) (simp add: op_inv_def run_ids_def attempts_def)
  then show "keeps (op_inv T) (mark_tmo_error T i msg t)"
    unfolding mark_tmo_error_def by (intro keeps_rules)
qed

lemma sync_operations:
  "evolves (sync_good X T) (on_ops (complete_error T i t m))" "evolves (sync_good X T) (on_ops (complete_success T i t c))"
  "evolves (sync_good X T) (on_ops (interrupt_stale T slug t cutoff))" "evolves (sync_good X T) (on_ops (claim_manual T slug t))"
  "evolves (sync_good X T) (on_ops (claim_scheduled T slug slot t))" "evolves (sync_good X T) (on_ops (mark_tmo_error T i m t))"
  by (rule sync_on_ops keeps_op_inv mark_error_ops runs_kept_ops log_operations log_transitions)+

lemma sync_failure: "evolves (sync_good X T) (finish_failure D T marked failed run i e)"
  unfolding finish_failure_def
  by (intro sync.evolves_rules evolves_map_err sync_operations)

lemma sync_import:
  assumes "apply_tmo_sync X T N c db = (Inr p, db')" "sync_inv X T db"
  shows "sync_inv X T db'" "log_kept db db'"
proof -
  note e = apply_tmo_sync_effect [OF assms(1)]
  have f: "app_ids db" "links_match db" using assms(2) by (simp_all add: sync_inv_def)
  have same: "runs (ap_ops db') = runs (ap_ops db)" "run_seq (ap_ops db') = run_seq (ap_ops db)"
  proof -
    have u: "(ap_ops db')\<lparr>op_connections := []\<rparr> = (ap_ops db)\<lparr>op_connections := []\<rparr>"
      using e(4) [OF f] by (simp add: untouched_def)
    show "runs (ap_ops db') = runs (ap_ops db)" "run_seq (ap_ops db') = run_seq (ap_ops db)"
      using arg_cong [OF u, of runs] arg_cong [OF u, of run_seq] by simp_all
  qed
  have "op_valid T (ap_ops db')" using e(5) [OF f] by (simp add: app_valid_def Let_def)
  with same assms(2) have "op_inv T (ap_ops db')" by (simp add: sync_inv_def op_inv_def run_ids_def attempts_def)
  with e(5-7) [OF f] show "sync_inv X T db'" by (simp add: sync_inv_def)
  show "log_kept db db'" by (simp add: log_kept_def same rows_related_refl run_kept_refl)
qed

lemma sync_success: "evolves (sync_good X T) (finish_success D X T N E run c)"
  unfolding evolves_def
proof
  fix db
  obtain res db' where r: "finish_success D X T N E run c db = (res, db')" by (cases "finish_success D X T N E run c db")
  show "sync_good X T db (snd (finish_success D X T N E run c db))"
  proof (cases res)
    case (Inl e)
    with r finish_success_fails have "db' = db" by blast
    with r show ?thesis by (simp add: sync.refl)
  next
    case (Inr x)
    with r obtain p db1 where a: "apply_tmo_sync X T N c db = (Inr p, db1)"
      and c: "on_ops (complete_success T (sr_id run) (format_utc_millis D (en_finished E)) (completion_of c p)) db1 = (Inr x, db')"
      by (auto simp: finish_success_def transaction_Inr bnd_Inr map_err_Inr)
    have "sync_good X T db db1" using sync_import [OF a] by (simp add: sync_good_def)
    moreover have "sync_good X T db1 db'" by (rule evolvesD [OF sync_operations(2) c])
    ultimately show ?thesis using r sync.trans by simp
  qed
qed


subsection \<open>Finished runs\<close>

definition has_run :: "int \<Rightarrow> app_db \<Rightarrow> bool" where
  "has_run i db \<longleftrightarrow> (\<exists>r \<in> set (runs (ap_ops db)). rr_id r = i)"

definition run_over :: "int \<Rightarrow> app_db \<Rightarrow> bool" where
  "run_over i db \<longleftrightarrow> (\<exists>r \<in> set (runs (ap_ops db)). rr_id r = i \<and> rr_status r \<noteq> ''running'')"

lemma log_stable:
  assumes "log_kept db db'"
  shows "has_run i db \<Longrightarrow> has_run i db'" "run_over i db \<Longrightarrow> run_over i db'"
  using assms by (fastforce simp: log_kept_def rows_related_def has_run_def run_over_def run_kept_def)+

definition only_ops :: "app_db \<Rightarrow> app_db \<Rightarrow> bool" where
  "only_ops db db' \<longleftrightarrow> (\<exists>o2. db' = put_ops o2 db)"

lemma complete_Inr:
  "complete_error T i t m o1 = (Inr x, o2) \<Longrightarrow>
     \<exists>r \<in> set (runs o2). rr_id r = i \<and> rr_status r = ''error'' \<and> rr_error r = Some m \<and> x = run_of r"
  "complete_success T i t c o1 = (Inr x, o2) \<Longrightarrow>
     \<exists>r \<in> set (runs o2). rr_id r = i \<and> rr_status r = ''success'' \<and> rr_events r = sy_events c \<and> rr_loans r = sy_loans c \<and>
       rr_snapshots r = sy_snapshots c \<and> x = run_of r"
proof -
  have found: "\<exists>q. r = f q \<and> rr_id q = i \<and> r \<in> set (runs o2) \<and> x = run_of r"
    if u: "update_runs T ctx (\<lambda>_ r. rr_id r = i \<and> rr_status r = ''running'') f o1 = (Inr (r # rs), o2)"
      and d: "sync_run_from_row r = Inr x" for ctx f r rs
  proof -
    have m: "map f (filter (\<lambda>r. rr_id r = i \<and> rr_status r = ''running'') (runs o1)) = r # rs"
      and o2: "o2 = o1\<lparr>runs := update_rows (\<lambda>r. rr_id r = i \<and> rr_status r = ''running'') f (runs o1)\<rparr>" and v: "op_valid T o2"
      using u by (auto simp: update_runs_def sql_write_Inr)
    have "r \<in> f ` {q \<in> set (runs o1). rr_id q = i \<and> rr_status q = ''running''}"
      using arg_cong [OF m, of set] by auto
    then obtain q where q: "q \<in> set (runs o1)" "rr_id q = i" "rr_status q = ''running''" "r = f q" by auto
    then have "r \<in> set (runs o2)" by (auto simp: o2 set_update_rows)
    with op_validD(2) [OF v this] d decode_run [of T r] q show ?thesis by auto
  qed
  {
    assume "complete_error T i t m o1 = (Inr x, o2)"
    then obtain rows o3 where u: "update_runs T ''complete failed sync run'' (\<lambda>_ r. rr_id r = i \<and> rr_status r = ''running'') (fail_run t m) o1 = (Inr rows, o3)"
      and k: "(case rows of [] \<Rightarrow> raise (Coordination (''sync run '' @ show_int i @ '' was not running during error completion''))
        | r # _ \<Rightarrow> lift_res (sync_run_from_row r)) o3 = (Inr x, o2)"
      unfolding complete_error_def op_Inr by blast
    then obtain r rs where "rows = r # rs" "o3 = o2" and d: "sync_run_from_row r = Inr x"
      by (cases rows) (simp_all add: raise_Inr lift_res_Inr)
    with u have "update_runs T ''complete failed sync run'' (\<lambda>_ r. rr_id r = i \<and> rr_status r = ''running'') (fail_run t m) o1 = (Inr (r # rs), o2)" by simp
    from found [OF this d] show "\<exists>r \<in> set (runs o2). rr_id r = i \<and> rr_status r = ''error'' \<and> rr_error r = Some m \<and> x = run_of r"
      by (intro bexI [of _ r]) (auto simp: fail_run_def)
  }
  {
    assume "complete_success T i t c o1 = (Inr x, o2)"
    then obtain rows o3 where u: "update_runs T ''complete successful sync run'' (\<lambda>_ r. rr_id r = i \<and> rr_status r = ''running'') (succeed_run t c) o1 = (Inr rows, o3)"
      and k: "(case rows of [] \<Rightarrow> raise (Coordination (''sync run '' @ show_int i @ '' was not running during successful completion''))
        | r # _ \<Rightarrow> lift_res (sync_run_from_row r)) o3 = (Inr x, o2)"
      unfolding complete_success_def op_Inr by blast
    then obtain r rs where "rows = r # rs" "o3 = o2" and d: "sync_run_from_row r = Inr x"
      by (cases rows) (simp_all add: raise_Inr lift_res_Inr)
    with u have "update_runs T ''complete successful sync run'' (\<lambda>_ r. rr_id r = i \<and> rr_status r = ''running'') (succeed_run t c) o1 = (Inr (r # rs), o2)" by simp
    from found [OF this d] show "\<exists>r \<in> set (runs o2). rr_id r = i \<and> rr_status r = ''success'' \<and> rr_events r = sy_events c \<and> rr_loans r = sy_loans c \<and>
       rr_snapshots r = sy_snapshots c \<and> x = run_of r"
      by (intro bexI [of _ r]) (auto simp: succeed_run_def)
  }
qed

lemma on_ops_Inr: "on_ops m db = (Inr x, db') \<longleftrightarrow> (\<exists>o2. m (ap_ops db) = (Inr x, o2) \<and> db' = put_ops o2 db)"
  by (simp add: on_ops_def zoom_Inr)

lemma failure_Inr:
  assumes "finish_failure D T marked failed run i e db = (Inr x, db')"
  shows "\<exists>r \<in> set (runs (ap_ops db')). rr_id r = sr_id run \<and> rr_status r = ''error'' \<and> rr_error r = Some (public_message e) \<and>
      x = SyncFailed (run_of r) (failure_class_of e)"
    and "only_ops db db'"
proof -
  obtain db1 o2 y where m: "(case i of None \<Rightarrow> ok ()
       | Some i \<Rightarrow> map_err from_integration (on_ops (mark_tmo_error T i (public_message e) (format_utc_millis D marked)))) db = (Inr (), db1)"
    and c: "complete_error T (sr_id run) (format_utc_millis D failed) (public_message e) (ap_ops db1) = (Inr y, o2)"
    and x: "x = SyncFailed y (failure_class_of e)" "db' = put_ops o2 db1"
    using assms by (auto simp: finish_failure_def op_Inr on_ops_Inr)
  from complete_Inr(1) [OF c] x show "\<exists>r \<in> set (runs (ap_ops db')). rr_id r = sr_id run \<and> rr_status r = ''error'' \<and>
      rr_error r = Some (public_message e) \<and> x = SyncFailed (run_of r) (failure_class_of e)" by (auto simp: put_ops_def)
  have "only_ops db db1"
    using m by (cases i) (auto simp: ok_Inr map_err_Inr on_ops_Inr only_ops_def put_ops_def intro: exI [of _ "ap_ops db"])
  with x show "only_ops db db'" by (auto simp: only_ops_def put_ops_def)
qed

lemma success_Inr:
  assumes "finish_success D X T N E run c db = (Inr x, db')" "sync_inv X T db"
  shows "\<exists>r \<in> set (runs (ap_ops db')). rr_id r = sr_id run \<and> rr_status r = ''success'' \<and> x = run_of r \<and>
      rr_events r = int (length (ca_payments c)) \<and> rr_loans r = int (length (ca_loans c))"
    and "\<exists>s \<in> set (streams (ap_fin db)). is_trust_stream s \<and> payments_mirror N c (st_id s) db'" "loans_mirror c db'"
    and "same_ledger db db'"
proof -
  obtain p db1 o2 where a: "apply_tmo_sync X T N c db = (Inr p, db1)"
    and c: "complete_success T (sr_id run) (format_utc_millis D (en_finished E)) (completion_of c p) (ap_ops db1) = (Inr x, o2)"
    and db': "db' = put_ops o2 db1"
    using assms(1) by (auto simp: finish_success_def op_Inr on_ops_Inr)
  have f: "app_ids db" "links_match db" using assms(2) by (simp_all add: sync_inv_def)
  note e = apply_tmo_sync_effect [OF a f]
  show "\<exists>r \<in> set (runs (ap_ops db')). rr_id r = sr_id run \<and> rr_status r = ''success'' \<and> x = run_of r \<and>
      rr_events r = int (length (ca_payments c)) \<and> rr_loans r = int (length (ca_loans c))"
    using complete_Inr(2) [OF c] e(8) by (auto simp: db' put_ops_def completion_of_def)
  show "\<exists>s \<in> set (streams (ap_fin db)). is_trust_stream s \<and> payments_mirror N c (st_id s) db'" "loans_mirror c db'"
    using e(1,2) by (simp_all add: db' put_ops_def payments_mirror_def mirrored_def loans_mirror_def)
  show "same_ledger db db'" using e(4) by (simp add: db' put_ops_def untouched_def same_ledger_def)
qed

subsection \<open>A running run can always be failed\<close>

text \<open>A text with a letter in it is not blank.\<close>

lemma messages_nonempty: "op_require_nonempty ''sync error message'' (public_message e) = Inr ()"
proof -
  have "CHR ''e'' \<in> set (public_message e)"
    unfolding public_message_def
    by (cases e) (simp_all split: provider_error.split int_error.split op_error.split)
  moreover have "32 < code (CHR ''e'') \<and> code (CHR ''e'') < 127" by code_simp
  ultimately show ?thesis using trim_letter by (simp add: op_require_nonempty_def)
qed

lemma format_glob:
  assumes "time_date D" "clock_accepts D T" "writable D t"
  shows "require_timestamp l (format_utc_millis D t) = Inr ()" "timestamp_glob T (format_utc_millis D t)"
proof -
  show r: "require_timestamp l (format_utc_millis D t) = Inr ()" for l by (rule time_date.format_timestamp [OF assms(1,3)])
  show "timestamp_glob T (format_utc_millis D t)"
    using r [of "[]"] assms(2,3) by (auto simp: require_timestamp_def timestamp_glob_def clock_accepts_def split: if_splits)
qed

lemma failure_possible:
  assumes "time_date D" "clock_accepts D T" "writable D t" "sync_inv X T db"
    and "r \<in> set (runs (ap_ops db))" "rr_status r = ''running''" "rr_id r = sr_id run"
  shows "\<exists>x db'. finish_failure D T marked t run None e db = (Inr x, db')"
proof -
  have "op_inv T (ap_ops db)" using assms(4) by (simp add: sync_inv_def)
  from complete_running(2) [OF this assms(5,6) format_glob [OF assms(1-3)] messages_nonempty]
  show ?thesis using assms(7)
    by (simp add: finish_failure_def transaction_def thn_def map_err_def on_ops_def zoom_def bnd_def ok_def)
qed


subsection \<open>Every claimed run ends\<close>

definition friendly :: "ext \<Rightarrow> (string \<Rightarrow> bool) \<Rightarrow> sync_env \<Rightarrow> bool" where
  "friendly X T E \<longleftrightarrow> (\<forall>i db. sync_good X T db (en_others E i db))"

definition quiet :: "sync_env \<Rightarrow> bool" where
  "quiet E \<longleftrightarrow> (\<forall>i db. en_others E i db = db)"

lemma quiet_friendly: "quiet E \<Longrightarrow> friendly X T E"
  by (simp add: quiet_def friendly_def sync.refl)

lemma execute_good:
  assumes "friendly X T E" "execute_claimed D X T N E run db = (res, db')"
  shows "sync_good X T db db'"
proof -
  have o: "sync_good X T a (en_others E i a)" for i a using assms(1) by (simp add: friendly_def)
  let ?A = "en_others E 3 (en_others E 2 db)"
  have A: "sync_good X T db ?A" using o sync.trans by blast
  from assms(2) show ?thesis
  proof (cases rule: execute_claimed_cases)
    case (completed c r i cr)
    with A evolvesD [OF sync_success completed(2)] show ?thesis using sync.trans by blast
  next
    case (failed i e)
    with A o [of ?A 4] evolvesD [OF sync_failure failed] show ?thesis using sync.trans by blast
  qed
qed

text \<open>The hypotheses on the recovery: its clock reading can be written, and it keeps its deadline.\<close>

definition recovers :: "date_api \<Rightarrow> (string \<Rightarrow> bool) \<Rightarrow> sync_env \<Rightarrow> bool" where
  "recovers D T E \<longleftrightarrow> clock_accepts D T \<and> writable D (en_recovered E) \<and> en_recovery E = None"

lemma recover_ends:
  assumes "time_date D" "recovers D T E" "friendly X T E" "sync_inv X T db" "has_run (sr_id run) db"
    and "recover_claim D T E run e db = (res, db')"
  shows "run_over (sr_id run) db'" "sync_good X T db db'"
proof -
  have r: "clock_accepts D T" "writable D (en_recovered E)" "en_recovery E = None" using assms(2) by (simp_all add: recovers_def)
  let ?db1 = "en_others E 5 db"
  obtain fres db2 where f: "finish_failure D T (en_recovered E) (en_recovered E) run None e ?db1 = (fres, db2)"
    by (cases "finish_failure D T (en_recovered E) (en_recovered E) run None e ?db1")
  have db': "db' = db2" using assms(6) r(3) f by (auto simp: recover_claim_def split: sum.splits)
  have g1: "sync_good X T db ?db1" using assms(3) by (simp add: friendly_def)
  have g2: "sync_good X T ?db1 db2" by (rule evolvesD [OF sync_failure f])
  show "sync_good X T db db'" unfolding db' by (rule sync.trans [OF g1 g2])
  have i1: "sync_inv X T ?db1" and h1: "has_run (sr_id run) ?db1"
    using sync_goodD [OF g1 assms(4)] log_stable(1) assms(5) by blast+
  show "run_over (sr_id run) db'"
  proof (cases "\<exists>q \<in> set (runs (ap_ops ?db1)). rr_id q = sr_id run \<and> rr_status q = ''running''")
    case True
    then obtain q where q: "q \<in> set (runs (ap_ops ?db1))" "rr_status q = ''running''" "rr_id q = sr_id run" by blast
    from failure_possible [OF assms(1) r(1,2) i1 q, of "en_recovered E" e] f obtain x where "fres = Inr x" by auto
    with failure_Inr(1) f db' show ?thesis by (fastforce simp: run_over_def)
  next
    case False
    with h1 have "run_over (sr_id run) ?db1" by (auto simp: has_run_def run_over_def)
    with sync_goodD [OF g2 i1] log_stable(2) db' show ?thesis by blast
  qed
qed

lemma claimed_run_ends:
  assumes "time_date D" "recovers D T E" "friendly X T E" "sync_inv X T db" "has_run (sr_id run) db"
    and "run_claimed D X T N E run db = (res, db')"
  shows "run_over (sr_id run) db' \<and> sync_inv X T db' \<and> log_kept db db'"
proof -
  obtain res0 db0 where x: "execute_claimed D X T N E run db = (res0, db0)" by (cases "execute_claimed D X T N E run db")
  have g0: "sync_good X T db db0" by (rule execute_good [OF assms(3) x])
  have i0: "sync_inv X T db0" and h0: "has_run (sr_id run) db0"
    using sync_goodD [OF g0 assms(4)] log_stable(1) assms(5) by blast+
  note rec = recover_ends [OF assms(1-3)]
  have direct: "run_over (sr_id run) db0" if "res0 = Inr y" for y
    using x
  proof (cases rule: execute_claimed_cases)
    case (completed c r i cr)
    have "sync_good X T db (en_others E 3 (en_others E 2 db))"
      using assms(3) sync.trans unfolding friendly_def by blast
    then have "sync_inv X T (en_others E 3 (en_others E 2 db))" using assms(4) by (simp add: sync_good_def)
    from success_Inr(1) [OF completed(2) this] show ?thesis by (fastforce simp: run_over_def)
  next
    case (failed i e)
    with that failure_Inr(1) show ?thesis by (fastforce simp: run_over_def)
  qed
  have recovered: "run_over (sr_id run) db' \<and> sync_good X T db db'"
    if "recover_claim D T E run e d = (res, db')" "d \<in> {db, db0}" for e d
  proof (cases "d = db")
    case True
    with rec [OF assms(4,5)] that(1) show ?thesis by blast
  next
    case False
    with that have "recover_claim D T E run e db0 = (res, db')" by simp
    from rec [OF i0 h0 this] g0 show ?thesis using sync.trans by blast
  qed
  have "run_over (sr_id run) db' \<and> sync_good X T db db'"
  proof (cases "en_fate E = Returns \<and> (\<exists>y. res0 = Inr y)")
    case True
    with assms(6) x have "db' = db0" by (auto simp: run_claimed_def)
    with True direct g0 show ?thesis by blast
  next
    case False
    with assms(6) x have "\<exists>e d. recover_claim D T E run e d = (res, db') \<and> d \<in> {db, db0}"
      by (auto simp: run_claimed_def split: fate.splits sum.splits if_splits)
    with recovered show ?thesis by blast
  qed
  with assms(4) show ?thesis by (simp add: sync_good_def)
qed

text \<open>C6: Every claimed run ends. Whatever the provider answers, whether the execution returns, panics or exceeds its
  deadline (before or after its last transaction reached the database), and whatever other processes do in
  between, as long as they keep the invariant and finished runs final: after the invocation the claimed run has
  succeeded or failed, the invariant holds, and no finished run has changed. The recovery is assumed to keep its own deadline.\<close>

theorem sync_always_ends:
  assumes "time_date D" "recovers D T E" "friendly X T E" "sync_inv X T db" "has_run (sr_id run) db"
    and "run_claimed D X T N E run db = (res, db')"
  shows "run_over (sr_id run) db' \<and> sync_inv X T db' \<and> log_kept db db'"
  using assms by (rule claimed_run_ends)


subsection \<open>All or nothing\<close>

lemma failure_Inl: "finish_failure D T m f run i e db = (Inl x, db') \<Longrightarrow> db' = db"
  unfolding finish_failure_def transaction_Inl by blast

text \<open>A failed run: nothing changes but its own row, and the status, error and stamp of the TMO connection.\<close>

definition run_aborted :: "int \<Rightarrow> app_db \<Rightarrow> app_db \<Rightarrow> bool" where
  "run_aborted i db db' \<longleftrightarrow> (\<exists>r \<in> set (runs (ap_ops db')). rr_id r = i \<and> rr_status r = ''error'') \<and>
     (\<exists>finished message marked connection. db' = db\<lparr>ap_ops := (ap_ops db)\<lparr>
        runs := map (\<lambda>r. if rr_id r = i
          then r\<lparr>rr_status := ''error'', rr_finished_at := Some finished, rr_error := Some message\<rparr> else r) (runs (ap_ops db)),
        op_connections := map (\<lambda>c. if Some (cn_id c) = connection \<and> cn_slug c = ''tmo''
          then c\<lparr>cn_status := ''error'', cn_last_error := Some message, cn_updated_at := marked\<rparr> else c)
          (op_connections (ap_ops db))\<rparr>\<rparr>)"

lemma failed_rows:
  assumes "sync_inv X T db" "r \<in> set (runs (ap_ops db))" "rr_id r = i" "rr_status r = ''running''"
  shows "update_rows (\<lambda>r. rr_id r = i \<and> rr_status r = ''running'') f (runs (ap_ops db)) =
    map (\<lambda>r. if rr_id r = i then f r else r) (runs (ap_ops db))"
proof -
  have d: "distinct (map rr_id (runs (ap_ops db)))" using assms(1) by (simp add: sync_inv_def op_inv_def run_ids_def)
  have "rr_status q = ''running''" if "q \<in> set (runs (ap_ops db))" "rr_id q = i" for q
    using distinct_key_eq [OF d that(1) assms(2)] that(2) assms(3,4) by simp
  then show ?thesis by (auto simp: update_rows_def)
qed

lemma complete_error_rows:
  assumes "complete_error T i t m o1 = (Inr x, o2)"
  shows "o2 = o1\<lparr>runs := update_rows (\<lambda>r. rr_id r = i \<and> rr_status r = ''running'') (fail_run t m) (runs o1)\<rparr>"
proof -
  from assms obtain rows o3 where u: "update_runs T ''complete failed sync run'' (\<lambda>_ r. rr_id r = i \<and> rr_status r = ''running'')
        (fail_run t m) o1 = (Inr rows, o3)"
    and k: "(case rows of [] \<Rightarrow> raise (Coordination (''sync run '' @ show_int i @ '' was not running during error completion''))
      | r # _ \<Rightarrow> lift_res (sync_run_from_row r)) o3 = (Inr x, o2)"
    unfolding complete_error_def op_Inr by blast
  from k have "o3 = o2" by (cases rows) (simp_all add: raise_Inr lift_res_Inr)
  with u show ?thesis by (simp add: update_runs_def sql_write_Inr)
qed

lemma marked_connection:
  assumes "(case c of None \<Rightarrow> ok () | Some i \<Rightarrow> map_err from_integration (on_ops (mark_tmo_error T i msg t))) db = (Inr (), db1)"
  shows "db1 = db\<lparr>ap_ops := (ap_ops db)\<lparr>op_connections := map (\<lambda>x. if Some (cn_id x) = c \<and> cn_slug x = ''tmo''
    then x\<lparr>cn_status := ''error'', cn_last_error := Some msg, cn_updated_at := t\<rparr> else x) (op_connections (ap_ops db))\<rparr>\<rparr>"
proof (cases c)
  case None
  with assms show ?thesis by (simp add: ok_Inr)
next
  case (Some i)
  with assms obtain o2 where m: "mark_tmo_error T i msg t (ap_ops db) = (Inr (), o2)" and db1: "db1 = put_ops o2 db"
    by (auto simp: map_err_Inr on_ops_Inr)
  from m have "o2 = (ap_ops db)\<lparr>op_connections := update_rows (\<lambda>c. cn_id c = i \<and> cn_slug c = ''tmo'') (error_update msg t) (op_connections (ap_ops db))\<rparr>"
    unfolding mark_tmo_error_def update_connections_def by (auto simp: op_Inr sql_write_Inr)
  with Some show ?thesis by (simp add: db1 put_ops_def update_rows_def error_update_def cong: if_cong)
qed

lemma failure_aborts:
  assumes "sync_inv X T db" "r \<in> set (runs (ap_ops db))" "rr_id r = sr_id run" "rr_status r = ''running''"
    and "finish_failure D T marked failed run c e db = (Inr x, db')"
  shows "run_aborted (sr_id run) db db'"
proof -
  let ?t = "format_utc_millis D failed" let ?m = "public_message e"
  obtain db1 o2 y where m: "(case c of None \<Rightarrow> ok () | Some i \<Rightarrow> map_err from_integration (on_ops (mark_tmo_error T i ?m
        (format_utc_millis D marked)))) db = (Inr (), db1)"
    and c: "complete_error T (sr_id run) ?t ?m (ap_ops db1) = (Inr y, o2)"
    and db': "db' = put_ops o2 db1"
    using assms(5) by (auto simp: finish_failure_def op_Inr on_ops_Inr)
  note d1 = marked_connection [OF m]
  have "runs (ap_ops db1) = runs (ap_ops db)" by (simp add: d1)
  then have o2: "o2 = (ap_ops db1)\<lparr>runs := map (\<lambda>r. if rr_id r = sr_id run then fail_run ?t ?m r else r) (runs (ap_ops db))\<rparr>"
    using complete_error_rows [OF c] failed_rows [OF assms(1-4)] by simp
  have "\<exists>q \<in> set (runs (ap_ops db')). rr_id q = sr_id run \<and> rr_status q = ''error''"
    using complete_Inr(1) [OF c] by (auto simp: db' put_ops_def)
  moreover have "db' = db\<lparr>ap_ops := (ap_ops db)\<lparr>
        runs := map (\<lambda>r. if rr_id r = sr_id run
          then r\<lparr>rr_status := ''error'', rr_finished_at := Some ?t, rr_error := Some ?m\<rparr> else r) (runs (ap_ops db)),
        op_connections := map (\<lambda>x. if Some (cn_id x) = c \<and> cn_slug x = ''tmo''
          then x\<lparr>cn_status := ''error'', cn_last_error := Some ?m, cn_updated_at := format_utc_millis D marked\<rparr> else x)
          (op_connections (ap_ops db))\<rparr>\<rparr>"
    unfolding db' o2 put_ops_def by (simp add: d1 fail_run_def cong: if_cong)
  ultimately show ?thesis unfolding run_aborted_def by blast
qed

lemma failure_refused:
  assumes "\<And>q. q \<in> set (runs (ap_ops db)) \<Longrightarrow> rr_id q = sr_id run \<Longrightarrow> rr_status q \<noteq> ''running''"
  shows "finish_failure D T m f run None e db \<noteq> (Inr x, db')"
proof
  assume "finish_failure D T m f run None e db = (Inr x, db')"
  then obtain y o2 where "complete_error T (sr_id run) (format_utc_millis D f) (public_message e) (ap_ops db) = (Inr y, o2)"
    by (auto simp: finish_failure_def op_Inr on_ops_Inr)
  then obtain rows o3 where u: "update_runs T ''complete failed sync run'' (\<lambda>_ r. rr_id r = sr_id run \<and> rr_status r = ''running'')
        (fail_run (format_utc_millis D f) (public_message e)) (ap_ops db) = (Inr rows, o3)"
    and k: "(case rows of [] \<Rightarrow> raise (Coordination (''sync run '' @ show_int (sr_id run) @ '' was not running during error completion''))
      | r # _ \<Rightarrow> lift_res (sync_run_from_row r)) o3 = (Inr y, o2)"
    unfolding complete_error_def op_Inr by blast
  have "filter (\<lambda>r. rr_id r = sr_id run \<and> rr_status r = ''running'') (runs (ap_ops db)) = []"
    using assms by (simp add: filter_empty_conv)
  with u have "rows = []" by (auto simp: update_runs_def sql_write_Inr)
  with k show False by (simp add: raise_Inr)
qed

text \<open>The recovery of a running run fails it or has no effect; the latter only when it exceeds its deadline before its
  transaction, or its clock reading cannot be written. A finished run stays.\<close>

definition recovery_lost :: "date_api \<Rightarrow> (string \<Rightarrow> bool) \<Rightarrow> sync_env \<Rightarrow> bool" where
  "recovery_lost D T E \<longleftrightarrow> en_recovery E = Some False \<or> \<not> (clock_accepts D T \<and> writable D (en_recovered E))"

lemma recover_quiet:
  assumes "time_date D" "quiet E" "sync_inv X T db" "recover_claim D T E run e db = (res, db')"
    and "r \<in> set (runs (ap_ops db))" "rr_id r = sr_id run"
  shows "rr_status r = ''running'' \<Longrightarrow> run_aborted (sr_id run) db db' \<or> recovery_lost D T E \<and> db' = db"
    and "rr_status r \<noteq> ''running'' \<Longrightarrow> db' = db"
proof -
  obtain fres db2 where f: "finish_failure D T (en_recovered E) (en_recovered E) run None e db = (fres, db2)"
    by (cases "finish_failure D T (en_recovered E) (en_recovered E) run None e db")
  have db': "db' = (if en_recovery E = Some False then db else db2)"
    using assms(2,4) f by (auto simp: recover_claim_def quiet_def split: sum.splits option.splits)
  show "run_aborted (sr_id run) db db' \<or> recovery_lost D T E \<and> db' = db" if q: "rr_status r = ''running''"
  proof (cases fres)
    case (Inl y)
    have "recovery_lost D T E"
      using failure_possible [OF assms(1) _ _ assms(3,5) q assms(6), of "en_recovered E" "en_recovered E" e] f Inl
      by (auto simp: recovery_lost_def)
    moreover have "db2 = db" using f Inl by (simp add: failure_Inl)
    ultimately show ?thesis by (simp add: db')
  next
    case (Inr y)
    with failure_aborts [OF assms(3,5,6) q] f have "run_aborted (sr_id run) db db2" by blast
    then show ?thesis by (simp add: db' recovery_lost_def)
  qed
  show "db' = db" if q: "rr_status r \<noteq> ''running''"
  proof -
    have "distinct (map rr_id (runs (ap_ops db)))" using assms(3) by (simp add: sync_inv_def op_inv_def run_ids_def)
    then have "rr_status p \<noteq> ''running''" if "p \<in> set (runs (ap_ops db))" "rr_id p = sr_id run" for p
      using q distinct_key_eq that assms(5,6) by metis
    then have "fres \<noteq> Inr x" for x using failure_refused f by blast
    then obtain y where "fres = Inl y" by (cases fres) blast+
    with f failure_Inl db' show "db' = db" by auto
  qed
qed

definition run_succeeded :: "date_api \<Rightarrow> tmo_ext \<Rightarrow> sync_env \<Rightarrow> int \<Rightarrow> app_db \<Rightarrow> app_db \<Rightarrow> bool" where
  "run_succeeded D N E i db db' \<longleftrightarrow> (\<exists>r c j cr. r \<in> set (runs (ap_ops db')) \<and> rr_id r = i \<and> rr_status r = ''success'' \<and>
     provider_capture D E j cr = Inr c \<and> rr_events r = int (length (ca_payments c)) \<and> rr_loans r = int (length (ca_loans c)) \<and>
     (\<exists>s \<in> set (streams (ap_fin db)). is_trust_stream s \<and> payments_mirror N c (st_id s) db') \<and> loans_mirror c db' \<and>
     same_ledger db db')"

definition run_failed :: "int \<Rightarrow> app_db \<Rightarrow> app_db \<Rightarrow> bool" where
  "run_failed i db db' \<longleftrightarrow> (\<exists>r \<in> set (runs (ap_ops db')). rr_id r = i \<and> rr_status r = ''error'') \<and> only_ops db db'"

lemma execute_quiet:
  assumes "quiet E" "sync_inv X T db" "execute_claimed D X T N E run db = (res, db')"
    and "r \<in> set (runs (ap_ops db))" "rr_id r = sr_id run" "rr_status r = ''running''"
  shows "run_succeeded D N E (sr_id run) db db' \<or> run_aborted (sr_id run) db db' \<or> (\<exists>e. res = Inl e) \<and> db' = db"
proof -
  have q: "en_others E i a = a" for i a using assms(1) by (simp add: quiet_def)
  from assms(3) show ?thesis
  proof (cases rule: execute_claimed_cases)
    case (completed c r i cr)
    then have f: "finish_success D X T N E run c db = (Inr r, db')" by (simp add: q)
    from success_Inr [OF f assms(2)] completed(3) show ?thesis unfolding run_succeeded_def by blast
  next
    case (failed i e)
    then have f: "finish_failure D T (en_marked E) (en_failed E) run i e db = (res, db')" by (simp add: q)
    show ?thesis
    proof (cases res)
      case (Inl y)
      with f failure_Inl show ?thesis by blast
    next
      case (Inr y)
      with f failure_aborts [OF assms(2,4-6)] show ?thesis by blast
    qed
  qed
qed

lemma finished_row:
  "run_succeeded D N E i db db' \<Longrightarrow> \<exists>r \<in> set (runs (ap_ops db')). rr_id r = i \<and> rr_status r \<noteq> ''running''"
  "run_aborted i db db' \<Longrightarrow> \<exists>r \<in> set (runs (ap_ops db')). rr_id r = i \<and> rr_status r \<noteq> ''running''"
proof -
  show "\<exists>r \<in> set (runs (ap_ops db')). rr_id r = i \<and> rr_status r \<noteq> ''running''" if "run_aborted i db db'"
  proof -
    from that obtain r where "r \<in> set (runs (ap_ops db'))" "rr_id r = i" "rr_status r = ''error''"
      unfolding run_aborted_def by blast
    then show ?thesis by (intro bexI [of _ r]) simp_all
  qed
  show "\<exists>r \<in> set (runs (ap_ops db')). rr_id r = i \<and> rr_status r \<noteq> ''running''" if "run_succeeded D N E i db db'"
  proof -
    from that obtain r where "r \<in> set (runs (ap_ops db'))" "rr_id r = i" "rr_status r = ''success''"
      unfolding run_succeeded_def by blast
    then show ?thesis by (intro bexI [of _ r]) simp_all
  qed
qed

text \<open>C3: A synchronisation is all or nothing. When no other process interferes, a running claimed run ends in one of
  three ways, whatever the provider answers and whenever the execution and its recovery panic or exceed their deadlines. It succeeded: its
  counters are those of a capture that the provider returned, and the ledger mirrors that capture. Or it failed: only its own
  row and the status, error and stamp of the TMO connection have changed. Or nothing at all has changed, which happens only
  when the recovery is itself cut off before its transaction, or reads a clock that the database cannot store (the next invocation then
  interrupts the stale run). No partial import survives.\<close>

theorem sync_atomic:
  assumes "time_date D" "quiet E" "sync_inv X T db"
    and "r \<in> set (runs (ap_ops db))" "rr_id r = sr_id run" "rr_status r = ''running''"
    and "run_claimed D X T N E run db = (res, db')"
  shows "run_succeeded D N E (sr_id run) db db' \<or> run_aborted (sr_id run) db db' \<or>
    (en_recovery E = Some False \<or> \<not> (clock_accepts D T \<and> writable D (en_recovered E))) \<and> db' = db"
proof -
  obtain res0 db0 where x: "execute_claimed D X T N E run db = (res0, db0)" by (cases "execute_claimed D X T N E run db")
  have i0: "sync_inv X T db0" using sync_goodD [OF execute_good [OF quiet_friendly [OF assms(2)] x] assms(3)] by blast
  note ex = execute_quiet [OF assms(2,3) x assms(4-6)]
  have base: "run_aborted (sr_id run) db db' \<or> recovery_lost D T E \<and> db' = db" if "recover_claim D T E run e db = (res, db')" for e
    using recover_quiet(1) [OF assms(1-3) that assms(4-6)] .
  have "db' = db0" if "recover_claim D T E run e db0 = (res, db')" "q \<in> set (runs (ap_ops db0))" "rr_id q = sr_id run"
    "rr_status q \<noteq> ''running''" for e q
    using recover_quiet(2) [OF assms(1,2) i0 that] .
  then have later: "run_succeeded D N E (sr_id run) db db' \<or> run_aborted (sr_id run) db db' \<or> recovery_lost D T E \<and> db' = db"
    if "recover_claim D T E run e db0 = (res, db')" for e
    using that ex base finished_row [where i = "sr_id run" and db = db and db' = db0] by metis
  have "run_succeeded D N E (sr_id run) db db' \<or> run_aborted (sr_id run) db db' \<or> recovery_lost D T E \<and> db' = db"
  proof (cases "en_fate E = Returns \<and> (\<exists>y. res0 = Inr y)")
    case True
    with assms(7) x have "db' = db0" by (auto simp: run_claimed_def)
    with True ex show ?thesis by auto
  next
    case False
    with assms(7) x have "\<exists>e d. recover_claim D T E run e d = (res, db') \<and> d \<in> {db, db0}"
      by (auto simp: run_claimed_def split: fate.splits sum.splits if_splits)
    with base later show ?thesis by blast
  qed
  then show ?thesis by (simp add: recovery_lost_def)
qed


subsection \<open>A sample synchronisation\<close>

definition claimed_db :: app_db where
  "claimed_db = put_ops (with_run (new_run ''tmo'' None op_now 3) op_sample) trust_db"

definition sample_env :: "fate \<Rightarrow> sync_env" where
  "sample_env f = \<lparr>en_decrypt = (\<lambda>_ _ _. Inr ''pin''), en_login = (\<lambda>_. Inl (Timeout Tmo)), en_started = one_pm, en_captured = one_pm,
     en_finished = one_pm, en_marked = one_pm, en_failed = one_pm, en_recovered = one_pm, en_others = (\<lambda>_ db. db), en_fate = f,
     en_recovery = None\<rparr>"

lemma sample_env_ok: "recovers gregorian any_time (sample_env f)" "quiet (sample_env f)" "friendly sample_ext any_time (sample_env f)"
proof -
  show "recovers gregorian any_time (sample_env f)"
    by (simp add: recovers_def sample_env_def sample_writable clock_accepts_def any_time_def)
  show q: "quiet (sample_env f)" by (simp add: quiet_def sample_env_def)
  show "friendly sample_ext any_time (sample_env f)" by (rule quiet_friendly [OF q])
qed

lemma trust_inv: "sync_inv sample_ext any_time trust_db"
proof -
  have "app_valid sample_ext any_time trust_db" unfolding trust_initial by (rule trust_valid) simp_all
  then show ?thesis using op_sample_inv by (simp add: sync_inv_def trust_facts) (simp add: trust_db_def)
qed

lemma claimed_inv: "sync_inv sample_ext any_time claimed_db"
proof -
  have "op_inv any_time (with_run (new_run ''tmo'' None op_now 3) op_sample)"
    by (auto simp: with_run_def op_inv_def op_valid_def op_sample_def control_check_def op_texts run_check_def failed_run_def
      active_run_def new_run_def run_clash_def live_def run_ids_def attempts_def max_scheduled_attempts_def
      sample_connection_def conn_check_def)
  then show ?thesis unfolding claimed_db_def
    by (rule sync_inv_ops [OF trust_inv]) (simp add: with_run_def trust_db_def)
qed

definition claimed_run :: sync_run where
  "claimed_run = run_of (new_run ''tmo'' None op_now 3)"

lemma claimed_row: "new_run ''tmo'' None op_now 3 \<in> set (runs (ap_ops claimed_db))"
  "rr_id (new_run ''tmo'' None op_now 3) = sr_id claimed_run" "rr_status (new_run ''tmo'' None op_now 3) = ''running''"
  by (simp_all add: claimed_db_def put_ops_def with_run_def new_run_def claimed_run_def run_of_def)

lemma has_claimed: "has_run (sr_id claimed_run) claimed_db"
  unfolding has_run_def using claimed_row by blast

theorem sync_always_ends_witness:
  "run_over (sr_id claimed_run)
     (snd (run_claimed gregorian sample_ext any_time sample_tmo (sample_env (TimesOut False)) claimed_run claimed_db))"
  using sync_always_ends [OF greg.time_date_axioms sample_env_ok(1,3) claimed_inv has_claimed prod.collapse [symmetric]] by blast

theorem sync_atomic_witness:
  "run_succeeded gregorian sample_tmo (sample_env (PanicsAfter False)) (sr_id claimed_run) claimed_db
      (snd (run_claimed gregorian sample_ext any_time sample_tmo (sample_env (PanicsAfter False)) claimed_run claimed_db)) \<or>
   run_aborted (sr_id claimed_run) claimed_db
      (snd (run_claimed gregorian sample_ext any_time sample_tmo (sample_env (PanicsAfter False)) claimed_run claimed_db))"
proof -
  have "en_recovery (sample_env (PanicsAfter False)) \<noteq> Some False"
    "clock_accepts gregorian any_time \<and> writable gregorian (en_recovered (sample_env (PanicsAfter False)))"
    using sample_env_ok(1) [of "PanicsAfter False"] by (simp_all add: recovers_def)
  with sync_atomic [OF greg.time_date_axioms sample_env_ok(2) [of "PanicsAfter False"] claimed_inv claimed_row
      prod.collapse [symmetric]] show ?thesis by blast
qed

end
