(* ===== verification/Monarch_Sync.thy ===== *)
theory Monarch_Sync
  imports Sync_Outcome
begin

text \<open>
  The Monarch balance refresh and the cadence update, \<open>src/integrations/actions.rs\<close>, with the balance rule of
  \<open>src/providers/monarch.rs\<close>. As in \<open>Sync_Runtime\<close> the state is the whole database, each repository call is a
  transaction of its own, and \<open>monarch_env\<close> holds what is not this code: the GraphQL answers, the decryption, the JSON
  texts, chrono's date check, the stored credential, the clock and the other processes. This service has no deadline
  and no recovery of its own: what it leaves running is reaped by the next claim.
\<close>

subsection \<open>Provider data\<close>

record monarch_account =
  ma_id :: string
  ma_display_name :: string
  ma_display_balance :: f64
  ma_current_balance :: f64
  ma_updated_at :: string
  ma_mask :: "string option"

record monarch_transaction =
  mt_amount :: f64
  mt_pending :: bool

record monarch_capture =
  mc_account :: monarch_account
  mc_adjusted :: f64
  mc_pending :: f64

record monarch_credential =
  mk_ciphertext :: string
  mk_nonce :: string
  mk_account_id :: string
  mk_key_version :: int

record monarch_env =
  me_credential :: "int \<Rightarrow> monarch_credential option"
  me_decrypt :: "string \<Rightarrow> string \<Rightarrow> int \<Rightarrow> string + string"
  me_header_ok :: "string \<Rightarrow> bool"
  me_account :: "string \<Rightarrow> string \<Rightarrow> provider_error + monarch_account option"
  me_transactions :: "string \<Rightarrow> string \<Rightarrow> provider_error + monarch_transaction list"
  me_rfc3339 :: "string \<Rightarrow> bool"
  me_number :: "f64 \<Rightarrow> string"
  me_metadata :: "monarch_capture \<Rightarrow> string"
  me_source :: "monarch_capture \<Rightarrow> string \<Rightarrow> string"
  me_started :: instant
  me_persisted :: instant
  me_failed :: instant
  me_others :: "nat \<Rightarrow> app_db \<Rightarrow> app_db"

subsection \<open>The client\<close>

definition with_token :: "monarch_env \<Rightarrow> string \<Rightarrow> provider_error + string" where
  "with_token M token =
     (if trim token = [] \<or> \<not> me_header_ok M (''Token '' @ trim token) then Inl (InvalidConfiguration Monarch)
      else Inr (''Token '' @ trim token))"

definition get_account_balance :: "monarch_env \<Rightarrow> string \<Rightarrow> string \<Rightarrow> provider_error + monarch_account" where
  "get_account_balance M client account_id =
     (if trim account_id = [] then Inl (InvalidConfiguration Monarch)
      else rbnd (me_account M client account_id) (\<lambda>found. case found of Some a \<Rightarrow> Inr a | None \<Rightarrow> Inl (MissingData Monarch)))"

definition get_pending_transactions :: "monarch_env \<Rightarrow> string \<Rightarrow> string \<Rightarrow> provider_error + monarch_transaction list" where
  "get_pending_transactions M client account_id =
     (if trim account_id = [] then Inl (InvalidConfiguration Monarch)
      else rbnd (me_transactions M client account_id) (\<lambda>ts. Inr (filter mt_pending ts)))"

definition get_adjusted_balance :: "monarch_env \<Rightarrow> string \<Rightarrow> string \<Rightarrow> provider_error + monarch_capture" where
  "get_adjusted_balance M client account_id =
     rbnd (get_account_balance M client account_id) (\<lambda>balance.
     rbnd (get_pending_transactions M client account_id) (\<lambda>pending.
       let pending_total = f64_sum (map mt_amount pending)
       in Inr \<lparr>mc_account = balance, mc_adjusted = f64_add (ma_current_balance balance) pending_total,
               mc_pending = pending_total\<rparr>))"

definition direct_capture :: "monarch_env \<Rightarrow> string \<Rightarrow> string \<Rightarrow> provider_error + monarch_capture" where
  "direct_capture M token account_id = rbnd (with_token M token) (\<lambda>client. get_adjusted_balance M client account_id)"

subsection \<open>Errors\<close>

datatype monarch_error = MissingMonarch | InvalidMonarch | MissingMonarchCredential | InvalidMonarchCredential
  | MonarchCredentialError string | MonarchProvider provider_error | InvalidMonarchData | MonarchOperation op_error
  | MonarchStorage string | MonarchCoordination

datatype monarch_class = MConfiguration | MProvider | MStorage | MCoordination

definition monarch_from_integration :: "int_error \<Rightarrow> monarch_error" where
  "monarch_from_integration e = (case e of IntStorage m \<Rightarrow> MonarchStorage m | _ \<Rightarrow> InvalidMonarch)"

definition monarch_from_operation :: "op_error \<Rightarrow> monarch_error" where
  "monarch_from_operation e = (case e of ConnectionNotFound _ \<Rightarrow> MissingMonarch | OpStorage m \<Rightarrow> MonarchStorage m
     | e \<Rightarrow> MonarchOperation e)"

definition monarch_class_of :: "monarch_error \<Rightarrow> monarch_class" where
  "monarch_class_of e = (case e of MissingMonarch \<Rightarrow> MConfiguration | InvalidMonarch \<Rightarrow> MConfiguration
     | MissingMonarchCredential \<Rightarrow> MConfiguration | InvalidMonarchCredential \<Rightarrow> MConfiguration
     | MonarchCredentialError _ \<Rightarrow> MConfiguration | MonarchProvider _ \<Rightarrow> MProvider | InvalidMonarchData \<Rightarrow> MProvider
     | MonarchStorage _ \<Rightarrow> MStorage | MonarchOperation _ \<Rightarrow> MCoordination | MonarchCoordination \<Rightarrow> MCoordination)"

definition monarch_status :: "monarch_class \<Rightarrow> nat" where
  "monarch_status c = (case c of MConfiguration \<Rightarrow> 409 | MCoordination \<Rightarrow> 409 | MProvider \<Rightarrow> 502 | MStorage \<Rightarrow> 503)"

definition monarch_code :: "monarch_class \<Rightarrow> string" where
  "monarch_code c = (case c of MConfiguration \<Rightarrow> ''configuration'' | MProvider \<Rightarrow> ''provider''
     | MStorage \<Rightarrow> ''service_unavailable'' | MCoordination \<Rightarrow> ''coordination'')"

definition monarch_message :: "monarch_error \<Rightarrow> string" where
  "monarch_message e = (case e of
       MissingMonarch \<Rightarrow> ''The Monarch integration is not configured.''
     | InvalidMonarch \<Rightarrow> ''The Monarch integration is not configured.''
     | MissingMonarchCredential \<Rightarrow> ''Monarch credentials are not configured.''
     | InvalidMonarchCredential \<Rightarrow> ''Stored Monarch credentials could not be used.''
     | MonarchCredentialError _ \<Rightarrow> ''Stored Monarch credentials could not be used.''
     | MonarchProvider _ \<Rightarrow> ''Monarch could not refresh the account balance.''
     | InvalidMonarchData \<Rightarrow> ''Monarch returned balance data that could not be stored safely.''
     | MonarchStorage _ \<Rightarrow> ''Balance synchronization is temporarily unavailable.''
     | MonarchOperation OpReadOnly \<Rightarrow> ''Writes are temporarily disabled.''
     | MonarchOperation _ \<Rightarrow> ''The balance execution record changed before completion.''
     | MonarchCoordination \<Rightarrow> ''The balance execution record changed before completion.'')"

datatype monarch_execution = BalanceCompleted sync_run monarch_capture iso_date | BalanceFailed sync_run monarch_class string
  | BalanceRunning sync_run | BalanceScheduled sync_run | BalanceCovered sync_run

subsection \<open>Bounds\<close>

definition max_token_bytes :: nat where "max_token_bytes = 16 * 1024"

definition max_account_id_bytes :: nat where "max_account_id_bytes = 256"

definition max_account_name_bytes :: nat where "max_account_name_bytes = 256"

definition max_mask_bytes :: nat where "max_mask_bytes = 64"

definition max_provider_timestamp_bytes :: nat where "max_provider_timestamp_bytes = 64"

definition max_metadata_bytes :: nat where "max_metadata_bytes = 16 * 1024"

definition monarch_stale_after :: int where "monarch_stale_after = 20 * 60 * second"

definition monarch_slug :: string where "monarch_slug = ''monarch''"

definition validate_bounded_nonempty :: "string \<Rightarrow> nat \<Rightarrow> monarch_error + unit" where
  "validate_bounded_nonempty v max_bytes =
     (if trim v = [] \<or> max_bytes < length v then Inl InvalidMonarchData else Inr ())"

definition storable_balance :: "f64 \<Rightarrow> bool" where
  "storable_balance v \<longleftrightarrow> is_finite v \<and> \<not> f64_le f64_1e308 (f64_abs v)"

definition validate_capture :: "monarch_env \<Rightarrow> monarch_capture \<Rightarrow> string \<Rightarrow> monarch_error + unit" where
  "validate_capture M c expected = (let a = mc_account c in
     if \<not> list_all storable_balance [ma_current_balance a, ma_display_balance a, mc_pending c, mc_adjusted c]
     then Inl InvalidMonarchData
     else rbnd (validate_bounded_nonempty (ma_id a) max_account_id_bytes) (\<lambda>_.
       if ma_id a \<noteq> expected then Inl InvalidMonarchData
       else rbnd (validate_bounded_nonempty (ma_display_name a) max_account_name_bytes) (\<lambda>_.
         if (case ma_mask a of None \<Rightarrow> False | Some m \<Rightarrow> max_mask_bytes < length m) then Inl InvalidMonarchData
         else rbnd (validate_bounded_nonempty (ma_updated_at a) max_provider_timestamp_bytes) (\<lambda>_.
           if me_rfc3339 M (ma_updated_at a) then Inr () else Inl InvalidMonarchData))))"

subsection \<open>Capturing\<close>

type_synonym 'a monarch_op = "(app_db, monarch_error, 'a) op"

definition balance_others :: "monarch_env \<Rightarrow> nat \<Rightarrow> unit monarch_op" where
  "balance_others M i = (\<lambda>db. (Inr (), me_others M i db))"

definition load_connection :: "int monarch_op" where
  "load_connection = bnd (map_err monarch_from_integration (on_ops (connection_by_slug monarch_slug))) (\<lambda>found.
     case found of None \<Rightarrow> raise MissingMonarch
     | Some c \<Rightarrow> if cn_provider c \<noteq> ''monarch'' then raise InvalidMonarch else ok (cn_id c))"

definition balance_capture :: "monarch_env \<Rightarrow> int \<Rightarrow> monarch_error + monarch_capture" where
  "balance_capture M connection_id = (case me_credential M connection_id of None \<Rightarrow> Inl MissingMonarchCredential
     | Some k \<Rightarrow>
         if trim (mk_account_id k) = [] \<or> max_account_id_bytes < length (mk_account_id k) then Inl InvalidMonarchCredential
         else (case me_decrypt M (mk_ciphertext k) (mk_nonce k) (mk_key_version k) of Inl m \<Rightarrow> Inl (MonarchCredentialError m)
           | Inr token \<Rightarrow>
               if trim token = [] \<or> max_token_bytes < length token then Inl InvalidMonarchCredential
               else (case direct_capture M token (mk_account_id k) of Inl e \<Rightarrow> Inl (MonarchProvider e)
                 | Inr c \<Rightarrow> rbnd (validate_capture M c (mk_account_id k)) (\<lambda>_. Inr c))))"

subsection \<open>Writing the balance\<close>

definition from_fin :: "fin_error \<Rightarrow> monarch_error" where
  "from_fin e = (case e of Storage m \<Rightarrow> MonarchStorage m | _ \<Rightarrow> MonarchStorage [])"

definition monarch_balance_update :: "ext \<Rightarrow> monarch_env \<Rightarrow> iso_date \<Rightarrow> monarch_capture \<Rightarrow> string \<Rightarrow> account_row \<Rightarrow> account_row" where
  "monarch_balance_update X M as_of c persisted_at a =
     a\<lparr>ac_balance := Some (mc_adjusted c), ac_as_of := Some (iso_to_string (dates X) as_of),
       ac_source_type := Some ''monarch'', ac_source_ref := Some (ma_id (mc_account c)),
       ac_metadata := Some (me_metadata M c), ac_balance_updated_at := Some (ma_updated_at (mc_account c)),
       ac_updated_at := persisted_at\<rparr>"

definition put_setting :: "ext \<Rightarrow> (string \<Rightarrow> bool) \<Rightarrow> string \<Rightarrow> string \<Rightarrow> string \<Rightarrow> string \<Rightarrow> unit monarch_op" where
  "put_setting X T ctx key v updated_at = sql_write (app_valid X T) (MonarchStorage ctx) (\<lambda>db. ((), db\<lparr>ap_settings :=
     upsert (\<lambda>s. se_key s = key) (\<lambda>s. s\<lparr>se_value := v, se_updated_at := updated_at\<rparr>)
       \<lparr>se_key = key, se_value = v, se_updated_at = updated_at\<rparr> (ap_settings db)\<rparr>))"

definition is_monarch :: "int \<Rightarrow> conn_row \<Rightarrow> bool" where
  "is_monarch i c \<longleftrightarrow> cn_id c = i \<and> cn_slug c = ''monarch'' \<and> cn_provider c = ''monarch''"

definition set_monarch_connection :: "(string \<Rightarrow> bool) \<Rightarrow> string \<Rightarrow> int \<Rightarrow> (conn_row \<Rightarrow> conn_row) \<Rightarrow> unit monarch_op" where
  "set_monarch_connection T ctx i f =
     bnd (map_err monarch_from_integration (on_ops (update_connections T ctx (is_monarch i) f))) (\<lambda>changed.
       require (changed = 1) MonarchCoordination)"

definition active_update :: "string \<Rightarrow> conn_row \<Rightarrow> conn_row" where
  "active_update t c = c\<lparr>cn_status := ''active'', cn_last_synced_at := Some t, cn_last_error := None, cn_updated_at := t\<rparr>"

definition monarch_primary_account :: "ext \<Rightarrow> int monarch_op" where
  "monarch_primary_account X = map_err from_fin (on_fin (ensure_primary_account_on X))"

definition apply_monarch_balance :: "ext \<Rightarrow> (string \<Rightarrow> bool) \<Rightarrow> monarch_env \<Rightarrow> int \<Rightarrow> iso_date \<Rightarrow> monarch_capture \<Rightarrow> string \<Rightarrow>
    unit monarch_op" where
  "apply_monarch_balance X T M connection_id as_of c persisted_at =
     (let date = iso_to_string (dates X) as_of in
      thn (require (length (me_metadata M c) \<le> max_metadata_bytes) InvalidMonarchData)
     (bnd (monarch_primary_account X) (\<lambda>account_id.
      bnd (map_err from_fin (on_fin (update_accounts X ''update primary account from Monarch''
             (\<lambda>a. ac_id a = account_id \<and> ac_is_primary a \<and> ac_is_active a)
             (monarch_balance_update X M as_of c persisted_at)))) (\<lambda>changed.
      thn (require (changed = 1) MonarchCoordination)
     (thn (put_setting X T ''update current-cash compatibility setting'' ''current_cash'' (me_number M (mc_adjusted c)) persisted_at)
     (thn (require (length (me_source M c date) \<le> max_metadata_bytes) InvalidMonarchData)
     (thn (put_setting X T ''update balance-source compatibility setting'' ''balance_source'' (me_source M c date) persisted_at)
          (set_monarch_connection T ''update Monarch integration status'' connection_id (active_update persisted_at)))))))))"

definition mark_monarch_error :: "(string \<Rightarrow> bool) \<Rightarrow> int \<Rightarrow> string \<Rightarrow> string \<Rightarrow> unit monarch_op" where
  "mark_monarch_error T connection_id message updated_at =
     set_monarch_connection T ''mark Monarch integration error'' connection_id (error_update message updated_at)"

definition monarch_completion :: sync_completion where
  "monarch_completion = \<lparr>sy_endpoints = Some ''account,pendingTransactions'', sy_events = 0, sy_loans = 0, sy_snapshots = 0\<rparr>"

definition balance_success :: "date_api \<Rightarrow> ext \<Rightarrow> (string \<Rightarrow> bool) \<Rightarrow> monarch_env \<Rightarrow> sync_run \<Rightarrow> int \<Rightarrow> iso_date \<Rightarrow> monarch_capture \<Rightarrow>
    sync_run monarch_op" where
  "balance_success D X T M run connection_id as_of c = (let persisted_at = format_utc_millis D (me_persisted M) in transaction
     (thn (apply_monarch_balance X T M connection_id as_of c persisted_at)
          (map_err monarch_from_operation (on_ops (complete_success T (sr_id run) persisted_at monarch_completion)))))"

definition balance_failure :: "date_api \<Rightarrow> (string \<Rightarrow> bool) \<Rightarrow> monarch_env \<Rightarrow> sync_run \<Rightarrow> int \<Rightarrow> monarch_error \<Rightarrow>
    monarch_execution monarch_op" where
  "balance_failure D T M run connection_id failure = (let finished_at = format_utc_millis D (me_failed M) in transaction
     (thn (mark_monarch_error T connection_id (monarch_message failure) finished_at)
     (bnd (map_err monarch_from_operation (on_ops (complete_error T (sr_id run) finished_at (monarch_message failure)))) (\<lambda>failed.
        ok (BalanceFailed failed (monarch_class_of failure) (monarch_message failure))))))"

subsection \<open>The service\<close>

definition balance_claimed :: "date_api \<Rightarrow> ext \<Rightarrow> (string \<Rightarrow> bool) \<Rightarrow> monarch_env \<Rightarrow> sync_run \<Rightarrow> int \<Rightarrow> iso_date \<Rightarrow>
    monarch_execution monarch_op" where
  "balance_claimed D X T M run connection_id as_of =
     thn (balance_others M 2)
    (case balance_capture M connection_id of
       Inl e \<Rightarrow> thn (balance_others M 3) (balance_failure D T M run connection_id e)
     | Inr c \<Rightarrow> thn (balance_others M 3)
         (bnd (attempt (balance_success D X T M run connection_id as_of c)) (\<lambda>finished. case finished of
            Inr completed \<Rightarrow> ok (BalanceCompleted completed c as_of)
          | Inl e \<Rightarrow> thn (balance_others M 4) (balance_failure D T M run connection_id e))))"

definition balance_run :: "date_api \<Rightarrow> ext \<Rightarrow> (string \<Rightarrow> bool) \<Rightarrow> monarch_env \<Rightarrow> iso_date \<Rightarrow> string option \<Rightarrow> monarch_execution monarch_op" where
  "balance_run D X T M as_of scheduled_for =
     (let started_at = format_utc_millis D (me_started M);
          stale_cutoff = format_utc_millis D (me_started M - monarch_stale_after)
      in bnd load_connection (\<lambda>connection_id.
         thn (balance_others M 0)
        (thn (map_err monarch_from_operation (on_ops (interrupt_stale T monarch_slug started_at stale_cutoff)))
        (thn (balance_others M 1)
        (bnd (map_err monarch_from_operation (on_ops (case scheduled_for of None \<Rightarrow> claim_manual T monarch_slug started_at
               | Some slot \<Rightarrow> claim_scheduled T monarch_slug slot started_at))) (\<lambda>claim. case claim of
             Claimed run \<Rightarrow> balance_claimed D X T M run connection_id as_of
           | AlreadyRunning run \<Rightarrow> ok (BalanceRunning run)
           | AlreadyScheduled run \<Rightarrow> if scheduled_for = None then raise MonarchCoordination else ok (BalanceScheduled run)
           | CoveredBySuccess run \<Rightarrow> if scheduled_for = None then raise MonarchCoordination else ok (BalanceCovered run)))))))"

end
