(* ===== verification/Monarch_Outcome.thy ===== *)
theory Monarch_Outcome
  imports Monarch_Sync
begin

text \<open>
  What the Monarch balance refresh guarantees: every transaction of it keeps the invariant \<open>sync_inv\<close> and finished runs
  (\<open>sync_good\<close>), so it is one of the processes that a TMO synchronisation tolerates; and a claimed refresh either
  moves the cash anchor to the balance the provider returned or changes nothing but the run log and the connection.
\<close>

subsection \<open>The refresh keeps the invariant\<close>

definition fin_kept :: "fin_db \<Rightarrow> fin_db \<Rightarrow> bool" where
  "fin_kept f f' \<longleftrightarrow> streams f' = streams f \<and> views f' = views f \<and> members f' = members f \<and> schedules f' = schedules f \<and>
     events f' = events f"

interpretation fin: evolution fin_kept
  by unfold_locales (simp_all add: fin_kept_def)

lemma sync_on_fin:
  assumes "keeps (db_valid X) m" "keeps db_ids m" "evolves fin_kept m"
  shows "evolves (sync_good X T) (on_fin m)"
  unfolding evolves_def sync_good_def
proof (intro allI impI)
  fix db assume i: "sync_inv X T db"
  obtain r f where m: "m (ap_fin db) = (r, f)" by (cases "m (ap_fin db)")
  have v: "app_valid X T db" "app_ids db" "links_match db" "op_inv T (ap_ops db)" using i by (simp_all add: sync_inv_def)
  have "db_valid X f" using keepsD [OF assms(1) _ m] v(1) by (simp add: app_valid_def Let_def)
  moreover have "db_ids f" using keepsD [OF assms(2) _ m] v(2) by (simp add: app_ids_def)
  moreover have "fin_kept (ap_fin db) f" by (rule evolvesD [OF assms(3) m])
  ultimately have "sync_inv X T (put_fin f db)" using v
    by (simp add: sync_inv_def put_fin_def app_valid_def Let_def app_ids_def links_match_def fin_kept_def)
  then show "sync_inv X T (snd (on_fin m db)) \<and> log_kept db (snd (on_fin m db))"
    by (simp add: on_fin_def zoom_def m) (simp add: put_fin_def log_kept_def rows_related_refl run_kept_refl)
qed

lemma sync_account_statements:
  assumes "\<And>a. ac_id (f a) = ac_id a"
  shows "evolves (sync_good X T) (on_fin (update_accounts X ctx P f))"
    and "evolves (sync_good X T) (on_fin (ensure_primary_account_on X))"
proof -
  have e: "evolves fin_kept (update_accounts X ctx P f)" "evolves fin_kept (insert_account X ctx row)" for row
    unfolding update_accounts_def insert_account_def fin_write_def by (intro fin.evolves_write; simp add: fin_kept_def Let_def)+
  show "evolves (sync_good X T) (on_fin (update_accounts X ctx P f))"
    by (rule sync_on_fin [OF keeps_account_statements(1) keeps_ids(1) e(1)]) (rule assms)
  have k: "keeps db_ids (ensure_primary_account_on X)"
    unfolding ensure_primary_account_on_def by (intro keeps_rules keeps_ids) (simp add: default_account_def)
  have "evolves fin_kept (ensure_primary_account_on X)"
    unfolding ensure_primary_account_on_def insert_account_def fin_write_def
    by (intro fin.evolves_rules) (simp add: fin_kept_def Let_def)
  with k show "evolves (sync_good X T) (on_fin (ensure_primary_account_on X))"
    by (intro sync_on_fin keeps_ensure_primary)
qed

lemma sync_put_setting: "evolves (sync_good X T) (put_setting X T ctx key v t)"
  unfolding evolves_def sync_good_def put_setting_def sql_write_def Let_def
  by (auto simp: sync_inv_def app_ids_def links_match_def log_kept_def rows_related_refl run_kept_refl)

lemma sync_connection_update:
  assumes "\<And>c. cn_id (f c) = cn_id c"
  shows "evolves (sync_good X T) (on_ops (update_connections T ctx P f))"
proof (rule sync_on_ops)
  show "keeps (op_inv T) (update_connections T ctx P f)"
    unfolding update_connections_def by (rule keeps_sql_write) (simp add: op_inv_def run_ids_def attempts_def)
  show "evolves ops_kept (update_connections T ctx P f)"
    unfolding update_connections_def
    by (rule conn.evolves_write) (auto simp: ops_kept_def rows_related_refl run_kept_refl map_update_rows assms)
qed

lemma sync_set_connection:
  assumes "\<And>c. cn_id (f c) = cn_id c"
  shows "evolves (sync_good X T) (set_monarch_connection T ctx i f)"
  unfolding set_monarch_connection_def
  by (intro sync.evolves_rules evolves_map_err sync_connection_update assms)

lemma sync_balance_writes:
  "evolves (sync_good X T) (balance_success D X T M run i as_of c)"
  "evolves (sync_good X T) (balance_failure D T M run i e)"
proof -
  have "evolves (sync_good X T) (apply_monarch_balance X T M i as_of c t)" for t
    unfolding apply_monarch_balance_def Let_def monarch_primary_account_def
    by (intro sync.evolves_rules evolves_map_err sync_account_statements sync_put_setting sync_set_connection)
       (simp_all add: monarch_balance_update_def active_update_def)
  then show "evolves (sync_good X T) (balance_success D X T M run i as_of c)"
    unfolding balance_success_def Let_def by (intro sync.evolves_rules evolves_map_err sync_operations)
  show "evolves (sync_good X T) (balance_failure D T M run i e)"
    unfolding balance_failure_def Let_def mark_monarch_error_def
    by (intro sync.evolves_rules evolves_map_err sync_operations sync_set_connection) (simp add: error_update_def)
qed

definition balance_friendly :: "ext \<Rightarrow> (string \<Rightarrow> bool) \<Rightarrow> monarch_env \<Rightarrow> bool" where
  "balance_friendly X T M \<longleftrightarrow> (\<forall>i db. sync_good X T db (me_others M i db))"

lemma evolves_attempt: "evolves R m \<Longrightarrow> evolves R (attempt m)"
  by (simp add: evolves_def attempt_def split_beta)

lemma sync_balance_run:
  assumes "balance_friendly X T M"
  shows "evolves (sync_good X T) (balance_run D X T M as_of slot)"
proof -
  have o: "evolves (sync_good X T) (balance_others M i)" for i
    using assms by (simp add: evolves_def balance_others_def balance_friendly_def)
  have l: "evolves (sync_good X T) load_connection"
    unfolding load_connection_def
    by (intro sync.evolves_bnd sync.evolves_reads reads_map_err reads_on_ops reads_connection_by_slug
        sync.evolves_case_option sync.evolves_if sync.evolves_pure)
  have c: "evolves (sync_good X T) (balance_claimed D X T M run i as_of)" for run i
    unfolding balance_claimed_def
    by (cases "balance_capture M i")
      (auto intro!: sync.evolves_rules o evolves_attempt sync_balance_writes split: sum.splits)
  show ?thesis
    unfolding balance_run_def Let_def
    by (intro sync.evolves_bnd [OF l] sync.evolves_thn o evolves_map_err sync_operations sync.evolves_bnd)
      (auto intro!: sync_operations c sync.evolves_pure split: option.splits claim_outcome.splits)
qed

subsection \<open>A running refresh can always be failed\<close>

lemma monarch_message_nonempty: "op_require_nonempty ''sync error message'' (monarch_message e) = Inr ()"
proof -
  have "CHR ''e'' \<in> set (monarch_message e)"
    unfolding monarch_message_def by (cases e) (simp_all split: op_error.split)
  moreover have "32 < code (CHR ''e'') \<and> code (CHR ''e'') < 127" by code_simp
  ultimately show ?thesis using trim_letter by (simp add: op_require_nonempty_def)
qed

lemma set_connection_ok:
  assumes "op_inv T (ap_ops db)" "c \<in> set (op_connections (ap_ops db))" "is_monarch i c"
    and "\<And>d. conn_check T d \<Longrightarrow> conn_check T (f d)" "\<And>d. cn_slug (f d) = cn_slug d" "\<And>d. cn_id (f d) = cn_id d"
  defines "o2 \<equiv> (ap_ops db)\<lparr>op_connections := update_rows (is_monarch i) f (op_connections (ap_ops db))\<rparr>"
  shows "set_monarch_connection T ctx i f db = (Inr (), put_ops o2 db)" "op_inv T o2" "runs o2 = runs (ap_ops db)"
proof -
  have v: "op_valid T (ap_ops db)" by (rule op_invD(1) [OF assms(1)])
  have "op_valid T o2" unfolding o2_def
    by (rule update_connection_valid [OF v]) (use v assms(4-6) in \<open>auto simp: op_valid_def list_all_iff\<close>)
  then show "op_inv T o2" using assms(1) by (simp add: op_inv_def o2_def run_ids_def attempts_def)
  have "distinct (map cn_id (op_connections (ap_ops db)))" using v by (simp add: op_valid_def)
  from count_rows_key [OF this, of i "\<lambda>d. cn_slug d = ''monarch'' \<and> cn_provider d = ''monarch''"] assms(2,3)
  have "count_rows (is_monarch i) (op_connections (ap_ops db)) = 1"
    unfolding is_monarch_def [abs_def] by (auto split: if_splits)
  with \<open>op_valid T o2\<close> show "set_monarch_connection T ctx i f db = (Inr (), put_ops o2 db)"
    by (simp add: set_monarch_connection_def update_connections_def map_err_def on_ops_def zoom_def sql_write_def Let_def
        bnd_def require_def ok_def o2_def)
  show "runs o2 = runs (ap_ops db)" by (simp add: o2_def)
qed

lemma balance_failure_possible:
  assumes "time_date D" "clock_accepts D T" "writable D (me_failed M)" "sync_inv X T db"
    and "c \<in> set (op_connections (ap_ops db))" "is_monarch i c"
    and "r \<in> set (runs (ap_ops db))" "rr_status r = ''running''" "rr_id r = sr_id run"
  shows "\<exists>x db'. balance_failure D T M run i e db = (Inr x, db')"
proof -
  let ?t = "format_utc_millis D (me_failed M)" and ?m = "monarch_message e"
  let ?o = "(ap_ops db)\<lparr>op_connections := update_rows (is_monarch i) (error_update ?m ?t) (op_connections (ap_ops db))\<rparr>"
  have inv: "op_inv T (ap_ops db)" using assms(4) by (simp add: sync_inv_def)
  have "utc_check T ?t" by (rule utc_check_format [OF assms(1-3)])
  then have "set_monarch_connection T ctx i (error_update ?m ?t) db = (Inr (), put_ops ?o db)"
    "op_inv T ?o" "runs ?o = runs (ap_ops db)" for ctx
    using set_connection_ok [OF inv assms(5,6), where f = "error_update ?m ?t"] by (auto simp: conn_check_def error_update_def)
  moreover from this(2,3) assms(7) have "op_inv T ?o" "r \<in> set (runs ?o)" by simp_all
  from complete_running(2) [OF this assms(8) format_glob [OF assms(1-3)] monarch_message_nonempty] assms(9)
  have "complete_error T (sr_id run) ?t ?m ?o = (Inr (run_of (fail_run ?t ?m r)), replace_run r (fail_run ?t ?m r) ?o)"
    by simp
  ultimately show ?thesis
    by (simp add: balance_failure_def Let_def mark_monarch_error_def transaction_def thn_def map_err_def on_ops_def zoom_def
        bnd_def ok_def put_ops_def)
qed

lemma balance_failure_Inr:
  assumes "balance_failure D T M run i e db = (Inr x, db')"
  shows "run_failed (sr_id run) db db'"
proof -
  obtain db1 o2 y where m: "mark_monarch_error T i (monarch_message e) (format_utc_millis D (me_failed M)) db = (Inr (), db1)"
    and c: "complete_error T (sr_id run) (format_utc_millis D (me_failed M)) (monarch_message e) (ap_ops db1) = (Inr y, o2)"
    and db': "db' = put_ops o2 db1"
    using assms by (auto simp: balance_failure_def Let_def op_Inr on_ops_Inr)
  obtain o1 where "db1 = put_ops o1 db"
    using m by (auto simp: mark_monarch_error_def set_monarch_connection_def op_Inr on_ops_Inr)
  then have "only_ops db db'" by (auto simp: db' only_ops_def put_ops_def)
  moreover have "\<exists>r \<in> set (runs (ap_ops db')). rr_id r = sr_id run \<and> rr_status r = ''error''"
    using complete_Inr(1) [OF c] by (auto simp: db' put_ops_def)
  ultimately show ?thesis by (simp add: run_failed_def)
qed

subsection \<open>A completed refresh\<close>

text \<open>The accounts other than the primary, as they were.\<close>

definition others_of :: "account_row list \<Rightarrow> account_row list" where
  "others_of as = filter (\<lambda>a. \<not> account_is_active_primary a) as"

definition balance_refreshed :: "ext \<Rightarrow> monarch_env \<Rightarrow> int \<Rightarrow> iso_date \<Rightarrow> int \<Rightarrow> app_db \<Rightarrow> app_db \<Rightarrow> bool" where
  "balance_refreshed X M connection_id as_of run db db' \<longleftrightarrow>
     (\<exists>c s. balance_capture M connection_id = Inr c \<and> get_cash_source (ap_fin db') = (Inr (Some s), ap_fin db') \<and>
        cs_amount s = mc_adjusted c \<and> cs_as_of s = iso_to_string (dates X) as_of \<and> cs_source_kind s = ''monarch'' \<and>
        (\<exists>v \<in> set (ap_settings db'). se_key v = ''current_cash'' \<and> se_value v = me_number M (mc_adjusted c))) \<and>
     (\<exists>r \<in> set (runs (ap_ops db')). rr_id r = run \<and> rr_status r = ''success'') \<and>
     fin_kept (ap_fin db) (ap_fin db') \<and> others_of (accounts (ap_fin db')) = others_of (accounts (ap_fin db)) \<and>
     ap_loans db' = ap_loans db \<and> ap_payments db' = ap_payments db \<and> ap_overviews db' = ap_overviews db"

lemma upsert_present: "\<lbrakk>\<And>r. P r \<Longrightarrow> Q (f r); Q new\<rbrakk> \<Longrightarrow> \<exists>r \<in> set (upsert P f new rs). Q r"
  by (auto simp: upsert_def list_ex_iff set_update_rows)

lemma primary_written:
  assumes "ensure_primary_account_on X f = (Inr i, f1)"
    and "update_accounts X ctx (\<lambda>a. ac_id a = i \<and> ac_is_primary a \<and> ac_is_active a) g f1 = (Inr 1, f2)"
    and "\<And>a. account_is_active_primary (g a) = account_is_active_primary a"
  shows "\<exists>a \<in> set (accounts f2). \<exists>b. a = g b \<and> account_is_active_primary a" "fin_kept f f2"
    "others_of (accounts f2) = others_of (accounts f)" "db_valid X f2"
proof -
  let ?P = "\<lambda>a. ac_id a = i \<and> ac_is_primary a \<and> ac_is_active a"
  have u: "count_rows ?P (accounts f1) = 1" "f2 = f1\<lparr>accounts := update_rows ?P g (accounts f1)\<rparr>" "db_valid X f2"
    using assms(2) by (auto simp: update_accounts_Inr)
  show "db_valid X f2" by (rule u(3))
  obtain b where b: "b \<in> set (accounts f1)" "?P b" using u(1) count_rows_pos [of ?P "accounts f1"] by auto
  then have "g b \<in> set (accounts f2)" by (auto simp: u(2) set_update_rows)
  with b assms(3) show "\<exists>a \<in> set (accounts f2). \<exists>b. a = g b \<and> account_is_active_primary a"
    by (auto simp: account_is_active_primary_def)
  have p: "others_of (update_rows ?P g as) = others_of as" for as
    using assms(3) by (induction as) (auto simp: others_of_def update_rows_def account_is_active_primary_def)
  have "fin_kept f f1 \<and> others_of (accounts f1) = others_of (accounts f)"
    using ensure_primary_Inr [OF assms(1)]
    by (auto simp: fin_kept_def others_of_def default_account_def account_is_active_primary_def)
  then show "fin_kept f f2" "others_of (accounts f2) = others_of (accounts f)"
    by (simp_all add: u(2) p fin_kept_def)
qed

lemma on_fin_Inr: "on_fin m db = (Inr x, db') \<longleftrightarrow> (\<exists>f. m (ap_fin db) = (Inr x, f) \<and> db' = put_fin f db)"
  by (simp add: on_fin_def zoom_Inr)

lemma put_setting_Inr:
  assumes "put_setting X T ctx key v t db = (Inr (), db')"
  obtains ss where "db' = db\<lparr>ap_settings := ss\<rparr>" "\<exists>s \<in> set ss. se_key s = key \<and> se_value s = v"
    "\<And>s. s \<in> set (ap_settings db) \<Longrightarrow> se_key s \<noteq> key \<Longrightarrow> s \<in> set ss"
proof -
  let ?ss = "upsert (\<lambda>s. se_key s = key) (\<lambda>s. s\<lparr>se_value := v, se_updated_at := t\<rparr>)
       \<lparr>se_key = key, se_value = v, se_updated_at = t\<rparr> (ap_settings db)"
  have "db' = db\<lparr>ap_settings := ?ss\<rparr>" using assms by (simp add: put_setting_def sql_write_Inr)
  moreover have "\<exists>s \<in> set ?ss. se_key s = key \<and> se_value s = v" by (rule upsert_present) simp_all
  moreover have "s \<in> set ?ss" if "s \<in> set (ap_settings db)" "se_key s \<noteq> key" for s
    using that by (auto simp: upsert_def set_update_rows)
  ultimately show thesis by (rule that)
qed

lemma balance_success_Inr:
  assumes "balance_success D X T M run i as_of c db = (Inr x, db')" "balance_capture M i = Inr c"
  shows "balance_refreshed X M i as_of (sr_id run) db db'"
proof -
  let ?t = "format_utc_millis D (me_persisted M)" and ?date = "iso_to_string (dates X) as_of"
  let ?g = "monarch_balance_update X M as_of c ?t"
  obtain db6 o2 where a: "apply_monarch_balance X T M i as_of c ?t db = (Inr (), db6)"
    and cs: "complete_success T (sr_id run) ?t monarch_completion (ap_ops db6) = (Inr x, o2)" and db': "db' = put_ops o2 db6"
    using assms(1) by (auto simp: balance_success_def Let_def op_Inr on_ops_Inr)
  obtain k f1 f2 db4 db5 where e: "ensure_primary_account_on X (ap_fin db) = (Inr k, f1)"
    and u: "update_accounts X ''update primary account from Monarch'' (\<lambda>a. ac_id a = k \<and> ac_is_primary a \<and> ac_is_active a) ?g f1 = (Inr 1, f2)"
    and p: "put_setting X T ''update current-cash compatibility setting'' ''current_cash'' (me_number M (mc_adjusted c)) ?t (put_fin f2 db) = (Inr (), db4)"
    and q: "put_setting X T ''update balance-source compatibility setting'' ''balance_source'' (me_source M c ?date) ?t db4 = (Inr (), db5)"
    and w: "set_monarch_connection T ''update Monarch integration status'' i (active_update ?t) db5 = (Inr (), db6)"
    using a by (auto simp: apply_monarch_balance_def Let_def monarch_primary_account_def op_Inr on_fin_Inr put_fin_def)
  have g: "account_is_active_primary (?g a) = account_is_active_primary a" for a
    by (simp add: account_is_active_primary_def monarch_balance_update_def)
  note written = primary_written [OF e u g]
  obtain o1 where o1: "db6 = put_ops o1 db5"
    using w by (auto simp: set_monarch_connection_def op_Inr on_ops_Inr)
  obtain ss where ss: "db4 = (put_fin f2 db)\<lparr>ap_settings := ss\<rparr>" "\<exists>s \<in> set ss. se_key s = ''current_cash'' \<and> se_value s = me_number M (mc_adjusted c)"
    using p by (rule put_setting_Inr)
  obtain ss' where ss': "db5 = db4\<lparr>ap_settings := ss'\<rparr>"
      "\<And>s. s \<in> set (ap_settings db4) \<Longrightarrow> se_key s \<noteq> ''balance_source'' \<Longrightarrow> s \<in> set ss'"
    using put_setting_Inr [OF q] by metis
  have parts: "ap_fin db' = f2" "ap_settings db' = ss'" "ap_ops db' = o2" "ap_loans db' = ap_loans db" "ap_payments db' = ap_payments db"
    "ap_overviews db' = ap_overviews db"
    by (simp_all add: db' o1 ss(1) ss'(1) put_fin_def put_ops_def)
  have cash: "\<exists>v \<in> set ss'. se_key v = ''current_cash'' \<and> se_value v = me_number M (mc_adjusted c)"
    using ss ss'(2) by fastforce
  obtain a b where ab: "a \<in> set (accounts f2)" "a = ?g b" "account_is_active_primary a" using written(1) by blast
  have "ac_balance a = Some (mc_adjusted c)" "ac_as_of a = Some ?date" "ac_source_type a = Some ''monarch''"
    by (simp_all add: ab(2) monarch_balance_update_def)
  with get_cash_source_primary [OF db_valid_primary [OF written(4)] ab(1,3)] obtain src where
    "get_cash_source f2 = (Inr (Some src), f2)" "cs_amount src = mc_adjusted c" "cs_as_of src = ?date" "cs_source_kind src = ''monarch''"
    by simp
  moreover have "\<exists>r \<in> set (runs o2). rr_id r = sr_id run \<and> rr_status r = ''success''" using complete_Inr(2) [OF cs] by blast
  ultimately show ?thesis using assms(2) written(2,3) cash unfolding balance_refreshed_def parts by blast
qed

lemma balance_refresh_outcome:
  assumes "\<And>i db. me_others M i db = db"
    and "balance_claimed D X T M run i as_of db = (res, db')"
  obtains (refreshed) c x where "balance_capture M i = Inr c" "balance_success D X T M run i as_of c db = (Inr x, db')"
      "res = Inr (BalanceCompleted x c as_of)"
    | (failed) e where "balance_failure D T M run i e db = (res, db')"
proof (cases "balance_capture M i")
  case (Inl e)
  with assms have "balance_failure D T M run i e db = (res, db')"
    by (simp add: balance_claimed_def thn_def bnd_def balance_others_def)
  then show thesis by (rule failed)
next
  case (Inr c)
  obtain fin t where f: "balance_success D X T M run i as_of c db = (fin, t)" by (cases "balance_success D X T M run i as_of c db")
  have o: "thn (balance_others M j) m a = m a" for j and m :: "'x monarch_op" and a
    using assms(1) by (simp add: thn_def bnd_def balance_others_def)
  have r: "(res, db') = (case fin of Inr completed \<Rightarrow> ok (BalanceCompleted completed c as_of)
       | Inl e \<Rightarrow> balance_failure D T M run i e) t"
    using assms(2) Inr f by (simp add: balance_claimed_def o attempt_apply split: sum.splits)
  show thesis
  proof (cases fin)
    case (Inl e)
    with f have "t = db" by (auto simp: balance_success_def Let_def transaction_Inl)
    with r Inl show thesis by (intro failed [of e]) simp
  next
    case x: (Inr x)
    with r f Inr show thesis by (intro refreshed [of c x]) (simp_all add: ok_def)
  qed
qed

text \<open>C9: A claimed balance refresh is all or nothing and always ends. When no other process interferes and the connection
  is still Monarch's, then either the cash anchor that the forecast reads is the balance the provider returned (the account's
  balance plus its pending transactions, validated), dated and marked as Monarch's, the compatibility setting agrees, and no
  other account, stream, schedule or event changed; or the run is recorded as failed and nothing outside the operations
  tables (control, connections, runs) changed, whatever the provider, the credential and the constraints do.\<close>

theorem balance_refresh_atomic:
  assumes "time_date D" "clock_accepts D T" "writable D (me_failed M)" "\<And>i db. me_others M i db = db" "sync_inv X T db"
    and "k \<in> set (op_connections (ap_ops db))" "is_monarch i k"
    and "r \<in> set (runs (ap_ops db))" "rr_id r = sr_id run" "rr_status r = ''running''"
    and "balance_claimed D X T M run i as_of db = (res, db')"
  shows "balance_refreshed X M i as_of (sr_id run) db db' \<or> run_failed (sr_id run) db db'"
  using assms(4,11)
proof (cases rule: balance_refresh_outcome)
  case (refreshed c x)
  then show ?thesis using balance_success_Inr by blast
next
  case (failed e)
  obtain x t where "balance_failure D T M run i e db = (Inr x, t)"
    using balance_failure_possible [OF assms(1-3,5-8,10,9)] by blast
  with failed balance_failure_Inr show ?thesis by (metis prod.inject)
qed

text \<open>C10: The two synchronisations may interleave: when between any two transactions of a claimed TMO run a whole Monarch
  refresh (scheduled or manual, whatever Monarch answers and at whatever time) runs on the same database, the TMO run still
  ends, the invariant of the database holds, and no finished run of either integration changes. As in the case without
  interleaving, the recovery of a failed execution is assumed to keep its own deadline and to read a storable clock.\<close>

theorem syncs_interleave:
  assumes "time_date D" "recovers D T E" "sync_inv X T db" "has_run (sr_id run) db"
    and "\<And>j a. \<exists>M as_of slot. (\<forall>i b. me_others M i b = b) \<and> en_others E j a = snd (balance_run D X T M as_of slot a)"
    and "run_claimed D X T N E run db = (res, db')"
  shows "run_over (sr_id run) db' \<and> sync_inv X T db' \<and> log_kept db db'"
proof -
  have "sync_good X T a (en_others E j a)" for j a
  proof -
    obtain M as_of slot where m: "\<forall>i b. me_others M i b = b" "en_others E j a = snd (balance_run D X T M as_of slot a)"
      using assms(5) by blast
    then have "balance_friendly X T M" by (simp add: balance_friendly_def sync.refl)
    from sync_balance_run [OF this] m(2) show ?thesis by (simp add: evolves_def)
  qed
  then have "friendly X T E" by (simp add: friendly_def)
  from claimed_run_ends [OF assms(1,2) this assms(3,4,6)] show ?thesis .
qed

subsection \<open>A sample refresh\<close>

definition sample_monarch :: monarch_env where
  "sample_monarch = \<lparr>me_credential = (\<lambda>_. Some \<lparr>mk_ciphertext = ''c'', mk_nonce = ''n'', mk_account_id = ''acct'', mk_key_version = 1\<rparr>),
     me_decrypt = (\<lambda>_ _ _. Inr ''token''), me_header_ok = (\<lambda>_. True),
     me_account = (\<lambda>_ _. Inr (Some \<lparr>ma_id = ''acct'', ma_display_name = ''Checking'', ma_display_balance = f64_small 10,
        ma_current_balance = f64_small 10, ma_updated_at = op_now, ma_mask = None\<rparr>)),
     me_transactions = (\<lambda>_ _. Inr [\<lparr>mt_amount = f64_small 2, mt_pending = True\<rparr>, \<lparr>mt_amount = f64_small 5, mt_pending = False\<rparr>]),
     me_rfc3339 = (\<lambda>_. True), me_number = (\<lambda>_. ''12''), me_metadata = (\<lambda>_. ''{}''), me_source = (\<lambda>_ _. ''{}''),
     me_started = one_pm, me_persisted = one_pm, me_failed = one_pm, me_others = (\<lambda>_ db. db)\<rparr>"

lemma monarch_facts: "sample_connection 2 ''monarch'' \<in> set (op_connections (ap_ops trust_db))"
  "is_monarch 2 (sample_connection 2 ''monarch'')" "active_run \<in> set (runs (ap_ops trust_db))"
  "rr_id active_run = sr_id (run_of active_run)" "rr_status active_run = ''running''"
  by (simp_all add: trust_db_def op_sample_def is_monarch_def sample_connection_def active_run_def new_run_def run_of_def)

theorem balance_refresh_atomic_witness:
  "balance_refreshed sample_ext sample_monarch 2 739648 (sr_id (run_of active_run)) trust_db
     (snd (balance_claimed gregorian sample_ext any_time sample_monarch (run_of active_run) 2 739648 trust_db)) \<or>
   run_failed (sr_id (run_of active_run)) trust_db
     (snd (balance_claimed gregorian sample_ext any_time sample_monarch (run_of active_run) 2 739648 trust_db))"
  by (rule balance_refresh_atomic [OF greg.time_date_axioms _ _ _ trust_inv monarch_facts prod.collapse [symmetric]])
    (simp_all add: sample_monarch_def sample_writable clock_accepts_def any_time_def)

definition busy_env :: sync_env where
  "busy_env = (sample_env Returns)\<lparr>en_others := \<lambda>_ a. snd (balance_run gregorian sample_ext any_time sample_monarch 739648 None a)\<rparr>"

theorem syncs_interleave_witness:
  "run_over (sr_id claimed_run) (snd (run_claimed gregorian sample_ext any_time sample_tmo busy_env claimed_run claimed_db))"
proof -
  have r: "recovers gregorian any_time busy_env" using sample_env_ok(1) by (simp add: busy_env_def recovers_def)
  have "\<exists>M as_of slot. (\<forall>i b. me_others M i b = b) \<and>
      en_others busy_env j a = snd (balance_run gregorian sample_ext any_time M as_of slot a)" for j a
    by (rule exI [of _ sample_monarch]) (auto simp: busy_env_def sample_monarch_def)
  from syncs_interleave [OF greg.time_date_axioms r claimed_inv has_claimed this prod.collapse [symmetric]] show ?thesis by blast
qed

end
