(* ===== verification/Cron_Loop.thy ===== *)
theory Cron_Loop
  imports Monarch_Outcome
begin

text \<open>
  The cron invocation, \<open>run_cron_at\<close> of \<open>src/scheduler.rs\<close>: for TMO and then Monarch it prepares the schedule and, when a slot
  is due, runs the synchronisation, collecting one entry per integration; with \<open>tmo_execution_entry\<close>, the scheduled entry
  point \<open>run_monarch_scheduled\<close> and the cadence update of \<open>src/integrations/actions.rs\<close>. JSON bodies are records of the
  values that the code puts in them.
\<close>

subsection \<open>Entries\<close>

record cron_entry =
  cy_provider :: string
  cy_outcome :: string
  cy_error :: "string option"
  cy_message :: "string option"
  cy_policy :: "string option"
  cy_run :: "int option"
  cy_balance :: "f64 option"
  cy_as_of :: "string option"
  cy_scheduled_for :: "string option"
  cy_next :: "string option"

definition plain_entry :: "string \<Rightarrow> cron_entry" where
  "plain_entry outcome = \<lparr>cy_provider = [], cy_outcome = outcome, cy_error = None, cy_message = None, cy_policy = None,
     cy_run = None, cy_balance = None, cy_as_of = None, cy_scheduled_for = None, cy_next = None\<rparr>"

definition run_entry :: "string \<Rightarrow> sync_run \<Rightarrow> cron_entry" where
  "run_entry outcome r = (plain_entry outcome)\<lparr>cy_run := Some (sr_id r)\<rparr>"

datatype cron_reply = CronEntries nat bool "cron_entry list" | CronError nat string string bool

definition tmo_execution_entry :: "sync_execution \<Rightarrow> nat \<times> bool \<times> cron_entry" where
  "tmo_execution_entry e =
     (let (status, outcome, policy, retry_after) = (case e of
          SyncCompleted _ \<Rightarrow> (200, ''completed'', ''none'', False)
        | SyncFailed _ _ \<Rightarrow> (execution_http_status e, ''failed'', ''next_scheduled_slot_or_manual'', False)
        | SyncAlreadyRunning _ \<Rightarrow> (202, ''already_running'', ''safe_redelivery_after_retry_after'', True)
        | SyncAlreadyScheduled r \<Rightarrow> (case sr_status r of
              Running \<Rightarrow> (202, ''slot_already_running'', ''safe_redelivery_after_retry_after'', True)
            | Failure \<Rightarrow> (200, ''failed_slot_already_recorded'', ''next_scheduled_slot_or_manual'', False)
            | _ \<Rightarrow> (200, ''slot_already_completed'', ''none'', False))
        | SyncCovered _ \<Rightarrow> (200, ''covered_by_success'', ''none'', False))
      in (status, retry_after, (run_entry outcome (execution_run e))\<lparr>cy_policy := Some policy\<rparr>))"

definition tmo_entry :: "sync_error + sync_execution \<Rightarrow> nat \<times> bool \<times> cron_entry" where
  "tmo_entry r = (case r of Inr e \<Rightarrow> tmo_execution_entry e
     | Inl e \<Rightarrow> (error_http_status e, (case e of SyncStorage _ \<Rightarrow> True | _ \<Rightarrow> False),
         (plain_entry ''failed'')\<lparr>cy_error := Some (class_code e), cy_message := Some (public_message e)\<rparr>))"

definition monarch_entry :: "ext \<Rightarrow> monarch_error + monarch_execution \<Rightarrow> nat \<times> cron_entry" where
  "monarch_entry X r = (case r of
       Inr (BalanceCompleted run c as_of) \<Rightarrow> (200, (run_entry ''completed'' run)\<lparr>cy_balance := Some (mc_adjusted c),
         cy_as_of := Some (iso_to_string (dates X) as_of)\<rparr>)
     | Inr (BalanceFailed run class m) \<Rightarrow> (monarch_status class, (run_entry ''failed'' run)\<lparr>cy_error := Some (monarch_code class),
         cy_message := Some m\<rparr>)
     | Inr (BalanceRunning run) \<Rightarrow> (202, run_entry ''already_running'' run)
     | Inr (BalanceScheduled run) \<Rightarrow> (200, run_entry (case sr_status run of Running \<Rightarrow> ''slot_already_running''
         | Failure \<Rightarrow> ''failed_slot_already_recorded'' | _ \<Rightarrow> ''slot_already_completed'') run)
     | Inr (BalanceCovered run) \<Rightarrow> (200, run_entry ''covered_by_success'' run)
     | Inl e \<Rightarrow> (monarch_status (monarch_class_of e), (plain_entry ''failed'')\<lparr>cy_error := Some (monarch_code (monarch_class_of e)),
         cy_message := Some (monarch_message e)\<rparr>))"

text \<open>The balance of a scheduled refresh is dated with the slot's calendar date.\<close>

definition run_monarch_scheduled :: "date_api \<Rightarrow> ext \<Rightarrow> (string \<Rightarrow> bool) \<Rightarrow> monarch_env \<Rightarrow> string \<Rightarrow> app_db \<Rightarrow>
    (nat \<times> cron_entry) \<times> app_db" where
  "run_monarch_scheduled D X T M scheduled_for db =
     (case (if 10 \<le> length scheduled_for then iso_from_str (dates X) (take 10 scheduled_for) else Inl (Err [])) of
        Inl _ \<Rightarrow> ((500, (plain_entry ''invalid_slot'')\<lparr>cy_scheduled_for := Some scheduled_for\<rparr>), db)
      | Inr as_of \<Rightarrow> (case balance_run D X T M as_of (Some scheduled_for) db of (r, db') \<Rightarrow> (monarch_entry X r, db')))"

subsection \<open>The loop\<close>

record cron_env =
  cv_now :: instant
  cv_sync :: sync_env
  cv_monarch :: monarch_env

definition sync_due :: "date_api \<Rightarrow> ext \<Rightarrow> (string \<Rightarrow> bool) \<Rightarrow> tmo_ext \<Rightarrow> cron_env \<Rightarrow> string \<Rightarrow> string \<Rightarrow> app_db \<Rightarrow>
    (nat \<times> bool \<times> cron_entry) \<times> app_db" where
  "sync_due D X T N V slug scheduled_for db =
     (if slug = tmo_slug
      then (case sync_run_tmo D X T N (cv_sync V) (ScheduledTrigger scheduled_for) db of (r, db') \<Rightarrow> (tmo_entry r, db'))
      else (case run_monarch_scheduled D X T (cv_monarch V) scheduled_for db of ((status, entry), db') \<Rightarrow>
             ((status, status = 503, entry), db')))"

definition prepare_refused :: "sched_error \<Rightarrow> cron_reply" where
  "prepare_refused e = (case e of
       SchedOperation OpReadOnly \<Rightarrow> CronError 503 ''read_only'' ''Writes are temporarily disabled.'' True
     | SchedOperation OpSchedulerDisabled \<Rightarrow> CronError 503 ''scheduler_disabled'' ''Scheduled synchronization is disabled.'' True
     | _ \<Rightarrow> CronError 503 ''service_unavailable'' ''Scheduled synchronization is temporarily unavailable.'' True)"

fun cron_loop :: "date_api \<Rightarrow> ext \<Rightarrow> (string \<Rightarrow> bool) \<Rightarrow> tmo_ext \<Rightarrow> cron_env \<Rightarrow> string list \<Rightarrow> cron_entry list \<Rightarrow> nat \<Rightarrow> bool \<Rightarrow>
    app_db \<Rightarrow> cron_reply \<times> app_db" where
  "cron_loop D X T N V [] entries worst retry db = (CronEntries worst retry entries, db)"
| "cron_loop D X T N V (slug # slugs) entries worst retry db =
     (case on_ops (prepare_schedule D T slug (cv_now V)) db of
        (Inl e, db') \<Rightarrow> if e = InvalidCadence
           then cron_loop D X T N V slugs (entries @ [(plain_entry ''invalid_cadence'')\<lparr>cy_provider := slug\<rparr>]) (max worst 409) retry db'
           else (prepare_refused e, db')
      | (Inr NotConfigured, db') \<Rightarrow>
           cron_loop D X T N V slugs (entries @ [(plain_entry ''not_configured'')\<lparr>cy_provider := slug\<rparr>]) worst retry db'
      | (Inr ManualOnly, db') \<Rightarrow>
           cron_loop D X T N V slugs (entries @ [(plain_entry ''manual'')\<lparr>cy_provider := slug\<rparr>]) worst retry db'
      | (Inr (Due scheduled_for next_at), db') \<Rightarrow>
           (case sync_due D X T N V slug scheduled_for db' of ((status, needs_retry, entry), db'') \<Rightarrow>
              cron_loop D X T N V slugs (entries @ [entry\<lparr>cy_provider := slug, cy_scheduled_for := Some scheduled_for,
                cy_next := Some next_at\<rparr>]) (max worst status) (retry \<or> needs_retry) db''))"

definition run_cron :: "date_api \<Rightarrow> ext \<Rightarrow> (string \<Rightarrow> bool) \<Rightarrow> tmo_ext \<Rightarrow> cron_env \<Rightarrow> app_db \<Rightarrow> cron_reply \<times> app_db" where
  "run_cron D X T N V = cron_loop D X T N V [tmo_slug, monarch_slug] [] 200 False"

subsection \<open>Changing the cadence\<close>

datatype cadence_error = CadenceInvalid | CadenceUnsupported | CadenceNotFound | CadenceStorage string

definition canonical_cadence :: "string \<Rightarrow> cadence option" where
  "canonical_cadence raw = Option.bind (parse_cadence raw) (\<lambda>c. if raw = cadence_str c then Some c else None)"

definition cadence_update :: "cadence \<Rightarrow> string option \<Rightarrow> string \<Rightarrow> conn_row \<Rightarrow> conn_row" where
  "cadence_update cad next updated_at c =
     c\<lparr>cn_cadence := cadence_str cad, cn_next_scheduled_at := next, cn_updated_at := updated_at\<rparr>"

definition persist_cadence :: "date_api \<Rightarrow> (string \<Rightarrow> bool) \<Rightarrow> string \<Rightarrow> cadence \<Rightarrow> instant \<Rightarrow>
    (op_db, cadence_error, string option) op" where
  "persist_cadence D T slug cad now =
     (let next = map_option (format_utc_millis D) (next_slot D cad now) in
      thn (require (slug = tmo_slug) CadenceUnsupported)
     (transaction
       (bnd (map_err (\<lambda>e. CadenceStorage (case e of IntStorage m \<Rightarrow> m | _ \<Rightarrow> []))
              (update_connections T ''update integration cadence'' (\<lambda>c. cn_slug c = slug)
                (cadence_update cad next (format_utc_millis D now)))) (\<lambda>changed.
        thn (require (changed = 1) CadenceNotFound) (ok next)))))"

definition cadence_status :: "cadence_error \<Rightarrow> nat" where
  "cadence_status e = (case e of CadenceInvalid \<Rightarrow> 422 | CadenceUnsupported \<Rightarrow> 422 | CadenceNotFound \<Rightarrow> 404 | CadenceStorage _ \<Rightarrow> 503)"

definition cadence_code :: "cadence_error \<Rightarrow> string" where
  "cadence_code e = (case e of CadenceInvalid \<Rightarrow> ''invalid_cadence'' | CadenceUnsupported \<Rightarrow> ''unsupported_integration''
     | CadenceNotFound \<Rightarrow> ''not_found'' | CadenceStorage _ \<Rightarrow> ''service_unavailable'')"

definition cadence_message :: "cadence_error \<Rightarrow> string" where
  "cadence_message e = (case e of CadenceInvalid \<Rightarrow> ''Choose manual, hourly, every 6 hours, every 12 hours, or daily.''
     | CadenceUnsupported \<Rightarrow> ''Automatic synchronization is not available for this integration.''
     | CadenceNotFound \<Rightarrow> ''This integration no longer exists.''
     | CadenceStorage _ \<Rightarrow> ''The sync cadence could not be saved. Try again.'')"

datatype cadence_body = CadenceSaved string "string option" | CadenceProblem string string
  | CadenceFragment string string "string option"

record cadence_reply =
  cq_status :: nat
  cq_retry_after :: bool
  cq_body :: cadence_body

definition render_cadence_feedback :: "nat \<Rightarrow> string \<Rightarrow> string \<Rightarrow> string option \<Rightarrow> bool \<Rightarrow> bool \<Rightarrow> cadence_reply" where
  "render_cadence_feedback status class message cad htmx retry_after =
     \<lparr>cq_status = (if htmx then 200 else status), cq_retry_after = retry_after, cq_body = CadenceFragment class message cad\<rparr>"

definition cadence_success_response :: "cadence \<Rightarrow> string option \<Rightarrow> bool \<Rightarrow> bool \<Rightarrow> cadence_reply" where
  "cadence_success_response cad next json htmx =
     (if json then \<lparr>cq_status = 200, cq_retry_after = False, cq_body = CadenceSaved (cadence_str cad) next\<rparr>
      else render_cadence_feedback 200 ''alert-success'' ''Sync cadence saved.'' (Some (cadence_str cad)) htmx False)"

definition cadence_error_response :: "cadence_error \<Rightarrow> bool \<Rightarrow> bool \<Rightarrow> cadence_reply" where
  "cadence_error_response e json htmx =
     (let status = cadence_status e; retry_after = status = 503
      in if json then \<lparr>cq_status = status, cq_retry_after = retry_after, cq_body = CadenceProblem (cadence_code e) (cadence_message e)\<rparr>
         else render_cadence_feedback status (if 500 \<le> status \<and> status < 600 then ''alert-error'' else ''alert-warning'')
           (cadence_message e) None htmx retry_after)"

definition update_cadence :: "date_api \<Rightarrow> (string \<Rightarrow> bool) \<Rightarrow> instant \<Rightarrow> string \<Rightarrow> string \<Rightarrow> bool \<Rightarrow> bool \<Rightarrow> op_db \<Rightarrow>
    cadence_reply \<times> op_db" where
  "update_cadence D T now slug raw json htmx db =
     (case canonical_cadence raw of None \<Rightarrow> (cadence_error_response CadenceInvalid json htmx, db)
      | Some cad \<Rightarrow>
          if slug \<noteq> tmo_slug then (cadence_error_response CadenceUnsupported json htmx, db)
          else (case persist_cadence D T slug cad now db of
              (Inr next, db') \<Rightarrow> (cadence_success_response cad next json htmx, db')
            | (Inl e, db') \<Rightarrow> (cadence_error_response e json htmx, db')))"

end
