(* ===== verification/Cron_Outcome.thy ===== *)
theory Cron_Outcome
  imports Cron_Loop
begin

text \<open>
  What repeated cron invocations do to the database: they keep its invariant, the log and the bound on attempts whatever
  the providers answer (\<open>cron_sequence\<close>), and change nothing at all while the durable gate is closed.
\<close>

subsection \<open>Each step keeps the invariant\<close>

lemma keeps_prepare: "keeps (op_inv T) (prepare_schedule D T slug now)" "evolves ops_kept (prepare_schedule D T slug now)"
proof -
  have k: "keeps (op_inv T) (update_connections T ctx P (next_slot_update n t))" for ctx P n t
    unfolding update_connections_def by (rule keeps_sql_write) (simp add: op_inv_def run_ids_def attempts_def)
  have e: "evolves ops_kept (update_connections T ctx P (next_slot_update n t))" for ctx P n t
    unfolding update_connections_def
    by (rule conn.evolves_write) (auto simp: ops_kept_def rows_related_refl run_kept_refl map_update_rows next_slot_update_def)
  have r: "reads require_scheduler_enabled" "reads (connection_by_slug slug)" for slug by auto
  have p: "reads (preparation_of D now z)" for z
    unfolding preparation_of_def by (auto intro!: reads_intros split: option.splits)
  show "keeps (op_inv T) (prepare_schedule D T slug now)"
    unfolding prepare_schedule_def record_schedule_def set_next_scheduled_at_def Let_def
    by (intro keeps_rules k reads_keeps [OF p] reads_keeps [OF r(1)] reads_keeps [OF r(2)])
  show "evolves ops_kept (prepare_schedule D T slug now)"
    unfolding prepare_schedule_def record_schedule_def set_next_scheduled_at_def Let_def
    by (intro conn.evolves_rules evolves_map_err e conn.evolves_reads p r)
qed

lemma sync_claimed:
  assumes "friendly X T E"
  shows "evolves (sync_good X T) (recover_claim D T E run e)" "evolves (sync_good X T) (run_claimed D X T N E run)"
proof -
  have o: "sync_good X T a (en_others E i a)" for i a using assms by (simp add: friendly_def)
  have rec: "sync_good X T db t" if "recover_claim D T E run e db = (res, t)" for db t e res
  proof -
    let ?u = "en_others E 5 db"
    obtain r t' where f: "finish_failure D T (en_recovered E) (en_recovered E) run None e ?u = (r, t')"
      by (cases "finish_failure D T (en_recovered E) (en_recovered E) run None e ?u")
    have "t = t' \<or> t = ?u" using that f by (auto simp: recover_claim_def split: option.splits sum.splits if_splits)
    moreover have "sync_good X T ?u t'" by (rule evolvesD [OF sync_failure f])
    ultimately show ?thesis using o [of db 5] sync.trans sync.refl by blast
  qed
  then show "evolves (sync_good X T) (recover_claim D T E run e)" unfolding evolves_def by (metis prod.collapse)
  have "sync_good X T db t" if "run_claimed D X T N E run db = (res, t)" for db t res
  proof -
    obtain r0 t0 where x: "execute_claimed D X T N E run db = (r0, t0)" by (cases "execute_claimed D X T N E run db")
    have g: "sync_good X T db t0" by (rule execute_good [OF assms x])
    have "t = t0 \<or> (\<exists>e d. recover_claim D T E run e d = (res, t) \<and> d \<in> {db, t0})"
      using that x by (auto simp: run_claimed_def split: fate.splits sum.splits if_splits)
    then show ?thesis using g rec sync.trans by blast
  qed
  then show "evolves (sync_good X T) (run_claimed D X T N E run)" unfolding evolves_def by (metis prod.collapse)
qed

lemma sync_run_tmo_good:
  assumes "friendly X T E"
  shows "evolves (sync_good X T) (sync_run_tmo D X T N E trigger)"
proof -
  have o: "evolves (sync_good X T) (others E i)" for i
    using assms by (simp add: evolves_def others_def friendly_def)
  show ?thesis
    unfolding sync_run_tmo_def Let_def
    by (intro sync.evolves_bnd sync.evolves_thn o evolves_map_err sync_operations)
      (auto intro!: sync_operations sync_claimed(2) [OF assms] sync.evolves_pure sync.evolves_thn o
        split: sync_trigger.splits claim_outcome.splits)
qed

definition cron_friendly :: "ext \<Rightarrow> (string \<Rightarrow> bool) \<Rightarrow> cron_env \<Rightarrow> bool" where
  "cron_friendly X T V \<longleftrightarrow> friendly X T (cv_sync V) \<and> balance_friendly X T (cv_monarch V)"

lemma sync_due_good:
  assumes "cron_friendly X T V" "sync_due D X T N V slug slot db = (r, db')"
  shows "sync_good X T db db'"
proof -
  have t: "evolves (sync_good X T) (sync_run_tmo D X T N (cv_sync V) (ScheduledTrigger slot))"
    and m: "evolves (sync_good X T) (balance_run D X T (cv_monarch V) as_of (Some slot))" for as_of
    using assms(1) sync_run_tmo_good sync_balance_run by (simp_all add: cron_friendly_def)
  from assms(2) show ?thesis
    using evolvesD [OF t] evolvesD [OF m] sync.refl
    by (auto simp: sync_due_def run_monarch_scheduled_def split: if_splits prod.splits sum.splits)
qed

lemma cron_loop_good:
  assumes "cron_friendly X T V" "cron_loop D X T N V slugs entries worst retry db = (r, db')"
  shows "sync_good X T db db'"
  using assms(2)
proof (induction slugs arbitrary: entries worst retry db)
  case Nil
  then show ?case by (simp add: sync.refl)
next
  case (Cons slug slugs)
  obtain p db1 where p: "on_ops (prepare_schedule D T slug (cv_now V)) db = (p, db1)"
    by (cases "on_ops (prepare_schedule D T slug (cv_now V)) db")
  have g1: "sync_good X T db db1" by (rule evolvesD [OF sync_on_ops [OF keeps_prepare] p])
  have "db' = db1 \<or> (\<exists>en w rt d. cron_loop D X T N V slugs en w rt d = (r, db') \<and>
      (d = db1 \<or> (\<exists>slot out. sync_due D X T N V slug slot db1 = (out, d))))"
    using Cons.prems p
    by (auto split: sum.splits preparation.splits prod.splits if_splits)
  then obtain d where "sync_good X T d db' \<or> db' = db1" "sync_good X T db1 d"
    using Cons.IH sync_due_good [OF assms(1)] sync.refl by blast
  then show ?case using g1 sync.trans by blast
qed

definition cron_after :: "date_api \<Rightarrow> ext \<Rightarrow> (string \<Rightarrow> bool) \<Rightarrow> tmo_ext \<Rightarrow> cron_env list \<Rightarrow> app_db \<Rightarrow> app_db" where
  "cron_after D X T N Vs db = foldl (\<lambda>db V. snd (run_cron D X T N V db)) db Vs"

lemma cron_after_good:
  "list_all (cron_friendly X T) Vs \<Longrightarrow> sync_good X T db (cron_after D X T N Vs db)"
proof (induction Vs rule: rev_induct)
  case Nil
  then show ?case by (simp add: cron_after_def sync.refl)
next
  case (snoc V Vs)
  let ?d = "cron_after D X T N Vs db"
  have "sync_good X T ?d (snd (run_cron D X T N V ?d))"
    using snoc.prems unfolding run_cron_def by (intro cron_loop_good [OF _ prod.collapse [symmetric]]) simp
  moreover have "sync_good X T db ?d" using snoc by simp
  ultimately show ?case using sync.trans by (auto simp: cron_after_def)
qed

text \<open>C8: However often the cron is delivered, late, twice or concurrently with other processes that keep the invariant, and
  whatever TMO and Monarch answer each time: no slot of an integration is attempted more than three times or succeeds
  twice, no integration has two running runs, no finished run changes, and the constraints of every table hold.\<close>

theorem cron_sequence:
  assumes "sync_inv X T db" "list_all (cron_friendly X T) Vs"
  shows "(\<forall>slug slot. attempts slug slot (ap_ops (cron_after D X T N Vs db)) \<le> 3 \<and>
      count_rows (\<lambda>r. rr_slug r = slug \<and> rr_scheduled_for r = Some slot \<and> rr_status r = ''success'')
        (runs (ap_ops (cron_after D X T N Vs db))) \<le> 1 \<and>
      count_rows (\<lambda>r. rr_slug r = slug \<and> rr_status r = ''running'') (runs (ap_ops (cron_after D X T N Vs db))) \<le> 1) \<and>
    log_kept db (cron_after D X T N Vs db) \<and> app_valid X T (cron_after D X T N Vs db)"
proof -
  let ?d = "cron_after D X T N Vs db"
  have g: "sync_inv X T ?d \<and> log_kept db ?d" by (rule sync_goodD [OF cron_after_good [OF assms(2)] assms(1)])
  then have o: "op_inv T (ap_ops ?d)" "app_valid X T ?d" by (simp_all add: sync_inv_def)
  have cf: "clash_free (runs (ap_ops ?d))" by (rule op_validD(3) [OF op_invD(1) [OF o(1)]])
  have "count_rows (\<lambda>r. rr_slug r = slug \<and> rr_status r = ''running'') (runs (ap_ops ?d)) \<le> 1"
    "count_rows (\<lambda>r. rr_slug r = slug \<and> rr_scheduled_for r = Some slot \<and> rr_status r = ''success'') (runs (ap_ops ?d)) \<le> 1"
    for slug slot
    by (rule clash_free_count [OF cf]; simp add: run_clash_def live_def)+
  with g o op_invD(3) [OF o(1)] show ?thesis by (simp add: max_scheduled_attempts_def)
qed

text \<open>Two deliveries in the same slot, TMO timing out each time.\<close>

definition sample_cron :: cron_env where
  "sample_cron = \<lparr>cv_now = one_pm, cv_sync = sample_env Returns, cv_monarch = sample_monarch\<rparr>"

theorem cron_sequence_witness:
  "attempts ''tmo'' op_slot (ap_ops (cron_after gregorian sample_ext any_time sample_tmo [sample_cron, sample_cron] trust_db)) \<le> 3"
proof -
  have "balance_friendly sample_ext any_time sample_monarch" by (simp add: balance_friendly_def sample_monarch_def sync.refl)
  then have "list_all (cron_friendly sample_ext any_time) [sample_cron, sample_cron]"
    using sample_env_ok(3) by (simp add: cron_friendly_def sample_cron_def)
  from cron_sequence [OF trust_inv this] show ?thesis by blast
qed

text \<open>While the durable control row does not enable both writes and the scheduler, a cron invocation is refused with 503
  and a retry hint, calls no provider and changes nothing.\<close>

lemma cron_gate:
  assumes "op_valid T (ap_ops db)" "op_control_row (ap_ops db) \<noteq> None" "\<not> scheduler_on (ap_ops db)"
  shows "\<exists>code m. run_cron D X T N V db = (CronError 503 code m True, db)"
proof -
  have "\<exists>e \<in> {OpReadOnly, OpSchedulerDisabled}. require_scheduler_enabled (ap_ops db) = (Inl e, ap_ops db)"
  proof (cases "writes_on (ap_ops db)")
    case True
    then obtain c where "require_writes_enabled (ap_ops db) = (Inr c, ap_ops db)" "\<not> oc_scheduler_enabled c"
      using require_writes_result(1) [OF assms(1)] assms(3) by blast
    then show ?thesis by (simp add: require_scheduler_enabled_def bnd_def raise_def)
  next
    case False
    with require_writes_result(2) [OF assms(1) _ assms(2)] show ?thesis by (simp add: require_scheduler_enabled_def bnd_def)
  qed
  then obtain e where e: "e \<in> {OpReadOnly, OpSchedulerDisabled}" "require_scheduler_enabled (ap_ops db) = (Inl e, ap_ops db)" by blast
  then have "on_ops (prepare_schedule D T slug now) db = (Inl (SchedOperation e), db)" for slug now
    by (simp add: prepare_schedule_def on_ops_def zoom_def bnd_def transaction_def map_err_def put_ops_def)
  with e(1) show ?thesis by (auto simp: run_cron_def prepare_refused_def)
qed

text \<open>A cadence that was saved is read back as itself, so that the cron never meets an invalid one.\<close>

lemma cadence_str_inj: "cadence_str v = cadence_str c \<Longrightarrow> v = c"
  by (metis cadence_roundtrip option.inject)

lemma canonical_cadence_roundtrip: "canonical_cadence raw = Some c \<longleftrightarrow> raw = cadence_str c"
  by (auto simp: canonical_cadence_def cadence_roundtrip dest: cadence_str_inj split: bind_splits)

end
