(* ===== verification/Sync_Http.thy ===== *)
theory Sync_Http
  imports Cron_Outcome
begin

text \<open>
  The synchronisation requests of \<open>src/sync_runtime/http.rs\<close> and the Monarch request of \<open>src/integrations/actions.rs\<close>:
  starting a manual run, its status and its log, which first repair runs that their owner can no longer finish
  (\<open>recent_runs\<close>). Only TMO can be synchronised here. A reply holds the status and the values of the body;
  HTML fragments hold what their template shows. \<open>rfc3339\<close> is the \<open>time\<close> crate's parser of the stored start.
\<close>

datatype sync_body = RunBody string sync_run | RunsBody "sync_run list" | CurrentBody "sync_run option"
  | StatusFragment string "sync_run option" | LogsFragment "sync_run list" | SyncErrorBody string string
  | SyncErrorFragment string string | BalanceBody "sync_run option" string "monarch_capture option"

record sync_reply =
  yr_status :: nat
  yr_retry_after :: bool
  yr_body :: sync_body

definition sync_reply_of :: "nat \<Rightarrow> sync_body \<Rightarrow> sync_reply" where
  "sync_reply_of status body = \<lparr>yr_status = status, yr_retry_after = False, yr_body = body\<rparr>"

record accepts =
  ax_json :: bool
  ax_htmx :: bool

definition sync_simple_error :: "nat \<Rightarrow> string \<Rightarrow> string \<Rightarrow> accepts \<Rightarrow> sync_reply" where
  "sync_simple_error status error_code message h = sync_reply_of status
     (if ax_json h then SyncErrorBody error_code message
      else SyncErrorFragment (if 500 \<le> status \<and> status < 600 then ''alert-error'' else ''alert-warning'') message)"

definition runtime_error_response :: "sync_error \<Rightarrow> accepts \<Rightarrow> sync_reply" where
  "runtime_error_response e h = sync_simple_error (error_http_status e) (class_code e) (public_message e) h"

definition unsupported_response :: "accepts \<Rightarrow> sync_reply" where
  "unsupported_response h = sync_simple_error 422 ''unsupported_integration'' ''Synchronization is not available for this integration.'' h"

definition execution_response :: "sync_execution \<Rightarrow> accepts \<Rightarrow> sync_reply" where
  "execution_response e h =
     (if ax_json h then sync_reply_of (execution_http_status e) (RunBody (outcome_code e) (execution_run e))
      else sync_reply_of (if ax_htmx h then 200 else execution_http_status e)
        (StatusFragment (outcome_code e) (Some (execution_run e))))"

definition run_for_slug :: "date_api \<Rightarrow> ext \<Rightarrow> (string \<Rightarrow> bool) \<Rightarrow> tmo_ext \<Rightarrow> sync_env \<Rightarrow> string \<Rightarrow> accepts \<Rightarrow> app_db \<Rightarrow> sync_reply \<times> app_db" where
  "run_for_slug D X T N E slug h db =
     (if slug \<noteq> tmo_slug then (unsupported_response h, db)
      else (case sync_run_tmo D X T N E ManualTrigger db of
          (Inr e, db') \<Rightarrow> (execution_response e h, db') | (Inl e, db') \<Rightarrow> (runtime_error_response e h, db')))"

definition run_global :: "date_api \<Rightarrow> ext \<Rightarrow> (string \<Rightarrow> bool) \<Rightarrow> tmo_ext \<Rightarrow> sync_env \<Rightarrow> string option \<Rightarrow> accepts \<Rightarrow> app_db \<Rightarrow> sync_reply \<times> app_db" where
  "run_global D X T N E slug h db = run_for_slug D X T N E (case slug of None \<Rightarrow> tmo_slug | Some s \<Rightarrow> s) h db"

subsection \<open>Recent runs\<close>

definition run_is_stale :: "(string \<Rightarrow> instant option) \<Rightarrow> instant \<Rightarrow> sync_run \<Rightarrow> bool" where
  "run_is_stale rfc3339 now r = (case rfc3339 (sr_started_at r) of None \<Rightarrow> True | Some t \<Rightarrow> t < now - stale_after)"

definition repair_stale :: "date_api \<Rightarrow> (string \<Rightarrow> bool) \<Rightarrow> string \<Rightarrow> instant \<Rightarrow> (op_db, sync_error, unit) op" where
  "repair_stale D T slug now = (\<lambda>db.
     case interrupt_stale T slug (format_utc_millis D now) (format_utc_millis D (now - stale_after)) db of
       (Inr _, db') \<Rightarrow> (Inr (), db')
     | (Inl e, db') \<Rightarrow> (if e = OpReadOnly then Inr () else Inl (SyncOperation e), db'))"

definition recent_runs :: "date_api \<Rightarrow> (string \<Rightarrow> bool) \<Rightarrow> (string \<Rightarrow> instant option) \<Rightarrow> string \<Rightarrow> instant \<Rightarrow> (op_db, sync_error, sync_run list) op" where
  "recent_runs D T rfc3339 slug now =
     bnd (map_err SyncOperation (list_recent slug 20)) (\<lambda>rs.
       if list_ex (\<lambda>r. sr_status r = Running \<and> run_is_stale rfc3339 now r) rs
       then thn (repair_stale D T slug now) (map_err SyncOperation (list_recent slug 20))
       else ok rs)"

definition run_outcome_text :: "sync_run option \<Rightarrow> string" where
  "run_outcome_text r = (case r of None \<Rightarrow> ''none''
     | Some r \<Rightarrow> (case sr_status r of Running \<Rightarrow> ''running'' | Success \<Rightarrow> ''completed'' | Failure \<Rightarrow> ''failed''))"

definition status_for_slug :: "date_api \<Rightarrow> (string \<Rightarrow> bool) \<Rightarrow> (string \<Rightarrow> instant option) \<Rightarrow> string \<Rightarrow> instant \<Rightarrow> accepts \<Rightarrow> op_db \<Rightarrow>
    sync_reply \<times> op_db" where
  "status_for_slug D T rfc3339 slug now h db =
     (if slug \<noteq> tmo_slug then (unsupported_response h, db)
      else (case recent_runs D T rfc3339 slug now db of
          (Inr rs, db') \<Rightarrow> (sync_reply_of 200 (let run = current_or_last rs in
              if ax_json h then CurrentBody run else StatusFragment (run_outcome_text run) run), db')
        | (Inl e, db') \<Rightarrow> (runtime_error_response e h, db')))"

definition status_json :: "date_api \<Rightarrow> (string \<Rightarrow> bool) \<Rightarrow> (string \<Rightarrow> instant option) \<Rightarrow> string \<Rightarrow> instant \<Rightarrow> op_db \<Rightarrow>
    (nat \<times> string \<times> string + sync_run option) \<times> op_db" where
  "status_json D T rfc3339 slug now db =
     (if slug \<noteq> tmo_slug then (Inl (422, ''unsupported_integration'', ''Synchronization is not available for this integration.''), db)
      else (case recent_runs D T rfc3339 slug now db of
          (Inr rs, db') \<Rightarrow> (Inr (current_or_last rs), db')
        | (Inl e, db') \<Rightarrow> (Inl (error_http_status e, class_code e, public_message e), db')))"

definition logs_for_slug :: "date_api \<Rightarrow> (string \<Rightarrow> bool) \<Rightarrow> (string \<Rightarrow> instant option) \<Rightarrow> string \<Rightarrow> instant \<Rightarrow> accepts \<Rightarrow> op_db \<Rightarrow>
    sync_reply \<times> op_db" where
  "logs_for_slug D T rfc3339 slug now h db =
     (if slug \<noteq> tmo_slug then (unsupported_response h, db)
      else (case recent_runs D T rfc3339 slug now db of
          (Inr rs, db') \<Rightarrow> (sync_reply_of 200 (if ax_json h then RunsBody rs else LogsFragment rs), db')
        | (Inl e, db') \<Rightarrow> (runtime_error_response e h, db')))"

subsection \<open>The Monarch request\<close>

definition monarch_execution_response :: "monarch_execution \<Rightarrow> sync_reply" where
  "monarch_execution_response e = (case e of
       BalanceCompleted run c _ \<Rightarrow> sync_reply_of 200 (BalanceBody (Some run) ''completed'' (Some c))
     | BalanceFailed run class _ \<Rightarrow> (sync_reply_of (monarch_status class) (BalanceBody (Some run) ''failed'' None))
         \<lparr>yr_retry_after := class = MStorage\<rparr>
     | BalanceRunning run \<Rightarrow> sync_reply_of 409 (BalanceBody (Some run) ''already_running'' None)
     | BalanceScheduled run \<Rightarrow> sync_reply_of 200 (BalanceBody (Some run) ''slot_already_covered'' None)
     | BalanceCovered run \<Rightarrow> sync_reply_of 200 (BalanceBody (Some run) ''slot_already_covered'' None))"

definition monarch_error_response :: "monarch_error \<Rightarrow> sync_reply" where
  "monarch_error_response e = (let class = monarch_class_of e in
     (sync_reply_of (monarch_status class) (SyncErrorBody (monarch_code class) (monarch_message e)))\<lparr>yr_retry_after := class = MStorage\<rparr>)"

definition sync_monarch_balance :: "date_api \<Rightarrow> ext \<Rightarrow> (string \<Rightarrow> bool) \<Rightarrow> monarch_env \<Rightarrow> string \<Rightarrow> app_db \<Rightarrow> sync_reply \<times> app_db" where
  "sync_monarch_balance D X T M as_of_date db =
     (case iso_from_str (dates X) as_of_date of
        Inl _ \<Rightarrow> (sync_reply_of 422 (SyncErrorBody ''validation'' ''as_of_date must be a valid YYYY-MM-DD calendar date.''), db)
      | Inr as_of \<Rightarrow> (case balance_run D X T M as_of None db of
            (Inr e, db') \<Rightarrow> (monarch_execution_response e, db') | (Inl e, db') \<Rightarrow> (monarch_error_response e, db')))"

end
