(* ===== verification/Media_Key.thy ===== *)
theory Media_Key
  imports Rust_Text
begin

text \<open>
  Object keys and photo locations, \<open>src/media/key.rs\<close>. \<open>Url::parse\<close> of the url crate is the parameter
  \<open>parse_url\<close>; its view of a URL holds what the code reads of it. The lemmas show that every key the code accepts is a
  relative path without empty, dot or dot-dot segments, and that a photo's route URL leads back to its key.
\<close>

subsection \<open>Errors and URLs\<close>

datatype media_error = MediaConfiguration | MediaDisabled | InvalidInput | InvalidKey | InvalidIntent | ExpiredIntent
  | ObjectMissing | ObjectMismatch | StorageUnavailable

record url_view =
  uv_scheme :: string
  uv_host :: "string option"
  uv_username :: string
  uv_has_password :: bool
  uv_has_query :: bool
  uv_has_fragment :: bool
  uv_text :: string

datatype photo_location = StoredPhoto string | ExternalOnly

definition media_prefix :: string where
  "media_prefix = ''/media/loan-workspace/''"

definition static_prefix :: string where
  "static_prefix = ''/static/loan-images/''"

definition canonical_photo_prefix :: string where
  "canonical_photo_prefix = ''loan-workspace/''"

definition max_key_bytes :: nat where
  "max_key_bytes = 1024"

subsection \<open>Canonical keys\<close>

definition canonical_key :: "string \<Rightarrow> media_error + string" where
  "canonical_key raw =
     (if raw = [] \<or> max_key_bytes < length raw then Inl InvalidKey
      else if raw \<noteq> trim raw \<or> prefix ''/'' raw \<or> suffix ''/'' raw \<or> CHR ''%'' \<in> set raw then Inl InvalidKey
      else if CHR 0x5C \<in> set raw \<or> contains_text raw ''//'' \<or> CHR ''?'' \<in> set raw \<or> CHR ''#'' \<in> set raw \<or> has_control raw
      then Inl InvalidKey
      else if list_ex (\<lambda>segment. segment = [] \<or> segment = ''.'' \<or> segment = ''..'') (split_on (CHR ''/'') raw) then Inl InvalidKey
      else Inr raw)"

definition photo_key_from_route :: "string \<Rightarrow> media_error + string" where
  "photo_key_from_route route_key = canonical_key (canonical_photo_prefix @ route_key)"

subsection \<open>Percent encoding\<close>

definition hex_upper :: "nat \<Rightarrow> char" where
  "hex_upper n = ''0123456789ABCDEF'' ! n"

fun aws_encode :: "bool \<Rightarrow> string \<Rightarrow> string" where
  "aws_encode preserve_slashes [] = []"
| "aws_encode preserve_slashes (b # bs) =
     (if is_alnum b \<or> b \<in> {CHR ''-'', CHR ''_'', CHR ''.'', CHR ''~''} \<or> preserve_slashes \<and> b = CHR ''/''
      then [b] else [CHR ''%'', hex_upper (code b div 16), hex_upper (code b mod 16)]) @ aws_encode preserve_slashes bs"

definition encode_route_segment :: "string \<Rightarrow> string" where
  "encode_route_segment = aws_encode False"

definition aws_encode_path :: "string \<Rightarrow> string" where
  "aws_encode_path = aws_encode True"

definition aws_encode_query :: "string \<Rightarrow> string" where
  "aws_encode_query = aws_encode False"

definition decode_hex :: "char \<Rightarrow> nat option" where
  "decode_hex c = (let n = code c in
     if 48 \<le> n \<and> n \<le> 57 then Some (n - 48) else if 97 \<le> n \<and> n \<le> 102 then Some (n - 97 + 10)
     else if 65 \<le> n \<and> n \<le> 70 then Some (n - 65 + 10) else None)"

text \<open>\<open>String::from_utf8\<close>: the well-formed byte sequences of the Unicode standard.\<close>

definition cont :: "nat \<Rightarrow> bool" where
  "cont n \<longleftrightarrow> 0x80 \<le> n \<and> n \<le> 0xBF"

fun utf8_codes :: "nat list \<Rightarrow> bool" where
  "utf8_codes [] = True"
| "utf8_codes (a # s) =
     (if a \<le> 0x7F then utf8_codes s
      else if 0xC2 \<le> a \<and> a \<le> 0xDF then (case s of b # t \<Rightarrow> cont b \<and> utf8_codes t | _ \<Rightarrow> False)
      else if 0xE0 \<le> a \<and> a \<le> 0xEF then
        (case s of b # c # t \<Rightarrow> cont b \<and> cont c \<and> (a = 0xE0 \<longrightarrow> 0xA0 \<le> b) \<and> (a = 0xED \<longrightarrow> b \<le> 0x9F) \<and> utf8_codes t | _ \<Rightarrow> False)
      else if 0xF0 \<le> a \<and> a \<le> 0xF4 then
        (case s of b # c # d # t \<Rightarrow> cont b \<and> cont c \<and> cont d \<and> (a = 0xF0 \<longrightarrow> 0x90 \<le> b) \<and> (a = 0xF4 \<longrightarrow> b \<le> 0x8F) \<and> utf8_codes t
         | _ \<Rightarrow> False)
      else False)"

definition utf8_ok :: "string \<Rightarrow> bool" where
  "utf8_ok s = utf8_codes (map code s)"

definition forbidden_escape :: "nat \<Rightarrow> bool" where
  "forbidden_escape v \<longleftrightarrow> v \<in> {47, 92, 46, 37, 127} \<or> v \<le> 31"

fun decode_bytes :: "string \<Rightarrow> media_error + string" where
  "decode_bytes [] = Inr []"
| "decode_bytes (b # bs) =
     (if b \<noteq> CHR ''%'' then rbnd (decode_bytes bs) (\<lambda>s. Inr (b # s))
      else (case bs of h # l # rest \<Rightarrow>
              (case (decode_hex h, decode_hex l) of
                 (Some high, Some low) \<Rightarrow>
                   (if forbidden_escape (high * 16 + low) then Inl InvalidKey
                    else rbnd (decode_bytes rest) (\<lambda>s. Inr (byte (high * 16 + low) # s)))
               | _ \<Rightarrow> Inl InvalidKey)
            | _ \<Rightarrow> Inl InvalidKey))"

definition decode_url_key :: "string \<Rightarrow> media_error + string" where
  "decode_url_key raw = rbnd (decode_bytes raw) (\<lambda>s. if utf8_ok s then Inr s else Inl InvalidKey)"

subsection \<open>Photo locations\<close>

definition photo_route_url :: "string \<Rightarrow> media_error + string" where
  "photo_route_url canonical_photo_key =
     rbnd (canonical_key canonical_photo_key) (\<lambda>key.
       case strip_prefix canonical_photo_prefix key of
         Some s \<Rightarrow> if s = [] then Inl InvalidKey else Inr (media_prefix @ aws_encode_path s)
       | None \<Rightarrow> Inl InvalidKey)"

definition legacy_photo_key :: "string \<Rightarrow> media_error + string" where
  "legacy_photo_key raw_suffix =
     (if CHR ''?'' \<in> set raw_suffix \<or> CHR ''#'' \<in> set raw_suffix then Inl InvalidKey
      else rbnd (decode_url_key raw_suffix) (\<lambda>s. canonical_key (canonical_photo_prefix @ s)))"

text \<open>\<open>split_once\<close> by a text.\<close>

fun split_once_text :: "string \<Rightarrow> string \<Rightarrow> (string \<times> string) option" where
  "split_once_text p [] = (if p = [] then Some ([], []) else None)"
| "split_once_text p (x # xs) =
     (if prefix p (x # xs) then Some ([], drop (length p) (x # xs))
      else map_option (\<lambda>(a, b). (x # a, b)) (split_once_text p xs))"

definition raw_http_path :: "string \<Rightarrow> string option" where
  "raw_http_path v = (case split_once_text ''://'' v of None \<Rightarrow> None
     | Some (_, remainder) \<Rightarrow> Some (let p = dropWhile (\<lambda>c. c \<noteq> CHR ''/'') remainder in if p = [] then ''/'' else p))"

definition is_aws_virtual_host :: "string \<Rightarrow> bool" where
  "is_aws_virtual_host host = (case split_once_text ''.s3'' host of None \<Rightarrow> False
     | Some (bucket, sfx) \<Rightarrow> bucket \<noteq> [] \<and> (sfx = ''.amazonaws.com'' \<or> prefix ''.'' sfx \<and> suffix ''.amazonaws.com'' sfx \<or>
         prefix ''-'' sfx \<and> suffix ''.amazonaws.com'' sfx))"

definition is_aws_path_host :: "string \<Rightarrow> bool" where
  "is_aws_path_host host \<longleftrightarrow> host = ''s3.amazonaws.com'' \<or> prefix ''s3.'' host \<and> suffix ''.amazonaws.com'' host \<or>
     prefix ''s3-'' host \<and> suffix ''.amazonaws.com'' host"

definition known_s3_http_key :: "string \<Rightarrow> string \<Rightarrow> media_error + string option" where
  "known_s3_http_key host0 raw_path0 =
     (let host = ascii_lower host0; raw_path = takeWhile (\<lambda>c. c \<noteq> CHR ''?'' \<and> c \<noteq> CHR ''#'') raw_path0
      in case strip_prefix ''/'' raw_path of None \<Rightarrow> Inl InvalidKey
         | Some path \<Rightarrow>
             rbnd (if is_aws_virtual_host host then (if path = [] then Inl InvalidKey else Inr (Some path))
                   else if is_aws_path_host host \<or> suffix ''.r2.cloudflarestorage.com'' host then
                     (case split_once (CHR ''/'') path of
                        Some (_, key) \<Rightarrow> if key = [] then Inl InvalidKey else Inr (Some key)
                      | None \<Rightarrow> Inl InvalidKey)
                   else Inr None) (\<lambda>raw_key.
               case raw_key of None \<Rightarrow> Inr None
               | Some k \<Rightarrow> rbnd (decode_url_key k) (\<lambda>d. rbnd (canonical_key d) (\<lambda>key. Inr (Some key)))))"

definition stored_photo :: "media_error + string \<Rightarrow> media_error + photo_location" where
  "stored_photo r = rbnd r (\<lambda>key. Inr (StoredPhoto key))"

definition classify_http :: "string \<Rightarrow> url_view \<Rightarrow> media_error + photo_location" where
  "classify_http image_url parsed =
     (if uv_username parsed \<noteq> [] \<or> uv_has_password parsed then Inl InvalidKey
      else case raw_http_path image_url of None \<Rightarrow> Inl InvalidKey
        | Some raw_path \<Rightarrow>
            (case strip_prefix media_prefix raw_path of
               Some s \<Rightarrow> if uv_has_query parsed \<or> uv_has_fragment parsed then Inl InvalidKey else stored_photo (legacy_photo_key s)
             | None \<Rightarrow>
            (case strip_prefix static_prefix raw_path of
               Some s \<Rightarrow> if uv_has_query parsed \<or> uv_has_fragment parsed then Inl InvalidKey else stored_photo (legacy_photo_key s)
             | None \<Rightarrow> rbnd (known_s3_http_key (case uv_host parsed of None \<Rightarrow> [] | Some h \<Rightarrow> h) raw_path) (\<lambda>key.
                 case key of Some k \<Rightarrow> Inr (StoredPhoto k) | None \<Rightarrow> Inr ExternalOnly))))"

definition classify_s3 :: "string \<Rightarrow> url_view \<Rightarrow> media_error + photo_location" where
  "classify_s3 image_url parsed =
     (if uv_host parsed = None \<or> uv_has_query parsed \<or> uv_has_fragment parsed then Inl InvalidKey
      else case split_once_text ''://'' image_url of None \<Rightarrow> Inl InvalidKey
        | Some (_, remainder) \<Rightarrow>
            (case split_once (CHR ''/'') remainder of None \<Rightarrow> Inl InvalidKey
             | Some (_, raw_path) \<Rightarrow> rbnd (decode_url_key raw_path) (\<lambda>d. stored_photo (canonical_key d))))"

definition classify_photo :: "(string \<Rightarrow> url_view option) \<Rightarrow> string \<Rightarrow> media_error + photo_location" where
  "classify_photo parse_url image_url =
     (if image_url \<noteq> trim image_url \<or> image_url = [] then Inl InvalidKey
      else case strip_prefix media_prefix image_url of Some s \<Rightarrow> stored_photo (legacy_photo_key s)
      | None \<Rightarrow>
     (case strip_prefix static_prefix image_url of Some s \<Rightarrow> stored_photo (legacy_photo_key s)
      | None \<Rightarrow>
     (case parse_url image_url of None \<Rightarrow> Inl InvalidKey
      | Some parsed \<Rightarrow>
          if uv_scheme parsed = ''http'' \<or> uv_scheme parsed = ''https'' then classify_http image_url parsed
          else if uv_scheme parsed = ''s3'' then classify_s3 image_url parsed
          else Inl InvalidKey)))"

definition safe_external_url :: "(string \<Rightarrow> url_view option) \<Rightarrow> string \<Rightarrow> string option" where
  "safe_external_url parse_url raw = (case parse_url raw of None \<Rightarrow> None
     | Some parsed \<Rightarrow> if uv_scheme parsed \<notin> {''http'', ''https''} \<or> uv_host parsed = None \<or> uv_username parsed \<noteq> [] \<or> uv_has_password parsed
         then None else Some (uv_text parsed))"


subsection \<open>Keys are safe\<close>

text \<open>The specification of a key: a relative path whose segments are proper names.\<close>

definition safe_key :: "string \<Rightarrow> bool" where
  "safe_key k \<longleftrightarrow> k \<noteq> [] \<and> length k \<le> max_key_bytes \<and> \<not> has_control k \<and> trim k = k \<and>
     list_all (\<lambda>segment. segment \<notin> {[], ''.'', ''..''}) (split_on (CHR ''/'') k) \<and>
     set k \<inter> {CHR ''%'', CHR 0x5C, CHR ''?'', CHR ''#''} = {}"

lemma canonical_key_safe: "canonical_key raw = Inr k \<Longrightarrow> k = raw \<and> safe_key k"
  by (auto simp: canonical_key_def safe_key_def list_all_iff list_ex_iff split: if_splits)

lemma canonical_safe: "canonical_key raw = Inr k \<Longrightarrow> safe_key k"
  using canonical_key_safe by blast

lemma classified_safe:
  assumes "classify_photo P url = Inr (StoredPhoto k)"
  shows "safe_key k"
proof -
  have legacy: "safe_key k" if "stored_photo (legacy_photo_key s) = Inr (StoredPhoto k)" for s
    using that by (auto simp: legacy_photo_key_def stored_photo_def rbnd_eq_Inr split: if_splits intro: canonical_safe)
  have s3: "safe_key k" if "known_s3_http_key h p = Inr (Some k)" for h p
    using that by (auto simp: known_s3_http_key_def Let_def rbnd_eq_Inr split: option.splits if_splits intro: canonical_safe)
  have "safe_key k" if "classify_http url v = Inr (StoredPhoto k)" for v
    using that legacy s3
    by (auto simp: classify_http_def rbnd_eq_Inr split: option.splits if_splits)
  moreover have "safe_key k" if "classify_s3 url v = Inr (StoredPhoto k)" for v
    using that canonical_safe by (fastforce simp: classify_s3_def stored_photo_def rbnd_eq_Inr split: option.splits if_splits)
  ultimately show ?thesis using assms legacy
    by (auto simp: classify_photo_def split: option.splits if_splits)
qed


subsection \<open>Encoding and decoding\<close>

definition plain_byte :: "char \<Rightarrow> bool" where
  "plain_byte b \<longleftrightarrow> b \<noteq> CHR ''%'' \<and> b \<noteq> CHR 0x5C \<and> 32 \<le> code b \<and> code b \<noteq> 127"

lemma control_free: "\<not> has_control s \<Longrightarrow> b \<in> set s \<Longrightarrow> 32 \<le> code b \<and> code b \<noteq> 127"
  by (induction s) auto

lemma has_control_append: "has_control t \<Longrightarrow> has_control (s @ t)"
  by (induction s) auto

lemma hex_digit: "n < 16 \<Longrightarrow> decode_hex (hex_upper n) = Some n \<and> is_alnum (hex_upper n)"
proof -
  assume "n < 16"
  then have "n \<in> set [0..<16]" by simp
  moreover have "list_all (\<lambda>n. decode_hex (hex_upper n) = Some n \<and> is_alnum (hex_upper n)) [0..<16]" by code_simp
  ultimately show ?thesis by (simp only: list_all_iff)
qed

lemma alnum_printable: "is_alnum c \<Longrightarrow> printable c \<and> c \<notin> {CHR ''?'', CHR ''#'', CHR ''%''}"
  by (auto simp: is_alnum_def is_digit_def is_upper_def is_lower_def printable_def code_def)

lemma printable_ascii [simp]: "printable (CHR ''-'')" "printable (CHR ''_'')" "printable (CHR ''.'')" "printable (CHR ''~'')"
  "printable (CHR ''/'')" "printable (CHR ''%'')"
  by code_simp+

lemma prefix_printable: "list_all printable media_prefix"
  by code_simp

lemma encode_chars: "c \<in> set (aws_encode p s) \<Longrightarrow> is_alnum c \<or> c \<in> {CHR ''-'', CHR ''_'', CHR ''.'', CHR ''~'', CHR ''/'', CHR ''%''}"
proof (induction s)
  case (Cons b bs)
  have "code b div 16 < 16" "code b mod 16 < 16" using code_lt [of b] by auto
  with Cons hex_digit show ?case by (auto split: if_splits)
qed simp

lemma encode_printable: "list_all printable (aws_encode p s)"
  using encode_chars alnum_printable by (fastforce simp: list_all_iff)

lemma encode_no_mark: "m \<in> {CHR ''?'', CHR ''#''} \<Longrightarrow> m \<notin> set (aws_encode p s)"
  using encode_chars [of m p s] alnum_printable by auto

lemma forbidden_plain: "plain_byte b \<Longrightarrow> b \<noteq> CHR ''/'' \<Longrightarrow> b \<noteq> CHR ''.'' \<Longrightarrow> \<not> forbidden_escape (code b)"
proof -
  have "code (CHR ''/'') = 47" "code (CHR ''.'') = 46" "code (CHR ''%'') = 37" "code (CHR 0x5C) = 92" by code_simp+
  then show "plain_byte b \<Longrightarrow> b \<noteq> CHR ''/'' \<Longrightarrow> b \<noteq> CHR ''.'' \<Longrightarrow> \<not> forbidden_escape (code b)"
    by (auto simp: plain_byte_def forbidden_escape_def code_inj [symmetric])
qed

lemma decode_encode: "list_all plain_byte s \<Longrightarrow> decode_bytes (aws_encode True s) = Inr s"
proof (induction s)
  case (Cons b bs)
  then have IH: "decode_bytes (aws_encode True bs) = Inr bs" and b: "plain_byte b" by simp_all
  show ?case
  proof (cases "is_alnum b \<or> b \<in> {CHR ''-'', CHR ''_'', CHR ''.'', CHR ''~''} \<or> b = CHR ''/''")
    case True
    with b IH show ?thesis by (simp add: plain_byte_def)
  next
    case False
    then have "\<not> forbidden_escape (code b)" by (intro forbidden_plain [OF b]) auto
    moreover have "code b div 16 < 16" "code b mod 16 < 16" using code_lt [of b] by auto
    moreover have "byte (code b div 16 * 16 + code b mod 16) = b" by (simp add: byte_def char_of_code)
    ultimately show ?thesis using False IH hex_digit by simp
  qed
qed simp

lemma utf8_ascii: "utf8_ok (CHR ''l'' # CHR ''o'' # CHR ''a'' # CHR ''n'' # CHR ''-'' # CHR ''w'' # CHR ''o'' # CHR ''r'' # CHR ''k'' #
    CHR ''s'' # CHR ''p'' # CHR ''a'' # CHR ''c'' # CHR ''e'' # CHR ''/'' # s) \<longleftrightarrow> utf8_ok s"
  by (simp add: utf8_ok_def code_def)


lemma photo_url_back:
  assumes "photo_route_url k = Inr url" "utf8_ok k"
  shows "classify_photo P url = Inr (StoredPhoto k)"
proof -
  obtain s where c: "canonical_key k = Inr k" and k: "k = canonical_photo_prefix @ s" and url: "url = media_prefix @ aws_encode_path s"
    using assms(1) canonical_key_safe
    by (fastforce simp: photo_route_url_def rbnd_eq_Inr strip_prefix_Some split: option.splits if_splits)
  have safe: "safe_key k" using canonical_key_safe [OF c] by blast
  have plain: "plain_byte b" if "b \<in> set s" for b
  proof -
    have "\<not> has_control k" "set k \<inter> {CHR ''%'', CHR 0x5C, CHR ''?'', CHR ''#''} = {}" using safe by (simp_all add: safe_key_def)
    moreover from this(1) have "\<not> has_control s" using has_control_append k by blast
    ultimately show ?thesis using that control_free [of s b] k by (auto simp: plain_byte_def)
  qed
  have "utf8_ok s" using assms(2) by (simp add: k utf8_ascii canonical_photo_prefix_def)
  with plain have d: "decode_url_key (aws_encode_path s) = Inr s"
    by (simp add: decode_url_key_def aws_encode_path_def decode_encode list_all_iff)
  have "trim url = url"
    unfolding url by (rule trim_printable) (simp add: prefix_printable aws_encode_path_def encode_printable)
  moreover have "strip_prefix media_prefix url = Some (aws_encode_path s)" by (simp add: url strip_prefix_Some)
  moreover have "legacy_photo_key (aws_encode_path s) = Inr k"
    using d c encode_no_mark [of _ True s] by (simp add: legacy_photo_key_def k aws_encode_path_def)
  moreover have "url \<noteq> []" by (simp add: url media_prefix_def)
  ultimately show ?thesis by (simp add: classify_photo_def stored_photo_def)
qed

text \<open>The URL that the application serves for a stored photo leads back to exactly that photo's key: classifying the route URL
  of a key that the application accepted gives the key, whatever bytes the key holds (text is UTF-8).\<close>

theorem photo_url_roundtrip:
  assumes "photo_route_url k = Inr url" "utf8_ok k"
  shows "classify_photo P url = Inr (StoredPhoto k)"
  using assms by (rule photo_url_back)

theorem photo_url_roundtrip_witness:
  "classify_photo (\<lambda>_. None) ''/media/loan-workspace/a%20b.jpg'' = Inr (StoredPhoto ''loan-workspace/a b.jpg'')"
proof -
  have t: "trim ''loan-workspace/a b.jpg'' = ''loan-workspace/a b.jpg''" by code_simp
  have "canonical_key ''loan-workspace/a b.jpg'' = Inr ''loan-workspace/a b.jpg''"
    unfolding canonical_key_def t by code_simp
  moreover have "strip_prefix canonical_photo_prefix ''loan-workspace/a b.jpg'' = Some ''a b.jpg''" by code_simp
  moreover have "media_prefix @ aws_encode_path ''a b.jpg'' = ''/media/loan-workspace/a%20b.jpg''" by code_simp
  ultimately have "photo_route_url ''loan-workspace/a b.jpg'' = Inr ''/media/loan-workspace/a%20b.jpg''"
    by (simp add: photo_route_url_def)
  moreover have "utf8_ok ''loan-workspace/a b.jpg''" by code_simp
  ultimately show ?thesis by (rule photo_url_roundtrip)
qed

end
