(* ===== verification/Mail_Store.thy ===== *)
theory Mail_Store
  imports App_State Media_Key
begin

text \<open>
  Received mail: the tables of \<open>migrations/0004_workspaces_inbox.sql\<close> and \<open>0005_resend_inbound_leases.sql\<close> with their
  constraints, the records of \<open>src/workspace_inbox/models.rs\<close> and \<open>error.rs\<close>, and the single-statement reads and
  writes that both repositories use. \<open>mail_ext\<close> holds what is not this code: SQLite's \<open>datetime\<close>, \<open>json_valid\<close> and
  \<open>strftime('..', 'now')\<close>, serde's view of a JSON text and chrono's parser. Each statement reads the clock on its own.
\<close>

subsection \<open>Errors, rows, tables\<close>

datatype inbox_error = InboxValidation string | InboxNotFound string | InboxConflict string | InboxStorage string

definition inbox_error_str :: "inbox_error \<Rightarrow> string" where
  "inbox_error_str e = (case e of InboxValidation m \<Rightarrow> ''validation failed: '' @ m | InboxNotFound m \<Rightarrow> ''not found: '' @ m
     | InboxConflict m \<Rightarrow> ''conflict: '' @ m | InboxStorage m \<Rightarrow> ''workspace/inbox storage error: '' @ m)"

datatype json_view = JsonArray "string option list" | JsonOther

record mail_ext =
  mx_datetime :: "string \<Rightarrow> bool"
  mx_json_valid :: "string \<Rightarrow> bool"
  mx_json_array :: "string \<Rightarrow> bool"
  mx_json :: "string \<Rightarrow> json_view option"
  mx_rfc3339 :: "string \<Rightarrow> bool"
  mx_stamp :: "instant \<Rightarrow> string"

record email_row =
  em_id :: int
  em_resend_id :: string
  em_from :: string
  em_to :: string
  em_subject :: "string option"
  em_received_at :: string
  em_body_key :: "string option"
  em_body_type :: "string option"
  em_loan :: "string option"
  em_state :: string
  em_error :: "string option"
  em_payload :: "string option"
  em_created_at :: string
  em_updated_at :: string

record attachment_row =
  at_id :: int
  at_email_id :: int
  at_resend_id :: string
  at_filename :: string
  at_type :: string
  at_size :: "int option"
  at_key :: "string option"
  at_state :: string
  at_created_at :: string

record lease_row =
  le_email_id :: int
  le_token :: string
  le_claimed_at :: string

record mail_db =
  emails :: "email_row list"
  email_seq :: int
  attachments :: "attachment_row list"
  attachment_seq :: int
  leases :: "lease_row list"

type_synonym 'a mail_op = "(mail_db, inbox_error, 'a) op"

definition mail_states :: "string set" where
  "mail_states = {''pending'', ''stored'', ''error''}"

definition email_check :: "mail_ext \<Rightarrow> email_row \<Rightarrow> bool" where
  "email_check N e \<longleftrightarrow> mx_json_valid N (em_to e) \<and> mx_json_array N (em_to e) \<and> utc_check (mx_datetime N) (em_received_at e) \<and>
     em_state e \<in> mail_states \<and> pred_option (mx_json_valid N) (em_payload e) \<and>
     utc_check (mx_datetime N) (em_created_at e) \<and> utc_check (mx_datetime N) (em_updated_at e) \<and>
     sql_nonblank (em_resend_id e) \<and> sql_nonblank (em_from e) \<and> pred_option sql_nonblank (em_loan e)"

definition attachment_check :: "mail_ext \<Rightarrow> attachment_row \<Rightarrow> bool" where
  "attachment_check N a \<longleftrightarrow> pred_option (\<lambda>n. 0 \<le> n) (at_size a) \<and> at_state a \<in> mail_states \<and>
     utc_check (mx_datetime N) (at_created_at a) \<and> sql_nonblank (at_resend_id a) \<and> at_filename a \<noteq> [] \<and> sql_nonblank (at_type a)"

definition lease_check :: "mail_ext \<Rightarrow> lease_row \<Rightarrow> bool" where
  "lease_check N l \<longleftrightarrow> 32 \<le> length (le_token l) \<and> length (le_token l) \<le> 128 \<and> utc_check (mx_datetime N) (le_claimed_at l)"

definition mail_valid :: "mail_ext \<Rightarrow> mail_db \<Rightarrow> bool" where
  "mail_valid N db \<longleftrightarrow>
     list_all (email_check N) (emails db) \<and> distinct (map em_id (emails db)) \<and> distinct (map em_resend_id (emails db)) \<and>
     list_all (attachment_check N) (attachments db) \<and> distinct (map at_id (attachments db)) \<and>
     distinct (map (\<lambda>a. (at_email_id a, at_resend_id a)) (attachments db)) \<and>
     list_all (\<lambda>a. at_email_id a \<in> set (map em_id (emails db))) (attachments db) \<and>
     list_all (lease_check N) (leases db) \<and> distinct (map le_email_id (leases db)) \<and> distinct (map le_token (leases db)) \<and>
     list_all (\<lambda>l. le_email_id l \<in> set (map em_id (emails db))) (leases db)"

definition no_mail :: mail_db where
  "no_mail = \<lparr>emails = [], email_seq = 0, attachments = [], attachment_seq = 0, leases = []\<rparr>"

subsection \<open>Statements\<close>

definition mail_write :: "mail_ext \<Rightarrow> string \<Rightarrow> (mail_db \<Rightarrow> 'a \<times> mail_db) \<Rightarrow> 'a mail_op" where
  "mail_write N ctx f = sql_write (mail_valid N) (InboxStorage ctx) f"

text \<open>\<open>UPDATE .. WHERE\<close>: the number of rows it changed.\<close>

definition update_emails :: "mail_ext \<Rightarrow> string \<Rightarrow> (mail_db \<Rightarrow> email_row \<Rightarrow> bool) \<Rightarrow> (email_row \<Rightarrow> email_row) \<Rightarrow> nat mail_op" where
  "update_emails N ctx P f = mail_write N ctx (\<lambda>db.
     (count_rows (P db) (emails db), db\<lparr>emails := update_rows (P db) f (emails db)\<rparr>))"

definition update_attachments :: "mail_ext \<Rightarrow> string \<Rightarrow> (mail_db \<Rightarrow> attachment_row \<Rightarrow> bool) \<Rightarrow>
    (attachment_row \<Rightarrow> attachment_row) \<Rightarrow> nat mail_op" where
  "update_attachments N ctx P f = mail_write N ctx (\<lambda>db.
     (count_rows (P db) (attachments db), db\<lparr>attachments := update_rows (P db) f (attachments db)\<rparr>))"

text \<open>\<open>INSERT OR IGNORE\<close>: a row that breaks a CHECK or a UNIQUE constraint is not inserted, a missing parent is an error.
  The new row's id, if one was inserted.\<close>

definition insert_email :: "mail_ext \<Rightarrow> string \<Rightarrow> (int \<Rightarrow> email_row) \<Rightarrow> int option mail_op" where
  "insert_email N ctx new = mail_write N ctx (\<lambda>db.
     let e = new (email_seq db + 1)
     in if \<not> email_check N e \<or> list_ex (\<lambda>q. em_resend_id q = em_resend_id e) (emails db) then (None, db)
        else (Some (em_id e), db\<lparr>emails := emails db @ [e], email_seq := email_seq db + 1\<rparr>))"

definition insert_attachment :: "mail_ext \<Rightarrow> string \<Rightarrow> (int \<Rightarrow> attachment_row) \<Rightarrow> int option mail_op" where
  "insert_attachment N ctx new = mail_write N ctx (\<lambda>db.
     let a = new (attachment_seq db + 1)
     in if \<not> attachment_check N a \<or>
           list_ex (\<lambda>q. at_email_id q = at_email_id a \<and> at_resend_id q = at_resend_id a) (attachments db) then (None, db)
        else (Some (at_id a), db\<lparr>attachments := attachments db @ [a], attachment_seq := attachment_seq db + 1\<rparr>))"

definition insert_lease :: "mail_ext \<Rightarrow> string \<Rightarrow> lease_row \<Rightarrow> nat mail_op" where
  "insert_lease N ctx l = mail_write N ctx (\<lambda>db.
     if \<not> lease_check N l \<or> list_ex (\<lambda>q. le_email_id q = le_email_id l \<or> le_token q = le_token l) (leases db) then (0, db)
     else (1, db\<lparr>leases := leases db @ [l]\<rparr>))"

definition delete_leases :: "mail_ext \<Rightarrow> string \<Rightarrow> (lease_row \<Rightarrow> bool) \<Rightarrow> nat mail_op" where
  "delete_leases N ctx P = mail_write N ctx (\<lambda>db.
     (count_rows P (leases db), db\<lparr>leases := filter (\<lambda>l. \<not> P l) (leases db)\<rparr>))"

definition email_by_id :: "int \<Rightarrow> email_row option mail_op" where
  "email_by_id i = gets (\<lambda>db. find (\<lambda>e. em_id e = i) (emails db))"

definition email_by_resend_id :: "string \<Rightarrow> email_row option mail_op" where
  "email_by_resend_id r = gets (\<lambda>db. find (\<lambda>e. em_resend_id e = r) (emails db))"

definition attachments_of :: "int \<Rightarrow> attachment_row list mail_op" where
  "attachments_of i = gets (\<lambda>db. sort_key at_id (filter (\<lambda>a. at_email_id a = i) (attachments db)))"

definition attachment_by_id :: "int \<Rightarrow> attachment_row option mail_op" where
  "attachment_by_id i = gets (\<lambda>db. find (\<lambda>a. at_id a = i) (attachments db))"

definition attachment_by_provider_id :: "int \<Rightarrow> string \<Rightarrow> attachment_row option mail_op" where
  "attachment_by_provider_id i r = gets (\<lambda>db. find (\<lambda>a. at_email_id a = i \<and> at_resend_id a = r) (attachments db))"

definition new_email :: "mail_ext \<Rightarrow> instant \<Rightarrow> string \<Rightarrow> string \<Rightarrow> string \<Rightarrow> string option \<Rightarrow> string \<Rightarrow> string option \<Rightarrow> int \<Rightarrow> email_row" where
  "new_email N t resend_id sender recipients subject received_at payload i =
     \<lparr>em_id = i, em_resend_id = resend_id, em_from = sender, em_to = recipients, em_subject = subject,
      em_received_at = received_at, em_body_key = None, em_body_type = None, em_loan = None, em_state = ''pending'',
      em_error = None, em_payload = payload, em_created_at = mx_stamp N t, em_updated_at = mx_stamp N t\<rparr>"

definition new_attachment :: "mail_ext \<Rightarrow> instant \<Rightarrow> int \<Rightarrow> string \<Rightarrow> string \<Rightarrow> string \<Rightarrow> int \<Rightarrow> attachment_row" where
  "new_attachment N t email_id resend_id filename content_type i =
     \<lparr>at_id = i, at_email_id = email_id, at_resend_id = resend_id, at_filename = filename, at_type = content_type,
      at_size = None, at_key = None, at_state = ''pending'', at_created_at = mx_stamp N t\<rparr>"

text \<open>A lease that a worker holds.\<close>

definition holds :: "mail_db \<Rightarrow> int \<Rightarrow> string \<Rightarrow> bool" where
  "holds db i token = list_ex (\<lambda>l. le_email_id l = i \<and> le_token l = token) (leases db)"


subsection \<open>Lemmas\<close>

lemma reads_mail [intro]:
  "reads (email_by_id i)" "reads (email_by_resend_id r)" "reads (attachments_of i)" "reads (attachment_by_id i)"
  "reads (attachment_by_provider_id i r)"
  by (simp_all add: email_by_id_def email_by_resend_id_def attachments_of_def attachment_by_id_def
      attachment_by_provider_id_def reads_intros)

lemma mail_write_Inr: "mail_write N ctx f db = (Inr a, db') \<longleftrightarrow> f db = (a, db') \<and> mail_valid N db'"
  by (simp add: mail_write_def sql_write_Inr)

lemma keeps_mail_writes [keeps_rules, intro]:
  "keeps (mail_valid N) (mail_write N ctx f)"
  "keeps (mail_valid N) (update_emails N ctx P g)" "keeps (mail_valid N) (update_attachments N ctx Q h)"
  "keeps (mail_valid N) (insert_email N ctx new)" "keeps (mail_valid N) (insert_attachment N ctx new')"
  "keeps (mail_valid N) (insert_lease N ctx l)" "keeps (mail_valid N) (delete_leases N ctx R)"
  by (simp_all add: mail_write_def update_emails_def update_attachments_def insert_email_def insert_attachment_def
      insert_lease_def delete_leases_def keeps_valid_write)

lemma keeps_mail_reads [keeps_rules, intro]:
  "keeps I (email_by_id i)" "keeps I (email_by_resend_id r)" "keeps I (attachments_of i)" "keeps I (attachment_by_id i)"
  "keeps I (attachment_by_provider_id i r)"
  by (rule reads_keeps reads_mail)+

lemma holds_iff: "holds db i token \<longleftrightarrow> (\<exists>l \<in> set (leases db). le_email_id l = i \<and> le_token l = token)"
  by (auto simp: holds_def list_ex_iff)

end
