(* ===== verification/Resend_Repository.thy ===== *)
theory Resend_Repository
  imports Mail_Store
begin

text \<open>
  Inbound mail with processing leases, \<open>src/resend/repository.rs\<close>: every method of \<open>InboundEmailRepository\<close>. The argument
  \<open>t\<close> gives the clock's reading in the successive statements of a method.
\<close>

subsection \<open>Drafts and validation\<close>

record attachment_draft =
  ad_resend_id :: string
  ad_filename :: string
  ad_type :: string

record email_draft =
  ed_resend_id :: string
  ed_from :: string
  ed_to :: string
  ed_subject :: "string option"
  ed_received_at :: string
  ed_payload :: string
  ed_attachments :: "attachment_draft list"

record claimed_email =
  ce_email :: email_row
  ce_attachments :: "attachment_row list"
  ce_token :: string

datatype mail_claim = Acquired claimed_email | AlreadyStored email_row | Busy email_row

definition validate_provider_id :: "string \<Rightarrow> string \<Rightarrow> inbox_error + unit" where
  "validate_provider_id label v = (if v = [] \<or> 128 < length v \<or> \<not> list_all id_char v
     then Inl (InboxValidation (label @ '' is invalid'')) else Inr ())"

definition validate_text :: "string \<Rightarrow> string \<Rightarrow> nat \<Rightarrow> inbox_error + unit" where
  "validate_text label v max_bytes = (if trim v = [] \<or> max_bytes < length v \<or> CHR 0x00 \<in> set v
     then Inl (InboxValidation (label @ '' is invalid'')) else Inr ())"

definition content_type_char :: "char \<Rightarrow> bool" where
  "content_type_char c \<longleftrightarrow> is_alnum c \<or> c \<in> set ''/!#$&^_.+-''"

definition content_type_ok :: "string \<Rightarrow> bool" where
  "content_type_ok v \<longleftrightarrow> trim v \<noteq> [] \<and> length v \<le> 255 \<and> v = trim v \<and> \<not> has_control v \<and>
     count_rows (\<lambda>c. c = CHR ''/'') v = 1 \<and> list_all content_type_char v"

definition validate_content_type :: "string \<Rightarrow> inbox_error + unit" where
  "validate_content_type v = (if content_type_ok v then Inr () else Inl (InboxValidation ''content type is invalid''))"

definition validate_lease_token :: "string \<Rightarrow> inbox_error + unit" where
  "validate_lease_token v = (if \<not> (32 \<le> length v \<and> length v \<le> 128) \<or> \<not> list_all id_char v
     then Inl (InboxValidation ''processing lease token is invalid'') else Inr ())"

definition validate_attachment_draft :: "attachment_draft \<Rightarrow> inbox_error + unit" where
  "validate_attachment_draft d =
     rbnd (validate_provider_id ''provider attachment id'' (ad_resend_id d)) (\<lambda>_.
     rbnd (validate_text ''attachment filename'' (ad_filename d) 512) (\<lambda>_.
       validate_content_type (ad_type d)))"

definition recipients_check :: "mail_ext \<Rightarrow> string \<Rightarrow> inbox_error + unit" where
  "recipients_check N to_addresses = (case mx_json N to_addresses of
       None \<Rightarrow> Inl (InboxValidation ''recipient list is invalid'')
     | Some JsonOther \<Rightarrow> Inl (InboxValidation ''recipient list is not an array'')
     | Some (JsonArray rs) \<Rightarrow>
         if rs = [] \<or> 100 < length rs \<or> list_ex (\<lambda>r. case r of None \<Rightarrow> True | Some v \<Rightarrow> v = [] \<or> 1024 < length v) rs
         then Inl (InboxValidation ''recipient list is invalid'') else Inr ())"

definition validate_email_draft :: "mail_ext \<Rightarrow> email_draft \<Rightarrow> inbox_error + unit" where
  "validate_email_draft N d =
     rbnd (validate_provider_id ''provider email id'' (ed_resend_id d)) (\<lambda>_.
     rbnd (validate_text ''sender'' (ed_from d) 1024) (\<lambda>_.
     rbnd (validate_text ''received timestamp'' (ed_received_at d) 128) (\<lambda>_.
     rbnd (if (case ed_subject d of None \<Rightarrow> False | Some v \<Rightarrow> 2048 < length v \<or> CHR 0x00 \<in> set v) \<or> ed_payload d = [] \<or>
              256 * 1024 < length (ed_payload d) \<or> mx_json N (ed_payload d) = None \<or> 64 < length (ed_attachments d)
           then Inl (InboxValidation ''inbound email metadata is invalid'') else Inr ()) (\<lambda>_.
     rbnd (recipients_check N (ed_to d)) (\<lambda>_.
       rfold validate_attachment_draft (ed_attachments d))))))"

subsection \<open>Claims\<close>

definition lease_stale :: int where
  "lease_stale = 2 * 60 * second"

definition start_attempt :: "mail_ext \<Rightarrow> instant \<Rightarrow> email_row \<Rightarrow> email_row" where
  "start_attempt N t e = e\<lparr>em_state := ''pending'', em_error := None, em_updated_at := mx_stamp N t\<rparr>"

definition reset_attachment :: "attachment_row \<Rightarrow> attachment_row" where
  "reset_attachment a = a\<lparr>at_state := ''pending''\<rparr>"

definition expired :: "mail_ext \<Rightarrow> instant \<Rightarrow> int \<Rightarrow> lease_row \<Rightarrow> bool" where
  "expired N t i l \<longleftrightarrow> le_email_id l = i \<and> le_claimed_at l \<le> mx_stamp N (t - lease_stale)"

definition claim_on :: "mail_ext \<Rightarrow> (nat \<Rightarrow> instant) \<Rightarrow> email_row \<Rightarrow> string \<Rightarrow> mail_claim mail_op" where
  "claim_on N t email lease_token =
     (if em_state email = ''stored'' then ok (AlreadyStored email)
      else thn (delete_leases N ''expire stale inbound email processing lease'' (expired N (t 2) (em_id email)))
          (bnd (insert_lease N ''claim inbound email processing lease''
                  \<lparr>le_email_id = em_id email, le_token = lease_token, le_claimed_at = mx_stamp N (t 3)\<rparr>) (\<lambda>inserted.
             if inserted = 0 then ok (Busy email)
             else thn (update_emails N ''start inbound email processing attempt''
                        (\<lambda>_ e. em_id e = em_id email \<and> em_state e \<in> {''pending'', ''error''}) (start_attempt N (t 4)))
                 (thn (update_attachments N ''reset incomplete inbound email attachments''
                        (\<lambda>_ a. at_email_id a = em_id email \<and> at_state a \<noteq> ''stored'') reset_attachment)
                 (bnd (email_by_id (em_id email)) (\<lambda>found.
                  bnd (some_or (InboxStorage ''claimed inbound email disappeared'') found) (\<lambda>claimed.
                  bnd (attachments_of (em_id email)) (\<lambda>atts.
                    ok (Acquired \<lparr>ce_email = claimed, ce_attachments = atts, ce_token = lease_token\<rparr>))))))))) "

definition upsert_attachment :: "mail_ext \<Rightarrow> instant \<Rightarrow> int \<Rightarrow> attachment_draft \<Rightarrow> unit mail_op" where
  "upsert_attachment N t email_id d =
     thn (lift_res (validate_attachment_draft d))
    (thn (insert_attachment N ''insert inbound email attachment metadata''
            (new_attachment N t email_id (ad_resend_id d) (ad_filename d) (ad_type d)))
    (bnd (attachment_by_provider_id email_id (ad_resend_id d)) (\<lambda>found.
     bnd (some_or (InboxStorage ''inserted inbound email attachment disappeared'') found) (\<lambda>a.
       require (at_filename a = ad_filename d \<and> at_type a = ad_type d)
         (InboxConflict ''provider attachment id was replayed with different immutable metadata'')))))"

definition register_email :: "mail_ext \<Rightarrow> instant \<Rightarrow> email_draft \<Rightarrow> email_row mail_op" where
  "register_email N t draft =
     thn (insert_email N ''insert inbound email metadata''
            (new_email N t (ed_resend_id draft) (ed_from draft) (ed_to draft) (ed_subject draft) (ed_received_at draft)
               (Some (ed_payload draft))))
    (bnd (email_by_resend_id (ed_resend_id draft)) (\<lambda>found.
     bnd (some_or (InboxStorage ''inserted inbound email metadata disappeared'') found) (\<lambda>email.
     thn (require (em_from email = ed_from draft \<and> em_to email = ed_to draft \<and> em_subject email = ed_subject draft \<and>
            em_received_at email = ed_received_at draft)
            (InboxConflict ''provider email id was replayed with different immutable metadata''))
       (ok email))))"

definition claim_webhook :: "mail_ext \<Rightarrow> (nat \<Rightarrow> instant) \<Rightarrow> email_draft \<Rightarrow> string \<Rightarrow> mail_claim mail_op" where
  "claim_webhook N t draft lease_token =
     thn (lift_res (validate_email_draft N draft))
    (thn (lift_res (validate_lease_token lease_token))
    (transaction
      (bnd (register_email N (t 0) draft) (\<lambda>email.
       thn (for_each (upsert_attachment N (t 1) (em_id email)) (ed_attachments draft))
         (claim_on N t email lease_token)))))"

definition claim_retry :: "mail_ext \<Rightarrow> (nat \<Rightarrow> instant) \<Rightarrow> int \<Rightarrow> string \<Rightarrow> mail_claim mail_op" where
  "claim_retry N t email_id lease_token =
     thn (require (0 < email_id) (InboxValidation ''email id must be positive''))
    (thn (lift_res (validate_lease_token lease_token))
    (transaction
      (bnd (email_by_id email_id) (\<lambda>found.
       bnd (some_or (InboxNotFound ''inbox email'') found) (\<lambda>email.
         claim_on N t email lease_token)))))"

subsection \<open>Work under a lease\<close>

definition key_bytes_ok :: "string \<Rightarrow> bool" where
  "key_bytes_ok key \<longleftrightarrow> key \<noteq> [] \<and> length key \<le> 1024"

definition lease_lost :: inbox_error where
  "lease_lost = InboxConflict ''inbound email processing lease is no longer owned''"

definition record_body :: "mail_ext \<Rightarrow> instant \<Rightarrow> int \<Rightarrow> string \<Rightarrow> string option \<Rightarrow> string \<Rightarrow> unit mail_op" where
  "record_body N t email_id lease_token object_key content_type =
     thn (lift_res (validate_lease_token lease_token))
    (thn (lift_res (validate_content_type content_type))
    (thn (require (pred_option key_bytes_ok object_key) (InboxValidation ''email body object key is invalid''))
    (bnd (update_emails N ''record inbound email body object''
            (\<lambda>db e. em_id e = email_id \<and> em_state e = ''pending'' \<and> holds db email_id lease_token)
            (\<lambda>e. e\<lparr>em_body_key := object_key, em_body_type := Some content_type, em_updated_at := mx_stamp N t\<rparr>)) (\<lambda>changed.
       require (changed = 1) lease_lost))))"

definition lease_is_owned :: "int \<Rightarrow> string \<Rightarrow> bool mail_op" where
  "lease_is_owned email_id lease_token = gets (\<lambda>db. holds db email_id lease_token)"

definition require_owned_lease :: "int \<Rightarrow> string \<Rightarrow> unit mail_op" where
  "require_owned_lease email_id lease_token = bnd (lease_is_owned email_id lease_token) (\<lambda>owned. require owned lease_lost)"

definition mark_attachment_stored :: "mail_ext \<Rightarrow> int \<Rightarrow> int \<Rightarrow> string \<Rightarrow> string \<Rightarrow> int \<Rightarrow> unit mail_op" where
  "mark_attachment_stored N email_id attachment_id lease_token object_key size_bytes =
     thn (lift_res (validate_lease_token lease_token))
    (thn (require (key_bytes_ok object_key \<and> 0 \<le> size_bytes) (InboxValidation ''stored attachment metadata is invalid''))
    (bnd (update_attachments N ''record inbound email attachment object''
            (\<lambda>db a. at_id a = attachment_id \<and> at_email_id a = email_id \<and> at_state a \<noteq> ''stored'' \<and> holds db email_id lease_token)
            (\<lambda>a. a\<lparr>at_state := ''stored'', at_key := Some object_key, at_size := Some size_bytes\<rparr>)) (\<lambda>changed.
       if changed = 1 then ok ()
       else thn (require_owned_lease email_id lease_token)
           (bnd (attachment_by_id attachment_id) (\<lambda>found.
            bnd (some_or (InboxNotFound ''inbox email attachment'') found) (\<lambda>a.
              require (at_email_id a = email_id \<and> at_state a = ''stored'' \<and> at_key a = Some object_key \<and> at_size a = Some size_bytes)
                (InboxConflict ''stored attachment metadata does not match this processing attempt'')))))))"

definition mark_attachment_error :: "mail_ext \<Rightarrow> int \<Rightarrow> int \<Rightarrow> string \<Rightarrow> unit mail_op" where
  "mark_attachment_error N email_id attachment_id lease_token =
     thn (lift_res (validate_lease_token lease_token))
    (bnd (update_attachments N ''mark inbound email attachment failed''
            (\<lambda>db a. at_id a = attachment_id \<and> at_email_id a = email_id \<and> at_state a = ''pending'' \<and> holds db email_id lease_token)
            (\<lambda>a. a\<lparr>at_state := ''error''\<rparr>)) (\<lambda>changed.
       require (changed = 1)
         (InboxConflict ''inbound email attachment or processing lease changed before failure'')))"

definition delete_owned_lease :: "mail_ext \<Rightarrow> int \<Rightarrow> string \<Rightarrow> unit mail_op" where
  "delete_owned_lease N email_id lease_token =
     bnd (delete_leases N ''release inbound email processing lease'' (\<lambda>l. le_email_id l = email_id \<and> le_token l = lease_token)) (\<lambda>deleted.
       require (deleted = 1) (InboxConflict ''inbound email processing lease changed before release''))"

definition mail_complete :: "mail_ext \<Rightarrow> instant \<Rightarrow> int \<Rightarrow> string \<Rightarrow> email_row mail_op" where
  "mail_complete N t email_id lease_token =
     thn (lift_res (validate_lease_token lease_token))
    (transaction
      (thn (require_owned_lease email_id lease_token)
      (bnd (gets (\<lambda>db. count_rows (\<lambda>a. at_email_id a = email_id \<and> at_state a \<noteq> ''stored'') (attachments db))) (\<lambda>incomplete.
       thn (require (incomplete = 0) (InboxConflict ''inbound email still has incomplete attachments''))
      (bnd (update_emails N ''complete inbound email'' (\<lambda>_ e. em_id e = email_id \<and> em_state e = ''pending'')
              (\<lambda>e. e\<lparr>em_state := ''stored'', em_error := None, em_updated_at := mx_stamp N t\<rparr>)) (\<lambda>changed.
       thn (require (changed = 1) (InboxConflict ''inbound email state changed before completion''))
      (thn (delete_owned_lease N email_id lease_token)
      (bnd (email_by_id email_id) (\<lambda>found.
         some_or (InboxStorage ''completed inbound email disappeared'') found)))))))))"

definition mail_fail :: "mail_ext \<Rightarrow> instant \<Rightarrow> int \<Rightarrow> string \<Rightarrow> string \<Rightarrow> unit mail_op" where
  "mail_fail N t email_id lease_token public_error =
     thn (lift_res (validate_lease_token lease_token))
    (thn (require (trim public_error \<noteq> [] \<and> length public_error \<le> 512 \<and> \<not> has_control public_error)
            (InboxValidation ''inbound email error summary is invalid''))
    (transaction
      (thn (require_owned_lease email_id lease_token)
      (bnd (update_emails N ''mark inbound email failed'' (\<lambda>_ e. em_id e = email_id \<and> em_state e = ''pending'')
              (\<lambda>e. e\<lparr>em_state := ''error'', em_error := Some public_error, em_updated_at := mx_stamp N t\<rparr>)) (\<lambda>changed.
       thn (require (changed = 1) (InboxConflict ''inbound email state changed before failure was recorded''))
         (delete_owned_lease N email_id lease_token))))))"

lemma keeps_mail_valid [keeps_rules, intro]:
  "keeps (mail_valid N) (claim_on N t e tok)" "keeps (mail_valid N) (claim_webhook N t d tok)"
  "keeps (mail_valid N) (claim_retry N t i tok)" "keeps (mail_valid N) (record_body N u i tok k ct)"
  "keeps (mail_valid N) (mark_attachment_stored N i j tok key n)" "keeps (mail_valid N) (mark_attachment_error N i j tok)"
  "keeps (mail_valid N) (mail_complete N u i tok)" "keeps (mail_valid N) (mail_fail N u i tok msg)"
  by (auto simp: claim_on_def claim_webhook_def register_email_def claim_retry_def upsert_attachment_def record_body_def mark_attachment_stored_def
      mark_attachment_error_def mail_complete_def mail_fail_def delete_owned_lease_def require_owned_lease_def lease_is_owned_def
      intro!: keeps_rules)

end
