(* ===== verification/Inbox_Repository.thy ===== *)
theory Inbox_Repository
  imports Resend_Repository
begin

text \<open>
  The mail side of \<open>src/workspace_inbox/repository.rs\<close>: the inbox listings, linking to an imported loan, and the
  transitions without a lease, which provider and import code may use.
\<close>

subsection \<open>Reading\<close>

record inbox_item =
  it_email :: email_row
  it_count :: nat

definition inbox_email :: "int \<Rightarrow> email_row option mail_op" where
  "inbox_email i = email_by_id i"

definition required_email :: "int \<Rightarrow> email_row mail_op" where
  "required_email i = bnd (email_by_id i) (some_or (InboxNotFound (''email '' @ show_int i)))"

definition required_attachment :: "int \<Rightarrow> attachment_row mail_op" where
  "required_attachment i = bnd (attachment_by_id i) (some_or (InboxNotFound (''attachment '' @ show_int i)))"

text \<open>\<open>ORDER BY .. DESC, id DESC\<close>.\<close>

definition newest_first :: "(email_row \<Rightarrow> string) \<Rightarrow> email_row list \<Rightarrow> email_row list" where
  "newest_first key es = rev (sort_key (\<lambda>e. (key e, em_id e)) es)"

definition list_emails :: "bool \<Rightarrow> email_row list mail_op" where
  "list_emails include_linked = gets (\<lambda>db.
     newest_first em_created_at (filter (\<lambda>e. include_linked \<or> em_loan e = None) (emails db)))"

definition list_inbox_items :: "bool \<Rightarrow> inbox_item list mail_op" where
  "list_inbox_items include_linked = gets (\<lambda>db.
     map (\<lambda>e. \<lparr>it_email = e, it_count = count_rows (\<lambda>a. at_email_id a = em_id e) (attachments db)\<rparr>)
       (newest_first em_created_at (filter (\<lambda>e. include_linked \<or> em_loan e = None) (emails db))))"

definition list_emails_for_loan :: "string \<Rightarrow> email_row list mail_op" where
  "list_emails_for_loan loan_account = gets (\<lambda>db.
     newest_first em_received_at (filter (\<lambda>e. em_loan e = Some loan_account) (emails db)))"

definition email_detail :: "int \<Rightarrow> (email_row \<times> attachment_row list) option mail_op" where
  "email_detail i = bnd (email_by_id i) (\<lambda>found. case found of None \<Rightarrow> ok None
     | Some e \<Rightarrow> bnd (attachments_of i) (\<lambda>as. ok (Some (e, as))))"

definition email_object_is_referenced :: "string \<Rightarrow> bool mail_op" where
  "email_object_is_referenced key = gets (\<lambda>db.
     list_ex (\<lambda>e. em_body_key e = Some key) (emails db) \<or> list_ex (\<lambda>a. at_key a = Some key) (attachments db))"

subsection \<open>Validation\<close>

definition inbox_nonempty :: "string \<Rightarrow> string \<Rightarrow> inbox_error + unit" where
  "inbox_nonempty label v = (if trim v = [] then Inl (InboxValidation (label @ '' cannot be empty'')) else Inr ())"

definition validate_email_id :: "int \<Rightarrow> inbox_error + unit" where
  "validate_email_id i = (if i \<le> 0 then Inl (InboxValidation ''email id must be a positive integer'') else Inr ())"

definition max_loan_account_bytes :: nat where
  "max_loan_account_bytes = 128"

definition validate_loan_account_input :: "string \<Rightarrow> inbox_error + unit" where
  "validate_loan_account_input v =
     rbnd (inbox_nonempty ''loan account'' v) (\<lambda>_.
     if max_loan_account_bytes < length v then Inl (InboxValidation ''loan account is too long'')
     else if trim v \<noteq> v \<or> has_control v
       then Inl (InboxValidation ''loan account contains unsupported whitespace or control characters'')
     else Inr ())"

record received_draft =
  rd_resend_id :: string
  rd_from :: string
  rd_to :: string
  rd_subject :: "string option"
  rd_received_at :: string
  rd_payload :: "string option"

text \<open>The messages that the parsers add to the texts are theirs; \<open>ctx\<close> stands for such a message.\<close>

definition validate_email :: "mail_ext \<Rightarrow> (string \<Rightarrow> string) \<Rightarrow> received_draft \<Rightarrow> inbox_error + unit" where
  "validate_email N ctx d =
     rbnd (inbox_nonempty ''provider email id'' (rd_resend_id d)) (\<lambda>_.
     rbnd (inbox_nonempty ''email sender'' (rd_from d)) (\<lambda>_.
     rbnd (case mx_json N (rd_to d) of None \<Rightarrow> Inl (InboxValidation (''invalid recipients JSON: '' @ ctx (rd_to d)))
           | Some JsonOther \<Rightarrow> Inl (InboxValidation ''email recipients JSON must be an array'') | Some (JsonArray _) \<Rightarrow> Inr ()) (\<lambda>_.
     rbnd (if mx_rfc3339 N (rd_received_at d) then Inr ()
           else Inl (InboxValidation (''invalid received timestamp: '' @ ctx (rd_received_at d)))) (\<lambda>_.
       case rd_payload d of None \<Rightarrow> Inr ()
       | Some p \<Rightarrow> if mx_json N p = None then Inl (InboxValidation (''invalid raw webhook JSON: '' @ ctx p)) else Inr ()))))"

definition validate_received_attachment :: "string \<Rightarrow> string \<Rightarrow> string \<Rightarrow> inbox_error + unit" where
  "validate_received_attachment resend_id filename content_type =
     rbnd (inbox_nonempty ''provider attachment id'' resend_id) (\<lambda>_.
     rbnd (inbox_nonempty ''attachment filename'' filename) (\<lambda>_.
       inbox_nonempty ''attachment content type'' content_type))"

subsection \<open>Linking\<close>

definition set_loan :: "mail_ext \<Rightarrow> instant \<Rightarrow> string option \<Rightarrow> email_row \<Rightarrow> email_row" where
  "set_loan N t loan e = e\<lparr>em_loan := loan, em_updated_at := mx_stamp N t\<rparr>"

definition link_email :: "mail_ext \<Rightarrow> instant \<Rightarrow> int \<Rightarrow> string \<Rightarrow> email_row mail_op" where
  "link_email N t email_id loan_account =
     thn (lift_res (inbox_nonempty ''loan account'' loan_account))
    (transaction (bnd (required_email email_id) (\<lambda>current.
       thn (case em_loan current of None \<Rightarrow> ok () | Some existing \<Rightarrow>
              require (existing = loan_account) (InboxConflict (''email '' @ show_int email_id @ '' is already linked to loan '' @
                existing @ ''; unlink it before relinking'')))
      (thn (update_emails N ''link email to loan'' (\<lambda>_ e. em_id e = email_id) (set_loan N t (Some loan_account)))
         (required_email email_id)))))"

definition imported_tmo_loan :: "app_db \<Rightarrow> string \<Rightarrow> bool" where
  "imported_tmo_loan app loan_account = list_ex (\<lambda>l. lo_account l = loan_account \<and> lo_is_active l \<and>
     list_ex (\<lambda>c. cn_id c = lo_connection_id l \<and> cn_slug c = ''tmo'' \<and> cn_provider c = ''mortgage_office'' \<and>
       cn_status c \<in> {''active'', ''degraded'', ''error''}) (op_connections (ap_ops app))) (ap_loans app)"

text \<open>\<open>app\<close> is the rest of the database as the transaction sees it.\<close>

definition link_email_to_imported_tmo_loan :: "mail_ext \<Rightarrow> app_db \<Rightarrow> instant \<Rightarrow> int \<Rightarrow> string \<Rightarrow> email_row mail_op" where
  "link_email_to_imported_tmo_loan N app t email_id loan_account =
     thn (lift_res (validate_email_id email_id))
    (thn (lift_res (validate_loan_account_input loan_account))
    (transaction (bnd (required_email email_id) (\<lambda>current.
       thn (case em_loan current of None \<Rightarrow> ok () | Some existing \<Rightarrow>
              require (existing = loan_account)
                (InboxConflict (''email '' @ show_int email_id @ '' is already linked to another loan'')))
      (thn (require (imported_tmo_loan app loan_account) (InboxNotFound ''active imported TMO loan''))
      (bnd (update_emails N ''link email to validated imported TMO loan'' (\<lambda>_ e. em_id e = email_id)
              (set_loan N t (Some loan_account))) (\<lambda>changed.
       thn (require (changed = 1) (InboxConflict ''email changed while it was being linked''))
         (required_email email_id)))))))) "

definition unlink_email :: "mail_ext \<Rightarrow> instant \<Rightarrow> int \<Rightarrow> email_row mail_op" where
  "unlink_email N t email_id = transaction
     (thn (required_email email_id)
     (thn (update_emails N ''unlink email from loan'' (\<lambda>_ e. em_id e = email_id) (set_loan N t None))
        (required_email email_id)))"

subsection \<open>Transitions without a lease\<close>

definition upsert_received_email :: "mail_ext \<Rightarrow> (string \<Rightarrow> string) \<Rightarrow> instant \<Rightarrow> received_draft \<Rightarrow> (email_row \<times> bool) mail_op" where
  "upsert_received_email N ctx t d =
     thn (lift_res (validate_email N ctx d))
    (transaction
      (bnd (insert_email N ''upsert received email metadata''
              (new_email N t (rd_resend_id d) (rd_from d) (rd_to d) (rd_subject d) (rd_received_at d) (rd_payload d))) (\<lambda>inserted.
       bnd (email_by_resend_id (rd_resend_id d)) (\<lambda>found.
       bnd (some_or (InboxStorage ''received email upsert returned no row'') found) (\<lambda>e.
         ok (e, inserted \<noteq> None))))))"

definition mark_email_body_stored :: "mail_ext \<Rightarrow> instant \<Rightarrow> int \<Rightarrow> string \<Rightarrow> string \<Rightarrow> email_row mail_op" where
  "mark_email_body_stored N t email_id key content_type =
     thn (lift_res (inbox_nonempty ''body content type'' content_type))
    (bnd (update_emails N ''mark email body stored'' (\<lambda>_ e. em_id e = email_id \<and> em_state e = ''pending'')
            (\<lambda>e. e\<lparr>em_state := ''stored'', em_body_key := Some key, em_body_type := Some content_type, em_error := None,
               em_updated_at := mx_stamp N t\<rparr>)) (\<lambda>changed.
     bnd (required_email email_id) (\<lambda>e.
       if changed = 1 \<or> em_state e = ''stored'' \<and> em_body_key e = Some key \<and> em_body_type e = Some content_type then ok e
       else raise (InboxConflict (''email '' @ show_int email_id @ '' cannot transition from '' @ em_state e @ '' to stored'')))))"

definition mark_email_error :: "mail_ext \<Rightarrow> instant \<Rightarrow> int \<Rightarrow> string \<Rightarrow> email_row mail_op" where
  "mark_email_error N t email_id message =
     thn (lift_res (inbox_nonempty ''email error message'' message))
    (bnd (update_emails N ''mark email error'' (\<lambda>_ e. em_id e = email_id \<and> em_state e = ''pending'')
            (\<lambda>e. e\<lparr>em_state := ''error'', em_error := Some message, em_updated_at := mx_stamp N t\<rparr>)) (\<lambda>changed.
     bnd (required_email email_id) (\<lambda>e.
       if changed = 1 \<or> em_state e = ''error'' then ok e
       else raise (InboxConflict (''email '' @ show_int email_id @ '' cannot transition from '' @ em_state e @ '' to error'')))))"

definition reset_email_for_retry :: "mail_ext \<Rightarrow> instant \<Rightarrow> int \<Rightarrow> email_row mail_op" where
  "reset_email_for_retry N t email_id = transaction
     (bnd (required_email email_id) (\<lambda>current.
      thn (require (em_state current \<noteq> ''stored'')
             (InboxConflict (''stored email '' @ show_int email_id @ '' does not need retry'')))
     (thn (update_emails N ''reset email for retry'' (\<lambda>_ e. em_id e = email_id) (start_attempt N t))
     (thn (update_attachments N ''reset email attachments for retry''
             (\<lambda>_ a. at_email_id a = email_id \<and> at_state a \<noteq> ''stored'') reset_attachment)
        (required_email email_id)))))"

definition create_attachment_metadata :: "mail_ext \<Rightarrow> instant \<Rightarrow> int \<Rightarrow> string \<Rightarrow> string \<Rightarrow> string \<Rightarrow>
    (attachment_row \<times> bool) mail_op" where
  "create_attachment_metadata N t email_id resend_id filename content_type =
     thn (lift_res (validate_received_attachment resend_id filename content_type))
    (transaction
      (bnd (email_by_id email_id) (\<lambda>known.
       thn (require (known \<noteq> None) (InboxNotFound (''email '' @ show_int email_id)))
      (bnd (insert_attachment N ''upsert attachment metadata'' (new_attachment N t email_id resend_id filename content_type)) (\<lambda>inserted.
       bnd (attachment_by_provider_id email_id resend_id) (\<lambda>found.
       bnd (some_or (InboxStorage ''attachment upsert returned no row'') found) (\<lambda>a.
         ok (a, inserted \<noteq> None)))))))) "

definition inbox_attachment_stored :: "mail_ext \<Rightarrow> int \<Rightarrow> string \<Rightarrow> int \<Rightarrow> attachment_row mail_op" where
  "inbox_attachment_stored N attachment_id key size_bytes =
     thn (lift_res (inbox_nonempty ''attachment storage key'' key))
    (thn (require (0 \<le> size_bytes) (InboxValidation ''attachment size cannot be negative''))
    (bnd (update_attachments N ''mark attachment stored'' (\<lambda>_ a. at_id a = attachment_id \<and> at_state a = ''pending'')
            (\<lambda>a. a\<lparr>at_state := ''stored'', at_key := Some key, at_size := Some size_bytes\<rparr>)) (\<lambda>changed.
     bnd (required_attachment attachment_id) (\<lambda>a.
       if changed = 1 \<or> at_state a = ''stored'' \<and> at_key a = Some key \<and> at_size a = Some size_bytes then ok a
       else raise (InboxConflict (''attachment '' @ show_int attachment_id @ '' cannot transition from '' @ at_state a @ '' to stored''))))))"

definition inbox_attachment_error :: "mail_ext \<Rightarrow> int \<Rightarrow> attachment_row mail_op" where
  "inbox_attachment_error N attachment_id =
     bnd (update_attachments N ''mark attachment error'' (\<lambda>_ a. at_id a = attachment_id \<and> at_state a = ''pending'')
            (\<lambda>a. a\<lparr>at_state := ''error''\<rparr>)) (\<lambda>changed.
     bnd (required_attachment attachment_id) (\<lambda>a.
       if changed = 1 \<or> at_state a = ''error'' then ok a
       else raise (InboxConflict (''attachment '' @ show_int attachment_id @ '' cannot transition from '' @ at_state a @ '' to error''))))"

definition reset_attachment_for_retry :: "mail_ext \<Rightarrow> int \<Rightarrow> attachment_row mail_op" where
  "reset_attachment_for_retry N attachment_id =
     bnd (required_attachment attachment_id) (\<lambda>a.
     thn (require (at_state a \<noteq> ''stored'') (InboxConflict (''stored attachment '' @ show_int attachment_id @ '' does not need retry'')))
    (thn (update_attachments N ''reset attachment for retry'' (\<lambda>_ a. at_id a = attachment_id) reset_attachment)
       (required_attachment attachment_id)))"

text \<open>Deleting an email cascades to its attachments and its lease.\<close>

definition delete_email_metadata :: "mail_ext \<Rightarrow> int \<Rightarrow> (email_row \<times> attachment_row list) mail_op" where
  "delete_email_metadata N email_id = transaction
     (bnd (required_email email_id) (\<lambda>e.
      bnd (attachments_of email_id) (\<lambda>as.
      bnd (mail_write N ''delete email metadata'' (\<lambda>db. (count_rows (\<lambda>e. em_id e = email_id) (emails db),
             db\<lparr>emails := filter (\<lambda>e. em_id e \<noteq> email_id) (emails db),
                attachments := filter (\<lambda>a. at_email_id a \<noteq> email_id) (attachments db),
                leases := filter (\<lambda>l. le_email_id l \<noteq> email_id) (leases db)\<rparr>))) (\<lambda>changed.
      thn (require (changed = 1) (InboxConflict ''email metadata changed concurrently''))
        (ok (e, as))))))"

lemma reads_required [intro]: "reads (required_email i)" "reads (required_attachment i)"
  by (auto simp: required_email_def required_attachment_def intro: reads_intros)

lemma keeps_inbox_valid [keeps_rules, intro]:
  "keeps (mail_valid N) (link_email_to_imported_tmo_loan N app t i loan)" "keeps (mail_valid N) (unlink_email N t i)"
  "keeps (mail_valid N) (link_email N t i loan)" "keeps (mail_valid N) (upsert_received_email N ctx t d)"
  "keeps (mail_valid N) (mark_email_body_stored N t i key ct)" "keeps (mail_valid N) (mark_email_error N t i msg)"
  "keeps (mail_valid N) (reset_email_for_retry N t i)" "keeps (mail_valid N) (create_attachment_metadata N t i r f ct)"
  "keeps (mail_valid N) (inbox_attachment_stored N j key n)" "keeps (mail_valid N) (inbox_attachment_error N j)"
  "keeps (mail_valid N) (reset_attachment_for_retry N j)" "keeps (mail_valid N) (delete_email_metadata N i)"
  by (auto simp: link_email_to_imported_tmo_loan_def unlink_email_def link_email_def upsert_received_email_def
      mark_email_body_stored_def mark_email_error_def reset_email_for_retry_def create_attachment_metadata_def
      inbox_attachment_stored_def inbox_attachment_error_def reset_attachment_for_retry_def delete_email_metadata_def
      required_email_def required_attachment_def
      intro!: keeps_rules)

end
