(* ===== verification/Resend_Workflow.thy ===== *)
theory Resend_Workflow
  imports Inbox_Repository
begin

text \<open>
  Processing of an inbound email, \<open>src/resend/http.rs\<close>: fetch the body, store it, fetch and store the attachments,
  complete; a failure or a timeout is recorded with \<open>fail\<close>. The world of one attempt (\<open>mail_world\<close>) holds the provider's
  answers, the object store, the clock, what other requests do to the tables between two of its transactions, and the point
  at which the timeout drops the work, if it does.
\<close>

subsection \<open>Provider and object storage\<close>

datatype resend_error = ResendUnavailable | ResendInvalidResponse | ResendTooLarge | ResendInvalidUrl

definition is_transient :: "resend_error \<Rightarrow> bool" where
  "is_transient e = (case e of ResendUnavailable \<Rightarrow> True | _ \<Rightarrow> False)"

record provider_email =
  pm_html :: "string option"
  pm_text :: "string option"

record provider_attachment =
  pa_id :: string
  pa_filename :: string
  pa_type :: string
  pa_url :: "string option"

record attachment_download =
  dl_bytes :: string
  dl_type :: string

record mail_world =
  mw_email :: "string \<Rightarrow> resend_error + provider_email"
  mw_attachments :: "string \<Rightarrow> resend_error + provider_attachment list"
  mw_download :: "string \<Rightarrow> resend_error + attachment_download"
  mw_put :: "(string \<Rightarrow> string \<Rightarrow> string \<Rightarrow> media_error + unit) option"
  mw_clock :: "nat \<Rightarrow> instant"
  mw_others :: "nat \<Rightarrow> mail_db \<Rightarrow> mail_db"
  mw_cut :: "nat option"

datatype workflow_failure = Transient | Permanent

datatype workflow_exit = Failed workflow_failure | Dropped

definition provider_failure :: "resend_error \<Rightarrow> workflow_failure" where
  "provider_failure e = (if is_transient e then Transient else Permanent)"

definition media_failure :: "media_error \<Rightarrow> workflow_failure" where
  "media_failure e = (case e of InvalidInput \<Rightarrow> Permanent | InvalidKey \<Rightarrow> Permanent | ObjectMismatch \<Rightarrow> Permanent | _ \<Rightarrow> Transient)"

definition failure_retryable :: "workflow_failure \<Rightarrow> bool" where
  "failure_retryable f \<longleftrightarrow> f = Transient"

definition failure_status :: "workflow_failure \<Rightarrow> nat" where
  "failure_status f = (case f of Transient \<Rightarrow> 503 | Permanent \<Rightarrow> 502)"

definition failure_code :: "workflow_failure \<Rightarrow> string" where
  "failure_code f = (case f of Transient \<Rightarrow> ''processing_unavailable'' | Permanent \<Rightarrow> ''invalid_provider_response'')"

definition max_server_put_bytes :: nat where
  "max_server_put_bytes = 25 * 1024 * 1024"

definition put_canonical_if_absent :: "mail_world \<Rightarrow> string \<Rightarrow> string \<Rightarrow> string \<Rightarrow> media_error + unit" where
  "put_canonical_if_absent W object_key body content_type =
     rbnd (canonical_key object_key) (\<lambda>_.
       if max_server_put_bytes < length body \<or> trim content_type = [] \<or> 255 < length content_type \<or> has_control content_type
       then Inl InvalidInput
       else (case mw_put W of None \<Rightarrow> Inl MediaDisabled | Some put \<Rightarrow> put object_key body content_type))"

subsection \<open>The work\<close>

type_synonym 'a work = "(mail_db, workflow_exit, 'a) op"

text \<open>Before each transaction the work may be dropped, and other requests may run.\<close>

definition checkpoint :: "mail_world \<Rightarrow> nat \<Rightarrow> unit work" where
  "checkpoint W k = (\<lambda>db. if (case mw_cut W of None \<Rightarrow> False | Some c \<Rightarrow> c \<le> k) then (Inl Dropped, db) else (Inr (), mw_others W k db))"

definition from_provider :: "resend_error + 'a \<Rightarrow> 'a work" where
  "from_provider r = lift_res (case r of Inl e \<Rightarrow> Inl (Failed (provider_failure e)) | Inr a \<Rightarrow> Inr a)"

definition from_media :: "media_error + 'a \<Rightarrow> 'a work" where
  "from_media r = lift_res (case r of Inl e \<Rightarrow> Inl (Failed (media_failure e)) | Inr a \<Rightarrow> Inr a)"

definition transient :: "'a mail_op \<Rightarrow> 'a work" where
  "transient m = map_err (\<lambda>_. Failed Transient) m"

definition fail_work :: "workflow_failure \<Rightarrow> 'a work" where
  "fail_work f = raise (Failed f)"

text \<open>The body to store: HTML first, then plain text; empty texts count as missing.\<close>

definition email_body :: "provider_email \<Rightarrow> (string \<times> string \<times> string) option" where
  "email_body content = (case pm_html content of
       Some h \<Rightarrow> if h \<noteq> [] then Some (h, ''html'', ''text/html'')
                 else (case pm_text content of Some p \<Rightarrow> if p \<noteq> [] then Some (p, ''txt'', ''text/plain'') else None | None \<Rightarrow> None)
     | None \<Rightarrow> (case pm_text content of Some p \<Rightarrow> if p \<noteq> [] then Some (p, ''txt'', ''text/plain'') else None | None \<Rightarrow> None))"

definition process_body :: "mail_ext \<Rightarrow> mail_world \<Rightarrow> claimed_email \<Rightarrow> unit work" where
  "process_body N W claim = (let e = ce_email claim in
     if em_body_type e \<noteq> None then ok ()
     else bnd (from_provider (mw_email W (em_resend_id e))) (\<lambda>content.
       case email_body content of
         Some (bytes, extension, content_type) \<Rightarrow>
           (let key = ''emails/'' @ em_resend_id e @ ''/body.'' @ extension
            in thn (from_media (put_canonical_if_absent W key bytes content_type))
              (thn (checkpoint W 0)
                 (transient (record_body N (mw_clock W 0) (em_id e) (ce_token claim) (Some key) content_type))))
       | None \<Rightarrow> thn (checkpoint W 0)
           (transient (record_body N (mw_clock W 0) (em_id e) (ce_token claim) None ''text/plain''))))"

definition store_attachment :: "mail_ext \<Rightarrow> mail_world \<Rightarrow> nat \<Rightarrow> claimed_email \<Rightarrow> (string \<Rightarrow> provider_attachment option) \<Rightarrow>
    attachment_row \<Rightarrow> unit work" where
  "store_attachment N W k claim remote a = (case remote (at_resend_id a) of None \<Rightarrow> fail_work Permanent
     | Some metadata \<Rightarrow>
         if pa_filename metadata \<noteq> at_filename a \<or> pa_type metadata \<noteq> at_type a then fail_work Permanent
         else (case pa_url metadata of None \<Rightarrow> fail_work Permanent
         | Some url \<Rightarrow> bnd (from_provider (mw_download W url)) (\<lambda>download.
             if dl_type download \<noteq> at_type a \<and> dl_type download \<noteq> ''application/octet-stream'' then fail_work Permanent
             else if 2 ^ 63 \<le> int (length (dl_bytes download)) then fail_work Permanent
             else (let key = ''emails/'' @ em_resend_id (ce_email claim) @ ''/attachments/'' @ at_resend_id a
                   in thn (from_media (put_canonical_if_absent W key (dl_bytes download) (at_type a)))
                     (thn (checkpoint W k)
                        (transient (mark_attachment_stored N (em_id (ce_email claim)) (at_id a) (ce_token claim) key
                           (int (length (dl_bytes download))))))))))"

fun store_attachments :: "mail_ext \<Rightarrow> mail_world \<Rightarrow> nat \<Rightarrow> claimed_email \<Rightarrow> (string \<Rightarrow> provider_attachment option) \<Rightarrow>
    attachment_row list \<Rightarrow> unit work" where
  "store_attachments N W k claim remote [] = ok ()"
| "store_attachments N W k claim remote (a # as) = (\<lambda>db.
     case store_attachment N W k claim remote a db of
       (Inr _, db') \<Rightarrow> store_attachments N W (k + 2) claim remote as db'
     | (Inl Dropped, db') \<Rightarrow> (Inl Dropped, db')
     | (Inl (Failed f), db') \<Rightarrow>
         thn (checkpoint W (k + 1))
           (\<lambda>d. (Inl (Failed f), snd (mark_attachment_error N (em_id (ce_email claim)) (at_id a) (ce_token claim) d))) db')"

definition pending_attachments :: "claimed_email \<Rightarrow> attachment_row list" where
  "pending_attachments claim = filter (\<lambda>a. at_state a \<noteq> ''stored'') (ce_attachments claim)"

definition process_attachments :: "mail_ext \<Rightarrow> mail_world \<Rightarrow> claimed_email \<Rightarrow> unit work" where
  "process_attachments N W claim =
     (if pending_attachments claim = [] then ok ()
      else bnd (from_provider (mw_attachments W (em_resend_id (ce_email claim)))) (\<lambda>remote.
        if \<not> distinct (map pa_id remote) then fail_work Permanent
        else store_attachments N W 1 claim (map_of (map (\<lambda>p. (pa_id p, p)) remote)) (pending_attachments claim)))"

definition process_claim :: "mail_ext \<Rightarrow> mail_world \<Rightarrow> claimed_email \<Rightarrow> unit work" where
  "process_claim N W claim = (let k = 1 + 2 * length (ce_attachments claim) in
     thn (process_body N W claim)
    (thn (process_attachments N W claim)
    (thn (checkpoint W k)
    (thn (transient (mail_complete N (mw_clock W k) (em_id (ce_email claim)) (ce_token claim)))
       (\<lambda>db. if mw_cut W = Some (k + 1) then (Inl Dropped, db) else (Inr (), db))))))"

definition public_failure :: "workflow_failure \<Rightarrow> string" where
  "public_failure f = (if failure_retryable f
     then ''Email provider or object storage is temporarily unavailable. Retry is available.''
     else ''Email content could not be stored because the provider response was invalid.'')"

definition exit_failure :: "workflow_exit \<Rightarrow> workflow_failure" where
  "exit_failure e = (case e of Failed f \<Rightarrow> f | Dropped \<Rightarrow> Transient)"

text \<open>The work and, when it fails, the terminal transition, whose own result is ignored.\<close>

definition run_claim :: "mail_ext \<Rightarrow> mail_world \<Rightarrow> claimed_email \<Rightarrow> (mail_db, workflow_failure, unit) op" where
  "run_claim N W claim = (\<lambda>db. let k = 3 + 2 * length (ce_attachments claim) in
     case process_claim N W claim db of
       (Inr _, db') \<Rightarrow> (Inr (), db')
     | (Inl e, db') \<Rightarrow> (Inl (exit_failure e),
         snd (mail_fail N (mw_clock W k) (em_id (ce_email claim)) (ce_token claim) (public_failure (exit_failure e)) (mw_others W k db'))))"

subsection \<open>The handlers\<close>

record mail_response =
  mr_status :: nat
  mr_body :: string
  mr_retry_after :: bool

definition webhook_error :: "nat \<Rightarrow> string \<Rightarrow> bool \<Rightarrow> mail_response" where
  "webhook_error status error_code retryable = \<lparr>mr_status = status, mr_body = error_code, mr_retry_after = retryable\<rparr>"

definition webhook_ok :: "string \<Rightarrow> mail_response" where
  "webhook_ok status = \<lparr>mr_status = 200, mr_body = status, mr_retry_after = False\<rparr>"

definition run_outcome :: "mail_ext \<Rightarrow> mail_world \<Rightarrow> mail_claim \<Rightarrow> mail_db \<Rightarrow> mail_response \<times> mail_db" where
  "run_outcome N W outcome db = (case outcome of
       AlreadyStored _ \<Rightarrow> (webhook_ok ''already_stored'', db)
     | Busy _ \<Rightarrow> (webhook_error 503 ''processing_in_progress'' True, db)
     | Acquired claim \<Rightarrow>
         (case run_claim N W claim db of
            (Inr _, db') \<Rightarrow> (webhook_ok ''stored'', db')
          | (Inl f, db') \<Rightarrow> (webhook_error (failure_status f) (failure_code f) (failure_retryable f), db')))"

record received_attachment =
  rc_id :: string
  rc_filename :: string
  rc_type :: string

record received_data =
  rx_email_id :: string
  rx_from :: string
  rx_to :: "string list"
  rx_subject :: "string option"
  rx_attachments :: "received_attachment list"

record webhook_event =
  we_type :: string
  we_created_at :: "string option"
  we_data :: "received_data option"

text \<open>\<open>show_list\<close> is serde's text of a list of strings.\<close>

definition inbound_draft :: "mail_ext \<Rightarrow> (string list \<Rightarrow> string) \<Rightarrow> webhook_event \<Rightarrow> string \<Rightarrow> email_draft option" where
  "inbound_draft N show_list event raw = (case we_created_at event of None \<Rightarrow> None
     | Some received_at \<Rightarrow> if \<not> mx_rfc3339 N received_at then None
         else (case we_data event of None \<Rightarrow> None
         | Some d \<Rightarrow> Some \<lparr>ed_resend_id = rx_email_id d, ed_from = rx_from d, ed_to = show_list (rx_to d), ed_subject = rx_subject d,
             ed_received_at = received_at, ed_payload = raw,
             ed_attachments = map (\<lambda>a. \<lparr>ad_resend_id = rc_id a, ad_filename = rc_filename a,
               ad_type = ascii_lower (trim (rc_type a))\<rparr>) (rx_attachments d)\<rparr>))"

text \<open>The webhook after its signature was verified. \<open>parse\<close> is serde's reading of the body; \<open>enabled\<close> says that a provider is
  configured.\<close>

definition webhook :: "mail_ext \<Rightarrow> (string list \<Rightarrow> string) \<Rightarrow> (string \<Rightarrow> webhook_event option) \<Rightarrow> bool \<Rightarrow> mail_world \<Rightarrow>
    (nat \<Rightarrow> instant) \<Rightarrow> string \<Rightarrow> string \<Rightarrow> mail_db \<Rightarrow> mail_response \<times> mail_db" where
  "webhook N show_list parse enabled W t lease_token body db =
     (if \<not> utf8_ok body then (webhook_error 400 ''invalid_json'' False, db)
      else case parse body of None \<Rightarrow> (webhook_error 400 ''invalid_json'' False, db)
      | Some event \<Rightarrow>
          if we_type event \<noteq> ''email.received'' then (webhook_ok ''ignored'', db)
          else case inbound_draft N show_list event body of None \<Rightarrow> (webhook_error 400 ''invalid_event'' False, db)
          | Some draft \<Rightarrow>
              if \<not> enabled then (webhook_error 503 ''webhook_unavailable'' True, db)
              else (case claim_webhook N t draft lease_token db of
                  (Inr outcome, db') \<Rightarrow> run_outcome N W outcome db'
                | (Inl (InboxValidation _), db') \<Rightarrow> (webhook_error 400 ''invalid_event'' False, db')
                | (Inl (InboxConflict _), db') \<Rightarrow> (webhook_error 400 ''invalid_event'' False, db')
                | (Inl _, db') \<Rightarrow> (webhook_error 503 ''database_error'' True, db')))"

definition retry_redirect :: "int \<Rightarrow> string option \<Rightarrow> mail_response" where
  "retry_redirect email_id return_to = \<lparr>mr_status = 303,
     mr_body = (if return_to = Some ''inbox'' then ''/inbox'' else ''/inbox/'' @ show_int email_id), mr_retry_after = False\<rparr>"

definition mail_retry :: "mail_ext \<Rightarrow> bool \<Rightarrow> mail_world \<Rightarrow> (nat \<Rightarrow> instant) \<Rightarrow> string \<Rightarrow> int \<Rightarrow> string option \<Rightarrow> mail_db \<Rightarrow>
    mail_response \<times> mail_db" where
  "mail_retry N enabled W t lease_token email_id return_to db =
     (if email_id \<le> 0 then (webhook_error 404 ''Email not found.'' False, db)
      else if \<not> enabled then (webhook_error 503 ''Inbound email processing is not configured.'' True, db)
      else (case claim_retry N t email_id lease_token db of
          (Inl (InboxNotFound _), db') \<Rightarrow> (webhook_error 404 ''Email not found.'' False, db')
        | (Inl _, db') \<Rightarrow> (webhook_error 503 ''Email storage is temporarily unavailable.'' True, db')
        | (Inr (AlreadyStored _), db') \<Rightarrow> (retry_redirect email_id return_to, db')
        | (Inr (Busy _), db') \<Rightarrow> (webhook_error 409 ''This email is already being processed. Try again shortly.'' True, db')
        | (Inr (Acquired claim), db') \<Rightarrow>
            (case run_claim N W claim db' of
               (Inr _, db2) \<Rightarrow> (retry_redirect email_id return_to, db2)
             | (Inl f, db2) \<Rightarrow> (webhook_error (failure_status f)
                 ''The email could not be stored. You can retry it safely.'' (failure_retryable f), db2))))"

end
