(* ===== verification/Resend_Leases.thy ===== *)
theory Resend_Leases
  imports Resend_Workflow Scheduler
begin

text \<open>
  The guarantees of the lease protocol for inbound mail: what every request keeps (\<open>mail_inv\<close>), what is final
  (\<open>mail_kept\<close>), who may write (a lease is exclusive until it is two minutes old), and how one processing attempt ends.
\<close>

subsection \<open>What is final\<close>

definition email_kept :: "email_row \<Rightarrow> email_row \<Rightarrow> bool" where
  "email_kept e e' \<longleftrightarrow> em_id e' = em_id e \<and> em_resend_id e' = em_resend_id e \<and> em_from e' = em_from e \<and> em_to e' = em_to e \<and>
     em_subject e' = em_subject e \<and> em_received_at e' = em_received_at e \<and> em_payload e' = em_payload e \<and>
     em_created_at e' = em_created_at e \<and>
     (em_state e = ''stored'' \<longrightarrow> em_state e' = ''stored'' \<and> em_body_key e' = em_body_key e \<and> em_body_type e' = em_body_type e \<and>
        em_error e' = em_error e)"

definition attachment_kept :: "attachment_row \<Rightarrow> attachment_row \<Rightarrow> bool" where
  "attachment_kept a a' \<longleftrightarrow> at_id a' = at_id a \<and> at_email_id a' = at_email_id a \<and> at_resend_id a' = at_resend_id a \<and>
     at_filename a' = at_filename a \<and> at_type a' = at_type a \<and> at_created_at a' = at_created_at a \<and>
     (at_state a = ''stored'' \<longrightarrow> a' = a)"

definition mail_kept :: "mail_db \<Rightarrow> mail_db \<Rightarrow> bool" where
  "mail_kept db db' \<longleftrightarrow> rows_related email_kept (emails db) (emails db') \<and>
     rows_related attachment_kept (attachments db) (attachments db')"

lemma kept_refl: "email_kept e e" "attachment_kept a a" "mail_kept db db"
  by (simp_all add: email_kept_def attachment_kept_def mail_kept_def rows_related_def) blast+

lemma kept_trans:
  "email_kept x y \<Longrightarrow> email_kept y z \<Longrightarrow> email_kept x z" "attachment_kept a b \<Longrightarrow> attachment_kept b c \<Longrightarrow> attachment_kept a c"
  by (auto simp: email_kept_def attachment_kept_def)

interpretation mail: evolution mail_kept
proof
  show "mail_kept s s" for s by (rule kept_refl)
  show "mail_kept s u" if "mail_kept s t" "mail_kept t u" for s t u
    using that rows_related_trans [OF kept_trans(1)] rows_related_trans [OF kept_trans(2)] by (auto simp: mail_kept_def)
qed

lemma mail_kept_statements:
  "(\<And>db e. P db e \<Longrightarrow> email_kept e (f e)) \<Longrightarrow> evolves mail_kept (update_emails N ctx P f)"
  "(\<And>db a. Q db a \<Longrightarrow> attachment_kept a (g a)) \<Longrightarrow> evolves mail_kept (update_attachments N ctx Q g)"
  "evolves mail_kept (insert_email N ctx new)" "evolves mail_kept (insert_attachment N ctx new')"
  "evolves mail_kept (insert_lease N ctx l)" "evolves mail_kept (delete_leases N ctx R)"
proof -
  show "evolves mail_kept (update_emails N ctx P f)" if "\<And>db e. P db e \<Longrightarrow> email_kept e (f e)"
    unfolding update_emails_def mail_write_def
    by (rule mail.evolves_write) (simp add: mail_kept_def rows_related_update that kept_refl rows_related_refl)
  show "evolves mail_kept (update_attachments N ctx Q g)" if "\<And>db a. Q db a \<Longrightarrow> attachment_kept a (g a)"
    unfolding update_attachments_def mail_write_def
    by (rule mail.evolves_write) (simp add: mail_kept_def rows_related_update that kept_refl rows_related_refl)
  show "evolves mail_kept (insert_email N ctx new)" "evolves mail_kept (insert_attachment N ctx new')"
    "evolves mail_kept (insert_lease N ctx l)" "evolves mail_kept (delete_leases N ctx R)"
    unfolding insert_email_def insert_attachment_def insert_lease_def delete_leases_def mail_write_def
    by (rule mail.evolves_write, simp add: Let_def mail_kept_def rows_related_append kept_refl rows_related_refl)+
qed

lemma kept_claim_on: "evolves mail_kept (claim_on N t e tok)"
proof -
  have e: "evolves mail_kept (update_emails N ctx (\<lambda>_ e. em_id e = i \<and> em_state e \<in> {''pending'', ''error''}) (start_attempt N u))" for ctx i u
    by (rule mail_kept_statements(1)) (auto simp: email_kept_def start_attempt_def)
  have a: "evolves mail_kept (update_attachments N ctx (\<lambda>_ a. at_email_id a = i \<and> at_state a \<noteq> ''stored'') reset_attachment)" for ctx i
    by (rule mail_kept_statements(2)) (auto simp: attachment_kept_def reset_attachment_def)
  show ?thesis
    unfolding claim_on_def
    by (intro mail.evolves_if mail.evolves_bnd mail.evolves_thn mail.evolves_pure e a mail_kept_statements(5,6) mail.evolves_reads reads_mail)
qed

lemma mail_kept_upsert: "evolves mail_kept (upsert_attachment N t i d)"
  unfolding upsert_attachment_def
  by (intro mail.evolves_bnd mail.evolves_thn mail.evolves_pure mail_kept_statements(4) mail.evolves_reads reads_mail)

lemma kept_delete_lease: "evolves mail_kept (delete_owned_lease N i tok)"
  unfolding delete_owned_lease_def by (intro mail.evolves_bnd mail.evolves_pure mail_kept_statements(6))

lemma kept_require_lease: "evolves mail_kept (require_owned_lease i tok)"
  unfolding require_owned_lease_def lease_is_owned_def by (intro mail.evolves_bnd mail.evolves_pure)

lemma kept_operations:
  "evolves mail_kept (claim_webhook N t d tok)" "evolves mail_kept (claim_retry N t i tok)"
  "evolves mail_kept (record_body N u i tok k ct)" "evolves mail_kept (mark_attachment_stored N i j tok key n)"
  "evolves mail_kept (mark_attachment_error N i j tok)" "evolves mail_kept (mail_complete N u i tok)"
  "evolves mail_kept (mail_fail N u i tok msg)"
proof -
  show "evolves mail_kept (claim_webhook N t d tok)" "evolves mail_kept (claim_retry N t i tok)"
    unfolding claim_webhook_def register_email_def claim_retry_def
    by (intro mail.evolves_bnd mail.evolves_thn mail.evolves_transaction mail.evolves_for_each mail.evolves_pure kept_claim_on
        mail_kept_upsert mail_kept_statements(3) mail.evolves_reads reads_mail)+
  have body: "evolves mail_kept (update_emails N ctx (\<lambda>db e. em_id e = i \<and> em_state e = ''pending'' \<and> R db) (\<lambda>e. e\<lparr>em_body_key := x,
      em_body_type := y, em_updated_at := z\<rparr>))" for ctx R x y z
    by (rule mail_kept_statements(1)) (auto simp: email_kept_def)
  have states: "evolves mail_kept (update_emails N ctx (\<lambda>_ e. em_id e = i \<and> em_state e = ''pending'') (\<lambda>e. e\<lparr>em_state := x,
      em_error := y, em_updated_at := z\<rparr>))" for ctx x y z
    by (rule mail_kept_statements(1)) (auto simp: email_kept_def)
  have stored: "evolves mail_kept (update_attachments N ctx (\<lambda>db a. at_id a = j \<and> at_email_id a = i \<and> at_state a \<noteq> ''stored'' \<and> R db)
      (\<lambda>a. a\<lparr>at_state := x, at_key := y, at_size := z\<rparr>))" for ctx R x y z
    by (rule mail_kept_statements(2)) (auto simp: attachment_kept_def)
  have failed: "evolves mail_kept (update_attachments N ctx (\<lambda>db a. at_id a = j \<and> at_email_id a = i \<and> at_state a = ''pending'' \<and> R db)
      (\<lambda>a. a\<lparr>at_state := x\<rparr>))" for ctx R x
    by (rule mail_kept_statements(2)) (auto simp: attachment_kept_def)
  note rules = mail.evolves_bnd mail.evolves_thn mail.evolves_transaction mail.evolves_if mail.evolves_pure mail.evolves_reads reads_mail
    kept_delete_lease kept_require_lease
  show "evolves mail_kept (record_body N u i tok k ct)" unfolding record_body_def by (intro rules body)
  show "evolves mail_kept (mark_attachment_stored N i j tok key n)" unfolding mark_attachment_stored_def by (intro rules stored)
  show "evolves mail_kept (mark_attachment_error N i j tok)" unfolding mark_attachment_error_def by (intro rules failed)
  show "evolves mail_kept (mail_complete N u i tok)" unfolding mail_complete_def by (intro rules states)
  show "evolves mail_kept (mail_fail N u i tok msg)" unfolding mail_fail_def by (intro rules states)
qed

lemma kept_links: "evolves mail_kept (link_email_to_imported_tmo_loan N app u i loan)" "evolves mail_kept (unlink_email N u i)"
proof -
  have l: "evolves mail_kept (update_emails N ctx (\<lambda>_ e. em_id e = i) (set_loan N u x))" for ctx x
    by (rule mail_kept_statements(1)) (auto simp: email_kept_def set_loan_def)
  note rules = mail.evolves_bnd mail.evolves_thn mail.evolves_transaction mail.evolves_case_option mail.evolves_pure mail.evolves_reads reads_required
  show "evolves mail_kept (link_email_to_imported_tmo_loan N app u i loan)"
    unfolding link_email_to_imported_tmo_loan_def by (intro rules l)
  show "evolves mail_kept (unlink_email N u i)" unfolding unlink_email_def by (intro rules l)
qed


subsection \<open>The effect of a claim\<close>

definition without_expired :: "mail_ext \<Rightarrow> instant \<Rightarrow> int \<Rightarrow> mail_db \<Rightarrow> mail_db" where
  "without_expired N t i db = db\<lparr>leases := filter (\<lambda>l. \<not> expired N t i l) (leases db)\<rparr>"

definition attempt_started :: "mail_ext \<Rightarrow> (nat \<Rightarrow> instant) \<Rightarrow> int \<Rightarrow> string \<Rightarrow> mail_db \<Rightarrow> mail_db" where
  "attempt_started N t i tok db =
     db\<lparr>leases := filter (\<lambda>l. \<not> expired N (t 2) i l) (leases db) @ [\<lparr>le_email_id = i, le_token = tok, le_claimed_at = mx_stamp N (t 3)\<rparr>],
        emails := update_rows (\<lambda>e. em_id e = i \<and> em_state e \<in> {''pending'', ''error''}) (start_attempt N (t 4)) (emails db),
        attachments := update_rows (\<lambda>a. at_email_id a = i \<and> at_state a \<noteq> ''stored'') reset_attachment (attachments db)\<rparr>"

definition attachment_list :: "mail_db \<Rightarrow> int \<Rightarrow> attachment_row list" where
  "attachment_list db i = sort_key at_id (filter (\<lambda>a. at_email_id a = i) (attachments db))"

lemma claim_on_cases:
  assumes "claim_on N t e tok db = (Inr out, db')"
  obtains (done_before) "em_state e = ''stored''" "out = AlreadyStored e" "db' = db"
    | (busy) "em_state e \<noteq> ''stored''" "out = Busy e" "db' = without_expired N (t 2) (em_id e) db"
    | (acquired) q where "em_state e \<noteq> ''stored''" "db' = attempt_started N t (em_id e) tok db" "mail_valid N db'"
        "find (\<lambda>q. em_id q = em_id e) (emails db') = Some q"
        "out = Acquired \<lparr>ce_email = q, ce_attachments = attachment_list db' (em_id e), ce_token = tok\<rparr>"
proof (cases "em_state e = ''stored''")
  case True
  with assms show ?thesis by (intro done_before) (simp_all add: claim_on_def ok_Inr)
next
  case False
  let ?db1 = "without_expired N (t 2) (em_id e) db"
  let ?l = "\<lparr>le_email_id = em_id e, le_token = tok, le_claimed_at = mx_stamp N (t 3)\<rparr>"
  obtain n db2 where i: "insert_lease N ''claim inbound email processing lease'' ?l ?db1 = (Inr n, db2)"
    and k: "(if n = 0 then ok (Busy e)
        else thn (update_emails N ''start inbound email processing attempt''
               (\<lambda>_ q. em_id q = em_id e \<and> em_state q \<in> {''pending'', ''error''}) (start_attempt N (t 4)))
            (thn (update_attachments N ''reset incomplete inbound email attachments''
               (\<lambda>_ a. at_email_id a = em_id e \<and> at_state a \<noteq> ''stored'') reset_attachment)
            (bnd (email_by_id (em_id e)) (\<lambda>found. bnd (some_or (InboxStorage ''claimed inbound email disappeared'') found) (\<lambda>claimed.
             bnd (attachments_of (em_id e)) (\<lambda>atts.
               ok (Acquired \<lparr>ce_email = claimed, ce_attachments = atts, ce_token = tok\<rparr>))))))) db2 = (Inr out, db')"
    using assms False by (auto simp: claim_on_def op_Inr delete_leases_def mail_write_Inr without_expired_def)
  show ?thesis
  proof (cases "n = 0")
    case True
    with i have "db2 = ?db1" by (auto simp: insert_lease_def mail_write_Inr split: if_splits)
    with True k False show ?thesis by (intro busy) (simp_all add: ok_Inr)
  next
    case n: False
    with i have d2: "db2 = ?db1\<lparr>leases := leases ?db1 @ [?l]\<rparr>" by (auto simp: insert_lease_def mail_write_Inr split: if_splits)
    from k n obtain db3 db4 m1 m2 q where
        u: "update_emails N ''start inbound email processing attempt''
               (\<lambda>_ q. em_id q = em_id e \<and> em_state q \<in> {''pending'', ''error''}) (start_attempt N (t 4)) db2 = (Inr m1, db3)"
      and a: "update_attachments N ''reset incomplete inbound email attachments''
               (\<lambda>_ a. at_email_id a = em_id e \<and> at_state a \<noteq> ''stored'') reset_attachment db3 = (Inr m2, db4)"
      and q: "find (\<lambda>q. em_id q = em_id e) (emails db4) = Some q" and o: "db' = db4"
        "out = Acquired \<lparr>ce_email = q, ce_attachments = attachment_list db4 (em_id e), ce_token = tok\<rparr>"
      unfolding if_not_P [OF n] by (auto simp: op_Inr email_by_id_def attachments_of_def attachment_list_def)
    from u have d3: "db3 = db2\<lparr>emails := update_rows (\<lambda>q. em_id q = em_id e \<and> em_state q \<in> {''pending'', ''error''}) (start_attempt N (t 4)) (emails db2)\<rparr>"
      by (simp add: update_emails_def mail_write_Inr)
    from a have "db4 = db3\<lparr>attachments := update_rows (\<lambda>a. at_email_id a = em_id e \<and> at_state a \<noteq> ''stored'') reset_attachment (attachments db3)\<rparr>"
      and v: "mail_valid N db4"
      by (simp_all add: update_attachments_def mail_write_Inr)
    then have "db4 = attempt_started N t (em_id e) tok db"
      unfolding d3 d2 by (simp add: attempt_started_def without_expired_def)
    with False v q o show ?thesis by (intro acquired [of q]) simp_all
  qed
qed


subsection \<open>The invariant\<close>

definition email_ok :: "email_row \<Rightarrow> bool" where
  "email_ok e \<longleftrightarrow> (em_state e = ''error'' \<longleftrightarrow> em_error e \<noteq> None)"

definition attachment_ok :: "attachment_row \<Rightarrow> bool" where
  "attachment_ok a \<longleftrightarrow> (at_state a = ''stored'' \<longleftrightarrow> at_key a \<noteq> None) \<and> (at_key a \<noteq> None \<longleftrightarrow> at_size a \<noteq> None)"

definition leases_pending :: "mail_db \<Rightarrow> bool" where
  "leases_pending db \<longleftrightarrow> (\<forall>l \<in> set (leases db). \<exists>e \<in> set (emails db). em_id e = le_email_id l \<and> em_state e = ''pending'')"

definition mail_inv :: "mail_ext \<Rightarrow> mail_db \<Rightarrow> bool" where
  "mail_inv N db \<longleftrightarrow> mail_valid N db \<and> list_all email_ok (emails db) \<and> list_all attachment_ok (attachments db) \<and> leases_pending db"

lemma mail_validD:
  assumes "mail_valid N db"
  shows "distinct (map em_id (emails db))" "distinct (map le_email_id (leases db))" "distinct (map le_token (leases db))"
    "\<And>e. e \<in> set (emails db) \<Longrightarrow> email_check N e"
  using assms by (simp_all add: mail_valid_def list_all_iff)

lemma inv_update_emails:
  assumes "\<And>db e. P db e \<Longrightarrow> email_ok e \<Longrightarrow> em_id (f e) = em_id e \<and> email_ok (f e) \<and> (em_state e = ''pending'' \<longrightarrow> em_state (f e) = ''pending'')"
  shows "keeps (mail_inv N) (update_emails N ctx P f)"
  unfolding update_emails_def mail_write_def
proof (rule keeps_sql_write)
  fix db
  assume i: "mail_inv N db" and v: "mail_valid N (snd (count_rows (P db) (emails db), db\<lparr>emails := update_rows (P db) f (emails db)\<rparr>))"
  let ?g = "\<lambda>e. if P db e then f e else e"
  have g: "email_ok (?g e) \<and> em_id (?g e) = em_id e \<and> (em_state e = ''pending'' \<longrightarrow> em_state (?g e) = ''pending'')" if "e \<in> set (emails db)" for e
    using assms [of db e] i that by (auto simp: mail_inv_def list_all_iff)
  have "leases_pending db" using i by (simp add: mail_inv_def)
  have "leases_pending (db\<lparr>emails := update_rows (P db) f (emails db)\<rparr>)"
    unfolding leases_pending_def
  proof
    fix l assume "l \<in> set (leases (db\<lparr>emails := update_rows (P db) f (emails db)\<rparr>))"
    with \<open>leases_pending db\<close> obtain e where e: "e \<in> set (emails db)" "em_id e = le_email_id l" "em_state e = ''pending''"
      by (auto simp: leases_pending_def)
    with g [OF e(1)] show "\<exists>q \<in> set (emails (db\<lparr>emails := update_rows (P db) f (emails db)\<rparr>)). em_id q = le_email_id l \<and> em_state q = ''pending''"
      by (intro bexI [of _ "?g e"]) (simp_all add: set_update_rows)
  qed
  moreover have "list_all email_ok (update_rows (P db) f (emails db))"
    unfolding list_all_iff set_update_rows using g by (blast elim!: imageE)
  ultimately show "mail_inv N (snd (count_rows (P db) (emails db), db\<lparr>emails := update_rows (P db) f (emails db)\<rparr>))"
    using i v by (simp add: mail_inv_def)
qed

lemma inv_update_attachments:
  assumes "\<And>db a. Q db a \<Longrightarrow> attachment_ok a \<Longrightarrow> attachment_ok (g a)"
  shows "keeps (mail_inv N) (update_attachments N ctx Q g)"
  unfolding update_attachments_def mail_write_def
  by (rule keeps_sql_write) (use assms in \<open>auto simp: mail_inv_def leases_pending_def list_all_iff set_update_rows\<close>)

lemma inv_inserts:
  "(\<And>i. email_ok (new i)) \<Longrightarrow> keeps (mail_inv N) (insert_email N ctx new)"
  "(\<And>i. attachment_ok (new' i)) \<Longrightarrow> keeps (mail_inv N) (insert_attachment N ctx new')"
  unfolding insert_email_def insert_attachment_def mail_write_def
  by (rule keeps_sql_write, auto simp: mail_inv_def leases_pending_def Let_def split: if_splits)+

lemma keeps_transactionI: "(\<And>s a t. I s \<Longrightarrow> m s = (Inr a, t) \<Longrightarrow> I t) \<Longrightarrow> keeps I (transaction m)"
  by (auto simp: keeps_def transaction_def split: prod.splits sum.splits)

lemma inv_claim_on:
  assumes "mail_inv N db" "e \<in> set (emails db)" "claim_on N t e tok db = (Inr out, db')"
  shows "mail_inv N db'"
  using assms(3)
proof (cases rule: claim_on_cases)
  case done_before
  with assms(1) show ?thesis by simp
next
  case busy
  have v: "mail_valid N db" and f: "leases_pending db" using assms(1) by (simp_all add: mail_inv_def)
  then have "mail_valid N (without_expired N (t 2) (em_id e) db)"
    by (simp add: mail_valid_def without_expired_def list_all_iff distinct_map_filter)
  with busy assms(1) f show ?thesis by (auto simp: mail_inv_def leases_pending_def without_expired_def)
next
  case (acquired q)
  let ?g = "\<lambda>q. if em_id q = em_id e \<and> em_state q \<in> {''pending'', ''error''} then start_attempt N (t 4) q else q"
  have em: "emails db' = map ?g (emails db)" by (simp add: acquired(2) attempt_started_def update_rows_def)
  have at: "attachments db' = map (\<lambda>a. if at_email_id a = em_id e \<and> at_state a \<noteq> ''stored'' then reset_attachment a else a) (attachments db)"
    by (simp add: acquired(2) attempt_started_def update_rows_def)
  have ok: "list_all email_ok (emails db')" "list_all attachment_ok (attachments db')"
    using assms(1) unfolding em at
    by (auto simp: mail_inv_def list_all_iff email_ok_def attachment_ok_def start_attempt_def reset_attachment_def)
  have "em_state e \<in> {''pending'', ''error''}"
    using mail_validD(4) [OF _ assms(2)] assms(1) acquired(1) by (auto simp: mail_inv_def email_check_def mail_states_def)
  then have new: "\<exists>q \<in> set (emails db'). em_id q = em_id e \<and> em_state q = ''pending''"
    using assms(2) unfolding em by (intro bexI [of _ "?g e"]) (simp_all add: start_attempt_def)
  have old: "\<exists>q \<in> set (emails db'). em_id q = j \<and> em_state q = ''pending''"
    if "x \<in> set (emails db)" "em_id x = j" "em_state x = ''pending''" for x j
    using that unfolding em by (intro bexI [of _ "?g x"]) (simp_all add: start_attempt_def)
  have "leases_pending db'"
    unfolding leases_pending_def
  proof
    fix l assume "l \<in> set (leases db')"
    then consider "l \<in> set (leases db)" | "le_email_id l = em_id e"
      by (auto simp: acquired(2) attempt_started_def)
    then show "\<exists>q \<in> set (emails db'). em_id q = le_email_id l \<and> em_state q = ''pending''"
    proof cases
      case 1
      then obtain x where "x \<in> set (emails db)" "em_id x = le_email_id l" "em_state x = ''pending''"
        using assms(1) by (auto simp: mail_inv_def leases_pending_def)
      then show ?thesis by (rule old)
    next
      case 2
      with new show ?thesis by simp
    qed
  qed
  with ok acquired(3) show ?thesis by (simp add: mail_inv_def)
qed


lemma count_rows_one: "count_rows P xs = Suc 0 \<Longrightarrow> \<exists>x \<in> set xs. P x"
  by (metis count_rows_0 nat.distinct(1))

text \<open>A transaction that fails changes nothing.\<close>

lemma complete_fails: "mail_complete N u i tok db = (Inl e, db') \<Longrightarrow> db' = db"
  by (auto simp: mail_complete_def thn_def bnd_def lift_res_def transaction_def split: prod.splits sum.splits)

lemma fail_fails: "mail_fail N u i tok msg db = (Inl e, db') \<Longrightarrow> db' = db"
  by (auto simp: mail_fail_def thn_def bnd_def lift_res_def require_def ok_def raise_def transaction_def split: prod.splits sum.splits if_splits)

lemma upserts_emails: "for_each (upsert_attachment N u i) ds db = (Inr x, db') \<Longrightarrow> emails db' = emails db"
proof (induction ds arbitrary: db)
  case (Cons d ds)
  then obtain db1 y where 1: "upsert_attachment N u i d db = (Inr y, db1)" and 2: "for_each (upsert_attachment N u i) ds db1 = (Inr x, db')"
    by (auto simp: op_Inr)
  from 1 have "emails db1 = emails db"
    by (auto simp: upsert_attachment_def op_Inr insert_attachment_def mail_write_Inr attachment_by_provider_id_def Let_def split: if_splits)
  with Cons.IH [OF 2] show ?case by simp
qed (simp add: ok_Inr)

text \<open>Completion and failure: the email leaves \<open>pending\<close> and its lease goes, together.\<close>

definition finish_email :: "(email_row \<Rightarrow> email_row) \<Rightarrow> int \<Rightarrow> string \<Rightarrow> mail_db \<Rightarrow> mail_db" where
  "finish_email f i tok db =
     db\<lparr>emails := update_rows (\<lambda>e. em_id e = i \<and> em_state e = ''pending'') f (emails db),
        leases := filter (\<lambda>l. \<not> (le_email_id l = i \<and> le_token l = tok)) (leases db)\<rparr>"

definition completed_email :: "mail_ext \<Rightarrow> instant \<Rightarrow> email_row \<Rightarrow> email_row" where
  "completed_email N u e = e\<lparr>em_state := ''stored'', em_error := None, em_updated_at := mx_stamp N u\<rparr>"

definition failed_email :: "mail_ext \<Rightarrow> instant \<Rightarrow> string \<Rightarrow> email_row \<Rightarrow> email_row" where
  "failed_email N u msg e = e\<lparr>em_state := ''error'', em_error := Some msg, em_updated_at := mx_stamp N u\<rparr>"

lemma delete_owned_Inr:
  "delete_owned_lease N i tok db = (Inr x, db') \<longleftrightarrow>
     db' = db\<lparr>leases := filter (\<lambda>l. \<not> (le_email_id l = i \<and> le_token l = tok)) (leases db)\<rparr> \<and> mail_valid N db' \<and>
     count_rows (\<lambda>l. le_email_id l = i \<and> le_token l = tok) (leases db) = 1"
  by (auto simp: delete_owned_lease_def delete_leases_def mail_write_Inr op_Inr)

lemma complete_effect:
  assumes "mail_complete N u i tok db = (Inr x, db')"
  shows "holds db i tok" "\<And>a. a \<in> set (attachments db) \<Longrightarrow> at_email_id a = i \<Longrightarrow> at_state a = ''stored''"
    "\<exists>e \<in> set (emails db). em_id e = i \<and> em_state e = ''pending''" "db' = finish_email (completed_email N u) i tok db" "mail_valid N db'"
  using assms
  by (auto simp: mail_complete_def op_Inr require_owned_lease_def lease_is_owned_def update_emails_def mail_write_Inr delete_owned_Inr
      finish_email_def completed_email_def [abs_def] email_by_id_def count_rows_0 dest: count_rows_one)

lemma fail_effect:
  assumes "mail_fail N u i tok msg db = (Inr x, db')"
  shows "holds db i tok" "\<exists>e \<in> set (emails db). em_id e = i \<and> em_state e = ''pending''"
    "db' = finish_email (failed_email N u msg) i tok db" "mail_valid N db'"
  using assms
  by (auto simp: mail_fail_def op_Inr require_owned_lease_def lease_is_owned_def update_emails_def mail_write_Inr delete_owned_Inr
      finish_email_def failed_email_def [abs_def] dest: count_rows_one)

lemma only_lease:
  assumes "mail_valid N db" "holds db i tok" "l \<in> set (leases db)" "le_email_id l = i"
  shows "le_token l = tok"
  using assms mail_validD(2) [OF assms(1)] distinct_key_eq [of le_email_id "leases db"] by (auto simp: holds_iff)

lemma inv_finish:
  assumes "mail_inv N db" "holds db i tok" "mail_valid N (finish_email f i tok db)"
    and "\<And>e. email_ok (f e)"
  shows "mail_inv N (finish_email f i tok db)"
proof -
  have v: "mail_valid N db" using assms(1) by (simp add: mail_inv_def)
  have em: "emails (finish_email f i tok db) = update_rows (\<lambda>e. em_id e = i \<and> em_state e = ''pending'') f (emails db)"
    by (simp add: finish_email_def)
  have "leases_pending (finish_email f i tok db)"
    unfolding leases_pending_def
  proof
    fix l assume "l \<in> set (leases (finish_email f i tok db))"
    then have l: "l \<in> set (leases db)" "\<not> (le_email_id l = i \<and> le_token l = tok)" by (simp_all add: finish_email_def)
    with only_lease [OF v assms(2)] have "le_email_id l \<noteq> i" by blast
    moreover obtain e where "e \<in> set (emails db)" "em_id e = le_email_id l" "em_state e = ''pending''"
      using assms(1) l(1) by (auto simp: mail_inv_def leases_pending_def)
    ultimately show "\<exists>e \<in> set (emails (finish_email f i tok db)). em_id e = le_email_id l \<and> em_state e = ''pending''"
      unfolding em set_update_rows by (intro bexI [of _ e]) (auto intro: image_eqI [of _ _ e])
  qed
  with assms show ?thesis
    by (auto simp: mail_inv_def list_all_iff em set_update_rows) (simp_all add: finish_email_def)
qed

lemma inv_case_option: "keeps I a \<Longrightarrow> (\<And>x. keeps I (b x)) \<Longrightarrow> keeps I (case z of None \<Rightarrow> a | Some x \<Rightarrow> b x)"
  by (rule keeps_case_option)

lemma inv_operations:
  "keeps (mail_inv N) (claim_webhook N t d tok)" "keeps (mail_inv N) (claim_retry N t i tok)"
  "keeps (mail_inv N) (record_body N u i tok k ct)" "keeps (mail_inv N) (mark_attachment_stored N i j tok key n)"
  "keeps (mail_inv N) (mark_attachment_error N i j tok)" "keeps (mail_inv N) (mail_complete N u i tok)"
  "keeps (mail_inv N) (mail_fail N u i tok msg)" "keeps (mail_inv N) (link_email_to_imported_tmo_loan N app u i loan)"
  "keeps (mail_inv N) (unlink_email N u i)"
proof -
  have email: "keeps (mail_inv N) (insert_email N ctx (new_email N u r f rt s ra p))" for ctx u r f rt s ra p
    by (rule inv_inserts) (simp add: email_ok_def new_email_def)
  have attachment: "keeps (mail_inv N) (upsert_attachment N u i d)" for u i d
  proof -
    have "keeps (mail_inv N) (insert_attachment N ctx (new_attachment N u i r f ct))" for ctx r f ct
      by (rule inv_inserts) (simp add: attachment_ok_def new_attachment_def)
    then show ?thesis unfolding upsert_attachment_def by (intro keeps_rules)
  qed
  show "keeps (mail_inv N) (claim_webhook N t d tok)"
    unfolding claim_webhook_def
  proof (intro keeps_thn keeps_lift_res keeps_transactionI)
    fix db out db'
    assume i: "mail_inv N db" and r: "bnd (register_email N (t 0) d) (\<lambda>email.
       thn (for_each (upsert_attachment N (t 1) (em_id email)) (ed_attachments d)) (claim_on N t email tok)) db = (Inr out, db')"
    then obtain e db1 db2 x where 1: "register_email N (t 0) d db = (Inr e, db1)"
      and 2: "for_each (upsert_attachment N (t 1) (em_id e)) (ed_attachments d) db1 = (Inr x, db2)"
      and 3: "claim_on N t e tok db2 = (Inr out, db')"
      unfolding bnd_Inr thn_Inr by blast
    have "keeps (mail_inv N) (register_email N (t 0) d)" unfolding register_email_def by (intro keeps_rules email)
    from this i 1 have i1: "mail_inv N db1" by (rule keepsD)
    have "keeps (mail_inv N) (for_each (upsert_attachment N (t 1) (em_id e)) (ed_attachments d))"
      by (intro keeps_for_each attachment)
    from this i1 2 have "mail_inv N db2" by (rule keepsD)
    moreover have "e \<in> set (emails db1)"
      using 1 by (auto simp: register_email_def op_Inr email_by_resend_id_def dest: find_set)
    moreover have "emails db2 = emails db1" by (rule upserts_emails [OF 2])
    ultimately show "mail_inv N db'" using inv_claim_on [OF _ _ 3] by simp
  qed
  show "keeps (mail_inv N) (claim_retry N t i tok)"
    unfolding claim_retry_def
  proof (intro keeps_thn keeps_lift_res keeps_require keeps_transactionI)
    fix db out db'
    assume "mail_inv N db" "bnd (email_by_id i) (\<lambda>found. bnd (some_or (InboxNotFound ''inbox email'') found)
        (\<lambda>email. claim_on N t email tok)) db = (Inr out, db')"
    then obtain e where i: "mail_inv N db" and e: "find (\<lambda>e. em_id e = i) (emails db) = Some e" and c: "claim_on N t e tok db = (Inr out, db')"
      by (auto simp: op_Inr email_by_id_def)
    from find_set [OF e] have "e \<in> set (emails db)" by blast
    from inv_claim_on [OF i this c] show "mail_inv N db'" .
  qed
  show "keeps (mail_inv N) (record_body N u i tok k ct)"
    unfolding record_body_def
    by (intro keeps_rules inv_update_emails) (auto simp: email_ok_def)
  have lost: "keeps (mail_inv N) (require_owned_lease i tok)"
    by (auto simp: require_owned_lease_def lease_is_owned_def intro: keeps_rules)
  show "keeps (mail_inv N) (mark_attachment_stored N i j tok key n)"
    unfolding mark_attachment_stored_def
    by (intro keeps_rules inv_update_attachments lost) (auto simp: attachment_ok_def)
  show "keeps (mail_inv N) (mark_attachment_error N i j tok)"
    unfolding mark_attachment_error_def
    by (intro keeps_rules inv_update_attachments) (auto simp: attachment_ok_def)
  show "keeps (mail_inv N) (mail_complete N u i tok)"
  proof (rule keepsI)
    fix db r db' assume i: "mail_inv N db" and m: "mail_complete N u i tok db = (r, db')"
    show "mail_inv N db'"
    proof (cases r)
      case (Inl e)
      with m i show ?thesis using complete_fails by blast
    next
      case (Inr x)
      with m have m': "mail_complete N u i tok db = (Inr x, db')" by simp
      note e = complete_effect [OF m']
      show ?thesis using inv_finish [OF i e(1), of "completed_email N u"] e(4,5) by (simp add: email_ok_def completed_email_def)
    qed
  qed
  show "keeps (mail_inv N) (mail_fail N u i tok msg)"
  proof (rule keepsI)
    fix db r db' assume i: "mail_inv N db" and m: "mail_fail N u i tok msg db = (r, db')"
    show "mail_inv N db'"
    proof (cases r)
      case (Inl e)
      with m i show ?thesis using fail_fails by blast
    next
      case (Inr x)
      with m have m': "mail_fail N u i tok msg db = (Inr x, db')" by simp
      note e = fail_effect [OF m']
      show ?thesis using inv_finish [OF i e(1), of "failed_email N u msg"] e(3,4) by (simp add: email_ok_def failed_email_def)
    qed
  qed
  have link: "keeps (mail_inv N) (update_emails N ctx (\<lambda>_ e. em_id e = i) (set_loan N u x))" for ctx x
    by (rule inv_update_emails) (auto simp: email_ok_def set_loan_def)
  have r: "keeps (mail_inv N) (required_email i)" by (rule reads_keeps [OF reads_required(1)])
  show "keeps (mail_inv N) (link_email_to_imported_tmo_loan N app u i loan)" "keeps (mail_inv N) (unlink_email N u i)"
    unfolding link_email_to_imported_tmo_loan_def unlink_email_def by (intro keeps_rules link r)+
qed


subsection \<open>Requests in any order\<close>

inductive mail_step :: "mail_ext \<Rightarrow> mail_db \<Rightarrow> mail_db \<Rightarrow> bool" for N where
  deliver: "mail_step N db (snd (claim_webhook N t d tok db))"
| retry: "mail_step N db (snd (claim_retry N t i tok db))"
| body: "mail_step N db (snd (record_body N u i tok k ct db))"
| stored: "mail_step N db (snd (mark_attachment_stored N i j tok key n db))"
| failed: "mail_step N db (snd (mark_attachment_error N i j tok db))"
| complete: "mail_step N db (snd (mail_complete N u i tok db))"
| give_up: "mail_step N db (snd (mail_fail N u i tok msg db))"
| link: "mail_step N db (snd (link_email_to_imported_tmo_loan N app u i loan db))"
| unlink: "mail_step N db (snd (unlink_email N u i db))"

inductive_cases mail_stepE: "mail_step N db db'"

lemma mail_step_inv: "mail_step N db db' \<Longrightarrow> mail_inv N db \<Longrightarrow> mail_inv N db'"
  by (induction rule: mail_step.induct) (rule keeps_snd [OF inv_operations(1)] keeps_snd [OF inv_operations(2)]
      keeps_snd [OF inv_operations(3)] keeps_snd [OF inv_operations(4)] keeps_snd [OF inv_operations(5)]
      keeps_snd [OF inv_operations(6)] keeps_snd [OF inv_operations(7)] keeps_snd [OF inv_operations(8)]
      keeps_snd [OF inv_operations(9)], assumption)+

lemma kept_snd: "evolves mail_kept m \<Longrightarrow> mail_kept s (snd (m s))"
  by (simp add: evolves_def)

lemma mail_step_kept: "mail_step N db db' \<Longrightarrow> mail_kept db db'"
  by (induction rule: mail_step.induct) (rule kept_snd, rule kept_operations kept_links)+

lemma mail_steps: "(mail_step N)\<^sup>*\<^sup>* db db' \<Longrightarrow> (mail_inv N db \<longrightarrow> mail_inv N db') \<and> mail_kept db db'"
  by (induction rule: rtranclp_induct) (use kept_refl mail_step_inv mail_step_kept mail.trans in blast)+

lemma no_mail_inv: "mail_inv N no_mail"
  by (simp add: mail_inv_def mail_valid_def no_mail_def leases_pending_def)

text \<open>A stored email has no lease and is never claimed again. (So an attachment that a later delivery of the same email adds is
  never fetched: the delivery inserts it before it finds the email stored.)\<close>

lemma stored_email_done:
  assumes "mail_inv N db" "e \<in> set (emails db)" "em_state e = ''stored''"
  shows "\<not> holds db (em_id e) tok" "claim_on N t e tok db = (Inr (AlreadyStored e), db)"
proof -
  show "\<not> holds db (em_id e) tok"
  proof
    assume "holds db (em_id e) tok"
    then obtain q where "q \<in> set (emails db)" "em_id q = em_id e" "em_state q = ''pending''"
      using assms(1) by (auto simp: holds_iff mail_inv_def leases_pending_def)
    moreover from this have "q = e" using distinct_key_eq [OF mail_validD(1)] assms by (metis mail_inv_def)
    ultimately show False using assms(3) by simp
  qed
  show "claim_on N t e tok db = (Inr (AlreadyStored e), db)" using assms(3) by (simp add: claim_on_def ok_def)
qed

text \<open>C5: Inbound mail is safe under any interleaving of deliveries, retries, worker transactions and link requests, with any
  tokens and clock readings. Every reachable state has at most one lease per email, only pending emails are leased, an attachment
  has an object exactly when it is stored, and an email has an error message exactly when it is in error. And from any reachable
  state on, no email or attachment loses its identity and metadata, a stored email stays stored with its body, and a stored
  attachment never changes.\<close>

theorem inbound_mail_safe:
  assumes "(mail_step N)\<^sup>*\<^sup>* no_mail db" "(mail_step N)\<^sup>*\<^sup>* db db'"
  shows "distinct (map le_email_id (leases db')) \<and> leases_pending db' \<and> list_all attachment_ok (attachments db') \<and>
    list_all email_ok (emails db') \<and> mail_valid N db' \<and> mail_kept db db'"
proof -
  have "mail_inv N db" using mail_steps [OF assms(1)] no_mail_inv by blast
  with mail_steps [OF assms(2)] have "mail_inv N db'" "mail_kept db db'" by blast+
  then show ?thesis using mail_validD(2) [of N db'] by (simp add: mail_inv_def)
qed


subsection \<open>Leases are exclusive\<close>

lemma valid_update_emails:
  assumes "mail_valid N db" "\<And>e. P e \<Longrightarrow> email_check N e \<Longrightarrow> email_check N (f e)"
    and "\<And>e. em_id (f e) = em_id e" "\<And>e. em_resend_id (f e) = em_resend_id e"
  shows "mail_valid N (db\<lparr>emails := update_rows P f (emails db)\<rparr>)"
proof -
  have "list_all (email_check N) (update_rows P f (emails db))"
    using assms(1,2) by (auto simp: mail_valid_def update_rows_def list_all_iff)
  moreover have "map em_id (update_rows P f (emails db)) = map em_id (emails db)"
    "map em_resend_id (update_rows P f (emails db)) = map em_resend_id (emails db)"
    using assms(3,4) by (simp_all add: map_update_rows)
  ultimately show ?thesis using assms(1) by (simp add: mail_valid_def del: set_map list.set_map)
qed

lemma valid_update_attachments:
  assumes "mail_valid N db" "\<And>a. P a \<Longrightarrow> attachment_check N a \<Longrightarrow> attachment_check N (f a)"
    and "\<And>a. at_id (f a) = at_id a" "\<And>a. at_email_id (f a) = at_email_id a" "\<And>a. at_resend_id (f a) = at_resend_id a"
  shows "mail_valid N (db\<lparr>attachments := update_rows P f (attachments db)\<rparr>)"
proof -
  have "list_all (attachment_check N) (update_rows P f (attachments db))"
    using assms(1,2) by (auto simp: mail_valid_def update_rows_def list_all_iff)
  moreover have "map at_id (update_rows P f (attachments db)) = map at_id (attachments db)"
    "map (\<lambda>a. (at_email_id a, at_resend_id a)) (update_rows P f (attachments db)) = map (\<lambda>a. (at_email_id a, at_resend_id a)) (attachments db)"
    using assms(3-5) by (simp_all add: map_update_rows)
  moreover have "list_all (\<lambda>a. at_email_id a \<in> S) (update_rows P f (attachments db))" if "list_all (\<lambda>a. at_email_id a \<in> S) (attachments db)" for S
    using that assms(4) by (auto simp: update_rows_def list_all_iff)
  ultimately show ?thesis using assms(1) by (simp add: mail_valid_def)
qed

lemma no_lease_no_effect:
  assumes "mail_valid N db" "\<not> holds db i tok"
  shows "snd (record_body N u i tok k ct db) = db" "snd (mark_attachment_stored N i j tok key n db) = db"
    "snd (mark_attachment_error N i j tok db) = db" "snd (mail_complete N u i tok db) = db" "snd (mail_fail N u i tok msg db) = db"
proof -
  have e: "update_emails N ctx (\<lambda>db e. em_id e = i \<and> em_state e = ''pending'' \<and> holds db i tok) f db = (Inr 0, db)" for ctx f
    using assms by (simp add: update_emails_def mail_write_def sql_write_def count_rows_def update_rows_none)
  have a: "update_attachments N ctx (\<lambda>db a. at_id a = j \<and> at_email_id a = i \<and> Q a \<and> holds db i tok) g db = (Inr 0, db)" for ctx Q g
    using assms by (simp add: update_attachments_def mail_write_def sql_write_def count_rows_def update_rows_none)
  show "snd (record_body N u i tok k ct db) = db"
    unfolding record_body_def by (simp add: thn_def bnd_def e lift_res_def require_def ok_def raise_def split: sum.splits)
  show "snd (mark_attachment_stored N i j tok key n db) = db"
    unfolding mark_attachment_stored_def
    using assms(2) by (simp add: thn_def bnd_def a lift_res_def require_def ok_def raise_def require_owned_lease_def lease_is_owned_def
        gets_def split: sum.splits)
  show "snd (mark_attachment_error N i j tok db) = db"
    unfolding mark_attachment_error_def by (simp add: thn_def bnd_def a lift_res_def require_def ok_def raise_def split: sum.splits)
  show "snd (mail_complete N u i tok db) = db"
    using complete_effect(1) [of N u i tok db] complete_fails [of N u i tok db] assms(2)
    by (cases "mail_complete N u i tok db"; cases "fst (mail_complete N u i tok db)") auto
  show "snd (mail_fail N u i tok msg db) = db"
    using fail_effect(1) [of N u i tok msg db] fail_fails [of N u i tok msg db] assms(2)
    by (cases "mail_fail N u i tok msg db"; cases "fst (mail_fail N u i tok msg db)") auto
qed


text \<open>What is assumed of SQLite's clock, on the instants \<open>R\<close> it can print: the text of an instant is a valid datetime, and the order
  of the texts is that of the milliseconds.\<close>

definition sql_clock :: "mail_ext \<Rightarrow> (instant \<Rightarrow> bool) \<Rightarrow> bool" where
  "sql_clock N R \<longleftrightarrow> (\<forall>a. R a \<longrightarrow> utc_check (mx_datetime N) (mx_stamp N a)) \<and>
     (\<forall>a b. R a \<longrightarrow> R b \<longrightarrow> (mx_stamp N a \<le> mx_stamp N b \<longleftrightarrow> a div millisecond \<le> b div millisecond))"

lemma claim_on_busy:
  assumes "mail_valid N db" "em_state e \<noteq> ''stored''" "l \<in> set (leases db)" "le_email_id l = em_id e" "\<not> expired N (t 2) (em_id e) l"
  shows "claim_on N t e tok db = (Inr (Busy e), db)"
proof -
  have "\<not> expired N (t 2) (em_id e) q" if "q \<in> set (leases db)" for q
    using that assms(3-5) distinct_key_eq [OF mail_validD(2) [OF assms(1)] that assms(3)] by (auto simp: expired_def)
  then have f: "filter (\<lambda>q. \<not> expired N (t 2) (em_id e) q) (leases db) = leases db" by simp
  have "delete_leases N ctx (expired N (t 2) (em_id e)) db = (Inr (count_rows (expired N (t 2) (em_id e)) (leases db)), db)" for ctx
    using assms(1) by (simp add: delete_leases_def mail_write_def sql_write_def f)
  moreover have "insert_lease N ctx \<lparr>le_email_id = em_id e, le_token = tok, le_claimed_at = x\<rparr> db = (Inr 0, db)" for ctx x
    using assms(1,3,4) by (auto simp: insert_lease_def mail_write_def sql_write_def list_ex_iff)
  ultimately show ?thesis using assms(2) by (simp add: claim_on_def thn_def bnd_def ok_def)
qed

lemma valid_add_lease:
  assumes "mail_valid N db" "lease_check N l" "\<And>q. q \<in> set (leases db) \<Longrightarrow> le_email_id q \<noteq> le_email_id l \<and> le_token q \<noteq> le_token l"
    and "le_email_id l \<in> em_id ` set (emails db)"
  shows "mail_valid N (db\<lparr>leases := leases db @ [l]\<rparr>)"
proof -
  have "le_email_id l \<notin> le_email_id ` set (leases db)" "le_token l \<notin> le_token ` set (leases db)" using assms(3) by (metis imageE)+
  with assms(1,2,4) show ?thesis by (simp add: mail_valid_def)
qed

lemma find_same_keys: "map key ys = map key xs \<Longrightarrow> x \<in> set xs \<Longrightarrow> \<exists>q. find (\<lambda>q. key q = key x) ys = Some q"
proof -
  assume m: "map key ys = map key xs" and x: "x \<in> set xs"
  have "key x \<in> set (map key ys)" unfolding m using x by simp
  then obtain y where "y \<in> set ys" "key y = key x" by auto
  then have "find (\<lambda>q. key q = key x) ys \<noteq> None" by (auto simp: find_None_iff)
  then show ?thesis by simp
qed

lemma claim_on_acquires:
  assumes v: "mail_valid N db" and e: "e \<in> set (emails db)" "em_state e \<noteq> ''stored''"
    and old: "\<And>l. l \<in> set (leases db) \<Longrightarrow> le_email_id l = em_id e \<Longrightarrow> expired N (t 2) (em_id e) l"
    and fresh: "\<And>l. l \<in> set (leases db) \<Longrightarrow> le_token l \<noteq> tok"
    and ok: "lease_check N \<lparr>le_email_id = em_id e, le_token = tok, le_claimed_at = mx_stamp N (t 3)\<rparr>"
      "utc_check (mx_datetime N) (mx_stamp N (t 4))"
  shows "\<exists>c. claim_on N t e tok db = (Inr (Acquired c), attempt_started N t (em_id e) tok db) \<and> ce_token c = tok \<and> em_id (ce_email c) = em_id e"
proof -
  let ?i = "em_id e" and ?l = "\<lparr>le_email_id = em_id e, le_token = tok, le_claimed_at = mx_stamp N (t 3)\<rparr>"
  let ?db1 = "without_expired N (t 2) (em_id e) db"
  let ?db2 = "?db1\<lparr>leases := leases ?db1 @ [?l]\<rparr>"
  let ?db3 = "?db2\<lparr>emails := update_rows (\<lambda>q. em_id q = ?i \<and> em_state q \<in> {''pending'', ''error''}) (start_attempt N (t 4)) (emails ?db2)\<rparr>"
  let ?db4 = "?db3\<lparr>attachments := update_rows (\<lambda>a. at_email_id a = ?i \<and> at_state a \<noteq> ''stored'') reset_attachment (attachments ?db3)\<rparr>"
  have l1: "l \<in> set (leases ?db1) \<Longrightarrow> le_email_id l \<noteq> ?i \<and> le_token l \<noteq> tok" for l
    using old fresh by (auto simp: without_expired_def)
  have v1: "mail_valid N ?db1"
    using v by (simp add: mail_valid_def without_expired_def list_all_iff distinct_map_filter)
  then have v2: "mail_valid N ?db2"
    by (rule valid_add_lease) (use l1 ok(1) e(1) in \<open>auto simp: without_expired_def\<close>)
  have v3: "mail_valid N ?db3"
    using ok(2) by (intro valid_update_emails [OF v2]) (auto simp: email_check_def start_attempt_def mail_states_def)
  have v4: "mail_valid N ?db4"
    by (rule valid_update_attachments [OF v3]) (auto simp: attachment_check_def reset_attachment_def mail_states_def)
  have d: "delete_leases N ctx (expired N (t 2) ?i) db = (Inr (count_rows (expired N (t 2) ?i) (leases db)), ?db1)" for ctx
    using v1 by (simp add: delete_leases_def mail_write_def sql_write_def without_expired_def)
  have n: "\<not> list_ex (\<lambda>q. le_email_id q = ?i \<or> le_token q = tok) (leases ?db1)" using l1 by (auto simp: list_ex_iff)
  have i: "insert_lease N ctx ?l ?db1 = (Inr 1, ?db2)" for ctx
    using v2 ok(1) n by (simp add: insert_lease_def mail_write_def sql_write_def)
  have u: "update_emails N ctx (\<lambda>_ q. em_id q = ?i \<and> em_state q \<in> {''pending'', ''error''}) (start_attempt N (t 4)) ?db2 =
      (Inr (count_rows (\<lambda>q. em_id q = ?i \<and> em_state q \<in> {''pending'', ''error''}) (emails ?db2)), ?db3)" for ctx
    using v3 by (simp add: update_emails_def mail_write_def sql_write_def)
  have a: "update_attachments N ctx (\<lambda>_ a. at_email_id a = ?i \<and> at_state a \<noteq> ''stored'') reset_attachment ?db3 =
      (Inr (count_rows (\<lambda>a. at_email_id a = ?i \<and> at_state a \<noteq> ''stored'') (attachments ?db3)), ?db4)" for ctx
    using v4 by (simp add: update_attachments_def mail_write_def sql_write_def)
  have four: "?db4 = attempt_started N t ?i tok db" by (simp add: attempt_started_def without_expired_def)
  have "map em_id (emails ?db4) = map em_id (emails db)"
    by (simp add: without_expired_def) (rule map_update_rows, simp add: start_attempt_def)
  from find_same_keys [OF this e(1)] have "\<exists>q. find (\<lambda>q. em_id q = ?i) (emails ?db4) = Some q" .
  then obtain q where q: "find (\<lambda>q. em_id q = ?i) (emails ?db4) = Some q" by blast
  have id: "em_id q = ?i" using find_set [OF q] by (rule conjunct2)
  have c: "claim_on N t e tok db = (Inr (Acquired \<lparr>ce_email = q, ce_attachments = attachment_list ?db4 ?i, ce_token = tok\<rparr>), ?db4)"
    unfolding claim_on_def if_not_P [OF e(2)]
    apply (rule thn_eqI, rule d)
    apply (rule bnd_eqI, rule i)
    apply (simp only: one_neq_zero if_False)
    apply (rule thn_eqI, rule u)
    apply (rule thn_eqI, rule a)
    apply (rule bnd_eqI [of _ _ "Some q" ?db4])
     apply (simp only: email_by_id_def gets_def q)
    apply (simp add: some_or_def attachments_of_def gets_def bnd_def ok_def attachment_list_def)
    done
  show ?thesis by (intro exI conjI, rule c [unfolded four]) (simp_all only: claimed_email.select_convs id)
qed

lemma claim_retry_of:
  assumes "mail_valid N db" "e \<in> set (emails db)" "0 < em_id e" "validate_lease_token tok = Inr ()"
    and "claim_on N t e tok db = (Inr out, db')"
  shows "claim_retry N t (em_id e) tok db = (Inr out, db')"
  using assms(3-5) find_key [OF mail_validD(1) [OF assms(1)] assms(2)]
  by (simp add: claim_retry_def thn_def bnd_def lift_res_def require_def ok_def transaction_def email_by_id_def gets_def some_or_def)

lemma lease_holder:
  assumes "mail_inv N db" "l \<in> set (leases db)"
  obtains e where "e \<in> set (emails db)" "em_id e = le_email_id l" "em_state e = ''pending''"
  using assms by (auto simp: mail_inv_def leases_pending_def)

text \<open>C7: A processing lease is exclusive. While one is held on an email, a request with another token cannot write: recording a body or
  an attachment, failing and completing leave the database as it is. A competing claim finds the email busy, and changes
  nothing, until the lease is two minutes old (to the millisecond); from then on it takes the lease over, and the old token holds
  nothing any more.\<close>

theorem lease_exclusive:
  assumes "sql_clock N R" "mail_inv N db" "l \<in> set (leases db)" "le_email_id l = i" "le_claimed_at l = mx_stamp N t0"
    and "R t0" "R (t 2 - lease_stale)" "R (t 3)" "R (t 4)" "0 < i" "validate_lease_token tok = Inr ()" "tok \<notin> le_token ` set (leases db)"
  shows "(snd (record_body N u i tok k ct db) = db \<and> snd (mark_attachment_stored N i j tok key n db) = db \<and>
      snd (mark_attachment_error N i j tok db) = db \<and> snd (mail_complete N u i tok db) = db \<and> snd (mail_fail N u i tok msg db) = db) \<and>
     (if t0 div millisecond \<le> (t 2 - lease_stale) div millisecond
       then \<exists>c db'. claim_retry N t i tok db = (Inr (Acquired c), db') \<and> ce_token c = tok \<and> holds db' i tok \<and> \<not> holds db' i (le_token l)
       else \<exists>e. claim_retry N t i tok db = (Inr (Busy e), db))"
proof (rule conjI)
  have v: "mail_valid N db" using assms(2) by (simp add: mail_inv_def)
  have "\<not> holds db i tok" using assms(12) by (auto simp: holds_iff)
  from no_lease_no_effect [OF v this] show "snd (record_body N u i tok k ct db) = db \<and> snd (mark_attachment_stored N i j tok key n db) = db \<and>
      snd (mark_attachment_error N i j tok db) = db \<and> snd (mail_complete N u i tok db) = db \<and> snd (mail_fail N u i tok msg db) = db"
    by blast
  obtain e where e: "e \<in> set (emails db)" "em_id e = i" "em_state e = ''pending''"
    using lease_holder [OF assms(2,3)] assms(4) by metis
  have retry: "claim_retry N t i tok db = (Inr out, db')" if "claim_on N t e tok db = (Inr out, db')" for out db'
    using claim_retry_of [OF v e(1) _ assms(11) that] assms(10) e(2) by simp
  have x: "expired N (t 2) i l \<longleftrightarrow> t0 div millisecond \<le> (t 2 - lease_stale) div millisecond"
    using assms(1,4-7) by (simp add: expired_def sql_clock_def)
  show "if t0 div millisecond \<le> (t 2 - lease_stale) div millisecond
       then \<exists>c db'. claim_retry N t i tok db = (Inr (Acquired c), db') \<and> ce_token c = tok \<and> holds db' i tok \<and> \<not> holds db' i (le_token l)
       else \<exists>e. claim_retry N t i tok db = (Inr (Busy e), db)"
  proof (cases "expired N (t 2) i l")
    case True
    have old: "expired N (t 2) (em_id e) q" if "q \<in> set (leases db)" "le_email_id q = em_id e" for q
      using True distinct_key_eq [OF mail_validD(2) [OF v] that(1) assms(3)] that(2) e(2) assms(4) by simp
    have len: "32 \<le> length tok \<and> length tok \<le> 128" using assms(11) by (simp add: validate_lease_token_def split: if_splits)
    have "\<exists>c. claim_on N t e tok db = (Inr (Acquired c), attempt_started N t (em_id e) tok db) \<and> ce_token c = tok \<and> em_id (ce_email c) = em_id e"
      by (rule claim_on_acquires [OF v e(1)])
        (use e old len assms(1,8,9,12) in \<open>auto simp: lease_check_def sql_clock_def\<close>)
    moreover have "holds (attempt_started N t i tok db) i tok" by (simp add: holds_def attempt_started_def)
    moreover have "\<not> holds (attempt_started N t i tok db) i (le_token l)"
      using old e(2) assms(3,12) by (auto simp: holds_iff attempt_started_def)
    ultimately show ?thesis using retry True x e(2) by auto
  next
    case False
    with x retry claim_on_busy [OF v _ assms(3)] e assms(4) show ?thesis by auto
  qed
qed

end
