(* ===== verification/Resend_Attempt.thy ===== *)
theory Resend_Attempt
  imports Resend_Leases
begin

text \<open>
  One processing attempt ends. \<open>working\<close> is what holds while the worker owns its lease; every transaction before the completion
  keeps it, whatever the provider and the object store answer.
\<close>

subsection \<open>While the lease is held\<close>

definition working :: "mail_ext \<Rightarrow> int \<Rightarrow> string \<Rightarrow> mail_db \<Rightarrow> bool" where
  "working N i tok db \<longleftrightarrow> mail_inv N db \<and> holds db i tok"

definition email_done :: "int \<Rightarrow> mail_db \<Rightarrow> bool" where
  "email_done i db \<longleftrightarrow> (\<exists>e \<in> set (emails db). em_id e = i \<and> em_state e = ''stored'') \<and>
     (\<forall>a \<in> set (attachments db). at_email_id a = i \<longrightarrow> at_state a = ''stored'')"

text \<open>What is assumed of the other requests: they keep the invariant and what is final, and they neither take this token's lease
  away nor hand it out again.\<close>

definition considerate :: "mail_ext \<Rightarrow> int \<Rightarrow> string \<Rightarrow> mail_world \<Rightarrow> bool" where
  "considerate N i tok W \<longleftrightarrow> (\<forall>k db. mail_inv N db \<longrightarrow>
     mail_inv N (mw_others W k db) \<and> mail_kept db (mw_others W k db) \<and> holds (mw_others W k db) i tok = holds db i tok)"

lemma leases_untouched:
  "leases (snd (update_emails N ctx P f db)) = leases db" "leases (snd (update_attachments N ctx Q g db)) = leases db"
  by (simp_all add: update_emails_def update_attachments_def mail_write_def sql_write_def)

lemma working_updates:
  "keeps (mail_inv N) (update_emails N ctx P f) \<Longrightarrow> keeps (working N i tok) (update_emails N ctx P f)"
  "keeps (mail_inv N) (update_attachments N ctx Q g) \<Longrightarrow> keeps (working N i tok) (update_attachments N ctx Q g)"
  using leases_untouched by (auto simp: keeps_def working_def holds_def)

lemma working_repository:
  "keeps (working N i tok) (record_body N u i tok k ct)" "keeps (working N i tok) (mark_attachment_stored N i j tok key n)"
  "keeps (working N i tok) (mark_attachment_error N i j tok)"
proof -
  show "keeps (working N i tok) (record_body N u i tok k ct)"
    unfolding record_body_def by (intro keeps_rules working_updates inv_update_emails) (auto simp: email_ok_def)
  have lost: "keeps I (require_owned_lease i tok)" for I
    by (auto simp: require_owned_lease_def lease_is_owned_def intro: keeps_rules)
  show "keeps (working N i tok) (mark_attachment_stored N i j tok key n)"
    unfolding mark_attachment_stored_def
    by (intro keeps_rules working_updates inv_update_attachments lost) (auto simp: attachment_ok_def)
  show "keeps (working N i tok) (mark_attachment_error N i j tok)"
    unfolding mark_attachment_error_def by (intro keeps_rules working_updates inv_update_attachments) (auto simp: attachment_ok_def)
qed

lemma working_checkpoint: "considerate N i tok W \<Longrightarrow> keeps (working N i tok) (checkpoint W k)"
  by (simp add: keeps_def checkpoint_def considerate_def working_def)

lemma working_transient: "keeps I m \<Longrightarrow> keeps I (transient m)"
  unfolding transient_def by (rule keeps_map_err)

lemma working_pure: "keeps I (from_provider r)" "keeps I (from_media q)" "keeps I (fail_work f)"
  by (simp_all add: from_provider_def from_media_def fail_work_def keeps_lift_res keeps_raise)

lemma working_body:
  assumes "considerate N (em_id (ce_email c)) (ce_token c) W"
  shows "keeps (working N (em_id (ce_email c)) (ce_token c)) (process_body N W c)"
  unfolding process_body_def Let_def
  by (intro keeps_if keeps_ok keeps_bnd working_pure)
    (auto split: option.split intro!: keeps_thn keeps_ok working_pure working_transient working_checkpoint [OF assms] working_repository)

lemma working_store:
  assumes "considerate N (em_id (ce_email c)) (ce_token c) W"
  shows "keeps (working N (em_id (ce_email c)) (ce_token c)) (store_attachment N W k c remote a)"
  unfolding store_attachment_def Let_def
  by (auto split: option.split intro!: keeps_if keeps_bnd keeps_thn working_pure working_transient working_checkpoint [OF assms] working_repository)

lemma working_stores:
  assumes "considerate N (em_id (ce_email c)) (ce_token c) W"
  shows "keeps (working N (em_id (ce_email c)) (ce_token c)) (store_attachments N W k c remote as)"
proof (induction as arbitrary: k)
  case Nil
  show ?case by (simp add: keeps_ok)
next
  case (Cons a as)
  let ?I = "working N (em_id (ce_email c)) (ce_token c)"
  show ?case
  proof (rule keepsI)
    fix db r db'
    assume i: "?I db" and s: "store_attachments N W k c remote (a # as) db = (r, db')"
    obtain x db1 where st: "store_attachment N W k c remote a db = (x, db1)" by (cases "store_attachment N W k c remote a db")
    from working_store [OF assms] i st have i1: "?I db1" by (rule keepsD)
    show "?I db'"
    proof (cases x)
      case (Inr u)
      with s st have "store_attachments N W (k + 2) c remote as db1 = (r, db')" by simp
      with Cons.IH i1 show ?thesis by (rule keepsD)
    next
      case (Inl e)
      show ?thesis
      proof (cases e)
        case Dropped
        with s st Inl i1 show ?thesis by simp
      next
        case (Failed f)
        let ?m = "\<lambda>d. (Inl (Failed f), snd (mark_attachment_error N (em_id (ce_email c)) (at_id a) (ce_token c) d)) :: (workflow_exit + unit) \<times> mail_db"
        have "keeps ?I ?m" using working_repository(3) by (auto simp: keeps_def)
        then have "keeps ?I (thn (checkpoint W (k + 1)) ?m)" by (intro keeps_thn working_checkpoint [OF assms])
        moreover have "thn (checkpoint W (k + 1)) ?m db1 = (r, db')" using s st Inl Failed by simp
        ultimately show ?thesis using i1 keepsD [of ?I "thn (checkpoint W (k + 1)) ?m" db1] by blast
      qed
    qed
  qed
qed

lemma working_attachments:
  assumes "considerate N (em_id (ce_email c)) (ce_token c) W"
  shows "keeps (working N (em_id (ce_email c)) (ce_token c)) (process_attachments N W c)"
  unfolding process_attachments_def
  by (intro keeps_if keeps_ok keeps_bnd working_pure working_stores [OF assms])

subsection \<open>The end of the work\<close>

lemma finish_not_held: "\<not> holds (finish_email f i tok db) i tok"
  by (simp add: holds_def finish_email_def list_ex_iff)

lemma complete_done:
  assumes "mail_complete N u i tok db = (Inr x, db')"
  shows "\<not> holds db' i tok" "email_done i db'"
proof -
  note e = complete_effect [OF assms]
  obtain q where "q \<in> set (emails db)" "em_id q = i" "em_state q = ''pending''" using e(3) by blast
  then have "completed_email N u q \<in> set (emails db')" by (auto simp: e(4) finish_email_def set_update_rows intro: image_eqI [of _ _ q])
  with \<open>em_id q = i\<close> e(2) show "email_done i db'"
    by (auto simp: email_done_def e(4)) (auto simp: finish_email_def completed_email_def intro!: bexI [of _ "completed_email N u q"])
  show "\<not> holds db' i tok" unfolding e(4) by (rule finish_not_held)
qed

lemma process_ends:
  assumes "considerate N (em_id (ce_email c)) (ce_token c) W" "working N (em_id (ce_email c)) (ce_token c) db"
    and "process_claim N W c db = (r, db')"
  shows "working N (em_id (ce_email c)) (ce_token c) db' \<and> (\<exists>e. r = Inl e) \<or>
    mail_inv N db' \<and> \<not> holds db' (em_id (ce_email c)) (ce_token c) \<and> email_done (em_id (ce_email c)) db'"
proof -
  let ?i = "em_id (ce_email c)" and ?tok = "ce_token c" and ?k = "1 + 2 * length (ce_attachments c)"
  let ?I = "working N ?i ?tok"
  let ?last = "\<lambda>db. (if mw_cut W = Some (?k + 1) then (Inl Dropped, db) else (Inr (), db)) :: (workflow_exit + unit) \<times> mail_db"
  let ?before = "thn (process_body N W c) (thn (process_attachments N W c) (checkpoint W ?k))"
  let ?complete = "transient (mail_complete N (mw_clock W ?k) ?i ?tok)"
  have b: "keeps ?I ?before"
    by (intro keeps_thn working_body working_attachments working_checkpoint assms(1))
  have split: "process_claim N W c = thn ?before (thn ?complete ?last)"
    by (simp add: process_claim_def Let_def thn_def bnd_assoc)
  obtain x db1 where x: "?before db = (x, db1)" by (cases "?before db")
  from b assms(2) x have i1: "?I db1" by (rule keepsD)
  show ?thesis
  proof (cases x)
    case (Inl e)
    with x assms(3) have "db' = db1" "r = Inl e" unfolding split by (simp_all add: thn_def bnd_def)
    with i1 show ?thesis by blast
  next
    case (Inr u)
    obtain y db2 where y: "mail_complete N (mw_clock W ?k) ?i ?tok db1 = (y, db2)" by (cases "mail_complete N (mw_clock W ?k) ?i ?tok db1")
    have "?before db = (Inr u, db1)" using x Inr by (simp only:)
    then have "thn ?before (thn ?complete ?last) db = thn ?complete ?last db1" by (rule thn_eqI) (rule refl)
    with assms(3) have rest: "thn ?complete ?last db1 = (r, db')" unfolding split by (simp only:)
    show ?thesis
    proof (cases y)
      case (Inl e)
      with y complete_fails have "db2 = db1" by blast
      with Inl y rest have "db' = db1" "r = Inl (Failed Transient)"
        by (simp_all add: thn_def bnd_def transient_def map_err_def)
      with i1 show ?thesis by blast
    next
      case e: (Inr e)
      with y rest have d: "db' = db2" by (auto simp: thn_def bnd_def transient_def map_err_def split: if_splits)
      have "mail_inv N db1" using i1 by (simp add: working_def)
      from inv_operations(6) this y have "mail_inv N db2" by (rule keepsD)
      with complete_done [of N "mw_clock W ?k" ?i ?tok db1 e db2] y e d show ?thesis by blast
    qed
  qed
qed

lemma failure_message: "trim (public_failure f) \<noteq> []" "length (public_failure f) \<le> 512" "\<not> has_control (public_failure f)"
proof -
  have m: "trim m \<noteq> []" if "m \<in> {''Email provider or object storage is temporarily unavailable. Retry is available.'',
      ''Email content could not be stored because the provider response was invalid.''}" for m
  proof -
    have "CHR ''E'' \<in> set m" using that by auto
    moreover have "32 < code (CHR ''E'') \<and> code (CHR ''E'') < 127" by code_simp
    ultimately show ?thesis using trim_letter by blast
  qed
  show "trim (public_failure f) \<noteq> []" unfolding public_failure_def by (rule m) simp
  have "length (public_failure Transient) \<le> 512" "length (public_failure Permanent) \<le> 512" by code_simp+
  then show "length (public_failure f) \<le> 512" by (cases f) auto
  have "\<not> has_control (public_failure Transient)" "\<not> has_control (public_failure Permanent)" by code_simp+
  then show "\<not> has_control (public_failure f)" by (cases f) auto
qed

lemma fail_records:
  assumes "working N i tok db" "validate_lease_token tok = Inr ()" "utc_check (mx_datetime N) (mx_stamp N u)"
  shows "mail_fail N u i tok (public_failure f) db = (Inr (), finish_email (failed_email N u (public_failure f)) i tok db)"
    and "\<exists>e \<in> set (emails (finish_email (failed_email N u (public_failure f)) i tok db)). em_id e = i \<and> em_state e = ''error'' \<and>
      em_error e = Some (public_failure f)"
proof -
  let ?f = "failed_email N u (public_failure f)" and ?P = "\<lambda>e. em_id e = i \<and> em_state e = ''pending''"
  have inv: "mail_inv N db" and h: "holds db i tok" using assms(1) by (simp_all add: working_def)
  then have v: "mail_valid N db" by (simp add: mail_inv_def)
  obtain l where l: "l \<in> set (leases db)" "le_email_id l = i" "le_token l = tok" using h by (auto simp: holds_iff)
  obtain e where e: "e \<in> set (emails db)" "em_id e = i" "em_state e = ''pending''" using lease_holder [OF inv l(1)] l(2) by metis
  have one: "count_rows ?P (emails db) = 1" using count_rows_key [OF mail_validD(1) [OF v], of i "\<lambda>e. em_state e = ''pending''"] e by auto
  have "count_rows (\<lambda>q. le_email_id q = i \<and> le_token q = tok) (leases db) = 1"
    using count_rows_key [OF mail_validD(2) [OF v], of i "\<lambda>q. le_token q = tok"] l by auto
  moreover have v1: "mail_valid N (db\<lparr>emails := update_rows ?P ?f (emails db)\<rparr>)"
    using assms(3) by (intro valid_update_emails [OF v]) (auto simp: email_check_def failed_email_def mail_states_def)
  moreover from v1 have "mail_valid N (finish_email ?f i tok db)"
    by (simp add: mail_valid_def finish_email_def list_all_iff distinct_map_filter del: set_map list.set_map)
  ultimately have d: "delete_owned_lease N i tok (db\<lparr>emails := update_rows ?P ?f (emails db)\<rparr>) = (Inr (), finish_email ?f i tok db)"
    by (simp add: delete_owned_Inr finish_email_def)
  have u: "update_emails N ctx (\<lambda>_. ?P) (\<lambda>e. e\<lparr>em_state := ''error'', em_error := Some (public_failure f), em_updated_at := mx_stamp N u\<rparr>) db =
      (Inr 1, db\<lparr>emails := update_rows ?P ?f (emails db)\<rparr>)" for ctx
    using v1 one by (simp add: update_emails_def mail_write_def sql_write_def failed_email_def [abs_def])
  show "mail_fail N u i tok (public_failure f) db = (Inr (), finish_email ?f i tok db)"
    using h assms(2) failure_message [of f]
    by (simp add: mail_fail_def thn_def bnd_def lift_res_def require_def ok_def transaction_def require_owned_lease_def lease_is_owned_def
        gets_def u d)
  show "\<exists>q \<in> set (emails (finish_email ?f i tok db)). em_id q = i \<and> em_state q = ''error'' \<and> em_error q = Some (public_failure f)"
    using e by (intro bexI [of _ "?f e"]) (auto simp: finish_email_def set_update_rows failed_email_def intro!: image_eqI [of _ _ e])
qed

text \<open>C21: One processing attempt ends. Whatever the provider and the object store answer, wherever the 45 second timeout drops the
  work, and whatever other requests do in between, as long as they keep the invariant and do not take this lease away: when the
  attempt is over its lease is free. If it reported success, the email is stored with all its attachments; if it
  reported a failure, the email is in error with that failure's message and can be retried, or it was stored already (the work was
  dropped after its completion had committed).\<close>

theorem attempt_ends:
  assumes "sql_clock N R" "R (mw_clock W (3 + 2 * length (ce_attachments c)))" "considerate N (em_id (ce_email c)) (ce_token c) W"
    and "mail_inv N db" "holds db (em_id (ce_email c)) (ce_token c)" "validate_lease_token (ce_token c) = Inr ()"
    and "run_claim N W c db = (r, db')"
  shows "mail_inv N db' \<and> \<not> holds db' (em_id (ce_email c)) (ce_token c) \<and>
    (case r of Inr _ \<Rightarrow> email_done (em_id (ce_email c)) db'
     | Inl f \<Rightarrow> \<exists>e \<in> set (emails db'). em_id e = em_id (ce_email c) \<and>
         (em_state e = ''error'' \<and> em_error e = Some (public_failure f) \<or> em_state e = ''stored''))"
proof -
  let ?i = "em_id (ce_email c)" and ?tok = "ce_token c" and ?k = "3 + 2 * length (ce_attachments c)"
  have w: "working N ?i ?tok db" using assms(4,5) by (simp add: working_def)
  obtain x db1 where x: "process_claim N W c db = (x, db1)" by (cases "process_claim N W c db")
  note p = process_ends [OF assms(3) w x]
  show ?thesis
  proof (cases x)
    case (Inr u)
    with p x assms(7) show ?thesis by (auto simp: run_claim_def Let_def)
  next
    case (Inl e)
    let ?o = "mw_others W ?k db1" and ?f = "exit_failure e"
    have r: "r = Inl ?f" and db': "db' = snd (mail_fail N (mw_clock W ?k) ?i ?tok (public_failure ?f) ?o)"
      using x Inl assms(7) by (simp_all add: run_claim_def Let_def)
    have o: "mail_inv N ?o" "mail_kept db1 ?o" "holds ?o ?i ?tok = holds db1 ?i ?tok"
      using assms(3) p by (auto simp: considerate_def working_def)
    show ?thesis
    proof (cases "holds db1 ?i ?tok")
      case True
      then have wo: "working N ?i ?tok ?o" using o by (simp add: working_def)
      have stamp: "utc_check (mx_datetime N) (mx_stamp N (mw_clock W ?k))" using assms(1,2) by (simp add: sql_clock_def)
      note f = fail_records [OF wo assms(6) stamp, of ?f]
      have d: "db' = finish_email (failed_email N (mw_clock W ?k) (public_failure ?f)) ?i ?tok ?o" using db' f(1) by simp
      from inv_operations(7) o(1) f(1) have "mail_inv N db'" unfolding d by (rule keepsD)
      with f(2) r finish_not_held show ?thesis unfolding d by auto
    next
      case False
      with p have done_: "email_done ?i db1" by (auto simp: working_def)
      have "db' = ?o" using db' no_lease_no_effect(5) [of N ?o] o False by (simp add: mail_inv_def)
      moreover obtain q where "q \<in> set (emails ?o)" "em_id q = ?i" "em_state q = ''stored''"
        using done_ o(2) by (fastforce simp: email_done_def mail_kept_def rows_related_def email_kept_def)
      ultimately show ?thesis using o False r by auto
    qed
  qed
qed


subsection \<open>A sample inbox\<close>

definition sample_mail :: mail_ext where
  "sample_mail = \<lparr>mx_datetime = (\<lambda>_. True), mx_json_valid = (\<lambda>_. True), mx_json_array = (\<lambda>_. True),
     mx_json = (\<lambda>_. Some (JsonArray [Some ''ann''])), mx_rfc3339 = (\<lambda>_. True), mx_stamp = format_utc_millis gregorian\<rparr>"

definition sample_token :: string where
  "sample_token = replicate 32 (CHR ''a'')"

definition other_token :: string where
  "other_token = replicate 32 (CHR ''b'')"

definition sample_email :: email_row where
  "sample_email = new_email sample_mail one_pm ''re1'' ''ann'' ''[]'' None op_now (Some ''{}'') 1"

definition sample_claim :: claimed_email where
  "sample_claim = \<lparr>ce_email = sample_email, ce_attachments = [], ce_token = sample_token\<rparr>"

definition sample_lease :: lease_row where
  "sample_lease = \<lparr>le_email_id = 1, le_token = sample_token, le_claimed_at = mx_stamp sample_mail one_pm\<rparr>"

definition leased_mail :: mail_db where
  "leased_mail = \<lparr>emails = [sample_email], email_seq = 1, attachments = [], attachment_seq = 0, leases = [sample_lease]\<rparr>"

definition sample_world :: mail_world where
  "sample_world = \<lparr>mw_email = (\<lambda>_. Inl ResendUnavailable), mw_attachments = (\<lambda>_. Inr []), mw_download = (\<lambda>_. Inl ResendUnavailable),
     mw_put = None, mw_clock = (\<lambda>_. one_pm), mw_others = (\<lambda>_ db. db), mw_cut = None\<rparr>"

definition sample_delivery :: email_draft where
  "sample_delivery = \<lparr>ed_resend_id = ''re1'', ed_from = ''ann'', ed_to = ''[]'', ed_subject = None, ed_received_at = op_now, ed_payload = ''{}'',
     ed_attachments = []\<rparr>"

lemma sample_sql_clock: "sql_clock sample_mail (writable gregorian)"
proof -
  have "20 \<le> length (format_utc_millis gregorian a)" if "writable gregorian a" for a
    using greg.format_timestamp [OF that, of "[]"] by (simp add: require_timestamp_def split: if_splits)
  then show ?thesis by (simp add: sql_clock_def sample_mail_def utc_check_def greg.format_le)
qed

lemma sample_tokens: "validate_lease_token sample_token = Inr ()" "validate_lease_token other_token = Inr ()" "sample_token \<noteq> other_token"
  by code_simp+

lemma leased_mail_inv: "mail_inv sample_mail leased_mail"
proof -
  have "utc_check (mx_datetime sample_mail) (mx_stamp sample_mail one_pm)"
    using sample_sql_clock sample_writable(1) by (simp add: sql_clock_def)
  moreover have "utc_check (mx_datetime sample_mail) op_now" by (simp add: sample_mail_def utc_check_def op_now_def)
  moreover have "sql_nonblank ''re1''" "sql_nonblank ''ann''" by code_simp+
  ultimately have "email_check sample_mail sample_email"
    by (simp add: email_check_def sample_email_def new_email_def mail_states_def) (simp add: sample_mail_def)
  moreover have "lease_check sample_mail sample_lease"
    using \<open>utc_check (mx_datetime sample_mail) (mx_stamp sample_mail one_pm)\<close> by (simp add: lease_check_def sample_lease_def sample_token_def)
  moreover have "em_id sample_email = 1" "em_state sample_email = ''pending''" "em_error sample_email = None" "le_email_id sample_lease = 1"
    by (simp_all add: sample_email_def new_email_def sample_lease_def)
  ultimately show ?thesis by (simp add: mail_inv_def mail_valid_def leased_mail_def leases_pending_def email_ok_def)
qed

theorem inbound_mail_safe_witness:
  "leases_pending (snd (mail_complete sample_mail one_pm 1 sample_token
      (snd (claim_webhook sample_mail (\<lambda>_. one_pm) sample_delivery sample_token no_mail))))"
proof -
  have "(mail_step sample_mail)\<^sup>*\<^sup>* no_mail (snd (claim_webhook sample_mail (\<lambda>_. one_pm) sample_delivery sample_token no_mail))"
    by (intro r_into_rtranclp mail_step.deliver)
  moreover have "(mail_step sample_mail)\<^sup>*\<^sup>* (snd (claim_webhook sample_mail (\<lambda>_. one_pm) sample_delivery sample_token no_mail))
      (snd (mail_complete sample_mail one_pm 1 sample_token (snd (claim_webhook sample_mail (\<lambda>_. one_pm) sample_delivery sample_token no_mail))))"
    by (intro r_into_rtranclp mail_step.complete)
  ultimately show ?thesis using inbound_mail_safe by blast
qed

theorem lease_exclusive_witness:
  "\<exists>c db'. claim_retry sample_mail (\<lambda>_. two_pm) 1 other_token leased_mail = (Inr (Acquired c), db') \<and> holds db' 1 other_token \<and>
     \<not> holds db' 1 sample_token"
proof -
  have l: "sample_lease \<in> set (leases leased_mail)" "le_email_id sample_lease = 1" "le_claimed_at sample_lease = mx_stamp sample_mail one_pm"
    "other_token \<notin> le_token ` set (leases leased_mail)" "le_token sample_lease = sample_token"
    using sample_tokens(3) by (simp_all add: leased_mail_def sample_lease_def)
  have "writable gregorian (two_pm - lease_stale)" by code_simp
  moreover have "one_pm div millisecond \<le> (two_pm - lease_stale) div millisecond" by code_simp
  ultimately show ?thesis
    using lease_exclusive [OF sample_sql_clock leased_mail_inv l(1-3) sample_writable(1), where t = "\<lambda>_. two_pm" and tok = other_token and
        u = 0 and k = None and ct = "[]" and j = 0 and key = "[]" and n = 0 and msg = "[]"]
      sample_writable(2) sample_tokens(2) l(4,5) by simp blast
qed

theorem attempt_ends_witness:
  "\<not> holds (snd (run_claim sample_mail sample_world sample_claim leased_mail)) 1 sample_token"
proof -
  have c: "em_id (ce_email sample_claim) = 1" "ce_token sample_claim = sample_token"
    by (simp_all add: sample_claim_def sample_email_def new_email_def)
  have "considerate sample_mail (em_id (ce_email sample_claim)) (ce_token sample_claim) sample_world"
    by (simp add: considerate_def sample_world_def kept_refl)
  moreover have "writable gregorian (mw_clock sample_world (3 + 2 * length (ce_attachments sample_claim)))"
    using sample_writable(1) by (simp add: sample_world_def)
  moreover have "holds leased_mail (em_id (ce_email sample_claim)) (ce_token sample_claim)"
    unfolding c by (simp add: holds_def leased_mail_def sample_lease_def)
  moreover have "validate_lease_token (ce_token sample_claim) = Inr ()" unfolding c by (rule sample_tokens(1))
  ultimately show ?thesis
    using attempt_ends [OF sample_sql_clock _ _ leased_mail_inv _ _ prod.collapse [symmetric], of sample_world sample_claim] c by simp
qed

end
