(* ===== verification/Session_Store.thy ===== *)
theory Session_Store
  imports Utc_Clock
begin

text \<open>
  Sessions and users: \<open>src/session_store.rs\<close>, the user queries of \<open>src/db.rs\<close> and \<open>app/login\<close>, over the tables of
  \<open>migrations/0001_auth.sql\<close>. Both look-ups are cached in the process for thirty seconds, so the state holds the
  tables, which all processes share, and this process's two caches. A reading of the clock has two parts, Rust's
  monotonic \<open>Instant\<close> and the UTC time. The session layer of \<open>tower_sessions\<close>, serde and Argon2 are parameters
  (\<open>session_api\<close>).
\<close>

subsection \<open>State\<close>

text \<open>\<open>Record\<close> of \<open>tower_sessions\<close>; a value of the data is JSON text.\<close>

record session_record =
  sn_id :: string
  sn_data :: "(string \<times> string) list"
  sn_expiry :: instant

record cached_record =
  cr_record :: session_record
  cr_at :: int

record user_row =
  us_id :: int
  us_email :: string
  us_password_hash :: string
  us_display_name :: "string option"
  us_active :: bool

record session_row =
  ss_id :: string
  ss_data :: string
  ss_expires_s :: int

record auth_state =
  au_users :: "user_row list"
  au_rows :: "session_row list"
  au_cache :: "string \<Rightarrow> cached_record option"
  au_active :: "int \<Rightarrow> int option"

record reading =
  tk_mono :: int
  tk_wall :: instant

datatype store_error = StoreBackend string | StoreEncode string | StoreDecode string

record session_api =
  sa_encode :: "session_record \<Rightarrow> string + string"
  sa_decode :: "string \<Rightarrow> string + session_record"
  sa_fresh_id :: "nat \<Rightarrow> string"
  sa_int :: "string \<Rightarrow> int option"
  sa_to_lower :: "string \<Rightarrow> string"
  sa_verify :: "string \<Rightarrow> string \<Rightarrow> string + bool"
  sa_hash_password :: "string \<Rightarrow> string + string"

type_synonym 'a store_op = "(auth_state, store_error, 'a) op"

definition session_cache_ttl :: int where
  "session_cache_ttl = 30 * second"

subsection \<open>The cache\<close>

definition cached :: "reading \<Rightarrow> string \<Rightarrow> auth_state \<Rightarrow> session_record option \<times> auth_state" where
  "cached t sid s = (case au_cache s sid of None \<Rightarrow> (None, s)
     | Some c \<Rightarrow> if tk_mono t - cr_at c \<le> session_cache_ttl \<and> tk_wall t < sn_expiry (cr_record c)
         then (Some (cr_record c), s) else (None, s\<lparr>au_cache := (au_cache s)(sid := None)\<rparr>))"

definition cache_record :: "reading \<Rightarrow> session_record \<Rightarrow> auth_state \<Rightarrow> auth_state" where
  "cache_record t r s = s\<lparr>au_cache := (au_cache s)(sn_id r := Some \<lparr>cr_record = r, cr_at = tk_mono t\<rparr>)\<rparr>"

definition evict :: "string \<Rightarrow> auth_state \<Rightarrow> auth_state" where
  "evict sid s = s\<lparr>au_cache := (au_cache s)(sid := None)\<rparr>"

subsection \<open>Operations in parts\<close>

text \<open>
  An operation runs in parts, and what other requests and other processes do may come between two of them: one
  part ends at each \<open>await\<close> of the database and around each locked access to a cache. \<open>Act holding f\<close> runs \<open>f\<close> next; it
  gets the readings of the clock at the begin and the end of the part. \<open>holding\<close> marks the part that puts the result of a
  finished statement into a cache. \<open>run_prog\<close> is the operation by itself, with nothing in between.
\<close>

datatype 'a prog = Done 'a | Act bool "reading \<Rightarrow> reading \<Rightarrow> auth_state \<Rightarrow> 'a prog \<times> auth_state"

primrec run_prog :: "'a prog \<Rightarrow> (nat \<Rightarrow> reading) \<Rightarrow> nat \<Rightarrow> auth_state \<Rightarrow> 'a \<times> auth_state" where
  "run_prog (Done a) = (\<lambda>t k s. (a, s))"
| "run_prog (Act b f) = (\<lambda>t k s. case map_prod run_prog id (f (t k) (t (Suc k)) s) of (rest, s') \<Rightarrow> rest t (Suc k) s')"

subsection \<open>The store\<close>

definition encode_record :: "session_api \<Rightarrow> session_record \<Rightarrow> store_error + string" where
  "encode_record A r = (case sa_encode A r of Inl m \<Rightarrow> Inl (StoreEncode m) | Inr d \<Rightarrow> Inr d)"

definition session_row_of :: "string \<Rightarrow> session_record \<Rightarrow> session_row" where
  "session_row_of data r = \<lparr>ss_id = sn_id r, ss_data = data, ss_expires_s = unix_timestamp (sn_expiry r)\<rparr>"

definition has_session :: "string \<Rightarrow> auth_state \<Rightarrow> bool" where
  "has_session sid s \<longleftrightarrow> list_ex (\<lambda>w. ss_id w = sid) (au_rows s)"

text \<open>\<open>create\<close> draws a new id when the one it has is taken, at most eight times. The number of ids drawn so far picks the
  next one.\<close>

fun create_prog :: "session_api \<Rightarrow> nat \<Rightarrow> nat \<Rightarrow> session_record \<Rightarrow> (store_error + session_record) prog" where
  "create_prog A drawn 0 r = Done (Inl (StoreBackend ''could not allocate a unique session id after 8 attempts''))"
| "create_prog A drawn (Suc attempts) r = (case encode_record A r of Inl e \<Rightarrow> Done (Inl e)
     | Inr data \<Rightarrow> Act False (\<lambda>_ _ s.
         if has_session (sn_id r) s then (create_prog A (Suc drawn) attempts (r\<lparr>sn_id := sa_fresh_id A drawn\<rparr>), s)
         else (Act True (\<lambda>t _ s. (Done (Inr r), cache_record t r s)),
               s\<lparr>au_rows := au_rows s @ [session_row_of data r]\<rparr>)))"

definition create :: "session_api \<Rightarrow> reading \<Rightarrow> nat \<Rightarrow> session_record \<Rightarrow> session_record store_op" where
  "create A t drawn r = run_prog (create_prog A drawn 8 r) (\<lambda>_. t) 0"

definition save_prog :: "session_api \<Rightarrow> session_record \<Rightarrow> (store_error + unit) prog" where
  "save_prog A r = (case encode_record A r of Inl e \<Rightarrow> Done (Inl e)
     | Inr data \<Rightarrow> Act False (\<lambda>_ _ s.
         if count_rows (\<lambda>w. ss_id w = sn_id r) (au_rows s) \<noteq> 1
         then (Act True (\<lambda>_ _ s.
                 (Done (Inl (StoreBackend ''session disappeared before it could be saved'')), evict (sn_id r) s)), s)
         else (Act True (\<lambda>t _ s. (Done (Inr ()), cache_record t r s)),
               s\<lparr>au_rows := update_rows (\<lambda>w. ss_id w = sn_id r) (\<lambda>_. session_row_of data r) (au_rows s)\<rparr>)))"

definition save :: "session_api \<Rightarrow> reading \<Rightarrow> session_record \<Rightarrow> unit store_op" where
  "save A t r = run_prog (save_prog A r) (\<lambda>_. t) 0"

text \<open>The query of \<open>load\<close>: the row must hold a record of the same id and expiry. \<open>t\<close> is read for the query, \<open>u\<close> after it.\<close>

definition load_query :: "session_api \<Rightarrow> reading \<Rightarrow> reading \<Rightarrow> string \<Rightarrow> auth_state \<Rightarrow> store_error + session_record option" where
  "load_query A t u sid s =
     (case find (\<lambda>w. ss_id w = sid \<and> unix_timestamp (tk_wall t) < ss_expires_s w) (au_rows s) of
        None \<Rightarrow> Inr None
      | Some row \<Rightarrow> (case sa_decode A (ss_data row) of
            Inl m \<Rightarrow> Inl (StoreDecode m)
          | Inr r \<Rightarrow> if sn_id r \<noteq> sid \<or> unix_timestamp (sn_expiry r) \<noteq> ss_expires_s row
              then Inl (StoreDecode ''session record metadata does not match its database row'')
              else if sn_expiry r \<le> tk_wall u then Inr None else Inr (Some r)))"

definition load_prog :: "session_api \<Rightarrow> string \<Rightarrow> (store_error + session_record option) prog" where
  "load_prog A sid = Act False (\<lambda>t _ s. case cached t sid s of
       (Some r, s') \<Rightarrow> (Done (Inr (Some r)), s')
     | (None, s') \<Rightarrow> (Act False (\<lambda>t u s. (case load_query A t u sid s of
           Inl e \<Rightarrow> Done (Inl e)
         | Inr None \<Rightarrow> Done (Inr None)
         | Inr (Some r) \<Rightarrow> Act True (\<lambda>_ u s. (Done (Inr (Some r)), cache_record u r s)), s)), s'))"

definition load :: "session_api \<Rightarrow> (nat \<Rightarrow> reading) \<Rightarrow> string \<Rightarrow> session_record option store_op" where
  "load A t sid = run_prog (load_prog A sid) t 0"

lemma load_eq: "load A t sid s = (case cached (t 0) sid s of
       (Some r, s') \<Rightarrow> (Inr (Some r), s')
     | (None, s') \<Rightarrow> (case load_query A (t 1) (t 2) sid s' of
           Inl e \<Rightarrow> (Inl e, s')
         | Inr None \<Rightarrow> (Inr None, s')
         | Inr (Some r) \<Rightarrow> (Inr (Some r), cache_record (t 3) r s')))"
  by (simp add: load_def load_prog_def numeral_2_eq_2 numeral_3_eq_3 split: prod.splits option.splits sum.splits)

definition delete_rows :: "string \<Rightarrow> auth_state \<Rightarrow> auth_state" where
  "delete_rows sid s = s\<lparr>au_rows := filter (\<lambda>w. ss_id w \<noteq> sid) (au_rows s)\<rparr>"

definition delete_prog :: "string \<Rightarrow> (store_error + unit) prog" where
  "delete_prog sid = Act False (\<lambda>_ _ s. (Act True (\<lambda>_ _ s. (Done (Inr ()), evict sid s)), delete_rows sid s))"

definition delete_session :: "string \<Rightarrow> unit store_op" where
  "delete_session sid = run_prog (delete_prog sid) (\<lambda>_. \<lparr>tk_mono = 0, tk_wall = 0\<rparr>) 0"

lemma delete_eq: "delete_session sid s = (Inr (), evict sid (delete_rows sid s))"
  by (simp add: delete_session_def delete_prog_def)

subsection \<open>Users\<close>

definition active_user_cache_ttl :: int where
  "active_user_cache_ttl = 30 * second"

definition active_in :: "int \<Rightarrow> user_row list \<Rightarrow> bool" where
  "active_in u users \<longleftrightarrow> list_ex (\<lambda>w. us_id w = u \<and> us_active w) users"

definition recently_active :: "reading \<Rightarrow> int \<Rightarrow> auth_state \<Rightarrow> bool" where
  "recently_active t u s \<longleftrightarrow> (case au_active s u of None \<Rightarrow> False | Some seen \<Rightarrow> tk_mono t - seen \<le> active_user_cache_ttl)"

definition note_active :: "reading \<Rightarrow> int \<Rightarrow> auth_state \<Rightarrow> auth_state" where
  "note_active t u s = s\<lparr>au_active := (au_active s)(u := Some (tk_mono t))\<rparr>"

definition note_inactive :: "int \<Rightarrow> auth_state \<Rightarrow> auth_state" where
  "note_inactive u s = s\<lparr>au_active := (au_active s)(u := None)\<rparr>"

definition active_prog :: "int \<Rightarrow> (store_error + bool) prog" where
  "active_prog u = Act False (\<lambda>t _ s.
     if recently_active t u s then (Done (Inr True), s)
     else (Act False (\<lambda>_ _ s. (
       if active_in u (au_users s) then Act True (\<lambda>t _ s. (Done (Inr True), note_active t u s))
       else Act True (\<lambda>_ _ s. (Done (Inr False), note_inactive u s)), s)), s))"

definition user_is_active :: "reading \<Rightarrow> reading \<Rightarrow> int \<Rightarrow> bool store_op" where
  "user_is_active t t' u = run_prog (active_prog u) (\<lambda>k. if k = 0 then t else t') 0"

lemma user_is_active_eq: "user_is_active t t' u s =
     (if recently_active t u s then (Inr True, s)
      else if active_in u (au_users s) then (Inr True, note_active t' u s)
      else (Inr False, note_inactive u s))"
  by (simp add: user_is_active_def active_prog_def)

text \<open>The column \<open>email\<close> has the collation NOCASE.\<close>

definition active_user_for_login :: "string \<Rightarrow> (int \<times> string) option store_op" where
  "active_user_for_login email = gets (\<lambda>s. map_option (\<lambda>w. (us_id w, us_password_hash w))
     (find (\<lambda>w. eq_ignore_case (us_email w) email \<and> us_active w) (au_users s)))"

definition next_user_id :: "auth_state \<Rightarrow> int" where
  "next_user_id s = fold max (map us_id (au_users s)) 0 + 1"

definition bootstrap_admin :: "session_api \<Rightarrow> string option \<Rightarrow> string option \<Rightarrow> unit store_op" where
  "bootstrap_admin A email password = (case (email, password) of
       (Some e, Some p) \<Rightarrow> (let email = sa_to_lower A (trim e) in
         bnd (gets (\<lambda>s. list_ex (\<lambda>w. eq_ignore_case (us_email w) email) (au_users s))) (\<lambda>present.
           if present then ok ()
           else bnd (lift_res (case sa_hash_password A p of Inl m \<Rightarrow> Inl (StoreBackend m) | Inr h \<Rightarrow> Inr h)) (\<lambda>hash s.
             (Inr (), if list_ex (\<lambda>w. eq_ignore_case (us_email w) email) (au_users s) then s
               else s\<lparr>au_users := au_users s @ [\<lparr>us_id = next_user_id s, us_email = email, us_password_hash = hash,
                 us_display_name = Some ''Admin'', us_active = True\<rparr>]\<rparr>))))
     | _ \<Rightarrow> ok ())"

definition ensure_usable_login :: "(string \<Rightarrow> string + unit) \<Rightarrow> unit store_op" where
  "ensure_usable_login valid_hash = bnd (gets (\<lambda>s. filter us_active (au_users s))) (\<lambda>active.
     thn (for_each (\<lambda>w. lift_res (case valid_hash (us_password_hash w) of Inl m \<Rightarrow> Inl (StoreBackend m) | Inr u \<Rightarrow> Inr u)) active)
       (require (active \<noteq> []) (StoreBackend ''no active login user exists'')))"

subsection \<open>The session of a request\<close>

definition session_user_id_key :: string where
  "session_user_id_key = ''user_id''"

text \<open>\<open>session.get::<i64>\<close>: the session layer loads the record of the request's cookie, if it has one.\<close>

definition session_user :: "session_api \<Rightarrow> (nat \<Rightarrow> reading) \<Rightarrow> string option \<Rightarrow> int option store_op" where
  "session_user A t cookie = (case cookie of None \<Rightarrow> ok None
     | Some sid \<Rightarrow> bnd (load A t sid) (\<lambda>found. case found of None \<Rightarrow> ok None
         | Some r \<Rightarrow> (case map_of (sn_data r) session_user_id_key of None \<Rightarrow> ok None
             | Some v \<Rightarrow> (case sa_int A v of None \<Rightarrow> raise (StoreDecode v) | Some u \<Rightarrow> ok (Some u)))))"

subsection \<open>Signing in\<close>

datatype login_outcome = InvalidLogin | LoginUnavailable | SignedIn int

definition dummy_password_hash :: string where
  "dummy_password_hash =
     ''$argon2id$v=19$m=19456,t=2,p=1$Het/Y30nArPvuld+9WgiAw$4iaKMEoLQ0Aq5yU0tvoxZhAQPF/kiyw8W5JCUlq8EG4''"

text \<open>The check of the form; an unknown email costs the same verification, of the dummy hash.\<close>

definition check_login :: "session_api \<Rightarrow> string \<Rightarrow> string \<Rightarrow> auth_state \<Rightarrow> login_outcome" where
  "check_login A form_email password s =
     (let email = sa_to_lower A (trim form_email) in
      if email = [] \<or> 320 < length email \<or> password = [] \<or> 1024 < length password then InvalidLogin
      else (case active_user_for_login email s of
          (Inl _, _) \<Rightarrow> LoginUnavailable
        | (Inr user, _) \<Rightarrow>
            (case sa_verify A password (case user of Some (_, hash) \<Rightarrow> hash | None \<Rightarrow> dummy_password_hash) of
               Inl _ \<Rightarrow> LoginUnavailable
             | Inr verified \<Rightarrow> (case user of None \<Rightarrow> InvalidLogin
                 | Some (u, _) \<Rightarrow> if verified then SignedIn u else InvalidLogin))))"

lemma check_login_sound:
  "check_login A e p s = SignedIn u \<Longrightarrow>
     \<exists>w \<in> set (au_users s). us_id w = u \<and> us_active w \<and> eq_ignore_case (us_email w) (sa_to_lower A (trim e)) \<and>
       sa_verify A p (us_password_hash w) = Inr True"
proof -
  assume c: "check_login A e p s = SignedIn u"
  let ?P = "\<lambda>w. eq_ignore_case (us_email w) (sa_to_lower A (trim e)) \<and> us_active w"
  from c obtain w where w: "find ?P (au_users s) = Some w" "us_id w = u" "sa_verify A p (us_password_hash w) = Inr True"
    unfolding check_login_def Let_def active_user_for_login_def gets_def
    by (cases "find ?P (au_users s)") (simp_all split: if_split_asm sum.split_asm)
  then show ?thesis using find_set [OF w(1)] by blast
qed

end
