(* ===== verification/Http_Types.thy ===== *)
theory Http_Types
  imports Rust_Text
begin

text \<open>
  HTTP messages as the handlers see them (the types of the \<open>http\<close> and \<open>axum\<close> crates): header names are in lower case and
  may repeat, \<open>get\<close> returns the first value, \<open>insert\<close> replaces them all. The content type that axum adds to a
  response follows from the constructor of its body. A request carries the marker that a verified webhook
  leaves, and the body limit that the innermost layer sets for the extractors.
\<close>

datatype response_body = NoBody | PlainBody string | JsonBody "(string \<times> string) list" | PageBody string

record http_request =
  hr_method :: string
  hr_path :: string
  hr_headers :: "(string \<times> string) list"
  hr_body :: string
  hr_verified :: bool
  hr_limit :: "nat option"

record http_response =
  rp_status :: nat
  rp_headers :: "(string \<times> string) list"
  rp_body :: response_body

definition get_header :: "string \<Rightarrow> http_request \<Rightarrow> string option" where
  "get_header name rq = map_of (hr_headers rq) name"

definition put_header :: "string \<Rightarrow> string \<Rightarrow> (string \<times> string) list \<Rightarrow> (string \<times> string) list" where
  "put_header name v hs = filter (\<lambda>(n, _). n \<noteq> name) hs @ [(name, v)]"

definition add_header :: "string \<Rightarrow> string \<Rightarrow> http_response \<Rightarrow> http_response" where
  "add_header name v r = r\<lparr>rp_headers := put_header name v (rp_headers r)\<rparr>"

definition has_header :: "string \<Rightarrow> http_response \<Rightarrow> bool" where
  "has_header name r \<longleftrightarrow> map_of (rp_headers r) name \<noteq> None"

definition reply :: "nat \<Rightarrow> response_body \<Rightarrow> http_response" where
  "reply status body = \<lparr>rp_status = status, rp_headers = [], rp_body = body\<rparr>"

definition redirect_to :: "string \<Rightarrow> http_response" where
  "redirect_to uri = add_header ''location'' uri (reply 303 NoBody)"

definition is_success :: "http_response \<Rightarrow> bool" where
  "is_success r \<longleftrightarrow> 200 \<le> rp_status r \<and> rp_status r < 300"

text \<open>axum's \<open>Bytes\<close> extractor under a body limit.\<close>

definition bytes_extractor :: "http_request \<Rightarrow> http_response + string" where
  "bytes_extractor rq = (case hr_limit rq of
       Some n \<Rightarrow> if n < length (hr_body rq) then Inl (reply 413 (PlainBody ''length limit exceeded'')) else Inr (hr_body rq)
     | None \<Rightarrow> Inr (hr_body rq))"

subsection \<open>Text\<close>

text \<open>\<open>str::parse::<i64>\<close>.\<close>

definition parse_i64 :: "string \<Rightarrow> int option" where
  "parse_i64 s =
     (let (neg, ds) = (case s of [] \<Rightarrow> (False, []) | c # cs \<Rightarrow>
            if c = CHR ''-'' then (True, cs) else if c = CHR ''+'' then (False, cs) else (False, s));
          v = (if neg then - int (digits_val ds) else int (digits_val ds))
      in if ds = [] \<or> \<not> list_all is_digit ds then None
         else if - (2 ^ 63) \<le> v \<and> v < 2 ^ 63 then Some v else None)"

text \<open>\<open>split_ascii_whitespace\<close>.\<close>

definition ascii_blank :: "char \<Rightarrow> bool" where
  "ascii_blank c \<longleftrightarrow> code c \<in> {9, 10, 12, 13, 32}"

definition split_ascii :: "string \<Rightarrow> string list" where
  "split_ascii s = filter (\<lambda>w. w \<noteq> []) (split_on (CHR '' '') (map (\<lambda>c. if ascii_blank c then CHR '' '' else c) s))"

text \<open>A path is \<open>root\<close> itself or lies below it.\<close>

definition under_path :: "string \<Rightarrow> string \<Rightarrow> bool" where
  "under_path root path \<longleftrightarrow> path = root \<or> prefix (root @ ''/'') path"

lemma map_of_put_header: "map_of (put_header n v hs) m = (if m = n then Some v else map_of hs m)"
proof -
  have "map_of (filter (\<lambda>(k, _). k \<noteq> n) hs @ [(n, v)]) m = (if m = n then Some v else map_of hs m)"
    by (induction hs) auto
  then show ?thesis by (simp add: put_header_def)
qed

lemma has_header_add [simp]: "has_header m (add_header n v r) \<longleftrightarrow> m = n \<or> has_header m r"
  by (simp add: has_header_def add_header_def map_of_put_header)

lemma rp_add_header [simp]: "rp_status (add_header n v r) = rp_status r" "rp_body (add_header n v r) = rp_body r"
  "map_of (rp_headers (add_header n v r)) m = (if m = n then Some v else map_of (rp_headers r) m)"
  by (simp_all add: add_header_def map_of_put_header)

end
