(* ===== verification/Perimeter.thy ===== *)
theory Perimeter
  imports Session_Store Http_Types
begin

text \<open>
  What every request passes before a handler runs: \<open>src/write_gate.rs\<close>, \<open>src/middleware.rs\<close>, \<open>src/cron_auth.rs\<close>,
  \<open>src/resend/signature.rs\<close>, \<open>authenticate_webhook\<close> of \<open>src/resend/http.rs\<close>, and the layers of \<open>router_with_store\<close> in
  \<open>src/app.rs\<close>. A handler maps a request and the server's state to a response and the state; a layer maps handlers to
  handlers. \<open>http_env\<close> collects what is not this code: header decoding and URI parsing of the \<open>http\<close> crate, SHA-256,
  HMAC and Base64, the cookie and the final save of the session layer, randomness and the clock. Server timing, a
  header only, is left out.
\<close>

subsection \<open>State and environment\<close>

record 'r server =
  sv_ops :: op_db
  sv_auth :: auth_state
  sv_rest :: 'r

type_synonym 'r handler = "http_request \<Rightarrow> 'r server \<Rightarrow> http_response \<times> 'r server"

record http_env =
  he_text :: "string \<Rightarrow> string option"
  he_authority :: "string \<Rightarrow> string option option"
  he_digest :: "string \<Rightarrow> string"
  he_hmac :: "string \<Rightarrow> string \<Rightarrow> string"
  he_base64 :: "string \<Rightarrow> string option"
  he_sessions :: session_api
  he_cookie :: "string list \<Rightarrow> string option"
  he_after_session :: "http_request \<Rightarrow> http_response \<Rightarrow> auth_state \<Rightarrow> http_response \<times> auth_state"
  he_clock :: "nat \<Rightarrow> reading"
  he_random :: string
  he_connects :: bool
  he_not_found_page :: "string option"

record http_config =
  hc_cookie_secure :: bool
  hc_media_origin :: "string option"
  hc_cron_digest :: "string option"
  hc_webhook_key :: "string option"

definition header_text :: "http_env \<Rightarrow> string \<Rightarrow> http_request \<Rightarrow> string option" where
  "header_text E name rq = Option.bind (get_header name rq) (he_text E)"

text \<open>The session id in the request's cookies.\<close>

definition session_cookie :: "http_env \<Rightarrow> http_request \<Rightarrow> string option" where
  "session_cookie E rq = he_cookie E (map snd (filter (\<lambda>(n, _). n = ''cookie'') (hr_headers rq)))"

subsection \<open>Paths and methods\<close>

definition webhook_path :: string where
  "webhook_path = ''/webhooks/resend''"

definition is_webhook_path :: "string \<Rightarrow> bool" where
  "is_webhook_path path \<longleftrightarrow> path = webhook_path"

definition is_cron :: "string \<Rightarrow> bool" where
  "is_cron path \<longleftrightarrow> under_path ''/internal/cron'' path"

definition is_static :: "string \<Rightarrow> bool" where
  "is_static path \<longleftrightarrow> under_path ''/static'' path \<or> under_path ''/dist'' path \<or> path = ''/style.css''"

definition is_public :: "string \<Rightarrow> bool" where
  "is_public path \<longleftrightarrow> path = ''/login'' \<or> path = ''/health'' \<or> path = ''/healthz'' \<or> path = ''/ready'' \<or> is_static path"

definition is_mutation :: "string \<Rightarrow> bool" where
  "is_mutation m \<longleftrightarrow> m = ''POST'' \<or> m = ''PUT'' \<or> m = ''PATCH'' \<or> m = ''DELETE''"

definition wants_json :: "http_env \<Rightarrow> http_request \<Rightarrow> bool" where
  "wants_json E rq \<longleftrightarrow> under_path ''/api'' (hr_path rq) \<or> is_webhook_path (hr_path rq) \<or>
     (case header_text E ''accept'' rq of None \<Rightarrow> False | Some v \<Rightarrow> contains_text v ''application/json'')"

subsection \<open>The durable write gate\<close>

datatype gate_requirement = Exempt | Writes | SchedulerGate

datatype gate_failure = GateReadOnly | GateSchedulerDisabled | GateUnavailable

definition requirement :: "string \<Rightarrow> string \<Rightarrow> gate_requirement" where
  "requirement method path =
     (if path = ''/login'' \<or> path = ''/logout'' then Exempt
      else if under_path ''/internal/cron'' path then SchedulerGate
      else if method = ''POST'' \<or> method = ''PUT'' \<or> method = ''PATCH'' \<or> method = ''DELETE'' then Writes
      else Exempt)"

definition gate_code :: "gate_failure \<Rightarrow> string" where
  "gate_code f = (case f of GateReadOnly \<Rightarrow> ''read_only'' | GateSchedulerDisabled \<Rightarrow> ''scheduler_disabled''
     | GateUnavailable \<Rightarrow> ''service_unavailable'')"

definition gate_message :: "gate_failure \<Rightarrow> string" where
  "gate_message f = (case f of GateReadOnly \<Rightarrow> ''Writes are temporarily disabled.''
     | GateSchedulerDisabled \<Rightarrow> ''Scheduled work is temporarily disabled.''
     | GateUnavailable \<Rightarrow> ''Operation control is temporarily unavailable.'')"

definition blocked_response :: "string \<Rightarrow> gate_failure \<Rightarrow> http_response" where
  "blocked_response path f = add_header ''retry-after'' ''60''
     (reply 503 (if under_path ''/api'' path \<or> under_path ''/internal/cron'' path \<or> is_webhook_path path
        then JsonBody [(''error'', gate_code f), (''message'', gate_message f)] else PlainBody (gate_message f)))"

definition gate_check :: "gate_requirement \<Rightarrow> op_db \<Rightarrow> op_error + unit" where
  "gate_check q db = (case q of Exempt \<Rightarrow> Inr ()
     | Writes \<Rightarrow> (case fst (require_writes_enabled db) of Inl e \<Rightarrow> Inl e | Inr _ \<Rightarrow> Inr ())
     | SchedulerGate \<Rightarrow> (case fst (require_scheduler_enabled db) of Inl e \<Rightarrow> Inl e | Inr _ \<Rightarrow> Inr ()))"

definition enforce :: "http_env \<Rightarrow> 'r handler \<Rightarrow> 'r handler" where
  "enforce E next_handler rq s = (let q = requirement (hr_method rq) (hr_path rq) in
     if q = Exempt then next_handler rq s
     else if \<not> he_connects E then (blocked_response (hr_path rq) GateUnavailable, s)
     else (case gate_check q (sv_ops s) of
         Inr _ \<Rightarrow> next_handler rq s
       | Inl OpReadOnly \<Rightarrow> (blocked_response (hr_path rq) GateReadOnly, s)
       | Inl OpSchedulerDisabled \<Rightarrow> (blocked_response (hr_path rq) GateSchedulerDisabled, s)
       | Inl _ \<Rightarrow> (blocked_response (hr_path rq) GateUnavailable, s)))"

subsection \<open>Cron authorisation\<close>

definition cron_authenticator :: "http_env \<Rightarrow> string option \<Rightarrow> string option" where
  "cron_authenticator E secret = map_option (he_digest E) secret"

definition cron_authorizes :: "http_env \<Rightarrow> string option \<Rightarrow> http_request \<Rightarrow> bool" where
  "cron_authorizes E expected rq = (case expected of None \<Rightarrow> False
     | Some d \<Rightarrow> (case get_header ''authorization'' rq of None \<Rightarrow> False
         | Some v \<Rightarrow> if length v \<le> 7 \<or> \<not> eq_ignore_case (take 6 v) ''bearer'' \<or> v ! 6 \<noteq> CHR '' '' then False
             else d = he_digest E (drop 7 v)))"

definition cron_unauthenticated_response :: http_response where
  "cron_unauthenticated_response = add_header ''www-authenticate'' (''Bearer realm='' @ [CHR 0x22] @ ''cron'' @ [CHR 0x22])
     (reply 401 (JsonBody [(''error'', ''unauthorized'')]))"

definition cron_method_not_allowed_response :: http_response where
  "cron_method_not_allowed_response = add_header ''allow'' ''GET'' (reply 405 (JsonBody [(''error'', ''method_not_allowed'')]))"

subsection \<open>Webhook signatures\<close>

datatype signature_error = SigMissing | SigInvalid | SigStale

definition max_clock_skew_s :: int where "max_clock_skew_s = 5 * 60"

definition max_message_id_bytes :: nat where "max_message_id_bytes = 256"

definition max_signature_header_bytes :: nat where "max_signature_header_bytes = 4 * 1024"

definition webhook_verifier :: "http_env \<Rightarrow> string \<Rightarrow> signature_error + string" where
  "webhook_verifier E secret =
     (case he_base64 E (case strip_prefix ''whsec_'' (trim secret) of Some e \<Rightarrow> e | None \<Rightarrow> trim secret) of
        None \<Rightarrow> Inl SigInvalid
      | Some key \<Rightarrow> if length key < 16 \<or> 256 < length key then Inl SigInvalid else Inr key)"

definition signature_header :: "http_env \<Rightarrow> string \<Rightarrow> nat \<Rightarrow> http_request \<Rightarrow> signature_error + string" where
  "signature_header E name max_bytes rq = (case get_header name rq of None \<Rightarrow> Inl SigMissing
     | Some raw \<Rightarrow> (case he_text E raw of None \<Rightarrow> Inl SigInvalid
         | Some v \<Rightarrow> if v = [] \<or> max_bytes < length v \<or> has_control v then Inl SigInvalid else Inr v))"

text \<open>One of the space-separated \<open>v1\<close> signatures must be the expected one.\<close>

definition signature_matches :: "http_env \<Rightarrow> string \<Rightarrow> string \<Rightarrow> bool" where
  "signature_matches E expected signatures \<longleftrightarrow> list_ex (\<lambda>candidate. case strip_prefix ''v1,'' candidate of None \<Rightarrow> False
     | Some encoded \<Rightarrow> he_base64 E encoded = Some expected) (split_ascii signatures)"

definition verify :: "http_env \<Rightarrow> string \<Rightarrow> http_request \<Rightarrow> string \<Rightarrow> instant \<Rightarrow> signature_error + unit" where
  "verify E key rq body now =
     rbnd (signature_header E ''svix-id'' max_message_id_bytes rq) (\<lambda>message_id.
     rbnd (signature_header E ''svix-timestamp'' 32 rq) (\<lambda>timestamp.
     rbnd (signature_header E ''svix-signature'' max_signature_header_bytes rq) (\<lambda>signatures.
       case parse_i64 timestamp of None \<Rightarrow> Inl SigInvalid
       | Some signed_at \<Rightarrow>
           if max_clock_skew_s < \<bar>unix_timestamp now - signed_at\<bar> then Inl SigStale
           else if signature_matches E (he_hmac E key (message_id @ ''.'' @ timestamp @ ''.'' @ body)) signatures then Inr ()
           else Inl SigInvalid)))"

definition max_webhook_bytes :: nat where "max_webhook_bytes = 256 * 1024"

definition webhook_refused :: "nat \<Rightarrow> string \<Rightarrow> bool \<Rightarrow> http_response" where
  "webhook_refused status error_code retryable = (let r = reply status (JsonBody [(''error'', error_code)])
     in if retryable then add_header ''retry-after'' ''60'' r else r)"

definition authenticate_webhook :: "http_env \<Rightarrow> string option \<Rightarrow> 'r handler \<Rightarrow> 'r handler" where
  "authenticate_webhook E verifier next_handler rq s =
     (if \<not> is_webhook_path (hr_path rq) then next_handler rq s
      else (case verifier of None \<Rightarrow> (webhook_refused 503 ''webhook_unavailable'' True, s)
        | Some key \<Rightarrow>
            if max_webhook_bytes < length (hr_body rq) then (webhook_refused 413 ''payload_too_large'' False, s)
            else (case verify E key rq (hr_body rq) (tk_wall (he_clock E 0)) of
                Inl _ \<Rightarrow> (webhook_refused 401 ''invalid_signature'' False, s)
              | Inr _ \<Rightarrow> next_handler (rq\<lparr>hr_verified := True\<rparr>) s)))"

subsection \<open>Browser authentication\<close>

definition has_same_origin :: "http_env \<Rightarrow> http_request \<Rightarrow> bool" where
  "has_same_origin E rq = (case get_header ''origin'' rq of None \<Rightarrow> True
     | Some raw \<Rightarrow> (case (he_text E raw, get_header ''host'' rq) of
           (Some origin, Some host_raw) \<Rightarrow> (case (he_authority E origin, he_text E host_raw) of
               (Some authority, Some host) \<Rightarrow>
                 (case authority of Some a \<Rightarrow> eq_ignore_case a host | None \<Rightarrow> False) \<or>
                 (case header_text E ''sec-fetch-site'' rq of Some v \<Rightarrow> eq_ignore_case v ''same-origin'' | None \<Rightarrow> False)
             | _ \<Rightarrow> False)
         | _ \<Rightarrow> False))"

definition service_unavailable_response :: http_response where
  "service_unavailable_response = reply 503 (PlainBody ''Authentication service temporarily unavailable.'')"

definition unauthenticated_response :: "http_env \<Rightarrow> http_request \<Rightarrow> http_response" where
  "unauthenticated_response E rq =
     (if (case header_text E ''hx-request'' rq of Some v \<Rightarrow> eq_ignore_case v ''true'' | None \<Rightarrow> False)
      then add_header ''hx-redirect'' ''/login'' (reply 200 NoBody)
      else if wants_json E rq then reply 401 (JsonBody [(''error'', ''unauthorized'')])
      else redirect_to ''/login'')"

text \<open>\<open>session.flush\<close> deletes the session from the store.\<close>

definition flush_session :: "http_env \<Rightarrow> http_request \<Rightarrow> unit store_op" where
  "flush_session E rq = (case session_cookie E rq of None \<Rightarrow> ok () | Some sid \<Rightarrow> delete_session sid)"

definition current_user :: "http_env \<Rightarrow> http_request \<Rightarrow> int option store_op" where
  "current_user E rq = session_user (he_sessions E) (he_clock E) (session_cookie E rq)"

definition check_active :: "http_env \<Rightarrow> int \<Rightarrow> bool store_op" where
  "check_active E u = user_is_active (he_clock E 4) (he_clock E 5) u"

definition require_session :: "http_env \<Rightarrow> 'r handler \<Rightarrow> 'r handler" where
  "require_session E next_handler rq s = (case current_user E rq (sv_auth s) of
       (Inl _, a) \<Rightarrow> (service_unavailable_response, s\<lparr>sv_auth := a\<rparr>)
     | (Inr None, a) \<Rightarrow> (unauthenticated_response E rq, s\<lparr>sv_auth := a\<rparr>)
     | (Inr (Some u), a) \<Rightarrow> (case check_active E u a of
           (Inl _, b) \<Rightarrow> (service_unavailable_response, s\<lparr>sv_auth := b\<rparr>)
         | (Inr True, b) \<Rightarrow> next_handler rq (s\<lparr>sv_auth := b\<rparr>)
         | (Inr False, b) \<Rightarrow> (case flush_session E rq b of
               (Inl _, c) \<Rightarrow> (service_unavailable_response, s\<lparr>sv_auth := c\<rparr>)
             | (Inr _, c) \<Rightarrow> (unauthenticated_response E rq, s\<lparr>sv_auth := c\<rparr>))))"

definition require_auth :: "http_env \<Rightarrow> string option \<Rightarrow> 'r handler \<Rightarrow> 'r handler" where
  "require_auth E cron_digest next_handler rq s =
     (if is_webhook_path (hr_path rq) then
        (if hr_verified rq then next_handler rq s else (reply 401 (JsonBody [(''error'', ''invalid_signature'')]), s))
      else if is_cron (hr_path rq) then
        (if \<not> cron_authorizes E cron_digest rq then (cron_unauthenticated_response, s)
         else if hr_method rq \<noteq> ''GET'' then (cron_method_not_allowed_response, s)
         else next_handler rq s)
      else if is_mutation (hr_method rq) \<and> \<not> has_same_origin E rq then
        (reply 403 (PlainBody ''Cross-origin mutation rejected.''), s)
      else if is_public (hr_path rq) then next_handler rq s
      else require_session E next_handler rq s)"

subsection \<open>Response headers\<close>

definition valid_request_id :: "string \<Rightarrow> bool" where
  "valid_request_id v \<longleftrightarrow> v \<noteq> [] \<and> length v \<le> 64 \<and> list_all (\<lambda>c. id_char c \<or> c = CHR ''.'') v"

definition generated_request_id :: "string \<Rightarrow> string" where
  "generated_request_id random = ''td_'' @ concat (map (\<lambda>c. [hex_digit (code c div 16), hex_digit (code c mod 16)]) random)"

definition quoted :: "string \<Rightarrow> string" where
  "quoted w = [CHR 0x27] @ w @ [CHR 0x27]"

definition content_security_policy :: "string option \<Rightarrow> string" where
  "content_security_policy media_origin = (let media_source = (case media_origin of None \<Rightarrow> [] | Some m \<Rightarrow> '' '' @ m) in
     ''default-src 'self'; base-uri 'self'; connect-src '' @ quoted ''self'' @ media_source @
     ''; font-src 'self'; frame-ancestors 'none'; img-src 'self' data:'' @ media_source @
     ''; object-src 'none'; form-action 'self'; script-src 'self' 'unsafe-inline' 'unsafe-eval'; style-src 'self' '' @
     quoted ''unsafe-inline'')"

definition cache_control :: "bool \<Rightarrow> http_response \<Rightarrow> http_response" where
  "cache_control static_path r =
     (if static_path \<and> is_success r \<and> \<not> has_header ''cache-control'' r
      then add_header ''cache-control'' ''public, max-age=3600, must-revalidate'' r
      else if \<not> has_header ''cache-control'' r then add_header ''cache-control'' ''private, no-store'' r
      else r)"

definition perimeter_headers :: "http_config \<Rightarrow> string \<Rightarrow> bool \<Rightarrow> http_response \<Rightarrow> http_response" where
  "perimeter_headers C request_id static_path r = cache_control static_path
     ((if hc_cookie_secure C then add_header ''strict-transport-security'' ''max-age=31536000; includeSubDomains'' else id)
     (add_header ''cross-origin-resource-policy'' ''same-origin''
     (add_header ''cross-origin-opener-policy'' ''same-origin''
     (add_header ''permissions-policy'' ''camera=(), geolocation=(), microphone=(), payment=()''
     (add_header ''referrer-policy'' ''no-referrer''
     (add_header ''x-frame-options'' ''DENY''
     (add_header ''x-content-type-options'' ''nosniff''
     (add_header ''content-security-policy'' (content_security_policy (hc_media_origin C))
     (add_header ''x-request-id'' request_id r)))))))))"

definition request_id :: "http_env \<Rightarrow> http_request \<Rightarrow> string" where
  "request_id E rq = (case get_header ''x-request-id'' rq of
       Some v \<Rightarrow> if valid_request_id v then v else generated_request_id (he_random E)
     | None \<Rightarrow> generated_request_id (he_random E))"

definition tag_request :: "http_env \<Rightarrow> http_request \<Rightarrow> http_request" where
  "tag_request E rq = rq\<lparr>hr_headers := put_header ''x-request-id'' (request_id E rq) (hr_headers rq)\<rparr>"

definition response_perimeter :: "http_env \<Rightarrow> http_config \<Rightarrow> 'r handler \<Rightarrow> 'r handler" where
  "response_perimeter E C next_handler rq s =
     (case next_handler (tag_request E rq) s of
        (r, s') \<Rightarrow> (perimeter_headers C (request_id E rq) (is_static (hr_path rq)) r, s'))"

definition not_found :: "http_env \<Rightarrow> 'r handler" where
  "not_found E rq s =
     (if is_static (hr_path rq) then reply 404 (PlainBody ''Not found.'')
      else if wants_json E rq then reply 404 (JsonBody [(''error'', ''not_found'')])
      else (case he_not_found_page E of Some html \<Rightarrow> reply 404 (PageBody html) | None \<Rightarrow> reply 404 (PlainBody ''Page not found.'')), s)"

subsection \<open>The layers\<close>

text \<open>The session layer runs the inner layers and then saves the session and sets its cookie.\<close>

definition session_layer :: "http_env \<Rightarrow> 'r handler \<Rightarrow> 'r handler" where
  "session_layer E next_handler rq s = (case next_handler rq s of
     (r, s') \<Rightarrow> (case he_after_session E rq r (sv_auth s') of (r', a) \<Rightarrow> (r', s'\<lparr>sv_auth := a\<rparr>)))"

definition body_limit :: "nat \<Rightarrow> 'r handler \<Rightarrow> 'r handler" where
  "body_limit n next_handler rq = next_handler (rq\<lparr>hr_limit := Some n\<rparr>)"

definition max_body_bytes :: nat where "max_body_bytes = 64 * 1024"

definition router :: "http_env \<Rightarrow> http_config \<Rightarrow> 'r handler \<Rightarrow> 'r handler" where
  "router E C routes =
     response_perimeter E C
    (authenticate_webhook E (hc_webhook_key C)
    (session_layer E
    (require_auth E (hc_cron_digest C)
    (enforce E
    (body_limit max_body_bytes routes)))))"

end
