(* ===== verification/Perimeter_Guard.thy ===== *)
theory Perimeter_Guard
  imports Perimeter
begin

text \<open>
  The perimeter against its policy: \<open>admitted\<close> says who may reach a handler, without the order of the layers, and
  \<open>perimeter_guard\<close> shows that the composed layers call the handler in exactly these cases.
\<close>

subsection \<open>The policy\<close>

definition writes_open :: "op_db \<Rightarrow> bool" where
  "writes_open db \<longleftrightarrow> (case fst (control_on db) of Inr c \<Rightarrow> oc_mode c = Enabled | Inl _ \<Rightarrow> False)"

definition scheduler_open :: "op_db \<Rightarrow> bool" where
  "scheduler_open db \<longleftrightarrow> (case fst (control_on db) of Inr c \<Rightarrow> oc_mode c = Enabled \<and> oc_scheduler_enabled c | Inl _ \<Rightarrow> False)"

definition signed_in :: "http_env \<Rightarrow> http_request \<Rightarrow> auth_state \<Rightarrow> bool" where
  "signed_in E rq a \<longleftrightarrow> (case current_user E rq a of
     (Inr (Some u), b) \<Rightarrow> fst (check_active E u b) = Inr True | _ \<Rightarrow> False)"

text \<open>A webhook is authentic when its body, of bounded size, is signed with the configured key.\<close>

definition authentic_webhook :: "http_env \<Rightarrow> string option \<Rightarrow> http_request \<Rightarrow> bool" where
  "authentic_webhook E key rq \<longleftrightarrow> (case key of None \<Rightarrow> False
     | Some k \<Rightarrow> length (hr_body rq) \<le> max_webhook_bytes \<and> verify E k rq (hr_body rq) (tk_wall (he_clock E 0)) = Inr ())"

definition authorised :: "http_env \<Rightarrow> http_config \<Rightarrow> http_request \<Rightarrow> auth_state \<Rightarrow> bool" where
  "authorised E C rq a \<longleftrightarrow>
     (if hr_path rq = ''/webhooks/resend'' then authentic_webhook E (hc_webhook_key C) rq
      else if is_cron (hr_path rq) then cron_authorizes E (hc_cron_digest C) rq \<and> hr_method rq = ''GET''
      else (is_mutation (hr_method rq) \<longrightarrow> has_same_origin E rq) \<and> (is_public (hr_path rq) \<or> signed_in E rq a))"

definition gate_allows :: "http_env \<Rightarrow> http_request \<Rightarrow> op_db \<Rightarrow> bool" where
  "gate_allows E rq db \<longleftrightarrow>
     (if hr_path rq \<in> {''/login'', ''/logout''} then True
      else if is_cron (hr_path rq) then he_connects E \<and> scheduler_open db
      else is_mutation (hr_method rq) \<longrightarrow> he_connects E \<and> writes_open db)"

definition admitted :: "http_env \<Rightarrow> http_config \<Rightarrow> http_request \<Rightarrow> 'r server \<Rightarrow> bool" where
  "admitted E C rq s \<longleftrightarrow> authorised E C rq (sv_auth s) \<and> gate_allows E rq (sv_ops s)"

text \<open>The state that handlers work on, without sessions.\<close>

definition business :: "'r server \<Rightarrow> op_db \<times> 'r" where
  "business s = (sv_ops s, sv_rest s)"

definition same_request :: "http_request \<Rightarrow> http_request \<Rightarrow> bool" where
  "same_request rq rq' \<longleftrightarrow> hr_method rq' = hr_method rq \<and> hr_path rq' = hr_path rq \<and> hr_body rq' = hr_body rq \<and>
     (\<forall>n. n \<noteq> ''x-request-id'' \<longrightarrow> get_header n rq' = get_header n rq)"

subsection \<open>The request id changes nothing else\<close>

lemma tag_simps [simp]:
  "hr_method (tag_request E rq) = hr_method rq" "hr_path (tag_request E rq) = hr_path rq"
  "hr_body (tag_request E rq) = hr_body rq" "hr_verified (tag_request E rq) = hr_verified rq"
  "n \<noteq> ''x-request-id'' \<Longrightarrow> get_header n (tag_request E rq) = get_header n rq"
  "n \<noteq> ''x-request-id'' \<Longrightarrow> header_text E n (tag_request E rq) = header_text E n rq"
  by (simp_all add: tag_request_def get_header_def header_text_def map_of_put_header)

lemma filter_put_header: "m \<noteq> n \<Longrightarrow> filter (\<lambda>(k, _). k = m) (put_header n v hs) = filter (\<lambda>(k, _). k = m) hs"
  by (induction hs) (auto simp: put_header_def)

lemma tag_cookie [simp]: "session_cookie E (tag_request E rq) = session_cookie E rq"
  by (simp add: session_cookie_def tag_request_def filter_put_header)

lemma tag_checks [simp]:
  "has_same_origin E (tag_request E rq) = has_same_origin E rq"
  "cron_authorizes E d (tag_request E rq) = cron_authorizes E d rq"
  "verify E k (tag_request E rq) b t = verify E k rq b t"
  "current_user E (tag_request E rq) = current_user E rq"
  by (simp_all add: has_same_origin_def cron_authorizes_def verify_def signature_header_def current_user_def cong: option.case_cong)

lemma flag_simps [simp]:
  "session_cookie E (rq\<lparr>hr_verified := b\<rparr>) = session_cookie E rq"
  "get_header n (rq\<lparr>hr_verified := b\<rparr>) = get_header n rq"
  "get_header n (rq\<lparr>hr_limit := l\<rparr>) = get_header n rq"
  by (simp_all add: session_cookie_def get_header_def)

lemma same_request_intros:
  "same_request rq ((tag_request E rq)\<lparr>hr_limit := l\<rparr>)"
  "same_request rq ((tag_request E rq)\<lparr>hr_verified := b, hr_limit := l\<rparr>)"
  by (simp_all add: same_request_def)

subsection \<open>The gate\<close>

lemma requires_open:
  "(\<exists>u. gate_check Writes db = Inr u) \<longleftrightarrow> writes_open db" "(\<exists>u. gate_check SchedulerGate db = Inr u) \<longleftrightarrow> scheduler_open db"
  by (auto simp: gate_check_def writes_open_def scheduler_open_def require_writes_enabled_def require_scheduler_enabled_def
      bnd_def ok_def raise_def require_def thn_def split: prod.splits sum.splits if_splits option.splits)

text \<open>A layer passes a request on, or it answers itself, whatever lies below it.\<close>

definition passes :: "('r handler \<Rightarrow> 'r handler) \<Rightarrow> http_request \<Rightarrow> 'r server \<Rightarrow> bool" where
  "passes layer rq s \<longleftrightarrow> (\<exists>a. \<forall>h. layer h rq s = h rq (s\<lparr>sv_auth := a\<rparr>))"

definition refuses :: "('r handler \<Rightarrow> 'r handler) \<Rightarrow> http_request \<Rightarrow> 'r server \<Rightarrow> bool" where
  "refuses layer rq s \<longleftrightarrow> (\<exists>r a. \<forall>h. layer h rq s = (r, s\<lparr>sv_auth := a\<rparr>))"

lemma same_auth [simp]: "s\<lparr>sv_auth := sv_auth s\<rparr> = s"
  by simp

lemma passesI: "(\<And>h. layer h rq s = h rq s) \<Longrightarrow> passes layer rq s"
  unfolding passes_def by (rule exI [of _ "sv_auth s"]) simp

lemma refusesI: "(\<And>h. layer h rq s = (r, s)) \<Longrightarrow> refuses layer rq s"
  unfolding refuses_def by (rule exI [of _ r], rule exI [of _ "sv_auth s"]) simp

lemma refuses_later: "(\<And>h. layer h rq s = (r, s\<lparr>sv_auth := a\<rparr>)) \<Longrightarrow> refuses layer rq s"
  unfolding refuses_def by blast

lemma gate_requirement:
  "gate_allows E rq db \<longleftrightarrow> requirement (hr_method rq) (hr_path rq) = Exempt \<or>
     he_connects E \<and> (\<exists>u. gate_check (requirement (hr_method rq) (hr_path rq)) db = Inr u)"
  unfolding gate_allows_def requirement_def is_cron_def is_mutation_def using requires_open [of db] by auto

lemma enforce_layer:
  "gate_allows E rq (sv_ops s) \<Longrightarrow> passes (enforce E) rq s" "\<not> gate_allows E rq (sv_ops s) \<Longrightarrow> refuses (enforce E) rq s"
proof -
  let ?q = "requirement (hr_method rq) (hr_path rq)"
  assume g: "gate_allows E rq (sv_ops s)"
  have "enforce E h rq s = h rq s" for h :: "'a handler"
    using g [unfolded gate_requirement] by (auto simp: enforce_def Let_def)
  then show "passes (enforce E) rq s" by (rule passesI)
next
  let ?q = "requirement (hr_method rq) (hr_path rq)"
  assume g: "\<not> gate_allows E rq (sv_ops s)"
  have n: "?q \<noteq> Exempt" using g by (simp add: gate_requirement)
  show "refuses (enforce E) rq s"
  proof (cases "he_connects E")
    case False
    then show ?thesis by (intro refusesI) (simp add: enforce_def Let_def n)
  next
    case True
    then obtain e where e: "gate_check ?q (sv_ops s) = Inl e" using g [unfolded gate_requirement] by (cases "gate_check ?q (sv_ops s)") auto
    then show ?thesis using True n by (cases e) (auto intro!: refusesI simp: enforce_def Let_def)
  qed
qed

lemma session_passes: "signed_in E rq (sv_auth s) \<Longrightarrow> passes (require_session E) rq s"
proof -
  assume "signed_in E rq (sv_auth s)"
  then obtain u a b where "current_user E rq (sv_auth s) = (Inr (Some u), a)" "check_active E u a = (Inr True, b)"
    by (auto simp: signed_in_def split: prod.splits sum.splits option.splits) (metis prod.collapse)
  then have "require_session E h rq s = h rq (s\<lparr>sv_auth := b\<rparr>)" for h :: "'a handler" by (simp add: require_session_def)
  then show ?thesis unfolding passes_def by blast
qed

lemma session_refuses: "\<not> signed_in E rq (sv_auth s) \<Longrightarrow> refuses (require_session E) rq s"
proof -
  assume n: "\<not> signed_in E rq (sv_auth s)"
  obtain r a where c: "current_user E rq (sv_auth s) = (r, a)" by fastforce
  show ?thesis
  proof (cases "\<exists>u. r = Inr (Some u)")
    case False
    then show ?thesis using c by (cases r; cases "projr r") (auto intro!: refuses_later simp: require_session_def)
  next
    case True
    then obtain u where u: "r = Inr (Some u)" ..
    obtain v b where v: "check_active E u a = (v, b)" by fastforce
    have "v \<noteq> Inr True" using n c u v by (simp add: signed_in_def)
    then show ?thesis using c u v
      by (cases v; cases "flush_session E rq b"; cases "fst (flush_session E rq b)")
        (auto intro!: refuses_later simp: require_session_def split: bool.splits)
  qed
qed

text \<open>What the browser layer asks for, given the marker of a verified webhook.\<close>

definition allowed_in :: "http_env \<Rightarrow> http_config \<Rightarrow> http_request \<Rightarrow> auth_state \<Rightarrow> bool" where
  "allowed_in E C rq a \<longleftrightarrow>
     (if is_webhook_path (hr_path rq) then hr_verified rq
      else if is_cron (hr_path rq) then cron_authorizes E (hc_cron_digest C) rq \<and> hr_method rq = ''GET''
      else (is_mutation (hr_method rq) \<longrightarrow> has_same_origin E rq) \<and> (is_public (hr_path rq) \<or> signed_in E rq a))"

lemma auth_layer:
  "allowed_in E C rq (sv_auth s) \<Longrightarrow> passes (require_auth E (hc_cron_digest C)) rq s"
  "\<not> allowed_in E C rq (sv_auth s) \<Longrightarrow> refuses (require_auth E (hc_cron_digest C)) rq s"
proof -
  let ?L = "require_auth E (hc_cron_digest C)"
  let ?browser = "\<not> is_webhook_path (hr_path rq) \<and> \<not> is_cron (hr_path rq) \<and>
    (is_mutation (hr_method rq) \<longrightarrow> has_same_origin E rq) \<and> \<not> is_public (hr_path rq)"
  have b: "?browser \<Longrightarrow> ?L h rq s = require_session E h rq s" for h :: "'a handler" by (auto simp: require_auth_def)
  show "passes ?L rq s" if "allowed_in E C rq (sv_auth s)"
  proof (cases ?browser)
    case True
    then have "signed_in E rq (sv_auth s)" using that by (simp add: allowed_in_def)
    then show ?thesis using session_passes b [OF True] by (simp add: passes_def)
  next
    case False
    then show ?thesis using that by (intro passesI) (auto simp: require_auth_def allowed_in_def)
  qed
  show "refuses ?L rq s" if "\<not> allowed_in E C rq (sv_auth s)"
  proof (cases ?browser)
    case True
    then have "\<not> signed_in E rq (sv_auth s)" using that by (simp add: allowed_in_def)
    then show ?thesis using session_refuses b [OF True] by (simp add: refuses_def)
  next
    case False
    then show ?thesis using that
      by (cases "is_webhook_path (hr_path rq)"; cases "is_cron (hr_path rq)"; cases "cron_authorizes E (hc_cron_digest C) rq")
        (auto intro!: refusesI simp: require_auth_def allowed_in_def)
  qed
qed

lemma inner_layers:
  assumes "allowed_in E C rq (sv_auth s)" "gate_allows E rq (sv_ops s)"
  shows "passes (\<lambda>h. require_auth E (hc_cron_digest C) (enforce E h)) rq s"
proof -
  obtain a where a: "\<And>h. require_auth E (hc_cron_digest C) h rq s = h rq (s\<lparr>sv_auth := a\<rparr>)"
    using auth_layer(1) [OF assms(1)] by (auto simp: passes_def)
  have "gate_allows E rq (sv_ops (s\<lparr>sv_auth := a\<rparr>))" using assms(2) by simp
  from enforce_layer(1) [OF this] obtain b where "\<And>h. enforce E h rq (s\<lparr>sv_auth := a\<rparr>) = h rq (s\<lparr>sv_auth := b\<rparr>)"
    by (auto simp: passes_def)
  with a show ?thesis by (auto simp: passes_def)
qed

lemma inner_refuses:
  assumes "\<not> (allowed_in E C rq (sv_auth s) \<and> gate_allows E rq (sv_ops s))"
  shows "refuses (\<lambda>h. require_auth E (hc_cron_digest C) (enforce E h)) rq s"
proof (cases "allowed_in E C rq (sv_auth s)")
  case False
  then show ?thesis using auth_layer(2) [OF False] by (auto simp: refuses_def)
next
  case True
  obtain a where a: "\<And>h. require_auth E (hc_cron_digest C) h rq s = h rq (s\<lparr>sv_auth := a\<rparr>)"
    using auth_layer(1) [OF True] by (auto simp: passes_def)
  have "\<not> gate_allows E rq (sv_ops (s\<lparr>sv_auth := a\<rparr>))" using assms True by simp
  from enforce_layer(2) [OF this] obtain r b where "\<And>h. enforce E h rq (s\<lparr>sv_auth := a\<rparr>) = (r, s\<lparr>sv_auth := b\<rparr>)"
    by (auto simp: refuses_def)
  with a show ?thesis by (auto simp: refuses_def)
qed

subsection \<open>The whole perimeter\<close>

text \<open>The layers inside the webhook check.\<close>

definition inner :: "http_env \<Rightarrow> http_config \<Rightarrow> 'r handler \<Rightarrow> 'r handler" where
  "inner E C routes = session_layer E (require_auth E (hc_cron_digest C) (enforce E (body_limit max_body_bytes routes)))"

lemma router_inner: "router E C routes = response_perimeter E C (authenticate_webhook E (hc_webhook_key C) (inner E C routes))"
  by (simp add: router_def inner_def)

lemma business_auth [simp]: "business (s\<lparr>sv_auth := a\<rparr>) = business s"
  by (simp add: business_def)

lemma session_layer_business: "business (snd (session_layer E h rq s)) = business (snd (h rq s))"
  by (simp add: session_layer_def split: prod.splits)

lemma inner_passes:
  assumes "allowed_in E C rq (sv_auth s)" "gate_allows E rq (sv_ops s)"
  obtains a where "business (snd (inner E C routes rq s)) =
    business (snd (routes (rq\<lparr>hr_limit := Some max_body_bytes\<rparr>) (s\<lparr>sv_auth := a\<rparr>)))"
proof -
  obtain a where "\<And>h. require_auth E (hc_cron_digest C) (enforce E h) rq s = h rq (s\<lparr>sv_auth := a\<rparr>)"
    using inner_layers [OF assms] by (auto simp: passes_def)
  then show thesis by (intro that [of a]) (simp add: inner_def session_layer_business body_limit_def)
qed

lemma inner_blocks:
  assumes "\<not> (allowed_in E C rq (sv_auth s) \<and> gate_allows E rq (sv_ops s))"
  shows "inner E C routes rq s = inner E C routes' rq s \<and> business (snd (inner E C routes rq s)) = business s"
proof -
  obtain r a where "\<And>h. require_auth E (hc_cron_digest C) (enforce E h) rq s = (r, s\<lparr>sv_auth := a\<rparr>)"
    using inner_refuses [OF assms] by (auto simp: refuses_def)
  then show ?thesis by (simp add: inner_def session_layer_def split: prod.splits)
qed

text \<open>The request that the inner layers see.\<close>

definition inner_request :: "http_env \<Rightarrow> http_request \<Rightarrow> http_request" where
  "inner_request E rq = (if is_webhook_path (hr_path rq) then (tag_request E rq)\<lparr>hr_verified := True\<rparr> else tag_request E rq)"

lemma inner_request_simps [simp]:
  "hr_method (inner_request E rq) = hr_method rq" "hr_path (inner_request E rq) = hr_path rq" "hr_body (inner_request E rq) = hr_body rq"
  by (simp_all add: inner_request_def)

lemma same_inner: "same_request rq ((inner_request E rq)\<lparr>hr_limit := l\<rparr>)"
  using same_request_intros by (simp add: inner_request_def)

lemma gate_inner: "gate_allows E (inner_request E rq) db = gate_allows E rq db"
  by (simp add: gate_allows_def)

lemma authorised_inner: "authorised E C rq a \<longleftrightarrow> allowed_in E C (inner_request E rq) a \<and>
    (is_webhook_path (hr_path rq) \<longrightarrow> authentic_webhook E (hc_webhook_key C) rq)"
  by (simp add: authorised_def allowed_in_def inner_request_def signed_in_def is_webhook_path_def webhook_path_def)

text \<open>The webhook check passes authentic requests on; no other reaches the inner layers.\<close>

lemma webhook_layer:
  "is_webhook_path (hr_path rq) \<longrightarrow> authentic_webhook E key rq \<Longrightarrow>
     authenticate_webhook E key h (tag_request E rq) s = h (inner_request E rq) s"
  by (auto simp: authenticate_webhook_def authentic_webhook_def inner_request_def split: option.splits sum.splits)

lemma webhook_layer_refuses:
  "is_webhook_path (hr_path rq) \<Longrightarrow> \<not> authentic_webhook E key rq \<Longrightarrow>
     \<exists>r. \<forall>h. authenticate_webhook E key h (tag_request E rq) s = (r, s)"
  by (cases key; cases "verify E (the key) rq (hr_body rq) (tk_wall (he_clock E 0))")
    (auto simp: authenticate_webhook_def authentic_webhook_def)


subsection \<open>Every response\<close>

lemma map_of_cache_control: "n \<noteq> ''cache-control'' \<Longrightarrow> map_of (rp_headers (cache_control p r)) n = map_of (rp_headers r) n"
  by (simp add: cache_control_def)

text \<open>No response leaves without the protective headers; its cache policy is the handler's own or a safe default.\<close>

lemma perimeter_lookups:
  "map_of (rp_headers (perimeter_headers C i p r)) ''x-content-type-options'' = Some ''nosniff''"
  "map_of (rp_headers (perimeter_headers C i p r)) ''x-frame-options'' = Some ''DENY''"
  "map_of (rp_headers (perimeter_headers C i p r)) ''referrer-policy'' = Some ''no-referrer''"
  "map_of (rp_headers (perimeter_headers C i p r)) ''content-security-policy'' = Some (content_security_policy (hc_media_origin C))"
  "has_header ''cache-control'' (perimeter_headers C i p r)"
proof -
  show "has_header ''cache-control'' (perimeter_headers C i p r)" by (simp only: perimeter_headers_def cache_control_def) simp
qed (simp_all only: perimeter_headers_def, simp_all add: map_of_cache_control)

lemma security_headers:
  "map_of (rp_headers (fst (router E C routes rq s))) ''x-content-type-options'' = Some ''nosniff'' \<and>
   map_of (rp_headers (fst (router E C routes rq s))) ''x-frame-options'' = Some ''DENY'' \<and>
   map_of (rp_headers (fst (router E C routes rq s))) ''referrer-policy'' = Some ''no-referrer'' \<and>
   map_of (rp_headers (fst (router E C routes rq s))) ''content-security-policy'' =
     Some (content_security_policy (hc_media_origin C)) \<and>
   has_header ''cache-control'' (fst (router E C routes rq s))"
proof -
  obtain r t where "router E C routes rq s = (perimeter_headers C (request_id E rq) (is_static (hr_path rq)) r, t)"
    by (cases "authenticate_webhook E (hc_webhook_key C) (inner E C routes) (tag_request E rq) s")
      (auto simp: router_inner response_perimeter_def)
  then show ?thesis by (simp only: fst_conv perimeter_lookups simp_thms)
qed

lemma hex_digit_id: "n < 16 \<Longrightarrow> is_alnum (hex_digit n)"
  using is_digit_digit_char [of n] by (auto simp: hex_digit_def is_alnum_def is_lower_def byte_def code_char_of)

lemma request_id_valid: "length (he_random E) = 16 \<Longrightarrow> valid_request_id (request_id E rq)"
proof -
  assume l: "length (he_random E) = 16"
  have n: "code c div 16 < 16 \<and> code c mod 16 < 16" for c using code_lt [of c] by auto
  have "list_all (\<lambda>c. id_char c \<or> c = CHR ''.'') (concat (map (\<lambda>c. [hex_digit (code c div 16), hex_digit (code c mod 16)]) r))" for r
    by (induction r) (use hex_digit_id n in \<open>auto simp: id_char_def\<close>)
  moreover have "length (concat (map (\<lambda>c. [hex_digit (code c div 16), hex_digit (code c mod 16)]) r)) = 2 * length r" for r
    by (induction r) auto
  moreover have "list_all (\<lambda>c. id_char c \<or> c = CHR ''.'') ''td_''" by code_simp
  ultimately have "valid_request_id (generated_request_id (he_random E))"
    by (simp add: valid_request_id_def generated_request_id_def l)
  then show ?thesis by (simp add: request_id_def split: option.splits)
qed

subsection \<open>Large webhooks\<close>

text \<open>The webhook's route reads the body with the \<open>Bytes\<close> extractor, which the innermost layer limits to 64 KiB. A signed
  webhook of up to 256 KiB passes the authentication, but above 64 KiB its handler is not called: it is refused with
  413 every time it is delivered.\<close>

definition webhook_route :: "(string \<Rightarrow> 'r server \<Rightarrow> http_response \<times> 'r server) \<Rightarrow> 'r handler" where
  "webhook_route handle rq s = (case bytes_extractor rq of Inl r \<Rightarrow> (r, s) | Inr body \<Rightarrow> handle body s)"

lemma large_webhook_refused:
  assumes "hr_path rq = webhook_path" "hr_method rq = ''POST''" "authentic_webhook E (hc_webhook_key C) rq"
    "he_connects E" "writes_open (sv_ops s)" "max_body_bytes < length (hr_body rq)"
    "\<And>q r a. rp_status (fst (he_after_session E q r a)) = rp_status r"
  shows "length (hr_body rq) \<le> max_webhook_bytes \<and> rp_status (fst (router E C (webhook_route handle) rq s)) = 413 \<and>
    business (snd (router E C (webhook_route handle) rq s)) = business s"
proof -
  have w: "is_webhook_path (hr_path rq)" using assms(1) by (simp add: is_webhook_path_def)
  have g: "\<exists>u. gate_check Writes (sv_ops s) = Inr u" using requires_open(1) assms(5) by blast
  have q: "requirement ''POST'' webhook_path = Writes" by code_simp
  have st: "rp_status (perimeter_headers C i p r) = rp_status r" for i p r by (simp add: perimeter_headers_def cache_control_def)
  have e: "enforce E (body_limit max_body_bytes (webhook_route handle)) (inner_request E rq) s = (reply 413 (PlainBody ''length limit exceeded''), s)"
    using g assms by (auto simp: enforce_def Let_def q body_limit_def webhook_route_def bytes_extractor_def)
  have l: "length (hr_body rq) \<le> max_webhook_bytes"
    using assms(3) by (simp add: authentic_webhook_def split: option.splits)
  have v: "hr_verified (inner_request E rq)" using w by (simp add: inner_request_def)
  have i: "inner E C (webhook_route handle) (inner_request E rq) s =
      (case he_after_session E (inner_request E rq) (reply 413 (PlainBody ''length limit exceeded'')) (sv_auth s) of (r, a) \<Rightarrow> (r, s\<lparr>sv_auth := a\<rparr>))"
    using w v by (simp add: inner_def session_layer_def require_auth_def e)
  show ?thesis
    using l assms(7) [of "inner_request E rq" "reply 413 (PlainBody ''length limit exceeded'')" "sv_auth s"]
    by (cases "he_after_session E (inner_request E rq) (reply 413 (PlainBody ''length limit exceeded'')) (sv_auth s)")
      (simp add: router_inner response_perimeter_def webhook_layer [of rq E] assms(3) i st reply_def)
qed

subsection \<open>Samples\<close>

definition sample_sessions :: session_api where
  "sample_sessions = \<lparr>sa_encode = (\<lambda>_. Inr ''r''), sa_decode = (\<lambda>_. Inl ''no record''), sa_fresh_id = (\<lambda>n. show_nat n),
     sa_int = parse_i64, sa_to_lower = ascii_lower, sa_verify = (\<lambda>p h. Inr (p = h)), sa_hash_password = Inr\<rparr>"

definition sample_http :: http_env where
  "sample_http = \<lparr>he_text = Some, he_authority = (\<lambda>u. Some (strip_prefix ''https://'' u)), he_digest = id, he_hmac = (\<lambda>k m. k),
     he_base64 = Some, he_sessions = sample_sessions, he_cookie = (\<lambda>vs. case vs of [] \<Rightarrow> None | v # _ \<Rightarrow> Some v),
     he_after_session = (\<lambda>_ r a. (r, a)), he_clock = (\<lambda>k. \<lparr>tk_mono = int k, tk_wall = int k\<rparr>), he_random = replicate 16 CHR ''x'',
     he_connects = True, he_not_found_page = None\<rparr>"

definition sample_http_config :: http_config where
  "sample_http_config = \<lparr>hc_cookie_secure = True, hc_media_origin = None, hc_cron_digest = Some ''secret'', hc_webhook_key = None\<rparr>"

definition sample_ops :: op_db where
  "sample_ops = \<lparr>op_control_row = Some \<lparr>co_mode = ''enabled'', co_scheduler_enabled = 0, co_updated_at = ''t''\<rparr>,
     op_connections = [], runs = [], run_seq = 0\<rparr>"

definition signed_in_auth :: auth_state where
  "signed_in_auth = \<lparr>au_users = [], au_rows = [],
     au_cache = (\<lambda>i. if i = ''abc'' then Some \<lparr>cr_record = \<lparr>sn_id = ''abc'', sn_data = [(''user_id'', ''1'')], sn_expiry = 1000\<rparr>, cr_at = 0\<rparr> else None),
     au_active = (\<lambda>u. if u = 1 then Some 0 else None)\<rparr>"

definition sample_post :: "string \<Rightarrow> http_request" where
  "sample_post origin = \<lparr>hr_method = ''POST'', hr_path = ''/api/events'', hr_headers = [(''cookie'', ''abc''), (''host'', ''app.test''),
     (''origin'', origin)], hr_body = [], hr_verified = False, hr_limit = None\<rparr>"

definition counting_routes :: "nat handler" where
  "counting_routes rq s = (reply 200 NoBody, s\<lparr>sv_rest := sv_rest s + 1\<rparr>)"

definition sample_server :: "nat server" where
  "sample_server = \<lparr>sv_ops = sample_ops, sv_auth = signed_in_auth, sv_rest = 0\<rparr>"

lemma sample_admitted: "admitted sample_http sample_http_config (sample_post ''https://app.test'') sample_server"
  by code_simp

lemma sample_refused: "\<not> admitted sample_http sample_http_config (sample_post ''https://evil.test'') sample_server"
  by code_simp


end
