(* ===== verification/Session_Revocation.thy ===== *)
theory Session_Revocation
  imports Perimeter_Guard
begin

text \<open>
  Revocation with caches. One process runs any number of session operations at once; their parts (\<open>prog\<close> of
  \<open>Session_Store\<close>) interleave in any order, and other processes change the tables at any time. The world of the process
  (\<open>live\<close>) adds to the tables and caches its monotonic clock and the calls under way. Once a session's row is gone, or its
  user inactive, no cache shows it for longer than thirty seconds plus \<open>D\<close>, the longest time between the end of a
  statement and the caching of its result. The argument needs of an operation only what the predicates \<open>clean\<close> and \<open>sound\<close>
  say of its parts; the locale \<open>revocable\<close> states it once for sessions and for users.
\<close>

subsection \<open>Steps\<close>

text \<open>A call under way is its remaining parts and the time at which the last one ended.\<close>

record live =
  lv_state :: auth_state
  lv_now :: int
  lv_calls :: "(int \<times> unit prog) list"

datatype session_call = CallCreate nat session_record | CallSave session_record | CallLoad string | CallDelete string
  | CallActive int

primrec call_prog :: "session_api \<Rightarrow> session_call \<Rightarrow> unit prog" where
  "call_prog A (CallCreate drawn r) = map_prog (\<lambda>_. ()) (create_prog A drawn 8 r)"
| "call_prog A (CallSave r) = map_prog (\<lambda>_. ()) (save_prog A r)"
| "call_prog A (CallLoad sid) = map_prog (\<lambda>_. ()) (load_prog A sid)"
| "call_prog A (CallDelete sid) = map_prog (\<lambda>_. ()) (delete_prog sid)"
| "call_prog A (CallActive u) = map_prog (\<lambda>_. ()) (active_prog u)"

text \<open>\<open>Resume\<close> runs the next part of a call; a part that caches comes at most \<open>D\<close> after the part before it. \<open>Elsewhere\<close> is
  another process, and \<open>Drop\<close> the end of a call, finished or cancelled.\<close>

inductive live_step :: "session_api \<Rightarrow> int \<Rightarrow> live \<Rightarrow> live \<Rightarrow> bool" for A D where
  Tick: "0 \<le> d \<Longrightarrow> live_step A D w (w\<lparr>lv_now := lv_now w + d\<rparr>)"
| Elsewhere: "live_step A D w (w\<lparr>lv_state := (lv_state w)\<lparr>au_users := users, au_rows := rows\<rparr>\<rparr>)"
| Call: "live_step A D w (w\<lparr>lv_calls := (lv_now w, call_prog A c) # lv_calls w\<rparr>)"
| Resume: "lv_calls w = ps @ (since, Act b f) # qs \<Longrightarrow> b \<longrightarrow> lv_now w \<le> since + D \<Longrightarrow>
    tk_mono t = lv_now w \<Longrightarrow> tk_mono u = lv_now w \<Longrightarrow> f t u (lv_state w) = (p, s) \<Longrightarrow>
    live_step A D w (w\<lparr>lv_state := s, lv_calls := ps @ (lv_now w, p) # qs\<rparr>)"
| Drop: "lv_calls w = ps @ c # qs \<Longrightarrow> live_step A D w (w\<lparr>lv_calls := ps @ qs\<rparr>)"

lemma resume_first:
  "lv_calls w = (since, Act b f) # qs \<Longrightarrow> b \<longrightarrow> lv_now w \<le> since + D \<Longrightarrow> tk_mono t = lv_now w \<Longrightarrow> tk_mono u = lv_now w \<Longrightarrow>
    f t u (lv_state w) = (p, s) \<Longrightarrow> live_step A D w (w\<lparr>lv_state := s, lv_calls := (lv_now w, p) # qs\<rparr>)"
  using Resume [of w "[]"] by simp

text \<open>An operation run by itself is a run of such steps.\<close>

lemma alone:
  assumes "\<forall>j. tk_mono (t j) = lv_now w" "0 \<le> D" "lv_calls w = (lv_now w, p) # qs"
  shows "\<exists>a. (live_step A D)\<^sup>*\<^sup>* w (w\<lparr>lv_state := snd (run_prog p t k (lv_state w)), lv_calls := (lv_now w, Done a) # qs\<rparr>)"
  using assms
proof (induction p arbitrary: k w)
  case (Done a)
  then show ?case by (intro exI [of _ a]) (cases w, simp)
next
  case (Act b f)
  obtain p s where f: "f (t k) (t (Suc k)) (lv_state w) = (p, s)" by fastforce
  let ?w = "w\<lparr>lv_state := s, lv_calls := (lv_now w, p) # qs\<rparr>"
  have step: "live_step A D w ?w"
    using resume_first [of w "lv_now w" b f qs D "t k" "t (Suc k)"] Act.prems f by simp
  have "\<exists>a. (live_step A D)\<^sup>*\<^sup>* ?w (?w\<lparr>lv_state := snd (run_prog p t (Suc k) (lv_state ?w)), lv_calls := (lv_now ?w, Done a) # qs\<rparr>)"
    by (rule Act.IH [of "f (t k)" "f (t k) (t (Suc k))" "f (t k) (t (Suc k)) (lv_state w)" p, OF rangeI rangeI rangeI]) (use Act.prems f in \<open>simp_all add: prod_set_simps\<close>)
  with step f show ?case by (auto intro: converse_rtranclp_into_rtranclp)
qed

text \<open>A process starts with empty caches.\<close>

definition starting :: "live \<Rightarrow> bool" where
  "starting w \<longleftrightarrow> au_cache (lv_state w) = (\<lambda>_. None) \<and> au_active (lv_state w) = (\<lambda>_. None) \<and> lv_calls w = []"

definition reached :: "session_api \<Rightarrow> int \<Rightarrow> live \<Rightarrow> bool" where
  "reached A D w \<longleftrightarrow> (\<exists>w0. starting w0 \<and> (live_step A D)\<^sup>*\<^sup>* w0 w)"

text \<open>A fact that has held from \<open>w0\<close> on.\<close>

inductive kept_so :: "session_api \<Rightarrow> int \<Rightarrow> (live \<Rightarrow> bool) \<Rightarrow> live \<Rightarrow> live \<Rightarrow> bool" for A D P w0 where
  Start: "P w0 \<Longrightarrow> kept_so A D P w0 w0"
| Onward: "kept_so A D P w0 w \<Longrightarrow> live_step A D w w' \<Longrightarrow> P w' \<Longrightarrow> kept_so A D P w0 w'"

definition signed_out :: "string \<Rightarrow> live \<Rightarrow> bool" where
  "signed_out sid w \<longleftrightarrow> \<not> has_session sid (lv_state w)"

definition deactivated :: "int \<Rightarrow> live \<Rightarrow> bool" where
  "deactivated u w \<longleftrightarrow> \<not> active_in u (au_users (lv_state w))"

subsection \<open>Parts and caches\<close>

text \<open>
  \<open>shown s\<close> is the stamp of the cache entry in question, and \<open>gone s\<close> says that the tables do not support it. The parts of a
  \<open>clean\<close> operation never set the stamp while \<open>gone\<close> holds; those of a \<open>sound\<close> one set it to the present at most, and
  are clean from any point on, but for a first part that caches.
\<close>

definition stays :: "(auth_state \<Rightarrow> int option) \<Rightarrow> auth_state \<Rightarrow> auth_state \<Rightarrow> bool" where
  "stays shown s s' \<longleftrightarrow> shown s' = shown s \<or> shown s' = None"

primrec clean :: "(auth_state \<Rightarrow> bool) \<Rightarrow> (auth_state \<Rightarrow> int option) \<Rightarrow> 'a prog \<Rightarrow> bool" where
  "clean gone shown (Done a) \<longleftrightarrow> True"
| "clean gone shown (Act b f) \<longleftrightarrow> (\<forall>t u s. gone s \<longrightarrow> gone (snd (f t u s)) \<longrightarrow>
     stays shown s (snd (f t u s)) \<and> fst (map_prod (clean gone shown) id (f t u s)))"

primrec after_first :: "('a prog \<Rightarrow> bool) \<Rightarrow> 'a prog \<Rightarrow> bool" where
  "after_first Q (Done a) \<longleftrightarrow> True"
| "after_first Q (Act b f) \<longleftrightarrow> (\<forall>t u s. Q (fst (f t u s)))"

primrec caches :: "'a prog \<Rightarrow> bool" where
  "caches (Done a) \<longleftrightarrow> False"
| "caches (Act b f) \<longleftrightarrow> b"

definition ready :: "(auth_state \<Rightarrow> bool) \<Rightarrow> (auth_state \<Rightarrow> int option) \<Rightarrow> 'a prog \<Rightarrow> bool" where
  "ready gone shown p \<longleftrightarrow> clean gone shown p \<or> caches p \<and> after_first (clean gone shown) p"

primrec sound :: "(auth_state \<Rightarrow> bool) \<Rightarrow> (auth_state \<Rightarrow> int option) \<Rightarrow> 'a prog \<Rightarrow> bool" where
  "sound gone shown (Done a) \<longleftrightarrow> True"
| "sound gone shown (Act b f) \<longleftrightarrow> ready gone shown (Act b f) \<and> (\<forall>t u s.
     (stays shown s (snd (f t u s)) \<or> shown (snd (f t u s)) \<in> {Some (tk_mono t), Some (tk_mono u)}) \<and>
     fst (map_prod (sound gone shown) id (f t u s)))"

lemma sound_ready: "sound gone shown p \<Longrightarrow> ready gone shown p"
  by (cases p) (simp_all add: ready_def)

lemma call_starts: "\<not> caches (call_prog A c)"
  by (cases c) (simp_all add: save_prog_def load_prog_def delete_prog_def active_prog_def numeral_nat split: sum.split)

locale revocable =
  fixes A :: session_api and gone :: "auth_state \<Rightarrow> bool" and shown :: "auth_state \<Rightarrow> int option"
  assumes sound_call: "sound gone shown (call_prog A c)"
    and shown_tables: "shown (s\<lparr>au_users := users, au_rows := rows\<rparr>) = shown s"
    and shown_blank: "au_cache s = (\<lambda>_. None) \<Longrightarrow> au_active s = (\<lambda>_. None) \<Longrightarrow> shown s = None"
begin

text \<open>No entry is younger than the present, and every call under way is sound.\<close>

definition dated :: "live \<Rightarrow> bool" where
  "dated w \<longleftrightarrow> (\<forall>x. shown (lv_state w) = Some x \<longrightarrow> x \<le> lv_now w) \<and>
     (\<forall>(since, p) \<in> set (lv_calls w). since \<le> lv_now w \<and> sound gone shown p)"

lemma dated_step: "live_step A D w w' \<Longrightarrow> dated w \<Longrightarrow> dated w'"
proof (induction rule: live_step.induct)
  case (Resume w ps since b f qs t u p s)
  then have f: "sound gone shown (Act b f)" by (auto simp: dated_def)
  have "stays shown (lv_state w) (snd (f t u (lv_state w))) \<or> shown (snd (f t u (lv_state w))) \<in> {Some (tk_mono t), Some (tk_mono u)}"
    "fst (map_prod (sound gone shown) id (f t u (lv_state w)))" using f by simp_all
  with Resume show ?case by (auto simp: dated_def stays_def)
qed (auto simp: dated_def shown_tables sound_call)

lemma dated_reached: "reached A D w \<Longrightarrow> dated w"
proof -
  assume "reached A D w"
  then obtain w0 where w0: "starting w0" "(live_step A D)\<^sup>*\<^sup>* w0 w" by (auto simp: reached_def)
  then have "dated w0" using shown_blank by (simp add: starting_def dated_def)
  with w0(2) show ?thesis by (induction rule: rtranclp_induct) (auto dest: dated_step)
qed

text \<open>What can still be shown of something that was gone at time \<open>T\<close>.\<close>

definition fading :: "int \<Rightarrow> int \<Rightarrow> live \<Rightarrow> bool" where
  "fading D T w \<longleftrightarrow> gone (lv_state w) \<and> (\<forall>x. shown (lv_state w) = Some x \<longrightarrow> x \<le> T + D) \<and>
     (\<forall>(since, p) \<in> set (lv_calls w). clean gone shown p \<or> caches p \<and> after_first (clean gone shown) p \<and> sound gone shown p \<and> since \<le> T)"

lemma fading_resume:
  assumes "fading D T w" "lv_calls w = ps @ (since, Act b f) # qs" "b \<longrightarrow> lv_now w \<le> since + D"
    "tk_mono t = lv_now w" "tk_mono u = lv_now w" "f t u (lv_state w) = (p, s)" "gone s"
  shows "(\<forall>x. shown s = Some x \<longrightarrow> x \<le> T + D) \<and> clean gone shown p"
proof -
  from assms(1,2) consider "clean gone shown (Act b f)"
    | "b" "after_first (clean gone shown) (Act b f)" "sound gone shown (Act b f)" "since \<le> T"
    by (auto simp: fading_def)
  then show ?thesis
  proof cases
    case 1
    then have "\<And>t u s. gone s \<Longrightarrow> gone (snd (f t u s)) \<Longrightarrow> stays shown s (snd (f t u s)) \<and> clean gone shown (fst (f t u s))"
      by simp
    from this [of "lv_state w" t u] have "stays shown (lv_state w) s \<and> clean gone shown p"
      using assms by (simp add: fading_def)
    with assms show ?thesis by (auto simp: fading_def stays_def)
  next
    case 2
    from 2(3) have "stays shown (lv_state w) (snd (f t u (lv_state w))) \<or> shown (snd (f t u (lv_state w))) \<in> {Some (tk_mono t), Some (tk_mono u)}"
      by simp
    moreover from 2(2) have "clean gone shown (fst (f t u (lv_state w)))" by simp
    ultimately show ?thesis using 2 assms by (auto simp: fading_def stays_def)
  qed
qed

lemma fading_step: "live_step A D w w' \<Longrightarrow> gone (lv_state w') \<Longrightarrow> fading D T w \<Longrightarrow> fading D T w'"
proof (induction rule: live_step.induct)
  case (Resume w ps since b f qs t u p s)
  then have "(\<forall>x. shown s = Some x \<longrightarrow> x \<le> T + D) \<and> clean gone shown p"
    using fading_resume [of D T w ps since b f qs t u p s] by simp
  with Resume show ?case by (simp add: fading_def)
next
  case (Call w c)
  have "clean gone shown (call_prog A c)"
    using sound_ready [OF sound_call [of c]] call_starts [of A c] by (simp add: ready_def)
  with Call show ?case by (auto simp: fading_def)
qed (auto simp: fading_def shown_tables)

lemma fading_kept:
  assumes "kept_so A D (\<lambda>w. gone (lv_state w)) w0 w" "reached A D w0" "0 \<le> D"
  shows "fading D (lv_now w0) w"
  using assms(1)
proof (induction rule: kept_so.induct)
  case Start
  have "ready gone shown p" if "(l, p) \<in> set (lv_calls w0)" for l p
    using that dated_reached [OF assms(2)] by (auto simp: dated_def intro: sound_ready)
  with Start show ?case using dated_reached [OF assms(2)] assms(3)
    by (fastforce simp: fading_def dated_def ready_def)
qed (blast intro: fading_step)

lemma not_shown_later:
  assumes "kept_so A D (\<lambda>w. gone (lv_state w)) w0 w" "reached A D w0" "0 \<le> D"
  shows "gone (lv_state w) \<and> (\<forall>x. shown (lv_state w) = Some x \<longrightarrow> x \<le> lv_now w0 + D)"
  using fading_kept [OF assms] by (simp add: fading_def)

end

subsection \<open>The operations are sound\<close>

lemma load_query_row: "load_query A t u sid s = Inr (Some r) \<Longrightarrow> sn_id r = sid \<and> has_session sid s"
  by (auto simp: load_query_def has_session_def list_ex_iff split: option.splits sum.splits if_splits dest: find_set)

lemma cached_entry: "au_cache (snd (cached t i s)) sid = au_cache s sid \<or> au_cache (snd (cached t i s)) sid = None"
  by (auto simp: cached_def split: option.splits)

lemma cached_rest [simp]: "au_rows (snd (cached t i s)) = au_rows s" "au_users (snd (cached t i s)) = au_users s"
  "au_active (snd (cached t i s)) = au_active s"
  by (auto simp: cached_def split: option.splits)

abbreviation session_gone :: "string \<Rightarrow> auth_state \<Rightarrow> bool" where
  "session_gone sid s \<equiv> \<not> has_session sid s"

definition session_stamp :: "string \<Rightarrow> auth_state \<Rightarrow> int option" where
  "session_stamp sid s = map_option cr_at (au_cache s sid)"

abbreviation user_gone :: "int \<Rightarrow> auth_state \<Rightarrow> bool" where
  "user_gone u s \<equiv> \<not> active_in u (au_users s)"

definition user_stamp :: "int \<Rightarrow> auth_state \<Rightarrow> int option" where
  "user_stamp u s = au_active s u"

lemma session_part_simps [simp]:
  "session_stamp sid (cache_record t r s) = (if sn_id r = sid then Some (tk_mono t) else session_stamp sid s)"
  "session_stamp sid (evict i s) = (if i = sid then None else session_stamp sid s)"
  "session_stamp sid (s\<lparr>au_rows := rows\<rparr>) = session_stamp sid s" "session_stamp sid (delete_rows i s) = session_stamp sid s"
  "session_stamp sid (note_active t u s) = session_stamp sid s" "session_stamp sid (note_inactive u s) = session_stamp sid s"
  "has_session sid (s\<lparr>au_rows := au_rows s @ [session_row_of data r]\<rparr>) \<longleftrightarrow> has_session sid s \<or> sn_id r = sid"
  by (auto simp: session_stamp_def cache_record_def evict_def delete_rows_def note_active_def note_inactive_def
      has_session_def session_row_of_def)

lemma user_part_simps [simp]:
  "user_stamp u (cache_record t r s) = user_stamp u s" "user_stamp u (evict i s) = user_stamp u s"
  "user_stamp u (s\<lparr>au_rows := rows\<rparr>) = user_stamp u s" "user_stamp u (delete_rows i s) = user_stamp u s"
  "user_stamp u (note_active t v s) = (if v = u then Some (tk_mono t) else user_stamp u s)"
  "user_stamp u (note_inactive v s) = (if v = u then None else user_stamp u s)"
  "user_stamp u (snd (cached t i s)) = user_stamp u s"
  by (auto simp: user_stamp_def cache_record_def evict_def delete_rows_def note_active_def note_inactive_def)

lemma cached_stamp: "stays (session_stamp sid) s (snd (cached t i s))"
  using cached_entry [of t i s sid] by (auto simp: stays_def session_stamp_def)

lemmas part_defs = stays_def ready_def

lemma saved_session: "count_rows (\<lambda>w. ss_id w = sid) (au_rows s) = Suc 0 \<Longrightarrow> has_session sid s"
  using count_rows_pos [of "\<lambda>w. ss_id w = sid" "au_rows s"] by (auto simp: has_session_def list_ex_iff)

lemma clean_create: "clean (session_gone sid) (session_stamp sid) (map_prog g (create_prog A drawn n r))"
  by (induction n arbitrary: drawn r) (auto simp: part_defs split: sum.split)

lemma sound_create: "sound (session_gone sid) (session_stamp sid) (map_prog g (create_prog A drawn n r))"
  by (induction n arbitrary: drawn r) (auto simp: part_defs clean_create split: sum.split)

lemma sound_save: "sound (session_gone sid) (session_stamp sid) (map_prog g (save_prog A r))"
  by (auto simp: save_prog_def part_defs split: sum.split dest: saved_session)

lemma sound_load: "sound (session_gone sid) (session_stamp sid) (map_prog g (load_prog A i))"
proof -
  have c: "session_stamp sid s' = Some y \<Longrightarrow> session_stamp sid s = Some y" if "cached t i s = (x, s')" for t s s' x y
    using cached_stamp [of sid s t i] that by (auto simp: stays_def)
  show ?thesis
    by (auto simp: load_prog_def part_defs split: prod.splits option.splits sum.splits dest!: load_query_row dest: c)
qed

lemma sound_delete: "sound (session_gone sid) (session_stamp sid) (map_prog g (delete_prog i))"
  by (auto simp: delete_prog_def part_defs)

lemma sound_active: "sound (session_gone sid) (session_stamp sid) (map_prog g (active_prog u))"
  by (auto simp: active_prog_def part_defs)

lemma user_create: "sound (user_gone u) (user_stamp u) (map_prog g (create_prog A drawn n r)) \<and>
    clean (user_gone u) (user_stamp u) (map_prog g (create_prog A drawn n r))"
  by (induction n arbitrary: drawn r) (auto simp: part_defs split: sum.split)

lemma user_save: "sound (user_gone u) (user_stamp u) (map_prog g (save_prog A r))"
  by (auto simp: save_prog_def part_defs split: sum.split)

lemma user_load: "sound (user_gone u) (user_stamp u) (map_prog g (load_prog A i))"
proof -
  have c: "user_stamp u s' = user_stamp u s" if "cached t i s = (x, s')" for t s s' x
    using user_part_simps(7) [of u t i s] that by simp
  show ?thesis by (auto simp: load_prog_def part_defs c split: prod.splits option.splits sum.splits)
qed

lemma user_delete: "sound (user_gone u) (user_stamp u) (map_prog g (delete_prog i))"
  by (auto simp: delete_prog_def part_defs)

lemma user_active: "sound (user_gone u) (user_stamp u) (map_prog g (active_prog v))"
  by (auto simp: active_prog_def part_defs)

lemma call_sound: "sound (session_gone sid) (session_stamp sid) (call_prog A c)" "sound (user_gone u) (user_stamp u) (call_prog A c)"
  by (cases c; simp add: sound_create sound_save sound_load sound_delete sound_active
      user_create user_save user_load user_delete user_active)+

interpretation session: revocable A "session_gone sid" "session_stamp sid" for A sid
  by unfold_locales (auto simp: call_sound session_stamp_def)

interpretation user: revocable A "user_gone u" "user_stamp u" for A u
  by unfold_locales (auto simp: call_sound user_stamp_def)


subsection \<open>Look-ups\<close>

lemma load_None:
  assumes "\<not> has_session sid s" "\<And>c. au_cache s sid = Some c \<Longrightarrow> session_cache_ttl < tk_mono (t 0) - cr_at c"
  shows "fst (load A t sid s) = Inr None"
proof -
  have c: "fst (cached (t 0) sid s) = None" using assms(2) by (fastforce simp: cached_def split: option.splits)
  obtain s' where s': "cached (t 0) sid s = (None, s')" using c by (metis prod.collapse)
  have "au_rows s' = au_rows s" using cached_rest(1) [of "t 0" sid s] s' by simp
  then have "load_query A (t 1) (t 2) sid s' = Inr None"
    using assms(1) by (auto simp: load_query_def has_session_def list_ex_iff find_None_iff split: option.splits dest: find_set)
  with s' show ?thesis by (simp add: load_eq)
qed

lemma load_keeps_users: "load A t sid s = (r, s') \<Longrightarrow> au_users s' = au_users s \<and> au_active s' = au_active s"
  using cached_rest [of "t 0" sid s] by (cases "cached (t 0) sid s")
    (auto simp: load_eq cache_record_def split: option.splits sum.splits)

lemma current_user_keeps: "current_user E rq s = (r, s') \<Longrightarrow> au_users s' = au_users s \<and> au_active s' = au_active s"
  by (auto simp: current_user_def session_user_def bnd_def ok_def raise_def split: option.splits prod.splits sum.splits
      dest!: load_keeps_users)

lemma inactive_check:
  assumes "\<not> active_in u (au_users s)" "\<And>t. au_active s u = Some t \<Longrightarrow> active_user_cache_ttl < tk_mono (he_clock E 4) - t"
  shows "fst (check_active E u s) = Inr False"
  using assms by (fastforce simp: check_active_def user_is_active_eq recently_active_def split: option.splits)

lemma session_gone_refused:
  assumes "kept_so A D (signed_out sid) w0 w" "reached A D w0" "0 \<le> D"
    "lv_now w0 + D + session_cache_ttl < lv_now w" "lv_now w \<le> tk_mono (he_clock E 0)" "session_cookie E rq = Some sid"
  shows "\<not> signed_in E rq (lv_state w)"
proof -
  have k: "session_gone sid (lv_state w)" "\<And>x. session_stamp sid (lv_state w) = Some x \<Longrightarrow> x \<le> lv_now w0 + D"
    using session.not_shown_later [of A D sid w0 w] assms(1-3) unfolding signed_out_def [abs_def] by blast+
  have "fst (load (he_sessions E) (he_clock E) sid (lv_state w)) = Inr None"
    using assms(4,5) k by (intro load_None) (fastforce simp: session_stamp_def)+
  then have "fst (current_user E rq (lv_state w)) = Inr None"
    by (cases "load (he_sessions E) (he_clock E) sid (lv_state w)")
      (simp add: current_user_def session_user_def assms(6) bnd_def ok_def)
  then show ?thesis by (auto simp: signed_in_def split: prod.splits)
qed

lemma user_gone_refused:
  assumes "kept_so A D (deactivated u) w0 w" "reached A D w0" "0 \<le> D"
    "lv_now w0 + D + active_user_cache_ttl < lv_now w" "lv_now w \<le> tk_mono (he_clock E 4)"
    "fst (current_user E rq (lv_state w)) = Inr (Some u)"
  shows "\<not> signed_in E rq (lv_state w)"
proof -
  have k: "user_gone u (lv_state w)" "\<And>x. user_stamp u (lv_state w) = Some x \<Longrightarrow> x \<le> lv_now w0 + D"
    using user.not_shown_later [of A D u w0 w] assms(1-3) unfolding deactivated_def [abs_def] by blast+
  obtain b where b: "current_user E rq (lv_state w) = (Inr (Some u), b)" using assms(6) by (metis prod.collapse)
  have "fst (check_active E u b) = Inr False"
    using assms(4,5) k current_user_keeps [OF b] by (intro inactive_check) (fastforce simp: user_stamp_def)+
  then show ?thesis by (simp add: signed_in_def b)
qed

text \<open>A logout deletes the row and evicts the entry: with no look-up in flight the session is refused at once. A look-up
  whose query ran before the deletion caches the record after it, and the process serves the session again.\<close>

lemma logout_immediate: "fst (load A t sid (snd (delete_session sid s))) = Inr None"
  by (rule load_None) (simp_all add: delete_eq evict_def delete_rows_def has_session_def list_ex_iff)

lemma revived_session:
  assumes "load_query A t1 t2 sid s = Inr (Some r)" "tk_mono u - tk_mono t3 \<le> session_cache_ttl" "tk_wall u < sn_expiry r"
  shows "fst (cached u sid (cache_record t3 r (snd (delete_session sid s)))) = Some r"
  using load_query_row [OF assms(1)] assms(2,3) by (auto simp: cached_def cache_record_def)

text \<open>C12: Revocation is effective within thirty seconds. The process runs any number of calls of \<open>create\<close>, \<open>save\<close>, \<open>load\<close>,
  \<open>delete\<close> and \<open>user_is_active\<close>, the parts of which interleave in any order. Once a session's row is deleted, or its user
  deactivated, by whatever process, and stays so, no request with that session reaches a protected page later than the life
  of a cache entry plus the delay \<open>D\<close> between a statement and the caching of its result. So no hit of a cache renews its
  entry: a session that is used all the time expires like any other.\<close>

theorem revocation_bound:
  assumes "reached A D w0" "0 \<le> D"
    "kept_so A D (signed_out sid) w0 w \<or> kept_so A D (deactivated u) w0 w"
    "lv_now w0 + D + 30 * second < lv_now w" "lv_now w \<le> tk_mono (he_clock E 0)" "lv_now w \<le> tk_mono (he_clock E 4)"
    "session_cookie E rq = Some sid" "fst (current_user E rq (lv_state w)) \<in> {Inr None, Inr (Some u)}"
    "\<not> is_public (hr_path rq)" "\<not> is_cron (hr_path rq)" "hr_path rq \<noteq> ''/webhooks/resend''" "sv_auth s = lv_state w"
  shows "\<not> admitted E C rq s"
proof -
  from assms(3) have "\<not> signed_in E rq (lv_state w)"
  proof
    assume "kept_so A D (signed_out sid) w0 w"
    from session_gone_refused [OF this assms(1,2)] show ?thesis using assms by (simp add: session_cache_ttl_def)
  next
    assume "kept_so A D (deactivated u) w0 w"
    from user_gone_refused [OF this assms(1,2)] show ?thesis using assms
      by (fastforce simp: active_user_cache_ttl_def signed_in_def split: prod.splits)
  qed
  with assms show ?thesis by (simp add: admitted_def authorised_def)
qed

subsection \<open>A sample run\<close>

text \<open>A session is created and cached, and then deleted by another process; its user stays active.\<close>

definition sample_record :: session_record where
  "sample_record = \<lparr>sn_id = ''abc'', sn_data = [(''user_id'', ''1'')], sn_expiry = 10 ^ 15\<rparr>"

definition blank_auth :: auth_state where
  "blank_auth = \<lparr>au_users = [], au_rows = [], au_cache = (\<lambda>_. None), au_active = (\<lambda>_. None)\<rparr>"

definition fresh_live :: live where
  "fresh_live = \<lparr>lv_state = blank_auth, lv_now = 0, lv_calls = []\<rparr>"

definition deleted_live :: live where
  "deleted_live = fresh_live\<lparr>lv_state := cache_record \<lparr>tk_mono = 0, tk_wall = 0\<rparr> sample_record blank_auth,
     lv_calls := [(0, Done ())]\<rparr>"

definition later_live :: live where
  "later_live = deleted_live\<lparr>lv_now := lv_now deleted_live + 32 * second\<rparr>"

lemmas live_samples = later_live_def deleted_live_def fresh_live_def blank_auth_def cache_record_def

lemma deleted_reached: "reached sample_sessions second deleted_live"
proof -
  let ?t = "\<lparr>tk_mono = 0, tk_wall = 0\<rparr> :: reading"
  let ?w = "fresh_live\<lparr>lv_calls := (lv_now fresh_live, call_prog sample_sessions (CallCreate 0 sample_record)) # lv_calls fresh_live\<rparr>"
  let ?rows = "[session_row_of ''r'' sample_record]"
  have c: "live_step sample_sessions second fresh_live ?w" by (rule Call)
  have "\<exists>a. (live_step sample_sessions second)\<^sup>*\<^sup>* ?w (?w\<lparr>lv_state := snd (run_prog (call_prog sample_sessions
      (CallCreate 0 sample_record)) (\<lambda>_. ?t) 0 (lv_state ?w)), lv_calls := (lv_now ?w, Done a) # []\<rparr>)"
    by (rule alone) (simp_all add: fresh_live_def second_def)
  then have r: "(live_step sample_sessions second)\<^sup>*\<^sup>* ?w (deleted_live\<lparr>lv_state := (lv_state deleted_live)\<lparr>au_rows := ?rows\<rparr>\<rparr>)"
    by (simp add: live_samples numeral_nat encode_record_def sample_sessions_def has_session_def)
  have e: "live_step sample_sessions second (deleted_live\<lparr>lv_state := (lv_state deleted_live)\<lparr>au_rows := ?rows\<rparr>\<rparr>) deleted_live"
    using Elsewhere [of sample_sessions second "deleted_live\<lparr>lv_state := (lv_state deleted_live)\<lparr>au_rows := ?rows\<rparr>\<rparr>" "[]" "[]"]
    by (simp add: live_samples)
  have "(live_step sample_sessions second)\<^sup>*\<^sup>* fresh_live deleted_live"
    using converse_rtranclp_into_rtranclp [of "live_step sample_sessions second", OF c rtranclp.rtrancl_into_rtrancl [OF r e]] .
  then show ?thesis unfolding reached_def by (intro exI [of _ fresh_live]) (simp add: starting_def fresh_live_def blank_auth_def)
qed

definition later_http :: http_env where
  "later_http = sample_http\<lparr>he_clock := (\<lambda>k. \<lparr>tk_mono = 32 * second + int k, tk_wall = 32 * second\<rparr>)\<rparr>"

definition revoked_request :: http_request where
  "revoked_request = \<lparr>hr_method = ''GET'', hr_path = ''/'', hr_headers = [(''cookie'', ''abc'')], hr_body = [], hr_verified = False,
     hr_limit = None\<rparr>"

theorem revocation_bound_witness:
  "fst (cached \<lparr>tk_mono = 29 * second, tk_wall = 0\<rparr> ''abc'' (lv_state deleted_live)) = Some sample_record \<and>
   \<not> admitted later_http sample_http_config revoked_request (sample_server\<lparr>sv_auth := lv_state later_live\<rparr>)"
proof
  show "fst (cached \<lparr>tk_mono = 29 * second, tk_wall = 0\<rparr> ''abc'' (lv_state deleted_live)) = Some sample_record"
    by (simp add: cached_def live_samples sample_record_def cache_record_def session_cache_ttl_def second_def)
  have k: "kept_so sample_sessions second (signed_out ''abc'') deleted_live later_live"
    unfolding later_live_def
    by (rule Onward [OF Start Tick]) (simp_all add: signed_out_def has_session_def live_samples second_def)
  show "\<not> admitted later_http sample_http_config revoked_request (sample_server\<lparr>sv_auth := lv_state later_live\<rparr>)"
  proof (rule revocation_bound [OF deleted_reached _ disjI1 [OF k], of later_http revoked_request 1])
    show "fst (current_user later_http revoked_request (lv_state later_live)) \<in> {Inr None, Inr (Some 1)}" by code_simp
    show "\<not> is_public (hr_path revoked_request)" by code_simp
    show "\<not> is_cron (hr_path revoked_request)" by code_simp
    show "hr_path revoked_request \<noteq> ''/webhooks/resend''" by code_simp
  qed (simp_all add: live_samples later_http_def sample_http_def second_def revoked_request_def session_cookie_def)
qed

end
