(* ===== verification/Finance_Http.thy ===== *)
theory Finance_Http
  imports Forecast Views Date_Contract
begin

text \<open>
  The JSON handlers of the finance component, \<open>src/finance/http.rs\<close>: a request's body is turned into a draft or a patch,
  where a member that is absent, null or a value means different things (\<open>wire\<close>), and the repository's error into
  a status. \<open>today\<close> is the server's UTC date. The result is the status and the body as data; the HTML pages, which read
  through the same listings, are left out.
\<close>

subsection \<open>Requests and results\<close>

datatype 'a wire = Missing | Null | Value 'a

text \<open>serde's view of an object member: absent, null, or a value.\<close>

definition wire_of_member :: "'a option option \<Rightarrow> 'a wire" where
  "wire_of_member m = (case m of None \<Rightarrow> Missing | Some None \<Rightarrow> Null | Some (Some v) \<Rightarrow> Value v)"

definition wire_patch :: "'a wire \<Rightarrow> 'a patch" where
  "wire_patch w = (case w of Missing \<Rightarrow> Keep | Null \<Rightarrow> Clear | Value v \<Rightarrow> SetTo v)"

definition wire_or :: "'a wire \<Rightarrow> 'a option \<Rightarrow> 'a option" where
  "wire_or w old = (case w of Missing \<Rightarrow> old | Null \<Rightarrow> None | Value v \<Rightarrow> Some v)"

record forecast_params =
  fp_from :: "string option"
  fp_through :: "string option"
  fp_stream_id :: "int option"
  fp_view_id :: "int option"

record create_event_request =
  ce_stream_id :: int
  ce_account_id :: "int option"
  ce_label :: string
  ce_expected_date :: string
  ce_amount :: f64

record update_event_request =
  ue_label :: "string wire"
  ue_amount :: "f64 wire"
  ue_expected_date :: "string wire"
  ue_account_id :: "int wire"
  ue_notes :: "string wire"

record reconcile_request =
  rq_actual_date :: string
  rq_amount :: f64

record account_request =
  aq_name :: string
  aq_kind :: "string option"
  aq_balance :: "f64 wire"
  aq_is_primary :: "bool option"
  aq_notes :: "string wire"

record schedule_request =
  zq_id :: "int option"
  zq_account_id :: "int option"
  zq_label :: "string option"
  zq_amount :: f64
  zq_frequency :: string
  zq_day_of_month :: "int option"
  zq_start_date :: string
  zq_end_date :: "string option"
  zq_metadata :: "string option"

record stream_request =
  sq_name :: string
  sq_kind :: "string option"
  sq_certainty :: "string option"
  sq_description :: "string wire"
  sq_default_account_id :: "int wire"
  sq_schedule_id :: "int option"
  sq_schedule_amount :: "f64 wire"
  sq_schedule_frequency :: "string wire"
  sq_due_day :: "int wire"
  sq_start_date :: "string wire"
  sq_end_date :: "string wire"
  sq_schedules :: "schedule_request list wire"

record view_request =
  vq_name :: string
  vq_description :: "string wire"
  vq_stream_ids :: "int list option"
  vq_is_default :: "bool option"

record set_cash_request =
  cq_amount :: f64
  cq_as_of_date :: "string option"

datatype api_result = ApiOk | ApiCreated int | ApiForecast forecast_response | ApiError nat string string | ApiPanic string

type_synonym api_handler = "fin_db \<Rightarrow> api_result \<times> fin_db"

definition api_storage_error :: api_result where
  "api_storage_error = ApiError 503 ''service_unavailable'' ''Finance data is temporarily unavailable. Try again.''"

definition finance_error_response :: "fin_error \<Rightarrow> api_result" where
  "finance_error_response e = (case e of Validation m \<Rightarrow> ApiError 422 ''validation_error'' m
     | NotFound m \<Rightarrow> ApiError 404 ''not_found'' m | Conflict m \<Rightarrow> ApiError 409 ''conflict'' m
     | Storage _ \<Rightarrow> api_storage_error | Panicked m \<Rightarrow> ApiPanic m)"

text \<open>An error of any kind where the handler only expects storage to fail.\<close>

definition storage_problem :: "fin_error \<Rightarrow> api_result" where
  "storage_problem e = (case e of Panicked m \<Rightarrow> ApiPanic m | _ \<Rightarrow> api_storage_error)"

definition respond :: "('a \<Rightarrow> api_result) \<Rightarrow> 'a fin_op \<Rightarrow> api_handler" where
  "respond f m db = (case m db of (Inr a, db') \<Rightarrow> (f a, db') | (Inl e, db') \<Rightarrow> (finance_error_response e, db'))"

definition saved_response :: "int option \<Rightarrow> int \<Rightarrow> api_result" where
  "saved_response i saved = (if i = None then ApiCreated saved else ApiOk)"

subsection \<open>Dates and enumerations of a request\<close>

definition forecast_days :: int where "forecast_days = 180"

definition projection_days :: int where "projection_days = 365"

text \<open>A text that does not parse is the client's fault in a request, and storage's in a row.\<close>

definition or_validation :: "string \<Rightarrow> fault + 'a \<Rightarrow> fin_error + 'a" where
  "or_validation m r = (case r of Inr a \<Rightarrow> Inr a | Inl (Err _) \<Rightarrow> Inl (Validation m) | Inl (Panic p) \<Rightarrow> Inl (Panicked p))"

definition parse_query_date :: "ext \<Rightarrow> string \<Rightarrow> string option \<Rightarrow> iso_date \<Rightarrow> api_result + iso_date" where
  "parse_query_date X field v fallback = (case v of None \<Rightarrow> Inr fallback
     | Some t \<Rightarrow> (case iso_from_str (dates X) t of Inr d \<Rightarrow> Inr d
         | Inl (Err _) \<Rightarrow> Inl (ApiError 400 ''bad_request'' (''Invalid '' @ [CHR 0x27] @ field @ [CHR 0x27] @ '' date format. Use YYYY-MM-DD.''))
         | Inl (Panic p) \<Rightarrow> Inl (ApiPanic p)))"

definition parse_mutation_date :: "ext \<Rightarrow> string \<Rightarrow> string \<Rightarrow> api_result + iso_date" where
  "parse_mutation_date X label t = (case iso_from_str (dates X) t of Inr d \<Rightarrow> Inr d
     | Inl (Err _) \<Rightarrow> Inl (ApiError 422 ''validation_error'' (''Invalid '' @ label @ '' format. Use YYYY-MM-DD.''))
     | Inl (Panic p) \<Rightarrow> Inl (ApiPanic p))"

definition parse_schedule_date :: "ext \<Rightarrow> string \<Rightarrow> string \<Rightarrow> fin_error + iso_date" where
  "parse_schedule_date X label t =
     or_validation (''Invalid schedule '' @ label @ '' date. Use YYYY-MM-DD.'') (iso_from_str (dates X) (trim t))"

definition persisted_date :: "ext \<Rightarrow> string \<Rightarrow> string \<Rightarrow> fin_error + iso_date" where
  "persisted_date X label t = decode_ctx (''decode '' @ label) (iso_from_str (dates X) t)"

definition parse_frequency :: "string \<Rightarrow> fin_error + frequency" where
  "parse_frequency t = or_validation
     ''Schedule frequency must be monthly, semimonthly, biweekly, weekly, annual, or one_time.'' (frequency_from_str (trim t))"

definition persisted_frequency :: "string \<Rightarrow> fin_error + frequency" where
  "persisted_frequency t = decode_ctx ''decode persisted schedule frequency'' (frequency_from_str t)"

definition parse_day_of_month :: "int \<Rightarrow> fin_error + nat" where
  "parse_day_of_month v = (if \<not> (1 \<le> v \<and> v \<le> 31) then Inl (Validation ''Due day must be between 1 and 31.'') else Inr (nat v))"

definition persisted_day :: "int \<Rightarrow> fin_error + nat" where
  "persisted_day v = (if 0 \<le> v \<and> v \<le> 255 then Inr (nat v) else Inl (Storage ''decode persisted schedule day''))"

text \<open>\<open>transpose\<close>: an optional value through a fallible function.\<close>

definition opt_res :: "('a \<Rightarrow> 'e + 'b) \<Rightarrow> 'a option \<Rightarrow> 'e + 'b option" where
  "opt_res f x = (case x of None \<Rightarrow> Inr None | Some a \<Rightarrow> rbnd (f a) (\<lambda>b. Inr (Some b)))"

fun map_res :: "('a \<Rightarrow> 'e + 'b) \<Rightarrow> 'a list \<Rightarrow> 'e + 'b list" where
  "map_res f [] = Inr []"
| "map_res f (x # xs) = rbnd (f x) (\<lambda>y. rbnd (map_res f xs) (\<lambda>ys. Inr (y # ys)))"

subsection \<open>Schedules of a request\<close>

definition schedule_from_request :: "ext \<Rightarrow> schedule_request \<Rightarrow> fin_error + schedule_draft" where
  "schedule_from_request X r =
     rbnd (parse_frequency (zq_frequency r)) (\<lambda>frequency.
     rbnd (opt_res parse_day_of_month (zq_day_of_month r)) (\<lambda>day.
     rbnd (parse_schedule_date X ''start'' (zq_start_date r)) (\<lambda>start.
     rbnd (opt_res (parse_schedule_date X ''end'') (zq_end_date r)) (\<lambda>end_date.
       Inr \<lparr>sd_id = zq_id r, sd_account_id = zq_account_id r, sd_label = zq_label r, sd_amount = zq_amount r,
         sd_frequency = frequency, sd_day_of_month = day, sd_start_date = start, sd_end_date = end_date,
         sd_metadata = zq_metadata r\<rparr>))))"

definition schedule_from_view :: "ext \<Rightarrow> schedule_view \<Rightarrow> fin_error + schedule_draft" where
  "schedule_from_view X z =
     rbnd (persisted_frequency (zv_frequency z)) (\<lambda>frequency.
     rbnd (opt_res persisted_day (zv_day_of_month z)) (\<lambda>day.
     rbnd (persisted_date X ''schedule start'' (zv_start_date z)) (\<lambda>start.
     rbnd (opt_res (persisted_date X ''schedule end'') (zv_end_date z)) (\<lambda>end_date.
       Inr \<lparr>sd_id = Some (zv_id z), sd_account_id = zv_account_id z, sd_label = zv_label z, sd_amount = zv_amount z,
         sd_frequency = frequency, sd_day_of_month = day, sd_start_date = start, sd_end_date = end_date,
         sd_metadata = zv_metadata z\<rparr>))))"

text \<open>The flattened form edits the first schedule only.\<close>

definition has_flattened_update :: "stream_request \<Rightarrow> bool" where
  "has_flattened_update q \<longleftrightarrow> sq_schedule_id q \<noteq> None \<or> sq_schedule_amount q \<noteq> Missing \<or> sq_schedule_frequency q \<noteq> Missing \<or>
     sq_due_day q \<noteq> Missing \<or> sq_start_date q \<noteq> Missing \<or> sq_end_date q \<noteq> Missing"

definition flattened_frequency :: "string wire \<Rightarrow> schedule_view option \<Rightarrow> fin_error + frequency option" where
  "flattened_frequency w first = (case w of Null \<Rightarrow> Inr None
     | Value t \<Rightarrow> if trim t = [] then Inr None else rbnd (parse_frequency t) (\<lambda>f. Inr (Some f))
     | Missing \<Rightarrow> opt_res (\<lambda>z. persisted_frequency (zv_frequency z)) first)"

definition flattened_start :: "ext \<Rightarrow> string wire \<Rightarrow> schedule_view option \<Rightarrow> iso_date \<Rightarrow> fin_error + iso_date" where
  "flattened_start X w first today = (case w of
       Missing \<Rightarrow> (case first of None \<Rightarrow> Inr today | Some z \<Rightarrow> persisted_date X ''schedule start'' (zv_start_date z))
     | Null \<Rightarrow> Inr today | Value t \<Rightarrow> parse_schedule_date X ''start'' t)"

definition flattened_end :: "ext \<Rightarrow> string wire \<Rightarrow> schedule_view option \<Rightarrow> fin_error + iso_date option" where
  "flattened_end X w first = (case w of
       Missing \<Rightarrow> opt_res (persisted_date X ''schedule end'') (Option.bind first zv_end_date)
     | Null \<Rightarrow> Inr None
     | Value t \<Rightarrow> if trim t = [] then Inr None else rbnd (parse_schedule_date X ''end'' t) (\<lambda>d. Inr (Some d)))"

definition flattened_schedule :: "ext \<Rightarrow> stream_request \<Rightarrow> schedule_view option \<Rightarrow> int option \<Rightarrow> iso_date \<Rightarrow> frequency \<Rightarrow>
    fin_error + schedule_draft" where
  "flattened_schedule X q first default_account_id today frequency =
     (let amount = (case sq_schedule_amount q of Missing \<Rightarrow> (case first of Some z \<Rightarrow> zv_amount z | None \<Rightarrow> f64_zero)
                      | Null \<Rightarrow> f64_zero | Value v \<Rightarrow> v);
          day = wire_or (sq_due_day q) (Option.bind first zv_day_of_month)
      in rbnd (opt_res parse_day_of_month (if frequency = Monthly \<and> day = None then Some 1 else day)) (\<lambda>day.
         rbnd (flattened_start X (sq_start_date q) first today) (\<lambda>start.
         rbnd (flattened_end X (sq_end_date q) first) (\<lambda>end_date.
           Inr \<lparr>sd_id = (case sq_schedule_id q of Some i \<Rightarrow> Some i | None \<Rightarrow> map_option zv_id first),
             sd_account_id = (if sq_default_account_id q \<noteq> Missing then default_account_id
                else coalesce (Option.bind first zv_account_id) default_account_id),
             sd_label = coalesce (Option.bind first zv_label) (Some (trim (sq_name q) @ '' due'')),
             sd_amount = amount, sd_frequency = frequency, sd_day_of_month = day, sd_start_date = start,
             sd_end_date = end_date, sd_metadata = Option.bind first zv_metadata\<rparr>))))"

definition flattened_schedules :: "ext \<Rightarrow> stream_request \<Rightarrow> schedule_view list \<Rightarrow> int option \<Rightarrow> iso_date \<Rightarrow>
    fin_error + schedule_draft list" where
  "flattened_schedules X q existing default_account_id today =
     (if \<not> has_flattened_update q then map_res (schedule_from_view X) existing
      else rbnd (flattened_frequency (sq_schedule_frequency q) (first_opt existing)) (\<lambda>frequency.
        rbnd (case frequency of None \<Rightarrow> Inr []
              | Some f \<Rightarrow> rbnd (flattened_schedule X q (first_opt existing) default_account_id today f) (\<lambda>s. Inr [s])) (\<lambda>drafts.
        rbnd (map_res (schedule_from_view X) (drop 1 existing)) (\<lambda>others. Inr (drafts @ others)))))"

subsection \<open>Streams\<close>

definition stream_type_for_kind :: "string \<Rightarrow> fin_error + string" where
  "stream_type_for_kind kind =
     (if kind = ''manual_income'' then Inr ''manual_income'' else if kind = ''manual_expense'' then Inr ''manual_expense''
      else if kind = ''credit_card'' then Inr ''credit_card_due'' else if kind = ''tmo_trust'' then Inr ''mortgage_portfolio''
      else if kind = ''manual'' then Inr ''manual''
      else Inl (Validation ''Stream kind must be manual, manual_income, manual_expense, credit_card, or tmo_trust.''))"

definition requested_kind :: "stream_request \<Rightarrow> stream_config_view option \<Rightarrow> string" where
  "requested_kind q existing = (case sq_kind q of Some k \<Rightarrow> trim k
     | None \<Rightarrow> (case existing of Some s \<Rightarrow> cv_kind s | None \<Rightarrow> ''manual''))"

text \<open>An unchanged kind keeps the type and direction of an imported stream.\<close>

definition type_and_direction :: "string \<Rightarrow> stream_config_view option \<Rightarrow> fin_error + string \<times> direction" where
  "type_and_direction kind existing = (case existing of
       Some s \<Rightarrow> if cv_kind s = kind then rbnd (fin_res (direction_from_str (cv_direction s))) (\<lambda>d. Inr (cv_type s, d))
         else rbnd (stream_type_for_kind kind) (\<lambda>t. Inr (t, direction_for_kind kind))
     | None \<Rightarrow> rbnd (stream_type_for_kind kind) (\<lambda>t. Inr (t, direction_for_kind kind)))"

definition requested_certainty :: "stream_request \<Rightarrow> stream_config_view option \<Rightarrow> string \<Rightarrow> fin_error + certainty" where
  "requested_certainty q existing kind =
     (case coalesce (sq_certainty q) (map_option cv_certainty existing) of None \<Rightarrow> Inr (certainty_for_kind kind)
      | Some t \<Rightarrow> (case certainty_from_str (trim t) of Inr c \<Rightarrow> Inr c
          | Inl _ \<Rightarrow> Inl (Validation ''Amount certainty must be 'known' or 'estimated'.'')))"

definition build_stream_draft :: "ext \<Rightarrow> int option \<Rightarrow> stream_request \<Rightarrow> stream_config_view option \<Rightarrow> iso_date \<Rightarrow>
    fin_error + stream_draft" where
  "build_stream_draft X i q existing today =
     (let kind = requested_kind q existing;
          account = wire_or (sq_default_account_id q) (Option.bind existing cv_default_account_id);
          prior = (case existing of Some s \<Rightarrow> cv_schedules s | None \<Rightarrow> [])
      in rbnd (type_and_direction kind existing) (\<lambda>(stream_type, direction).
         rbnd (requested_certainty q existing kind) (\<lambda>certainty.
         rbnd (case sq_schedules q of Value zs \<Rightarrow> map_res (schedule_from_request X) zs | Null \<Rightarrow> Inr []
               | Missing \<Rightarrow> flattened_schedules X q prior account today) (\<lambda>schedules.
           Inr \<lparr>td_id = i, td_name = sq_name q, td_type = stream_type, td_kind = kind, td_direction = direction,
             td_certainty = certainty, td_description = wire_or (sq_description q) (Option.bind existing cv_description),
             td_default_account_id = account, td_configuration = Option.bind existing cv_configuration,
             td_parent_id = Option.bind existing cv_parent_id, td_schedules = schedules\<rparr>))))"

definition projection_window :: "ext \<Rightarrow> iso_date \<Rightarrow> fault + window" where
  "projection_window X today = rbnd (iso_add_days (dates X) today projection_days) (\<lambda>through. window_new today through)"

definition api_save_stream :: "ext \<Rightarrow> iso_date \<Rightarrow> int option \<Rightarrow> stream_request \<Rightarrow> api_handler" where
  "api_save_stream X today i q db =
     (case (if i = None then (Inr [], db) else list_streams db) of
        (Inl e, db') \<Rightarrow> (storage_problem e, db')
      | (Inr ss, db') \<Rightarrow>
          (let existing = Option.bind i (\<lambda>j. find (\<lambda>s. cv_id s = j) ss) in
           if i \<noteq> None \<and> existing = None then (ApiError 404 ''not_found'' ''Stream not found.'', db')
           else (case build_stream_draft X i q existing today of
               Inl e \<Rightarrow> (finance_error_response e, db')
             | Inr d \<Rightarrow> (case projection_window X today of
                   Inl e \<Rightarrow> (storage_problem (from_fault e), db')
                 | Inr w \<Rightarrow> respond (saved_response i) (save_stream X d w) db'))))"

definition api_delete_stream :: "ext \<Rightarrow> int \<Rightarrow> api_handler" where
  "api_delete_stream X i = respond (\<lambda>_. ApiOk) (delete_stream X i)"

subsection \<open>Accounts and cash\<close>

definition account_draft_of :: "iso_date \<Rightarrow> int option \<Rightarrow> account_request \<Rightarrow> account_view option \<Rightarrow> iso_date option \<Rightarrow> account_draft" where
  "account_draft_of today i q existing old_date =
     (let old_balance = Option.bind existing av_balance;
          (balance, as_of) = (case aq_balance q of Missing \<Rightarrow> (old_balance, old_date) | Null \<Rightarrow> (None, None)
             | Value b \<Rightarrow> if (case old_balance of Some o' \<Rightarrow> f64_eq o' b | None \<Rightarrow> False) then (Some b, old_date) else (Some b, Some today))
      in \<lparr>ad_id = i, ad_name = aq_name q,
          ad_kind = (case aq_kind q of Some k \<Rightarrow> k | None \<Rightarrow> (case existing of Some a \<Rightarrow> av_kind a | None \<Rightarrow> ''cash'')),
          ad_balance = balance, ad_as_of = as_of,
          ad_is_primary = (case aq_is_primary q of Some p \<Rightarrow> p | None \<Rightarrow> (case existing of Some a \<Rightarrow> av_is_primary a | None \<Rightarrow> False)),
          ad_notes = wire_or (aq_notes q) (Option.bind existing av_notes)\<rparr>)"

definition api_save_account :: "ext \<Rightarrow> iso_date \<Rightarrow> int option \<Rightarrow> account_request \<Rightarrow> api_handler" where
  "api_save_account X today i q db =
     (case (if i = None then (Inr [], db) else list_accounts db) of
        (Inl e, db') \<Rightarrow> (storage_problem e, db')
      | (Inr as, db') \<Rightarrow>
          (let existing = Option.bind i (\<lambda>j. find (\<lambda>a. av_id a = j) as) in
           if i \<noteq> None \<and> existing = None then (ApiError 404 ''not_found'' ''Account not found.'', db')
           else (case opt_res (persisted_date X ''account balance as-of date'') (Option.bind existing av_as_of) of
               Inl e \<Rightarrow> (finance_error_response e, db')
             | Inr old_date \<Rightarrow> respond (saved_response i) (save_account X (account_draft_of today i q existing old_date)) db')))"

definition api_set_cash_balance :: "ext \<Rightarrow> iso_date \<Rightarrow> set_cash_request \<Rightarrow> api_handler" where
  "api_set_cash_balance X today q db =
     (case (case cq_as_of_date q of Some t \<Rightarrow> parse_mutation_date X ''cash as-of date'' t | None \<Rightarrow> Inr today) of
        Inl r \<Rightarrow> (r, db)
      | Inr as_of \<Rightarrow> respond (\<lambda>_. ApiOk) (set_starting_balance X (cq_amount q) as_of ''manual'' None None) db)"

subsection \<open>Events\<close>

definition api_create_event :: "ext \<Rightarrow> create_event_request \<Rightarrow> api_handler" where
  "api_create_event X q db = (case parse_mutation_date X ''date'' (ce_expected_date q) of
       Inl r \<Rightarrow> (r, db)
     | Inr d \<Rightarrow> respond ApiCreated (create_manual_event X \<lparr>ed_stream_id = ce_stream_id q, ed_account_id = ce_account_id q,
         ed_label = ce_label q, ed_expected_date = d, ed_amount = ce_amount q, ed_status = Projected, ed_metadata = None,
         ed_notes = None\<rparr>) db)"

definition api_update_event :: "ext \<Rightarrow> int \<Rightarrow> update_event_request \<Rightarrow> api_handler" where
  "api_update_event X i q db =
     (case (case ue_expected_date q of Missing \<Rightarrow> Inr Keep | Null \<Rightarrow> Inr Clear
            | Value t \<Rightarrow> rbnd (parse_mutation_date X ''date'' t) (\<lambda>d. Inr (SetTo d))) of
        Inl r \<Rightarrow> (r, db)
      | Inr date \<Rightarrow> respond (\<lambda>_. ApiOk) (patch_event X i \<lparr>ep_label = wire_patch (ue_label q), ep_expected_date = date,
          ep_amount = wire_patch (ue_amount q), ep_account_id = wire_patch (ue_account_id q), ep_notes = wire_patch (ue_notes q)\<rparr>) db)"

definition api_delete_event :: "ext \<Rightarrow> int \<Rightarrow> api_handler" where
  "api_delete_event X i = respond (\<lambda>_. ApiOk) (remove_event X i)"

definition api_reconcile_event :: "ext \<Rightarrow> int \<Rightarrow> reconcile_request \<Rightarrow> api_handler" where
  "api_reconcile_event X i q db = (case parse_mutation_date X ''actual date'' (rq_actual_date q) of
       Inl r \<Rightarrow> (r, db) | Inr d \<Rightarrow> respond (\<lambda>_. ApiOk) (reconcile_event X i d (rq_amount q)) db)"

subsection \<open>Views\<close>

definition view_draft_of :: "int option \<Rightarrow> view_request \<Rightarrow> view_editor option \<Rightarrow> view_draft" where
  "view_draft_of i q existing =
     \<lparr>vd_id = i, vd_name = vq_name q,
      vd_description = wire_or (vq_description q) (Option.bind existing (\<lambda>v. vs_description (ve_view v))),
      vd_is_default = (case vq_is_default q of Some b \<Rightarrow> b | None \<Rightarrow> (case existing of Some v \<Rightarrow> vs_is_default (ve_view v) | None \<Rightarrow> False)),
      vd_stream_ids = (case vq_stream_ids q of Some is \<Rightarrow> is
         | None \<Rightarrow> (case existing of Some v \<Rightarrow> map fst (filter (\<lambda>(_, _, included). included) (ve_members v)) | None \<Rightarrow> []))\<rparr>"

definition api_save_view :: "ext \<Rightarrow> int option \<Rightarrow> view_request \<Rightarrow> api_handler" where
  "api_save_view X i q db =
     (case (if i = None then (Inr [], db) else list_view_editors db) of
        (Inl e, db') \<Rightarrow> (storage_problem e, db')
      | (Inr vs, db') \<Rightarrow>
          (let existing = Option.bind i (\<lambda>j. find (\<lambda>v. vs_id (ve_view v) = j) vs) in
           if i \<noteq> None \<and> existing = None then (ApiError 404 ''not_found'' ''View not found.'', db')
           else respond (saved_response i) (save_view X (view_draft_of i q existing)) db'))"

subsection \<open>The forecast\<close>

definition find_for_forecast :: "'a list fin_op \<Rightarrow> ('a \<Rightarrow> int) \<Rightarrow> string \<Rightarrow> string \<Rightarrow> int option \<Rightarrow> fin_db \<Rightarrow> api_result option" where
  "find_for_forecast listing key error_code message wanted db = (case wanted of None \<Rightarrow> None
     | Some i \<Rightarrow> (case fst (listing db) of Inl e \<Rightarrow> Some (storage_problem e)
         | Inr rows \<Rightarrow> if list_ex (\<lambda>r. key r = i) rows then None else Some (ApiError 404 error_code message)))"

definition api_get_forecast :: "ext \<Rightarrow> iso_date \<Rightarrow> forecast_params \<Rightarrow> api_handler" where
  "api_get_forecast X today q db =
     (case parse_query_date X ''from'' (fp_from q) today of Inl r \<Rightarrow> (r, db)
      | Inr from \<Rightarrow> (case iso_add_days (dates X) today forecast_days of Inl e \<Rightarrow> (storage_problem (from_fault e), db)
      | Inr default_through \<Rightarrow> (case parse_query_date X ''through'' (fp_through q) default_through of Inl r \<Rightarrow> (r, db)
      | Inr through \<Rightarrow>
         if through < from then (ApiError 400 ''bad_request'' ([CHR 0x27] @ ''through'' @ [CHR 0x27] @ '' must be on or after '' @ [CHR 0x27] @ ''from'' @ [CHR 0x27] @ ''.''), db)
         else (case find_for_forecast list_streams cv_id ''stream_not_found'' ''Stream does not exist.'' (fp_stream_id q) db of
             Some r \<Rightarrow> (r, db)
           | None \<Rightarrow> (case find_for_forecast list_view_summaries vs_id ''view_not_found'' ''View does not exist.'' (fp_view_id q) db of
               Some r \<Rightarrow> (r, db)
             | None \<Rightarrow> (case compute_forecast X \<lparr>fq_from = from, fq_through = through, fq_today = today,
                   fq_stream_id = fp_stream_id q, fq_view_id = fp_view_id q\<rparr> db of
                 (Inr (Some f), db') \<Rightarrow> (ApiForecast f, db')
               | (Inr None, db') \<Rightarrow> (ApiError 422 ''no_starting_balance'' ''Set your current cash balance first.'', db')
               | (Inl e, db') \<Rightarrow> (storage_problem e, db')))))))"

definition default_canvas_stream_id :: "(int \<times> string \<times> string) list \<Rightarrow> int" where
  "default_canvas_stream_id ss = (case find (\<lambda>(_, name, kind). name = ''Trust Deeds'' \<or> kind = ''tmo_trust'') ss of
     Some (i, _) \<Rightarrow> i | None \<Rightarrow> (case ss of [] \<Rightarrow> 0 | (i, _) # _ \<Rightarrow> i))"

end
