(* ===== verification/Finance_Patch.thy ===== *)
theory Finance_Patch
  imports Finance_Http
begin

text \<open>
  Partial updates: what a PATCH request leaves out stays as it is stored, through the listing, the draft and the
  repository's write.
\<close>

lemma map_res_set: "map_res f xs = Inr ys \<Longrightarrow> x \<in> set xs \<Longrightarrow> \<exists>y \<in> set ys. f x = Inr y"
  by (induction xs arbitrary: ys) (auto simp: rbnd_eq_Inr)

lemma opt_res_Inr: "opt_res f x = Inr y \<longleftrightarrow> (case x of None \<Rightarrow> y = None | Some a \<Rightarrow> \<exists>b. f a = Inr b \<and> y = Some b)"
  by (auto simp: opt_res_def rbnd_eq_Inr split: option.splits)

lemma persisted_date_text: "time_date (dates X) \<Longrightarrow> persisted_date X l t = Inr d \<Longrightarrow> iso_to_string (dates X) d = t"
  using time_date.from_str_iff [of "dates X" t d] by (auto simp: persisted_date_def decode_ctx_def split: sum.splits fault.splits)

lemma persisted_frequency_text: "persisted_frequency t = Inr f \<Longrightarrow> frequency_str f = t"
  by (auto simp: persisted_frequency_def decode_ctx_def frequency_from_str_def frequency_str_def split: if_splits)

text \<open>A schedule that is saved as it was listed: only its label is cleaned, and its stamps are new.\<close>

definition same_schedule :: "schedule_row \<Rightarrow> schedule_row \<Rightarrow> bool" where
  "same_schedule r r' \<longleftrightarrow> r' = r\<lparr>sc_label := clean_optional (sc_label r), sc_is_active := True, sc_updated_at := sc_updated_at r'\<rparr>"

lemma listed_schedule_stored:
  assumes "time_date (dates X)" "schedule_from_view X (schedule_from_row r) = Inr s"
    and "stored_schedule X (sc_stream_id r) db i s"
  shows "\<exists>r' \<in> set (schedules db). same_schedule r r'"
proof -
  from assms(2) obtain f day start fin where p: "persisted_frequency (sc_frequency r) = Inr f"
    "opt_res persisted_day (sc_day_of_month r) = Inr day" "persisted_date X ''schedule start'' (sc_start_date r) = Inr start"
    "opt_res (persisted_date X ''schedule end'') (sc_end_date r) = Inr fin"
    and s: "s = \<lparr>sd_id = Some (sc_id r), sd_account_id = sc_account_id r, sd_label = sc_label r, sd_amount = sc_amount r,
         sd_frequency = f, sd_day_of_month = day, sd_start_date = start, sd_end_date = fin, sd_metadata = sc_metadata r\<rparr>"
    by (auto simp: schedule_from_view_def schedule_from_row_def rbnd_eq_Inr)
  have "map_option int day = sc_day_of_month r"
    using p(2) by (auto simp: opt_res_Inr persisted_day_def split: option.splits if_splits)
  moreover have "map_option (iso_to_string (dates X)) fin = sc_end_date r"
    using p(4) persisted_date_text [OF assms(1)] by (auto simp: opt_res_Inr split: option.splits)
  moreover have "frequency_str f = sc_frequency r" by (rule persisted_frequency_text [OF p(1)])
  moreover have "iso_to_string (dates X) start = sc_start_date r" by (rule persisted_date_text [OF assms(1) p(3)])
  ultimately show ?thesis using assms(3) unfolding stored_schedule_def s same_schedule_def
    by (auto intro!: schedule_row.equality elim!: bexI [rotated])
qed

text \<open>What the listing shows of a stream: its active schedules, by id.\<close>

lemma listed_stream:
  assumes "list_streams db = (Inr ss, db')" "find (\<lambda>s. cv_id s = i) ss = Some s"
  shows "db' = db" "cv_schedules s = filter (\<lambda>z. zv_stream_id z = i) (map schedule_from_row
    (sort_key (\<lambda>r. (sc_stream_id r, sc_id r)) (filter sc_is_active (schedules db))))"
  using assms by (auto simp: list_streams_def gets_def Let_def find_Some_iff stream_config_def)

lemma listed_not_first:
  assumes "r \<in> set (schedules db)" "sc_stream_id r = i" "sc_is_active r"
    and "q \<in> set (schedules db)" "sc_stream_id q = i" "sc_is_active q" "sc_id q < sc_id r"
  shows "schedule_from_row r \<in> set (drop 1 (filter (\<lambda>z. zv_stream_id z = i) (map schedule_from_row
    (sort_key (\<lambda>r. (sc_stream_id r, sc_id r)) (filter sc_is_active (schedules db))))))"
proof -
  let ?k = "\<lambda>r. (sc_stream_id r, sc_id r)"
  let ?own = "filter (\<lambda>r. sc_stream_id r = i) (sort_key ?k (filter sc_is_active (schedules db)))"
  have s: "sorted (map ?k ?own)" by (rule sorted_filter) simp
  have r: "r \<in> set ?own" and q: "q \<in> set ?own" using assms by auto
  have "r \<in> set (drop 1 ?own)"
  proof (cases ?own)
    case (Cons a rest)
    then have "a \<noteq> r" using s q assms(2,5,7) by auto
    with r Cons show ?thesis by auto
  qed (use r in simp)
  moreover have "filter (\<lambda>z. zv_stream_id z = i) (map schedule_from_row xs)
      = map schedule_from_row (filter (\<lambda>r. sc_stream_id r = i) xs)" for xs
    by (induction xs) (auto simp: schedule_from_row_def)
  ultimately show ?thesis by (simp add: drop_map)
qed

text \<open>A request that does not list schedules drafts the listed ones back, the flattened one aside.\<close>

lemma draft_keeps:
  assumes "build_stream_draft X (Some i) q (Some s) today = Inr d" "sq_schedules q = Missing"
    and "z \<in> set (if has_flattened_update q then drop 1 (cv_schedules s) else cv_schedules s)"
  shows "td_id d = Some i" "\<exists>y \<in> set (td_schedules d). schedule_from_view X z = Inr y"
proof -
  from assms(1,2) obtain acc zs where zs: "flattened_schedules X q (cv_schedules s) acc today = Inr zs"
    and d: "td_id d = Some i" "td_schedules d = zs"
    by (auto simp: build_stream_draft_def Let_def rbnd_eq_Inr)
  show "td_id d = Some i" by (rule d(1))
  show "\<exists>y \<in> set (td_schedules d). schedule_from_view X z = Inr y"
    using zs assms(3) map_res_set [of "schedule_from_view X"] unfolding d(2) flattened_schedules_def
    by (auto simp: rbnd_eq_Inr split: if_splits) blast+
qed

lemma save_stream_id: "save_stream X d w db = (Inr j, db') \<Longrightarrow> td_id d = Some i \<Longrightarrow> j = i"
  by (auto simp: save_stream_def op_Inr write_stream_def)

lemma not_ok [simp]: "storage_problem e \<noteq> ApiOk" "finance_error_response e \<noteq> ApiOk"
  by (simp_all add: storage_problem_def finance_error_response_def api_storage_error_def split: fin_error.splits)

lemma api_save_stream_Ok:
  assumes "api_save_stream X today (Some i) q db = (ApiOk, db')"
  obtains ss s d w where "list_streams db = (Inr ss, db)" "find (\<lambda>s. cv_id s = i) ss = Some s"
    "build_stream_draft X (Some i) q (Some s) today = Inr d" "save_stream X d w db = (Inr i, db')"
proof -
  obtain ss where ss: "list_streams db = (Inr ss, db)" by (simp add: list_streams_def gets_def)
  obtain s where s: "find (\<lambda>s. cv_id s = i) ss = Some s"
    using assms by (cases "find (\<lambda>s. cv_id s = i) ss") (auto simp: api_save_stream_def ss Let_def)
  have "\<exists>d w j. build_stream_draft X (Some i) q (Some s) today = Inr d \<and> save_stream X d w db = (Inr j, db')"
    using assms
    by (auto simp: api_save_stream_def ss s Let_def respond_def split: sum.splits prod.splits)
  then obtain d w j where d: "build_stream_draft X (Some i) q (Some s) today = Inr d" "save_stream X d w db = (Inr j, db')"
    by blast
  have "td_id d = Some i" using d(1) by (auto simp: build_stream_draft_def Let_def rbnd_eq_Inr)
  with d save_stream_id have "save_stream X d w db = (Inr i, db')" by blast
  with ss s d(1) show thesis by (rule that)
qed

text \<open>C18: A PATCH of a stream that does not list its schedules keeps them: each active schedule of the stream that is
  not its first, and the first one too when the request has none of the flattened schedule fields, is stored afterwards
  under its own id, active, with the account, amount, frequency, day, dates and metadata it had, its label trimmed.\<close>

theorem stream_patch_keeps_schedules:
  assumes "time_date (dates X)" "api_save_stream X today (Some i) q db = (ApiOk, db')" "sq_schedules q = Missing"
    and "r \<in> set (schedules db)" "sc_stream_id r = i" "sc_is_active r"
    and "has_flattened_update q \<Longrightarrow> \<exists>r' \<in> set (schedules db). sc_stream_id r' = i \<and> sc_is_active r' \<and> sc_id r' < sc_id r"
  shows "\<exists>r' \<in> set (schedules db'). same_schedule r r'"
proof -
  obtain ss s d w where l: "list_streams db = (Inr ss, db)" "find (\<lambda>s. cv_id s = i) ss = Some s"
    and d: "build_stream_draft X (Some i) q (Some s) today = Inr d" and w: "save_stream X d w db = (Inr i, db')"
    using assms(2) by (rule api_save_stream_Ok)
  have "schedule_from_row r \<in> set (if has_flattened_update q then drop 1 (cv_schedules s) else cv_schedules s)"
    using assms(4-7) listed_not_first [OF assms(4-6)] unfolding listed_stream(2) [OF l]
    by (auto simp: schedule_from_row_def)
  from draft_keeps(2) [OF d assms(3) this] obtain y where
    y: "y \<in> set (td_schedules d)" "schedule_from_view X (schedule_from_row r) = Inr y" by blast
  obtain ids where "list_all2 (stored_schedule X i db') ids (rev (td_schedules d))"
    using saved_schedules [OF w] by blast
  with y(1) have "\<exists>j. stored_schedule X i db' j y"
    by (metis in_set_conv_nth list_all2_conv_all_nth set_rev)
  then obtain j where "stored_schedule X i db' j y" ..
  with assms(1,5) y(2) show ?thesis by (auto intro: listed_schedule_stored)
qed

text \<open>The sample stream renamed to what it is called, on a day whose window ends before its schedule starts.\<close>

definition rename_request :: stream_request where
  "rename_request = \<lparr>sq_name = ''Rent'', sq_kind = None, sq_certainty = None, sq_description = Missing,
     sq_default_account_id = Missing, sq_schedule_id = None, sq_schedule_amount = Missing,
     sq_schedule_frequency = Missing, sq_due_day = Missing, sq_start_date = Missing, sq_end_date = Missing,
     sq_schedules = Missing\<rparr>"

definition idle :: window where
  "idle = \<lparr>w_from = 739217, w_through = 739582\<rparr>"

lemma idle_window: "projection_window sample_ext 739217 = Inr idle"
  by code_simp

lemma idle_texts: "iso_to_string gregorian 739217 = ''2024-11-27''" "iso_to_string gregorian 739582 = ''2025-11-27''"
  by code_simp+

lemma idle_refresh: "refresh_stream_schedule_events_on sample_ext 1 ''Rent'' idle sample_db = (Inr 0, sample_db)"
proof -
  have "frequency_from_str ''monthly'' = Inr Monthly" by code_simp
  then have "plan sample_ext 1 ''Rent'' idle sample_db = Inr []"
    by (simp add: plan_def active_schedules_def sample_db_def rent_schedule_def plan_schedule_def
        schedule_bounds_def schedule_from_row_def sample_ext_def idle_def decode_ctx_def sample_texts)
  moreover have "tombstoned sample_ext 1 idle sample_db = sample_db"
    by (simp add: tombstoned_def untouched_open_def sample_db_def sample_rows idle_def idle_texts sample_ext_def)
  ultimately show ?thesis by (simp add: refresh_plan sample_valid ok_Inr)
qed

lemma sample_listing:
  obtains ss c where "list_streams sample_db = (Inr ss, sample_db)" "find (\<lambda>s. cv_id s = 1) ss = Some c"
    "build_stream_draft sample_ext (Some 1) rename_request (Some c) 739217 = Inr rent_draft"
proof -
  let ?c = "stream_config sample_db [schedule_from_row rent_schedule] rent_stream"
  have l: "list_streams sample_db = (Inr [?c], sample_db)"
    by (simp add: list_streams_def gets_def sample_tables sample_keys Let_def)
  have c: "cv_kind ?c = ''manual_expense''" "cv_type ?c = ''expense''" "cv_direction ?c = ''out''" "cv_certainty ?c = ''known''"
    "cv_description ?c = None" "cv_default_account_id ?c = Some 1" "cv_configuration ?c = None" "cv_parent_id ?c = None"
    "cv_schedules ?c = [schedule_from_row rent_schedule]" "cv_id ?c = 1"
    by (simp_all add: stream_config_def Let_def rent_stream_def schedule_from_row_def rent_schedule_def)
  have f: "frequency_from_str ''monthly'' = Inr Monthly" "direction_from_str ''out'' = Inr Out"
    "certainty_from_str (trim ''known'') = Inr Known" by code_simp+
  have z: "schedule_from_view sample_ext (schedule_from_row rent_schedule) = Inr rent_schedule_draft"
    by (simp add: schedule_from_view_def schedule_from_row_def rent_schedule_def rent_schedule_draft_def
        persisted_frequency_def decode_ctx_def f opt_res_def persisted_day_def persisted_date_def sample_ext_def sample_texts)
  have "build_stream_draft sample_ext (Some 1) rename_request (Some ?c) 739217 = Inr rent_draft"
    by (simp add: build_stream_draft_def Let_def rename_request_def requested_kind_def c type_and_direction_def
        requested_certainty_def coalesce_def f fin_res_def flattened_schedules_def has_flattened_update_def z wire_or_def
        rent_draft_def)
  with l c(10) show thesis by (intro that [of "[?c]" ?c]) simp_all
qed

lemma rename_saved: "api_save_stream sample_ext 739217 (Some 1) rename_request sample_db = (ApiOk, sample_db)"
proof -
  obtain ss c where "list_streams sample_db = (Inr ss, sample_db)" "find (\<lambda>s. cv_id s = 1) ss = Some c"
    "build_stream_draft sample_ext (Some 1) rename_request (Some c) 739217 = Inr rent_draft" by (rule sample_listing)
  then show ?thesis
    by (simp add: api_save_stream_def Let_def idle_window respond_def rent_saves [OF idle_refresh] saved_response_def)
qed

theorem stream_patch_keeps_schedules_witness:
  "\<exists>db'. api_save_stream sample_ext 739217 (Some 1) rename_request sample_db = (ApiOk, db') \<and>
     (\<exists>r' \<in> set (schedules db'). same_schedule rent_schedule r')"
proof -
  have "sq_schedules rename_request = Missing" "\<not> has_flattened_update rename_request"
    by (simp_all add: rename_request_def has_flattened_update_def)
  then show ?thesis using rename_saved
      stream_patch_keeps_schedules [OF sample_dates rename_saved, of rent_schedule]
    by (simp add: sample_tables sample_keys)
qed

subsection \<open>Accounts\<close>

text \<open>The balance of a row and where it came from.\<close>

definition same_balance :: "account_row \<Rightarrow> account_row \<Rightarrow> bool" where
  "same_balance a a' \<longleftrightarrow> ac_id a' = ac_id a \<and> ac_balance a' = ac_balance a \<and> ac_as_of a' = ac_as_of a \<and>
     ac_source_type a' = ac_source_type a \<and> ac_source_ref a' = ac_source_ref a \<and> ac_metadata a' = ac_metadata a \<and>
     ac_balance_updated_at a' = ac_balance_updated_at a"

lemma f64_eq_finite:
  assumes "f64_lt (f64_abs b) f64_1e308"
  shows "f64_eq b b"
proof (cases b)
  case NaN
  with assms show ?thesis by simp
qed simp_all

lemma account_balance_finite:
  assumes "db_valid X db" "a \<in> set (accounts db)" "ac_balance a = Some b"
  shows "f64_lt (f64_abs b) f64_1e308"
proof -
  have "list_all (account_check X) (accounts db)" using assms(1) by (simp add: db_valid_def Let_def)
  with assms(2,3) show ?thesis by (auto simp: list_all_iff account_check_def opt_all_def)
qed

lemma find_only: "x \<in> set xs \<Longrightarrow> P x \<Longrightarrow> (\<And>y. y \<in> set xs \<Longrightarrow> P y \<Longrightarrow> y = x) \<Longrightarrow> find P xs = Some x"
proof (induction xs)
  case (Cons z zs)
  show ?case
  proof (cases "P z")
    case True
    with Cons.prems(3) [of z] show ?thesis by simp
  next
    case False
    then have "x \<in> set zs" using Cons.prems(1,2) by auto
    then have "find P zs = Some x" by (rule Cons.IH) (auto intro: Cons.prems)
    with False show ?thesis by simp
  qed
qed simp

lemma listed_account:
  assumes "db_ids db" "a \<in> set (accounts db)" "ac_is_active a"
  obtains as where "list_accounts db = (Inr as, db)" "find (\<lambda>v. av_id v = ac_id a) as = Some (account_from_row a)"
proof -
  let ?as = "map account_from_row (sort_key (\<lambda>a. (\<not> ac_is_primary a, ascii_lower (ac_name a), ac_id a))
       (filter ac_is_active (accounts db)))"
  have "distinct (map ac_id (accounts db))" using assms(1) by (simp add: db_ids_def ids_ok_def)
  then have u: "b = a" if "b \<in> set (accounts db)" "ac_id b = ac_id a" for b
    using that assms(2) by (auto simp: distinct_map dest: inj_onD)
  have "find (\<lambda>v. av_id v = ac_id a) ?as = Some (account_from_row a)"
  proof (rule find_only)
    fix v
    assume "v \<in> set ?as" "av_id v = ac_id a"
    then obtain b where b: "b \<in> set (accounts db)" "v = account_from_row b" by auto
    moreover from this(2) \<open>av_id v = ac_id a\<close> have "ac_id b = ac_id a" by (simp add: account_from_row_def)
    ultimately show "v = account_from_row a" using u by blast
  qed (use assms(2,3) in \<open>auto simp: account_from_row_def\<close>)
  then show thesis by (intro that [of ?as]) (simp_all add: list_accounts_def gets_def)
qed

lemma updated_row:
  assumes "save_account X d db = (Inr i, db')" "ad_id d = Some (ac_id a)" "a \<in> set (accounts db)" "ac_is_active a"
  shows "account_update X d a \<in> set (accounts db')"
proof -
  have "a \<in> set (demoted_accounts X d (accounts db))" using in_demoted [OF assms(3), of d X] assms(2) by simp
  with assms(2,4) show ?thesis
    unfolding save_account_Inr(6) [OF assms(1)] by (auto simp: saved_accounts_def set_update_rows)
qed

text \<open>C19: A PATCH of an account that leaves the balance out, say to rename it or to make it the primary, keeps the
  balance together with its date, its provider provenance and its stamp.\<close>

theorem account_patch_keeps_balance:
  assumes "time_date (dates X)" "db_valid X db" "db_ids db" "a \<in> set (accounts db)" "ac_is_active a" "ac_balance a \<noteq> None"
    and "api_save_account X today (Some (ac_id a)) q db = (ApiOk, db')" "aq_balance q = Missing"
  shows "\<exists>a' \<in> set (accounts db'). same_balance a a'"
proof -
  obtain as where l: "list_accounts db = (Inr as, db)" "find (\<lambda>v. av_id v = ac_id a) as = Some (account_from_row a)"
    using assms(3-5) by (rule listed_account)
  have f: "av_as_of (account_from_row a) = ac_as_of a" "av_balance (account_from_row a) = ac_balance a"
    by (simp_all add: account_from_row_def)
  obtain old i where o: "opt_res (persisted_date X ''account balance as-of date'') (ac_as_of a) = Inr old"
    and s: "save_account X (account_draft_of today (Some (ac_id a)) q (Some (account_from_row a)) old) db = (Inr i, db')"
    using assms(7) l by (auto simp: api_save_account_def Let_def f respond_def split: sum.splits prod.splits)
  let ?d = "account_draft_of today (Some (ac_id a)) q (Some (account_from_row a)) old"
  have d: "ad_balance ?d = ac_balance a" "ad_as_of ?d = old" "ad_id ?d = Some (ac_id a)"
    by (simp_all add: account_draft_of_def Let_def assms(8) f)
  have t: "map_option (iso_to_string (dates X)) old = ac_as_of a"
    using o persisted_date_text [OF assms(1)] by (auto simp: opt_res_Inr split: option.splits)
  have b: "sql_is_real (ac_balance a) (ac_balance a)"
    using account_balance_finite [OF assms(2,4)] assms(6) by (auto simp: sql_is_real_def intro: f64_eq_finite)
  have "same_balance a (account_update X ?d a)"
    using assms(6) by (auto simp: same_balance_def account_update_def Let_def d t b)
  with updated_row [OF s d(3) assms(4,5)] show ?thesis by blast
qed

text \<open>The sample account renamed.\<close>

definition rename_account :: account_request where
  "rename_account = \<lparr>aq_name = ''Savings'', aq_kind = None, aq_balance = Missing, aq_is_primary = None, aq_notes = Missing\<rparr>"

definition renamed_draft :: account_draft where
  "renamed_draft = \<lparr>ad_id = Some 1, ad_name = ''Savings'', ad_kind = ''cash'', ad_balance = Some (f64_small 100),
     ad_as_of = Some 739617, ad_is_primary = True, ad_notes = None\<rparr>"

lemma renamed_text: "trim ''Savings'' = ''Savings''" "trim ''cash'' = ''cash''" "sql_nonblank ''Savings''" "sql_nonblank ''cash''"
  "validate_optional_balance (ad_balance renamed_draft) (ad_as_of renamed_draft) = Inr ()"
  by code_simp+

lemma renamed_saved: "\<exists>db'. save_account sample_ext renamed_draft sample_db = (Inr 1, db')"
proof -
  have st: "account_draft_storable sample_ext renamed_draft"
    by (simp add: account_draft_storable_def renamed_draft_def renamed_text f64_small_checks storable_def sample_range
        sample_ext_def)
  have "db_valid sample_ext (sample_db\<lparr>accounts := demoted_accounts sample_ext renamed_draft (accounts sample_db)\<rparr>)"
    "db_valid sample_ext (sample_db\<lparr>accounts := saved_accounts sample_ext renamed_draft 1 (accounts sample_db)\<rparr>)"
    by (rule saved_valid [where i = 1, OF sample_valid sample_ids st sample_dates renamed_text(5)]; simp add: renamed_draft_def)+
  moreover have "validate_nonempty ''account name'' (ad_name renamed_draft) = Inr ()"
    "validate_nonempty ''account kind'' (ad_kind renamed_draft) = Inr ()"
    by (simp_all add: validate_nonempty_def renamed_draft_def renamed_text)
  ultimately show ?thesis using renamed_text(5)
    by (simp add: save_account_def op_defs update_accounts_def fin_write_def
        demoted_accounts_def saved_accounts_def renamed_draft_def sample_db_def sample_keys update_rows_def)
qed

lemma rename_account_saved: "\<exists>db'. api_save_account sample_ext 739217 (Some 1) rename_account sample_db = (ApiOk, db')"
proof -
  have a: "cash_account \<in> set (accounts sample_db)" by (simp add: sample_db_def)
  obtain as where l: "list_accounts sample_db = (Inr as, sample_db)"
    "find (\<lambda>v. av_id v = ac_id cash_account) as = Some (account_from_row cash_account)"
    using sample_ids a sample_keys(2) by (rule listed_account)
  have d: "account_draft_of 739217 (Some 1) rename_account (Some (account_from_row cash_account)) (Some 739617) = renamed_draft"
    by (simp add: account_draft_of_def Let_def rename_account_def account_from_row_def cash_account_def wire_or_def renamed_draft_def)
  have o: "opt_res (persisted_date sample_ext ''account balance as-of date'') (av_as_of (account_from_row cash_account)) = Inr (Some 739617)"
    by (simp add: account_from_row_def cash_account_def opt_res_def persisted_date_def decode_ctx_def sample_ext_def sample_texts)
  show ?thesis using renamed_saved l
    by (auto simp: api_save_account_def Let_def sample_keys o d respond_def saved_response_def)
qed

theorem account_patch_keeps_balance_witness:
  "\<exists>db'. api_save_account sample_ext 739217 (Some 1) rename_account sample_db = (ApiOk, db') \<and>
     (\<exists>a' \<in> set (accounts db'). same_balance cash_account a')"
proof -
  obtain db' where s: "api_save_account sample_ext 739217 (Some 1) rename_account sample_db = (ApiOk, db')"
    using rename_account_saved by blast
  then have k: "api_save_account sample_ext 739217 (Some (ac_id cash_account)) rename_account sample_db = (ApiOk, db')"
    by (simp add: sample_keys)
  have a: "cash_account \<in> set (accounts sample_db)" "ac_balance cash_account \<noteq> None" "aq_balance rename_account = Missing"
    by (simp_all add: sample_db_def cash_account_def rename_account_def)
  from account_patch_keeps_balance [OF sample_dates sample_valid sample_ids a(1) sample_keys(2) a(2) k a(3)] s
  show ?thesis by blast
qed

end
