(* ===== verification/Workspaces.thy ===== *)
theory Workspaces
  imports Inbox_Repository
begin

text \<open>
  The workspace side of \<open>src/workspace_inbox/repository.rs\<close>: the tables \<open>intg_loan_workspace\<close> and
  \<open>intg_loan_workspace_photo\<close> of \<open>migrations/0004_workspaces_inbox.sql\<close> with their constraints, and the operations on
  loan workspaces and their photos. \<open>K\<close> says which integration connections exist (the foreign key both tables have),
  \<open>P\<close> is \<open>Url::parse\<close>; SQLite's date functions are those of \<open>mail_ext\<close>. The lemmas show that the constraints hold in
  every state, what a write leaves of the other rows, and that finalizing one upload twice gives one photo.
\<close>

subsection \<open>Rows, tables, constraints\<close>

record workspace_row =
  ws_id :: int
  ws_connection_id :: int
  ws_loan_account :: string
  ws_redfin_url :: "string option"
  ws_zillow_url :: "string option"
  ws_decision_status :: "string option"
  ws_target :: "f64 option"
  ws_actual :: "f64 option"
  ws_notes :: "string option"
  ws_created_at :: string
  ws_updated_at :: string

record workspace_draft =
  wd_connection_id :: int
  wd_loan_account :: string
  wd_redfin_url :: "string option"
  wd_zillow_url :: "string option"
  wd_decision_status :: "string option"
  wd_target :: "f64 option"
  wd_actual :: "f64 option"
  wd_notes :: "string option"

record photo_row =
  ph_id :: int
  ph_connection_id :: int
  ph_loan_account :: string
  ph_provider :: string
  ph_caption :: "string option"
  ph_source_url :: string
  ph_image_url :: string
  ph_sort_order :: int
  ph_is_featured :: bool
  ph_created_at :: string

record photo_draft =
  pd_connection_id :: int
  pd_loan_account :: string
  pd_provider :: string
  pd_caption :: "string option"
  pd_source_url :: string
  pd_image_url :: string
  pd_sort_order :: int

record loan_db =
  workspaces :: "workspace_row list"
  workspace_seq :: int
  photos :: "photo_row list"
  photo_seq :: int

type_synonym 'a loan_op = "(loan_db, inbox_error, 'a) op"

definition no_workspaces :: loan_db where
  "no_workspaces = \<lparr>workspaces = [], workspace_seq = 0, photos = [], photo_seq = 0\<rparr>"

definition decision_statuses :: "string list" where
  "decision_statuses = [''new'', ''reviewing'', ''committed'', ''funded'', ''passed'']"

definition sql_nonempty :: "string \<Rightarrow> bool" where
  "sql_nonempty s = (case s of [] \<Rightarrow> False | c # _ \<Rightarrow> code c \<noteq> 0)"

definition workspace_check :: "mail_ext \<Rightarrow> (int \<Rightarrow> bool) \<Rightarrow> workspace_row \<Rightarrow> bool" where
  "workspace_check N K w \<longleftrightarrow> K (ws_connection_id w) \<and> sql_nonblank (ws_loan_account w) \<and>
     pred_option (\<lambda>s. s \<in> set decision_statuses) (ws_decision_status w) \<and>
     pred_option real_check (ws_target w) \<and> pred_option real_check (ws_actual w) \<and>
     utc_check (mx_datetime N) (ws_created_at w) \<and> utc_check (mx_datetime N) (ws_updated_at w)"

text \<open>A sort order past \<open>i64\<close> is a REAL for SQLite, which the STRICT column refuses.\<close>

definition photo_check :: "mail_ext \<Rightarrow> photo_row \<Rightarrow> bool" where
  "photo_check N p \<longleftrightarrow> sql_nonblank (ph_loan_account p) \<and> sql_nonblank (ph_provider p) \<and> sql_nonempty (ph_source_url p) \<and>
     sql_nonempty (ph_image_url p) \<and> ph_sort_order p < 9223372036854775808 \<and> utc_check (mx_datetime N) (ph_created_at p)"

definition same_photo :: "int \<Rightarrow> string \<Rightarrow> string \<Rightarrow> string \<Rightarrow> photo_row \<Rightarrow> bool" where
  "same_photo c loan provider url p \<longleftrightarrow>
     ph_connection_id p = c \<and> ph_loan_account p = loan \<and> ph_provider p = provider \<and> ph_image_url p = url"

definition in_workspace :: "int \<Rightarrow> string \<Rightarrow> photo_row \<Rightarrow> bool" where
  "in_workspace c loan p \<longleftrightarrow> ph_connection_id p = c \<and> ph_loan_account p = loan"

definition featured_ok :: "photo_row list \<Rightarrow> bool" where
  "featured_ok ps = distinct (map (\<lambda>p. (ph_connection_id p, ph_loan_account p)) (filter ph_is_featured ps))"

definition loan_valid :: "mail_ext \<Rightarrow> (int \<Rightarrow> bool) \<Rightarrow> loan_db \<Rightarrow> bool" where
  "loan_valid N K db \<longleftrightarrow>
     list_all (workspace_check N K) (workspaces db) \<and> distinct (map ws_id (workspaces db)) \<and>
     distinct (map (\<lambda>w. (ws_connection_id w, ws_loan_account w)) (workspaces db)) \<and>
     list_all (photo_check N) (photos db) \<and> list_all (\<lambda>p. K (ph_connection_id p)) (photos db) \<and>
     distinct (map ph_id (photos db)) \<and>
     distinct (map (\<lambda>p. (ph_connection_id p, ph_loan_account p, ph_provider p, ph_image_url p)) (photos db)) \<and>
     featured_ok (photos db)"

definition loan_ids :: "loan_db \<Rightarrow> bool" where
  "loan_ids db \<longleftrightarrow> ids_ok ws_id (workspaces db) (workspace_seq db) \<and> ids_ok ph_id (photos db) (photo_seq db)"

definition loan_write :: "mail_ext \<Rightarrow> (int \<Rightarrow> bool) \<Rightarrow> string \<Rightarrow> (loan_db \<Rightarrow> 'a \<times> loan_db) \<Rightarrow> 'a loan_op" where
  "loan_write N K ctx f = sql_write (loan_valid N K) (InboxStorage ctx) f"

subsection \<open>Validation\<close>

definition validate_optional_finite :: "string \<Rightarrow> f64 option \<Rightarrow> inbox_error + unit" where
  "validate_optional_finite label v =
     (if pred_option is_finite v then Inr () else Inl (InboxValidation (label @ '' must be finite'')))"

definition validate_optional_nonnegative :: "string \<Rightarrow> f64 option \<Rightarrow> inbox_error + unit" where
  "validate_optional_nonnegative label v = rbnd (validate_optional_finite label v) (\<lambda>_.
     if pred_option (\<lambda>x. \<not> f64_lt x f64_zero) v then Inr () else Inl (InboxValidation (label @ '' cannot be negative'')))"

definition validate_workspace_url :: "(string \<Rightarrow> url_view option) \<Rightarrow> string \<Rightarrow> string option \<Rightarrow> inbox_error + unit" where
  "validate_workspace_url P label v = (case v of None \<Rightarrow> Inr ()
     | Some url \<Rightarrow> if 2048 < length url then Inl (InboxValidation (label @ '' is too long''))
         else case P url of None \<Rightarrow> Inl (InboxValidation (label @ '' is invalid''))
           | Some parsed \<Rightarrow> if uv_scheme parsed \<notin> {''http'', ''https''} \<or> uv_host parsed = None \<or>
                 uv_username parsed \<noteq> [] \<or> uv_has_password parsed
               then Inl (InboxValidation (label @ '' must be an HTTP or HTTPS URL without credentials'')) else Inr ())"

definition validate_workspace :: "(string \<Rightarrow> url_view option) \<Rightarrow> workspace_draft \<Rightarrow> inbox_error + unit" where
  "validate_workspace P d =
     (if wd_connection_id d \<le> 0 then Inl (InboxValidation ''connection id must be a positive integer'')
      else rbnd (validate_loan_account_input (wd_loan_account d)) (\<lambda>_.
        rbnd (validate_workspace_url P ''Redfin URL'' (wd_redfin_url d)) (\<lambda>_.
        rbnd (validate_workspace_url P ''Zillow URL'' (wd_zillow_url d)) (\<lambda>_.
        rbnd (case wd_decision_status d of None \<Rightarrow> Inr ()
              | Some s \<Rightarrow> if s \<in> set decision_statuses then Inr ()
                  else Inl (InboxValidation (''unknown workspace decision status '' @ s))) (\<lambda>_.
        rbnd (validate_optional_nonnegative ''target contribution'' (wd_target d)) (\<lambda>_.
        rbnd (validate_optional_nonnegative ''actual contribution'' (wd_actual d)) (\<lambda>_.
          if pred_option (\<lambda>n. length n \<le> 20000) (wd_notes d) then Inr ()
          else Inl (InboxValidation ''workspace notes are too long''))))))))"

definition validate_photo :: "photo_draft \<Rightarrow> inbox_error + unit" where
  "validate_photo d =
     (if pd_connection_id d \<le> 0 then Inl (InboxValidation ''connection id must be a positive integer'')
      else rbnd (validate_loan_account_input (pd_loan_account d)) (\<lambda>_.
        rbnd (inbox_nonempty ''photo provider'' (pd_provider d)) (\<lambda>_.
        rbnd (inbox_nonempty ''photo source URL'' (pd_source_url d)) (\<lambda>_.
        rbnd (inbox_nonempty ''photo url URL'' (pd_image_url d)) (\<lambda>_.
          if 64 < length (pd_provider d) \<or> \<not> pred_option (\<lambda>c. length c \<le> 512) (pd_caption d) \<or>
             2048 < length (pd_source_url d) \<or> 2048 < length (pd_image_url d) \<or> pd_sort_order d < 0
          then Inl (InboxValidation ''photo metadata exceeds its supported bounds'') else Inr ())))))"

subsection \<open>Reading\<close>

definition workspace_on :: "int \<Rightarrow> string \<Rightarrow> workspace_row option loan_op" where
  "workspace_on c loan = gets (\<lambda>db. find (\<lambda>w. ws_connection_id w = c \<and> ws_loan_account w = loan) (workspaces db))"

definition workspace_by_id_on :: "int \<Rightarrow> workspace_row option loan_op" where
  "workspace_by_id_on i = gets (\<lambda>db. find (\<lambda>w. ws_id w = i) (workspaces db))"

definition list_workspaces :: "int \<Rightarrow> workspace_row list loan_op" where
  "list_workspaces c = gets (\<lambda>db. sort_key (\<lambda>w. (ascii_lower (ws_loan_account w), ws_id w))
     (filter (\<lambda>w. ws_connection_id w = c) (workspaces db)))"

text \<open>\<open>ORDER BY is_featured DESC, sort_order, id\<close>.\<close>

definition photos_on :: "int \<Rightarrow> string \<Rightarrow> photo_row list loan_op" where
  "photos_on c loan = gets (\<lambda>db. sort_key (\<lambda>p. (\<not> ph_is_featured p, ph_sort_order p, ph_id p))
     (filter (in_workspace c loan) (photos db)))"

definition photo_on :: "int \<Rightarrow> string \<Rightarrow> int \<Rightarrow> photo_row option loan_op" where
  "photo_on c loan i = gets (\<lambda>db. find (\<lambda>p. ph_id p = i \<and> in_workspace c loan p) (photos db))"

definition photo_id_by_identity_on :: "int \<Rightarrow> string \<Rightarrow> string \<Rightarrow> string \<Rightarrow> int option loan_op" where
  "photo_id_by_identity_on c loan provider url = gets (\<lambda>db. map_option ph_id (find (same_photo c loan provider url) (photos db)))"

definition photo_image_locations :: "string list loan_op" where
  "photo_image_locations = gets (\<lambda>db. map ph_image_url (sort_key ph_id (photos db)))"

subsection \<open>Writing\<close>

definition new_workspace :: "mail_ext \<Rightarrow> instant \<Rightarrow> workspace_draft \<Rightarrow> int \<Rightarrow> workspace_row" where
  "new_workspace N t d i = \<lparr>ws_id = i, ws_connection_id = wd_connection_id d, ws_loan_account = wd_loan_account d,
     ws_redfin_url = wd_redfin_url d, ws_zillow_url = wd_zillow_url d, ws_decision_status = wd_decision_status d,
     ws_target = wd_target d, ws_actual = wd_actual d, ws_notes = wd_notes d,
     ws_created_at = mx_stamp N t, ws_updated_at = mx_stamp N t\<rparr>"

definition revise_workspace :: "mail_ext \<Rightarrow> instant \<Rightarrow> workspace_draft \<Rightarrow> workspace_row \<Rightarrow> workspace_row" where
  "revise_workspace N t d w = w\<lparr>ws_redfin_url := wd_redfin_url d, ws_zillow_url := wd_zillow_url d,
     ws_decision_status := wd_decision_status d, ws_target := wd_target d, ws_actual := wd_actual d,
     ws_notes := wd_notes d, ws_updated_at := mx_stamp N t\<rparr>"

definition for_workspace :: "workspace_draft \<Rightarrow> workspace_row \<Rightarrow> bool" where
  "for_workspace d w \<longleftrightarrow> ws_connection_id w = wd_connection_id d \<and> ws_loan_account w = wd_loan_account d"

text \<open>\<open>INSERT .. ON CONFLICT .. DO UPDATE .. RETURNING id\<close>.\<close>

definition put_workspace :: "mail_ext \<Rightarrow> (int \<Rightarrow> bool) \<Rightarrow> instant \<Rightarrow> workspace_draft \<Rightarrow> int loan_op" where
  "put_workspace N K t d = loan_write N K ''upsert loan workspace'' (\<lambda>db.
     case find (for_workspace d) (workspaces db) of
       Some w \<Rightarrow> (ws_id w, db\<lparr>workspaces := update_rows (for_workspace d) (revise_workspace N t d) (workspaces db)\<rparr>)
     | None \<Rightarrow> let i = workspace_seq db + 1 in
         (i, db\<lparr>workspaces := workspaces db @ [new_workspace N t d i], workspace_seq := i\<rparr>))"

definition upsert_workspace :: "mail_ext \<Rightarrow> (string \<Rightarrow> url_view option) \<Rightarrow> (int \<Rightarrow> bool) \<Rightarrow> instant \<Rightarrow> workspace_draft \<Rightarrow>
    workspace_row loan_op" where
  "upsert_workspace N P K t d =
     thn (lift_res (validate_workspace P d))
    (transaction
      (bnd (put_workspace N K t d) (\<lambda>i.
       bnd (workspace_by_id_on i) (some_or (InboxStorage ''upserted loan workspace disappeared'')))))"

definition new_photo :: "mail_ext \<Rightarrow> instant \<Rightarrow> photo_draft \<Rightarrow> int \<Rightarrow> photo_row" where
  "new_photo N t d i = \<lparr>ph_id = i, ph_connection_id = pd_connection_id d, ph_loan_account = pd_loan_account d,
     ph_provider = pd_provider d, ph_caption = pd_caption d, ph_source_url = pd_source_url d, ph_image_url = pd_image_url d,
     ph_sort_order = pd_sort_order d, ph_is_featured = False, ph_created_at = mx_stamp N t\<rparr>"

text \<open>\<open>INSERT OR IGNORE\<close> skips a row that breaks a CHECK or a UNIQUE constraint; a missing connection is an error.\<close>

definition insert_photo_or_ignore :: "mail_ext \<Rightarrow> (int \<Rightarrow> bool) \<Rightarrow> instant \<Rightarrow> photo_draft \<Rightarrow> int option loan_op" where
  "insert_photo_or_ignore N K t d = loan_write N K ''insert photo metadata'' (\<lambda>db.
     let i = photo_seq db + 1; p = new_photo N t d i
     in if \<not> photo_check N p \<or> list_ex (same_photo (pd_connection_id d) (pd_loan_account d) (pd_provider d) (pd_image_url d)) (photos db)
        then (None, db) else (Some i, db\<lparr>photos := photos db @ [p], photo_seq := i\<rparr>))"

definition create_photo_metadata :: "mail_ext \<Rightarrow> (int \<Rightarrow> bool) \<Rightarrow> instant \<Rightarrow> photo_draft \<Rightarrow> photo_row loan_op" where
  "create_photo_metadata N K t d =
     thn (lift_res (validate_photo d))
    (transaction
      (bnd (insert_photo_or_ignore N K t d) (\<lambda>inserted. case inserted of
         None \<Rightarrow> bnd (photo_id_by_identity_on (pd_connection_id d) (pd_loan_account d) (pd_provider d) (pd_image_url d)) (\<lambda>existing.
           raise (InboxConflict (''photo metadata already exists'' @
             (case existing of None \<Rightarrow> [] | Some i \<Rightarrow> '' as row '' @ show_int i))))
       | Some i \<Rightarrow> bnd (photo_on (pd_connection_id d) (pd_loan_account d) i)
           (some_or (InboxStorage ''inserted photo metadata disappeared'')))))"

text \<open>\<open>SELECT COALESCE(MAX(sort_order), -1) + 1\<close>.\<close>

definition next_sort_order :: "int \<Rightarrow> string \<Rightarrow> photo_row list \<Rightarrow> int" where
  "next_sort_order c loan ps = (case map ph_sort_order (filter (in_workspace c loan) ps) of
     [] \<Rightarrow> 0 | k # ks \<Rightarrow> fold max ks k + 1)"

definition manual_draft :: "int \<Rightarrow> string \<Rightarrow> string option \<Rightarrow> string \<Rightarrow> photo_draft" where
  "manual_draft c loan caption url = \<lparr>pd_connection_id = c, pd_loan_account = loan, pd_provider = ''manual'',
     pd_caption = caption, pd_source_url = ''manual-upload'', pd_image_url = url, pd_sort_order = 0\<rparr>"

definition insert_manual_photo :: "mail_ext \<Rightarrow> (int \<Rightarrow> bool) \<Rightarrow> instant \<Rightarrow> photo_draft \<Rightarrow> int loan_op" where
  "insert_manual_photo N K t d = loan_write N K ''insert manual photo metadata'' (\<lambda>db.
     let i = photo_seq db + 1; k = next_sort_order (pd_connection_id d) (pd_loan_account d) (photos db)
     in (i, db\<lparr>photos := photos db @ [new_photo N t (d\<lparr>pd_sort_order := k\<rparr>) i], photo_seq := i\<rparr>))"

definition create_manual_photo_metadata :: "mail_ext \<Rightarrow> (int \<Rightarrow> bool) \<Rightarrow> instant \<Rightarrow> int \<Rightarrow> string \<Rightarrow> string option \<Rightarrow> string \<Rightarrow>
    photo_row loan_op" where
  "create_manual_photo_metadata N K t c loan caption url =
     thn (lift_res (validate_photo (manual_draft c loan caption url)))
    (transaction
      (bnd (photo_id_by_identity_on c loan ''manual'' url) (\<lambda>existing. case existing of
         Some i \<Rightarrow> bnd (photo_on c loan i) (some_or (InboxStorage ''existing manual photo metadata disappeared''))
       | None \<Rightarrow>
           bnd (insert_manual_photo N K t (manual_draft c loan caption url)) (\<lambda>i.
           bnd (photo_on c loan i) (some_or (InboxStorage ''inserted manual photo metadata disappeared''))))))"

definition update_photos :: "mail_ext \<Rightarrow> (int \<Rightarrow> bool) \<Rightarrow> string \<Rightarrow> (photo_row \<Rightarrow> bool) \<Rightarrow> (photo_row \<Rightarrow> photo_row) \<Rightarrow> nat loan_op" where
  "update_photos N K ctx Q f = loan_write N K ctx (\<lambda>db.
     (count_rows Q (photos db), db\<lparr>photos := update_rows Q f (photos db)\<rparr>))"

definition no_photo :: "string \<Rightarrow> int \<Rightarrow> inbox_error" where
  "no_photo loan i = InboxNotFound (''photo '' @ show_int i @ '' in workspace '' @ loan)"

definition set_featured_photo :: "mail_ext \<Rightarrow> (int \<Rightarrow> bool) \<Rightarrow> int \<Rightarrow> string \<Rightarrow> int \<Rightarrow> photo_row loan_op" where
  "set_featured_photo N K c loan i = transaction
     (bnd (photo_on c loan i) (\<lambda>found.
      thn (require (found \<noteq> None) (no_photo loan i))
     (thn (update_photos N K ''clear prior featured photo'' (\<lambda>p. in_workspace c loan p \<and> ph_is_featured p)
             (\<lambda>p. p\<lparr>ph_is_featured := False\<rparr>))
     (bnd (update_photos N K ''set featured photo'' (\<lambda>p. ph_id p = i \<and> in_workspace c loan p)
             (\<lambda>p. p\<lparr>ph_is_featured := True\<rparr>)) (\<lambda>changed.
      thn (require (changed = 1) (InboxConflict ''featured photo changed concurrently''))
     (bnd (photo_on c loan i) (some_or (InboxStorage ''featured photo disappeared'')))))))) "

definition delete_photo_metadata :: "mail_ext \<Rightarrow> (int \<Rightarrow> bool) \<Rightarrow> int \<Rightarrow> string \<Rightarrow> int \<Rightarrow> photo_row loan_op" where
  "delete_photo_metadata N K c loan i = transaction
     (bnd (bnd (photo_on c loan i) (some_or (no_photo loan i))) (\<lambda>p.
      bnd (loan_write N K ''delete photo metadata'' (\<lambda>db.
             (count_rows (\<lambda>q. ph_id q = i \<and> in_workspace c loan q) (photos db),
              db\<lparr>photos := filter (\<lambda>q. \<not> (ph_id q = i \<and> in_workspace c loan q)) (photos db)\<rparr>))) (\<lambda>changed.
      thn (require (changed = 1) (InboxConflict ''photo metadata changed concurrently''))
        (ok p))))"

end
