(* ===== verification/Workspace_Laws.thy ===== *)
theory Workspace_Laws
  imports Workspaces
begin

text \<open>
  What the operations of \<open>Workspaces\<close> promise: the constraints of the two tables and the id sequences are kept by every
  operation, a save is read back, a workspace has at most the featured photo that was chosen last, and a finalize request
  that is replayed finds the photo of the first one.
\<close>

subsection \<open>Invariants\<close>

lemma reads_loan [intro]:
  "reads (workspace_on c loan)" "reads (workspace_by_id_on i)" "reads (list_workspaces c)" "reads (photos_on c loan)"
  "reads (photo_on c loan i)" "reads (photo_id_by_identity_on c loan provider url)" "reads photo_image_locations"
  by (simp_all add: workspace_on_def workspace_by_id_on_def list_workspaces_def photos_on_def photo_on_def
      photo_id_by_identity_on_def photo_image_locations_def reads_intros)

lemma keeps_loan_reads [keeps_rules, intro]:
  "keeps I (workspace_by_id_on i)" "keeps I (photo_on c loan i)" "keeps I (photo_id_by_identity_on c loan provider url)"
  by (rule reads_keeps reads_loan)+

lemma loan_write_Inr: "loan_write N K ctx f db = (Inr a, db') \<longleftrightarrow> f db = (a, db') \<and> loan_valid N K db'"
  by (simp add: loan_write_def sql_write_Inr)

lemma keeps_loan_writes [keeps_rules, intro]:
  "keeps (loan_valid N K) (loan_write N K ctx f)" "keeps (loan_valid N K) (put_workspace N K t d)"
  "keeps (loan_valid N K) (insert_photo_or_ignore N K t p)" "keeps (loan_valid N K) (insert_manual_photo N K t p)"
  "keeps (loan_valid N K) (update_photos N K ctx Q g)"
  by (simp_all add: loan_write_def put_workspace_def insert_photo_or_ignore_def insert_manual_photo_def update_photos_def
      keeps_valid_write)

lemma keeps_ids_loan_write:
  "(\<And>db. loan_ids db \<Longrightarrow> loan_ids (snd (f db))) \<Longrightarrow> keeps loan_ids (loan_write N K ctx f)"
  unfolding loan_write_def by (rule keeps_sql_write) blast

lemma keeps_loan_ids [keeps_rules, intro]:
  "keeps loan_ids (put_workspace N K t d)"
  "keeps loan_ids (insert_photo_or_ignore N K t p)" "keeps loan_ids (insert_manual_photo N K t p)"
  "(\<And>q. ph_id (g q) = ph_id q) \<Longrightarrow> keeps loan_ids (update_photos N K ctx Q g)"
  "keeps loan_ids (loan_write N K ctx (\<lambda>db. (n db, db\<lparr>photos := filter Q (photos db)\<rparr>)))"
  unfolding put_workspace_def insert_photo_or_ignore_def insert_manual_photo_def update_photos_def
  by (rule keeps_ids_loan_write; auto simp: loan_ids_def Let_def ids_ok_snoc ids_ok_update ids_ok_filter
        revise_workspace_def new_workspace_def new_photo_def split: option.splits)+

lemmas loan_operation_defs = upsert_workspace_def create_photo_metadata_def create_manual_photo_metadata_def
  set_featured_photo_def delete_photo_metadata_def

lemma keeps_loan_valid [keeps_rules, intro]:
  "keeps (loan_valid N K) (upsert_workspace N P K t d)" "keeps (loan_valid N K) (create_photo_metadata N K t p)"
  "keeps (loan_valid N K) (create_manual_photo_metadata N K t c loan caption url)"
  "keeps (loan_valid N K) (set_featured_photo N K c loan i)" "keeps (loan_valid N K) (delete_photo_metadata N K c loan i)"
  by (auto simp: loan_operation_defs intro!: keeps_rules)

lemma keeps_loan_sequence [keeps_rules, intro]:
  "keeps loan_ids (upsert_workspace N P K t d)" "keeps loan_ids (create_photo_metadata N K t p)"
  "keeps loan_ids (create_manual_photo_metadata N K t c loan caption url)"
  "keeps loan_ids (set_featured_photo N K c loan i)" "keeps loan_ids (delete_photo_metadata N K c loan i)"
  by (auto simp: loan_operation_defs intro!: keeps_rules)

subsection \<open>Photos by key\<close>

lemma find_key_and: "distinct (map key rs) \<Longrightarrow> r \<in> set rs \<Longrightarrow> Q r \<Longrightarrow> find (\<lambda>q. key q = key r \<and> Q q) rs = Some r"
  by (induction rs) (auto simp: image_iff)

lemma loan_keys:
  assumes "loan_valid N K db"
  shows "distinct (map ph_id (photos db))"
    and "distinct (map (\<lambda>q. (ph_connection_id q, ph_loan_account q, ph_provider q, ph_image_url q)) (photos db))"
    and "distinct (map (\<lambda>p. (ph_connection_id p, ph_loan_account p)) (filter ph_is_featured (photos db)))"
    and "distinct (map ws_id (workspaces db))"
    and "distinct (map (\<lambda>w. (ws_connection_id w, ws_loan_account w)) (workspaces db))"
  using assms by (simp_all add: loan_valid_def featured_ok_def)

lemma photo_identity:
  assumes "loan_valid N K db" "p \<in> set (photos db)" "in_workspace c loan p"
  shows "photo_on c loan (ph_id p) db = (Inr (Some p), db)"
    and "photo_id_by_identity_on c loan (ph_provider p) (ph_image_url p) db = (Inr (Some (ph_id p)), db)"
proof -
  show "photo_on c loan (ph_id p) db = (Inr (Some p), db)"
    using find_key_and [OF loan_keys(1) [OF assms(1)] assms(2), of "in_workspace c loan"] assms(3)
    by (simp add: photo_on_def gets_def)
  show "photo_id_by_identity_on c loan (ph_provider p) (ph_image_url p) db = (Inr (Some (ph_id p)), db)"
    using find_key [OF loan_keys(2) [OF assms(1)] assms(2)] assms(3)
    by (simp add: photo_id_by_identity_on_def gets_def same_photo_def [abs_def] in_workspace_def)
qed

lemma photo_on_Some:
  "photo_on c loan i db = (Inr (Some p), db') \<Longrightarrow> db' = db \<and> p \<in> set (photos db) \<and> ph_id p = i \<and> in_workspace c loan p"
  using find_set by (fastforce simp: photo_on_def gets_def)

subsection \<open>The featured photo\<close>

definition reflag :: "(photo_row \<Rightarrow> bool) \<Rightarrow> photo_row list \<Rightarrow> photo_row list" where
  "reflag f = map (\<lambda>q. q\<lparr>ph_is_featured := f q\<rparr>)"

lemma reflag_update: "update_rows Q (\<lambda>p. p\<lparr>ph_is_featured := b\<rparr>) ps = reflag (\<lambda>q. if Q q then b else ph_is_featured q) ps"
  by (induction ps) (auto simp: reflag_def)

lemma reflag_reflag:
  "(\<And>q b. f (q\<lparr>ph_is_featured := b\<rparr>) = (if P q then c else b)) \<Longrightarrow> reflag f (reflag g ps) = reflag (\<lambda>q. if P q then c else g q) ps"
  by (induction ps) (auto simp: reflag_def)

lemma reflag_keys:
  "(\<And>q b. h (q\<lparr>ph_is_featured := b\<rparr>) = h q) \<Longrightarrow> map h (reflag f ps) = map h ps"
  "(\<And>q b. P (q\<lparr>ph_is_featured := b\<rparr>) = P q) \<Longrightarrow> list_all P (reflag f ps) = list_all P ps"
  by (auto simp: reflag_def list_all_iff)

lemma reflag_count: "(\<And>q b. P (q\<lparr>ph_is_featured := b\<rparr>) = P q) \<Longrightarrow> count_rows P (reflag f ps) = count_rows P ps"
  by (simp add: reflag_def count_rows_def filter_map comp_def)

lemma reflag_featured: "featured_ok (reflag f ps) = distinct (map (\<lambda>p. (ph_connection_id p, ph_loan_account p)) (filter f ps))"
  by (simp add: featured_ok_def reflag_def filter_map comp_def)

lemma reflag_valid:
  assumes "loan_valid N K db" "distinct (map (\<lambda>p. (ph_connection_id p, ph_loan_account p)) (filter f (photos db)))"
  shows "loan_valid N K (db\<lparr>photos := reflag f (photos db)\<rparr>)"
  using assms by (simp add: loan_valid_def reflag_keys reflag_featured photo_check_def)

lemma unfeature_valid:
  assumes "loan_valid N K db"
  shows "loan_valid N K (db\<lparr>photos := reflag (\<lambda>q. if in_workspace c loan q \<and> ph_is_featured q then False else ph_is_featured q) (photos db)\<rparr>)"
proof (rule reflag_valid [OF assms])
  have "filter (\<lambda>q. if in_workspace c loan q \<and> ph_is_featured q then False else ph_is_featured q) (photos db) =
      filter (\<lambda>q. \<not> in_workspace c loan q) (filter ph_is_featured (photos db))"
    by (simp, rule filter_cong) auto
  then show "distinct (map (\<lambda>p. (ph_connection_id p, ph_loan_account p))
      (filter (\<lambda>q. if in_workspace c loan q \<and> ph_is_featured q then False else ph_is_featured q) (photos db)))"
    using distinct_map_filter [OF loan_keys(3) [OF assms]] by metis
qed

lemma feature_valid:
  assumes "loan_valid N K db"
  shows "loan_valid N K (db\<lparr>photos := reflag (\<lambda>q. if in_workspace c loan q then ph_id q = i else ph_is_featured q) (photos db)\<rparr>)"
    (is "loan_valid N K (db\<lparr>photos := reflag ?f (photos db)\<rparr>)")
proof (rule reflag_valid [OF assms])
  have "q = r" if "q \<in> set (photos db)" "r \<in> set (photos db)" "?f q" "?f r"
    "(ph_connection_id q, ph_loan_account q) = (ph_connection_id r, ph_loan_account r)" for q r
  proof (cases "in_workspace c loan q")
    case True
    with that have "ph_id q = ph_id r" by (auto simp: in_workspace_def)
    then show ?thesis using distinct_key_eq [OF loan_keys(1) [OF assms]] that by blast
  next
    case False
    with that have "ph_is_featured q" "ph_is_featured r" by (auto simp: in_workspace_def)
    then show ?thesis using that(1,2,5) distinct_key_eq [OF loan_keys(3) [OF assms], of q r] by simp
  qed
  then have "inj_on (\<lambda>p. (ph_connection_id p, ph_loan_account p)) (set (filter ?f (photos db)))"
    unfolding inj_on_def by simp
  moreover have "distinct (filter ?f (photos db))" using loan_keys(1) [OF assms] by (simp add: distinct_map)
  ultimately show "distinct (map (\<lambda>p. (ph_connection_id p, ph_loan_account p)) (filter ?f (photos db)))"
    by (simp only: distinct_map)
qed

text \<open>C40: Choosing a photo of a workspace as the featured one makes it the only featured photo of that workspace and changes
  nothing else: no other field, no photo of another workspace, no workspace row.\<close>

theorem feature_photo_effect:
  assumes v: "loan_valid N K db" and p: "p \<in> set (photos db)" "in_workspace c loan p"
  shows "set_featured_photo N K c loan (ph_id p) db = (Inr (p\<lparr>ph_is_featured := True\<rparr>),
    db\<lparr>photos := map (\<lambda>q. if in_workspace c loan q then q\<lparr>ph_is_featured := (ph_id q = ph_id p)\<rparr> else q) (photos db)\<rparr>)"
    (is "_ = (_, ?db)")
proof -
  let ?cleared = "db\<lparr>photos := reflag (\<lambda>q. if in_workspace c loan q \<and> ph_is_featured q then False else ph_is_featured q) (photos db)\<rparr>"
  have same: "?db = db\<lparr>photos := reflag (\<lambda>q. if in_workspace c loan q then ph_id q = ph_id p else ph_is_featured q) (photos db)\<rparr>"
    by (simp add: reflag_def)
  have clear: "update_photos N K ''clear prior featured photo'' (\<lambda>p. in_workspace c loan p \<and> ph_is_featured p)
      (\<lambda>p. p\<lparr>ph_is_featured := False\<rparr>) db = (Inr (count_rows (\<lambda>p. in_workspace c loan p \<and> ph_is_featured p) (photos db)), ?cleared)"
    using unfeature_valid [OF v] by (simp add: update_photos_def loan_write_Inr reflag_update)
  have "count_rows (\<lambda>q. ph_id q = ph_id p \<and> in_workspace c loan q) (photos ?cleared) = 1"
    using count_rows_key [OF loan_keys(1) [OF v], of "ph_id p" "in_workspace c loan"] p
    by (auto simp: reflag_count in_workspace_def)
  moreover have "update_rows (\<lambda>q. ph_id q = ph_id p \<and> in_workspace c loan q) (\<lambda>p. p\<lparr>ph_is_featured := True\<rparr>) (photos ?cleared) = photos ?db"
    by (simp add: update_rows_def reflag_def in_workspace_def)
  ultimately have set: "update_photos N K ''set featured photo'' (\<lambda>q. ph_id q = ph_id p \<and> in_workspace c loan q)
      (\<lambda>p. p\<lparr>ph_is_featured := True\<rparr>) ?cleared = (Inr 1, ?db)"
    using feature_valid [OF v] same by (simp add: update_photos_def loan_write_Inr)
  have "p\<lparr>ph_is_featured := True\<rparr> \<in> set (photos ?db)" using p by force
  then have "photo_on c loan (ph_id p) ?db = (Inr (Some (p\<lparr>ph_is_featured := True\<rparr>)), ?db)"
    using photo_identity(1) [of N K ?db "p\<lparr>ph_is_featured := True\<rparr>" c loan] feature_valid [OF v, of c loan "ph_id p"] p(2) same
    by (simp add: in_workspace_def)
  then show ?thesis
    using photo_identity(1) [OF v p] clear set
    by (simp add: set_featured_photo_def transaction_Inr bnd_Inr thn_Inr require_Inr some_or_Inr)
qed

subsection \<open>Finalized uploads\<close>

lemma manual_photo_known:
  assumes "loan_valid N K db" "p \<in> set (photos db)" "same_photo c loan ''manual'' url p"
    "validate_photo (manual_draft c loan caption url) = Inr ()"
  shows "create_manual_photo_metadata N K t c loan caption url db = (Inr p, db)"
proof -
  have w: "in_workspace c loan p" "ph_provider p = ''manual''" "ph_image_url p = url"
    using assms(3) by (simp_all add: same_photo_def in_workspace_def)
  show ?thesis
    using photo_identity [OF assms(1,2) w(1)] assms(4) w(2,3)
    by (simp add: create_manual_photo_metadata_def transaction_Inr bnd_Inr thn_Inr lift_res_Inr some_or_Inr)
qed

lemma manual_photo_saved:
  assumes "create_manual_photo_metadata N K t c loan caption url db = (Inr p, db')" "loan_valid N K db" "loan_ids db"
  shows "p \<in> set (photos db') \<and> same_photo c loan ''manual'' url p \<and> validate_photo (manual_draft c loan caption url) = Inr ()"
proof -
  have ok: "validate_photo (manual_draft c loan caption url) = Inr ()"
    using assms(1) by (simp add: create_manual_photo_metadata_def thn_Inr lift_res_Inr)
  show ?thesis
  proof (cases "find (same_photo c loan ''manual'' url) (photos db)")
    case None
    then obtain i where i: "i = photo_seq db + 1"
      "db' = db\<lparr>photos := photos db @ [new_photo N t ((manual_draft c loan caption url)
         \<lparr>pd_sort_order := next_sort_order c loan (photos db)\<rparr>) i], photo_seq := i\<rparr>"
      "photo_on c loan i db' = (Inr (Some p), db')"
      using assms(1)
      by (auto simp: create_manual_photo_metadata_def thn_Inr bnd_Inr lift_res_Inr transaction_Inr some_or_Inr
          photo_id_by_identity_on_def gets_def insert_manual_photo_def loan_write_Inr Let_def manual_draft_def photo_on_def)
    then have "p \<in> set (photos db')" "ph_id p = i" using photo_on_Some by blast+
    moreover have "i \<notin> ph_id ` set (photos db)" using assms(3) i(1) by (auto simp: loan_ids_def ids_ok_def)
    ultimately have "p = new_photo N t ((manual_draft c loan caption url)
        \<lparr>pd_sort_order := next_sort_order c loan (photos db)\<rparr>) i"
      using i(2) by auto
    then show ?thesis using \<open>p \<in> set (photos db')\<close> ok by (simp add: same_photo_def new_photo_def manual_draft_def)
  next
    case (Some q)
    with find_set [OF Some] manual_photo_known [OF assms(2) _ _ ok] assms(1) ok show ?thesis by auto
  qed
qed

lemma photo_replay:
  assumes "create_manual_photo_metadata N K t c loan caption url db = (Inr p, db')" "loan_valid N K db" "loan_ids db"
    and "loan_valid N K db2" "p \<in> set (photos db2)"
  shows "create_manual_photo_metadata N K t2 c loan caption url db2 = (Inr p, db2)"
  using manual_photo_saved [OF assms(1-3)] manual_photo_known [OF assms(4,5)] by blast

text \<open>A first finalize request puts the photo after every photo the workspace has.\<close>

lemma fold_max_upper: "k \<le> fold max ks (k::int) \<and> (\<forall>x \<in> set ks. x \<le> fold max ks k)"
  by (induction ks arbitrary: k) (auto, (metis max.bounded_iff)+)

lemma next_sort_order_after: "p \<in> set ps \<Longrightarrow> in_workspace c loan p \<Longrightarrow> ph_sort_order p < next_sort_order c loan ps"
proof -
  assume "p \<in> set ps" "in_workspace c loan p"
  then have "ph_sort_order p \<in> set (map ph_sort_order (filter (in_workspace c loan) ps))" by simp
  then show ?thesis
    by (cases "map ph_sort_order (filter (in_workspace c loan) ps)")
      (use fold_max_upper in \<open>fastforce simp: next_sort_order_def\<close>)+
qed

subsection \<open>Saved workspaces\<close>

lemma workspace_row_keys: "ws_id (revise_workspace N t d w) = ws_id w" "ws_connection_id (revise_workspace N t d w) = ws_connection_id w"
  "ws_loan_account (revise_workspace N t d w) = ws_loan_account w" "ws_created_at (revise_workspace N t d w) = ws_created_at w"
  by (simp_all add: revise_workspace_def)

lemma workspace_revised:
  assumes "upsert_workspace N P K t d db = (Inr w', db')" "loan_valid N K db"
    "w \<in> set (workspaces db)" "for_workspace d w"
  shows "w' = revise_workspace N t d w" "db' = db\<lparr>workspaces := update_rows (\<lambda>q. ws_id q = ws_id w) (revise_workspace N t d) (workspaces db)\<rparr>"
proof -
  have key: "for_workspace d = (\<lambda>q. (ws_connection_id q, ws_loan_account q) = (ws_connection_id w, ws_loan_account w))"
    using assms(4) by (auto simp: for_workspace_def)
  have f: "find (for_workspace d) (workspaces db) = Some w"
    unfolding key using find_key [OF loan_keys(5) [OF assms(2)] assms(3)] by simp
  have rows: "update_rows (for_workspace d) g (workspaces db) = update_rows (\<lambda>q. ws_id q = ws_id w) g (workspaces db)" for g
    unfolding update_rows_def
    by (rule map_cong [OF HOL.refl]) (use distinct_key_eq [OF loan_keys(5) [OF assms(2)] _ assms(3)]
        distinct_key_eq [OF loan_keys(4) [OF assms(2)] _ assms(3)] assms(4) in \<open>auto simp: key\<close>)
  show db': "db' = db\<lparr>workspaces := update_rows (\<lambda>q. ws_id q = ws_id w) (revise_workspace N t d) (workspaces db)\<rparr>"
    and "w' = revise_workspace N t d w"
  proof -
    have "put_workspace N K t d db = (Inr (ws_id w), db') \<and> workspace_by_id_on (ws_id w) db' = (Inr (Some w'), db')"
      using assms(1) f
      by (auto simp: upsert_workspace_def thn_Inr bnd_Inr lift_res_Inr transaction_Inr some_or_Inr put_workspace_def
          loan_write_Inr workspace_by_id_on_def gets_def)
    then have put: "db' = db\<lparr>workspaces := update_rows (for_workspace d) (revise_workspace N t d) (workspaces db)\<rparr>"
      and found: "find (\<lambda>q. ws_id q = ws_id w) (workspaces db') = Some w'"
      using f by (auto simp: put_workspace_def loan_write_Inr workspace_by_id_on_def gets_def)
    show "db' = db\<lparr>workspaces := update_rows (\<lambda>q. ws_id q = ws_id w) (revise_workspace N t d) (workspaces db)\<rparr>"
      using put rows by simp
    have "revise_workspace N t d w \<in> set (workspaces db')"
      using put assms(3,4) by (auto simp: set_update_rows)
    moreover have "distinct (map ws_id (workspaces db'))"
      using put loan_keys(4) [OF assms(2)] by (simp add: map_update_rows workspace_row_keys)
    ultimately show "w' = revise_workspace N t d w"
      using find_key [of ws_id "workspaces db'" "revise_workspace N t d w"] found by (simp add: workspace_row_keys)
  qed
qed

end
