(* ===== verification/Media_Service.thy ===== *)
theory Media_Service
  imports Media_Key Utc_Clock Http_Types
begin

text \<open>
  The media service, \<open>src/media/service.rs\<close>: upload intents (a signed token that fixes what may be uploaded where and until
  when), their verification against the stored object, presigned downloads, and writes that never replace an object. The
  object store is reached through \<open>media_backend\<close>, the code's trait \<open>MediaBackend\<close>; its implementation \<open>s3_backend\<close> signs
  each request and reads the replies of an HTTP client. \<open>media_crates\<close> holds the third-party functions: HMAC and SHA-256,
  URL-safe base64 without padding, serde's JSON of the claims. Random bytes are an argument.
\<close>

subsection \<open>Data\<close>

record head_object =
  ho_size :: nat
  ho_content_type :: "string option"
  ho_marker :: "string option"
  ho_sha256 :: "string option"

record upload_draft =
  ud_connection_id :: int
  ud_loan_account :: string
  ud_file_name :: string
  ud_content_type :: string
  ud_size :: nat

record presigned_upload =
  pu_method :: string
  pu_url :: string
  pu_headers :: "(string \<times> string) list"

record upload_intent =
  ui_token :: string
  ui_object_key :: string
  ui_image_url :: string
  ui_upload :: presigned_upload
  ui_expires_at :: int

record verified_upload =
  vu_connection_id :: int
  vu_loan_account :: string
  vu_file_name :: string
  vu_content_type :: string
  vu_size :: nat
  vu_object_key :: string
  vu_image_url :: string

record upload_claims =
  uc_version :: nat
  uc_connection_id :: int
  uc_loan_account :: string
  uc_file_name :: string
  uc_content_type :: string
  uc_size :: nat
  uc_object_key :: string
  uc_marker :: string
  uc_issued_at :: int
  uc_expires_at :: int

record media_crates =
  mc_hmac :: "string \<Rightarrow> string \<Rightarrow> string"
  mc_sha256 :: "string \<Rightarrow> string"
  mc_encode :: "string \<Rightarrow> string"
  mc_decode :: "string \<Rightarrow> string option"
  mc_json :: "upload_claims \<Rightarrow> string option"
  mc_from_json :: "string \<Rightarrow> upload_claims option"

text \<open>\<open>trait MediaBackend\<close>; \<open>'w\<close> is the state of the world behind it.\<close>

record 'w media_backend =
  mb_presign_put :: "string \<Rightarrow> string \<Rightarrow> nat \<Rightarrow> string \<Rightarrow> instant \<Rightarrow> media_error + presigned_upload"
  mb_presign_get :: "string \<Rightarrow> instant \<Rightarrow> media_error + string"
  mb_head :: "string \<Rightarrow> instant \<Rightarrow> ('w, media_error, head_object option) op"
  mb_put_if_absent :: "string \<Rightarrow> string \<Rightarrow> string \<Rightarrow> string \<Rightarrow> instant \<Rightarrow> ('w, media_error, head_object) op"

record 'w media_service =
  ms_backend :: "'w media_backend option"
  ms_intent_key :: "string option"
  ms_origin :: "string option"

definition upload_expiry_seconds :: int where "upload_expiry_seconds = 5 * 60"

definition download_expiry_seconds :: nat where "download_expiry_seconds = 60"

definition max_upload_bytes :: nat where "max_upload_bytes = 25 * 1024 * 1024"

definition max_server_body_bytes :: nat where "max_server_body_bytes = 25 * 1024 * 1024"

definition max_intent_bytes :: nat where "max_intent_bytes = 8 * 1024"

definition upload_marker_header :: string where "upload_marker_header = ''x-amz-meta-trust-deeds-upload''"

definition sha256_header :: string where "sha256_header = ''x-amz-meta-trust-deeds-sha256''"

definition disabled_media :: "'w media_service" where
  "disabled_media = \<lparr>ms_backend = None, ms_intent_key = None, ms_origin = None\<rparr>"

definition media_error_str :: "media_error \<Rightarrow> string" where
  "media_error_str e = (case e of MediaConfiguration \<Rightarrow> ''object storage configuration is invalid''
     | MediaDisabled \<Rightarrow> ''object storage is not configured'' | InvalidInput \<Rightarrow> ''media request is invalid''
     | InvalidKey \<Rightarrow> ''object key is invalid'' | InvalidIntent \<Rightarrow> ''upload intent is invalid''
     | ExpiredIntent \<Rightarrow> ''upload intent has expired'' | ObjectMissing \<Rightarrow> ''uploaded object was not found''
     | ObjectMismatch \<Rightarrow> ''uploaded object does not match its intent'' | StorageUnavailable \<Rightarrow> ''object storage is unavailable'')"

definition enabled :: "'a option \<Rightarrow> media_error + 'a" where
  "enabled x = (case x of None \<Rightarrow> Inl MediaDisabled | Some a \<Rightarrow> Inr a)"

definition or_error :: "'e \<Rightarrow> 'a option \<Rightarrow> 'e + 'a" where
  "or_error e x = (case x of None \<Rightarrow> Inl e | Some a \<Rightarrow> Inr a)"

subsection \<open>Drafts and keys\<close>

definition normalize_content_type :: "string \<Rightarrow> string option" where
  "normalize_content_type raw = (let v = trim (hd (split_on (CHR '';'') raw)) in
     if v \<in> {''image/jpeg'', ''image/png'', ''image/webp''} then Some v else None)"

definition validate_upload_draft :: "upload_draft \<Rightarrow> media_error + unit" where
  "validate_upload_draft d =
     (if ud_connection_id d \<le> 0 \<or> trim (ud_loan_account d) = [] \<or> 128 < length (ud_loan_account d) \<or>
         trim (ud_file_name d) = [] \<or> 255 < length (ud_file_name d) \<or> has_control (ud_file_name d) \<or>
         ud_size d = 0 \<or> max_upload_bytes < ud_size d \<or> normalize_content_type (ud_content_type d) \<noteq> Some (ud_content_type d)
      then Inl InvalidInput else Inr ())"

text \<open>\<open>chars().map(..)\<close>: a character is its first byte here, so the continuation bytes go.\<close>

definition safe_loan_text :: "string \<Rightarrow> string" where
  "safe_loan_text loan = map (\<lambda>b. if is_alnum b \<or> b = CHR ''-'' \<or> b = CHR ''_'' then b else CHR ''-'')
     (filter (\<lambda>b. \<not> cont (code b)) loan)"

definition photo_extension :: "string \<Rightarrow> string option" where
  "photo_extension content_type = (if content_type = ''image/jpeg'' then Some ''jpg'' else if content_type = ''image/png'' then Some ''png''
     else if content_type = ''image/webp'' then Some ''webp'' else None)"

definition generated_photo_key :: "upload_draft \<Rightarrow> int \<Rightarrow> string \<Rightarrow> media_error + string" where
  "generated_photo_key d issued_at marker =
     rbnd (or_error InvalidInput (photo_extension (ud_content_type d))) (\<lambda>extension.
       canonical_key (''loan-workspace/'' @ safe_loan_text (ud_loan_account d) @ ''/manual-'' @ show_int issued_at @ ''-'' @
         marker @ ''.'' @ extension))"

subsection \<open>Tokens\<close>

definition sign_claims :: "media_crates \<Rightarrow> upload_claims \<Rightarrow> string \<Rightarrow> media_error + string" where
  "sign_claims C claims key =
     rbnd (or_error InvalidIntent (mc_json C claims)) (\<lambda>payload.
       let encoded = mc_encode C payload in Inr (encoded @ ''.'' @ mc_encode C (mc_hmac C key encoded)))"

definition claims_draft :: "upload_claims \<Rightarrow> upload_draft" where
  "claims_draft c = \<lparr>ud_connection_id = uc_connection_id c, ud_loan_account = uc_loan_account c, ud_file_name = uc_file_name c,
     ud_content_type = uc_content_type c, ud_size = uc_size c\<rparr>"

definition signed_claims :: "media_crates \<Rightarrow> string \<Rightarrow> string \<Rightarrow> media_error + upload_claims" where
  "signed_claims C token key =
     (if token = [] \<or> max_intent_bytes < length token then Inl InvalidIntent
      else rbnd (or_error InvalidIntent (split_once (CHR ''.'') token)) (\<lambda>(payload, signature).
        if CHR ''.'' \<in> set signature then Inl InvalidIntent
        else rbnd (or_error InvalidIntent (mc_decode C signature)) (\<lambda>given.
          if given \<noteq> mc_hmac C key payload then Inl InvalidIntent
          else rbnd (or_error InvalidIntent (mc_decode C payload)) (\<lambda>bytes. or_error InvalidIntent (mc_from_json C bytes)))))"

definition verify_claims :: "media_crates \<Rightarrow> string \<Rightarrow> string \<Rightarrow> int \<Rightarrow> media_error + upload_claims" where
  "verify_claims C token key now =
     rbnd (signed_claims C token key) (\<lambda>claims.
       if uc_version claims \<noteq> 1 \<or> now + 60 < uc_issued_at claims \<or>
          uc_expires_at claims \<noteq> uc_issued_at claims + upload_expiry_seconds \<or> uc_expires_at claims < now
       then Inl (if uc_expires_at claims < now then ExpiredIntent else InvalidIntent)
       else rbnd (validate_upload_draft (claims_draft claims)) (\<lambda>_. Inr claims))"

subsection \<open>The service\<close>

text \<open>\<open>random\<close> is what \<open>random_token(18)\<close> drew.\<close>

definition random_token :: "media_crates \<Rightarrow> string \<Rightarrow> string" where
  "random_token C random = mc_encode C random"

definition intent_claims :: "upload_draft \<Rightarrow> int \<Rightarrow> string \<Rightarrow> string \<Rightarrow> upload_claims" where
  "intent_claims d issued_at object_key marker = \<lparr>uc_version = 1, uc_connection_id = ud_connection_id d,
     uc_loan_account = ud_loan_account d, uc_file_name = ud_file_name d, uc_content_type = ud_content_type d,
     uc_size = ud_size d, uc_object_key = object_key, uc_marker = marker, uc_issued_at = issued_at,
     uc_expires_at = issued_at + upload_expiry_seconds\<rparr>"

definition create_upload_intent_at :: "media_crates \<Rightarrow> 'w media_service \<Rightarrow> string \<Rightarrow> upload_draft \<Rightarrow> instant \<Rightarrow> media_error + upload_intent" where
  "create_upload_intent_at C S random d now =
     rbnd (enabled (ms_backend S)) (\<lambda>backend.
     rbnd (enabled (ms_intent_key S)) (\<lambda>key.
     rbnd (validate_upload_draft d) (\<lambda>_.
     let issued_at = unix_timestamp now; marker = random_token C random in
     rbnd (generated_photo_key d issued_at marker) (\<lambda>object_key.
     rbnd (photo_route_url object_key) (\<lambda>image_url.
     let claims = intent_claims d issued_at object_key marker in
     rbnd (sign_claims C claims key) (\<lambda>token.
     rbnd (mb_presign_put backend object_key (uc_content_type claims) (uc_size claims) marker now) (\<lambda>upload.
       Inr \<lparr>ui_token = token, ui_object_key = object_key, ui_image_url = image_url, ui_upload = upload,
         ui_expires_at = uc_expires_at claims\<rparr>)))))))"

definition object_matches :: "upload_claims \<Rightarrow> head_object \<Rightarrow> bool" where
  "object_matches c h \<longleftrightarrow> ho_size h = uc_size c \<and>
     Option.bind (ho_content_type h) normalize_content_type = Some (uc_content_type c) \<and> ho_marker h = Some (uc_marker c)"

definition verify_uploaded_intent_at :: "media_crates \<Rightarrow> 'w media_service \<Rightarrow> string \<Rightarrow> int \<Rightarrow> string \<Rightarrow> instant \<Rightarrow>
    ('w, media_error, verified_upload) op" where
  "verify_uploaded_intent_at C S token expected_connection_id expected_loan_account now =
     bnd (lift_res (enabled (ms_backend S))) (\<lambda>backend.
     bnd (lift_res (enabled (ms_intent_key S))) (\<lambda>key.
     bnd (lift_res (verify_claims C token key (unix_timestamp now))) (\<lambda>claims.
     thn (require (uc_connection_id claims = expected_connection_id \<and> uc_loan_account claims = expected_loan_account) InvalidIntent)
    (thn (lift_res (canonical_key (uc_object_key claims)))
    (bnd (bnd (mb_head backend (uc_object_key claims) now) (some_or ObjectMissing)) (\<lambda>metadata.
     thn (require (object_matches claims metadata) ObjectMismatch)
    (bnd (lift_res (photo_route_url (uc_object_key claims))) (\<lambda>image_url.
     ok \<lparr>vu_connection_id = uc_connection_id claims, vu_loan_account = uc_loan_account claims, vu_file_name = uc_file_name claims,
       vu_content_type = uc_content_type claims, vu_size = uc_size claims, vu_object_key = uc_object_key claims,
       vu_image_url = image_url\<rparr>))))))))"

definition presign_download_at :: "'w media_service \<Rightarrow> string \<Rightarrow> instant \<Rightarrow> media_error + string" where
  "presign_download_at S object_key now =
     rbnd (canonical_key object_key) (\<lambda>_. rbnd (enabled (ms_backend S)) (\<lambda>backend. mb_presign_get backend object_key now))"

definition hex_lower :: "nat \<Rightarrow> char" where
  "hex_lower n = ''0123456789abcdef'' ! n"

definition hex_bytes :: "string \<Rightarrow> string" where
  "hex_bytes v = concat (map (\<lambda>b. [hex_lower (code b div 16), hex_lower (code b mod 16)]) v)"

definition hex_digest :: "media_crates \<Rightarrow> string \<Rightarrow> string" where
  "hex_digest C v = hex_bytes (mc_sha256 C v)"

definition put_canonical_if_absent_at :: "media_crates \<Rightarrow> 'w media_service \<Rightarrow> string \<Rightarrow> string \<Rightarrow> string \<Rightarrow> instant \<Rightarrow>
    ('w, media_error, head_object) op" where
  "put_canonical_if_absent_at C S object_key body content_type now =
     thn (lift_res (canonical_key object_key))
    (thn (require (length body \<le> max_server_body_bytes \<and> trim content_type \<noteq> [] \<and> length content_type \<le> 255 \<and>
            \<not> has_control content_type) InvalidInput)
    (bnd (lift_res (enabled (ms_backend S))) (\<lambda>backend.
       mb_put_if_absent backend object_key body content_type (hex_digest C body) now)))"

end
