(* ===== verification/Media_S3.thy ===== *)
theory Media_S3
  imports Media_Service
begin

text \<open>
  The S3 backend of \<open>src/media/service.rs\<close>: its configuration, Signature Version 4 presigning, and the two requests the
  server sends itself. \<open>http_client\<close> is the HTTP client (no redirects, with time-outs): the reply to a request, or none, and
  the world it leaves. \<open>endpoint_view\<close> adds to the parsed URL the parts that the configuration reads. \<open>later\<close> is the clock
  when \<open>put_if_absent\<close> looks at the object it wrote.
\<close>

subsection \<open>Configuration\<close>

record endpoint_view = url_view +
  en_path :: string
  en_port :: "nat option"

record s3_config =
  s3_endpoint :: endpoint_view
  s3_region :: string
  s3_bucket :: string
  s3_access_key :: string
  s3_secret_key :: string
  s3_key_prefix :: "string option"

definition optional_env :: "(string \<Rightarrow> string option) \<Rightarrow> string \<Rightarrow> string option" where
  "optional_env vars name = (case vars name of None \<Rightarrow> None | Some v \<Rightarrow> if trim v = [] then None else Some (trim v))"

definition parse_true :: "string \<Rightarrow> bool" where
  "parse_true v \<longleftrightarrow> ascii_lower (trim v) \<in> {''1'', ''true'', ''yes'', ''on''}"

definition trim_slashes :: "string \<Rightarrow> string" where
  "trim_slashes v = rev (dropWhile (\<lambda>c. c = CHR ''/'') (rev (dropWhile (\<lambda>c. c = CHR ''/'') v)))"

definition key_prefix_of :: "string option \<Rightarrow> media_error + string option" where
  "key_prefix_of v = (case v of None \<Rightarrow> Inr None
     | Some p \<Rightarrow> if trim_slashes p = [] then Inr None else rbnd (canonical_key (trim_slashes p)) (\<lambda>k. Inr (Some k)))"

definition endpoint_ok :: "bool \<Rightarrow> endpoint_view \<Rightarrow> bool" where
  "endpoint_ok allow_http e \<longleftrightarrow> (if allow_http then uv_scheme e \<in> {''http'', ''https''} else uv_scheme e = ''https'') \<and>
     uv_host e \<noteq> None \<and> uv_username e = [] \<and> \<not> uv_has_password e \<and> en_path e \<in> {[], ''/''} \<and>
     \<not> uv_has_query e \<and> \<not> uv_has_fragment e"

definition s3_config_new :: "(string \<Rightarrow> endpoint_view option) \<Rightarrow> string \<Rightarrow> string \<Rightarrow> string \<Rightarrow> string \<Rightarrow> string \<Rightarrow> string option \<Rightarrow>
    bool \<Rightarrow> media_error + s3_config" where
  "s3_config_new P endpoint region bucket access_key secret_key key_prefix allow_http =
     rbnd (or_error MediaConfiguration (P (trim endpoint))) (\<lambda>e.
       if \<not> endpoint_ok allow_http e then Inl MediaConfiguration
       else if trim region = [] \<or> 64 < length region \<or> trim bucket = [] \<or> 255 < length bucket \<or> CHR ''/'' \<in> set bucket \<or>
           has_control bucket \<or> trim access_key = [] \<or> 256 < length access_key \<or> trim secret_key = [] \<or> 1024 < length secret_key
       then Inl MediaConfiguration
       else rbnd (key_prefix_of key_prefix) (\<lambda>p.
         Inr \<lparr>s3_endpoint = e, s3_region = trim region, s3_bucket = trim bucket, s3_access_key = trim access_key,
           s3_secret_key = trim secret_key, s3_key_prefix = p\<rparr>))"

definition s3_config_from_env :: "(string \<Rightarrow> endpoint_view option) \<Rightarrow> (string \<Rightarrow> string option) \<Rightarrow> bool \<Rightarrow> media_error + s3_config option" where
  "s3_config_from_env P vars required =
     (let endpoint = optional_env vars ''S3_ENDPOINT''; access_key = optional_env vars ''S3_ACCESS_KEY'';
          secret_key = optional_env vars ''S3_SECRET_KEY''; bucket = optional_env vars ''S3_BUCKET'' in
      if endpoint = None \<and> access_key = None \<and> secret_key = None \<and> bucket = None \<and> \<not> required then Inr None
      else rbnd (or_error MediaConfiguration endpoint) (\<lambda>e.
        let region = (case optional_env vars ''S3_REGION'' of None \<Rightarrow> ''auto'' | Some r \<Rightarrow> r) in
        rbnd (or_error MediaConfiguration bucket) (\<lambda>b.
        rbnd (or_error MediaConfiguration access_key) (\<lambda>a.
        rbnd (or_error MediaConfiguration secret_key) (\<lambda>s.
        rbnd (s3_config_new P e region b a s
            (case optional_env vars ''S3_KEY_PREFIX'' of None \<Rightarrow> Some ''loan-images'' | Some p \<Rightarrow> Some p)
            (\<not> required \<and> pred_option parse_true (optional_env vars ''S3_ALLOW_HTTP'') \<and> optional_env vars ''S3_ALLOW_HTTP'' \<noteq> None))
          (\<lambda>c. Inr (Some c)))))))"

definition endpoint_host :: "endpoint_view \<Rightarrow> media_error + string" where
  "endpoint_host e = rbnd (or_error MediaConfiguration (uv_host e)) (\<lambda>host.
     Inr (case en_port e of None \<Rightarrow> host | Some port \<Rightarrow> host @ '':'' @ show_nat port))"

subsection \<open>Signatures\<close>

definition join_text :: "string \<Rightarrow> string list \<Rightarrow> string" where
  "join_text sep words = (case words of [] \<Rightarrow> [] | w # ws \<Rightarrow> w @ concat (map (\<lambda>v. sep @ v) ws))"

definition canonical_header_value :: "string \<Rightarrow> string" where
  "canonical_header_value v = join_text '' '' (split_ascii v)"

definition signing_key :: "media_crates \<Rightarrow> string \<Rightarrow> string \<Rightarrow> string \<Rightarrow> string \<Rightarrow> string" where
  "signing_key C secret date region string_to_sign =
     (let date_key = mc_hmac C (''AWS4'' @ secret) date; region_key = mc_hmac C date_key region;
          service_key = mc_hmac C region_key ''s3''
      in mc_hmac C (mc_hmac C service_key ''aws4_request'') string_to_sign)"

definition short_date :: "date_api \<Rightarrow> instant \<Rightarrow> string" where
  "short_date D now = show_int_pad 4 (iso_year D (utc_date D now)) @ show_pad 2 (iso_month D (utc_date D now)) @
     show_pad 2 (iso_day D (utc_date D now))"

definition amz_timestamp :: "date_api \<Rightarrow> instant \<Rightarrow> string" where
  "amz_timestamp D now = (case time_fields (ms_of_day now) of (h, m, s, _) \<Rightarrow>
     short_date D now @ ''T'' @ show_pad 2 h @ show_pad 2 m @ show_pad 2 s @ ''Z'')"

definition stored_key :: "s3_config \<Rightarrow> string \<Rightarrow> string" where
  "stored_key cfg object_key = (case s3_key_prefix cfg of None \<Rightarrow> object_key | Some p \<Rightarrow> p @ ''/'' @ object_key)"

definition object_uri :: "s3_config \<Rightarrow> string \<Rightarrow> string" where
  "object_uri cfg object_key = ''/'' @ aws_encode_path (s3_bucket cfg) @ ''/'' @ aws_encode_path (stored_key cfg object_key)"

definition newline :: string where "newline = [CHR 0x0A]"

definition s3_presign :: "date_api \<Rightarrow> media_crates \<Rightarrow> s3_config \<Rightarrow> string \<Rightarrow> string \<Rightarrow> string \<Rightarrow> (string \<times> string) list \<Rightarrow> nat \<Rightarrow>
    instant \<Rightarrow> media_error + string" where
  "s3_presign D C cfg host http_method key headers expires now =
     rbnd (canonical_key key) (\<lambda>object_key.
     let uri = object_uri cfg object_key;
         scope = short_date D now @ ''/'' @ s3_region cfg @ ''/s3/aws4_request'';
         named = sort_key fst (put_header ''host'' host headers);
         signed_headers = join_text '';'' (map fst named);
         canonical_headers = concat (map (\<lambda>(n, v). n @ '':'' @ canonical_header_value v @ newline) named);
         query = sort_key fst [(''X-Amz-Algorithm'', ''AWS4-HMAC-SHA256''), (''X-Amz-Credential'', s3_access_key cfg @ ''/'' @ scope),
           (''X-Amz-Date'', amz_timestamp D now), (''X-Amz-Expires'', show_nat expires), (''X-Amz-SignedHeaders'', signed_headers)];
         canonical_query = join_text ''&'' (map (\<lambda>(n, v). aws_encode_query n @ ''='' @ aws_encode_query v) query);
         canonical_request = http_method @ newline @ uri @ newline @ canonical_query @ newline @ canonical_headers @ newline @
           signed_headers @ newline @ ''UNSIGNED-PAYLOAD'';
         string_to_sign = ''AWS4-HMAC-SHA256'' @ newline @ amz_timestamp D now @ newline @ scope @ newline @ hex_digest C canonical_request;
         signature = signing_key C (s3_secret_key cfg) (short_date D now) (s3_region cfg) string_to_sign
     in Inr (uv_scheme (s3_endpoint cfg) @ ''://'' @ host @ uri @ ''?'' @ canonical_query @ ''&X-Amz-Signature='' @ hex_bytes signature))"

subsection \<open>Requests\<close>

record store_reply =
  so_status :: nat
  so_header :: "string \<Rightarrow> string option"

record 'w http_client =
  hc_head :: "string \<Rightarrow> 'w \<Rightarrow> store_reply option \<times> 'w"
  hc_put :: "string \<Rightarrow> (string \<times> string) list \<Rightarrow> string \<Rightarrow> 'w \<Rightarrow> nat option \<times> 'w"

definition s3_presign_put :: "date_api \<Rightarrow> media_crates \<Rightarrow> s3_config \<Rightarrow> string \<Rightarrow> string \<Rightarrow> string \<Rightarrow> nat \<Rightarrow> string \<Rightarrow> instant \<Rightarrow>
    media_error + presigned_upload" where
  "s3_presign_put D C cfg host object_key content_type bytes marker now =
     (let headers = [(''content-length'', show_nat bytes), (''content-type'', content_type), (upload_marker_header, marker)]
      in rbnd (s3_presign D C cfg host ''PUT'' object_key headers (nat upload_expiry_seconds) now) (\<lambda>url.
        Inr \<lparr>pu_method = ''PUT'', pu_url = url, pu_headers = filter (\<lambda>(n, _). n \<noteq> ''content-length'') headers\<rparr>))"

definition s3_presign_get :: "date_api \<Rightarrow> media_crates \<Rightarrow> s3_config \<Rightarrow> string \<Rightarrow> string \<Rightarrow> instant \<Rightarrow> media_error + string" where
  "s3_presign_get D C cfg host object_key now = s3_presign D C cfg host ''GET'' object_key [] download_expiry_seconds now"

definition success :: "nat \<Rightarrow> bool" where
  "success status \<longleftrightarrow> 200 \<le> status \<and> status < 300"

definition parse_u64 :: "string \<Rightarrow> nat option" where
  "parse_u64 s = (let ds = (case s of CHR ''+'' # cs \<Rightarrow> cs | _ \<Rightarrow> s) in
     if ds \<noteq> [] \<and> list_all is_digit ds \<and> digits_val ds < 2 ^ 64 then Some (digits_val ds) else None)"

definition read_head :: "store_reply \<Rightarrow> media_error + head_object option" where
  "read_head r = (if so_status r = 404 then Inr None else if \<not> success (so_status r) then Inl StorageUnavailable
     else rbnd (or_error StorageUnavailable (Option.bind (so_header r ''content-length'') parse_u64)) (\<lambda>bytes.
       Inr (Some \<lparr>ho_size = bytes, ho_content_type = so_header r ''content-type'', ho_marker = so_header r upload_marker_header,
         ho_sha256 = so_header r sha256_header\<rparr>)))"

definition s3_head :: "date_api \<Rightarrow> media_crates \<Rightarrow> 'w http_client \<Rightarrow> s3_config \<Rightarrow> string \<Rightarrow> string \<Rightarrow> instant \<Rightarrow>
    ('w, media_error, head_object option) op" where
  "s3_head D C H cfg host object_key now =
     bnd (lift_res (s3_presign D C cfg host ''HEAD'' object_key [] 30 now)) (\<lambda>url.
     bnd (\<lambda>w. case hc_head H url w of (answer, w') \<Rightarrow> (or_error StorageUnavailable answer, w')) (\<lambda>answer. lift_res (read_head answer)))"

definition same_content :: "nat \<Rightarrow> string \<Rightarrow> string \<Rightarrow> head_object \<Rightarrow> bool" where
  "same_content bytes content_type sha256 h \<longleftrightarrow> ho_size h = bytes \<and>
     map_option (\<lambda>v. trim (hd (split_on (CHR '';'') v))) (ho_content_type h) = Some content_type \<and> ho_sha256 h = Some sha256"

definition s3_put_if_absent :: "date_api \<Rightarrow> media_crates \<Rightarrow> 'w http_client \<Rightarrow> instant \<Rightarrow> s3_config \<Rightarrow> string \<Rightarrow> string \<Rightarrow> string \<Rightarrow>
    string \<Rightarrow> string \<Rightarrow> instant \<Rightarrow> ('w, media_error, head_object) op" where
  "s3_put_if_absent D C H later cfg host object_key body content_type sha256 now =
     (let headers = [(''content-type'', content_type), (''if-none-match'', ''*''), (sha256_header, sha256)] in
      bnd (lift_res (s3_presign D C cfg host ''PUT'' object_key headers 30 now)) (\<lambda>url.
      bnd (\<lambda>w. case hc_put H url headers body w of (status, w') \<Rightarrow> (or_error StorageUnavailable status, w')) (\<lambda>status.
      thn (require (success status \<or> status = 412 \<or> status = 409) StorageUnavailable)
     (bnd (bnd (s3_head D C H cfg host object_key later) (some_or ObjectMissing)) (\<lambda>existing.
      thn (require (same_content (length body) content_type sha256 existing) ObjectMismatch)
        (ok existing))))))"

definition s3_backend :: "date_api \<Rightarrow> media_crates \<Rightarrow> 'w http_client \<Rightarrow> instant \<Rightarrow> s3_config \<Rightarrow> string \<Rightarrow> 'w media_backend" where
  "s3_backend D C H later cfg host = \<lparr>mb_presign_put = s3_presign_put D C cfg host, mb_presign_get = s3_presign_get D C cfg host,
     mb_head = s3_head D C H cfg host, mb_put_if_absent = s3_put_if_absent D C H later cfg host\<rparr>"

definition intent_domain :: string where
  "intent_domain = ''trust-deeds-media-intent-v1'' @ [CHR 0x00]"

definition media_from_config :: "date_api \<Rightarrow> media_crates \<Rightarrow> 'w http_client \<Rightarrow> instant \<Rightarrow> s3_config \<Rightarrow> media_error + 'w media_service" where
  "media_from_config D C H later cfg =
     rbnd (endpoint_host (s3_endpoint cfg)) (\<lambda>host.
       Inr \<lparr>ms_backend = Some (s3_backend D C H later cfg host),
         ms_intent_key = Some (mc_sha256 C (intent_domain @ s3_secret_key cfg)),
         ms_origin = Some (uv_scheme (s3_endpoint cfg) @ ''://'' @ host)\<rparr>)"

definition media_from_env :: "date_api \<Rightarrow> media_crates \<Rightarrow> 'w http_client \<Rightarrow> instant \<Rightarrow> (string \<Rightarrow> endpoint_view option) \<Rightarrow>
    (string \<Rightarrow> string option) \<Rightarrow> bool \<Rightarrow> media_error + 'w media_service" where
  "media_from_env D C H later P vars remote_build =
     (let production = (\<lambda>name. case vars name of None \<Rightarrow> False | Some v \<Rightarrow> eq_ignore_case v ''production'') in
      rbnd (s3_config_from_env P vars (remote_build \<or> production ''VERCEL_ENV'' \<or> production ''APP_ENV'')) (\<lambda>config.
        case config of None \<Rightarrow> Inr disabled_media | Some cfg \<Rightarrow> media_from_config D C H later cfg))"

end
