(* ===== verification/Media_Intent.thy ===== *)
theory Media_Intent
  imports Media_S3
begin

text \<open>
  What the media service promises: an intent that was created here is accepted until it expires and only for its loan and its
  object; what is accepted was signed with the service's key; and a write that reports success never replaces an object
  (\<open>honest_store\<close> states what S3 documents of its two requests).
\<close>

subsection \<open>The crates' documented laws\<close>

definition crates_ok :: "media_crates \<Rightarrow> bool" where
  "crates_ok C \<longleftrightarrow> (\<forall>v. mc_decode C (mc_encode C v) = Some v \<and> CHR ''.'' \<notin> set (mc_encode C v)) \<and>
     (\<forall>c v. mc_json C c = Some v \<longrightarrow> mc_from_json C v = Some c) \<and>
     (\<forall>c v. mc_from_json C v = Some c \<longrightarrow> utf8_ok (uc_object_key c))"

lemma or_error_Inr: "or_error e x = Inr a \<longleftrightarrow> x = Some a"
  by (auto simp: or_error_def split: option.splits)

lemma enabled_Inr: "enabled x = Inr a \<longleftrightarrow> x = Some a"
  by (auto simp: enabled_def split: option.splits)

lemma split_once_append: "c \<notin> set a \<Longrightarrow> split_once c (a @ c # b) = Some (a, b)"
  by (induction a) auto

lemma sign_then_read:
  assumes "crates_ok C" "sign_claims C c key = Inr token" "length token \<le> max_intent_bytes"
  shows "signed_claims C token key = Inr c"
proof -
  from assms(2) obtain payload where p: "mc_json C c = Some payload"
    "token = mc_encode C payload @ ''.'' @ mc_encode C (mc_hmac C key (mc_encode C payload))"
    by (auto simp: sign_claims_def rbnd_eq_Inr or_error_Inr Let_def)
  moreover have "mc_from_json C payload = Some c" using assms(1) p(1) by (simp add: crates_ok_def)
  ultimately show ?thesis
    using assms(1,3) by (simp add: signed_claims_def split_once_append crates_ok_def or_error_def)
qed

lemma created_intent:
  assumes "create_upload_intent_at C S random d now = Inr i"
  obtains B key url where "ms_backend S = Some B" "ms_intent_key S = Some key" "validate_upload_draft d = Inr ()"
    "generated_photo_key d (unix_timestamp now) (random_token C random) = Inr (ui_object_key i)"
    "photo_route_url (ui_object_key i) = Inr (ui_image_url i)"
    "sign_claims C (intent_claims d (unix_timestamp now) (ui_object_key i) (random_token C random)) key = Inr (ui_token i)"
    "mb_presign_put B (ui_object_key i) (ud_content_type d) (ud_size d) (random_token C random) now = Inr (ui_upload i)"
    "ui_expires_at i = unix_timestamp now + upload_expiry_seconds"
  using assms
  by (auto simp: create_upload_intent_at_def rbnd_eq_Inr enabled_Inr Let_def intent_claims_def)

lemma intent_claims_valid:
  assumes "validate_upload_draft d = Inr ()" "issued \<le> now + 60" "now \<le> issued + upload_expiry_seconds"
    and "signed_claims C token key = Inr (intent_claims d issued k m)"
  shows "verify_claims C token key now = Inr (intent_claims d issued k m)"
proof -
  have "claims_draft (intent_claims d issued k m) = d" by (simp add: claims_draft_def intent_claims_def)
  then show ?thesis using assms
    by (simp add: verify_claims_def) (simp add: intent_claims_def)
qed

lemma generated_key_canonical: "generated_photo_key d n m = Inr k \<Longrightarrow> canonical_key k = Inr k"
  by (auto simp: generated_photo_key_def rbnd_eq_Inr dest: canonical_key_safe)

definition intended_upload :: "upload_draft \<Rightarrow> upload_intent \<Rightarrow> verified_upload" where
  "intended_upload d i = \<lparr>vu_connection_id = ud_connection_id d, vu_loan_account = ud_loan_account d, vu_file_name = ud_file_name d,
     vu_content_type = ud_content_type d, vu_size = ud_size d, vu_object_key = ui_object_key i, vu_image_url = ui_image_url i\<rparr>"

text \<open>The object that the intent asked for.\<close>

definition intended_object :: "media_crates \<Rightarrow> string \<Rightarrow> upload_draft \<Rightarrow> head_object \<Rightarrow> bool" where
  "intended_object C random d h \<longleftrightarrow> ho_size h = ud_size d \<and>
     Option.bind (ho_content_type h) normalize_content_type = Some (ud_content_type d) \<and> ho_marker h = Some (random_token C random)"

lemma intent_verifies:
  assumes "crates_ok C" "create_upload_intent_at C S random d now = Inr i" "length (ui_token i) \<le> max_intent_bytes"
    and "ms_backend S = Some B" "mb_head B (ui_object_key i) later w = (Inr (Some h), w')" "intended_object C random d h"
    and "now \<le> later" "unix_timestamp later \<le> ui_expires_at i"
  shows "verify_uploaded_intent_at C S (ui_token i) (ud_connection_id d) (ud_loan_account d) later w = (Inr (intended_upload d i), w')"
proof -
  obtain key where c: "ms_intent_key S = Some key" "validate_upload_draft d = Inr ()"
    "generated_photo_key d (unix_timestamp now) (random_token C random) = Inr (ui_object_key i)"
    "photo_route_url (ui_object_key i) = Inr (ui_image_url i)"
    "sign_claims C (intent_claims d (unix_timestamp now) (ui_object_key i) (random_token C random)) key = Inr (ui_token i)"
    "ui_expires_at i = unix_timestamp now + upload_expiry_seconds"
    by (rule created_intent [OF assms(2)]) blast
  have "unix_timestamp now \<le> unix_timestamp later"
    using assms(7) by (simp add: unix_timestamp_def second_def zdiv_mono1)
  then have v: "verify_claims C (ui_token i) key (unix_timestamp later) =
      Inr (intent_claims d (unix_timestamp now) (ui_object_key i) (random_token C random))"
    using intent_claims_valid [OF c(2) _ _ sign_then_read [OF assms(1) c(5) assms(3)]] assms(8) c(6) by simp
  have m: "object_matches (intent_claims d (unix_timestamp now) (ui_object_key i) (random_token C random)) h"
    using assms(6) by (simp add: object_matches_def intended_object_def intent_claims_def)
  show ?thesis
    using assms(4,5) c(1) v m c(4) generated_key_canonical [OF c(3)]
    by (simp add: verify_uploaded_intent_at_def bnd_Inr thn_Inr lift_res_Inr require_Inr some_or_Inr ok_Inr enabled_def)
      (simp add: intent_claims_def intended_upload_def)
qed

text \<open>C16: An upload intent is honoured: once the object that it asked for is stored, its token verifies for its connection and loan
  until it expires (five minutes), with exactly the draft's fields and the key and URL of the intent.\<close>

theorem intent_roundtrip:
  assumes "crates_ok C" "create_upload_intent_at C S random d now = Inr i" "length (ui_token i) \<le> max_intent_bytes"
    and "ms_backend S = Some B" "mb_head B (ui_object_key i) later w = (Inr (Some h), w')" "intended_object C random d h"
    and "now \<le> later" "unix_timestamp later \<le> ui_expires_at i"
  shows "verify_uploaded_intent_at C S (ui_token i) (ud_connection_id d) (ud_loan_account d) later w = (Inr (intended_upload d i), w')"
  using assms by (rule intent_verifies)

text \<open>C15: Nothing unsigned, expired, redirected or absent is accepted. A verified upload has a token of two parts; the second is
  the HMAC of the first under this service's key, and the first carries claims of version 1, issued at most a minute ahead, not older than
  their 300 seconds, for the connection and the loan of the request, with an image type and a size of at most 25 MiB. The
  stored object under the claimed key, which is safe, has the claimed size, type and marker, and the result says exactly what was claimed.
  (The code's sums of seconds are 64-bit; only claims that this service signed reach them.)\<close>

theorem verified_upload_signed:
  assumes "verify_uploaded_intent_at C S token connection_id loan now w = (Inr v, w')"
  shows "\<exists>B key payload signature bytes c h type. ms_backend S = Some B \<and> ms_intent_key S = Some key \<and>
     token = payload @ ''.'' @ signature \<and> CHR ''.'' \<notin> set payload \<and> CHR ''.'' \<notin> set signature \<and>
     mc_decode C signature = Some (mc_hmac C key payload) \<and> mc_decode C payload = Some bytes \<and> mc_from_json C bytes = Some c \<and>
     uc_version c = 1 \<and> uc_issued_at c \<le> unix_timestamp now + 60 \<and> uc_expires_at c = uc_issued_at c + 300 \<and>
     unix_timestamp now \<le> uc_expires_at c \<and> uc_connection_id c = connection_id \<and> uc_loan_account c = loan \<and>
     0 < uc_size c \<and> uc_size c \<le> 25 * 1024 * 1024 \<and> uc_content_type c \<in> {''image/jpeg'', ''image/png'', ''image/webp''} \<and>
     safe_key (uc_object_key c) \<and> mb_head B (uc_object_key c) now w = (Inr (Some h), w') \<and> ho_size h = uc_size c \<and>
     ho_content_type h = Some type \<and> trim (hd (split_on (CHR '';'') type)) = uc_content_type c \<and> ho_marker h = Some (uc_marker c) \<and>
     v = \<lparr>vu_connection_id = connection_id, vu_loan_account = loan, vu_file_name = uc_file_name c, vu_content_type = uc_content_type c,
       vu_size = uc_size c, vu_object_key = uc_object_key c, vu_image_url = vu_image_url v\<rparr>"
proof -
  from assms obtain B key c h k where 1: "ms_backend S = Some B" "ms_intent_key S = Some key"
    "verify_claims C token key (unix_timestamp now) = Inr c" "uc_connection_id c = connection_id" "uc_loan_account c = loan"
    "canonical_key (uc_object_key c) = Inr k" "mb_head B (uc_object_key c) now w = (Inr (Some h), w')" "object_matches c h"
    "v = \<lparr>vu_connection_id = connection_id, vu_loan_account = loan, vu_file_name = uc_file_name c, vu_content_type = uc_content_type c,
       vu_size = uc_size c, vu_object_key = uc_object_key c, vu_image_url = vu_image_url v\<rparr>"
    by (fastforce simp: verify_uploaded_intent_at_def bnd_Inr thn_Inr lift_res_Inr require_Inr some_or_Inr ok_Inr enabled_Inr)
  from 1(3) have s: "signed_claims C token key = Inr c" "uc_version c = 1" "uc_issued_at c \<le> unix_timestamp now + 60"
    "uc_expires_at c = uc_issued_at c + 300" "unix_timestamp now \<le> uc_expires_at c" and d: "validate_upload_draft (claims_draft c) = Inr ()"
    by (auto simp: verify_claims_def rbnd_eq_Inr upload_expiry_seconds_def split: if_splits)
  from s(1) obtain payload signature bytes where p: "split_once (CHR ''.'') token = Some (payload, signature)" "CHR ''.'' \<notin> set signature"
    "mc_decode C signature = Some (mc_hmac C key payload)" "mc_decode C payload = Some bytes" "mc_from_json C bytes = Some c"
    by (auto simp: signed_claims_def rbnd_eq_Inr or_error_Inr split: if_splits)
  have t: "token = payload @ ''.'' @ signature" "CHR ''.'' \<notin> set payload" using split_once_Some [OF p(1)] by simp_all
  from d have z: "0 < uc_size c" "uc_size c \<le> 25 * 1024 * 1024" and n: "normalize_content_type (uc_content_type c) = Some (uc_content_type c)"
    by (simp_all add: validate_upload_draft_def claims_draft_def max_upload_bytes_def split: if_splits)
  from n have image: "uc_content_type c \<in> {''image/jpeg'', ''image/png'', ''image/webp''}"
    by (auto simp: normalize_content_type_def Let_def split: if_splits)
  from 1(8) obtain type where h: "ho_size h = uc_size c" "ho_content_type h = Some type" "normalize_content_type type = Some (uc_content_type c)"
    "ho_marker h = Some (uc_marker c)" by (cases "ho_content_type h") (auto simp: object_matches_def)
  from h(3) have "trim (hd (split_on (CHR '';'') type)) = uc_content_type c"
    by (auto simp: normalize_content_type_def Let_def split: if_splits)
  moreover have "safe_key (uc_object_key c)" using canonical_key_safe [OF 1(6)] by blast
  ultimately show ?thesis using 1(1,2,4,5,7,9) s(2-5) p(2-5) t z image h(1,2,4) by blast
qed

lemma verified_url:
  assumes "verify_uploaded_intent_at C S token connection_id loan now w = (Inr v, w')"
  shows "photo_route_url (vu_object_key v) = Inr (vu_image_url v)" "vu_connection_id v = connection_id" "vu_loan_account v = loan"
  using assms
  by (auto simp: verify_uploaded_intent_at_def bnd_Inr thn_Inr lift_res_Inr require_Inr some_or_Inr ok_Inr)

lemma verified_again:
  assumes "verify_uploaded_intent_at C S token i loan t w = (Inr v, w')" "verify_uploaded_intent_at C S token j loan' u x = (Inr v', x')"
  shows "v' = v"
  using assms
  by (auto simp: verify_uploaded_intent_at_def bnd_Inr thn_Inr lift_res_Inr require_Inr some_or_Inr ok_Inr verify_claims_def
      rbnd_eq_Inr split: if_splits)

lemma verified_utf8:
  assumes "verify_uploaded_intent_at C S token i loan t w = (Inr v, w')" "crates_ok C"
  shows "utf8_ok (vu_object_key v)"
proof -
  obtain key c where c: "signed_claims C token key = Inr c" "vu_object_key v = uc_object_key c"
    using assms(1)
    by (fastforce simp: verify_uploaded_intent_at_def bnd_Inr thn_Inr lift_res_Inr require_Inr some_or_Inr ok_Inr verify_claims_def
        rbnd_eq_Inr split: if_splits)
  then obtain payload where "mc_from_json C payload = Some c"
    by (auto simp: signed_claims_def rbnd_eq_Inr or_error_Inr split: if_splits prod.splits)
  then have "utf8_ok (uc_object_key c)" using assms(2) unfolding crates_ok_def by blast
  then show ?thesis using c(2) by simp
qed

subsection \<open>Writes that never replace\<close>

text \<open>
  What S3 documents of the two requests, over the objects that a world holds under their addresses (a URL without its query). A PUT
  with \<open>if-none-match: *\<close> stores body and headers only under an unused address; answered with 409 or 412 it stores nothing. A
  successful HEAD reports length, type and metadata of the object that is there.
\<close>

record stored_object =
  ob_body :: string
  ob_headers :: "(string \<times> string) list"

definition url_address :: "string \<Rightarrow> string" where
  "url_address url = takeWhile (\<lambda>c. c \<noteq> CHR ''?'') url"

definition honest_store :: "'w http_client \<Rightarrow> ('w \<Rightarrow> string \<Rightarrow> stored_object option) \<Rightarrow> bool" where
  "honest_store H objects \<longleftrightarrow>
     (\<forall>url headers body w status w'. hc_put H url headers body w = (Some status, w') \<and> map_of headers ''if-none-match'' = Some ''*'' \<longrightarrow>
        (200 \<le> status \<and> status < 300 \<longrightarrow> objects w (url_address url) = None \<and> objects w' = (objects w)(url_address url \<mapsto>
          \<lparr>ob_body = body, ob_headers = filter (\<lambda>(n, _). n \<noteq> ''if-none-match'') headers\<rparr>)) \<and>
        (status \<in> {409, 412} \<longrightarrow> objects w' = objects w)) \<and>
     (\<forall>url w reply w'. hc_head H url w = (Some reply, w') \<longrightarrow> objects w' = objects w \<and>
        (200 \<le> so_status reply \<and> so_status reply < 300 \<longrightarrow> (\<exists>ob. objects w (url_address url) = Some ob \<and>
          so_header reply ''content-length'' = Some (show_nat (length (ob_body ob))) \<and>
          so_header reply ''content-type'' = map_of (ob_headers ob) ''content-type'' \<and>
          so_header reply sha256_header = map_of (ob_headers ob) sha256_header)))"

lemma presigned_address:
  assumes "s3_presign D C cfg host m key headers expires now = Inr url"
  shows "safe_key key" "url_address url = url_address (uv_scheme (s3_endpoint cfg) @ ''://'' @ host @ object_uri cfg key)"
proof -
  obtain k where k: "canonical_key key = Inr k" using assms by (auto simp: s3_presign_def rbnd_eq_Inr)
  with canonical_key_safe [OF k] show "safe_key key" by blast
  define a where "a = uv_scheme (s3_endpoint cfg) @ ''://'' @ host @ object_uri cfg key"
  obtain q where "url = a @ ''?'' @ q"
    using assms k canonical_key_safe [OF k] unfolding a_def s3_presign_def Let_def by auto
  then have "url_address url = url_address a" by (simp add: url_address_def takeWhile_append takeWhile_eq_all_conv [THEN iffD2])
  then show "url_address url = url_address (uv_scheme (s3_endpoint cfg) @ ''://'' @ host @ object_uri cfg key)" by (simp only: a_def)
qed

lemma parse_shown: "parse_u64 (show_nat n) = Some m \<Longrightarrow> m = n"
proof -
  have "\<not> is_digit (CHR ''+'')" by code_simp
  then have "hd (show_nat n) \<noteq> CHR ''+''"
    using show_nat_digits [of n] show_nat_not_Nil [of n] by (cases "show_nat n") auto
  then have "(case show_nat n of CHR ''+'' # cs \<Rightarrow> cs | _ \<Rightarrow> show_nat n) = show_nat n"
    using show_nat_not_Nil [of n] by (cases "show_nat n") (auto split: char.splits bool.splits)
  then show "parse_u64 (show_nat n) = Some m \<Longrightarrow> m = n"
    by (auto simp: parse_u64_def Let_def digits_val_show split: if_splits)
qed

lemma answer_Inr: "(case p of (a, w') \<Rightarrow> (or_error e a, w')) = (Inr x, t) \<longleftrightarrow> p = (Some x, t)"
  by (cases p) (auto simp: or_error_Inr)

lemma head_read:
  assumes "honest_store H objects" "s3_head D C H cfg host key now w = (Inr (Some h), w')"
  defines "a \<equiv> url_address (uv_scheme (s3_endpoint cfg) @ ''://'' @ host @ object_uri cfg key)"
  shows "objects w' = objects w \<and> (\<exists>ob. objects w a = Some ob \<and> ho_size h = length (ob_body ob) \<and>
    ho_content_type h = map_of (ob_headers ob) ''content-type'' \<and> ho_sha256 h = map_of (ob_headers ob) sha256_header)"
proof -
  obtain url reply where u: "s3_presign D C cfg host ''HEAD'' key [] 30 now = Inr url"
    and r: "hc_head H url w = (Some reply, w')" "read_head reply = Inr (Some h)"
    using assms(2) by (auto simp: s3_head_def bnd_Inr lift_res_Inr answer_Inr)
  have ok: "200 \<le> so_status reply \<and> so_status reply < 300" "Option.bind (so_header reply ''content-length'') parse_u64 = Some (ho_size h)"
    "ho_content_type h = so_header reply ''content-type''" "ho_sha256 h = so_header reply sha256_header"
    using r(2) by (auto simp: read_head_def rbnd_eq_Inr or_error_Inr success_def split: if_splits)
  from assms(1) r(1) ok(1) obtain ob where "objects w' = objects w" "objects w (url_address url) = Some ob"
      "so_header reply ''content-length'' = Some (show_nat (length (ob_body ob)))"
      "so_header reply ''content-type'' = map_of (ob_headers ob) ''content-type''" "so_header reply sha256_header = map_of (ob_headers ob) sha256_header"
    unfolding honest_store_def by blast
  with ok presigned_address(2) [OF u] show ?thesis by (auto simp: a_def dest: parse_shown)
qed

text \<open>C17: A write of provider bytes never replaces an object. When it reports success, the key is safe, and either there was no object
  under its address and now there is one with exactly these bytes, the given type and their SHA-256 as metadata, or there was one, which
  is untouched, and it has the length of the bytes, the given type, and their SHA-256 as its recorded digest. No other address changes.\<close>

theorem stored_bytes:
  assumes "honest_store H objects" "media_from_config D C H later cfg = Inr S"
    and "put_canonical_if_absent_at C S key body content_type now w = (Inr h, w')"
  shows "safe_key key \<and> (\<exists>host a. endpoint_host (s3_endpoint cfg) = Inr host \<and>
     a = url_address (uv_scheme (s3_endpoint cfg) @ ''://'' @ host @ object_uri cfg key) \<and>
     (objects w a = None \<and> objects w' = (objects w)(a \<mapsto> \<lparr>ob_body = body, ob_headers =
         [(''content-type'', content_type), (''x-amz-meta-trust-deeds-sha256'', hex_bytes (mc_sha256 C body))]\<rparr>) \<or>
      objects w' = objects w \<and> (\<exists>ob type. objects w a = Some ob \<and> length (ob_body ob) = length body \<and>
         map_of (ob_headers ob) ''content-type'' = Some type \<and> trim (hd (split_on (CHR '';'') type)) = content_type \<and>
         map_of (ob_headers ob) ''x-amz-meta-trust-deeds-sha256'' = Some (hex_bytes (mc_sha256 C body)))))"
proof -
  obtain host where host: "endpoint_host (s3_endpoint cfg) = Inr host" and S: "ms_backend S = Some (s3_backend D C H later cfg host)"
    using assms(2) by (auto simp: media_from_config_def rbnd_eq_Inr)
  define a where "a = url_address (uv_scheme (s3_endpoint cfg) @ ''://'' @ host @ object_uri cfg key)"
  define hs where "hs = [(''content-type'', content_type), (''if-none-match'', ''*''), (sha256_header, hex_digest C body)]"
  have put: "s3_put_if_absent D C H later cfg host key body content_type (hex_digest C body) now w = (Inr h, w')"
    using assms(3) S by (auto simp: put_canonical_if_absent_at_def thn_Inr bnd_Inr lift_res_Inr require_Inr enabled_Inr s3_backend_def)
  then obtain url status u where 1: "s3_presign D C cfg host ''PUT'' key hs 30 now = Inr url"
    "hc_put H url hs body w = (Some status, u)" "success status \<or> status = 412 \<or> status = 409"
    "s3_head D C H cfg host key later u = (Inr (Some h), w')" "same_content (length body) content_type (hex_digest C body) h"
    by (auto simp: s3_put_if_absent_def Let_def bnd_Inr thn_Inr lift_res_Inr require_Inr some_or_Inr ok_Inr answer_Inr hs_def)
  have addr: "url_address url = a" using presigned_address(2) [OF 1(1)] by (simp only: a_def)
  have n: "map_of hs ''if-none-match'' = Some ''*''" by (simp add: hs_def)
  have f: "filter (\<lambda>(n, _). n \<noteq> ''if-none-match'') hs = [(''content-type'', content_type), (sha256_header, hex_digest C body)]"
    by (simp add: hs_def sha256_header_def)
  from assms(1) 1(2) n have p: "success status \<Longrightarrow> objects w a = None \<and> objects u = (objects w)(a \<mapsto>
        \<lparr>ob_body = body, ob_headers = [(''content-type'', content_type), (sha256_header, hex_digest C body)]\<rparr>)"
    "status \<in> {409, 412} \<Longrightarrow> objects u = objects w"
    unfolding honest_store_def success_def addr [symmetric] f [symmetric] by blast+
  from head_read [OF assms(1) 1(4), folded a_def] obtain ob where ob: "objects w' = objects u" "objects u a = Some ob"
    "ho_size h = length (ob_body ob)" "ho_content_type h = map_of (ob_headers ob) ''content-type''"
    "ho_sha256 h = map_of (ob_headers ob) sha256_header" by blast
  have "objects w a = None \<and> objects w' = (objects w)(a \<mapsto> \<lparr>ob_body = body, ob_headers = [(''content-type'', content_type), (sha256_header, hex_digest C body)]\<rparr>) \<or>
      objects w' = objects w \<and> (\<exists>ob type. objects w a = Some ob \<and> length (ob_body ob) = length body \<and>
         map_of (ob_headers ob) ''content-type'' = Some type \<and> trim (hd (split_on (CHR '';'') type)) = content_type \<and>
         map_of (ob_headers ob) sha256_header = Some (hex_digest C body))"
  proof (cases "success status")
    case True
    with p(1) ob(1) show ?thesis by simp
  next
    case False
    then have "objects u = objects w" using 1(3) p(2) by auto
    with ob 1(5) show ?thesis by (auto simp: same_content_def)
  qed
  moreover have "safe_key key" by (rule presigned_address(1) [OF 1(1)])
  ultimately show ?thesis using host unfolding hex_digest_def sha256_header_def a_def by blast
qed

end
