(* ===== verification/Float_Parse.thy ===== *)
theory Float_Parse
  imports Float64 Rust_Text
begin

text \<open>
  \<open>str::parse::<f64>\<close> of Rust's standard library, which the workspace form uses: an optional sign, decimal digits with an
  optional point and exponent, or \<open>inf\<close>, \<open>infinity\<close>, \<open>nan\<close> in any case. The value is the nearest binary64 number, ties to
  even (\<open>f64_of_ratio\<close> rounds a quotient counted in units of $2^{-1074}$).
\<close>

definition f64_of_ratio :: "bool \<Rightarrow> nat \<Rightarrow> nat \<Rightarrow> f64" where
  "f64_of_ratio neg num den =
     (let k = floorlog 2 (num div den) - 53; d = den * 2 ^ k; a = num div d; r = num mod d;
          m = (if d < 2 * r \<or> 2 * r = d \<and> odd a then a + 1 else a) * 2 ^ k
      in if 2 ^ 2098 \<le> m then Inf neg else Fin neg m)"

definition signed_text :: "string \<Rightarrow> bool \<times> string" where
  "signed_text s = (case s of [] \<Rightarrow> (False, []) | c # cs \<Rightarrow>
     if c = CHR ''-'' then (True, cs) else if c = CHR ''+'' then (False, cs) else (False, s))"

definition parse_exponent :: "string \<Rightarrow> int option" where
  "parse_exponent s = (case signed_text s of (neg, ds) \<Rightarrow>
     if ds \<noteq> [] \<and> list_all is_digit ds then Some (if neg then - int (digits_val ds) else int (digits_val ds)) else None)"

definition parse_decimal :: "bool \<Rightarrow> string \<Rightarrow> int \<Rightarrow> f64 option" where
  "parse_decimal neg mantissa e =
     (let (whole, fraction) = (case split_once (CHR ''.'') mantissa of None \<Rightarrow> (mantissa, []) | Some p \<Rightarrow> p);
          digits = whole @ fraction; shift = e - int (length fraction)
      in if digits \<noteq> [] \<and> list_all is_digit digits
         then Some (f64_of_ratio neg (digits_val digits * 10 ^ nat shift * 2 ^ 1074) (10 ^ nat (- shift))) else None)"

definition parse_f64 :: "string \<Rightarrow> f64 option" where
  "parse_f64 s = (case signed_text s of (neg, body) \<Rightarrow>
     let low = ascii_lower body in
     if low = ''inf'' \<or> low = ''infinity'' then Some (Inf neg)
     else if low = ''nan'' then Some NaN
     else (case split_once (CHR ''e'') low of None \<Rightarrow> parse_decimal neg low 0
       | Some (mantissa, ex) \<Rightarrow> Option.bind (parse_exponent ex) (parse_decimal neg mantissa)))"

lemma ratio_whole: "f64_of_ratio neg m (Suc 0) = f64_round neg m"
proof (cases "floorlog 2 m - 53")
  case 0
  then show ?thesis by (simp add: f64_of_ratio_def f64_round_def rnd53_def Let_def)
next
  case (Suc j)
  have "2 ^ Suc j < 2 * r \<longleftrightarrow> 2 ^ j < r" "2 * r = 2 ^ Suc j \<longleftrightarrow> r = 2 ^ j" for r :: nat by auto
  then show ?thesis using Suc by (simp add: f64_of_ratio_def f64_round_def rnd53_def Let_def del: power_Suc)
qed

lemma ratio_sign: "f64_of_ratio neg a b = Fin s m \<Longrightarrow> s = neg"
  by (auto simp: f64_of_ratio_def Let_def split: if_splits)

lemma split_once_none: "c \<notin> set s \<Longrightarrow> split_once c s = None"
  by (induction s) auto

lemma digits_plain: "is_digit c \<Longrightarrow> lower_char c = c \<and> c \<noteq> CHR ''-'' \<and> c \<noteq> CHR ''+'' \<and> c \<noteq> CHR ''.'' \<and> c \<noteq> CHR ''e'' \<and> c \<noteq> CHR ''i'' \<and> c \<noteq> CHR ''n''"
  by (auto simp: is_digit_def lower_char_def is_upper_def code_def)

lemma parse_digits:
  assumes "ds \<noteq> []" "list_all is_digit ds"
  shows "parse_f64 ds = Some (f64_round False (digits_val ds * 2 ^ 1074))"
proof -
  obtain c cs where ds: "ds = c # cs" using assms(1) by (cases ds) auto
  have d: "is_digit x" if "x \<in> set ds" for x using assms(2) that by (simp add: list_all_iff)
  have low: "ascii_lower ds = ds" unfolding ascii_lower_def by (rule map_idI) (use d digits_plain in blast)
  have n: "CHR ''.'' \<notin> set ds" "CHR ''e'' \<notin> set ds" using d digits_plain by blast+
  have "signed_text ds = (False, ds)" using d digits_plain by (simp add: signed_text_def ds)
  moreover have "ds \<noteq> ''inf''" "ds \<noteq> ''infinity''" "ds \<noteq> ''nan''" using d [of c] digits_plain [of c] by (auto simp: ds)
  ultimately show ?thesis
    using assms n by (simp add: parse_f64_def low split_once_none parse_decimal_def ratio_whole)
qed

end
