(* ===== verification/Site_Http.thy ===== *)
theory Site_Http
  imports Workspace_Laws Media_Intent Float_Parse
begin

text \<open>
  The workspace and inbox requests, \<open>src/media/http.rs\<close> and \<open>src/workspace_inbox/http.rs\<close>, over the whole site: the
  application's tables, the workspaces and photos, the mail, and the world behind the object store. A reply is its status,
  its \<open>Location\<close> and the values that its body or template shows. \<open>sx_others\<close> is what other requests do between the two
  halves of a finalize request, which reads the object store outside any transaction; the instants are those at which the
  statements of a request run.
\<close>

subsection \<open>State, environment, replies\<close>

record 'w site =
  si_app :: app_db
  si_loans :: loan_db
  si_mail :: mail_db
  si_world :: 'w

record 'w site_env =
  sx_connects :: "nat \<Rightarrow> bool"
  sx_clock :: "nat \<Rightarrow> instant"
  sx_random :: string
  sx_mail :: mail_ext
  sx_crates :: media_crates
  sx_parse_url :: "string \<Rightarrow> url_view option"
  sx_header_ok :: "string \<Rightarrow> bool"
  sx_others :: "'w site \<Rightarrow> 'w site"

record loan_item =
  li_loan_account :: string
  li_borrower_name :: "string option"
  li_address :: "string option"
  li_city :: "string option"
  li_state :: "string option"
  li_image_url :: "string option"
  li_property_type :: "string option"
  li_percent_owned :: "f64 option"
  li_note_rate :: "f64 option"
  li_principal_balance :: "f64 option"
  li_regular_payment :: "f64 option"
  li_maturity_date :: "string option"
  li_next_payment_date :: "string option"
  li_interest_paid_to :: "string option"
  li_is_delinquent :: bool

datatype site_body = EmptyBody | NotFoundPage | SiteText string | PanelText string | SiteJsonError string string
  | FinalizedBody int string | IntentBody upload_intent | InboxPage "inbox_item list" "loan_item list" bool
  | EmailPage string email_row "attachment_row list" "string list" "loan_item list"
  | EmailPanel email_row "attachment_row list" "string list"

record site_reply =
  sy_status :: nat
  sy_location :: "string option"
  sy_body :: site_body

definition site_reply_of :: "nat \<Rightarrow> site_body \<Rightarrow> site_reply" where
  "site_reply_of status body = \<lparr>sy_status = status, sy_location = None, sy_body = body\<rparr>"

definition see_other :: "string \<Rightarrow> site_reply" where
  "see_other uri = \<lparr>sy_status = 303, sy_location = Some uri, sy_body = EmptyBody\<rparr>"

definition site_not_found :: site_reply where
  "site_not_found = site_reply_of 404 NotFoundPage"

definition storage_reply :: site_reply where
  "storage_reply = site_reply_of 500 (SiteText ''Could not complete this request.'')"

definition media_json_error :: "media_error \<Rightarrow> site_reply" where
  "media_json_error e =
     (if e \<in> {InvalidInput, InvalidKey, InvalidIntent}
      then site_reply_of 422 (SiteJsonError ''invalid_media_request'' ''The media request is invalid.'')
      else if e = ExpiredIntent then site_reply_of 409 (SiteJsonError ''upload_expired'' ''The upload expired. Choose the file again.'')
      else if e = ObjectMissing then site_reply_of 409 (SiteJsonError ''upload_missing'' ''The direct upload has not completed.'')
      else if e = ObjectMismatch
      then site_reply_of 422 (SiteJsonError ''upload_mismatch'' ''The uploaded object does not match the requested file.'')
      else if e \<in> {MediaDisabled, MediaConfiguration}
      then site_reply_of 503 (SiteJsonError ''media_unavailable'' ''Media storage is not configured.'')
      else site_reply_of 502 (SiteJsonError ''media_unavailable'' ''Media storage is temporarily unavailable.''))"

definition workspace_validation_error :: site_reply where
  "workspace_validation_error =
     site_reply_of 422 (SiteText ''Check the workspace links and contribution amounts, then try again.'')"

definition workspace_repository_error :: "inbox_error \<Rightarrow> site_reply" where
  "workspace_repository_error e = (case e of InboxValidation _ \<Rightarrow> workspace_validation_error | InboxNotFound _ \<Rightarrow> site_not_found
     | _ \<Rightarrow> storage_reply)"

definition workspace_json_error :: "inbox_error \<Rightarrow> site_reply" where
  "workspace_json_error e = (case e of InboxValidation _ \<Rightarrow> media_json_error InvalidInput
     | InboxNotFound _ \<Rightarrow> site_reply_of 404 (SiteJsonError ''not_found'' ''Photo not found.'')
     | InboxConflict _ \<Rightarrow> site_reply_of 409 (SiteJsonError ''photo_conflict'' ''The photo changed. Refresh and try again.'')
     | InboxStorage _ \<Rightarrow> site_reply_of 500 (SiteJsonError ''storage_unavailable'' ''Could not save the photo.''))"

subsection \<open>Loans\<close>

definition known_connection :: "'w site \<Rightarrow> int \<Rightarrow> bool" where
  "known_connection s i = list_ex (\<lambda>c. cn_id c = i) (op_connections (ap_ops (si_app s)))"

definition tmo_loan_by_account :: "int \<Rightarrow> string \<Rightarrow> app_db \<Rightarrow> loan_row option" where
  "tmo_loan_by_account i loan db = find (\<lambda>l. lo_connection_id l = i \<and> lo_account l = loan) (ap_loans db)"

definition resolve_loan :: "'w site_env \<Rightarrow> nat \<Rightarrow> string \<Rightarrow> string \<Rightarrow> 'w site \<Rightarrow> site_reply + int \<times> loan_row" where
  "resolve_loan E n slug loan s =
     (if 64 < length slug \<or> loan = [] \<or> 128 < length loan then Inl site_not_found
      else if \<not> sx_connects E n then Inl storage_reply
      else (case fst (connection_by_slug slug (ap_ops (si_app s))) of
          Inl _ \<Rightarrow> Inl storage_reply
        | Inr None \<Rightarrow> Inl site_not_found
        | Inr (Some c) \<Rightarrow> if \<not> (cn_slug c = ''tmo'' \<and> cn_provider c = ''mortgage_office'') then Inl site_not_found
            else (case tmo_loan_by_account (cn_id c) loan (si_app s) of
                None \<Rightarrow> Inl site_not_found | Some l \<Rightarrow> Inr (cn_id c, l))))"

definition first_image :: "loan_db \<Rightarrow> loan_row \<Rightarrow> string option" where
  "first_image db l = map_option ph_image_url (first_by (\<lambda>p. (\<not> ph_is_featured p, ph_sort_order p, ph_id p))
     (in_workspace (lo_connection_id l) (lo_account l)) (photos db))"

definition loan_item_of :: "loan_db \<Rightarrow> loan_row \<Rightarrow> loan_item" where
  "loan_item_of db l = \<lparr>li_loan_account = lo_account l, li_borrower_name = lo_borrower_name l, li_address = lo_address l,
     li_city = lo_city l, li_state = lo_state l, li_image_url = first_image db l, li_property_type = lo_property_type l,
     li_percent_owned = lo_percent_owned l, li_note_rate = lo_note_rate l, li_principal_balance = lo_principal_balance l,
     li_regular_payment = lo_regular_payment l, li_maturity_date = lo_maturity_date l,
     li_next_payment_date = lo_next_payment_date l, li_interest_paid_to = lo_interest_paid_to l,
     li_is_delinquent = lo_is_delinquent l\<rparr>"

text \<open>\<open>ORDER BY loan_account COLLATE NOCASE, id\<close>: the rows are in the order of their ids.\<close>

definition list_active_tmo_loan_views :: "int \<Rightarrow> app_db \<Rightarrow> loan_db \<Rightarrow> loan_item list" where
  "list_active_tmo_loan_views i app db = map (loan_item_of db)
     (sort_key (\<lambda>l. ascii_lower (lo_account l)) (filter (\<lambda>l. lo_connection_id l = i \<and> lo_is_active l) (ap_loans app)))"

definition page_storage_error :: site_reply where
  "page_storage_error = site_reply_of 500 (SiteText ''Could not load this page.'')"

definition active_tmo_loans :: "'w site \<Rightarrow> site_reply + loan_item list" where
  "active_tmo_loans s = (case fst (connection_by_slug ''tmo'' (ap_ops (si_app s))) of
       Inl _ \<Rightarrow> Inl page_storage_error
     | Inr None \<Rightarrow> Inr []
     | Inr (Some c) \<Rightarrow> if cn_provider c \<noteq> ''mortgage_office'' \<or> cn_status c \<notin> {''active'', ''degraded'', ''error''}
         then Inl page_storage_error else Inr (list_active_tmo_loan_views (cn_id c) (si_app s) (si_loans s)))"

subsection \<open>Workspaces\<close>

record workspace_form =
  wf_redfin_url :: "string option"
  wf_zillow_url :: "string option"
  wf_decision_status :: "string option"
  wf_target :: "string option"
  wf_actual :: "string option"
  wf_notes :: "string option"

definition normalize_optional :: "string option \<Rightarrow> nat \<Rightarrow> unit + string option" where
  "normalize_optional v max_bytes = (case v of None \<Rightarrow> Inr None
     | Some raw \<Rightarrow> let t = trim raw in
         if t = [] then Inr None else if max_bytes < length t \<or> CHR 0x00 \<in> set t then Inl () else Inr (Some t))"

definition parse_optional_money :: "string option \<Rightarrow> unit + f64 option" where
  "parse_optional_money v = rbnd (normalize_optional v 64) (\<lambda>t. case t of None \<Rightarrow> Inr None
     | Some s \<Rightarrow> (case parse_f64 (filter (\<lambda>c. c \<noteq> CHR '','') s) of None \<Rightarrow> Inl ()
         | Some x \<Rightarrow> if \<not> is_finite x \<or> f64_lt x f64_zero then Inl () else Inr (Some x)))"

definition workspace_draft_of :: "int \<Rightarrow> string \<Rightarrow> workspace_form \<Rightarrow> unit + workspace_draft" where
  "workspace_draft_of i loan f =
     rbnd (normalize_optional (wf_redfin_url f) 2048) (\<lambda>redfin.
     rbnd (normalize_optional (wf_zillow_url f) 2048) (\<lambda>zillow.
     rbnd (normalize_optional (wf_decision_status f) 32) (\<lambda>status.
     rbnd (parse_optional_money (wf_target f)) (\<lambda>target.
     rbnd (parse_optional_money (wf_actual f)) (\<lambda>actual.
     rbnd (normalize_optional (wf_notes f) 20000) (\<lambda>notes.
       Inr \<lparr>wd_connection_id = i, wd_loan_account = loan, wd_redfin_url = redfin, wd_zillow_url = zillow,
         wd_decision_status = status, wd_target = target, wd_actual = actual, wd_notes = notes\<rparr>))))))"

definition workspace_destination :: "string \<Rightarrow> string \<Rightarrow> string" where
  "workspace_destination slug loan = ''/integrations/'' @ encode_route_segment slug @ ''/loans/'' @ encode_route_segment loan @ ''#workspace''"

definition on_loans :: "'w site \<Rightarrow> 'a loan_op \<Rightarrow> (inbox_error + 'a) \<times> 'w site" where
  "on_loans s m = (case m (si_loans s) of (r, db) \<Rightarrow> (r, s\<lparr>si_loans := db\<rparr>))"

definition save_workspace :: "'w site_env \<Rightarrow> string \<Rightarrow> string \<Rightarrow> workspace_form \<Rightarrow> 'w site \<Rightarrow> site_reply \<times> 'w site" where
  "save_workspace E slug loan form s = (case resolve_loan E 0 slug loan s of Inl r \<Rightarrow> (r, s)
     | Inr (i, _) \<Rightarrow> (case workspace_draft_of i loan form of Inl _ \<Rightarrow> (workspace_validation_error, s)
         | Inr d \<Rightarrow> (case on_loans s (upsert_workspace (sx_mail E) (sx_parse_url E) (known_connection s) (sx_clock E 0) d) of
             (Inl e, s') \<Rightarrow> (workspace_repository_error e, s') | (Inr _, s') \<Rightarrow> (see_other (workspace_destination slug loan), s'))))"

subsection \<open>Photos\<close>

definition create_photo_upload_intent :: "'w site_env \<Rightarrow> 'w media_service \<Rightarrow> string \<Rightarrow> string \<Rightarrow> string \<Rightarrow> string \<Rightarrow> nat \<Rightarrow> 'w site \<Rightarrow>
    site_reply" where
  "create_photo_upload_intent E M slug loan file_name content_type bytes s = (case resolve_loan E 0 slug loan s of Inl r \<Rightarrow> r
     | Inr (i, _) \<Rightarrow> (case create_upload_intent_at (sx_crates E) M (sx_random E) \<lparr>ud_connection_id = i, ud_loan_account = loan,
           ud_file_name = trim file_name, ud_content_type = ascii_lower (trim content_type), ud_size = bytes\<rparr> (sx_clock E 0) of
         Inr intent \<Rightarrow> site_reply_of 200 (IntentBody intent) | Inl e \<Rightarrow> media_json_error e))"

definition photo_caption :: "verified_upload \<Rightarrow> string option" where
  "photo_caption v = (let caption = trim (vu_file_name v) in if caption = [] then None else Some caption)"

text \<open>The second half of a finalize request, once the object store has confirmed the upload \<open>v\<close>.\<close>

definition finalize_verified :: "'w site_env \<Rightarrow> string \<Rightarrow> string \<Rightarrow> verified_upload \<Rightarrow> 'w site \<Rightarrow> site_reply \<times> 'w site" where
  "finalize_verified E slug loan v s = (case resolve_loan E 1 slug loan s of Inl r \<Rightarrow> (r, s)
     | Inr (current, _) \<Rightarrow> if current \<noteq> vu_connection_id v then (media_json_error InvalidIntent, s)
         else (case on_loans s (create_manual_photo_metadata (sx_mail E) (known_connection s) (sx_clock E 1) current loan
               (photo_caption v) (vu_image_url v)) of
             (Inl e, s') \<Rightarrow> (workspace_json_error e, s')
           | (Inr p, s') \<Rightarrow> (site_reply_of 200 (FinalizedBody (ph_id p) (ph_image_url p)), s')))"

definition finalize_photo_upload :: "'w site_env \<Rightarrow> 'w media_service \<Rightarrow> string \<Rightarrow> string \<Rightarrow> string \<Rightarrow> 'w site \<Rightarrow> site_reply \<times> 'w site" where
  "finalize_photo_upload E M slug loan token s = (case resolve_loan E 0 slug loan s of Inl r \<Rightarrow> (r, s)
     | Inr (i, _) \<Rightarrow> (case verify_uploaded_intent_at (sx_crates E) M token i loan (sx_clock E 0) (si_world s) of
         (Inl e, w) \<Rightarrow> (media_json_error e, s\<lparr>si_world := w\<rparr>)
       | (Inr v, w) \<Rightarrow> finalize_verified E slug loan v (sx_others E (s\<lparr>si_world := w\<rparr>))))"

definition photo_action_reply :: "string \<Rightarrow> string \<Rightarrow> (inbox_error + photo_row) \<times> 'w site \<Rightarrow> site_reply \<times> 'w site" where
  "photo_action_reply slug loan r = (case r of (Inr _, s') \<Rightarrow> (see_other (workspace_destination slug loan), s')
     | (Inl (InboxNotFound _), s') \<Rightarrow> (site_not_found, s') | (Inl e, s') \<Rightarrow> (workspace_repository_error e, s'))"

definition feature_photo :: "'w site_env \<Rightarrow> string \<Rightarrow> string \<Rightarrow> int \<Rightarrow> 'w site \<Rightarrow> site_reply \<times> 'w site" where
  "feature_photo E slug loan photo_id s = (case resolve_loan E 0 slug loan s of Inl r \<Rightarrow> (r, s)
     | Inr (i, _) \<Rightarrow> photo_action_reply slug loan (on_loans s (set_featured_photo (sx_mail E) (known_connection s) i loan photo_id)))"

definition delete_photo :: "'w site_env \<Rightarrow> string \<Rightarrow> string \<Rightarrow> int \<Rightarrow> 'w site \<Rightarrow> site_reply \<times> 'w site" where
  "delete_photo E slug loan photo_id s = (case resolve_loan E 0 slug loan s of Inl r \<Rightarrow> (r, s)
     | Inr (i, _) \<Rightarrow> photo_action_reply slug loan (on_loans s (delete_photo_metadata (sx_mail E) (known_connection s) i loan photo_id)))"

definition signed_redirect :: "'w site_env \<Rightarrow> 'w media_service \<Rightarrow> string \<Rightarrow> site_reply" where
  "signed_redirect E M object_key = (case presign_download_at M object_key (sx_clock E 0) of
       Inl MediaDisabled \<Rightarrow> site_reply_of 503 (SiteText ''Media storage is not configured.'')
     | Inl _ \<Rightarrow> site_reply_of 502 (SiteText ''Media is temporarily unavailable.'')
     | Inr url \<Rightarrow> if sx_header_ok E url then \<lparr>sy_status = 307, sy_location = Some url, sy_body = EmptyBody\<rparr>
         else site_reply_of 502 (SiteText ''Media is temporarily unavailable.''))"

definition photo_is_referenced :: "(string \<Rightarrow> url_view option) \<Rightarrow> string \<Rightarrow> string list \<Rightarrow> bool" where
  "photo_is_referenced P object_key locations = list_ex (\<lambda>url. classify_photo P url = Inr (StoredPhoto object_key)) locations"

definition serve_loan_photo :: "'w site_env \<Rightarrow> 'w media_service \<Rightarrow> string \<Rightarrow> 'w site \<Rightarrow> site_reply" where
  "serve_loan_photo E M route_key s = (case photo_key_from_route route_key of Inl _ \<Rightarrow> site_not_found
     | Inr object_key \<Rightarrow> if \<not> sx_connects E 0 then storage_reply
         else (case fst (photo_image_locations (si_loans s)) of Inl _ \<Rightarrow> storage_reply
           | Inr locations \<Rightarrow> if photo_is_referenced (sx_parse_url E) object_key locations then signed_redirect E M object_key
               else site_not_found))"

definition serve_email_object :: "'w site_env \<Rightarrow> 'w media_service \<Rightarrow> string \<Rightarrow> 'w site \<Rightarrow> site_reply" where
  "serve_email_object E M route_key s = (case canonical_key route_key of Inl _ \<Rightarrow> site_not_found
     | Inr object_key \<Rightarrow> if \<not> sx_connects E 0 then storage_reply
         else (case fst (email_object_is_referenced object_key (si_mail s)) of Inl _ \<Rightarrow> storage_reply
           | Inr referenced \<Rightarrow> if referenced then signed_redirect E M object_key else site_not_found))"

subsection \<open>The inbox\<close>

definition recipient_addresses :: "mail_ext \<Rightarrow> string \<Rightarrow> string list option" where
  "recipient_addresses N raw = (case mx_json N raw of Some (JsonArray vs) \<Rightarrow> if None \<in> set vs then None else Some (map the vs)
     | _ \<Rightarrow> None)"

definition inbox_page :: "'w site_env \<Rightarrow> bool \<Rightarrow> 'w site \<Rightarrow> site_reply" where
  "inbox_page E show_linked s =
     (if \<not> sx_connects E 0 then page_storage_error
      else (case fst (list_inbox_items show_linked (si_mail s)) of Inl _ \<Rightarrow> page_storage_error
        | Inr items \<Rightarrow> (case active_tmo_loans s of Inl r \<Rightarrow> r
            | Inr loans \<Rightarrow> site_reply_of 200 (InboxPage items loans show_linked))))"

definition detail_title :: "email_row \<Rightarrow> string" where
  "detail_title e = ''Trust Deeds - '' @ (case em_subject e of None \<Rightarrow> ''(no subject)'' | Some t \<Rightarrow> if t = [] then ''(no subject)'' else t)"

definition email_detail_page :: "'w site_env \<Rightarrow> int \<Rightarrow> 'w site \<Rightarrow> site_reply" where
  "email_detail_page E email_id s =
     (if email_id \<le> 0 then site_not_found
      else if \<not> sx_connects E 0 then page_storage_error
      else (case fst (email_detail email_id (si_mail s)) of Inl _ \<Rightarrow> page_storage_error
        | Inr None \<Rightarrow> site_not_found
        | Inr (Some (e, attached)) \<Rightarrow> (case recipient_addresses (sx_mail E) (em_to e) of None \<Rightarrow> page_storage_error
            | Some recipients \<Rightarrow> (case active_tmo_loans s of Inl r \<Rightarrow> r
                | Inr loans \<Rightarrow> site_reply_of 200 (EmailPage (detail_title e) e attached recipients loans)))))"

definition email_panel :: "'w site_env \<Rightarrow> int \<Rightarrow> 'w site \<Rightarrow> site_reply" where
  "email_panel E email_id s =
     (let missing = site_reply_of 404 (PanelText ''Email not found.''); failed = site_reply_of 500 (PanelText ''Could not load this email.'') in
      if email_id \<le> 0 then missing
      else if \<not> sx_connects E 0 then failed
      else (case fst (email_detail email_id (si_mail s)) of Inl _ \<Rightarrow> failed
        | Inr None \<Rightarrow> missing
        | Inr (Some (e, attached)) \<Rightarrow> (case recipient_addresses (sx_mail E) (em_to e) of None \<Rightarrow> failed
            | Some recipients \<Rightarrow> site_reply_of 200 (EmailPanel e attached recipients))))"

definition action_storage_error :: site_reply where
  "action_storage_error = site_reply_of 500 (SiteText ''Could not update this email.'')"

definition action_repository_error :: "inbox_error \<Rightarrow> site_reply" where
  "action_repository_error e = (case e of InboxValidation _ \<Rightarrow> site_reply_of 400 (SiteText ''Invalid loan selection.'')
     | InboxNotFound _ \<Rightarrow> site_reply_of 404 (SiteText ''The email or active imported loan was not found.'')
     | InboxConflict _ \<Rightarrow> site_reply_of 409 (SiteText ''The email link changed. Reload the page and try again.'')
     | InboxStorage _ \<Rightarrow> action_storage_error)"

definition action_redirect :: "int \<Rightarrow> string option \<Rightarrow> site_reply" where
  "action_redirect email_id return_to = see_other (if return_to = Some ''detail'' then ''/inbox/'' @ show_int email_id else ''/inbox'')"

definition email_action :: "'w site_env \<Rightarrow> int \<Rightarrow> string option \<Rightarrow> email_row mail_op \<Rightarrow> 'w site \<Rightarrow> site_reply \<times> 'w site" where
  "email_action E email_id return_to m s =
     (if email_id \<le> 0 then (site_reply_of 404 (SiteText ''Email not found.''), s)
      else if \<not> sx_connects E 0 then (action_storage_error, s)
      else (case m (si_mail s) of (Inr _, db) \<Rightarrow> (action_redirect email_id return_to, s\<lparr>si_mail := db\<rparr>)
        | (Inl e, db) \<Rightarrow> (action_repository_error e, s\<lparr>si_mail := db\<rparr>)))"

definition link_email_request :: "'w site_env \<Rightarrow> int \<Rightarrow> string \<Rightarrow> string option \<Rightarrow> 'w site \<Rightarrow> site_reply \<times> 'w site" where
  "link_email_request E email_id loan return_to s =
     email_action E email_id return_to (link_email_to_imported_tmo_loan (sx_mail E) (si_app s) (sx_clock E 0) email_id loan) s"

definition unlink_email_request :: "'w site_env \<Rightarrow> int \<Rightarrow> string option \<Rightarrow> 'w site \<Rightarrow> site_reply \<times> 'w site" where
  "unlink_email_request E email_id return_to s =
     email_action E email_id return_to (unlink_email (sx_mail E) (sx_clock E 0) email_id) s"

end
