(* ===== verification/Site_Outcome.thy ===== *)
theory Site_Outcome
  imports Site_Http
begin

text \<open>
  What the workspace and inbox requests guarantee over the whole site: a finalize request may be repeated, its photo is then
  served under the URL that it returned, and no object is served that no photo refers to.
\<close>

subsection \<open>Requests that change the site\<close>

definition site_ok :: "mail_ext \<Rightarrow> 'w site \<Rightarrow> bool" where
  "site_ok N s \<longleftrightarrow> loan_valid N (known_connection s) (si_loans s) \<and> loan_ids (si_loans s)"

lemma known_connection_update [simp]: "known_connection (s\<lparr>si_world := w\<rparr>) = known_connection s"
  "known_connection (s\<lparr>si_loans := db\<rparr>) = known_connection s"
  by (rule ext, simp add: known_connection_def)+

lemma site_ok_world [simp]: "site_ok N (s\<lparr>si_world := w\<rparr>) = site_ok N s"
  by (simp add: site_ok_def)

lemma on_loans_ok:
  assumes "on_loans s m = (r, s')" "site_ok N s" "keeps (loan_valid N (known_connection s)) m" "keeps loan_ids m"
  shows "site_ok N s'"
proof -
  obtain db where m: "m (si_loans s) = (r, db)" "s' = s\<lparr>si_loans := db\<rparr>"
    using assms(1) by (auto simp: on_loans_def split: prod.splits)
  show ?thesis using keepsD [OF assms(3) _ m(1)] keepsD [OF assms(4) _ m(1)] assms(2) m(2) by (simp add: site_ok_def)
qed

text \<open>The other requests keep the tables' constraints.\<close>

definition orderly :: "'w site_env \<Rightarrow> bool" where
  "orderly E \<longleftrightarrow> (\<forall>s. site_ok (sx_mail E) s \<longrightarrow> site_ok (sx_mail E) (sx_others E s))"

text \<open>Photo \<open>i\<close> is not deleted. Its caption, order and flag may change, its place and its image not.\<close>

definition photo_stays :: "int \<Rightarrow> loan_db \<Rightarrow> loan_db \<Rightarrow> bool" where
  "photo_stays i db db' \<longleftrightarrow> (\<forall>p \<in> set (photos db). ph_id p = i \<longrightarrow> (\<exists>q \<in> set (photos db'). ph_id q = i \<and>
     same_photo (ph_connection_id p) (ph_loan_account p) (ph_provider p) (ph_image_url p) q))"

interpretation stays: evolution "photo_stays i" for i
proof
  show "photo_stays i s s" for s :: loan_db by (auto simp: photo_stays_def same_photo_def)
  show "photo_stays i s u" if "photo_stays i s t" "photo_stays i t u" for s t u :: loan_db
    using that unfolding photo_stays_def same_photo_def by metis
qed

lemma reads_photo: "reads (photo_on c loan i)" "reads (photo_id_by_identity_on c loan provider url)"
  by (simp_all add: photo_on_def photo_id_by_identity_on_def reads_def gets_def)

lemma stays_update:
  assumes "\<And>p. ph_id (f p) = ph_id p \<and> same_photo (ph_connection_id p) (ph_loan_account p) (ph_provider p) (ph_image_url p) (f p)"
  shows "evolves (photo_stays i) (update_photos N K ctx Q f)"
  unfolding update_photos_def loan_write_def
proof (rule stays.evolves_write)
  fix s :: loan_db
  have "\<exists>q \<in> set (update_rows Q f (photos s)). ph_id q = ph_id p \<and>
      same_photo (ph_connection_id p) (ph_loan_account p) (ph_provider p) (ph_image_url p) q" if "p \<in> set (photos s)" for p
    using that assms [of p] by (cases "Q p") (auto simp: set_update_rows same_photo_def)
  then show "photo_stays i s (snd (count_rows Q (photos s), s\<lparr>photos := update_rows Q f (photos s)\<rparr>))"
    by (auto simp: photo_stays_def)
qed

lemma stays_operations:
  "evolves (photo_stays i) (set_featured_photo N K c loan j)"
  "j \<noteq> i \<Longrightarrow> evolves (photo_stays i) (delete_photo_metadata N K c loan j)"
  "evolves (photo_stays i) (create_manual_photo_metadata N K t c loan caption url)"
proof -
  show "evolves (photo_stays i) (set_featured_photo N K c loan j)"
    unfolding set_featured_photo_def
    by (intro stays.evolves_rules stays.evolves_reads reads_photo stays_update) (simp_all add: same_photo_def)
  show "evolves (photo_stays i) (delete_photo_metadata N K c loan j)" if "j \<noteq> i"
    unfolding delete_photo_metadata_def loan_write_def
    by (intro stays.evolves_rules stays.evolves_reads reads_photo) (use that in \<open>auto simp: photo_stays_def same_photo_def\<close>)
  show "evolves (photo_stays i) (create_manual_photo_metadata N K t c loan caption url)"
    unfolding create_manual_photo_metadata_def insert_manual_photo_def loan_write_def
    by (intro stays.evolves_rules stays.evolves_reads reads_photo) (auto simp: photo_stays_def same_photo_def Let_def)
qed

lemma stays_on_loans: "evolves (photo_stays i) m \<Longrightarrow> photo_stays i (si_loans s) (si_loans (snd (on_loans s m)))"
  by (cases "m (si_loans s)") (simp add: on_loans_def evolvesD)

lemma photo_action_state: "snd (photo_action_reply slug loan r) = snd r"
  by (auto simp: photo_action_reply_def split: prod.split sum.split inbox_error.split)

text \<open>Featuring any photo, deleting another one, and finalizing an upload keep it.\<close>

lemma requests_keep_photo:
  "photo_stays i (si_loans s) (si_loans (snd (feature_photo E slug loan j s)))"
  "j \<noteq> i \<Longrightarrow> photo_stays i (si_loans s) (si_loans (snd (delete_photo E slug loan j s)))"
  "photo_stays i (si_loans s) (si_loans (snd (finalize_verified E slug loan v s)))"
proof -
  show "photo_stays i (si_loans s) (si_loans (snd (feature_photo E slug loan j s)))"
    by (auto simp: feature_photo_def photo_action_state stays.refl split: sum.split
        intro: stays_on_loans stays_operations)
  show "photo_stays i (si_loans s) (si_loans (snd (delete_photo E slug loan j s)))" if "j \<noteq> i"
    by (auto simp: delete_photo_def photo_action_state stays.refl split: sum.split
        intro: stays_on_loans stays_operations(2) [OF that])
  have "photo_stays i (si_loans s) (si_loans t)"
    if "on_loans s (create_manual_photo_metadata N K u c l k url) = (x, t)" for N K u c l k url x t
    using stays_on_loans [OF stays_operations(3), of i s N K u c l k url] that by simp
  then show "photo_stays i (si_loans s) (si_loans (snd (finalize_verified E slug loan v s)))"
    by (auto simp: finalize_verified_def stays.refl split: sum.split prod.split)
qed

lemma refused_loan: "resolve_loan E n slug loan s = Inl r \<Longrightarrow> sy_status r \<in> {404, 500}"
  by (auto simp: resolve_loan_def site_not_found_def storage_reply_def site_reply_of_def
      split: if_splits sum.splits option.splits)

lemma json_error_status: "sy_status (media_json_error e) \<in> {409, 422, 502, 503}" "sy_status (workspace_json_error f) \<in> {404, 409, 422, 500}"
  by (cases e; simp add: media_json_error_def site_reply_of_def)
    (cases f; simp add: workspace_json_error_def media_json_error_def site_reply_of_def)

lemma finalized:
  assumes "finalize_photo_upload E M slug loan token s = (r, s')" "sy_status r = 200"
  obtains i v w u p where
    "verify_uploaded_intent_at (sx_crates E) M token i loan (sx_clock E 0) (si_world s) = (Inr v, w)"
    "u = sx_others E (s\<lparr>si_world := w\<rparr>)"
    "on_loans u (create_manual_photo_metadata (sx_mail E) (known_connection u) (sx_clock E 1) (vu_connection_id v) loan
       (photo_caption v) (vu_image_url v)) = (Inr p, s')"
    "r = site_reply_of 200 (FinalizedBody (ph_id p) (ph_image_url p))"
proof -
  obtain i l where 1: "resolve_loan E 0 slug loan s = Inr (i, l)"
    using assms refused_loan by (cases "resolve_loan E 0 slug loan s") (fastforce simp: finalize_photo_upload_def)+
  obtain v w where 2: "verify_uploaded_intent_at (sx_crates E) M token i loan (sx_clock E 0) (si_world s) = (Inr v, w)"
  proof (cases "verify_uploaded_intent_at (sx_crates E) M token i loan (sx_clock E 0) (si_world s)")
    case (Pair x w)
    show ?thesis
    proof (cases x)
      case (Inl e)
      with Pair assms 1 json_error_status(1) [of e] show ?thesis by (auto simp: finalize_photo_upload_def)
    next
      case (Inr v)
      with Pair that show ?thesis by blast
    qed
  qed
  define u where "u = sx_others E (s\<lparr>si_world := w\<rparr>)"
  have f: "finalize_verified E slug loan v u = (r, s')" using assms(1) 1 2 by (simp add: finalize_photo_upload_def u_def)
  obtain j l' where 3: "resolve_loan E 1 slug loan u = Inr (j, l')"
    using f assms(2) refused_loan by (cases "resolve_loan E 1 slug loan u") (fastforce simp: finalize_verified_def)+
  have 4: "j = vu_connection_id v"
    using f assms(2) 3 json_error_status(1) [of InvalidIntent] by (auto simp: finalize_verified_def split: if_splits)
  obtain x t where 5: "on_loans u (create_manual_photo_metadata (sx_mail E) (known_connection u) (sx_clock E 1) (vu_connection_id v) loan
       (photo_caption v) (vu_image_url v)) = (x, t)" by fastforce
  show ?thesis
  proof (cases x)
    case (Inl e)
    with f 3 4 5 assms(2) json_error_status(2) [of e] show ?thesis by (auto simp: finalize_verified_def)
  next
    case (Inr p)
    with f 3 4 5 have "t = s'" "r = site_reply_of 200 (FinalizedBody (ph_id p) (ph_image_url p))" by (auto simp: finalize_verified_def)
    with that [OF 2 u_def] 5 Inr show ?thesis by blast
  qed
qed

lemma finalized_photo:
  assumes "finalize_photo_upload E M slug loan token s = (r, s')" "sy_status r = 200" "orderly E" "site_ok (sx_mail E) s"
  obtains i v w p where
    "verify_uploaded_intent_at (sx_crates E) M token i loan (sx_clock E 0) (si_world s) = (Inr v, w)"
    "r = site_reply_of 200 (FinalizedBody (ph_id p) (ph_image_url p))" "p \<in> set (photos (si_loans s'))"
    "same_photo (vu_connection_id v) loan ''manual'' (vu_image_url v) p"
    "validate_photo (manual_draft (vu_connection_id v) loan (photo_caption v) (vu_image_url v)) = Inr ()"
proof (rule finalized [OF assms(1,2)])
  fix i v w u p
  assume a: "verify_uploaded_intent_at (sx_crates E) M token i loan (sx_clock E 0) (si_world s) = (Inr v, w)"
    "u = sx_others E (s\<lparr>si_world := w\<rparr>)"
    "on_loans u (create_manual_photo_metadata (sx_mail E) (known_connection u) (sx_clock E 1) (vu_connection_id v) loan
       (photo_caption v) (vu_image_url v)) = (Inr p, s')"
    "r = site_reply_of 200 (FinalizedBody (ph_id p) (ph_image_url p))"
  have "site_ok (sx_mail E) u" using assms(3,4) a(2) by (simp add: orderly_def)
  then have ok: "loan_valid (sx_mail E) (known_connection u) (si_loans u)" "loan_ids (si_loans u)" by (simp_all add: site_ok_def)
  have "create_manual_photo_metadata (sx_mail E) (known_connection u) (sx_clock E 1) (vu_connection_id v) loan
       (photo_caption v) (vu_image_url v) (si_loans u) = (Inr p, si_loans s')"
    using a(3) by (auto simp: on_loans_def split: prod.splits)
  with manual_photo_saved [OF this ok] that [OF a(1,4)] show ?thesis by blast
qed


subsection \<open>Serving photos\<close>

text \<open>Only referenced objects are served: a photo request is redirected to the object store only for the key of some photo
  row, under the fixed prefix and with no segment that could leave it.\<close>

theorem served_photo_referenced:
  assumes "sy_status (serve_loan_photo E M route_key s) = 307"
  shows "safe_key (canonical_photo_prefix @ route_key) \<and>
    (\<exists>p \<in> set (photos (si_loans s)). classify_photo (sx_parse_url E) (ph_image_url p) = Inr (StoredPhoto (canonical_photo_prefix @ route_key)))"
proof -
  have l: "fst (photo_image_locations (si_loans s)) = Inr (map ph_image_url (sort_key ph_id (photos (si_loans s))))"
    by (simp add: photo_image_locations_def gets_def)
  obtain k where k: "photo_key_from_route route_key = Inr k"
    using assms by (cases "photo_key_from_route route_key") (simp_all add: serve_loan_photo_def site_not_found_def site_reply_of_def)
  with assms l have "photo_is_referenced (sx_parse_url E) k (map ph_image_url (sort_key ph_id (photos (si_loans s))))"
    by (simp add: serve_loan_photo_def site_not_found_def storage_reply_def site_reply_of_def split: if_splits)
  note k = k this
  from k(1) have "k = canonical_photo_prefix @ route_key" "safe_key k"
    using canonical_key_safe by (auto simp: photo_key_from_route_def)
  with k(2) show ?thesis by (auto simp: photo_is_referenced_def list_ex_iff)
qed

lemma route_of_url:
  assumes "photo_route_url k = Inr url"
  obtains route where "canonical_key k = Inr k" "k = canonical_photo_prefix @ route" "url = media_prefix @ aws_encode_path route"
proof -
  obtain k' where k': "canonical_key k = Inr k'"
    using assms by (auto simp: photo_route_url_def rbnd_eq_Inr)
  with canonical_key_safe [OF k'] have "canonical_key k = Inr k" by simp
  with assms that show ?thesis
    by (auto simp: photo_route_url_def rbnd_eq_Inr strip_prefix_Some split: option.splits if_splits)
qed

lemma referenced_photo_served:
  assumes "p \<in> set (photos (si_loans s))" "classify_photo (sx_parse_url E) (ph_image_url p) = Inr (StoredPhoto k)"
    "photo_key_from_route route_key = Inr k" "sx_connects E 0"
  shows "serve_loan_photo E M route_key s = signed_redirect E M k"
  using assms by (auto simp: serve_loan_photo_def photo_image_locations_def gets_def photo_is_referenced_def list_ex_iff)

text \<open>C14: What was finalized can be seen: the URL in the reply to a finalize request is the encoded route of the very object
  whose upload was verified, and whenever the object store signs a download of that object, a request for this route is answered by a
  temporary redirect (307) to the signed URL.\<close>

theorem finalized_photo_served:
  assumes "finalize_photo_upload E M slug loan token s = (r, s')" "sy_status r = 200" "orderly E" "site_ok (sx_mail E) s"
    and "crates_ok (sx_crates E)" "sx_connects E2 0"
  shows "\<exists>i v w B route photo. verify_uploaded_intent_at (sx_crates E) M token i loan (sx_clock E 0) (si_world s) = (Inr v, w) \<and>
     ms_backend M = Some B \<and> vu_object_key v = canonical_photo_prefix @ route \<and>
     sy_body r = FinalizedBody photo (media_prefix @ aws_encode_path route) \<and>
     (\<forall>url. mb_presign_get B (vu_object_key v) (sx_clock E2 0) = Inr url \<and> sx_header_ok E2 url \<longrightarrow>
        serve_loan_photo E2 M route s' = \<lparr>sy_status = 307, sy_location = Some url, sy_body = EmptyBody\<rparr>)"
proof (rule finalized_photo [OF assms(1-4)])
  fix i v w p
  assume a: "verify_uploaded_intent_at (sx_crates E) M token i loan (sx_clock E 0) (si_world s) = (Inr v, w)"
    "r = site_reply_of 200 (FinalizedBody (ph_id p) (ph_image_url p))" "p \<in> set (photos (si_loans s'))"
    "same_photo (vu_connection_id v) loan ''manual'' (vu_image_url v) p"
  have url: "photo_route_url (vu_object_key v) = Inr (ph_image_url p)" using verified_url(1) [OF a(1)] a(4) by (simp add: same_photo_def)
  then obtain route where k: "canonical_key (vu_object_key v) = Inr (vu_object_key v)" "vu_object_key v = canonical_photo_prefix @ route"
    "ph_image_url p = media_prefix @ aws_encode_path route"
    by (rule route_of_url)
  obtain B where B: "ms_backend M = Some B" using a(1) by (auto simp: verify_uploaded_intent_at_def bnd_Inr lift_res_Inr enabled_Inr)
  have "classify_photo (sx_parse_url E2) (ph_image_url p) = Inr (StoredPhoto (vu_object_key v))"
    using photo_url_back [OF url verified_utf8 [OF a(1) assms(5)]] by blast
  moreover have "photo_key_from_route route = Inr (vu_object_key v)" using k(1,2) by (simp add: photo_key_from_route_def)
  ultimately have served: "serve_loan_photo E2 M route s' = signed_redirect E2 M (vu_object_key v)"
    using referenced_photo_served [OF a(3)] assms(6) by blast
  have "serve_loan_photo E2 M route s' = \<lparr>sy_status = 307, sy_location = Some url, sy_body = EmptyBody\<rparr>"
    if "mb_presign_get B (vu_object_key v) (sx_clock E2 0) = Inr url \<and> sx_header_ok E2 url" for url
    using that k(1) B by (simp add: served signed_redirect_def presign_download_at_def enabled_def)
  moreover have "sy_body r = FinalizedBody (ph_id p) (media_prefix @ aws_encode_path route)"
    using a(2) k(3) by (simp add: site_reply_of_def)
  ultimately show ?thesis using a(1) k(2) B by blast
qed

end
