(* ===== verification/Site_Samples.thy ===== *)
theory Site_Samples
  imports Site_Outcome Tmo_Contract
begin

text \<open>A concrete upload: the properties of the workspace and media theories at one site with one loan.\<close>

subsection \<open>Crates, service, draft\<close>

definition sample_encode :: "string \<Rightarrow> string" where
  "sample_encode v = concat (map (\<lambda>b. [hex_upper (code b div 16), hex_upper (code b mod 16)]) v)"

fun sample_decode :: "string \<Rightarrow> string option" where
  "sample_decode [] = Some []"
| "sample_decode [_] = None"
| "sample_decode (a # b # r) = (case (decode_hex a, decode_hex b) of
     (Some m, Some n) \<Rightarrow> map_option (\<lambda>t. byte (16 * m + n) # t) (sample_decode r) | _ \<Rightarrow> None)"

definition upload_sample :: upload_draft where
  "upload_sample = \<lparr>ud_connection_id = 1, ud_loan_account = ''L1'', ud_file_name = ''a.png'', ud_content_type = ''image/png'', ud_size = 5\<rparr>"

definition upload_key :: string where "upload_key = ''loan-workspace/L1/manual-0-78.png''"

definition upload_url :: string where "upload_url = ''/media/loan-workspace/L1/manual-0-78.png''"

definition claims_sample :: upload_claims where
  "claims_sample = intent_claims upload_sample 0 upload_key ''78''"

definition sample_crates :: media_crates where
  "sample_crates = \<lparr>mc_hmac = (\<lambda>k m. k), mc_sha256 = id, mc_encode = sample_encode, mc_decode = sample_decode,
     mc_json = (\<lambda>c. if c = claims_sample then Some ''{}'' else None),
     mc_from_json = (\<lambda>v. if v = ''{}'' then Some claims_sample else None)\<rparr>"

definition object_sample :: head_object where
  "object_sample = \<lparr>ho_size = 5, ho_content_type = Some ''image/png; q=1'', ho_marker = Some ''78'', ho_sha256 = None\<rparr>"

definition backend_sample :: "unit media_backend" where
  "backend_sample = \<lparr>mb_presign_put = (\<lambda>_ _ _ _ _. Inr \<lparr>pu_method = ''PUT'', pu_url = ''u'', pu_headers = []\<rparr>),
     mb_presign_get = (\<lambda>_ _. Inr ''u''), mb_head = (\<lambda>_ _. ok (Some object_sample)), mb_put_if_absent = (\<lambda>_ _ _ _ _. ok object_sample)\<rparr>"

definition service_sample :: "unit media_service" where
  "service_sample = \<lparr>ms_backend = Some backend_sample, ms_intent_key = Some ''k'', ms_origin = None\<rparr>"

definition token_sample :: string where "token_sample = sample_encode ''{}'' @ ''.'' @ sample_encode ''k''"

definition intent_sample :: upload_intent where
  "intent_sample = \<lparr>ui_token = token_sample, ui_object_key = upload_key, ui_image_url = upload_url,
     ui_upload = \<lparr>pu_method = ''PUT'', pu_url = ''u'', pu_headers = []\<rparr>, ui_expires_at = 300\<rparr>"

lemma sample_codec: "sample_decode (sample_encode v) = Some v"
proof (induction v)
  case (Cons b bs)
  have "code b div 16 < 16" "code b mod 16 < 16" using code_lt [of b] by auto
  moreover have "byte (16 * (code b div 16) + code b mod 16) = b" by (simp add: byte_def char_of_code)
  ultimately show ?case using Cons hex_digit by (simp add: sample_encode_def)
qed (simp add: sample_encode_def)

lemma sample_encode_dot: "CHR ''.'' \<notin> set (sample_encode v)"
proof -
  have "is_alnum c" if "c \<in> set (sample_encode v)" for c
  proof -
    from that obtain b where "c = hex_upper (code b div 16) \<or> c = hex_upper (code b mod 16)" by (auto simp: sample_encode_def)
    moreover have "code b div 16 < 16" "code b mod 16 < 16" using code_lt [of b] by auto
    ultimately show ?thesis using hex_digit by auto
  qed
  moreover have "\<not> is_alnum (CHR ''.'')" by code_simp
  ultimately show ?thesis by blast
qed

lemma sample_key: "canonical_key upload_key = Inr upload_key" "utf8_ok upload_key" "photo_route_url upload_key = Inr upload_url"
proof -
  have t: "trim upload_key = upload_key" by code_simp
  show c: "canonical_key upload_key = Inr upload_key" unfolding canonical_key_def t by code_simp
  show "utf8_ok upload_key" by code_simp
  have "strip_prefix canonical_photo_prefix upload_key = Some ''L1/manual-0-78.png''" by code_simp
  moreover have "media_prefix @ aws_encode_path ''L1/manual-0-78.png'' = upload_url" by code_simp
  ultimately show "photo_route_url upload_key = Inr upload_url" by (simp add: photo_route_url_def c)
qed

lemma sample_crates_ok: "crates_ok sample_crates"
  using sample_key(2) by (simp add: crates_ok_def sample_crates_def sample_codec sample_encode_dot claims_sample_def intent_claims_def)

lemma upload_sample_ok: "validate_upload_draft upload_sample = Inr ()"
proof -
  have "trim ''L1'' = ''L1''" "trim ''a.png'' = ''a.png''" "\<not> has_control ''a.png''"
    "normalize_content_type ''image/png'' = Some ''image/png''" by code_simp+
  then show ?thesis by (simp add: validate_upload_draft_def upload_sample_def max_upload_bytes_def)
qed

lemma upload_sample_key: "generated_photo_key upload_sample 0 ''78'' = Inr upload_key"
proof -
  have e: "photo_extension (ud_content_type upload_sample) = Some ''png''" by code_simp
  have "''loan-workspace/'' @ safe_loan_text (ud_loan_account upload_sample) @ ''/manual-'' @ show_int 0 @ ''-'' @ ''78'' @ ''.'' @ ''png'' =
      upload_key" by code_simp
  then show ?thesis unfolding generated_photo_key_def e or_error_def using sample_key(1) by (simp only: option.case rbnd_Inr)
qed

lemma sample_marker: "random_token sample_crates ''x'' = ''78''"
proof -
  have "sample_encode ''x'' = ''78''" by code_simp
  then show ?thesis by (simp add: random_token_def sample_crates_def)
qed

lemma sample_intent: "create_upload_intent_at sample_crates service_sample ''x'' upload_sample 0 = Inr intent_sample"
proof -
  have u: "unix_timestamp 0 = 0" by (simp add: unix_timestamp_def)
  have "sign_claims sample_crates claims_sample ''k'' = Inr token_sample"
    by (simp add: sign_claims_def sample_crates_def or_error_def token_sample_def)
  then show ?thesis
    by (simp add: create_upload_intent_at_def u sample_marker upload_sample_ok upload_sample_key sample_key(3) claims_sample_def
        [symmetric] service_sample_def enabled_def backend_sample_def Let_def)
      (simp add: intent_sample_def claims_sample_def intent_claims_def upload_expiry_seconds_def)
qed

lemma sample_token_short: "length (ui_token intent_sample) \<le> max_intent_bytes"
  by (simp add: intent_sample_def token_sample_def sample_encode_def max_intent_bytes_def)

lemma sample_object: "intended_object sample_crates ''x'' upload_sample object_sample"
proof -
  have "normalize_content_type ''image/png; q=1'' = Some ''image/png''" by code_simp
  then show ?thesis by (simp add: intended_object_def sample_marker object_sample_def upload_sample_def)
qed

lemma intent_roundtrip_facts:
  "verify_uploaded_intent_at sample_crates service_sample token_sample 1 ''L1'' second () =
     (Inr \<lparr>vu_connection_id = 1, vu_loan_account = ''L1'', vu_file_name = ''a.png'', vu_content_type = ''image/png'', vu_size = 5,
        vu_object_key = upload_key, vu_image_url = upload_url\<rparr>, ())"
proof -
  have "ms_backend service_sample = Some backend_sample" by (simp add: service_sample_def)
  moreover have "mb_head backend_sample (ui_object_key intent_sample) second () = (Inr (Some object_sample), ())"
    by (simp add: backend_sample_def ok_def)
  moreover have "0 \<le> second" "unix_timestamp second \<le> ui_expires_at intent_sample"
    by (simp_all add: second_def unix_timestamp_def intent_sample_def)
  ultimately show ?thesis
    using intent_verifies [OF sample_crates_ok sample_intent sample_token_short _ _ sample_object, of backend_sample second "()" "()"]
    by (simp add: intended_upload_def) (simp add: intent_sample_def upload_sample_def)
qed

theorem intent_roundtrip_witness:
  "verify_uploaded_intent_at sample_crates service_sample token_sample 1 ''L1'' second () =
     (Inr \<lparr>vu_connection_id = 1, vu_loan_account = ''L1'', vu_file_name = ''a.png'', vu_content_type = ''image/png'', vu_size = 5,
        vu_object_key = upload_key, vu_image_url = upload_url\<rparr>, ())"
proof -
  have "ms_backend service_sample = Some backend_sample" by (simp add: service_sample_def)
  moreover have "mb_head backend_sample (ui_object_key intent_sample) second () = (Inr (Some object_sample), ())"
    by (simp add: backend_sample_def ok_def)
  moreover have "0 \<le> second" "unix_timestamp second \<le> ui_expires_at intent_sample"
    by (simp_all add: second_def unix_timestamp_def intent_sample_def)
  ultimately show ?thesis
    using intent_roundtrip [OF sample_crates_ok sample_intent sample_token_short _ _ sample_object, of backend_sample second "()" "()"]
    by (simp add: intended_upload_def) (simp add: intent_sample_def upload_sample_def)
qed

theorem verified_upload_signed_witness:
  "\<exists>payload signature. token_sample = payload @ ''.'' @ signature \<and>
     mc_decode sample_crates signature = Some (mc_hmac sample_crates ''k'' payload) \<and> safe_key upload_key"
  using verified_upload_signed [OF intent_roundtrip_facts] by (force simp: service_sample_def)

subsection \<open>A stored object\<close>

definition s3_sample :: s3_config where
  "s3_sample = \<lparr>s3_endpoint = \<lparr>uv_scheme = ''https'', uv_host = Some ''o'', uv_username = [], uv_has_password = False,
     uv_has_query = False, uv_has_fragment = False, uv_text = [], en_path = [], en_port = None\<rparr>,
     s3_region = ''auto'', s3_bucket = ''b'', s3_access_key = ''a'', s3_secret_key = ''s'', s3_key_prefix = None\<rparr>"

text \<open>A store that keeps what S3 documents; its world is its objects.\<close>

definition store_sample :: "(string \<Rightarrow> stored_object option) http_client" where
  "store_sample = \<lparr>
     hc_head = (\<lambda>url w. (Some (case w (url_address url) of None \<Rightarrow> \<lparr>so_status = 404, so_header = (\<lambda>_. None)\<rparr>
       | Some ob \<Rightarrow> \<lparr>so_status = 200, so_header = (\<lambda>n. if n = ''content-length'' then Some (show_nat (length (ob_body ob)))
           else map_of (ob_headers ob) n)\<rparr>), w)),
     hc_put = (\<lambda>url hs b w. if w (url_address url) = None
       then (Some 200, w(url_address url \<mapsto> \<lparr>ob_body = b, ob_headers = filter (\<lambda>(n, _). n \<noteq> ''if-none-match'') hs\<rparr>)) else (Some 412, w))\<rparr>"

lemma store_sample_honest: "honest_store store_sample id"
  by (auto simp: honest_store_def store_sample_def sha256_header_def split: option.splits if_splits)

lemma presigned: "canonical_key key = Inr k \<Longrightarrow> \<exists>url. s3_presign D C cfg host m key hs n t = Inr url"
  by (simp add: s3_presign_def Let_def)

theorem stored_bytes_witness:
  "\<exists>S h w a. media_from_config gregorian sample_crates store_sample second s3_sample = Inr S \<and>
     put_canonical_if_absent_at sample_crates S upload_key ''ab'' ''text/plain'' 0 (\<lambda>_. None) = (Inr h, w) \<and>
     w = [a \<mapsto> \<lparr>ob_body = ''ab'', ob_headers = [(''content-type'', ''text/plain''), (''x-amz-meta-trust-deeds-sha256'', ''6162'')]\<rparr>]"
proof -
  obtain S where S: "media_from_config gregorian sample_crates store_sample second s3_sample = Inr S"
    "ms_backend S = Some (s3_backend gregorian sample_crates store_sample second s3_sample ''o'')"
    by (auto simp: media_from_config_def endpoint_host_def s3_sample_def or_error_def)
  have d: "hex_bytes (mc_sha256 sample_crates ''ab'') = ''6162''"
  proof -
    have "hex_bytes ''ab'' = ''6162''" by code_simp
    then show ?thesis by (simp add: sample_crates_def)
  qed
  have t: "trim ''text/plain'' = ''text/plain''" "\<not> has_control ''text/plain''" "hd (split_on (CHR '';'') ''text/plain'') = ''text/plain''"
    "upload_marker_header \<noteq> sha256_header" "sha256_header \<noteq> ''content-length''" "sha256_header \<noteq> ''content-type''"
    "sha256_header \<noteq> ''if-none-match''" "length (show_nat 2) = 1" by code_simp+
  have u: "parse_u64 (show_nat 2) = Some 2"
  proof -
    have "show_nat 2 = ''2''" "digits_val ''2'' = 2" "list_all is_digit ''2''" by code_simp+
    then show ?thesis by (simp add: parse_u64_def)
  qed
  obtain url where url: "s3_presign gregorian sample_crates s3_sample ''o'' m upload_key hs n u = Inr (url m hs n u)" for m hs n u
    using presigned [OF sample_key(1)] by metis
  define a where "a = url_address (uv_scheme (s3_endpoint s3_sample) @ ''://'' @ ''o'' @ object_uri s3_sample upload_key)"
  have addr: "url_address (url m hs n u) = a" for m hs n u using presigned_address(2) [OF url] by (simp only: a_def)
  define w :: "string \<Rightarrow> stored_object option" where
    "w = [a \<mapsto> \<lparr>ob_body = ''ab'', ob_headers = [(''content-type'', ''text/plain''), (sha256_header, ''6162'')]\<rparr>]"
  define h where "h = \<lparr>ho_size = 2, ho_content_type = Some ''text/plain'', ho_marker = None, ho_sha256 = Some ''6162''\<rparr>"
  have m: "upload_marker_header \<noteq> ''content-length''" "upload_marker_header \<noteq> ''content-type''" by code_simp+
  have head: "s3_head gregorian sample_crates store_sample s3_sample ''o'' upload_key second w = (Inr (Some h), w)"
    using t u m by (simp add: s3_head_def url bnd_def lift_res_def store_sample_def addr w_def or_error_def read_head_def success_def h_def numeral_2_eq_2)
  have same: "same_content 2 ''text/plain'' ''6162'' h" using t(1,3) by (simp add: same_content_def h_def)
  have put: "hc_put store_sample (url m [(''content-type'', ''text/plain''), (''if-none-match'', ''*''), (sha256_header, ''6162'')] n t)
      [(''content-type'', ''text/plain''), (''if-none-match'', ''*''), (sha256_header, ''6162'')] ''ab'' (\<lambda>_. None) = (Some 200, w)" for m n t
    using t(7) by (simp add: store_sample_def addr w_def)
  have "s3_put_if_absent gregorian sample_crates store_sample second s3_sample ''o'' upload_key ''ab'' ''text/plain'' ''6162'' 0 (\<lambda>_. None) =
      (Inr h, w)"
    using head same put by (simp add: s3_put_if_absent_def Let_def url bnd_def thn_def lift_res_def require_def some_or_def ok_def
        or_error_def success_def numeral_2_eq_2)
  then have p: "put_canonical_if_absent_at sample_crates S upload_key ''ab'' ''text/plain'' 0 (\<lambda>_. None) = (Inr h, w)"
    using S(2) t(1,2) sample_key(1)
    by (auto simp: put_canonical_if_absent_at_def thn_Inr bnd_Inr lift_res_Inr require_Inr enabled_def d hex_digest_def s3_backend_def max_server_body_bytes_def)
  from stored_bytes [OF store_sample_honest S(1) p] obtain a where
    "w = [a \<mapsto> \<lparr>ob_body = ''ab'', ob_headers = [(''content-type'', ''text/plain''), (''x-amz-meta-trust-deeds-sha256'', hex_bytes (mc_sha256 sample_crates ''ab''))]\<rparr>]"
    by (auto simp: w_def fun_eq_iff)
  then show ?thesis using S(1) p d by auto
qed

subsection \<open>A finalized photo\<close>

definition tmo_sample :: conn_row where
  "tmo_sample = (sample_connection 1 ''tmo'')\<lparr>cn_provider := ''mortgage_office''\<rparr>"

definition loan_sample :: loan_row where
  "loan_sample = (empty_loan sample_capture ''L1'')\<lparr>lo_connection_id := 1\<rparr>"

definition site_mail_sample :: mail_ext where
  "site_mail_sample = \<lparr>mx_datetime = (\<lambda>_. True), mx_json_valid = (\<lambda>_. True), mx_json_array = (\<lambda>_. True), mx_json = (\<lambda>_. None),
     mx_rfc3339 = (\<lambda>_. True), mx_stamp = (\<lambda>_. op_now)\<rparr>"

definition site_sample :: "unit site" where
  "site_sample = \<lparr>si_app = trust_db\<lparr>ap_ops := op_sample\<lparr>op_connections := [tmo_sample]\<rparr>, ap_loans := [loan_sample]\<rparr>,
     si_loans = no_workspaces, si_mail = no_mail, si_world = ()\<rparr>"

definition env_sample :: "unit site_env" where
  "env_sample = \<lparr>sx_connects = (\<lambda>_. True), sx_clock = (\<lambda>_. second), sx_random = ''x'', sx_mail = site_mail_sample,
     sx_crates = sample_crates, sx_parse_url = (\<lambda>_. None), sx_header_ok = (\<lambda>_. True), sx_others = (\<lambda>s. s)\<rparr>"

definition photo_sample :: photo_row where
  "photo_sample = new_photo site_mail_sample second (manual_draft 1 ''L1'' (Some ''a.png'') upload_url) 1"

definition site_after :: "unit site" where
  "site_after = site_sample\<lparr>si_loans := no_workspaces\<lparr>photos := [photo_sample], photo_seq := 1\<rparr>\<rparr>"

definition photo_reply :: site_reply where
  "photo_reply = site_reply_of 200 (FinalizedBody 1 upload_url)"

lemma sample_orderly: "orderly env_sample" "photo_stays i (si_loans x) (si_loans (sx_others env_sample x))"
  "site_ok site_mail_sample site_sample"
  by (simp_all add: orderly_def stays.refl env_sample_def site_ok_def loan_valid_def loan_ids_def ids_ok_def featured_ok_def
      site_sample_def no_workspaces_def)

lemma sample_resolves: "resolve_loan env_sample n ''tmo'' ''L1'' (site_sample\<lparr>si_loans := db\<rparr>) = Inr (1, loan_sample)"
  by (simp add: resolve_loan_def env_sample_def connection_by_slug_def gets_def site_sample_def tmo_sample_def sample_connection_def
      tmo_loan_by_account_def loan_sample_def empty_loan_def)

lemma photo_sample_valid: "validate_photo (manual_draft 1 ''L1'' (Some ''a.png'') upload_url) = Inr ()"
proof -
  have "validate_loan_account_input ''L1'' = Inr ()" "trim ''manual'' \<noteq> []" "trim ''manual-upload'' \<noteq> []" "trim upload_url \<noteq> []"
    "length upload_url \<le> 2048" by code_simp+
  then show ?thesis by (simp add: validate_photo_def manual_draft_def inbox_nonempty_def)
qed

lemma site_after_ok: "loan_valid site_mail_sample (known_connection site_sample) (si_loans site_after)" "site_ok site_mail_sample site_after"
proof -
  have "sql_nonblank ''L1''" "sql_nonblank ''manual''" "sql_nonempty ''manual-upload''" "sql_nonempty upload_url" "20 \<le> length op_now"
    by code_simp+
  then have "photo_check site_mail_sample photo_sample"
    by (simp add: photo_check_def photo_sample_def new_photo_def manual_draft_def site_mail_sample_def utc_check_def)
  moreover have "known_connection site_sample 1" by (simp add: known_connection_def site_sample_def tmo_sample_def sample_connection_def)
  ultimately show "loan_valid site_mail_sample (known_connection site_sample) (si_loans site_after)"
    by (simp add: loan_valid_def site_after_def no_workspaces_def featured_ok_def) (simp add: photo_sample_def new_photo_def manual_draft_def)
  then show "site_ok site_mail_sample site_after"
    by (simp add: site_ok_def site_after_def loan_ids_def ids_ok_def no_workspaces_def) (simp add: photo_sample_def new_photo_def)
qed

definition verified_sample :: verified_upload where
  "verified_sample = \<lparr>vu_connection_id = 1, vu_loan_account = ''L1'', vu_file_name = ''a.png'', vu_content_type = ''image/png'', vu_size = 5,
     vu_object_key = upload_key, vu_image_url = upload_url\<rparr>"

lemma sample_finalize:
  assumes "create_manual_photo_metadata site_mail_sample (known_connection site_sample) second 1 ''L1'' (Some ''a.png'') upload_url db =
      (Inr p, db')"
  shows "finalize_photo_upload env_sample service_sample ''tmo'' ''L1'' token_sample (site_sample\<lparr>si_loans := db\<rparr>) =
      (site_reply_of 200 (FinalizedBody (ph_id p) (ph_image_url p)), site_sample\<lparr>si_loans := db'\<rparr>)"
proof -
  have v: "verify_uploaded_intent_at sample_crates service_sample token_sample 1 ''L1'' second () = (Inr verified_sample, ())"
    unfolding verified_sample_def by (rule intent_roundtrip_facts)
  have "trim ''a.png'' = ''a.png''" by code_simp
  then have c: "photo_caption verified_sample = Some ''a.png''" by (simp add: photo_caption_def verified_sample_def)
  have e: "sx_crates env_sample = sample_crates" "sx_clock env_sample n = second" "sx_mail env_sample = site_mail_sample"
    "sx_others env_sample s = s" for n s by (simp_all add: env_sample_def)
  have r: "resolve_loan env_sample n ''tmo'' ''L1'' (site_sample\<lparr>si_loans := db\<rparr>) = Inr (1, loan_sample)" for n
    by (rule sample_resolves)
  have w: "s\<lparr>si_world := ()\<rparr> = s" for s :: "unit site" by (cases s) simp
  have known: "known_connection (site_sample\<lparr>si_loans := db\<rparr>) = known_connection site_sample" by simp
  have "vu_connection_id verified_sample = 1" "vu_image_url verified_sample = upload_url" by (simp_all add: verified_sample_def)
  then show ?thesis
    using assms
    by (simp add: finalize_photo_upload_def r r [of "Suc 0", simplified] e w v finalize_verified_def c on_loans_def known)
qed

lemma photo_reply_of: "site_reply_of 200 (FinalizedBody (ph_id photo_sample) (ph_image_url photo_sample)) = photo_reply"
  by (simp add: photo_sample_def new_photo_def manual_draft_def photo_reply_def)

lemma sample_first: "create_manual_photo_metadata site_mail_sample (known_connection site_sample) second 1 ''L1'' (Some ''a.png'') upload_url no_workspaces =
    (Inr photo_sample, si_loans site_after)"
proof -
  have "insert_manual_photo site_mail_sample (known_connection site_sample) second (manual_draft 1 ''L1'' (Some ''a.png'') upload_url) no_workspaces =
      (Inr 1, si_loans site_after)"
    using site_after_ok(1)
    by (simp add: insert_manual_photo_def loan_write_Inr Let_def site_after_def no_workspaces_def photo_sample_def next_sort_order_def manual_draft_def)
  moreover have "photo_on 1 ''L1'' 1 (si_loans site_after) = (Inr (Some photo_sample), si_loans site_after)"
    by (simp add: photo_on_def gets_def site_after_def in_workspace_def no_workspaces_def photo_sample_def new_photo_def manual_draft_def)
  ultimately show ?thesis
    by (simp add: create_manual_photo_metadata_def thn_Inr bnd_Inr lift_res_Inr transaction_Inr some_or_Inr photo_sample_valid
        photo_id_by_identity_on_def gets_def no_workspaces_def)
qed

lemma sample_again: "create_manual_photo_metadata site_mail_sample (known_connection site_sample) second 1 ''L1'' (Some ''a.png'') upload_url (si_loans site_after) =
    (Inr photo_sample, si_loans site_after)"
proof (rule manual_photo_known [OF site_after_ok(1) _ _ photo_sample_valid])
  show "photo_sample \<in> set (photos (si_loans site_after))" by (simp add: site_after_def)
  show "same_photo 1 ''L1'' ''manual'' upload_url photo_sample" by (simp add: same_photo_def photo_sample_def new_photo_def manual_draft_def)
qed

lemma sample_requests:
  "finalize_photo_upload env_sample service_sample ''tmo'' ''L1'' token_sample site_sample = (photo_reply, site_after)"
  "finalize_photo_upload env_sample service_sample ''tmo'' ''L1'' token_sample site_after = (photo_reply, site_after)"
proof -
  have e: "site_sample\<lparr>si_loans := no_workspaces\<rparr> = site_sample" "site_sample\<lparr>si_loans := si_loans site_after\<rparr> = site_after"
    by (simp_all add: site_sample_def site_after_def)
  show "finalize_photo_upload env_sample service_sample ''tmo'' ''L1'' token_sample site_sample = (photo_reply, site_after)"
    "finalize_photo_upload env_sample service_sample ''tmo'' ''L1'' token_sample site_after = (photo_reply, site_after)"
    using sample_finalize [OF sample_first] sample_finalize [OF sample_again] by (simp_all add: e photo_reply_of)
qed

text \<open>In between, the photo is featured.\<close>

definition site_featured :: "unit site" where
  "site_featured = site_sample\<lparr>si_loans := no_workspaces\<lparr>photos := [photo_sample\<lparr>ph_is_featured := True\<rparr>], photo_seq := 1\<rparr>\<rparr>"

lemma site_featured_ok: "loan_valid site_mail_sample (known_connection site_sample) (si_loans site_featured)"
  "site_ok site_mail_sample site_featured" "photo_stays 1 (si_loans site_after) (si_loans site_featured)"
proof -
  have v: "photo_check site_mail_sample photo_sample" "known_connection site_sample 1"
    using site_after_ok(1) by (simp_all add: loan_valid_def site_after_def)
      (simp add: photo_sample_def new_photo_def manual_draft_def)
  then show "loan_valid site_mail_sample (known_connection site_sample) (si_loans site_featured)"
    by (simp add: loan_valid_def site_featured_def no_workspaces_def featured_ok_def photo_check_def)
      (simp add: photo_sample_def new_photo_def manual_draft_def)
  then show "site_ok site_mail_sample site_featured"
    by (simp add: site_ok_def site_featured_def loan_ids_def ids_ok_def no_workspaces_def) (simp add: photo_sample_def new_photo_def)
  show "photo_stays 1 (si_loans site_after) (si_loans site_featured)"
    by (simp add: photo_stays_def site_after_def site_featured_def same_photo_def)
qed

lemma featured_request:
  "\<exists>r t. finalize_photo_upload env_sample service_sample ''tmo'' ''L1'' token_sample site_featured = (r, t) \<and> sy_status r = 200"
proof -
  let ?p = "photo_sample\<lparr>ph_is_featured := True\<rparr>"
  have c: "create_manual_photo_metadata site_mail_sample (known_connection site_sample) second 1 ''L1'' (Some ''a.png'') upload_url
      (si_loans site_featured) = (Inr ?p, si_loans site_featured)"
  proof (rule manual_photo_known [OF site_featured_ok(1) _ _ photo_sample_valid])
    show "?p \<in> set (photos (si_loans site_featured))" by (simp add: site_featured_def)
    show "same_photo 1 ''L1'' ''manual'' upload_url ?p" by (simp add: same_photo_def photo_sample_def new_photo_def manual_draft_def)
  qed
  have e: "site_sample\<lparr>si_loans := si_loans site_featured\<rparr> = site_featured" by (simp add: site_sample_def site_featured_def)
  show ?thesis using sample_finalize [OF c] by (simp add: e site_reply_of_def)
qed


theorem finalized_photo_served_witness:
  "\<exists>route. sy_body photo_reply = FinalizedBody 1 (media_prefix @ aws_encode_path route) \<and>
     serve_loan_photo env_sample service_sample route site_after = \<lparr>sy_status = 307, sy_location = Some ''u'', sy_body = EmptyBody\<rparr>"
proof -
  have "sy_status photo_reply = 200" "sx_mail env_sample = site_mail_sample" "sx_crates env_sample = sample_crates" "sx_connects env_sample 0"
    "sx_header_ok env_sample ''u''"
    by (simp_all add: photo_reply_def site_reply_of_def env_sample_def)
  then show ?thesis
    using finalized_photo_served [OF sample_requests(1) _ sample_orderly(1)] sample_orderly(3) sample_crates_ok
    by (fastforce simp: service_sample_def backend_sample_def photo_reply_def site_reply_of_def)
qed

theorem feature_photo_effect_witness:
  "fst (set_featured_photo site_mail_sample (known_connection site_sample) 1 ''L1'' 1 (si_loans site_after)) =
     Inr (photo_sample\<lparr>ph_is_featured := True\<rparr>)"
proof -
  have p: "photo_sample \<in> set (photos (si_loans site_after))" "in_workspace 1 ''L1'' photo_sample" "ph_id photo_sample = 1"
    by (simp_all add: site_after_def in_workspace_def photo_sample_def new_photo_def manual_draft_def)
  from feature_photo_effect [OF site_after_ok(1) p(1,2)] p(3) show ?thesis by simp
qed

end
