(* ===== verification/Legacy_Events.thy ===== *)
theory Legacy_Events
  imports Refresh Events Forecast Http_Types
begin

text \<open>
  \<open>tools/pg-to-turso/src/schedule_transform.rs\<close>: how the one-off migration turns an event of the
  old database into a row of \<open>stream_events\<close>. The old schema had no overrides: an edited event was
  overwritten, and a generated one was keyed by its schedule and its date. \<open>transform_event\<close> splits
  such an event into the schedule's own values and the overrides that the user's edits amount to, and
  gives it the slot key that the server computes.

  The \<open>chrono\<close> crate is not part of the repository: \<open>chrono_api\<close> holds the operations the tool
  calls, a \<open>NaiveDate\<close> being its day number, and the locale \<open>chrono_dates\<close> states what they do on
  the dates that the server can store. A fault is the text of the \<open>anyhow\<close> error, a
  \<open>ManifestSafeBlocker\<close> under its context, or a panic. Equality of \<open>f64\<close>
  is equality of the bits (the tool admits no NaN). \<open>created_at\<close> is left out, as it is in
  \<open>event_row\<close>.
\<close>

record chrono_api =
  ch_parse :: "string \<Rightarrow> int option"
  ch_format :: "int \<Rightarrow> string"
  ch_ymd :: "int \<Rightarrow> int \<times> nat \<times> nat"
  ch_with_day :: "int \<Rightarrow> nat \<Rightarrow> int option"
  ch_add_month :: "int \<Rightarrow> int option"
  ch_min :: int

record legacy_event =
  le_id :: int
  le_stream_id :: int
  le_account_id :: "int option"
  le_label :: "string option"
  le_expected_date :: string
  le_actual_date :: "string option"
  le_amount :: f64
  le_status :: string
  le_source_id :: "string option"
  le_source_type :: "string option"
  le_metadata :: "string option"
  le_notes :: "string option"
  le_updated_at :: string

datatype migration_error = Anyhow string | Blocked string string | Crashed string

definition and_context :: "string \<Rightarrow> 'a option \<Rightarrow> migration_error + 'a" where
  "and_context s x = (case x of Some a \<Rightarrow> Inr a | None \<Rightarrow> Inl (Anyhow s))"

definition event_tag :: "int \<Rightarrow> string" where
  "event_tag i = ''stream_event['' @ show_int i @ '']''"

definition ch_year :: "chrono_api \<Rightarrow> int \<Rightarrow> int" where
  "ch_year C d = fst (ch_ymd C d)"

definition ch_month :: "chrono_api \<Rightarrow> int \<Rightarrow> nat" where
  "ch_month C d = fst (snd (ch_ymd C d))"

definition ch_day :: "chrono_api \<Rightarrow> int \<Rightarrow> nat" where
  "ch_day C d = snd (snd (ch_ymd C d))"

definition parse_chrono :: "chrono_api \<Rightarrow> string \<Rightarrow> string \<Rightarrow> int \<Rightarrow> migration_error + int" where
  "parse_chrono C s field i = and_context (event_tag i @ '' has an invalid '' @ field) (ch_parse C s)"

definition chrono_month_end :: "chrono_api \<Rightarrow> int \<Rightarrow> migration_error + int" where
  "chrono_month_end C d =
     rbnd (and_context ''date has no first day'' (ch_with_day C d 1)) (\<lambda>first.
     rbnd (and_context ''date arithmetic overflow'' (ch_add_month C first)) (\<lambda>next.
       if ch_min C \<le> next - 1 then Inr (next - 1)
       else Inl (Crashed ''`NaiveDate - TimeDelta` overflowed'')))"

definition indexed_slot :: "string \<Rightarrow> int \<Rightarrow> int \<Rightarrow> int \<Rightarrow> int \<Rightarrow> migration_error + string" where
  "indexed_slot nm anchor occurrence step i =
     (let days = occurrence - anchor
      in if days < 0 \<or> \<not> step dvd days
         then Inl (Anyhow (event_tag i @ '' occurrence does not align to its schedule cadence''))
         else Inr (nm @ '':'' @ show_int (tdiv days step)))"

definition legacy_slot :: "chrono_api \<Rightarrow> string \<Rightarrow> int \<Rightarrow> int \<Rightarrow> int \<Rightarrow> migration_error + string" where
  "legacy_slot C frequency anchor occurrence i =
     (let ym = show_int_pad 4 (ch_year C occurrence) @ ''-'' @ show_pad 2 (ch_month C occurrence)
      in if frequency = ''monthly'' then Inr (''monthly:'' @ ym)
         else if frequency = ''semimonthly'' then
           rbnd (if ch_day C occurrence = 15 then Inr ''mid''
                 else rbnd (chrono_month_end C occurrence) (\<lambda>l.
                   if occurrence = l then Inr ''end''
                   else Inl (Anyhow (event_tag i @ '' occurrence does not match semimonthly cadence''))))
             (\<lambda>half. Inr (''semimonthly:'' @ ym @ '':'' @ half))
         else if frequency = ''weekly'' then indexed_slot ''weekly'' anchor occurrence 7 i
         else if frequency = ''biweekly'' then indexed_slot ''biweekly'' anchor occurrence 14 i
         else if frequency = ''annual'' then Inr (''annual:'' @ show_int_pad 4 (ch_year C occurrence))
         else if frequency = ''one_time'' then Inr ''one_time''
         else Inl (Anyhow (event_tag i @ '' references an unsupported schedule cadence'')))"

definition parse_legacy_source_id :: "chrono_api \<Rightarrow> string \<Rightarrow> int \<Rightarrow> migration_error + (int \<times> int)" where
  "parse_legacy_source_id C source_id i =
     rbnd (and_context (event_tag i @ '' has an incompatible schedule source_id'')
            (strip_prefix ''stream_schedule:'' source_id)) (\<lambda>remainder.
       case split_on (CHR '':'') remainder of
         [] \<Rightarrow> Inl (Anyhow ''legacy schedule source ID is missing its schedule'')
       | [_] \<Rightarrow> Inl (Anyhow ''legacy schedule source ID is missing its occurrence'')
       | schedule_text # occurrence_text # rest \<Rightarrow>
           if rest \<noteq> [] then Inl (Anyhow (event_tag i @ '' has an incompatible schedule source_id''))
           else
           rbnd (and_context (event_tag i @ '' has an invalid schedule ID'') (parse_i64 schedule_text))
             (\<lambda>schedule_id.
           if schedule_id \<le> 0 \<or> show_int schedule_id \<noteq> schedule_text
           then Inl (Anyhow (event_tag i @ '' has a non-canonical schedule ID''))
           else
           rbnd (parse_chrono C occurrence_text ''source_id occurrence'' i) (\<lambda>occurrence.
           if ch_format C occurrence \<noteq> occurrence_text
           then Inl (Anyhow (event_tag i @ '' has a non-canonical occurrence date''))
           else Inr (schedule_id, occurrence))))"

definition blocker_text :: string where
  "blocker_text = ''immutable received schedule history has a legacy occurrence that the current schedule cadence/anchor cannot recognize; safe stable-slot canonicalization requires reviewed schedule history''"

definition copied_event :: "legacy_event \<Rightarrow> event_row" where
  "copied_event e =
     \<lparr>ev_id = le_id e, ev_stream_id = le_stream_id e, ev_account_id = le_account_id e,
      ev_label = le_label e, ev_expected_date = le_expected_date e, ev_amount = le_amount e,
      ev_override_label = None, ev_has_label_override = False, ev_override_date = None,
      ev_override_amount = None, ev_override_account_id = None, ev_has_account_override = False,
      ev_actual_date = le_actual_date e,
      ev_actual_amount = map_option (\<lambda>_. le_amount e) (le_actual_date e),
      ev_status = le_status e, ev_is_excluded = False, ev_exclusion_reason = None,
      ev_source_id = le_source_id e, ev_source_type = le_source_type e,
      ev_metadata = le_metadata e, ev_notes = le_notes e, ev_updated_at = le_updated_at e\<rparr>"

definition split_event :: "chrono_api \<Rightarrow> legacy_event \<Rightarrow> stream_row \<Rightarrow> schedule_row \<Rightarrow> int \<Rightarrow> string \<Rightarrow>
    event_row" where
  "split_event C e s sch occurrence slot =
     (let seed_label = (case sc_label sch of Some l \<Rightarrow> l | None \<Rightarrow> st_name s @ '' due'');
          label_changed = (le_label e \<noteq> Some seed_label);
          date_changed = (le_expected_date e \<noteq> ch_format C occurrence);
          amount_changed = (le_amount e \<noteq> sc_amount sch);
          effective_seed_account = coalesce (sc_account_id sch) (st_default_account_id s);
          account_changed = (le_account_id e \<noteq> effective_seed_account)
      in \<lparr>ev_id = le_id e, ev_stream_id = le_stream_id e, ev_account_id = sc_account_id sch,
          ev_label = Some seed_label, ev_expected_date = ch_format C occurrence,
          ev_amount = sc_amount sch,
          ev_override_label = (if label_changed then le_label e else None),
          ev_has_label_override = label_changed,
          ev_override_date = (if date_changed then Some (le_expected_date e) else None),
          ev_override_amount = (if amount_changed then Some (le_amount e) else None),
          ev_override_account_id = (if account_changed then le_account_id e else None),
          ev_has_account_override = account_changed,
          ev_actual_date = le_actual_date e,
          ev_actual_amount = (if le_status e = ''received'' then Some (le_amount e) else None),
          ev_status = le_status e, ev_is_excluded = False, ev_exclusion_reason = None,
          ev_source_id = Some (''stream_schedule:'' @ show_int (sc_id sch) @ '':'' @ slot),
          ev_source_type = le_source_type e, ev_metadata = le_metadata e, ev_notes = le_notes e,
          ev_updated_at = le_updated_at e\<rparr>)"

definition transform_event :: "chrono_api \<Rightarrow> legacy_event \<Rightarrow> stream_row list \<Rightarrow> schedule_row list \<Rightarrow>
    migration_error + event_row" where
  "transform_event C e ss schs =
     (if le_status e = ''received'' \<and> le_actual_date e = None
      then Inl (Anyhow (event_tag (le_id e) @ '' is received but has no actual_date''))
      else if le_status e \<noteq> ''received'' \<and> le_actual_date e \<noteq> None
      then Inl (Anyhow (event_tag (le_id e) @ '' has an actual_date without received status''))
      else if le_source_type e \<noteq> Some ''stream_schedule'' then Inr (copied_event e)
      else
      rbnd (and_context (event_tag (le_id e) @ '' is schedule-generated but has no source_id'')
             (le_source_id e)) (\<lambda>source_id.
      rbnd (parse_legacy_source_id C source_id (le_id e)) (\<lambda>(schedule_id, occurrence).
      rbnd (and_context (event_tag (le_id e) @ '' references missing stream_schedule['' @
               show_int schedule_id @ '']'') (find (\<lambda>s. sc_id s = schedule_id) schs)) (\<lambda>sch.
      if sc_stream_id sch \<noteq> le_stream_id e
      then Inl (Anyhow (event_tag (le_id e) @ '' and stream_schedule['' @ show_int schedule_id @
               ''] belong to different streams''))
      else
      rbnd (and_context (event_tag (le_id e) @ '' references a missing stream'')
             (find (\<lambda>s. st_id s = le_stream_id e) ss)) (\<lambda>s.
      rbnd (parse_chrono C (sc_start_date sch) ''stream_schedule.start_date'' (le_id e)) (\<lambda>anchor.
      case legacy_slot C (sc_frequency sch) anchor occurrence (le_id e) of
        Inr slot \<Rightarrow> Inr (split_event C e s sch occurrence slot)
      | Inl (Anyhow detail) \<Rightarrow>
          (if le_status e = ''received''
           then Inl (Blocked (event_tag (le_id e) @ '' cannot map through stream_schedule['' @
                  show_int schedule_id @ '']: '' @ detail) blocker_text)
           else Inl (Anyhow detail))
      | Inl other \<Rightarrow> Inl other))))))"


subsection \<open>What the crate does on storable dates\<close>

locale chrono_dates = time_date D for D :: date_api +
  fixes C :: chrono_api
  assumes text_parses: "storable D j \<Longrightarrow> ch_parse C (iso_to_string D j) = Some j"
    and text_of: "storable D j \<Longrightarrow> ch_format C j = iso_to_string D j"
    and same_parts: "in_range D j \<Longrightarrow> ch_ymd C j = ymd D j"
    and to_first: "in_range D j \<Longrightarrow> ymd D j = (y, m, d) \<Longrightarrow>
      ch_with_day C j 1 = from_calendar_date D y m 1"
    and to_next: "in_range D j \<Longrightarrow> ymd D j = (y, m, 1) \<Longrightarrow>
      from_calendar_date D (fst (next_month_of y m)) (snd (next_month_of y m)) 1 = Some g \<Longrightarrow>
      ch_add_month C j = Some g"
    and reaches: "ch_min C \<le> date_min D"
begin

lemma chrono_parts:
  assumes "in_range D j"
  shows "ch_year C j = iso_year D j" and "ch_month C j = iso_month D j" and "ch_day C j = iso_day D j"
  using same_parts [OF assms] by (simp_all add: ch_year_def ch_month_def ch_day_def iso_parts)

lemma chrono_month_end_eq:
  assumes "in_range D c" and "\<not> last_month D c"
  obtains l where "chrono_month_end C c = Inr l" and "last_of_month D c = Inr l" and "in_range D l"
    and "iso_year D l = iso_year D c" and "iso_month D l = iso_month D c"
proof -
  obtain l where l: "last_of_month D c = Inr l" "in_range D l" "next_month D c = Inr (l + 1)"
      "iso_year D l = iso_year D c" "iso_month D l = iso_month D c"
    using last_of_month_ex [OF assms] by metis
  obtain g where g: "next_month D c = Inr g" "in_range D g"
      "ymd D g = (fst (next_month_of (iso_year D c) (iso_month D c)),
                  snd (next_month_of (iso_year D c) (iso_month D c)), 1)"
    by (rule next_first [OF assms])
  have gl: "g = l + 1" using g(1) l(3) by simp
  note f = first_of_month_eq [OF assms(1)]
  have "ch_with_day C c 1 = Some (c - int (iso_day D c) + 1)"
    using to_first [OF assms(1) ymd_parts] from_complete [OF f(2,3)] by simp
  moreover have "ch_add_month C (c - int (iso_day D c) + 1) = Some g"
    by (rule to_next [OF f(2,3) from_complete [OF g(2,3)]])
  moreover have "ch_min C \<le> l" using reaches l(2) by (simp add: in_range_def)
  ultimately have "chrono_month_end C c = Inr l"
    by (simp add: chrono_month_end_def and_context_def gl)
  with l show ?thesis by (intro that)
qed

text \<open>On the dates a schedule falls on, the tool and the server agree on the slot.\<close>

lemma legacy_slot_eq:
  assumes "in_range D c" and "\<not> last_month D c" and "anchor \<le> c" and "due_on D f anchor day c"
  shows "legacy_slot C (frequency_str f) anchor c i = Inr (projection_slot D f anchor c)"
proof (cases f)
  case Semimonthly
  obtain l where l: "chrono_month_end C c = Inr l" "last_of_month D c = Inr l" "in_range D l"
      "iso_year D l = iso_year D c" "iso_month D l = iso_month D c"
    by (rule chrono_month_end_eq [OF assms(1,2)])
  have "c = l" if "iso_day D c \<noteq> 15"
    using that assms(4) Semimonthly l parts_inj [OF assms(1) l(3)] by (simp add: due_on_def month_end_def)
  then show ?thesis using Semimonthly l(1)
    by (auto simp: legacy_slot_def projection_slot_def frequency_str_def chrono_parts [OF assms(1)])
qed (use assms in \<open>simp_all add: legacy_slot_def projection_slot_def frequency_str_def indexed_slot_def
       due_on_def iso_days_until_def chrono_parts\<close>)

end

subsection \<open>A calendar for the witnesses\<close>

definition chrono_greg :: chrono_api where
  "chrono_greg = \<lparr>
     ch_parse = (\<lambda>s. case iso_from_str gregorian s of Inr j \<Rightarrow> Some j | Inl _ \<Rightarrow> None),
     ch_format = iso_to_string gregorian, ch_ymd = greg_ymd,
     ch_with_day = (\<lambda>j d. greg_from (fst (greg_ymd j)) (fst (snd (greg_ymd j))) d),
     ch_add_month = (\<lambda>j. case greg_ymd j of (y, m, d) \<Rightarrow>
       greg_from (fst (next_month_of y m)) (snd (next_month_of y m)) d),
     ch_min = date_min gregorian\<rparr>"

interpretation chrono: chrono_dates gregorian chrono_greg
proof unfold_locales
  fix j y m d g
  have g: "ymd gregorian = greg_ymd" "from_calendar_date gregorian = greg_from"
    by (simp_all add: gregorian_def)
  show "storable gregorian j \<Longrightarrow> ch_parse chrono_greg (iso_to_string gregorian j) = Some j"
    by (simp add: chrono_greg_def greg.from_str_to_string)
  show "ch_format chrono_greg j = iso_to_string gregorian j" by (simp add: chrono_greg_def)
  show "ch_ymd chrono_greg j = ymd gregorian j" by (simp add: chrono_greg_def g)
  show "ymd gregorian j = (y, m, d) \<Longrightarrow> ch_with_day chrono_greg j 1 = from_calendar_date gregorian y m 1"
    by (simp add: chrono_greg_def g)
  show "ymd gregorian j = (y, m, 1) \<Longrightarrow>
      from_calendar_date gregorian (fst (next_month_of y m)) (snd (next_month_of y m)) 1 = Some g \<Longrightarrow>
      ch_add_month chrono_greg j = Some g"
    by (simp add: chrono_greg_def g)
  show "ch_min chrono_greg \<le> date_min gregorian" by (simp add: chrono_greg_def)
qed


subsection \<open>What the transformation keeps\<close>

lemma split_on_none: "c \<notin> set s \<Longrightarrow> split_on c s = [s]"
  by (induction s) auto

lemma split_on_sep: "c \<notin> set a \<Longrightarrow> split_on c (a @ c # b) = a # split_on c b"
  by (induction a) auto

lemma show_int_pos: "0 < i \<Longrightarrow> show_int i = show_nat (nat i)"
  by (simp add: show_int_def)

lemma show_nat_head: "show_nat n = c # cs \<Longrightarrow> is_digit c"
  using show_nat_digits [of n] by simp

lemma parse_show_pos:
  assumes "0 < i" and "i < 2 ^ 63"
  shows "parse_i64 (show_int i) = Some i"
proof -
  obtain c cs where s: "show_nat (nat i) = c # cs" using show_nat_not_Nil by (cases "show_nat (nat i)") auto
  then have d: "is_digit c" by (rule show_nat_head)
  then have "c \<noteq> CHR ''-''" "c \<noteq> CHR ''+''" by (auto simp: is_digit_def code_def)
  moreover have "list_all is_digit (c # cs)" "digits_val (c # cs) = nat i"
    using show_nat_digits [of "nat i"] digits_val_show [of "nat i"] by (simp_all add: s)
  ultimately show ?thesis using assms by (simp add: parse_i64_def show_int_pos s)
qed

lemma digits_no_colon: "list_all is_digit s \<Longrightarrow> CHR '':'' \<notin> set s"
  by (auto simp: list_all_iff is_digit_def code_def)

context chrono_dates
begin

lemma date_no_colon: "storable D j \<Longrightarrow> CHR '':'' \<notin> set (iso_to_string D j)"
  using digits_no_colon [OF show_pad_digits] by (simp add: iso_to_string_def year_text)

lemma parse_legacy_key:
  assumes "0 < i" and "i < 2 ^ 63" and "storable D c"
  shows "parse_legacy_source_id C (''stream_schedule:'' @ show_int i @ '':'' @ iso_to_string D c) k =
    Inr (i, c)"
proof -
  have "CHR '':'' \<notin> set (show_int i)"
    using digits_no_colon [OF show_nat_digits] by (simp add: show_int_pos assms(1))
  then have "split_on (CHR '':'') (show_int i @ '':'' @ iso_to_string D c) = [show_int i, iso_to_string D c]"
    using split_on_sep [of "CHR '':''" "show_int i" "iso_to_string D c"]
    by (simp add: split_on_none date_no_colon [OF assms(3)])
  moreover have "strip_prefix ''stream_schedule:'' (''stream_schedule:'' @ show_int i @ '':'' @ iso_to_string D c) =
      Some (show_int i @ '':'' @ iso_to_string D c)"
    by (simp only: strip_prefix_Some)
  ultimately show ?thesis using assms
    by (simp add: parse_legacy_source_id_def and_context_def parse_show_pos parse_chrono_def
        text_parses text_of)
qed

lemma transform_generated:
  assumes e: "le_source_type e = Some ''stream_schedule''" "(le_status e = ''received'') = (le_actual_date e \<noteq> None)"
      "le_source_id e = Some (''stream_schedule:'' @ show_int (sc_id sch) @ '':'' @ iso_to_string D c)"
    and sch: "find (\<lambda>r. sc_id r = sc_id sch) schs = Some sch" "0 < sc_id sch" "sc_id sch < 2 ^ 63"
      "sc_stream_id sch = le_stream_id e" "sc_start_date sch = iso_to_string D anchor"
      "sc_frequency sch = frequency_str f"
    and s: "find (\<lambda>r. st_id r = le_stream_id e) ss = Some s"
    and dates: "storable D anchor" "storable D c" "\<not> last_month D c" "anchor \<le> c" "due_on D f anchor day c"
  shows "transform_event C e ss schs = Inr (split_event C e s sch c (projection_slot D f anchor c))"
proof -
  have r: "in_range D c" using dates(2) by (simp add: storable_def)
  define src where "src = ''stream_schedule:'' @ show_int (sc_id sch) @ '':'' @ iso_to_string D c"
  have "parse_legacy_source_id C src (le_id e) = Inr (sc_id sch, c)"
    unfolding src_def by (rule parse_legacy_key [OF sch(2,3) dates(2)])
  moreover note e(1,2) e(3) [folded src_def] sch(1,4) s
  moreover have "parse_chrono C (sc_start_date sch) ''stream_schedule.start_date'' (le_id e) = Inr anchor"
    by (simp add: parse_chrono_def and_context_def text_parses sch(5) dates(1))
  moreover have "legacy_slot C (sc_frequency sch) anchor c (le_id e) = Inr (projection_slot D f anchor c)"
    unfolding sch(6) by (rule legacy_slot_eq [OF r dates(3,4,5)])
  ultimately show ?thesis by (simp add: transform_event_def and_context_def)
qed

end

lemma split_event_matches:
  assumes "le_source_type e = Some ''stream_schedule''" and "ch_format C c = iso_to_string (dates X) c"
  shows "matches (le_stream_id e) (projection_of X (st_name s) (schedule_from_row sch) f anchor c)
    (split_event C e s sch c (projection_slot (dates X) f anchor c))"
  using assms by (simp add: matches_def has_slot_def event_key_def split_event_def projection_of_def
      schedule_from_row_def Let_def split: option.splits)

lemma split_event_values:
  assumes "(le_status e = ''received'') = (le_actual_date e \<noteq> None)"
  shows "effective_label (split_event C e s sch c slot) = le_label e"
    and "effective_date (split_event C e s sch c slot) =
      (case le_actual_date e of Some d \<Rightarrow> d | None \<Rightarrow> le_expected_date e)"
    and "effective_amount (split_event C e s sch c slot) = le_amount e"
    and "joined_account (split_event C e s sch c slot) s = le_account_id e"
  using assms
  by (auto simp: split_event_def Let_def effective_label_def effective_date_def effective_amount_def
      joined_account_def coalesce_def split: option.splits)

lemma copied_event_values:
  assumes "(le_status e = ''received'') = (le_actual_date e \<noteq> None)"
  shows "effective_label (copied_event e) = le_label e"
    and "effective_date (copied_event e) =
      (case le_actual_date e of Some d \<Rightarrow> d | None \<Rightarrow> le_expected_date e)"
    and "effective_amount (copied_event e) = le_amount e"
    and "joined_account (copied_event e) s = coalesce (le_account_id e) (st_default_account_id s)"
  by (auto simp: copied_event_def effective_label_def effective_date_def effective_amount_def
      joined_account_def coalesce_def split: option.splits)

lemma and_context_Inr: "and_context t x = Inr a \<longleftrightarrow> x = Some a"
  by (auto simp: and_context_def split: option.splits)

lemma transform_cases:
  assumes "transform_event C e ss schs = Inr row"
  obtains "(le_status e = ''received'') = (le_actual_date e \<noteq> None)"
      "le_source_type e \<noteq> Some ''stream_schedule''" "row = copied_event e"
  | s sch c slot src i where "(le_status e = ''received'') = (le_actual_date e \<noteq> None)"
      "le_source_type e = Some ''stream_schedule''" "find (\<lambda>r. st_id r = le_stream_id e) ss = Some s"
      "row = split_event C e s sch c slot" "find (\<lambda>r. sc_id r = i) schs = Some sch" "le_source_id e = Some src"
      "parse_legacy_source_id C src (le_id e) = Inr (i, c)"
  using assms
  by (auto simp: transform_event_def rbnd_def and_context_Inr split: if_splits sum.splits
      prod.splits migration_error.splits)

text \<open>Migrating an event changes nothing that the server shows of it: the label, the date, the
  amount and, for a generated event, the account that the forecast reads from the new row (through its
  overrides, its schedule's values and its stream's default account) are the ones of the old event,
  and its status, its stream and its notes are carried over.\<close>

theorem migration_keeps_event:
  assumes "transform_event C e ss schs = Inr row" and "find (\<lambda>r. st_id r = le_stream_id e) ss = Some s"
  shows "effective_label row = le_label e \<and>
    effective_date row = (case le_actual_date e of Some d \<Rightarrow> d | None \<Rightarrow> le_expected_date e) \<and>
    effective_amount row = le_amount e \<and>
    joined_account row s = (if le_source_type e = Some ''stream_schedule'' then le_account_id e
      else coalesce (le_account_id e) (st_default_account_id s)) \<and>
    ev_id row = le_id e \<and> ev_stream_id row = le_stream_id e \<and> ev_status row = le_status e \<and>
    ev_actual_date row = le_actual_date e \<and> ev_notes row = le_notes e \<and> \<not> ev_is_excluded row"
  using assms(1)
proof (cases rule: transform_cases)
  case 1
  then show ?thesis using copied_event_values [OF 1(1)] by (simp add: copied_event_def)
next
  case (2 s' sch c slot src i)
  then have "s' = s" using assms(2) by simp
  then show ?thesis using 2 split_event_values [OF 2(1)] by (simp add: split_event_def Let_def)
qed

text \<open>An event that the old program generated for a date on which the schedule falls migrates to a
  row that the server takes for its own projection of that occurrence: the migration succeeds, the
  row is keyed by the slot that the server computes, and its refreshable values are the ones a refresh
  would write, so that refreshing the stream neither duplicates nor changes it.\<close>

theorem migration_slot_recognised:
  assumes "chrono_dates (dates X) C"
    and "le_source_type e = Some ''stream_schedule''"
    and "(le_status e = ''received'') = (le_actual_date e \<noteq> None)"
    and "le_source_id e =
      Some (''stream_schedule:'' @ show_int (sc_id sch) @ '':'' @ iso_to_string (dates X) c)"
    and "find (\<lambda>r. sc_id r = sc_id sch) schs = Some sch" and "0 < sc_id sch" and "sc_id sch < 2 ^ 63"
    and "sc_stream_id sch = le_stream_id e" and "sc_start_date sch = iso_to_string (dates X) anchor"
    and "sc_frequency sch = frequency_str f"
    and "find (\<lambda>r. st_id r = le_stream_id e) ss = Some s"
    and "storable (dates X) anchor" and "storable (dates X) c" and "\<not> last_month (dates X) c"
    and "anchor \<le> c" and "due_on (dates X) f anchor day c"
  shows "\<exists>row. transform_event C e ss schs = Inr row \<and>
    matches (le_stream_id e) (projection_of X (st_name s) (schedule_from_row sch) f anchor c) row"
proof -
  have "ch_format C c = iso_to_string (dates X) c"
    by (rule chrono_dates.text_of [OF assms(1,13)])
  then show ?thesis
    using chrono_dates.transform_generated [OF assms] split_event_matches [OF assms(2)] by blast
qed

subsection \<open>Witnesses\<close>

text \<open>A rent payment that the old program generated for the end of February; the user moved it to
  the second of March and raised it.\<close>

definition moved_rent :: legacy_event where
  "moved_rent = \<lparr>le_id = 7, le_stream_id = 1, le_account_id = Some 1, le_label = Some ''Rent due'',
     le_expected_date = ''2026-03-02'', le_actual_date = None, le_amount = f64_small 60,
     le_status = ''projected'', le_source_id = Some ''stream_schedule:1:2026-02-28'',
     le_source_type = Some ''stream_schedule'', le_metadata = None, le_notes = Some ''later'',
     le_updated_at = ''2026-01-01T00:00:00.000Z''\<rparr>"


lemma moved_rent_dates:
  "storable gregorian 739617" "storable gregorian 739675" "\<not> last_month gregorian 739675"
  "due_on gregorian Monthly 739617 31 739675" "show_int 1 = ''1''"
  by code_simp+

lemma moved_rent_row: "\<exists>row. transform_event chrono_greg moved_rent [rent_stream] [rent_schedule] = Inr row"
  using chrono.transform_generated [of moved_rent rent_schedule 739675 "[rent_schedule]" 739617 Monthly
    "[rent_stream]" rent_stream 31] moved_rent_dates
  by (simp add: moved_rent_def rent_schedule_def rent_stream_def sample_texts frequency_str_def)

lemma migration_keeps_event_witness:
  "\<exists>row. transform_event chrono_greg moved_rent [rent_stream] [rent_schedule] = Inr row \<and>
     effective_date row = ''2026-03-02'' \<and> effective_amount row = f64_small 60 \<and>
     joined_account row rent_stream = Some 1"
proof -
  obtain row where row: "transform_event chrono_greg moved_rent [rent_stream] [rent_schedule] = Inr row"
    using moved_rent_row by blast
  show ?thesis using migration_keeps_event [OF row, of rent_stream] row
    by (simp add: moved_rent_def rent_stream_def)
qed

lemma migration_slot_recognised_witness:
  "\<exists>row. transform_event chrono_greg moved_rent [rent_stream] [rent_schedule] = Inr row \<and>
     matches 1 (projection_of sample_ext ''Rent'' (schedule_from_row rent_schedule) Monthly 739617 739675) row"
  using migration_slot_recognised [of sample_ext chrono_greg moved_rent rent_schedule 739675
    "[rent_schedule]" 739617 Monthly "[rent_stream]" rent_stream 31]
    chrono.chrono_dates_axioms moved_rent_dates
  by (simp add: moved_rent_def rent_schedule_def rent_stream_def sample_texts frequency_str_def
      sample_ext_def)

end
