(* ===== verification/Migration_Rows.thy ===== *)
theory Migration_Rows
  imports Legacy_Events Finance_Http
begin

text \<open>
  \<open>tools/pg-to-turso/src/source.rs\<close> and \<open>convert.rs\<close>: how the migration reads the streams, the
  schedules and the events of the old PostgreSQL database, checks every value, and turns it into a row
  of the new tables. A PostgreSQL row is a record of its decoded columns, in the order of the query;
  \<open>serde_ok X\<close> is \<open>serde_json\<close>'s parser and \<open>ch_canonical\<close> the crate's conversion of an RFC 3339 text
  to UTC with milliseconds, both arguments of the model. \<open>created_at\<close> is checked and not kept.

  The theorem of this theory: whatever the tool exports as events meets every constraint of the table
  that receives it, the unique slot key included.
\<close>

datatype source_shape = Upgraded | LegacySigned

record pg_stream =
  ps_id :: int
  ps_name :: string
  ps_type :: string
  ps_kind :: "string option"
  ps_direction :: "string option"
  ps_certainty :: "string option"
  ps_description :: "string option"
  ps_default_account_id :: "int option"
  ps_configuration :: "string option"
  ps_parent_id :: "int option"
  ps_is_active :: int
  ps_created_at :: string
  ps_updated_at :: string

record pg_schedule =
  pd_id :: int
  pd_stream_id :: int
  pd_account_id :: "int option"
  pd_label :: "string option"
  pd_amount :: f64
  pd_frequency :: string
  pd_day_of_month :: "int option"
  pd_start_date :: string
  pd_end_date :: "string option"
  pd_is_active :: int
  pd_metadata :: "string option"
  pd_created_at :: string
  pd_updated_at :: string

record pg_event =
  pv_id :: int
  pv_stream_id :: int
  pv_account_id :: "int option"
  pv_label :: "string option"
  pv_expected_date :: string
  pv_actual_date :: "string option"
  pv_amount :: f64
  pv_status :: string
  pv_source_id :: "string option"
  pv_source_type :: "string option"
  pv_metadata :: "string option"
  pv_notes :: "string option"
  pv_created_at :: string
  pv_updated_at :: string

record migration_env =
  mg_chrono :: chrono_api
  mg_json :: "string \<Rightarrow> bool"
  mg_canonical :: "string \<Rightarrow> string option"

type_synonym 'a migrated = "migration_error + 'a"

subsection \<open>Checked values\<close>

definition boolean_integer :: "int \<Rightarrow> string \<Rightarrow> int migrated" where
  "boolean_integer v field =
     (if v \<in> {0, 1} then Inr v else Inl (Anyhow (field @ '' must be 0 or 1'')))"

definition finite_number :: "f64 \<Rightarrow> string \<Rightarrow> f64 migrated" where
  "finite_number v field =
     (if \<not> is_finite v then Inl (Anyhow (field @ '' is NaN or infinite''))
      else if f64_le f64_1e308 (f64_abs v)
      then Inl (Anyhow (field @ '' exceeds the target REAL domain''))
      else Inr v)"

definition finite_magnitude :: "f64 \<Rightarrow> string \<Rightarrow> f64 migrated" where
  "finite_magnitude v field =
     rbnd (finite_number v field) (\<lambda>v.
       if f64_lt v f64_zero
       then Inl (Anyhow (field @ '' is negative; the upgraded source must store magnitudes''))
       else Inr v)"

definition source_magnitude :: "f64 \<Rightarrow> source_shape \<Rightarrow> string \<Rightarrow> f64 migrated" where
  "source_magnitude v shape field =
     (case shape of Upgraded \<Rightarrow> finite_magnitude v field
      | LegacySigned \<Rightarrow> rbnd (finite_number v field) (\<lambda>v. Inr (f64_abs v)))"

definition checked_date :: "migration_env \<Rightarrow> string \<Rightarrow> string \<Rightarrow> string migrated" where
  "checked_date M s field =
     rbnd (and_context (field @ '' is not a valid YYYY-MM-DD date'') (ch_parse (mg_chrono M) s))
       (\<lambda>d. Inr (ch_format (mg_chrono M) d))"

definition canonical_timestamp :: "migration_env \<Rightarrow> string \<Rightarrow> string \<Rightarrow> string migrated" where
  "canonical_timestamp M s field =
     and_context (field @ '' is not a timezone-qualified RFC3339 timestamp'') (mg_canonical M s)"

definition checked_json :: "migration_env \<Rightarrow> string option \<Rightarrow> string \<Rightarrow> string option migrated" where
  "checked_json M v field =
     (case v of None \<Rightarrow> Inr None
      | Some s \<Rightarrow> if mg_json M s then Inr (Some s) else Inl (Anyhow (field @ '' is not valid JSON'')))"

definition nonempty :: "string \<Rightarrow> string \<Rightarrow> string migrated" where
  "nonempty v field = (if trim v = [] then Inl (Anyhow (field @ '' is empty'')) else Inr v)"

definition one_of :: "string \<Rightarrow> string list \<Rightarrow> string \<Rightarrow> string migrated" where
  "one_of v allowed field =
     (if List.member allowed v then Inr v else Inl (Anyhow (field @ '' has an unsupported value'')))"

definition field_of :: "string \<Rightarrow> int \<Rightarrow> string \<Rightarrow> string" where
  "field_of tbl i column = tbl @ ''['' @ show_int i @ ''].'' @ column"

subsection \<open>Streams\<close>

definition legacy_stream_semantics :: "string \<Rightarrow> string \<Rightarrow> string \<times> string" where
  "legacy_stream_semantics stream_type kind =
     (if kind \<in> {''manual_expense'', ''credit_card''} \<or>
         stream_type \<in> {''manual_expense'', ''credit_card_due''} then ''out'' else ''in'',
      if kind = ''credit_card'' then ''estimated'' else ''known'')"

definition required_text :: "int \<Rightarrow> string \<Rightarrow> string option \<Rightarrow> string migrated" where
  "required_text i column v =
     rbnd (and_context (field_of ''stream'' i column @ '' is NULL'') v)
       (\<lambda>s. nonempty s (field_of ''stream'' i column))"

definition read_stream :: "migration_env \<Rightarrow> source_shape \<Rightarrow> pg_stream \<Rightarrow> stream_row migrated" where
  "read_stream M shape r =
     (let i = ps_id r; field = field_of ''stream'' i in
      rbnd (nonempty (ps_type r) (field ''type'')) (\<lambda>stream_type.
      rbnd (required_text i ''kind'' (ps_kind r)) (\<lambda>kind.
      rbnd (case shape of
              Upgraded \<Rightarrow>
                rbnd (rbnd (required_text i ''direction'' (ps_direction r)) (\<lambda>d.
                        one_of d [''in'', ''out''] (field ''direction''))) (\<lambda>d.
                rbnd (rbnd (required_text i ''amount_certainty'' (ps_certainty r)) (\<lambda>c.
                        one_of c [''known'', ''estimated''] (field ''amount_certainty''))) (\<lambda>c.
                Inr (d, c)))
            | LegacySigned \<Rightarrow> Inr (legacy_stream_semantics stream_type kind)) (\<lambda>(direction, certainty).
      rbnd (nonempty (ps_name r) (field ''name'')) (\<lambda>nm.
      rbnd (checked_json M (ps_configuration r) (field ''configuration'')) (\<lambda>config.
      rbnd (boolean_integer (ps_is_active r) (field ''is_active'')) (\<lambda>active.
      rbnd (canonical_timestamp M (ps_created_at r) (field ''created_at'')) (\<lambda>_.
      rbnd (canonical_timestamp M (ps_updated_at r) (field ''updated_at'')) (\<lambda>updated.
      Inr \<lparr>st_id = i, st_name = nm, st_type = stream_type, st_kind = kind,
           st_direction = direction, st_certainty = certainty, st_description = ps_description r,
           st_default_account_id = ps_default_account_id r, st_configuration = config,
           st_parent_id = ps_parent_id r, st_is_active = (active = 1),
           st_updated_at = updated\<rparr>)))))))))"

definition read_streams :: "migration_env \<Rightarrow> source_shape \<Rightarrow> pg_stream list \<Rightarrow> stream_row list migrated" where
  "read_streams M shape rows = map_res (read_stream M shape) (sort_key ps_id rows)"

subsection \<open>Schedules\<close>

definition read_schedule :: "migration_env \<Rightarrow> source_shape \<Rightarrow> pg_schedule \<Rightarrow> schedule_row migrated" where
  "read_schedule M shape r =
     (let i = pd_id r; field = field_of ''stream_schedule'' i in
      if \<not> opt_all (\<lambda>d. 1 \<le> d \<and> d \<le> 31) (pd_day_of_month r)
      then Inl (Anyhow (field ''day_of_month'' @ '' is outside 1..=31''))
      else
      rbnd (source_magnitude (pd_amount r) shape (field ''amount'')) (\<lambda>amount.
      rbnd (one_of (pd_frequency r) [''monthly'', ''semimonthly'', ''biweekly'', ''weekly'',
              ''annual'', ''one_time''] (field ''frequency'')) (\<lambda>frequency.
      rbnd (checked_date M (pd_start_date r) (field ''start_date'')) (\<lambda>start_date.
      rbnd (opt_res (\<lambda>d. checked_date M d (field ''end_date'')) (pd_end_date r)) (\<lambda>end_date.
      rbnd (boolean_integer (pd_is_active r) (field ''is_active'')) (\<lambda>active.
      rbnd (checked_json M (pd_metadata r) (field ''metadata'')) (\<lambda>metadata.
      rbnd (canonical_timestamp M (pd_created_at r) (field ''created_at'')) (\<lambda>_.
      rbnd (canonical_timestamp M (pd_updated_at r) (field ''updated_at'')) (\<lambda>updated.
      Inr \<lparr>sc_id = i, sc_stream_id = pd_stream_id r, sc_account_id = pd_account_id r,
           sc_label = pd_label r, sc_amount = amount, sc_frequency = frequency,
           sc_day_of_month = pd_day_of_month r, sc_start_date = start_date,
           sc_end_date = end_date, sc_is_active = (active = 1), sc_metadata = metadata,
           sc_updated_at = updated\<rparr>)))))))))"

definition read_stream_schedules ::
  "migration_env \<Rightarrow> source_shape \<Rightarrow> pg_schedule list \<Rightarrow> schedule_row list migrated" where
  "read_stream_schedules M shape rows = map_res (read_schedule M shape) (sort_key pd_id rows)"

subsection \<open>Events\<close>

definition read_event :: "migration_env \<Rightarrow> stream_row list \<Rightarrow> schedule_row list \<Rightarrow> source_shape \<Rightarrow>
    pg_event \<Rightarrow> event_row migrated" where
  "read_event M ss schs shape r =
     (let i = pv_id r; field = field_of ''stream_event'' i in
      rbnd (source_magnitude (pv_amount r) shape (field ''amount'')) (\<lambda>amount.
      rbnd (one_of (pv_status r) [''projected'', ''confirmed'', ''received''] (field ''status'')) (\<lambda>status.
      rbnd (opt_res (\<lambda>d. checked_date M d (field ''actual_date'')) (pv_actual_date r)) (\<lambda>actual_date.
      rbnd (checked_date M (pv_expected_date r) (field ''expected_date'')) (\<lambda>expected_date.
      rbnd (checked_json M (pv_metadata r) (field ''metadata'')) (\<lambda>metadata.
      rbnd (canonical_timestamp M (pv_created_at r) (field ''created_at'')) (\<lambda>_.
      rbnd (canonical_timestamp M (pv_updated_at r) (field ''updated_at'')) (\<lambda>updated.
      transform_event (mg_chrono M)
        \<lparr>le_id = i, le_stream_id = pv_stream_id r, le_account_id = pv_account_id r,
         le_label = pv_label r, le_expected_date = expected_date, le_actual_date = actual_date,
         le_amount = amount, le_status = status, le_source_id = pv_source_id r,
         le_source_type = pv_source_type r, le_metadata = metadata, le_notes = pv_notes r,
         le_updated_at = updated\<rparr> ss schs))))))))"

text \<open>\<open>validate_transformed_event_identities\<close>: the \<open>BTreeMap\<close> of the keys seen so far, and for each the
  last event that has it.\<close>

fun check_identities :: "((int \<times> string \<times> string) \<rightharpoonup> int \<times> bool) \<Rightarrow> event_row list \<Rightarrow> unit migrated" where
  "check_identities seen [] = Inr ()"
| "check_identities seen (e # es) =
     (case event_key e of None \<Rightarrow> check_identities seen es
      | Some k \<Rightarrow>
          (case seen k of
             None \<Rightarrow> check_identities (seen(k \<mapsto> (ev_id e, ev_status e = ''received''))) es
           | Some (previous_id, previous_received) \<Rightarrow>
               Inl (Blocked (event_tag previous_id @ '' and '' @ event_tag (ev_id e) @
                      '' have the same transformed source identity'')
                 (if previous_received \<or> ev_status e = ''received''
                  then ''legacy schedule events including immutable received history collapse to one target stable cadence slot; safe canonicalization requires reviewed historical schedule identity''
                  else ''two legacy schedule events collapse to one target stable cadence slot; safe canonicalization requires reviewed schedule identity''))))"

definition validate_transformed_event_identities :: "event_row list \<Rightarrow> unit migrated" where
  "validate_transformed_event_identities es = check_identities Map.empty es"

definition read_stream_events :: "migration_env \<Rightarrow> stream_row list \<Rightarrow> schedule_row list \<Rightarrow>
    source_shape \<Rightarrow> pg_event list \<Rightarrow> event_row list migrated" where
  "read_stream_events M ss schs shape rows =
     rbnd (map_res (read_event M ss schs shape) (sort_key pv_id rows)) (\<lambda>es.
     rbnd (validate_transformed_event_identities es) (\<lambda>_. Inr es))"


subsection \<open>The exported events\<close>

text \<open>Every date of a row is one that the new schema can store (its year has four digits).\<close>

definition plain_date :: "date_api \<Rightarrow> chrono_api \<Rightarrow> string \<Rightarrow> bool" where
  "plain_date D C s = opt_all (storable D) (ch_parse C s)"

definition plain_dates :: "date_api \<Rightarrow> chrono_api \<Rightarrow> pg_event \<Rightarrow> bool" where
  "plain_dates D C r \<longleftrightarrow> plain_date D C (pv_expected_date r) \<and> opt_all (plain_date D C) (pv_actual_date r) \<and>
     opt_all (\<lambda>src. case parse_legacy_source_id C src (pv_id r) of
         Inr (_, d) \<Rightarrow> storable D d | Inl _ \<Rightarrow> True) (pv_source_id r)"

lemma stored_glob:
  assumes "chrono_dates D C" and "storable D d"
  shows "date_glob (ch_format C d)"
  using date_glob_iff_storable_text [OF assms(2)] chrono_dates.text_of [OF assms] chrono_dates.axioms(1) [OF assms(1)]
  by simp

lemma map_res_all: "map_res f xs = Inr ys \<Longrightarrow> (\<And>x y. x \<in> set xs \<Longrightarrow> f x = Inr y \<Longrightarrow> P y) \<Longrightarrow> list_all P ys"
proof (induction xs arbitrary: ys)
  case (Cons x xs)
  then obtain y zs where "f x = Inr y" "map_res f xs = Inr zs" "ys = y # zs" by (auto simp: rbnd_eq_Inr)
  moreover from this have "P y" using Cons.prems(2) [of x y] by simp
  moreover have "list_all P zs" by (rule Cons.IH [OF \<open>map_res f xs = Inr zs\<close>]) (use Cons.prems(2) in auto)
  ultimately show ?case by simp
qed simp

lemma not_le_lt: "a \<noteq> NaN \<Longrightarrow> b \<noteq> NaN \<Longrightarrow> \<not> f64_le b a \<Longrightarrow> f64_lt a b"
  by (cases a; cases b) (auto simp: f64_le_def)

lemma f64_1e308_number: "f64_1e308 \<noteq> NaN"
  by (simp add: f64_1e308_def f64_round_def Let_def)

lemma source_magnitude_check:
  assumes "source_magnitude v shape field = Inr a"
  shows "amount_check a"
proof -
  have v: "is_finite v" "\<not> f64_le f64_1e308 (f64_abs v)"
    "a = f64_abs v \<or> (a = v \<and> \<not> f64_lt v f64_zero)"
    using assms by (auto simp: source_magnitude_def finite_magnitude_def finite_number_def rbnd_eq_Inr
        split: source_shape.splits if_splits)
  from v(1) obtain s m where m: "v = Fin s m" by (auto simp: is_finite_def split: f64.splits)
  have "f64_lt (f64_abs v) f64_1e308" using v(2) f64_1e308_number by (intro not_le_lt) (simp_all add: m)
  moreover have "f64_lt (Fin True 0) b" if "f64_lt (Fin False 0) b" for b
    using that by (cases b) (simp_all add: f64_units_def)
  moreover have "f64_le f64_zero (Fin False m)" "f64_le f64_zero (Fin True 0)"
    by (auto simp: f64_le_def f64_zero_def f64_units_def)
  moreover have "m = 0" if "s" "\<not> f64_lt v f64_zero"
    using that by (simp add: m f64_zero_def f64_units_def)
  ultimately show ?thesis using v(3) unfolding amount_check_def m by (cases s) auto
qed

lemma checked_date_Inr: "checked_date M s field = Inr t \<longleftrightarrow>
    (\<exists>d. ch_parse (mg_chrono M) s = Some d \<and> t = ch_format (mg_chrono M) d)"
  by (auto simp: checked_date_def rbnd_eq_Inr and_context_Inr)

lemma checked_json_Inr: "checked_json M v field = Inr w \<longleftrightarrow> w = v \<and> opt_all (mg_json M) v"
  by (auto simp: checked_json_def split: option.splits)

lemma read_opt_Inr: "opt_res f v = Inr w \<longleftrightarrow> (case v of None \<Rightarrow> w = None
    | Some a \<Rightarrow> \<exists>b. f a = Inr b \<and> w = Some b)"
  by (auto simp: opt_res_def rbnd_eq_Inr split: option.splits)

lemmas read_Inr = rbnd_eq_Inr checked_date_Inr checked_json_Inr read_opt_Inr

lemma read_schedule_kept:
  assumes "read_schedule M shape r = Inr s"
  shows "amount_check (sc_amount s)" and "sc_account_id s = pd_account_id r"
  using assms
  by (auto simp: read_schedule_def Let_def rbnd_eq_Inr split: if_splits dest: source_magnitude_check)

lemma read_schedules_kept:
  assumes "read_stream_schedules M shape zs = Inr schs"
    and "\<forall>z \<in> set zs. opt_all (\<lambda>a. a \<in> A) (pd_account_id z)" and "s \<in> set schs"
  shows "amount_check (sc_amount s)" and "opt_all (\<lambda>a. a \<in> A) (sc_account_id s)"
proof -
  have "list_all (\<lambda>s. amount_check (sc_amount s) \<and> opt_all (\<lambda>a. a \<in> A) (sc_account_id s)) schs"
    using assms(1,2) unfolding read_stream_schedules_def
    by (elim map_res_all) (simp add: read_schedule_kept)
  with assms(3) show "amount_check (sc_amount s)" and "opt_all (\<lambda>a. a \<in> A) (sc_account_id s)"
    by (simp_all add: list_all_iff)
qed

text \<open>The checked columns of an event, before the transformation.\<close>

definition legacy_ok :: "ext \<Rightarrow> int set \<Rightarrow> int set \<Rightarrow> legacy_event \<Rightarrow> bool" where
  "legacy_ok X A S e \<longleftrightarrow> le_stream_id e \<in> S \<and> opt_all (\<lambda>a. a \<in> A) (le_account_id e) \<and>
     date_glob (le_expected_date e) \<and> opt_all date_glob (le_actual_date e) \<and> amount_check (le_amount e) \<and>
     le_status e \<in> {''projected'', ''confirmed'', ''received''} \<and> opt_all (sqlite_json X) (le_metadata e)"

lemma read_event_legacy:
  assumes "read_event M ss schs shape r = Inr e"
    and "chrono_dates (dates X) (mg_chrono M)"
    and "\<forall>s. mg_json M s \<longrightarrow> sqlite_json X s"
    and "plain_dates (dates X) (mg_chrono M) r" and "pv_stream_id r \<in> S" and "opt_all (\<lambda>a. a \<in> A) (pv_account_id r)"
  obtains l where "transform_event (mg_chrono M) l ss schs = Inr e" and "legacy_ok X A S l"
    and "le_source_id l = pv_source_id r" and "le_id l = pv_id r"
proof -
  have glob: "date_glob t" if "checked_date M s field = Inr t" "plain_date (dates X) (mg_chrono M) s" for s t field
    using that stored_glob [OF assms(2)] by (auto simp: checked_date_Inr plain_date_def)
  have opt_glob: "opt_all date_glob t" if "opt_res (\<lambda>d. checked_date M d field) v = Inr t"
      "opt_all (plain_date (dates X) (mg_chrono M)) v" for v t field
    using that glob by (auto simp: read_opt_Inr opt_all_def split: option.splits)
  have json: "opt_all (mg_json M) v \<Longrightarrow> opt_all (sqlite_json X) v" for v
    using assms(3) by (cases v) simp_all
  have plain: "plain_date (dates X) (mg_chrono M) (pv_expected_date r)" "opt_all (plain_date (dates X) (mg_chrono M)) (pv_actual_date r)"
    using assms(4) by (simp_all add: plain_dates_def)
  from assms(1) obtain amount status actual expected metadata created updated where
    "source_magnitude (pv_amount r) shape (field_of ''stream_event'' (pv_id r) ''amount'') = Inr amount"
    "one_of (pv_status r) [''projected'', ''confirmed'', ''received'']
       (field_of ''stream_event'' (pv_id r) ''status'') = Inr status"
    "opt_res (\<lambda>d. checked_date M d (field_of ''stream_event'' (pv_id r) ''actual_date'')) (pv_actual_date r) = Inr actual"
    "checked_date M (pv_expected_date r) (field_of ''stream_event'' (pv_id r) ''expected_date'') = Inr expected"
    "checked_json M (pv_metadata r) (field_of ''stream_event'' (pv_id r) ''metadata'') = Inr metadata"
    and t: "transform_event (mg_chrono M)
        \<lparr>le_id = pv_id r, le_stream_id = pv_stream_id r, le_account_id = pv_account_id r,
         le_label = pv_label r, le_expected_date = expected, le_actual_date = actual,
         le_amount = amount, le_status = status, le_source_id = pv_source_id r,
         le_source_type = pv_source_type r, le_metadata = metadata, le_notes = pv_notes r,
         le_updated_at = updated\<rparr> ss schs = Inr e"
    unfolding read_event_def Let_def rbnd_eq_Inr by blast
  then have "amount_check amount" "opt_all date_glob actual" "date_glob expected"
      "opt_all (sqlite_json X) metadata" "status \<in> {''projected'', ''confirmed'', ''received''}"
    using source_magnitude_check opt_glob [OF _ plain(2)] glob [OF _ plain(1)] json
    by (auto simp: checked_json_Inr one_of_def split: if_splits)
  with t assms(5,6) show ?thesis by (intro that [OF t]) (simp_all add: legacy_ok_def)
qed

lemma transformed_check:
  assumes "transform_event C l ss schs = Inr e" and "legacy_ok X A S l"
    and sch: "\<And>s. s \<in> set schs \<Longrightarrow> amount_check (sc_amount s) \<and> opt_all (\<lambda>a. a \<in> A) (sc_account_id s)"
    and occ: "\<And>src i c. le_source_id l = Some src \<Longrightarrow> parse_legacy_source_id C src (le_id l) = Inr (i, c) \<Longrightarrow>
      date_glob (ch_format C c)"
  shows "event_check X A S e"
  using assms(1)
proof (cases rule: transform_cases)
  case 1
  then show ?thesis using assms(2)
    by (auto simp: event_check_def legacy_ok_def copied_event_def opt_all_def split: option.splits)
next
  case (2 s sch c slot src i)
  then have "sch \<in> set schs" by (auto simp: find_Some_iff)
  then show ?thesis using 2 assms(2) sch [of sch] occ [of src i c]
    by (auto simp: event_check_def legacy_ok_def split_event_def Let_def opt_all_def split: option.splits)
qed

lemma check_identities_distinct:
  assumes "check_identities seen es = Inr ()"
  shows "distinct (List.map_filter event_key es) \<and> set (List.map_filter event_key es) \<inter> dom seen = {}"
  using assms
proof (induction seen es rule: check_identities.induct)
  case (2 seen e es)
  show ?case
  proof (cases "event_key e")
    case None
    with 2 show ?thesis by (simp add: map_filter_simps)
  next
    case (Some k)
    with "2.prems" have k: "seen k = None"
        "check_identities (seen(k \<mapsto> (ev_id e, ev_status e = ''received''))) es = Inr ()"
      by (auto split: option.splits prod.splits)
    from "2.IH"(2) [OF Some k] Some k(1) show ?thesis by (auto simp: map_filter_simps)
  qed
qed (simp add: map_filter_simps)

text \<open>Every event that the migration exports meets all the constraints of the table that receives
  it (its date shapes, amounts below 1e308 and not negative, the statuses, the override and reception
  rules, the foreign keys), and no two of them share the slot key, so that loading them cannot fail
  and the server starts from a valid event table. Hypotheses: the old database's own foreign keys
  hold, its dates are storable (four-digit years), and SQLite accepts the JSON that \<open>serde_json\<close> accepts.\<close>

theorem migrated_events_valid:
  assumes "chrono_dates (dates X) (mg_chrono M)"
    and "\<forall>s. mg_json M s \<longrightarrow> sqlite_json X s"
    and "\<forall>r \<in> set rows. plain_dates (dates X) (mg_chrono M) r \<and> pv_stream_id r \<in> S \<and>
      opt_all (\<lambda>a. a \<in> A) (pv_account_id r)"
    and "\<forall>z \<in> set zs. opt_all (\<lambda>a. a \<in> A) (pd_account_id z)"
    and "read_stream_schedules M shape zs = Inr schs"
    and "read_stream_events M ss schs shape rows = Inr es"
  shows "list_all (event_check X A S) es \<and> events_unique es"
proof
  have es: "map_res (read_event M ss schs shape) (sort_key pv_id rows) = Inr es"
      "check_identities Map.empty es = Inr ()"
    using assms(6) by (auto simp: read_stream_events_def rbnd_eq_Inr validate_transformed_event_identities_def)
  show "events_unique es" using check_identities_distinct [OF es(2)] by (simp add: events_unique_def)
  show "list_all (event_check X A S) es"
  proof (rule map_res_all [OF es(1)])
    fix r e
    assume r: "r \<in> set (sort_key pv_id rows)" and e: "read_event M ss schs shape r = Inr e"
    then have ok: "plain_dates (dates X) (mg_chrono M) r" "pv_stream_id r \<in> S" "opt_all (\<lambda>a. a \<in> A) (pv_account_id r)"
      using assms(3) by simp_all
    obtain l where l: "transform_event (mg_chrono M) l ss schs = Inr e" "legacy_ok X A S l"
        "le_source_id l = pv_source_id r" "le_id l = pv_id r"
      by (rule read_event_legacy [OF e assms(1,2) ok])
    show "event_check X A S e"
    proof (rule transformed_check [OF l(1,2)])
      fix s
      assume "s \<in> set schs"
      then show "amount_check (sc_amount s) \<and> opt_all (\<lambda>a. a \<in> A) (sc_account_id s)"
        using read_schedules_kept [OF assms(5,4)] by blast
    next
      fix src i c
      assume "le_source_id l = Some src" "parse_legacy_source_id (mg_chrono M) src (le_id l) = Inr (i, c)"
      then show "date_glob (ch_format (mg_chrono M) c)"
        using ok(1) stored_glob [OF assms(1)] l(3,4) by (auto simp: plain_dates_def)
    qed
  qed
qed


subsection \<open>Witnesses\<close>

definition sample_migration :: migration_env where
  "sample_migration = \<lparr>mg_chrono = chrono_greg, mg_json = (\<lambda>s. s \<noteq> []), mg_canonical = Some\<rparr>"

definition old_schedule :: pg_schedule where
  "old_schedule = \<lparr>pd_id = 1, pd_stream_id = 1, pd_account_id = None, pd_label = None,
     pd_amount = f64_small 50, pd_frequency = ''monthly'', pd_day_of_month = Some 31,
     pd_start_date = ''2026-01-01'', pd_end_date = None, pd_is_active = 1, pd_metadata = None,
     pd_created_at = ''2026-01-01T00:00:00.000Z'', pd_updated_at = ''2026-01-01T00:00:00.000Z''\<rparr>"

definition old_event :: pg_event where
  "old_event = \<lparr>pv_id = 7, pv_stream_id = 1, pv_account_id = Some 1, pv_label = Some ''Rent due'',
     pv_expected_date = ''2026-02-28'', pv_actual_date = None, pv_amount = f64_small 60,
     pv_status = ''projected'', pv_source_id = Some ''stream_schedule:1:2026-02-28'',
     pv_source_type = Some ''stream_schedule'', pv_metadata = None, pv_notes = Some ''later'',
     pv_created_at = ''2026-01-01T00:00:00.000Z'', pv_updated_at = ''2026-01-01T00:00:00.000Z''\<rparr>"

lemma february_text: "iso_from_str gregorian ''2026-02-28'' = Inr 739675"
  by code_simp

lemma small_magnitude: "a < 1000000 \<Longrightarrow> source_magnitude (f64_small a) Upgraded field = Inr (f64_small a)"
proof -
  have "\<not> f64_le y x" if "f64_lt x y" for x y
    using that by (cases x; cases y) (auto simp: f64_le_def)
  moreover assume "a < 1000000"
  moreover have "is_finite (f64_small a)" "\<not> f64_lt (f64_small a) f64_zero"
    by (simp_all add: f64_small_def is_finite_def f64_zero_def f64_units_def)
  ultimately show ?thesis using f64_small_checks(2) [of a]
    by (simp add: source_magnitude_def finite_magnitude_def finite_number_def)
qed

lemma old_schedules: "read_stream_schedules sample_migration Upgraded [old_schedule] = Inr [rent_schedule]"
  by (simp add: read_stream_schedules_def read_schedule_def old_schedule_def rent_schedule_def
      sample_migration_def Let_def small_magnitude one_of_def checked_date_def and_context_def
      chrono_greg_def sample_texts opt_res_def boolean_integer_def checked_json_def
      canonical_timestamp_def)

lemma old_key: "parse_legacy_source_id chrono_greg ''stream_schedule:1:2026-02-28'' i = Inr (1, 739675)"
  using chrono.parse_legacy_key [of 1 739675 i] moved_rent_dates by (simp add: sample_texts)

lemma old_events:
  "\<exists>e. read_stream_events sample_migration [rent_stream] [rent_schedule] Upgraded [old_event] = Inr [e]"
proof -
  define l where "l = moved_rent\<lparr>le_expected_date := ''2026-02-28''\<rparr>"
  have "\<exists>e. transform_event chrono_greg l [rent_stream] [rent_schedule] = Inr e"
    using chrono.transform_generated [of l rent_schedule 739675 "[rent_schedule]" 739617 Monthly
      "[rent_stream]" rent_stream 31] moved_rent_dates
    by (simp add: l_def moved_rent_def rent_schedule_def rent_stream_def sample_texts frequency_str_def)
  then obtain e where e: "transform_event chrono_greg l [rent_stream] [rent_schedule] = Inr e" by blast
  have "read_event sample_migration [rent_stream] [rent_schedule] Upgraded old_event =
      transform_event chrono_greg l [rent_stream] [rent_schedule]"
    by (simp add: read_event_def old_event_def sample_migration_def Let_def small_magnitude one_of_def
        checked_date_def and_context_def opt_res_def checked_json_def canonical_timestamp_def
        l_def moved_rent_def del: One_nat_def)
      (simp add: chrono_greg_def february_text sample_texts)
  with e show ?thesis
    by (intro exI [of _ e]) (simp add: read_stream_events_def validate_transformed_event_identities_def
        rbnd_eq_Inr split: option.splits)
qed

lemma migrated_events_valid_witness:
  "\<exists>es. read_stream_events sample_migration [rent_stream] [rent_schedule] Upgraded [old_event] = Inr es \<and>
     length es = 1 \<and> list_all (event_check sample_ext {1} {1}) es \<and> events_unique es"
proof -
  obtain e where e: "read_stream_events sample_migration [rent_stream] [rent_schedule] Upgraded [old_event] = Inr [e]"
    using old_events by blast
  have "plain_dates gregorian chrono_greg old_event"
    using moved_rent_dates(2)
    by (simp add: plain_dates_def plain_date_def old_event_def old_key)
      (simp add: chrono_greg_def february_text)
  then have "list_all (event_check sample_ext {1} {1}) [e] \<and> events_unique [e]"
    by (intro migrated_events_valid [OF _ _ _ _ old_schedules e])
      (use chrono.chrono_dates_axioms in \<open>simp_all add: sample_migration_def sample_ext_def old_event_def old_schedule_def\<close>)
  with e show ?thesis by (intro exI [of _ "[e]"]) simp
qed

end
