(* ===== verification/Object_Keys.thy ===== *)
theory Object_Keys
  imports Media_Key
begin

text \<open>
  \<open>tools/object-cutover/src/key.rs\<close>: the keys of the objects that the cutover tool copies, and the
  object that a photo's URL denotes. The file is a second copy of the server's \<open>src/media/key.rs\<close>
  (\<open>Media_Key\<close>) with errors of its own and looser keys: \<open>validate_key\<close> has no length limit and admits
  question marks and hashes. The pieces that the two files share word by word (\<open>raw_http_path\<close>, the AWS
  host tests, \<open>decode_hex\<close>) are the definitions of \<open>Media_Key\<close>; the url crate is again \<open>parse_url\<close>.
  The theorem says exactly when the two agree.
\<close>

datatype key_error = EmptyKey | AbsoluteKey | Traversal | AmbiguousEncoding | InvalidCharacter
  | InvalidPhotoLocation

definition validate_key :: "string \<Rightarrow> bool \<Rightarrow> key_error + string" where
  "validate_key raw reject_percent =
     (if raw = [] then Inl EmptyKey
      else if raw \<noteq> trim raw \<or> prefix ''/'' raw \<or> suffix ''/'' raw then Inl AbsoluteKey
      else if reject_percent \<and> CHR ''%'' \<in> set raw then Inl AmbiguousEncoding
      else if CHR 0x5C \<in> set raw \<or> contains_text raw ''//'' \<or> CHR 0x00 \<in> set raw then Inl InvalidCharacter
      else if has_control raw then Inl InvalidCharacter
      else if list_ex (\<lambda>segment. segment = [] \<or> segment = ''.'' \<or> segment = ''..'')
                (split_on (CHR ''/'') raw) then Inl Traversal
      else Inr raw)"

definition destination_key :: "string \<Rightarrow> key_error + string" where
  "destination_key raw = validate_key raw True"

definition legacy_physical_key :: "string \<Rightarrow> key_error + string" where
  "legacy_physical_key raw = validate_key raw False"

fun unescape :: "string \<Rightarrow> key_error + string" where
  "unescape [] = Inr []"
| "unescape (b # bs) =
     (if b \<noteq> CHR ''%'' then rbnd (unescape bs) (\<lambda>s. Inr (b # s))
      else (case bs of h # l # rest \<Rightarrow>
              (case (decode_hex h, decode_hex l) of
                 (Some high, Some low) \<Rightarrow>
                   (if forbidden_escape (high * 16 + low) then Inl AmbiguousEncoding
                    else rbnd (unescape rest) (\<lambda>s. Inr (byte (high * 16 + low) # s)))
               | _ \<Rightarrow> Inl AmbiguousEncoding)
            | _ \<Rightarrow> Inl AmbiguousEncoding))"

definition unescape_key :: "string \<Rightarrow> key_error + string" where
  "unescape_key raw = rbnd (unescape raw) (\<lambda>s. if utf8_ok s then Inr s else Inl AmbiguousEncoding)"

definition cutover_photo_key :: "string \<Rightarrow> key_error + string" where
  "cutover_photo_key raw_suffix =
     (if CHR ''?'' \<in> set raw_suffix \<or> CHR ''#'' \<in> set raw_suffix then Inl AmbiguousEncoding
      else rbnd (unescape_key raw_suffix) (\<lambda>s. destination_key (''loan-workspace/'' @ s)))"

definition cutover_s3_key :: "string \<Rightarrow> string \<Rightarrow> key_error + string option" where
  "cutover_s3_key host0 raw_path0 =
     (let host = ascii_lower host0; raw_path = takeWhile (\<lambda>c. c \<noteq> CHR ''?'' \<and> c \<noteq> CHR ''#'') raw_path0
      in case strip_prefix ''/'' raw_path of None \<Rightarrow> Inl InvalidPhotoLocation
         | Some path \<Rightarrow>
             rbnd (if is_aws_virtual_host host
                   then (if path = [] then Inl InvalidPhotoLocation else Inr (Some path))
                   else if is_aws_path_host host \<or> suffix ''.r2.cloudflarestorage.com'' host then
                     (case split_once (CHR ''/'') path of
                        Some (_, key) \<Rightarrow> Inr (Some key) | None \<Rightarrow> Inl InvalidPhotoLocation)
                   else Inr None) (\<lambda>raw_key.
               case raw_key of None \<Rightarrow> Inr None
               | Some k \<Rightarrow> rbnd (unescape_key k) (\<lambda>d. rbnd (destination_key d) (\<lambda>key. Inr (Some key)))))"

definition located :: "key_error + string \<Rightarrow> key_error + photo_location" where
  "located r = rbnd r (\<lambda>key. Inr (StoredPhoto key))"

definition cutover_http :: "string \<Rightarrow> url_view \<Rightarrow> key_error + photo_location" where
  "cutover_http image_url parsed =
     (if uv_username parsed \<noteq> [] \<or> uv_has_password parsed then Inl InvalidPhotoLocation
      else case raw_http_path image_url of None \<Rightarrow> Inl InvalidPhotoLocation
        | Some raw_path \<Rightarrow>
            (case strip_prefix media_prefix raw_path of
               Some s \<Rightarrow> if uv_has_query parsed \<or> uv_has_fragment parsed then Inl AmbiguousEncoding
                         else located (cutover_photo_key s)
             | None \<Rightarrow>
            (case strip_prefix static_prefix raw_path of
               Some s \<Rightarrow> if uv_has_query parsed \<or> uv_has_fragment parsed then Inl AmbiguousEncoding
                         else located (cutover_photo_key s)
             | None \<Rightarrow> rbnd (cutover_s3_key (case uv_host parsed of None \<Rightarrow> [] | Some h \<Rightarrow> h) raw_path) (\<lambda>key.
                 case key of Some k \<Rightarrow> Inr (StoredPhoto k) | None \<Rightarrow> Inr ExternalOnly))))"

definition cutover_s3_url :: "string \<Rightarrow> url_view \<Rightarrow> key_error + photo_location" where
  "cutover_s3_url image_url parsed =
     (if uv_host parsed = None \<or> uv_has_query parsed \<or> uv_has_fragment parsed then Inl InvalidPhotoLocation
      else case split_once_text ''://'' image_url of None \<Rightarrow> Inl InvalidPhotoLocation
        | Some (_, remainder) \<Rightarrow>
            (case split_once (CHR ''/'') remainder of None \<Rightarrow> Inl InvalidPhotoLocation
             | Some (_, raw_path) \<Rightarrow> rbnd (unescape_key raw_path) (\<lambda>d. located (destination_key d))))"

definition cutover_classify :: "(string \<Rightarrow> url_view option) \<Rightarrow> string \<Rightarrow> key_error + photo_location" where
  "cutover_classify parse_url image_url =
     (if image_url \<noteq> trim image_url \<or> image_url = [] then Inl InvalidPhotoLocation
      else case strip_prefix media_prefix image_url of Some s \<Rightarrow> located (cutover_photo_key s)
      | None \<Rightarrow>
     (case strip_prefix static_prefix image_url of Some s \<Rightarrow> located (cutover_photo_key s)
      | None \<Rightarrow>
     (case parse_url image_url of None \<Rightarrow> Inl InvalidPhotoLocation
      | Some parsed \<Rightarrow>
          if uv_scheme parsed = ''http'' \<or> uv_scheme parsed = ''https'' then cutover_http image_url parsed
          else if uv_scheme parsed = ''s3'' then cutover_s3_url image_url parsed
          else Inl InvalidPhotoLocation)))"

subsection \<open>Agreement with the server\<close>

definition accepted :: "'e + 'a \<Rightarrow> 'a option" where
  "accepted r = (case r of Inr a \<Rightarrow> Some a | Inl _ \<Rightarrow> None)"

lemma accepted_simps [simp]: "accepted (Inr a) = Some a" "accepted (Inl e) = None"
  by (simp_all add: accepted_def)

lemma accepted_rbnd: "accepted (rbnd r f) = Option.bind (accepted r) (\<lambda>a. accepted (f a))"
  by (cases r) (simp_all add: rbnd_def)

text \<open>The keys that the server can address, among those the tool accepts.\<close>

definition servable :: "string \<Rightarrow> bool" where
  "servable k \<longleftrightarrow> length k \<le> max_key_bytes \<and> CHR ''?'' \<notin> set k \<and> CHR ''#'' \<notin> set k"

definition keep_servable :: "string option \<Rightarrow> string option" where
  "keep_servable r = (case r of Some k \<Rightarrow> if servable k then Some k else None | None \<Rightarrow> None)"

lemma nul_control: "CHR 0x00 \<in> set s \<Longrightarrow> has_control s"
  by (induction s) (auto simp: code_def)

lemma canonical_agrees: "accepted (canonical_key s) = keep_servable (accepted (destination_key s))"
  using nul_control [of s]
  by (auto simp: canonical_key_def destination_key_def validate_key_def keep_servable_def servable_def max_key_bytes_def)

lemma decode_agrees: "accepted (decode_bytes s) = accepted (unescape s)"
  by (induction s rule: decode_bytes.induct) (auto simp: accepted_rbnd split: list.splits option.splits)

lemma decode_url_agrees: "accepted (decode_url_key s) = accepted (unescape_key s)"
  by (simp add: decode_url_key_def unescape_key_def accepted_rbnd decode_agrees cong: bind_option_cong)
    (auto split: Option.bind_splits)


definition served_location :: "photo_location option \<Rightarrow> photo_location option" where
  "served_location r = (case r of Some (StoredPhoto k) \<Rightarrow> if servable k then Some (StoredPhoto k) else None
     | other \<Rightarrow> other)"

lemma stored_agrees:
  "accepted r = keep_servable (accepted r') \<Longrightarrow> accepted (stored_photo r) = served_location (accepted (located r'))"
  by (auto simp: stored_photo_def located_def accepted_rbnd keep_servable_def served_location_def
      split: Option.bind_splits option.splits if_splits)

lemma photo_key_agrees: "accepted (legacy_photo_key s) = keep_servable (accepted (cutover_photo_key s))"
  by (auto simp: legacy_photo_key_def cutover_photo_key_def accepted_rbnd decode_url_agrees canonical_agrees
      canonical_photo_prefix_def keep_servable_def split: Option.bind_splits)

lemma destination_empty: "accepted (destination_key []) = None"
  by (simp add: destination_key_def validate_key_def)

lemma unescape_empty: "unescape_key [] = Inr []"
  by (simp add: unescape_key_def utf8_ok_def)

lemma s3_key_agrees:
  "Option.bind (accepted (known_s3_http_key h p)) (\<lambda>key. Some (case key of Some k \<Rightarrow> StoredPhoto k | None \<Rightarrow> ExternalOnly)) =
   served_location (Option.bind (accepted (cutover_s3_key h p))
     (\<lambda>key. Some (case key of Some k \<Rightarrow> StoredPhoto k | None \<Rightarrow> ExternalOnly)))"
  using destination_empty unescape_empty
  by (auto simp: known_s3_http_key_def cutover_s3_key_def Let_def accepted_rbnd decode_url_agrees
      canonical_agrees keep_servable_def served_location_def bind_eq_None_conv
      split: option.splits Option.bind_splits if_splits)


lemma accepted_optional:
  "accepted (rbnd r (\<lambda>key. case key of Some k \<Rightarrow> Inr (StoredPhoto k) | None \<Rightarrow> Inr ExternalOnly)) =
    Option.bind (accepted r) (\<lambda>key. Some (case key of Some k \<Rightarrow> StoredPhoto k | None \<Rightarrow> ExternalOnly))"
  by (cases r) (simp_all add: rbnd_def split: option.splits)

lemma http_agrees: "accepted (classify_http u v) = served_location (accepted (cutover_http u v))"
proof -
  have none: "served_location None = None" by (simp add: served_location_def)
  show ?thesis
    by (simp add: classify_http_def cutover_http_def none stored_agrees [OF photo_key_agrees]
        accepted_optional s3_key_agrees
        split: option.splits)
qed

lemma s3_url_agrees: "accepted (classify_s3 u v) = served_location (accepted (cutover_s3_url u v))"
proof -
  have "accepted (rbnd (decode_url_key p) (\<lambda>d. stored_photo (canonical_key d))) =
      served_location (accepted (rbnd (unescape_key p) (\<lambda>d. located (destination_key d))))" for p
    using stored_agrees [OF canonical_agrees]
    by (auto simp: accepted_rbnd decode_url_agrees served_location_def split: Option.bind_splits)
  moreover have "served_location None = None" by (simp add: served_location_def)
  ultimately show ?thesis
    by (simp add: classify_s3_def cutover_s3_url_def split: option.splits prod.splits)
qed

text \<open>The cutover tool and the server agree about every photo location: the server finds the same
  stored object behind it, or the same external image, or nothing, as the tool does, except that the
  server also refuses an object whose key is longer than 1024 bytes or holds a question mark or a hash
  (the tool's copy of the key check has lost these three tests, so a manifest can be valid although
  the server will not serve one of its photos).\<close>

theorem cutover_classifies_as_server:
  "accepted (classify_photo parse_url image_url) =
    served_location (accepted (cutover_classify parse_url image_url))"
proof -
  have none: "served_location None = None" by (simp add: served_location_def)
  show ?thesis
    by (simp add: classify_photo_def cutover_classify_def none stored_agrees [OF photo_key_agrees]
        http_agrees s3_url_agrees split: option.splits)
qed

text \<open>A photo that the tool copies and the server does not serve.\<close>

lemma hash_key:
  "trim ''/media/loan-workspace/a%23b'' = ''/media/loan-workspace/a%23b''"
  "strip_prefix media_prefix ''/media/loan-workspace/a%23b'' = Some ''a%23b''"
  "cutover_photo_key ''a%23b'' = Inr ''loan-workspace/a#b''" "legacy_photo_key ''a%23b'' = Inl InvalidKey"
  by code_simp+

lemma hash_photo:
  "cutover_classify parse_url ''/media/loan-workspace/a%23b'' = Inr (StoredPhoto ''loan-workspace/a#b'')"
  "classify_photo parse_url ''/media/loan-workspace/a%23b'' = Inl InvalidKey"
  unfolding cutover_classify_def classify_photo_def hash_key
  by (simp_all add: hash_key located_def stored_photo_def rbnd_def)

end
