(* ===== verification/Spec2Isabelle.thy ===== *)
theory Spec2Isabelle
  imports Forecast_Balance Views Operation_Runs Sync_Http Resend_Attempt Session_Revocation Finance_Patch Site_Samples
    Migration_Rows Object_Keys
begin

text \<open>
  A verification library for the Rust application \<open>fin-stream\<close>: a personal-finance server over SQLite (libSQL). It keeps
  accounts, income and expense streams, schedules and projected events and computes a cash forecast from them; it imports loans
  and payments from The Mortgage Office (TMO) and a balance from Monarch, on request and by a cron; it receives mail through
  Resend webhooks and keeps workspaces with photos for the imported loans. All paths below are under \<open>src/\<close> of the repository.

  \<^bold>\<open>How the code is modelled.\<close> An operation of a repository is a function on the state of its tables, \<open>('s, 'e, 'a) op\<close> of
  \<open>Prelude\<close>: it returns an error or a value, together with the state afterwards. A table is the list of its rows; the constraints of
  the migrations are one predicate per database (\<open>db_valid\<close>, \<open>op_valid\<close>, \<open>app_valid\<close>, \<open>mail_valid\<close>, \<open>loan_valid\<close>). A single statement
  that would break a constraint changes nothing and is a storage error (\<open>sql_write\<close>); a transaction that fails
  restores the state (\<open>transaction\<close>). \<open>keeps I m\<close> says that \<open>m\<close> preserves an invariant whatever the outcome, and
  \<open>evolves R m\<close> that it stays within a relation; the locale \<open>evolution\<close> composes a reflexive and transitive relation along
  the code and is interpreted for every relation that matters (finished runs, received events, stored mail, photos). What is
  not code of the repository is an argument, a record of functions: \<open>ext\<close> and \<open>date_api\<close> (the time crate, serde's JSON,
  SQLite's \<open>json_valid\<close> and clock), \<open>tmo_ext\<close>, \<open>sync_env\<close>, \<open>monarch_env\<close>, \<open>cron_env\<close> (providers, clock readings, and what other
  processes do between two transactions), \<open>mail_ext\<close>, \<open>mail_world\<close>, \<open>http_env\<close>, \<open>session_api\<close>, \<open>site_env\<close>, \<open>media_crates\<close>,
  \<open>http_client\<close>, \<open>chrono_api\<close>, \<open>migration_env\<close>.

  \<^bold>\<open>Foundations.\<close>
  \<^item> \<open>Prelude\<close>: operations, statements, transactions, the locale \<open>evolution\<close>. \<open>Rust_Text\<close>: the parts of \<open>str\<close> and
    \<open>format!\<close> that the program uses. \<open>Float64\<close>, \<open>Float_Parse\<close>: IEEE binary64 and \<open>str::parse::<f64>\<close>.
  \<^item> \<open>Calendar\<close>: the time crate as the locale \<open>time_date\<close>, with the Gregorian calendar as its interpretation.
    \<open>Utc_Clock\<close>: instants and their stored text. \<open>Samples\<close>: concrete rows for the witnesses.

  \<^bold>\<open>Finance\<close> (\<open>src/finance\<close>).
  \<^item> \<open>Iso_Date\<close>: \<open>date.rs\<close>; \<open>Date_Contract\<close>: text and order of dates, occurrences and slots of schedules against an
    independent reading of their frequencies.
  \<^item> \<open>Finance_Model\<close>: \<open>models.rs\<close>, \<open>error.rs\<close>, the tables of \<open>migrations/0002_streams_forecast.sql\<close>, the validation helpers.
  \<^item> \<open>Schedule_Calc\<close>, \<open>Projection_Slots\<close>, \<open>Accounts\<close>, \<open>Statements\<close>, \<open>Streams\<close>, \<open>Events\<close>, \<open>Views\<close>, \<open>Forecast\<close>: the operations of
    \<open>FinanceRepository\<close> in \<open>repository.rs\<close>, with the functional behaviour of each.
  \<^item> \<open>Refresh\<close>, \<open>Refresh_Total\<close>: the projection refresh against its plan, what survives it, and that it cannot fail.
    \<open>Forecast_Balance\<close>: the balances of a forecast add up.
  \<^item> \<open>Finance_Http\<close>: the JSON handlers of \<open>http.rs\<close>; \<open>Finance_Patch\<close>: what a partial update leaves alone.

  \<^bold>\<open>Coordination of the synchronisations\<close> (\<open>src/operations\<close>, \<open>src/scheduler.rs\<close>, \<open>src/sync_runtime\<close>,
  \<open>src/integrations\<close>, \<open>src/providers\<close>).
  \<^item> \<open>Operations\<close>: \<open>OperationRepository\<close> over \<open>sync_log\<close> and \<open>operation_control\<close>; \<open>Operation_Runs\<close>: the interleaving of its
    operations as the step relation \<open>op_step\<close>, and the exact behaviour of claims, completions and reaping.
    \<open>Connections\<close>, \<open>Scheduler\<close>: the connection table, cadences and slots.
  \<^item> \<open>Providers\<close>: data of TMO and the paging of its portfolio. \<open>App_State\<close>: the whole database, with the locale \<open>component\<close>
    by which an operation on a part works on the whole (interpreted for finance and operations).
  \<^item> \<open>Tmo_Import\<close>: \<open>tmo_write.rs\<close>; \<open>Tmo_Mirror\<close>, \<open>Tmo_Capture\<close>, \<open>Tmo_Contract\<close>: after a successful import the ledger mirrors
    the capture, and nothing else has changed.
  \<^item> \<open>Sync_Runtime\<close>: one TMO synchronisation, with panics, deadlines and other processes as an environment;
    \<open>Sync_Outcome\<close>: it ends, and it is all or nothing. \<open>Monarch_Sync\<close>, \<open>Monarch_Outcome\<close>: the same for the balance refresh, and
    that the two may interleave. \<open>Cron_Loop\<close>, \<open>Cron_Outcome\<close>: any sequence of cron deliveries. \<open>Sync_Http\<close>: the requests.

  \<^bold>\<open>Inbound mail\<close> (\<open>src/resend\<close>, \<open>src/workspace_inbox\<close>). \<open>Mail_Store\<close>: the tables; \<open>Resend_Repository\<close>, \<open>Inbox_Repository\<close>: the two
  repositories on them; \<open>Resend_Workflow\<close>: webhook, retry and processing, which may be dropped before any transaction.
  \<open>Resend_Leases\<close>: stored mail is final and a lease exclusive, under any interleaving; \<open>Resend_Attempt\<close>: an attempt frees its lease.

  \<^bold>\<open>The perimeter\<close> (\<open>src/middleware.rs\<close>, \<open>write_gate.rs\<close>, \<open>cron_auth.rs\<close>, \<open>session_store.rs\<close>, \<open>db.rs\<close>, \<open>app.rs\<close>).
  \<^item> \<open>Http_Types\<close>, \<open>Perimeter\<close>: the layers that every request passes; \<open>Perimeter_Guard\<close>: they admit exactly what the policy says.
  \<^item> \<open>Session_Store\<close>: sessions and users with their caches. An operation on them is a program of parts (\<open>prog\<close>), because other
    requests run between its parts. \<open>Session_Revocation\<close>: any interleaving of such parts; the locale \<open>revocable\<close> bounds how
    long a cache shows what is gone, and is interpreted for sessions and for users.

  \<^bold>\<open>Media, workspaces and the site\<close> (\<open>src/media\<close>, \<open>src/workspace_inbox\<close>).
  \<^item> \<open>Media_Key\<close>: \<open>key.rs\<close>; \<open>Media_Service\<close>, \<open>Media_S3\<close>: \<open>service.rs\<close>, upload intents and the S3 backend; \<open>Media_Intent\<close>: what
    is accepted was signed here, and a write never replaces an object.
  \<^item> \<open>Workspaces\<close>, \<open>Workspace_Laws\<close>: workspaces and photos. \<open>Site_Http\<close>: the requests of \<open>media/http.rs\<close> and
    \<open>workspace_inbox/http.rs\<close>; \<open>Site_Outcome\<close>: finalized photos are returned again and served; \<open>Site_Samples\<close>: witnesses.

  \<^bold>\<open>Migration tools\<close> (\<open>tools/\<close>). \<open>Legacy_Events\<close>, \<open>Migration_Rows\<close>: how \<open>pg-to-turso\<close> reads and transforms streams, schedules and
  events; the locale \<open>chrono_dates\<close> states what the chrono crate does and is interpreted on the Gregorian calendar. \<open>Object_Keys\<close>: the
  copy of \<open>key.rs\<close> in \<open>object-cutover\<close>, against the server's. Their theorems are lemmas of the library, beside the numbered properties.

  \<^bold>\<open>Hypotheses of the properties.\<close> \<open>time_date\<close>: the laws of the time crate. \<open>friendly\<close>, \<open>balance_friendly\<close>, \<open>cron_friendly\<close>,
  \<open>considerate\<close>, \<open>orderly\<close>: other processes keep the invariant and what is final; \<open>quiet\<close>: they do nothing. \<open>recovers\<close>: the recovery of
  a failed synchronisation keeps its own deadline and reads a clock that can be stored (\<open>clock_accepts\<close>, \<open>writable\<close>). \<open>sql_clock\<close>: SQLite's
  stamps order instants to the millisecond. \<open>crates_ok\<close>: base64 and serde round trips. \<open>honest_store\<close>: what S3 documents of HEAD and of
  conditional PUT. \<open>photo_stays\<close>: a photo is not deleted. Each is instantiated in a witness.

  \<^bold>\<open>Bounds.\<close> The month loop of \<open>schedule_occurrences\<close> carries fuel, one unit per day of the range plus one; \<open>refresh_total\<close> shows
  that it never runs out. The portfolio's paging stops at the end of the 32-bit page counter. All other recursions are structural or
  have a termination proof.

  \<^bold>\<open>Simplifications.\<close> Gaps that an ignored insert leaves in AUTOINCREMENT ids, and \<open>created_at\<close> columns that nothing reads, are left
  out; statements of one loop share a reading of the clock; Monarch's credential row is part of the environment; JSON
  bodies and pages are records of the values they show; lists are in the order of their ids where the query leaves the order open;
  strings are byte sequences; sums of seconds in signed claims are unbounded.

  \<^bold>\<open>Not modelled.\<close> Opening connections, begin and commit failing; the third-party crates; the Resend HTTP client; templates, pages
  and configuration; the listings of the integrations; operator commands; the other tables and the driver programs of the
  migration tools. The manifest lists them with the reasons.
\<close>

end
